(* ===== verification/Py_Base.thy ===== *)
theory Py_Base
  imports Main "HOL-Library.AList" "HOL-Library.Char_ord" "HOL-Library.List_Lexorder"
    "HOL-Library.Product_Lexorder"
begin

text \<open>
  Prelude of the development: the fragment of Python that the modelled modules use.

  \<^item> A Python \<open>str\<close> is a \<^typ>\<open>string\<close>, one \<^typ>\<open>char\<close> per code point; the model covers
    the code points below 256, for which \<open>str.strip\<close> and \<open>repr\<close> are written out exactly.
  \<^item> A JSON-shaped object is a \<open>pyval\<close>; a \<open>dict\<close> is an association list in insertion order,
    and assignment to a key is \<^const>\<open>AList.update\<close> (in place when the key exists, appended
    otherwise), which is what a Python \<open>dict\<close> does.
  \<^item> A raised exception is the left value of a sum.
  \<^item> A \<open>datetime\<close> is a wall-clock reading in microseconds and an optional UTC offset.
\<close>

named_theorems py_simps \<open>unfolding rules for the Python primitives\<close>

section \<open>Strings\<close>

definition py_isspace :: "char \<Rightarrow> bool" where
  "py_isspace c = (let n = (of_char c :: nat) in
     (9 \<le> n \<and> n \<le> 13) \<or> (28 \<le> n \<and> n \<le> 32) \<or> n = 133 \<or> n = 160)"

definition strip :: "string \<Rightarrow> string" where
  "strip s = rev (dropWhile py_isspace (rev (dropWhile py_isspace s)))"

text \<open>Python's idiom \<open>text or None\<close> for a string.\<close>

definition or_none :: "string \<Rightarrow> string option" where
  "or_none s = (if s = [] then None else Some s)"

fun join_with :: "string \<Rightarrow> string list \<Rightarrow> string" where
  "join_with sep [] = []"
| "join_with sep [x] = x"
| "join_with sep (x # y # ys) = x @ sep @ join_with sep (y # ys)"

definition digit_char :: "nat \<Rightarrow> char" where
  "digit_char d = char_of (48 + d)"

fun show_nat :: "nat \<Rightarrow> string" where
  "show_nat n = (if n < 10 then [digit_char n] else show_nat (n div 10) @ [digit_char (n mod 10)])"

declare show_nat.simps [simp del]

definition show_int :: "int \<Rightarrow> string" where
  "show_int i = (if i < 0 then CHR ''-'' # show_nat (nat (- i)) else show_nat (nat i))"

text \<open>\<open>text[:n-3] + "..."\<close> when the text is longer than \<open>n\<close>, as the bounding helpers do.\<close>

definition ellipsize :: "nat \<Rightarrow> string \<Rightarrow> string" where
  "ellipsize n s = (if length s \<le> n then s else take (n - 3) s @ ''...'')"

text \<open>The substring test \<open>pat in s\<close>.\<close>

fun contains :: "string \<Rightarrow> string \<Rightarrow> bool" where
  "contains pat [] = (pat = [])"
| "contains pat (c # cs) = (take (length pat) (c # cs) = pat \<or> contains pat cs)"

text \<open>ASCII and Latin-1 lower-casing (\<open>str.lower\<close>).\<close>

definition lower_char :: "char \<Rightarrow> char" where
  "lower_char c = (let n = (of_char c :: nat) in
     if (65 \<le> n \<and> n \<le> 90) \<or> (192 \<le> n \<and> n \<le> 222 \<and> n \<noteq> 215) then char_of (n + 32) else c)"

definition lower :: "string \<Rightarrow> string" where
  "lower s = map lower_char s"

text \<open>\<open>str.split()\<close>: the words between runs of white space.\<close>

fun split_words :: "string \<Rightarrow> string \<Rightarrow> string list" where
  "split_words word [] = (if word = [] then [] else [word])"
| "split_words word (c # cs) =
     (if py_isspace c then (if word = [] then [] else [word]) @ split_words [] cs
      else split_words (word @ [c]) cs)"

section \<open>Values\<close>

text \<open>
  A float is known by its \<open>repr\<close>, its truth value and its truncation (\<open>Inl\<close> for the exception
  that \<open>int\<close> raises on a NaN or an infinity).
\<close>

datatype py_error = TypeError | ValueError string | OverflowError | LookupError string
  | AssertionError

datatype pyfloat = PyFloat (float_repr: string) (float_true: bool) (float_trunc: "py_error + int")

datatype pyval =
    PNone
  | PBool bool
  | PInt int
  | PFloat pyfloat
  | PStr string
  | PList "pyval list"
  | PDict "(string \<times> pyval) list"

type_synonym pydict = "(string \<times> pyval) list"

fun truthy :: "pyval \<Rightarrow> bool" where
  "truthy PNone = False"
| "truthy (PBool b) = b"
| "truthy (PInt i) = (i \<noteq> 0)"
| "truthy (PFloat f) = float_true f"
| "truthy (PStr s) = (s \<noteq> [])"
| "truthy (PList xs) = (xs \<noteq> [])"
| "truthy (PDict d) = (d \<noteq> [])"

subsection \<open>repr and str\<close>

definition hex_digit :: "nat \<Rightarrow> char" where
  "hex_digit d = (if d < 10 then char_of (48 + d) else char_of (87 + d))"

definition py_printable :: "char \<Rightarrow> bool" where
  "py_printable c = (let n = (of_char c :: nat) in
     (32 \<le> n \<and> n \<le> 126) \<or> (161 \<le> n \<and> n \<noteq> 173))"

definition repr_char :: "char \<Rightarrow> char \<Rightarrow> string" where
  "repr_char q c =
     (if c = q \<or> c = CHR 0x5C then [CHR 0x5C, c]
      else if c = CHR 0x09 then [CHR 0x5C, CHR ''t'']
      else if c = CHR 0x0A then [CHR 0x5C, CHR ''n'']
      else if c = CHR 0x0D then [CHR 0x5C, CHR ''r'']
      else if py_printable c then [c]
      else (let n = (of_char c :: nat) in [CHR 0x5C, CHR ''x'', hex_digit (n div 16), hex_digit (n mod 16)]))"

definition repr_str :: "string \<Rightarrow> string" where
  "repr_str s =
     (let q = (if CHR 0x27 \<in> set s \<and> CHR 0x22 \<notin> set s then CHR 0x22 else CHR 0x27)
      in [q] @ concat (map (repr_char q) s) @ [q])"

fun py_repr :: "pyval \<Rightarrow> string"
  and py_reprs :: "pyval list \<Rightarrow> string list"
  and py_repr_items :: "pydict \<Rightarrow> string list" where
  "py_repr PNone = ''None''"
| "py_repr (PBool b) = (if b then ''True'' else ''False'')"
| "py_repr (PInt i) = show_int i"
| "py_repr (PFloat f) = float_repr f"
| "py_repr (PStr s) = repr_str s"
| "py_repr (PList xs) = ''['' @ join_with '', '' (py_reprs xs) @ '']''"
| "py_repr (PDict d) = ''{'' @ join_with '', '' (py_repr_items d) @ ''}''"
| "py_reprs [] = []"
| "py_reprs (x # xs) = py_repr x # py_reprs xs"
| "py_repr_items [] = []"
| "py_repr_items (kv # d) = (repr_str (fst kv) @ '': '' @ py_repr (snd kv)) # py_repr_items d"

definition py_str :: "pyval \<Rightarrow> string" where
  "py_str v = (case v of PStr s \<Rightarrow> s | _ \<Rightarrow> py_repr v)"

text \<open>\<open>str(raw or "")\<close>.\<close>

definition str_or_empty :: "pyval \<Rightarrow> string" where
  "str_or_empty v = (if truthy v then py_str v else [])"

subsection \<open>int\<close>

definition is_digit :: "char \<Rightarrow> bool" where
  "is_digit c = (let n = (of_char c :: nat) in 48 \<le> n \<and> n \<le> 57)"

fun parse_digits :: "bool \<Rightarrow> int \<Rightarrow> string \<Rightarrow> int option" where
  "parse_digits prev acc [] = (if prev then Some acc else None)"
| "parse_digits prev acc (c # cs) =
     (if is_digit c then parse_digits True (10 * acc + (of_char c - 48)) cs
      else if c = CHR ''_'' \<and> prev then parse_digits False acc cs
      else None)"

text \<open>
  \<open>int(text)\<close>: surrounding white space, a sign, digits with single underscores between them,
  at most 4300 of them (the interpreter's limit).
\<close>

definition parse_int :: "string \<Rightarrow> int option" where
  "parse_int text =
     (let s = strip text in
      if 4300 < length (filter is_digit s) then None
      else (case s of
          CHR ''+'' # ds \<Rightarrow> parse_digits False 0 ds
        | CHR ''-'' # ds \<Rightarrow> map_option uminus (parse_digits False 0 ds)
        | ds \<Rightarrow> parse_digits False 0 ds))"

fun py_int :: "pyval \<Rightarrow> py_error + int" where
  "py_int PNone = Inl TypeError"
| "py_int (PBool b) = Inr (if b then 1 else 0)"
| "py_int (PInt i) = Inr i"
| "py_int (PFloat f) = float_trunc f"
| "py_int (PStr s) = (case parse_int s of
      None \<Rightarrow> Inl (ValueError ''invalid literal for int()'') | Some i \<Rightarrow> Inr i)"
| "py_int (PList xs) = Inl TypeError"
| "py_int (PDict d) = Inl TypeError"

subsection \<open>Dictionaries\<close>

definition dict_get :: "pydict \<Rightarrow> string \<Rightarrow> pyval" where
  "dict_get d k = (case map_of d k of None \<Rightarrow> PNone | Some v \<Rightarrow> v)"

definition dict_get_default :: "pydict \<Rightarrow> string \<Rightarrow> pyval \<Rightarrow> pyval" where
  "dict_get_default d k dflt = (case map_of d k of None \<Rightarrow> dflt | Some v \<Rightarrow> v)"

definition dict_set :: "pydict \<Rightarrow> string \<Rightarrow> pyval \<Rightarrow> pydict" where
  "dict_set d k v = AList.update k v d"

definition dict_setdefault :: "pydict \<Rightarrow> string \<Rightarrow> pyval \<Rightarrow> pydict" where
  "dict_setdefault d k v = (case map_of d k of None \<Rightarrow> d @ [(k, v)] | Some _ \<Rightarrow> d)"

definition opt_str :: "string option \<Rightarrow> pyval" where
  "opt_str o1 = (case o1 of None \<Rightarrow> PNone | Some s \<Rightarrow> PStr s)"

definition opt_int :: "int option \<Rightarrow> pyval" where
  "opt_int o1 = (case o1 of None \<Rightarrow> PNone | Some i \<Rightarrow> PInt i)"

text \<open>\<^verbatim>\<open>a or b\<close>.\<close>

definition py_or :: "pyval \<Rightarrow> pyval \<Rightarrow> pyval" where
  "py_or a b = (if truthy a then a else b)"

definition str_list :: "string list \<Rightarrow> pyval" where
  "str_list xs = PList (map PStr xs)"

section \<open>Datetimes\<close>

text \<open>
  \<open>wall\<close> counts microseconds from 0001-01-01T00:00 on the clock the value shows; \<open>utcoff\<close> is
  the UTC offset in microseconds of an aware value and \<open>None\<close> for a naive one.
\<close>

record pydt =
  wall :: int
  utcoff :: "int option"

definition dt_aware :: "pydt \<Rightarrow> bool" where
  "dt_aware d = (utcoff d \<noteq> None)"

definition instant :: "pydt \<Rightarrow> int" where
  "instant d = wall d - (case utcoff d of None \<Rightarrow> 0 | Some f \<Rightarrow> f)"

definition replace_utc :: "pydt \<Rightarrow> pydt" where
  "replace_utc d = d\<lparr>utcoff := Some 0\<rparr>"

definition astimezone_utc :: "pydt \<Rightarrow> pydt" where
  "astimezone_utc d = \<lparr>wall = instant d, utcoff = Some 0\<rparr>"

text \<open>Ordering a naive with an aware datetime raises \<open>TypeError\<close>.\<close>

definition dt_less :: "pydt \<Rightarrow> pydt \<Rightarrow> py_error + bool" where
  "dt_less a b = (if dt_aware a = dt_aware b then Inr (instant a < instant b) else Inl TypeError)"

definition dt_le :: "pydt \<Rightarrow> pydt \<Rightarrow> py_error + bool" where
  "dt_le a b = (if dt_aware a = dt_aware b then Inr (instant a \<le> instant b) else Inl TypeError)"

definition dt_add_us :: "pydt \<Rightarrow> int \<Rightarrow> pydt" where
  "dt_add_us d us = d\<lparr>wall := wall d + us\<rparr>"

subsection \<open>isoformat\<close>

definition days_before_month :: "nat \<Rightarrow> nat" where
  "days_before_month m =
     (if m \<le> 1 then 0 else [0, 31, 59, 90, 120, 151, 181, 212, 243, 273, 304, 334] ! (m - 1))"

text \<open>The proleptic Gregorian date of a day number, day 1 being 0001-01-01.\<close>

definition ord2ymd :: "nat \<Rightarrow> nat \<times> nat \<times> nat" where
  "ord2ymd ordinal =
     (let n0 = ordinal - 1;
          n400 = n0 div 146097; r400 = n0 mod 146097;
          n100 = r400 div 36524; r100 = r400 mod 36524;
          n4 = r100 div 1461; r4 = r100 mod 1461;
          n1 = r4 div 365; n = r4 mod 365;
          year = n400 * 400 + 1 + n100 * 100 + n4 * 4 + n1
      in if n1 = 4 \<or> n100 = 4 then (year - 1, 12, 31)
         else
           (let leap = (n1 = 3 \<and> (n4 \<noteq> 24 \<or> n100 = 3));
                before = (\<lambda>m. days_before_month m + (if 2 < m \<and> leap then 1 else 0));
                m0 = (n + 50) div 32;
                m = (if n < before m0 then m0 - 1 else m0)
            in (year, m, n - before m + 1)))"

definition pad_nat :: "nat \<Rightarrow> nat \<Rightarrow> string" where
  "pad_nat w n = (let s = show_nat n in replicate (w - length s) (CHR ''0'') @ s)"

definition offset_text :: "int \<Rightarrow> string" where
  "offset_text f =
     (let us = nat \<bar>f\<bar>; ss = us div 1000000; frac = us mod 1000000
      in (if f < 0 then ''-'' else ''+'') @ pad_nat 2 (ss div 3600) @ '':'' @ pad_nat 2 (ss div 60 mod 60)
         @ (if ss mod 60 = 0 \<and> frac = 0 then [] else '':'' @ pad_nat 2 (ss mod 60))
         @ (if frac = 0 then [] else ''.'' @ pad_nat 6 frac))"

definition isoformat :: "pydt \<Rightarrow> string" where
  "isoformat d =
     (let us = nat (wall d); day = us div 86400000000; t = us mod 86400000000;
          ss = t div 1000000; frac = t mod 1000000;
          (y, mo, dd) = ord2ymd (day + 1)
      in pad_nat 4 y @ ''-'' @ pad_nat 2 mo @ ''-'' @ pad_nat 2 dd @ ''T''
         @ pad_nat 2 (ss div 3600) @ '':'' @ pad_nat 2 (ss div 60 mod 60) @ '':'' @ pad_nat 2 (ss mod 60)
         @ (if frac = 0 then [] else ''.'' @ pad_nat 6 frac)
         @ (case utcoff d of None \<Rightarrow> [] | Some f \<Rightarrow> offset_text f))"

section \<open>Lemmas shared by the components\<close>

lemma strip_Nil [simp]: "strip [] = []"
  by (simp add: strip_def)

lemma dropWhile_rev_idem:
  "dropWhile P (rev (dropWhile P (rev (dropWhile P xs)))) = rev (dropWhile P (rev (dropWhile P xs)))"
proof (cases "dropWhile P xs")
  case Nil
  show ?thesis unfolding Nil by simp
next
  case (Cons y ys)
  then have "\<not> P y"
    using hd_dropWhile [of P xs] by simp
  then have "dropWhile P (rev (y # ys)) = dropWhile P (rev ys) @ [y]"
    by (simp add: dropWhile_append)
  with Cons \<open>\<not> P y\<close> show ?thesis by simp
qed

lemma strip_strip [simp]: "strip (strip s) = strip s"
  unfolding strip_def
  by (subst dropWhile_rev_idem) (simp add: dropWhile_idem)

lemma length_strip_le: "length (strip s) \<le> length s"
proof -
  have "length (strip s) \<le> length (dropWhile py_isspace s)"
    unfolding strip_def by (metis length_dropWhile_le length_rev)
  also have "\<dots> \<le> length s" by (rule length_dropWhile_le)
  finally show ?thesis .
qed

lemma or_none_Some [simp]: "or_none s = Some t \<longleftrightarrow> s = t \<and> t \<noteq> []"
  by (auto simp: or_none_def)

lemma or_none_None [simp]: "or_none s = None \<longleftrightarrow> s = []"
  by (simp add: or_none_def)

lemma length_ellipsize: "3 \<le> n \<Longrightarrow> length (ellipsize n s) \<le> n"
  by (auto simp: ellipsize_def)

lemma map_of_dict_set [simp]: "map_of (dict_set d k v) = (map_of d)(k \<mapsto> v)"
  by (simp add: dict_set_def update_conv')

lemma dict_get_set [simp]: "dict_get (dict_set d k v) k' = (if k' = k then v else dict_get d k')"
  by (simp add: dict_get_def)

lemma dict_keys_set: "fst ` set (dict_set d k v) = insert k (fst ` set d)"
  by (simp add: dict_set_def dom_update)

lemma length_dict_set: "length (dict_set d k v) \<le> Suc (length d)"
  unfolding dict_set_def by (induction d) (auto split: if_splits)

lemma distinct_dict_set [intro]: "distinct (map fst d) \<Longrightarrow> distinct (map fst (dict_set d k v))"
  by (simp add: dict_set_def distinct_update)

lemma map_of_dict_setdefault [simp]:
  "map_of (dict_setdefault d k v) k' =
     (if k' = k \<and> map_of d k = None then Some v else map_of d k')"
  by (auto simp: dict_setdefault_def map_add_def split: option.splits)

lemma truthy_PStr_or: "str_or_empty (PStr s) = s"
  by (cases s) (simp_all add: str_or_empty_def py_str_def)

lemma str_or_empty_simps [simp]:
  "str_or_empty PNone = []" "str_or_empty (PStr s) = s" "str_or_empty (PBool False) = []"
  by (simp_all add: truthy_PStr_or) (simp_all add: str_or_empty_def)

lemma instant_replace_utc [simp]: "instant (replace_utc d) = wall d"
  by (simp add: instant_def replace_utc_def)

lemma dt_aware_simps [simp]:
  "dt_aware (replace_utc d)" "dt_aware (astimezone_utc d)"
  "dt_aware (dt_add_us d us) = dt_aware d"
  by (simp_all add: dt_aware_def replace_utc_def astimezone_utc_def dt_add_us_def)

lemma instant_add_us [simp]: "instant (dt_add_us d us) = instant d + us"
  by (simp add: instant_def dt_add_us_def split: option.splits)

lemma dt_less_aware: "dt_aware a \<Longrightarrow> dt_aware b \<Longrightarrow> dt_less a b = Inr (instant a < instant b)"
  by (simp add: dt_less_def)

declare strip_def [py_simps] py_isspace_def [py_simps] py_str_def [py_simps]
  str_or_empty_def [py_simps] dict_get_def [py_simps] dict_get_default_def [py_simps]
  dict_set_def [py_simps] opt_str_def [py_simps] str_list_def [py_simps] or_none_def [py_simps]

end
