(* ===== verification/Orm_Table.thy ===== *)
theory Orm_Table
  imports Py_Base
begin

text \<open>
  The database session the stores talk to. SQLAlchemy and the database behind it are not part of
  the repository, so a session is a parameter of every store operation: a record \<open>orm\<close> of the
  calls the stores make on one mapped class. What the stores rely on is the locale \<open>orm_table\<close>;
  its laws are the documented contract of a table with a primary key. The locale is interpreted
  on a table held as a list of rows, which the witnesses of the store properties run on.
\<close>

text \<open>What a commit can raise: an \<open>IntegrityError\<close> with its message, or any other failure.\<close>

datatype db_error = IntegrityError string | DatabaseError string

text \<open>
  \<^item> \<open>orm_select db P\<close>: \<open>session.query(M).filter(P).all()\<close>;
  \<^item> \<open>orm_add db r\<close>: \<open>session.add(r); session.commit(); session.refresh(r)\<close>;
  \<^item> \<open>orm_commit db r\<close>: \<open>session.commit(); session.refresh(r)\<close> after the attributes of a loaded row
    were assigned, \<open>r\<close> being the row with its new attributes.
\<close>

record ('db, 'row) orm =
  orm_select :: "'db \<Rightarrow> ('row \<Rightarrow> bool) \<Rightarrow> 'row list"
  orm_add :: "'db \<Rightarrow> 'row \<Rightarrow> db_error + 'db"
  orm_commit :: "'db \<Rightarrow> 'row \<Rightarrow> db_error + 'db"

text \<open>\<open>session.query(M).filter_by(...).first()\<close>.\<close>

definition orm_first :: "('db, 'row) orm \<Rightarrow> 'db \<Rightarrow> ('row \<Rightarrow> bool) \<Rightarrow> 'row option" where
  "orm_first api db P = (case orm_select api db P of [] \<Rightarrow> None | r # _ \<Rightarrow> Some r)"

definition orm_rows :: "('db, 'row) orm \<Rightarrow> 'db \<Rightarrow> 'row set" where
  "orm_rows api db = set (orm_select api db (\<lambda>_. True))"

locale orm_table =
  fixes api :: "('db, 'row) orm"
    and key :: "'row \<Rightarrow> 'k"
    and invar :: "'db \<Rightarrow> bool"
  assumes select_rows: "invar db \<Longrightarrow> set (orm_select api db P) = {r \<in> orm_rows api db. P r}"
    and select_distinct: "invar db \<Longrightarrow> distinct (orm_select api db P)"
    and primary_key: "invar db \<Longrightarrow> r \<in> orm_rows api db \<Longrightarrow> r' \<in> orm_rows api db \<Longrightarrow>
      key r = key r' \<Longrightarrow> r = r'"
    and add_rows: "invar db \<Longrightarrow> orm_add api db r = Inr db' \<Longrightarrow>
      orm_rows api db' = insert r (orm_rows api db)"
    and add_fresh: "invar db \<Longrightarrow> orm_add api db r = Inr db' \<Longrightarrow> r' \<in> orm_rows api db \<Longrightarrow>
      key r' \<noteq> key r"
    and add_invar: "invar db \<Longrightarrow> orm_add api db r = Inr db' \<Longrightarrow> invar db'"
    and commit_rows: "invar db \<Longrightarrow> r0 \<in> orm_rows api db \<Longrightarrow> key r0 = key r \<Longrightarrow>
      orm_commit api db r = Inr db' \<Longrightarrow> orm_rows api db' = insert r (orm_rows api db - {r0})"
    and commit_invar: "invar db \<Longrightarrow> r0 \<in> orm_rows api db \<Longrightarrow> key r0 = key r \<Longrightarrow>
      orm_commit api db r = Inr db' \<Longrightarrow> invar db'"
begin

lemma first_Some:
  assumes "invar db" "orm_first api db P = Some r"
  shows "r \<in> orm_rows api db" "P r"
  using assms select_rows [OF assms(1), of P]
  by (auto simp: orm_first_def split: list.splits)

lemma first_None: "invar db \<Longrightarrow> orm_first api db P = None \<longleftrightarrow> (\<forall>r \<in> orm_rows api db. \<not> P r)"
  using select_rows [of db P] by (auto simp: orm_first_def split: list.splits)

lemma first_key:
  assumes "invar db"
  shows "orm_first api db (\<lambda>r. key r = k) = Some r \<longleftrightarrow> r \<in> orm_rows api db \<and> key r = k"
proof
  assume "orm_first api db (\<lambda>r. key r = k) = Some r"
  then show "r \<in> orm_rows api db \<and> key r = k" using first_Some [OF assms] by blast
next
  assume r: "r \<in> orm_rows api db \<and> key r = k"
  then have "orm_first api db (\<lambda>r. key r = k) \<noteq> None"
    by (auto simp: first_None [OF assms])
  then obtain r' where r': "orm_first api db (\<lambda>r. key r = k) = Some r'" by blast
  then have "r' \<in> orm_rows api db" "key r' = k" using first_Some [OF assms] by blast+
  with r have "r' = r" using primary_key [OF assms, of r' r] by simp
  with r' show "orm_first api db (\<lambda>r. key r = k) = Some r" by simp
qed

lemma first_key_eqI:
  "invar db \<Longrightarrow> r \<in> orm_rows api db \<Longrightarrow> orm_first api db (\<lambda>x. key x = key r) = Some r"
  by (simp add: first_key)

text \<open>Reading back after an insert or an update: the written row, and every other row unchanged.\<close>

lemma first_key_add:
  assumes "invar db" "orm_add api db r = Inr db'"
  shows "orm_first api db' (\<lambda>x. key x = k) =
    (if k = key r then Some r else orm_first api db (\<lambda>x. key x = k))"
proof (cases "k = key r")
  case True
  then show ?thesis
    using assms add_rows [OF assms] add_invar [OF assms] by (simp add: first_key)
next
  case False
  have "orm_first api db' (\<lambda>x. key x = k) = Some x \<longleftrightarrow> orm_first api db (\<lambda>x. key x = k) = Some x" for x
    using False assms add_rows [OF assms] add_invar [OF assms] by (auto simp: first_key)
  with False show ?thesis by (metis option.exhaust)
qed

lemma first_key_commit:
  assumes "invar db" "r0 \<in> orm_rows api db" "key r0 = key r" "orm_commit api db r = Inr db'"
  shows "orm_first api db' (\<lambda>x. key x = k) =
    (if k = key r then Some r else orm_first api db (\<lambda>x. key x = k))"
proof (cases "k = key r")
  case True
  then show ?thesis
    using commit_rows [OF assms] commit_invar [OF assms] by (simp add: first_key)
next
  case False
  have "orm_first api db' (\<lambda>x. key x = k) = Some x \<longleftrightarrow> orm_first api db (\<lambda>x. key x = k) = Some x" for x
    using False assms(1,3) commit_rows [OF assms] commit_invar [OF assms] by (auto simp: first_key)
  with False show ?thesis by (metis option.exhaust)
qed

text \<open>A property of every row, lifted over the two ways of writing.\<close>

lemma all_rows_add:
  "invar db \<Longrightarrow> orm_add api db r = Inr db' \<Longrightarrow> \<forall>x \<in> orm_rows api db. Q x \<Longrightarrow> Q r \<Longrightarrow>
    \<forall>x \<in> orm_rows api db'. Q x"
  by (simp add: add_rows)

lemma all_rows_commit:
  "invar db \<Longrightarrow> r0 \<in> orm_rows api db \<Longrightarrow> key r0 = key r \<Longrightarrow> orm_commit api db r = Inr db' \<Longrightarrow>
    \<forall>x \<in> orm_rows api db. Q x \<Longrightarrow> Q r \<Longrightarrow> \<forall>x \<in> orm_rows api db'. Q x"
  by (simp add: commit_rows)

end

section \<open>A table held as a list of rows\<close>

text \<open>
  The instance: rows in insertion order, \<open>ok\<close> the constraint of the mapped class (a check that the
  candidate row against the present ones violates none), the message of the integrity error given.
\<close>

definition list_select :: "'row list \<Rightarrow> ('row \<Rightarrow> bool) \<Rightarrow> 'row list" where
  "list_select rows P = filter P rows"

definition list_add :: "('row \<Rightarrow> 'k) \<Rightarrow> ('row list \<Rightarrow> 'row \<Rightarrow> string option) \<Rightarrow> 'row list \<Rightarrow> 'row \<Rightarrow>
    db_error + 'row list" where
  "list_add key ok rows r =
     (if key r \<in> set (map key rows) then Inl (IntegrityError ''UNIQUE constraint failed: primary key'')
      else (case ok rows r of Some msg \<Rightarrow> Inl (IntegrityError msg) | None \<Rightarrow> Inr (rows @ [r])))"

definition list_commit :: "('row \<Rightarrow> 'k) \<Rightarrow> ('row list \<Rightarrow> 'row \<Rightarrow> string option) \<Rightarrow> 'row list \<Rightarrow> 'row \<Rightarrow>
    db_error + 'row list" where
  "list_commit key ok rows r =
     (case ok (filter (\<lambda>x. key x \<noteq> key r) rows) r of
        Some msg \<Rightarrow> Inl (IntegrityError msg)
      | None \<Rightarrow> Inr (map (\<lambda>x. if key x = key r then r else x) rows))"

definition list_orm :: "('row \<Rightarrow> 'k) \<Rightarrow> ('row list \<Rightarrow> 'row \<Rightarrow> string option) \<Rightarrow> ('row list, 'row) orm" where
  "list_orm key ok = \<lparr>orm_select = list_select, orm_add = list_add key ok, orm_commit = list_commit key ok\<rparr>"

definition list_invar :: "('row \<Rightarrow> 'k) \<Rightarrow> 'row list \<Rightarrow> bool" where
  "list_invar key rows = distinct (map key rows)"

lemmas list_orm_defs = list_orm_def list_select_def list_add_def list_commit_def list_invar_def

lemma list_orm_ops [simp]:
  "orm_select (list_orm key ok) = list_select" "orm_add (list_orm key ok) = list_add key ok"
  "orm_commit (list_orm key ok) = list_commit key ok"
  by (simp_all add: list_orm_def)

lemma list_orm_rows [simp]: "orm_rows (list_orm key ok) rows = set rows"
  by (simp add: orm_rows_def list_orm_defs)

lemma list_commit_keys:
  "map key (map (\<lambda>x. if key x = key r then r else x) rows) = map key rows"
  by (induction rows) auto

lemma list_commit_Inr:
  "list_commit key ok rows r = Inr db' \<Longrightarrow> db' = map (\<lambda>x. if key x = key r then r else x) rows"
  by (simp add: list_commit_def split: option.splits)

lemma list_commit_set:
  assumes "distinct (map key rows)" "r0 \<in> set rows" "key r0 = key r"
  shows "set (map (\<lambda>x. if key x = key r then r else x) rows) = insert r (set rows - {r0})"
proof -
  have "inj_on key (set rows)" using assms(1) by (simp add: distinct_map)
  with assms(2,3) have "key x = key r \<longleftrightarrow> x = r0" if "x \<in> set rows" for x
    using that inj_onD by metis
  then have "set (map (\<lambda>x. if key x = key r then r else x) rows) = (\<lambda>x. if x = r0 then r else x) ` set rows"
    unfolding set_map by (intro image_cong) simp_all
  with assms(2) show ?thesis by auto
qed

interpretation list_tbl: orm_table "list_orm key ok" key "list_invar key"
proof unfold_locales
  fix db db' :: "'a list" and P :: "'a \<Rightarrow> bool" and r r' r0 :: 'a
  let ?api = "list_orm key ok"
  show "set (orm_select ?api db P) = {r \<in> orm_rows ?api db. P r}"
    by (auto simp: list_orm_def list_select_def orm_rows_def)
  show "list_invar key db \<Longrightarrow> distinct (orm_select ?api db P)"
    by (auto simp: list_orm_def list_select_def list_invar_def distinct_map)
  show "list_invar key db \<Longrightarrow> r \<in> orm_rows ?api db \<Longrightarrow> r' \<in> orm_rows ?api db \<Longrightarrow>
      key r = key r' \<Longrightarrow> r = r'"
    by (auto simp: list_invar_def distinct_map inj_on_def)
  show "orm_add ?api db r = Inr db' \<Longrightarrow> orm_rows ?api db' = insert r (orm_rows ?api db)"
    and "orm_add ?api db r = Inr db' \<Longrightarrow> r' \<in> orm_rows ?api db \<Longrightarrow> key r' \<noteq> key r"
    by (auto simp: list_orm_def list_add_def orm_rows_def list_select_def image_iff
        split: if_splits option.splits)
  show "list_invar key db \<Longrightarrow> orm_add ?api db r = Inr db' \<Longrightarrow> list_invar key db'"
    by (auto simp: list_orm_def list_add_def list_invar_def split: if_splits option.splits)
  show "orm_rows ?api db' = insert r (orm_rows ?api db - {r0})"
    if "list_invar key db" "r0 \<in> orm_rows ?api db" "key r0 = key r" "orm_commit ?api db r = Inr db'"
    using that list_commit_set [of key db r0 r] list_commit_Inr [of key ok db r db']
    unfolding list_orm_rows list_invar_def list_orm_ops by blast
  show "list_invar key db'" if "list_invar key db" "orm_commit ?api db r = Inr db'"
    using that list_commit_keys [of key r db] list_commit_Inr [of key ok db r db']
    unfolding list_invar_def list_orm_ops by metis
qed

lemma orm_table_list_orm: "orm_table (list_orm key ok) key (list_invar key)"
  by unfold_locales

end
