(* ===== verification/Work_Orders.thy ===== *)
theory Work_Orders
  imports Py_Base "HOL-Library.Sublist"
begin

text \<open>
  Model of \<^verbatim>\<open>guardian/agents/work_orders.py\<close>: the statuses and the transition table of a coding
  work order, the create and update payloads with their dictionary codecs, and the coercion
  helpers. The lemmas show which lifecycles the table admits and that the codecs normalise.
\<close>

section \<open>Statuses and transitions\<close>

definition WORK_ORDER_STATUSES :: "string set" where
  "WORK_ORDER_STATUSES =
     {''draft'', ''ready'', ''leased'', ''running'', ''validating'', ''retrying'', ''passed'',
      ''failed'', ''blocked'', ''escalated'', ''merge_ready'', ''merged'', ''archived'', ''cancelled''}"

definition WORK_ORDER_TERMINAL_STATUSES :: "string set" where
  "WORK_ORDER_TERMINAL_STATUSES = {''failed'', ''merged'', ''archived'', ''cancelled''}"

definition WORK_ORDER_ACTIVE_STATUSES :: "string set" where
  "WORK_ORDER_ACTIVE_STATUSES = WORK_ORDER_STATUSES - WORK_ORDER_TERMINAL_STATUSES"

definition WORK_ORDER_ALLOWED_TRANSITIONS :: "(string \<times> string set) list" where
  "WORK_ORDER_ALLOWED_TRANSITIONS =
     [(''draft'', {''ready'', ''cancelled''}),
      (''ready'', {''leased'', ''cancelled''}),
      (''leased'', {''running'', ''cancelled''}),
      (''running'', {''validating'', ''failed'', ''blocked'', ''escalated'', ''cancelled''}),
      (''validating'', {''retrying'', ''passed'', ''failed'', ''cancelled''}),
      (''retrying'', {''running'', ''cancelled''}),
      (''passed'', {''merge_ready'', ''cancelled''}),
      (''blocked'', {''ready'', ''cancelled''}),
      (''escalated'', {''ready'', ''cancelled''}),
      (''merge_ready'', {''merged'', ''cancelled''}),
      (''failed'', {''archived''}),
      (''merged'', {''archived''}),
      (''cancelled'', {''archived''}),
      (''archived'', {})]"

record WorkOrderValidationResult =
  wv_ok :: bool
  wv_reason :: "string option"
  wv_reason_code :: "string option"

definition wv_good :: WorkOrderValidationResult where
  "wv_good = \<lparr>wv_ok = True, wv_reason = None, wv_reason_code = None\<rparr>"

definition wv_bad :: "string \<Rightarrow> string \<Rightarrow> WorkOrderValidationResult" where
  "wv_bad reason code = \<lparr>wv_ok = False, wv_reason = Some reason, wv_reason_code = Some code\<rparr>"

definition is_terminal_work_order_status :: "string \<Rightarrow> bool" where
  "is_terminal_work_order_status status = (status \<in> WORK_ORDER_TERMINAL_STATUSES)"

definition is_active_work_order_status :: "string \<Rightarrow> bool" where
  "is_active_work_order_status status = (status \<in> WORK_ORDER_ACTIVE_STATUSES)"

definition allowed_targets :: "string \<Rightarrow> string set" where
  "allowed_targets current =
     (case map_of WORK_ORDER_ALLOWED_TRANSITIONS current of None \<Rightarrow> {} | Some ts \<Rightarrow> ts)"

definition validate_work_order_transition :: "string \<Rightarrow> string \<Rightarrow> WorkOrderValidationResult" where
  "validate_work_order_transition from_status to_status =
     (let current = strip from_status; target = strip to_status in
      if current \<notin> WORK_ORDER_STATUSES
      then wv_bad (''invalid from status: '' @ current) ''invalid_work_order_status''
      else if target \<notin> WORK_ORDER_STATUSES
      then wv_bad (''invalid to status: '' @ target) ''invalid_work_order_status''
      else if current = target then wv_good
      else if target \<notin> allowed_targets current
      then wv_bad (''forbidden transition: '' @ current @ '' -> '' @ target) ''invalid_work_order_transition''
      else wv_good)"

section \<open>Coercions\<close>

definition coerce_optional_text :: "pyval \<Rightarrow> string option" where
  "coerce_optional_text raw = or_none (strip (str_or_empty raw))"

definition coerce_int :: "pyval \<Rightarrow> int \<Rightarrow> py_error + int" where
  "coerce_int raw dflt =
     (case py_int raw of
        Inr i \<Rightarrow> Inr i
      | Inl TypeError \<Rightarrow> Inr dflt
      | Inl (ValueError _) \<Rightarrow> Inr dflt
      | Inl e \<Rightarrow> Inl e)"

fun dedup_text :: "string list \<Rightarrow> pyval list \<Rightarrow> string list" where
  "dedup_text vals [] = vals"
| "dedup_text vals (item # items) =
     (let value = strip (str_or_empty item) in
      dedup_text (if value \<noteq> [] \<and> value \<notin> set vals then vals @ [value] else vals) items)"

text \<open>The iterable of the coercions: a list as it is, any other value as a list of one.\<close>

definition as_items :: "pyval \<Rightarrow> pyval list" where
  "as_items raw = (case raw of PList xs \<Rightarrow> xs | _ \<Rightarrow> [raw])"

definition coerce_deduped_text_list :: "pyval \<Rightarrow> string list" where
  "coerce_deduped_text_list raw = (if raw = PNone then [] else dedup_text [] (as_items raw))"

definition coerce_mapping :: "pyval \<Rightarrow> pydict" where
  "coerce_mapping raw = (case raw of PDict d \<Rightarrow> d | _ \<Rightarrow> [])"

section \<open>Payloads\<close>

text \<open>
  \<open>priority\<close> and \<open>max_validation_attempts\<close> of a create payload are declared \<open>int\<close> and converted
  with \<open>int(...)\<close> by the store, which handles a failing conversion; they are kept as values here.
\<close>

record WorkOrderCreate =
  c_campaign_id :: "string option"
  c_title :: string
  c_objective :: string
  c_scope :: "string option"
  c_status :: "string option"
  c_priority :: pyval
  c_created_by :: "string option"
  c_assigned_worker_id :: "string option"
  c_source_thread_id :: "string option"
  c_source_message_id :: "string option"
  c_dependency_ids :: "string list"
  c_file_scope :: "string list"
  c_validation_command :: "string option"
  c_adapter_kind :: "string option"
  c_max_validation_attempts :: pyval
  c_require_worktree_lease :: bool
  c_commit_after_validation :: bool
  c_require_human_review_before_merge :: bool
  c_blocked_reason :: "string option"
  c_extra_meta :: pydict

definition create_to_dict :: "WorkOrderCreate \<Rightarrow> pydict" where
  "create_to_dict c =
     [(''campaign_id'', opt_str (c_campaign_id c)),
      (''title'', PStr (c_title c)),
      (''objective'', PStr (c_objective c)),
      (''scope'', opt_str (c_scope c)),
      (''status'', opt_str (c_status c)),
      (''priority'', c_priority c),
      (''created_by'', opt_str (c_created_by c)),
      (''assigned_worker_id'', opt_str (c_assigned_worker_id c)),
      (''source_thread_id'', opt_str (c_source_thread_id c)),
      (''source_message_id'', opt_str (c_source_message_id c)),
      (''dependency_ids'', str_list (c_dependency_ids c)),
      (''file_scope'', str_list (c_file_scope c)),
      (''validation_command'', opt_str (c_validation_command c)),
      (''adapter_kind'', opt_str (c_adapter_kind c)),
      (''max_validation_attempts'', c_max_validation_attempts c),
      (''require_worktree_lease'', PBool (c_require_worktree_lease c)),
      (''commit_after_validation'', PBool (c_commit_after_validation c)),
      (''require_human_review_before_merge'', PBool (c_require_human_review_before_merge c)),
      (''blocked_reason'', opt_str (c_blocked_reason c)),
      (''extra_meta'', PDict (c_extra_meta c))]"

definition create_from_dict :: "pydict \<Rightarrow> py_error + WorkOrderCreate" where
  "create_from_dict data =
     (case coerce_int (dict_get data ''priority'') 0 of
        Inl e \<Rightarrow> Inl e
      | Inr priority \<Rightarrow>
     (case coerce_int (dict_get data ''max_validation_attempts'') 1 of
        Inl e \<Rightarrow> Inl e
      | Inr attempts \<Rightarrow>
        Inr \<lparr>c_campaign_id = coerce_optional_text (dict_get data ''campaign_id''),
         c_title = (case coerce_optional_text (dict_get data ''title'') of None \<Rightarrow> [] | Some t \<Rightarrow> t),
         c_objective = (case coerce_optional_text (dict_get data ''objective'') of None \<Rightarrow> [] | Some t \<Rightarrow> t),
         c_scope = coerce_optional_text (dict_get data ''scope''),
         c_status = coerce_optional_text (dict_get data ''status''),
         c_priority = PInt priority,
         c_created_by = coerce_optional_text (dict_get data ''created_by''),
         c_assigned_worker_id = coerce_optional_text (dict_get data ''assigned_worker_id''),
         c_source_thread_id = coerce_optional_text (dict_get data ''source_thread_id''),
         c_source_message_id = coerce_optional_text (dict_get data ''source_message_id''),
         c_dependency_ids = coerce_deduped_text_list (dict_get data ''dependency_ids''),
         c_file_scope = coerce_deduped_text_list (dict_get data ''file_scope''),
         c_validation_command = coerce_optional_text (dict_get data ''validation_command''),
         c_adapter_kind = coerce_optional_text (dict_get data ''adapter_kind''),
         c_max_validation_attempts = PInt (max 1 attempts),
         c_require_worktree_lease =
           truthy (dict_get_default data ''require_worktree_lease'' (PBool False)),
         c_commit_after_validation =
           truthy (dict_get_default data ''commit_after_validation'' (PBool False)),
         c_require_human_review_before_merge =
           truthy (dict_get_default data ''require_human_review_before_merge'' (PBool True)),
         c_blocked_reason = coerce_optional_text (dict_get data ''blocked_reason''),
         c_extra_meta = coerce_mapping (dict_get data ''extra_meta'')\<rparr>))"

record WorkOrderUpdate =
  u_title :: "string option"
  u_objective :: "string option"
  u_scope :: "string option"
  u_priority :: "int option"
  u_assigned_worker_id :: "string option"
  u_dependency_ids :: "string list option"
  u_file_scope :: "string list option"
  u_validation_command :: "string option"
  u_adapter_kind :: "string option"
  u_max_validation_attempts :: "int option"
  u_require_worktree_lease :: "bool option"
  u_commit_after_validation :: "bool option"
  u_require_human_review_before_merge :: "bool option"
  u_blocked_reason :: "string option"
  u_extra_meta :: "pydict option"

definition empty_update :: WorkOrderUpdate where
  "empty_update =
     \<lparr>u_title = None, u_objective = None, u_scope = None, u_priority = None,
      u_assigned_worker_id = None, u_dependency_ids = None, u_file_scope = None,
      u_validation_command = None, u_adapter_kind = None, u_max_validation_attempts = None,
      u_require_worktree_lease = None, u_commit_after_validation = None,
      u_require_human_review_before_merge = None, u_blocked_reason = None, u_extra_meta = None\<rparr>"

text \<open>One pass of the loop of \<open>to_dict\<close>: a field that is not \<open>None\<close> is stored.\<close>

definition field_if :: "string \<Rightarrow> ('a \<Rightarrow> pyval) \<Rightarrow> 'a option \<Rightarrow> pydict" where
  "field_if name enc v = (case v of None \<Rightarrow> [] | Some x \<Rightarrow> [(name, enc x)])"

definition update_to_dict :: "WorkOrderUpdate \<Rightarrow> pydict" where
  "update_to_dict u =
     field_if ''title'' PStr (u_title u)
     @ field_if ''objective'' PStr (u_objective u)
     @ field_if ''scope'' PStr (u_scope u)
     @ field_if ''priority'' PInt (u_priority u)
     @ field_if ''assigned_worker_id'' PStr (u_assigned_worker_id u)
     @ field_if ''dependency_ids'' str_list (u_dependency_ids u)
     @ field_if ''file_scope'' str_list (u_file_scope u)
     @ field_if ''validation_command'' PStr (u_validation_command u)
     @ field_if ''adapter_kind'' PStr (u_adapter_kind u)
     @ field_if ''max_validation_attempts'' PInt (u_max_validation_attempts u)
     @ field_if ''require_worktree_lease'' PBool (u_require_worktree_lease u)
     @ field_if ''commit_after_validation'' PBool (u_commit_after_validation u)
     @ field_if ''require_human_review_before_merge'' PBool (u_require_human_review_before_merge u)
     @ field_if ''blocked_reason'' PStr (u_blocked_reason u)
     @ field_if ''extra_meta'' PDict (u_extra_meta u)"

definition opt_coerce_int :: "pyval \<Rightarrow> int \<Rightarrow> py_error + int option" where
  "opt_coerce_int raw dflt = (if raw = PNone then Inr None else map_sum id Some (coerce_int raw dflt))"

definition opt_field :: "(pyval \<Rightarrow> 'a) \<Rightarrow> pyval \<Rightarrow> 'a option" where
  "opt_field dec raw = (if raw = PNone then None else Some (dec raw))"

definition update_from_dict :: "pydict \<Rightarrow> py_error + WorkOrderUpdate" where
  "update_from_dict data =
     (case opt_coerce_int (dict_get data ''priority'') 0 of
        Inl e \<Rightarrow> Inl e
      | Inr priority \<Rightarrow>
     (case opt_coerce_int (dict_get data ''max_validation_attempts'') 1 of
        Inl e \<Rightarrow> Inl e
      | Inr attempts \<Rightarrow>
        Inr \<lparr>u_title = coerce_optional_text (dict_get data ''title''),
         u_objective = coerce_optional_text (dict_get data ''objective''),
         u_scope = coerce_optional_text (dict_get data ''scope''),
         u_priority = priority,
         u_assigned_worker_id = coerce_optional_text (dict_get data ''assigned_worker_id''),
         u_dependency_ids = opt_field coerce_deduped_text_list (dict_get data ''dependency_ids''),
         u_file_scope = opt_field coerce_deduped_text_list (dict_get data ''file_scope''),
         u_validation_command = coerce_optional_text (dict_get data ''validation_command''),
         u_adapter_kind = coerce_optional_text (dict_get data ''adapter_kind''),
         u_max_validation_attempts = map_option (max 1) attempts,
         u_require_worktree_lease = opt_field truthy (dict_get data ''require_worktree_lease''),
         u_commit_after_validation = opt_field truthy (dict_get data ''commit_after_validation''),
         u_require_human_review_before_merge =
           opt_field truthy (dict_get data ''require_human_review_before_merge''),
         u_blocked_reason =
           (if dict_get data ''blocked_reason'' = PNone then None
            else coerce_optional_text (dict_get data ''blocked_reason'')),
         u_extra_meta = opt_field coerce_mapping (dict_get data ''extra_meta'')\<rparr>))"

section \<open>Lifecycle lemmas\<close>

lemmas status_defs = WORK_ORDER_STATUSES_def WORK_ORDER_TERMINAL_STATUSES_def
  WORK_ORDER_ALLOWED_TRANSITIONS_def allowed_targets_def

text \<open>The moves the validation accepts, on the normalised statuses; staying is always accepted.\<close>

definition may_move :: "string \<Rightarrow> string \<Rightarrow> bool" where
  "may_move a b = wv_ok (validate_work_order_transition a b)"

lemma wv_simps [simp]: "wv_ok wv_good" "\<not> wv_ok (wv_bad r c)" "wv_reason_code (wv_bad r c) = Some c"
  "wv_reason (wv_bad r c) = Some r"
  by (simp_all add: wv_good_def wv_bad_def)

lemma may_move_iff:
  "may_move a b \<longleftrightarrow> strip a \<in> WORK_ORDER_STATUSES \<and> strip b \<in> WORK_ORDER_STATUSES \<and>
     (strip a = strip b \<or> strip b \<in> allowed_targets (strip a))"
  by (simp add: may_move_def validate_work_order_transition_def Let_def)

lemma strip_status [simp]: "a \<in> WORK_ORDER_STATUSES \<Longrightarrow> strip a = a"
  unfolding WORK_ORDER_STATUSES_def
  by (elim insertE; simp add: strip_def py_isspace_def)

lemma allowed_targets_status: "b \<in> allowed_targets a \<Longrightarrow> b \<in> WORK_ORDER_STATUSES"
  by (auto simp: status_defs split: if_splits)

lemma into_merged: "''merged'' \<in> allowed_targets a \<Longrightarrow> a = ''merge_ready''"
  by (auto simp: status_defs split: if_splits)

lemma into_merge_ready: "''merge_ready'' \<in> allowed_targets a \<Longrightarrow> a = ''passed''"
  by (auto simp: status_defs split: if_splits)

lemma into_passed: "''passed'' \<in> allowed_targets a \<Longrightarrow> a = ''validating''"
  by (auto simp: status_defs split: if_splits)

lemma into_validating: "''validating'' \<in> allowed_targets a \<Longrightarrow> a = ''running''"
  by (auto simp: status_defs split: if_splits)

lemma from_terminal:
  "a \<in> WORK_ORDER_TERMINAL_STATUSES \<Longrightarrow> b \<in> allowed_targets a \<Longrightarrow> b = ''archived''"
  by (auto simp: status_defs split: if_splits)

text \<open>
  The histories of a work order, newest status first: it is created as \<open>draft\<close> or \<open>ready\<close> and
  then moves as the validation allows.
\<close>

inductive wo_history :: "string list \<Rightarrow> bool" where
  created: "s \<in> {''draft'', ''ready''} \<Longrightarrow> wo_history [s]"
| moved: "wo_history (a # h) \<Longrightarrow> may_move a b \<Longrightarrow> wo_history (strip b # a # h)"

inductive_cases wo_history_NilE [elim!]: "wo_history []"
inductive_cases wo_history_ConsE: "wo_history (a # h)"

text \<open>The statuses that must lie behind a given one, newest first.\<close>

definition must_have :: "string \<Rightarrow> string list" where
  "must_have s =
     (let r = [''leased'', ''ready''] in
      if s = ''ready'' then [''ready'']
      else if s = ''leased'' then r
      else if s = ''running'' then ''running'' # r
      else if s = ''validating'' \<or> s = ''retrying'' then ''validating'' # ''running'' # r
      else if s = ''passed'' then ''passed'' # ''validating'' # ''running'' # r
      else if s = ''merge_ready'' then ''merge_ready'' # ''passed'' # ''validating'' # ''running'' # r
      else if s = ''merged'' then ''merged'' # ''merge_ready'' # ''passed'' # ''validating'' # ''running'' # r
      else [])"

lemma must_have_step:
  assumes "b \<in> allowed_targets a"
  shows "must_have b = b # must_have a \<or> subseq (must_have b) (must_have a) \<or> must_have b = [b]"
  using assms by (auto simp: status_defs must_have_def split: if_splits)

lemma wo_history_status: "wo_history h \<Longrightarrow> hd h \<in> WORK_ORDER_STATUSES"
  by (induction rule: wo_history.induct) (auto simp: may_move_iff WORK_ORDER_STATUSES_def)

lemma wo_history_must_have: "wo_history h \<Longrightarrow> subseq (must_have (hd h)) h"
proof (induction rule: wo_history.induct)
  case (created s)
  then show ?case by (auto simp: must_have_def)
next
  case (moved a h b)
  have a: "strip a = a" using wo_history_status [OF moved.hyps(1)] by simp
  from moved.hyps(2) consider "strip b = a" | "strip b \<in> allowed_targets a"
    by (auto simp: may_move_iff a)
  then show ?case
  proof cases
    case 1
    then show ?thesis using moved.IH by (auto intro: list_emb_Cons)
  next
    case 2
    then show ?thesis using moved.IH must_have_step [OF 2]
      by (auto intro: list_emb_Cons subseq_order.trans)
  qed
qed

lemma wo_history_suffix: "wo_history (later @ s # before) \<Longrightarrow> wo_history (s # before)"
  by (induction later) (auto elim: wo_history.cases)

lemma wo_history_gates:
  assumes "wo_history (later @ ''merged'' # before)"
  shows "subseq [''merge_ready'', ''passed'', ''validating'', ''running'', ''leased'', ''ready''] before"
  using wo_history_must_have [OF wo_history_suffix [OF assms]]
  by (simp add: must_have_def)

section \<open>Codec lemmas\<close>

definition clean_opt :: "string option \<Rightarrow> bool" where
  "clean_opt v = (case v of None \<Rightarrow> True | Some s \<Rightarrow> strip s = s \<and> s \<noteq> [])"

definition clean_list :: "string list \<Rightarrow> bool" where
  "clean_list xs = (distinct xs \<and> (\<forall>x \<in> set xs. strip x = x \<and> x \<noteq> []))"

lemma clean_coerce [simp]: "clean_opt (coerce_optional_text raw)"
  by (auto simp: clean_opt_def coerce_optional_text_def split: option.splits)

lemma coerce_opt_str [simp]: "clean_opt v \<Longrightarrow> coerce_optional_text (opt_str v) = v"
  by (auto simp: clean_opt_def coerce_optional_text_def opt_str_def split: option.splits)

lemma coerce_PStr [simp]: "strip s = s \<Longrightarrow> coerce_optional_text (PStr s) = or_none s"
  by (simp add: coerce_optional_text_def)

lemma clean_list_snoc: "clean_list vals \<Longrightarrow> clean_list (if strip x \<noteq> [] \<and> strip x \<notin> set vals
    then vals @ [strip x] else vals)"
  by (auto simp: clean_list_def)

lemma dedup_text_clean: "clean_list vals \<Longrightarrow> clean_list (dedup_text vals items)"
proof (induction items arbitrary: vals)
  case (Cons item items)
  from Cons.IH [OF clean_list_snoc [OF Cons.prems]] show ?case by (simp only: dedup_text.simps Let_def)
qed simp

lemma dedup_text_clean_append:
  "clean_list (vals @ xs) \<Longrightarrow> dedup_text vals (map PStr xs) = vals @ xs"
proof (induction xs arbitrary: vals)
  case (Cons x xs)
  then have "clean_list ((vals @ [x]) @ xs)" by simp
  from Cons.IH [OF this] Cons.prems show ?case by (auto simp: clean_list_def Let_def)
qed simp

lemma coerce_deduped_clean [simp]: "clean_list (coerce_deduped_text_list raw)"
  using dedup_text_clean [of "[]"] by (simp add: coerce_deduped_text_list_def) (simp add: clean_list_def)

lemma coerce_deduped_str_list [simp]: "clean_list xs \<Longrightarrow> coerce_deduped_text_list (str_list xs) = xs"
  by (simp add: coerce_deduped_text_list_def str_list_def as_items_def dedup_text_clean_append)

lemma coerce_int_PInt [simp]: "coerce_int (PInt i) dflt = Inr i"
  by (simp add: coerce_int_def)

lemma or_none_default [simp]: "(case or_none s of None \<Rightarrow> [] | Some t \<Rightarrow> t) = s"
  by (simp add: or_none_def)

text \<open>A create payload in the form \<open>from_dict\<close> produces.\<close>

definition normal_create :: "WorkOrderCreate \<Rightarrow> bool" where
  "normal_create c \<longleftrightarrow>
     clean_opt (c_campaign_id c) \<and> strip (c_title c) = c_title c \<and> strip (c_objective c) = c_objective c
     \<and> clean_opt (c_scope c) \<and> clean_opt (c_status c) \<and> clean_opt (c_created_by c)
     \<and> clean_opt (c_assigned_worker_id c) \<and> clean_opt (c_source_thread_id c)
     \<and> clean_opt (c_source_message_id c) \<and> clean_list (c_dependency_ids c)
     \<and> clean_list (c_file_scope c) \<and> clean_opt (c_validation_command c)
     \<and> clean_opt (c_adapter_kind c) \<and> clean_opt (c_blocked_reason c)
     \<and> (\<exists>i. c_priority c = PInt i) \<and> (\<exists>n \<ge> 1. c_max_validation_attempts c = PInt n)"

lemma strip_case_or_none: "strip (case coerce_optional_text raw of None \<Rightarrow> [] | Some t \<Rightarrow> t) =
    (case coerce_optional_text raw of None \<Rightarrow> [] | Some t \<Rightarrow> t)"
  by (simp add: coerce_optional_text_def or_none_def)

lemma normal_create_from_dict: "create_from_dict d = Inr c \<Longrightarrow> normal_create c"
  by (auto simp: create_from_dict_def normal_create_def strip_case_or_none split: sum.splits)

lemma create_roundtrip: "normal_create c \<Longrightarrow> create_from_dict (create_to_dict c) = Inr c"
  by (auto simp: create_from_dict_def normal_create_def create_to_dict_def dict_get_def
      dict_get_default_def coerce_mapping_def)

definition normal_update :: "WorkOrderUpdate \<Rightarrow> bool" where
  "normal_update u \<longleftrightarrow>
     clean_opt (u_title u) \<and> clean_opt (u_objective u) \<and> clean_opt (u_scope u)
     \<and> clean_opt (u_assigned_worker_id u) \<and> (\<forall>xs. u_dependency_ids u = Some xs \<longrightarrow> clean_list xs)
     \<and> (\<forall>xs. u_file_scope u = Some xs \<longrightarrow> clean_list xs) \<and> clean_opt (u_validation_command u)
     \<and> clean_opt (u_adapter_kind u) \<and> (\<forall>n. u_max_validation_attempts u = Some n \<longrightarrow> 1 \<le> n)
     \<and> clean_opt (u_blocked_reason u)"

lemma clean_opt_None [simp]: "clean_opt None"
  by (simp add: clean_opt_def)

lemma opt_field_Some [simp]: "opt_field dec raw = Some x \<longleftrightarrow> raw \<noteq> PNone \<and> x = dec raw"
  by (auto simp: opt_field_def)

lemma normal_update_from_dict:
  assumes "update_from_dict d = Inr u"
  shows "normal_update u"
proof -
  from assms obtain priority attempts where
    "opt_coerce_int (dict_get d ''priority'') 0 = Inr priority"
    "opt_coerce_int (dict_get d ''max_validation_attempts'') 1 = Inr attempts"
    by (auto simp: update_from_dict_def split: sum.splits)
  with assms show ?thesis
    unfolding update_from_dict_def by (auto simp: normal_update_def)
qed

lemma map_of_field_if:
  "k \<noteq> n \<Longrightarrow> map_of (field_if n enc v @ d) k = map_of d k"
  "map_of d n = None \<Longrightarrow> map_of (field_if n enc v @ d) n = map_option enc v"
  "k \<noteq> n \<Longrightarrow> map_of (field_if n enc v) k = None"
  "map_of (field_if n enc v) n = map_option enc v"
  by (auto simp: field_if_def split: option.splits)

definition opt_enc :: "('a \<Rightarrow> pyval) \<Rightarrow> 'a option \<Rightarrow> pyval" where
  "opt_enc enc v = (case v of None \<Rightarrow> PNone | Some x \<Rightarrow> enc x)"

lemma opt_enc_PStr_None [simp]: "opt_enc PStr v = PNone \<longleftrightarrow> v = None"
  by (simp add: opt_enc_def split: option.splits)

lemma dict_get_update_to_dict:
  "dict_get (update_to_dict u) ''title'' = opt_enc PStr (u_title u)"
  "dict_get (update_to_dict u) ''objective'' = opt_enc PStr (u_objective u)"
  "dict_get (update_to_dict u) ''scope'' = opt_enc PStr (u_scope u)"
  "dict_get (update_to_dict u) ''priority'' = opt_enc PInt (u_priority u)"
  "dict_get (update_to_dict u) ''assigned_worker_id'' = opt_enc PStr (u_assigned_worker_id u)"
  "dict_get (update_to_dict u) ''dependency_ids'' = opt_enc str_list (u_dependency_ids u)"
  "dict_get (update_to_dict u) ''file_scope'' = opt_enc str_list (u_file_scope u)"
  "dict_get (update_to_dict u) ''validation_command'' = opt_enc PStr (u_validation_command u)"
  "dict_get (update_to_dict u) ''adapter_kind'' = opt_enc PStr (u_adapter_kind u)"
  "dict_get (update_to_dict u) ''max_validation_attempts'' = opt_enc PInt (u_max_validation_attempts u)"
  "dict_get (update_to_dict u) ''require_worktree_lease'' = opt_enc PBool (u_require_worktree_lease u)"
  "dict_get (update_to_dict u) ''commit_after_validation'' = opt_enc PBool (u_commit_after_validation u)"
  "dict_get (update_to_dict u) ''require_human_review_before_merge'' =
     opt_enc PBool (u_require_human_review_before_merge u)"
  "dict_get (update_to_dict u) ''blocked_reason'' = opt_enc PStr (u_blocked_reason u)"
  "dict_get (update_to_dict u) ''extra_meta'' = opt_enc PDict (u_extra_meta u)"
  by (simp_all add: update_to_dict_def dict_get_def map_of_field_if opt_enc_def
      split: option.splits del: map_of_append)

lemma opt_enc_dec:
  "clean_opt v \<Longrightarrow> coerce_optional_text (opt_enc PStr v) = v"
  "opt_field truthy (opt_enc PBool b) = b"
  "opt_field coerce_mapping (opt_enc PDict m) = m"
  "(\<And>xs. l = Some xs \<Longrightarrow> clean_list xs) \<Longrightarrow> opt_field coerce_deduped_text_list (opt_enc str_list l) = l"
  "opt_coerce_int (opt_enc PInt i) dflt = Inr i"
proof -
  show "clean_opt v \<Longrightarrow> coerce_optional_text (opt_enc PStr v) = v"
    by (auto simp: opt_enc_def clean_opt_def coerce_optional_text_def split: option.splits)
  show "opt_field truthy (opt_enc PBool b) = b" "opt_field coerce_mapping (opt_enc PDict m) = m"
    "opt_coerce_int (opt_enc PInt i) dflt = Inr i"
    by (simp_all add: opt_enc_def opt_field_def coerce_mapping_def opt_coerce_int_def split: option.splits)
  have "str_list xs \<noteq> PNone" for xs by (simp add: str_list_def)
  then show "(\<And>xs. l = Some xs \<Longrightarrow> clean_list xs) \<Longrightarrow>
      opt_field coerce_deduped_text_list (opt_enc str_list l) = l"
    by (simp add: opt_enc_def opt_field_def split: option.splits)
qed

lemma update_roundtrip:
  assumes "normal_update u"
  shows "update_from_dict (update_to_dict u) = Inr u"
proof -
  have "map_option (max 1) (u_max_validation_attempts u) = u_max_validation_attempts u"
    using assms by (cases "u_max_validation_attempts u") (auto simp: normal_update_def)
  with assms show ?thesis
    by (cases u) (auto simp: update_from_dict_def dict_get_update_to_dict opt_enc_dec normal_update_def)
qed

section \<open>Properties\<close>

text \<open>
  The codecs of the create and update payloads normalise once: whatever dictionary a payload was
  read from, writing it out and reading it again gives the same payload.
\<close>

theorem payload_codecs_stable:
  "(create_from_dict d = Inr c \<longrightarrow> create_from_dict (create_to_dict c) = Inr c) \<and>
   (update_from_dict d = Inr u \<longrightarrow> update_from_dict (update_to_dict u) = Inr u)"
  using normal_create_from_dict create_roundtrip normal_update_from_dict update_roundtrip by blast

definition demo_update_dict :: pydict where
  "demo_update_dict = [(''title'', PStr '' new ''), (''dependency_ids'', PList [PStr '' a'', PStr ''a'', PInt 0])]"

theorem payload_codecs_stable_witness:
  "\<exists>u. update_from_dict demo_update_dict = Inr u \<and> u_title u = Some ''new'' \<and>
     u_dependency_ids u = Some [''a''] \<and> update_from_dict (update_to_dict u) = Inr u"
proof -
  have "map_sum id (\<lambda>u. (u_title u, u_dependency_ids u)) (update_from_dict demo_update_dict) =
      Inr (Some ''new'', Some [''a''])" by code_simp
  then obtain u where u: "update_from_dict demo_update_dict = Inr u" "u_title u = Some ''new''"
    "u_dependency_ids u = Some [''a'']" by (cases "update_from_dict demo_update_dict") auto
  with payload_codecs_stable [of demo_update_dict _ u] show ?thesis by blast
qed

end
