(* ===== verification/Work_Order_Store.thy ===== *)
theory Work_Order_Store
  imports Work_Orders Orm_Table
begin

text \<open>
  Model of \<^verbatim>\<open>guardian/agents/work_order_store.py\<close>: the durable store of coding work orders over
  the table of \<^verbatim>\<open>guardian/db/models.py\<close>. Every operation takes the session \<open>api\<close>, the database
  state and, where the code reads the clock or draws an identifier, the value read, and returns an
  exception or the new database state with the contract handed to the caller.
\<close>

section \<open>Rows, contracts, errors\<close>

record CodingWorkOrder =
  r_work_order_id :: string
  r_campaign_id :: "string option"
  r_title :: string
  r_objective :: string
  r_scope :: "string option"
  r_status :: string
  r_priority :: int
  r_created_by :: "string option"
  r_assigned_worker_id :: "string option"
  r_source_thread_id :: "string option"
  r_source_message_id :: "string option"
  r_dependency_ids :: pyval
  r_file_scope :: pyval
  r_validation_command :: "string option"
  r_adapter_kind :: "string option"
  r_max_validation_attempts :: int
  r_require_worktree_lease :: bool
  r_commit_after_validation :: bool
  r_require_human_review_before_merge :: bool
  r_latest_run_id :: "string option"
  r_latest_lease_id :: "string option"
  r_latest_receipt_id :: "string option"
  r_blocked_reason :: "string option"
  r_extra_meta :: pyval
  r_created_at :: pydt
  r_updated_at :: pydt
  r_archived_at :: "pydt option"

record WorkOrderContract =
  w_work_order_id :: string
  w_campaign_id :: "string option"
  w_title :: string
  w_objective :: string
  w_scope :: "string option"
  w_status :: string
  w_priority :: int
  w_created_by :: "string option"
  w_assigned_worker_id :: "string option"
  w_source_thread_id :: "string option"
  w_source_message_id :: "string option"
  w_dependency_ids :: "string list"
  w_file_scope :: "string list"
  w_validation_command :: "string option"
  w_adapter_kind :: "string option"
  w_max_validation_attempts :: int
  w_require_worktree_lease :: bool
  w_commit_after_validation :: bool
  w_require_human_review_before_merge :: bool
  w_latest_run_id :: "string option"
  w_latest_lease_id :: "string option"
  w_latest_receipt_id :: "string option"
  w_blocked_reason :: "string option"
  w_extra_meta :: pydict
  w_created_at :: pydt
  w_updated_at :: pydt
  w_archived_at :: "pydt option"

datatype wo_error =
    WoDatabase db_error
  | WoPython py_error
  | WorkOrderNotFound string
  | WorkOrderValidationError WorkOrderValidationResult
  | WorkOrderTransitionError string string "string option" "string option"

section \<open>Bounding helpers\<close>

definition MAX_LIST_ITEMS :: nat where "MAX_LIST_ITEMS = 256"
definition MAX_ITEM_CHARS :: nat where "MAX_ITEM_CHARS = 1024"
definition MAX_TEXT_CHARS :: nat where "MAX_TEXT_CHARS = 4096"
definition MAX_META_KEYS :: nat where "MAX_META_KEYS = 128"

definition ensure_aware_datetime :: "pydt \<Rightarrow> pydt" where
  "ensure_aware_datetime d = (if dt_aware d then d else replace_utc d)"

definition bounded_text :: "string option \<Rightarrow> string option" where
  "bounded_text raw = map_option (take MAX_TEXT_CHARS) (coerce_optional_text (opt_str raw))"

fun bounded_items :: "string list \<Rightarrow> pyval list \<Rightarrow> string list" where
  "bounded_items vals [] = vals"
| "bounded_items vals (item # items) =
     (let value = strip (str_or_empty item) in
      if value = [] then bounded_items vals items
      else (let bounded = take MAX_ITEM_CHARS value;
                vals' = (if bounded \<in> set vals then vals else vals @ [bounded])
            in if MAX_LIST_ITEMS \<le> length vals' then vals' else bounded_items vals' items))"

definition bounded_text_list :: "pyval \<Rightarrow> string list" where
  "bounded_text_list raw = (if raw = PNone then [] else bounded_items [] (as_items raw))"

text \<open>What a value of the metadata is stored as.\<close>

definition bounded_sub_dict :: "pydict \<Rightarrow> pydict" where
  "bounded_sub_dict d =
     fold (\<lambda>kv acc. dict_set acc (take 128 (strip (fst kv))) (PStr (take MAX_TEXT_CHARS (py_str (snd kv)))))
       (take 32 d) []"

definition bounded_meta_value :: "pyval \<Rightarrow> pyval" where
  "bounded_meta_value v =
     (case v of
        PList xs \<Rightarrow> str_list (bounded_text_list v)
      | PDict d \<Rightarrow> PDict (bounded_sub_dict d)
      | _ \<Rightarrow> v)"

definition bounded_meta_step :: "string \<times> pyval \<Rightarrow> pydict \<Rightarrow> pydict" where
  "bounded_meta_step kv bounded =
     (let normalized_key = take 128 (strip (fst kv)) in
      if normalized_key = [] then bounded
      else dict_set bounded normalized_key (bounded_meta_value (snd kv)))"

definition bounded_meta :: "pyval \<Rightarrow> pydict" where
  "bounded_meta raw = (case raw of PDict d \<Rightarrow> fold bounded_meta_step (take MAX_META_KEYS d) [] | _ \<Rightarrow> [])"

section \<open>Operations\<close>

definition row_to_contract :: "CodingWorkOrder \<Rightarrow> WorkOrderContract" where
  "row_to_contract row =
     \<lparr>w_work_order_id = r_work_order_id row, w_campaign_id = r_campaign_id row,
      w_title = r_title row, w_objective = r_objective row, w_scope = r_scope row,
      w_status = r_status row, w_priority = r_priority row, w_created_by = r_created_by row,
      w_assigned_worker_id = r_assigned_worker_id row, w_source_thread_id = r_source_thread_id row,
      w_source_message_id = r_source_message_id row,
      w_dependency_ids = bounded_text_list (r_dependency_ids row),
      w_file_scope = bounded_text_list (r_file_scope row),
      w_validation_command = r_validation_command row, w_adapter_kind = r_adapter_kind row,
      w_max_validation_attempts =
        max 1 (if r_max_validation_attempts row = 0 then 1 else r_max_validation_attempts row),
      w_require_worktree_lease = r_require_worktree_lease row,
      w_commit_after_validation = r_commit_after_validation row,
      w_require_human_review_before_merge = r_require_human_review_before_merge row,
      w_latest_run_id = r_latest_run_id row, w_latest_lease_id = r_latest_lease_id row,
      w_latest_receipt_id = r_latest_receipt_id row, w_blocked_reason = r_blocked_reason row,
      w_extra_meta = bounded_meta (r_extra_meta row),
      w_created_at = ensure_aware_datetime (r_created_at row),
      w_updated_at = ensure_aware_datetime (r_updated_at row),
      w_archived_at = map_option ensure_aware_datetime (r_archived_at row)\<rparr>"

definition normalize_initial_status :: "string option \<Rightarrow> string" where
  "normalize_initial_status status =
     (let normalized = strip (case status of None \<Rightarrow> [] | Some s \<Rightarrow> s) in
      if normalized = ''draft'' then ''draft''
      else if normalized = ''ready'' then ''ready''
      else ''ready'')"

text \<open>\<open>int(x)\<close> under \<open>except (TypeError, ValueError)\<close>: the handled failures are \<open>None\<close>.\<close>

definition try_int :: "pyval \<Rightarrow> py_error + int option" where
  "try_int v =
     (case py_int v of
        Inr i \<Rightarrow> Inr (Some i)
      | Inl TypeError \<Rightarrow> Inr None
      | Inl (ValueError _) \<Rightarrow> Inr None
      | Inl e \<Rightarrow> Inl e)"

definition validate_create_payload :: "WorkOrderCreate \<Rightarrow> py_error + WorkOrderValidationResult" where
  "validate_create_payload payload =
     (let title = strip (c_title payload); objective = strip (c_objective payload) in
      if title = [] then Inr (wv_bad ''missing required field: title'' ''missing_required_field'')
      else if objective = [] then Inr (wv_bad ''missing required field: objective'' ''missing_required_field'')
      else if (case c_status payload of None \<Rightarrow> False | Some s \<Rightarrow> strip s \<notin> WORK_ORDER_STATUSES)
      then Inr (wv_bad (''invalid work-order status: '' @ strip (the (c_status payload)))
                  ''invalid_work_order_status'')
      else if (case c_status payload of None \<Rightarrow> False | Some s \<Rightarrow> strip s \<notin> {''draft'', ''ready''})
      then Inr (wv_bad ''work order creation status must be draft or ready'' ''invalid_work_order_status'')
      else (case try_int (c_priority payload) of
          Inl e \<Rightarrow> Inl e
        | Inr None \<Rightarrow> Inr (wv_bad ''priority must be an integer'' ''invalid_priority'')
        | Inr (Some _) \<Rightarrow>
       (case try_int (c_max_validation_attempts payload) of
          Inl e \<Rightarrow> Inl e
        | Inr None \<Rightarrow> Inr (wv_bad ''max_validation_attempts must be an integer'' ''invalid_max_validation_attempts'')
        | Inr (Some attempts) \<Rightarrow>
          if attempts < 1
          then Inr (wv_bad ''max_validation_attempts must be >= 1'' ''invalid_max_validation_attempts'')
          else Inr wv_good)))"

definition create_row :: "pydt \<Rightarrow> string \<Rightarrow> WorkOrderCreate \<Rightarrow> int \<Rightarrow> int \<Rightarrow> CodingWorkOrder" where
  "create_row now new_id payload priority attempts =
     \<lparr>r_work_order_id = new_id,
      r_campaign_id = coerce_optional_text (opt_str (c_campaign_id payload)),
      r_title = strip (c_title payload), r_objective = strip (c_objective payload),
      r_scope = coerce_optional_text (opt_str (c_scope payload)),
      r_status = normalize_initial_status (c_status payload),
      r_priority = priority,
      r_created_by = coerce_optional_text (opt_str (c_created_by payload)),
      r_assigned_worker_id = coerce_optional_text (opt_str (c_assigned_worker_id payload)),
      r_source_thread_id = coerce_optional_text (opt_str (c_source_thread_id payload)),
      r_source_message_id = coerce_optional_text (opt_str (c_source_message_id payload)),
      r_dependency_ids = str_list (bounded_text_list (str_list (c_dependency_ids payload))),
      r_file_scope = str_list (bounded_text_list (str_list (c_file_scope payload))),
      r_validation_command = coerce_optional_text (opt_str (c_validation_command payload)),
      r_adapter_kind = coerce_optional_text (opt_str (c_adapter_kind payload)),
      r_max_validation_attempts = max 1 attempts,
      r_require_worktree_lease = c_require_worktree_lease payload,
      r_commit_after_validation = c_commit_after_validation payload,
      r_require_human_review_before_merge = c_require_human_review_before_merge payload,
      r_latest_run_id = None, r_latest_lease_id = None, r_latest_receipt_id = None,
      r_blocked_reason = coerce_optional_text (opt_str (c_blocked_reason payload)),
      r_extra_meta = PDict (bounded_meta (PDict (c_extra_meta payload))),
      r_created_at = now, r_updated_at = now, r_archived_at = None\<rparr>"

definition create_work_order ::
    "('db, CodingWorkOrder) orm \<Rightarrow> 'db \<Rightarrow> pydt \<Rightarrow> string \<Rightarrow> WorkOrderCreate \<Rightarrow> wo_error + ('db \<times> WorkOrderContract)" where
  "create_work_order api db now new_id payload =
     (case validate_create_payload payload of
        Inl e \<Rightarrow> Inl (WoPython e)
      | Inr validation \<Rightarrow>
        if \<not> wv_ok validation then Inl (WorkOrderValidationError validation)
        else (case (py_int (c_priority payload), py_int (c_max_validation_attempts payload)) of
            (Inr priority, Inr attempts) \<Rightarrow>
              (let row = create_row now new_id payload priority attempts in
               case orm_add api db row of
                 Inl e \<Rightarrow> Inl (WoDatabase e)
               | Inr db' \<Rightarrow> Inr (db', row_to_contract row))
          | (Inl e, _) \<Rightarrow> Inl (WoPython e)
          | (_, Inl e) \<Rightarrow> Inl (WoPython e)))"

definition get_work_order :: "('db, CodingWorkOrder) orm \<Rightarrow> 'db \<Rightarrow> string \<Rightarrow> WorkOrderContract option" where
  "get_work_order api db work_order_id =
     map_option row_to_contract (orm_first api db (\<lambda>r. r_work_order_id r = work_order_id))"

text \<open>
  \<open>order_by(priority.desc(), created_at.desc()).offset(o).limit(n)\<close>: the rows of the query in that
  order, rows equal in both columns in the order the query finds them.
\<close>

definition list_work_orders ::
    "('db, CodingWorkOrder) orm \<Rightarrow> 'db \<Rightarrow> string option \<Rightarrow> string option \<Rightarrow> int \<Rightarrow> int \<Rightarrow>
      wo_error + WorkOrderContract list" where
  "list_work_orders api db status campaign_id limit offset =
     (let normalized_status = coerce_optional_text (opt_str status);
          normalized_campaign = coerce_optional_text (opt_str campaign_id)
      in if (case normalized_status of None \<Rightarrow> False | Some s \<Rightarrow> s \<notin> WORK_ORDER_STATUSES)
         then Inl (WorkOrderValidationError
           (wv_bad (''invalid work-order status filter: '' @ the normalized_status) ''invalid_work_order_status''))
         else
           (let bounded_limit = max 1 (min (if limit = 0 then 50 else limit) 200);
                bounded_offset = max 0 offset;
                rows = orm_select api db (\<lambda>r.
                  (case normalized_status of None \<Rightarrow> True | Some s \<Rightarrow> r_status r = s) \<and>
                  (case normalized_campaign of None \<Rightarrow> True | Some c \<Rightarrow> r_campaign_id r = Some c));
                ordered = sort_key (\<lambda>r. (- r_priority r, - instant (r_created_at r))) rows
            in Inr (map row_to_contract (take (nat bounded_limit) (drop (nat bounded_offset) ordered)))))"

definition get_row_or_raise :: "('db, CodingWorkOrder) orm \<Rightarrow> 'db \<Rightarrow> string \<Rightarrow> wo_error + CodingWorkOrder" where
  "get_row_or_raise api db work_order_id =
     (case orm_first api db (\<lambda>r. r_work_order_id r = work_order_id) of
        None \<Rightarrow> Inl (WorkOrderNotFound (''unknown work_order_id: '' @ work_order_id))
      | Some row \<Rightarrow> Inr row)"

text \<open>\<open>row.x = payload.x\<close> under \<open>if payload.x is not None\<close>.\<close>

definition assign_if :: "('a \<Rightarrow> 'row \<Rightarrow> 'row) \<Rightarrow> 'a option \<Rightarrow> 'row \<Rightarrow> 'row" where
  "assign_if set_field v row = (case v of None \<Rightarrow> row | Some x \<Rightarrow> set_field x row)"

definition apply_update :: "WorkOrderUpdate \<Rightarrow> CodingWorkOrder \<Rightarrow> CodingWorkOrder" where
  "apply_update payload row0 =
     (let row1 = assign_if (\<lambda>x r. r\<lparr>r_title := x\<rparr>) (u_title payload) row0;
          row2 = assign_if (\<lambda>x r. r\<lparr>r_objective := x\<rparr>) (u_objective payload) row1;
          row3 = assign_if (\<lambda>x r. r\<lparr>r_scope := Some x\<rparr>) (u_scope payload) row2;
          row4 = assign_if (\<lambda>x r. r\<lparr>r_priority := x\<rparr>) (u_priority payload) row3;
          row5 = assign_if (\<lambda>x r. r\<lparr>r_assigned_worker_id := Some x\<rparr>) (u_assigned_worker_id payload) row4;
          row6 = assign_if (\<lambda>x r. r\<lparr>r_dependency_ids := str_list (bounded_text_list (str_list x))\<rparr>)
                   (u_dependency_ids payload) row5;
          row7 = assign_if (\<lambda>x r. r\<lparr>r_file_scope := str_list (bounded_text_list (str_list x))\<rparr>)
                   (u_file_scope payload) row6;
          row8 = assign_if (\<lambda>x r. r\<lparr>r_validation_command := Some x\<rparr>) (u_validation_command payload) row7;
          row9 = assign_if (\<lambda>x r. r\<lparr>r_adapter_kind := Some x\<rparr>) (u_adapter_kind payload) row8;
          row10 = assign_if (\<lambda>x r. r\<lparr>r_max_validation_attempts := max 1 x\<rparr>)
                   (u_max_validation_attempts payload) row9;
          row11 = assign_if (\<lambda>x r. r\<lparr>r_require_worktree_lease := x\<rparr>) (u_require_worktree_lease payload) row10;
          row12 = assign_if (\<lambda>x r. r\<lparr>r_commit_after_validation := x\<rparr>) (u_commit_after_validation payload) row11;
          row13 = assign_if (\<lambda>x r. r\<lparr>r_require_human_review_before_merge := x\<rparr>)
                   (u_require_human_review_before_merge payload) row12;
          row14 = assign_if (\<lambda>x r. r\<lparr>r_blocked_reason := Some x\<rparr>) (u_blocked_reason payload) row13
      in assign_if (\<lambda>x r. r\<lparr>r_extra_meta := PDict (bounded_meta (PDict x))\<rparr>) (u_extra_meta payload) row14)"

text \<open>The tail every mutation shares: commit the changed row, refresh it, hand out its contract.\<close>

definition commit_row ::
    "('db, CodingWorkOrder) orm \<Rightarrow> 'db \<Rightarrow> CodingWorkOrder \<Rightarrow> wo_error + ('db \<times> WorkOrderContract)" where
  "commit_row api db row =
     (case orm_commit api db row of Inl e \<Rightarrow> Inl (WoDatabase e) | Inr db' \<Rightarrow> Inr (db', row_to_contract row))"

definition update_work_order ::
    "('db, CodingWorkOrder) orm \<Rightarrow> 'db \<Rightarrow> pydt \<Rightarrow> string \<Rightarrow> WorkOrderUpdate \<Rightarrow> wo_error + ('db \<times> WorkOrderContract)" where
  "update_work_order api db now work_order_id payload =
     (case get_row_or_raise api db work_order_id of
        Inl e \<Rightarrow> Inl e
      | Inr row \<Rightarrow> commit_row api db ((apply_update payload row)\<lparr>r_updated_at := now\<rparr>))"

definition apply_transition :: "pydt \<Rightarrow> string \<Rightarrow> string option \<Rightarrow> CodingWorkOrder \<Rightarrow> CodingWorkOrder" where
  "apply_transition now target reason row =
     (let row1 = row\<lparr>r_status := target, r_updated_at := now\<rparr>;
          bounded_reason = bounded_text reason;
          row2 = (if target = ''archived'' then row1\<lparr>r_archived_at := Some now\<rparr> else row1)
      in if target \<in> {''blocked'', ''escalated'', ''cancelled''} then row2\<lparr>r_blocked_reason := bounded_reason\<rparr>
         else if bounded_reason \<noteq> None \<and> target = ''failed'' then row2\<lparr>r_blocked_reason := bounded_reason\<rparr>
         else row2)"

definition transition_work_order ::
    "('db, CodingWorkOrder) orm \<Rightarrow> 'db \<Rightarrow> pydt \<Rightarrow> string \<Rightarrow> string \<Rightarrow> string option \<Rightarrow>
      wo_error + ('db \<times> WorkOrderContract)" where
  "transition_work_order api db now work_order_id to_status reason =
     (let normalized_target = strip to_status in
      case get_row_or_raise api db work_order_id of
        Inl e \<Rightarrow> Inl e
      | Inr row \<Rightarrow>
        (let current = strip (r_status row);
             result = validate_work_order_transition current normalized_target
         in if \<not> wv_ok result
            then if wv_reason_code result = Some ''invalid_work_order_status''
                 then Inl (WorkOrderValidationError result)
                 else Inl (WorkOrderTransitionError current normalized_target
                             (wv_reason result) (wv_reason_code result))
            else commit_row api db (apply_transition now normalized_target reason row)))"

definition cancel_work_order ::
    "('db, CodingWorkOrder) orm \<Rightarrow> 'db \<Rightarrow> pydt \<Rightarrow> string \<Rightarrow> string option \<Rightarrow>
      wo_error + ('db \<times> WorkOrderContract)" where
  "cancel_work_order api db now work_order_id reason =
     transition_work_order api db now work_order_id ''cancelled'' reason"

definition archive_work_order ::
    "('db, CodingWorkOrder) orm \<Rightarrow> 'db \<Rightarrow> pydt \<Rightarrow> string \<Rightarrow> wo_error + ('db \<times> WorkOrderContract)" where
  "archive_work_order api db now work_order_id =
     transition_work_order api db now work_order_id ''archived'' None"

definition mark_latest_run ::
    "('db, CodingWorkOrder) orm \<Rightarrow> 'db \<Rightarrow> pydt \<Rightarrow> string \<Rightarrow> string option \<Rightarrow> string option \<Rightarrow> string option \<Rightarrow>
      wo_error + ('db \<times> WorkOrderContract)" where
  "mark_latest_run api db now work_order_id run_id lease_id receipt_id =
     (case get_row_or_raise api db work_order_id of
        Inl e \<Rightarrow> Inl e
      | Inr row \<Rightarrow> commit_row api db
          (row\<lparr>r_latest_run_id := coerce_optional_text (opt_str run_id),
               r_latest_lease_id := coerce_optional_text (opt_str lease_id),
               r_latest_receipt_id := coerce_optional_text (opt_str receipt_id),
               r_updated_at := now\<rparr>))"

definition set_latest_receipt ::
    "('db, CodingWorkOrder) orm \<Rightarrow> 'db \<Rightarrow> pydt \<Rightarrow> string \<Rightarrow> string \<Rightarrow> wo_error + ('db \<times> WorkOrderContract)" where
  "set_latest_receipt api db now work_order_id receipt_id =
     (case get_row_or_raise api db work_order_id of
        Inl e \<Rightarrow> Inl e
      | Inr row \<Rightarrow> commit_row api db (row\<lparr>r_latest_receipt_id := Some receipt_id, r_updated_at := now\<rparr>))"

section \<open>Bounds\<close>

definition bounded_list :: "string list \<Rightarrow> bool" where
  "bounded_list xs \<longleftrightarrow> distinct xs \<and> length xs \<le> MAX_LIST_ITEMS \<and>
     (\<forall>x \<in> set xs. x \<noteq> [] \<and> length x \<le> MAX_ITEM_CHARS)"

lemmas max_defs = MAX_LIST_ITEMS_def MAX_ITEM_CHARS_def MAX_TEXT_CHARS_def MAX_META_KEYS_def

lemma bounded_list_snoc:
  "bounded_list vals \<Longrightarrow> length vals < MAX_LIST_ITEMS \<Longrightarrow> v \<noteq> [] \<Longrightarrow>
     bounded_list (if take MAX_ITEM_CHARS v \<in> set vals then vals else vals @ [take MAX_ITEM_CHARS v])"
  by (auto simp: bounded_list_def max_defs)

lemma bounded_items_bounded:
  "bounded_list vals \<Longrightarrow> length vals < MAX_LIST_ITEMS \<Longrightarrow> bounded_list (bounded_items vals items)"
proof (induction items arbitrary: vals)
  case (Cons item items)
  let ?v = "strip (str_or_empty item)"
  let ?vals = "if take MAX_ITEM_CHARS ?v \<in> set vals then vals else vals @ [take MAX_ITEM_CHARS ?v]"
  show ?case
  proof (cases "?v = []")
    case True
    with Cons show ?thesis by simp
  next
    case False
    with bounded_list_snoc [OF Cons.prems] have "bounded_list ?vals" by blast
    with Cons.IH [of ?vals] False show ?thesis
      by (simp add: Let_def del: if_image_distrib)
  qed
qed simp

lemma bounded_text_list_bounded: "bounded_list (bounded_text_list raw)"
  using bounded_items_bounded [of "[]"]
  by (simp add: bounded_text_list_def) (simp add: bounded_list_def max_defs)

text \<open>A value of stored metadata holds no dictionary below a dictionary.\<close>

fun flat_meta_value :: "pyval \<Rightarrow> bool" where
  "flat_meta_value (PDict d) = list_all (\<lambda>kv. case snd kv of PStr s \<Rightarrow> length s \<le> MAX_TEXT_CHARS | _ \<Rightarrow> False) d"
| "flat_meta_value (PList xs) = list_all (\<lambda>x. case x of PStr s \<Rightarrow> length s \<le> MAX_ITEM_CHARS | _ \<Rightarrow> False) xs"
| "flat_meta_value v = True"

definition bounded_meta_dict :: "pydict \<Rightarrow> bool" where
  "bounded_meta_dict m \<longleftrightarrow> distinct (map fst m) \<and> length m \<le> MAX_META_KEYS \<and>
     (\<forall>(k, v) \<in> set m. k \<noteq> [] \<and> length k \<le> 128 \<and> flat_meta_value v)"

lemma set_dict_set: "kv \<in> set (dict_set d k v) \<Longrightarrow> kv = (k, v) \<or> kv \<in> set d"
  unfolding dict_set_def by (induction d) (auto split: if_splits)

definition flat_text :: "string \<times> pyval \<Rightarrow> bool" where
  "flat_text kv = (case snd kv of PStr s \<Rightarrow> length s \<le> MAX_TEXT_CHARS | _ \<Rightarrow> False)"

lemma bounded_sub_dict_fold:
  "\<forall>kv \<in> set acc. flat_text kv \<Longrightarrow>
   \<forall>kv \<in> set (fold (\<lambda>kv acc. dict_set acc (take 128 (strip (fst kv)))
        (PStr (take MAX_TEXT_CHARS (py_str (snd kv))))) xs acc). flat_text kv"
proof (induction xs arbitrary: acc)
  case (Cons x xs)
  show ?case unfolding fold_simps comp_apply
    by (rule Cons.IH) (use Cons.prems in \<open>auto simp: flat_text_def dest!: set_dict_set\<close>)
qed simp

lemma bounded_sub_dict_flat: "flat_meta_value (PDict (bounded_sub_dict d))"
  using bounded_sub_dict_fold [of "[]" "take 32 d"]
  by (simp add: bounded_sub_dict_def list_all_iff flat_text_def)

lemma bounded_meta_value_flat: "flat_meta_value (bounded_meta_value v)"
  using bounded_text_list_bounded [of v] bounded_sub_dict_flat
  by (auto simp: bounded_meta_value_def str_list_def list_all_iff bounded_list_def split: pyval.splits)

definition meta_entries_ok :: "pydict \<Rightarrow> bool" where
  "meta_entries_ok m \<longleftrightarrow> distinct (map fst m) \<and>
     (\<forall>(k, v) \<in> set m. k \<noteq> [] \<and> length k \<le> 128 \<and> flat_meta_value v)"

lemma meta_entries_ok_step: "meta_entries_ok m \<Longrightarrow> meta_entries_ok (bounded_meta_step kv m)"
  using bounded_meta_value_flat
  by (auto simp: meta_entries_ok_def bounded_meta_step_def Let_def dest!: set_dict_set)

lemma length_meta_step: "length (bounded_meta_step kv m) \<le> Suc (length m)"
  by (simp add: bounded_meta_step_def Let_def length_dict_set)

lemma meta_entries_ok_fold: "meta_entries_ok m \<Longrightarrow> meta_entries_ok (fold bounded_meta_step d m)"
  by (induction d arbitrary: m) (simp_all add: meta_entries_ok_step)

lemma length_meta_fold: "length (fold bounded_meta_step d m) \<le> length m + length d"
proof (induction d arbitrary: m)
  case (Cons kv d)
  then have "length (fold bounded_meta_step d (bounded_meta_step kv m)) \<le>
      length (bounded_meta_step kv m) + length d" .
  with length_meta_step [of kv m] show ?case by simp
qed simp

lemma bounded_meta_bounded: "bounded_meta_dict (bounded_meta raw)"
proof (cases raw)
  case (PDict d)
  have "meta_entries_ok (bounded_meta raw)"
    unfolding PDict bounded_meta_def pyval.case
    by (rule meta_entries_ok_fold) (simp add: meta_entries_ok_def)
  moreover have "length (bounded_meta raw) \<le> MAX_META_KEYS"
    using length_meta_fold [of "take MAX_META_KEYS d" "[]"] by (simp add: PDict bounded_meta_def)
  ultimately show ?thesis by (simp add: bounded_meta_dict_def meta_entries_ok_def)
qed (simp_all add: bounded_meta_def bounded_meta_dict_def)

section \<open>The operations as one interface\<close>

text \<open>
  The calls a client of the store can make, each with the clock reading and the fresh identifier it
  draws. A call that raises leaves the table as it was: the session is closed without a commit.
\<close>

datatype wo_op =
    CreateOp pydt string WorkOrderCreate
  | UpdateOp pydt string WorkOrderUpdate
  | TransitionOp pydt string string "string option"
  | CancelOp pydt string "string option"
  | ArchiveOp pydt string
  | MarkRunOp pydt string "string option" "string option" "string option"
  | SetReceiptOp pydt string string

fun wo_exec :: "('db, CodingWorkOrder) orm \<Rightarrow> 'db \<Rightarrow> wo_op \<Rightarrow> wo_error + ('db \<times> WorkOrderContract)" where
  "wo_exec api db (CreateOp now k p) = create_work_order api db now k p"
| "wo_exec api db (UpdateOp now k p) = update_work_order api db now k p"
| "wo_exec api db (TransitionOp now k s reason) = transition_work_order api db now k s reason"
| "wo_exec api db (CancelOp now k reason) = cancel_work_order api db now k reason"
| "wo_exec api db (ArchiveOp now k) = archive_work_order api db now k"
| "wo_exec api db (MarkRunOp now k run lease receipt) = mark_latest_run api db now k run lease receipt"
| "wo_exec api db (SetReceiptOp now k receipt) = set_latest_receipt api db now k receipt"

fun wo_target :: "wo_op \<Rightarrow> string" where
  "wo_target (CreateOp now k p) = k"
| "wo_target (UpdateOp now k p) = k"
| "wo_target (TransitionOp now k s reason) = k"
| "wo_target (CancelOp now k reason) = k"
| "wo_target (ArchiveOp now k) = k"
| "wo_target (MarkRunOp now k run lease receipt) = k"
| "wo_target (SetReceiptOp now k receipt) = k"

definition wo_after :: "('db, CodingWorkOrder) orm \<Rightarrow> 'db \<Rightarrow> wo_op \<Rightarrow> 'db" where
  "wo_after api db op1 = (case wo_exec api db op1 of Inl _ \<Rightarrow> db | Inr (db', _) \<Rightarrow> db')"

text \<open>The states a sequence of calls goes through, newest first.\<close>

fun wo_states :: "('db, CodingWorkOrder) orm \<Rightarrow> 'db list \<Rightarrow> wo_op list \<Rightarrow> 'db list" where
  "wo_states api dbs [] = dbs"
| "wo_states api dbs (op1 # ops) = wo_states api (wo_after api (hd dbs) op1 # dbs) ops"

text \<open>The statuses a reader sees for one identifier in those states.\<close>

definition wo_observed :: "('db, CodingWorkOrder) orm \<Rightarrow> string \<Rightarrow> 'db list \<Rightarrow> string list" where
  "wo_observed api k dbs = List.map_filter (\<lambda>db. map_option w_status (get_work_order api db k)) dbs"

text \<open>What every operation keeps of a row.\<close>

definition wo_row_ok :: "CodingWorkOrder \<Rightarrow> bool" where
  "wo_row_ok r \<longleftrightarrow> r_status r \<in> WORK_ORDER_STATUSES \<and> 1 \<le> r_max_validation_attempts r \<and>
     (\<exists>xs. r_dependency_ids r = str_list xs \<and> bounded_list xs) \<and>
     (\<exists>xs. r_file_scope r = str_list xs \<and> bounded_list xs) \<and>
     (\<exists>m. r_extra_meta r = PDict m \<and> bounded_meta_dict m)"

lemma row_to_contract_simps [simp]:
  "w_work_order_id (row_to_contract r) = r_work_order_id r" "w_status (row_to_contract r) = r_status r"
  by (simp_all add: row_to_contract_def)

lemma wo_row_ok_create: "wo_row_ok (create_row now k p priority attempts)"
  using bounded_text_list_bounded bounded_meta_bounded
  by (auto simp: wo_row_ok_def create_row_def normalize_initial_status_def Let_def WORK_ORDER_STATUSES_def)

lemma assign_if_None [simp]: "assign_if f None r = r"
  and assign_if_Some [simp]: "assign_if f (Some x) r = f x r"
  by (simp_all add: assign_if_def)

text \<open>A property of rows that each single assignment keeps is kept by the whole update.\<close>

lemma assign_if_keeps: "(\<And>x. Q r \<Longrightarrow> Q (f x r)) \<Longrightarrow> Q r \<Longrightarrow> Q (assign_if f v r)"
  by (cases v) simp_all

lemma assign_if_id: "(\<And>x r. r_work_order_id (f x r) = r_work_order_id r) \<Longrightarrow>
    r_work_order_id (assign_if f v r) = r_work_order_id r"
  by (cases v) simp_all

lemma assign_if_status: "(\<And>x r. r_status (f x r) = r_status r) \<Longrightarrow> r_status (assign_if f v r) = r_status r"
  by (cases v) simp_all

lemma apply_update_fields [simp]:
  "r_work_order_id (apply_update p r) = r_work_order_id r" "r_status (apply_update p r) = r_status r"
  by (simp_all add: apply_update_def Let_def assign_if_id assign_if_status)

lemma wo_row_ok_apply_update:
  assumes "wo_row_ok r"
  shows "wo_row_ok (apply_update p r)"
  unfolding apply_update_def Let_def
  by (intro assign_if_keeps [where Q = wo_row_ok] assms)
    (use bounded_text_list_bounded bounded_meta_bounded in \<open>auto simp: wo_row_ok_def\<close>)

lemma apply_transition_fields [simp]:
  "r_work_order_id (apply_transition now t reason r) = r_work_order_id r"
  "r_status (apply_transition now t reason r) = t"
  by (simp_all add: apply_transition_def Let_def)

lemma wo_row_ok_apply_transition:
  "wo_row_ok r \<Longrightarrow> t \<in> WORK_ORDER_STATUSES \<Longrightarrow> wo_row_ok (apply_transition now t reason r)"
  by (auto simp: apply_transition_def Let_def wo_row_ok_def)

text \<open>
  Every mutation of an existing order reads the row, computes a new one with the same identifier,
  and commits it; the status it writes is reachable by the validated transition.
\<close>

definition wo_step :: "CodingWorkOrder \<Rightarrow> CodingWorkOrder \<Rightarrow> bool" where
  "wo_step r r' \<longleftrightarrow> r_work_order_id r' = r_work_order_id r \<and> (wo_row_ok r \<longrightarrow> wo_row_ok r') \<and>
     (r_status r' = r_status r \<or>
      may_move (r_status r) (r_status r') \<and> strip (r_status r') = r_status r')"

lemma commit_row_Inr: "commit_row api db r = Inr (db', c) \<Longrightarrow>
    orm_commit api db r = Inr db' \<and> c = row_to_contract r"
  by (auto simp: commit_row_def split: sum.splits)

lemma transition_Inr:
  assumes "transition_work_order api db now k s reason = Inr (db', c)"
  obtains r where "get_row_or_raise api db k = Inr r"
    "may_move (r_status r) (strip s)"
    "commit_row api db (apply_transition now (strip s) reason r) = Inr (db', c)"
  using assms
  by (auto simp: transition_work_order_def Let_def may_move_iff may_move_def [symmetric]
      split: sum.splits if_splits)

lemma wo_step_transition:
  "may_move (r_status r) (strip s) \<Longrightarrow> wo_step r (apply_transition now (strip s) reason r)"
  by (auto simp: wo_step_def may_move_iff intro: wo_row_ok_apply_transition)

lemma wo_step_other:
  "wo_step r ((apply_update p r)\<lparr>r_updated_at := now\<rparr>)"
  "wo_step r (r\<lparr>r_latest_run_id := a, r_latest_lease_id := b, r_latest_receipt_id := c, r_updated_at := now\<rparr>)"
  "wo_step r (r\<lparr>r_latest_receipt_id := c, r_updated_at := now\<rparr>)"
  using wo_row_ok_apply_update [of r p] by (auto simp: wo_step_def wo_row_ok_def)

lemma wo_exec_existing:
  assumes "wo_exec api db op1 = Inr (db', c)" "\<forall>now k p. op1 \<noteq> CreateOp now k p"
  obtains r r' where "get_row_or_raise api db (wo_target op1) = Inr r" "wo_step r r'"
    "orm_commit api db r' = Inr db'" "c = row_to_contract r'"
  using assms
  by (cases op1)
    (auto simp: update_work_order_def cancel_work_order_def archive_work_order_def mark_latest_run_def
      set_latest_receipt_def split: sum.splits
      elim!: transition_Inr dest!: commit_row_Inr intro: wo_step_other wo_step_transition)

lemma create_Inr:
  assumes "create_work_order api db now k p = Inr (db', c)"
  obtains r where "r_work_order_id r = k" "wo_row_ok r" "r_status r \<in> {''draft'', ''ready''}"
    "orm_add api db r = Inr db'" "c = row_to_contract r"
proof -
  from assms obtain i n where "orm_add api db (create_row now k p i n) = Inr db'"
    "c = row_to_contract (create_row now k p i n)"
    by (auto simp: create_work_order_def Let_def split: sum.splits if_splits)
  then show ?thesis
    by (rule that [rotated -2]) (simp_all add: wo_row_ok_create, simp_all add: create_row_def normalize_initial_status_def Let_def)
qed

section \<open>The store over a table\<close>

text \<open>
  What a sequence of states keeps for one identifier: the newest state is well formed, and the
  statuses seen so far are a history ending in the present one.
\<close>

definition hist_inv :: "('db, CodingWorkOrder) orm \<Rightarrow> ('db \<Rightarrow> bool) \<Rightarrow> string \<Rightarrow> 'db list \<Rightarrow> bool" where
  "hist_inv api invar k dbs \<longleftrightarrow> dbs \<noteq> [] \<and> invar (hd dbs) \<and> (\<forall>r \<in> orm_rows api (hd dbs). wo_row_ok r) \<and>
     (case get_work_order api (hd dbs) k of
        None \<Rightarrow> wo_observed api k dbs = []
      | Some c \<Rightarrow> wo_history (wo_observed api k dbs) \<and> hd (wo_observed api k dbs) = w_status c)"

locale work_order_store = orm_table api r_work_order_id invar
  for api :: "('db, CodingWorkOrder) orm" and invar :: "'db \<Rightarrow> bool"
begin

lemma get_row_Inr:
  "invar db \<Longrightarrow> get_row_or_raise api db k = Inr r \<longleftrightarrow> r \<in> orm_rows api db \<and> r_work_order_id r = k"
  by (auto simp: get_row_or_raise_def first_key [symmetric] split: option.splits)

lemma get_Some:
  "invar db \<Longrightarrow> get_work_order api db k = Some c \<longleftrightarrow>
     (\<exists>r \<in> orm_rows api db. r_work_order_id r = k \<and> c = row_to_contract r)"
  by (auto simp: get_work_order_def first_key)

lemma exec_cases:
  assumes "invar db" "wo_exec api db op1 = Inr (db', c)"
  obtains (new) r where "\<exists>now p. op1 = CreateOp now (r_work_order_id r) p" "wo_target op1 = r_work_order_id r"
      "wo_row_ok r" "r_status r \<in> {''draft'', ''ready''}" "orm_add api db r = Inr db'" "c = row_to_contract r"
  | (old) r r' where "r \<in> orm_rows api db" "wo_target op1 = r_work_order_id r" "wo_step r r'"
      "orm_commit api db r' = Inr db'" "c = row_to_contract r'"
proof (cases "\<exists>now k p. op1 = CreateOp now k p")
  case True
  then obtain now k p where op1: "op1 = CreateOp now k p" by blast
  with assms(2) have "create_work_order api db now k p = Inr (db', c)" by simp
  then obtain r where "r_work_order_id r = k" "wo_row_ok r" "r_status r \<in> {''draft'', ''ready''}"
    "orm_add api db r = Inr db'" "c = row_to_contract r" by (rule create_Inr)
  then show ?thesis by (intro new [of r]) (simp_all add: op1)
next
  case False
  then show ?thesis
    using assms get_row_Inr [OF assms(1)] by (metis wo_exec_existing old)
qed

lemma exec_invar:
  assumes "invar db" "wo_exec api db op1 = Inr (db', c)"
  shows "invar db'"
  using assms
  by (cases rule: exec_cases)
    (blast intro: add_invar [OF assms(1)], metis commit_invar [OF assms(1)] wo_step_def)

lemma exec_get:
  assumes "invar db" "wo_exec api db op1 = Inr (db', c)"
  shows "get_work_order api db' k = (if k = wo_target op1 then Some c else get_work_order api db k)"
  using assms
proof (cases rule: exec_cases)
  case (new r)
  then show ?thesis using first_key_add [OF assms(1) new(5)] by (simp add: get_work_order_def)
next
  case (old r r')
  then have "r_work_order_id r = r_work_order_id r'" by (simp add: wo_step_def)
  with old show ?thesis
    using first_key_commit [OF assms(1) old(1) _ old(4)] by (simp add: get_work_order_def)
qed

lemma exec_rows_ok:
  assumes "invar db" "wo_exec api db op1 = Inr (db', c)" "\<forall>r \<in> orm_rows api db. wo_row_ok r"
  shows "\<forall>r \<in> orm_rows api db'. wo_row_ok r"
  using assms(1,2)
proof (cases rule: exec_cases)
  case (new r)
  then show ?thesis using all_rows_add [OF assms(1) new(5) assms(3)] by simp
next
  case (old r r')
  then have "r_work_order_id r = r_work_order_id r'" "wo_row_ok r'" using assms(3) by (auto simp: wo_step_def)
  with all_rows_commit [OF assms(1) old(1) _ old(4) assms(3)] show ?thesis by simp
qed

text \<open>What a reader can see of one identifier across one call.\<close>

lemma after_status:
  assumes "invar db" "\<forall>r \<in> orm_rows api db. wo_row_ok r"
  shows "case map_option w_status (get_work_order api (wo_after api db op1) k) of
      None \<Rightarrow> get_work_order api db k = None
    | Some s' \<Rightarrow> (case get_work_order api db k of
        None \<Rightarrow> s' \<in> {''draft'', ''ready''}
      | Some c \<Rightarrow> may_move (w_status c) s' \<and> strip s' = s')"
proof -
  have stay: "may_move (w_status c) (w_status c) \<and> strip (w_status c) = w_status c"
    if "get_work_order api db k = Some c" for c
    using that assms by (auto simp: get_Some wo_row_ok_def may_move_iff)
  show ?thesis
  proof (cases "wo_exec api db op1")
    case (Inl e)
    then show ?thesis using stay by (auto simp: wo_after_def split: option.splits)
  next
    case (Inr dc)
    obtain db' c where dc: "wo_exec api db op1 = Inr (db', c)" using Inr by (cases dc) auto
    note get = exec_get [OF assms(1) dc, of k]
    have after: "wo_after api db op1 = db'" by (simp add: wo_after_def dc)
    from assms(1) dc show ?thesis
    proof (cases rule: exec_cases)
      case (new r)
      have "get_work_order api db (r_work_order_id r) = None"
        using add_fresh [OF assms(1) new(5)] get_Some [OF assms(1)]
        by (metis not_Some_eq)
      with new get stay show ?thesis by (auto simp: after split: option.splits)
    next
      case (old r r')
      have "get_work_order api db (r_work_order_id r) = Some (row_to_contract r)"
        using old(1) assms(1) by (auto simp: get_Some)
      with old get stay assms show ?thesis by (auto simp: after wo_step_def split: option.splits)
    qed
  qed
qed

lemma after_new:
  assumes "invar db" "\<forall>r \<in> orm_rows api db. wo_row_ok r" "get_work_order api db k = None"
    "get_work_order api (wo_after api db op1) k = Some c'"
  shows "w_status c' \<in> {''draft'', ''ready''}"
  using after_status [OF assms(1,2), of k op1] assms(3,4) by simp

lemma after_old:
  assumes "invar db" "\<forall>r \<in> orm_rows api db. wo_row_ok r" "get_work_order api db k = Some c"
  shows "\<exists>c'. get_work_order api (wo_after api db op1) k = Some c' \<and>
    may_move (w_status c) (w_status c') \<and> strip (w_status c') = w_status c'"
  using after_status [OF assms(1,2), of k op1] assms(3)
  by (cases "get_work_order api (wo_after api db op1) k") auto

lemma after_keeps:
  assumes "invar db" "\<forall>r \<in> orm_rows api db. wo_row_ok r"
  shows "invar (wo_after api db op1)" "\<forall>r \<in> orm_rows api (wo_after api db op1). wo_row_ok r"
  using exec_invar [OF assms(1)] exec_rows_ok [OF assms(1) _ assms(2)] assms
  by (auto simp: wo_after_def split: sum.splits)

text \<open>The states of a sequence of calls, and the statuses seen along it.\<close>

lemma hist_inv_step: "hist_inv api invar k dbs \<Longrightarrow> hist_inv api invar k (wo_after api (hd dbs) op1 # dbs)"
proof -
  assume inv: "hist_inv api invar k dbs"
  then have hd: "invar (hd dbs)" "\<forall>r \<in> orm_rows api (hd dbs). wo_row_ok r" by (simp_all add: hist_inv_def)
  let ?db' = "wo_after api (hd dbs) op1"
  have obs: "wo_observed api k (?db' # dbs) =
      (case map_option w_status (get_work_order api ?db' k) of
         None \<Rightarrow> wo_observed api k dbs | Some s \<Rightarrow> s # wo_observed api k dbs)"
    by (auto simp: wo_observed_def map_filter_def split: option.splits)
  show ?thesis
  proof (cases "get_work_order api (hd dbs) k")
    case None
    with inv have "wo_observed api k dbs = []" by (simp add: hist_inv_def)
    with obs after_keeps [OF hd] after_new [OF hd None, of op1] show ?thesis
      by (cases "get_work_order api ?db' k") (auto simp: hist_inv_def intro: wo_history.created)
  next
    case (Some c)
    then obtain h where h: "wo_observed api k dbs = w_status c # h" "wo_history (w_status c # h)"
      using inv by (cases "wo_observed api k dbs") (auto simp: hist_inv_def)
    obtain c' where c': "get_work_order api ?db' k = Some c'" "may_move (w_status c) (w_status c')"
      "strip (w_status c') = w_status c'" using after_old [OF hd Some] by blast
    from wo_history.moved [OF h(2) c'(2)] c' obs h(1) after_keeps [OF hd] show ?thesis
      by (simp add: hist_inv_def)
  qed
qed

lemma hist_inv_states: "hist_inv api invar k dbs \<Longrightarrow> hist_inv api invar k (wo_states api dbs ops)"
  by (induction ops arbitrary: dbs) (auto dest: hist_inv_step)

lemma hist_inv_empty: "invar db \<Longrightarrow> orm_rows api db = {} \<Longrightarrow> hist_inv api invar k [db]"
  using get_Some [of db k]
  by (cases "get_work_order api db k") (auto simp: hist_inv_def wo_observed_def map_filter_def)

lemma observed_history:
  assumes "invar db" "orm_rows api db = {}" "wo_observed api k (wo_states api [db] ops) \<noteq> []"
  shows "wo_history (wo_observed api k (wo_states api [db] ops))"
  using hist_inv_states [OF hist_inv_empty [OF assms(1,2)], of k ops] assms(3)
  by (auto simp: hist_inv_def split: option.splits)

lemma states_invar:
  assumes "invar db" "\<forall>r \<in> orm_rows api db. wo_row_ok r"
  shows "invar (hd (wo_states api [db] ops)) \<and> (\<forall>r \<in> orm_rows api (hd (wo_states api [db] ops)). wo_row_ok r)"
proof -
  have "invar (hd (wo_states api dbs ops)) \<and> (\<forall>r \<in> orm_rows api (hd (wo_states api dbs ops)). wo_row_ok r)"
    if "invar (hd dbs)" "\<forall>r \<in> orm_rows api (hd dbs). wo_row_ok r" for dbs
    using that
  proof (induction ops arbitrary: dbs)
    case (Cons op1 ops)
    show ?case unfolding wo_states.simps
      by (rule Cons.IH; unfold list.sel; rule after_keeps [OF Cons.prems])
  qed simp
  from this [of "[db]"] assms show ?thesis by simp
qed

text \<open>An archived order stays archived; a finished one can only be archived.\<close>

lemma terminal_after:
  assumes "invar db" "\<forall>r \<in> orm_rows api db. wo_row_ok r"
    "get_work_order api db k = Some c" "w_status c \<in> WORK_ORDER_TERMINAL_STATUSES"
  shows "\<exists>c'. get_work_order api (wo_after api db op1) k = Some c' \<and>
    (w_status c' = w_status c \<or> w_status c' = ''archived'')"
proof -
  have c: "w_status c \<in> WORK_ORDER_STATUSES" using assms(4) by (auto simp: status_defs)
  obtain c' where c': "get_work_order api (wo_after api db op1) k = Some c'" "may_move (w_status c) (w_status c')"
    "strip (w_status c') = w_status c'" using after_old [OF assms(1-3)] by blast
  with c from_terminal [OF assms(4)] show ?thesis by (auto simp: may_move_iff)
qed

lemma terminal_states:
  assumes "invar (hd dbs)" "\<forall>r \<in> orm_rows api (hd dbs). wo_row_ok r"
    "get_work_order api (hd dbs) k = Some c" "w_status c \<in> WORK_ORDER_TERMINAL_STATUSES"
  shows "\<exists>c'. get_work_order api (hd (wo_states api dbs ops)) k = Some c' \<and>
    (w_status c' = w_status c \<or> w_status c' = ''archived'')"
  using assms
proof (induction ops arbitrary: dbs c)
  case (Cons op1 ops)
  obtain c' where c': "get_work_order api (wo_after api (hd dbs) op1) k = Some c'"
    "w_status c' = w_status c \<or> w_status c' = ''archived''"
    using terminal_after [OF Cons.prems, of op1] by blast
  then have "w_status c' \<in> WORK_ORDER_TERMINAL_STATUSES" using Cons.prems(4) by (auto simp: status_defs)
  with Cons.IH [of "wo_after api (hd dbs) op1 # dbs" c'] c' after_keeps [OF Cons.prems(1,2), of op1]
  show ?case by auto
qed simp

end

section \<open>The store on the list-backed table\<close>

text \<open>The check constraint of the table: the status column holds a known status.\<close>

definition wo_constraint :: "CodingWorkOrder list \<Rightarrow> CodingWorkOrder \<Rightarrow> string option" where
  "wo_constraint rows r =
     (if r_status r \<in> WORK_ORDER_STATUSES then None
      else Some ''CHECK constraint failed: coding_work_orders_status_check'')"

definition wo_table :: "(CodingWorkOrder list, CodingWorkOrder) orm" where
  "wo_table = list_orm r_work_order_id wo_constraint"

interpretation wos: work_order_store wo_table "list_invar r_work_order_id"
  unfolding wo_table_def by unfold_locales

lemma orm_table_wo_table: "orm_table wo_table r_work_order_id (list_invar r_work_order_id)"
  by (rule wos.orm_table_axioms)

section \<open>Properties\<close>

text \<open>
  C1. From an empty table, whatever calls clients make: a work order that was never seen does not
  exist, and the statuses a reader sees for any other form a lifecycle the transition table admits,
  ending (newest first) in the status that the store holds, however the order stands. One that was ever
  seen \<open>merged\<close> was seen, in this order, ready, leased, running, validating, passed and merge_ready
  before.
\<close>

theorem merged_passed_every_gate:
  assumes table: "orm_table api r_work_order_id invar" and "invar db" and empty: "orm_rows api db = {}"
    and seen: "seen = wo_observed api k (wo_states api [db] ops)"
  shows "(case get_work_order api (hd (wo_states api [db] ops)) k of
      None \<Rightarrow> seen = []
    | Some c \<Rightarrow> wo_history seen \<and> hd seen = w_status c) \<and>
    (\<forall>later before. seen = later @ ''merged'' # before \<longrightarrow>
      subseq [''merge_ready'', ''passed'', ''validating'', ''running'', ''leased'', ''ready''] before)"
proof -
  have store: "work_order_store api invar" by (rule work_order_store.intro [OF table])
  from work_order_store.hist_inv_states [OF store work_order_store.hist_inv_empty [OF store assms(2) empty]]
  have inv: "hist_inv api invar k (wo_states api [db] ops)" .
  then have now: "case get_work_order api (hd (wo_states api [db] ops)) k of
      None \<Rightarrow> seen = [] | Some c \<Rightarrow> wo_history seen \<and> hd seen = w_status c"
    unfolding hist_inv_def seen by (elim conjE)
  moreover have "subseq [''merge_ready'', ''passed'', ''validating'', ''running'', ''leased'', ''ready''] before"
    if "seen = later @ ''merged'' # before" for later before
  proof -
    have "wo_history seen" using now that by (auto split: option.splits)
    then show ?thesis using wo_history_gates that by blast
  qed
  ultimately show ?thesis by blast
qed

definition demo_now :: pydt where "demo_now = \<lparr>wall = 63902649600000000, utcoff = Some 0\<rparr>"

definition demo_create :: WorkOrderCreate where
  "demo_create =
     \<lparr>c_campaign_id = Some ''camp'', c_title = ''fix'', c_objective = ''make it pass'', c_scope = None,
      c_status = None, c_priority = PInt 3, c_created_by = None, c_assigned_worker_id = None,
      c_source_thread_id = None, c_source_message_id = None, c_dependency_ids = [''wo_0''],
      c_file_scope = [''src/a.py''], c_validation_command = None, c_adapter_kind = None,
      c_max_validation_attempts = PInt 2, c_require_worktree_lease = True,
      c_commit_after_validation = False, c_require_human_review_before_merge = True,
      c_blocked_reason = None, c_extra_meta = [(''k'', PInt 1)]\<rparr>"

definition demo_ops :: "wo_op list" where
  "demo_ops = CreateOp demo_now ''wo_1'' demo_create #
     map (\<lambda>s. TransitionOp demo_now ''wo_1'' s None)
       [''leased'', ''merged'', ''running'', ''validating'', ''retrying'', ''running'', ''validating'',
        ''passed'', '' merge_ready '', ''merged'']"

definition demo_seen :: "string list" where
  "demo_seen = wo_observed wo_table ''wo_1'' (wo_states wo_table [[]] demo_ops)"

lemma demo_merged: "demo_seen = [] @ ''merged'' # tl demo_seen"
  by code_simp

lemma demo_empty: "list_invar r_work_order_id []" "orm_rows wo_table [] = {}"
  by (simp_all add: list_invar_def wo_table_def)

theorem merged_passed_every_gate_witness:
  "subseq [''merge_ready'', ''passed'', ''validating'', ''running'', ''leased'', ''ready''] (tl demo_seen)"
  using merged_passed_every_gate [OF orm_table_wo_table demo_empty refl, of "''wo_1''" demo_ops] demo_merged
  unfolding demo_seen_def by blast

text \<open>
  C25. A failed, merged, cancelled or archived order is never reopened: after any calls a reader
  still finds it, in the same status or archived, and an archived one stays archived.
\<close>

theorem finished_orders_stay_finished:
  assumes table: "orm_table api r_work_order_id invar" and db: "invar db"
    and rows: "\<forall>r \<in> orm_rows api db. wo_row_ok r"
    and finished: "get_work_order api db k = Some c" "is_terminal_work_order_status (w_status c)"
  shows "\<exists>c'. get_work_order api (hd (wo_states api [db] ops)) k = Some c' \<and>
    (w_status c' = w_status c \<or> w_status c' = ''archived'')"
  using work_order_store.terminal_states [OF work_order_store.intro [OF table], of "[db]" k c ops]
    db rows finished by (simp add: is_terminal_work_order_status_def)

definition demo_failed :: CodingWorkOrder where
  "demo_failed = (create_row demo_now ''wo_1'' demo_create 3 2)\<lparr>r_status := ''failed''\<rparr>"

lemma demo_failed_ok: "wo_row_ok demo_failed"
  using wo_row_ok_create [of demo_now "''wo_1''" demo_create 3 2]
  by (simp add: demo_failed_def wo_row_ok_def WORK_ORDER_STATUSES_def)

lemma demo_failed_get: "get_work_order wo_table [demo_failed] ''wo_1'' = Some (row_to_contract demo_failed)"
  by (simp add: get_work_order_def orm_first_def wo_table_def list_select_def demo_failed_def create_row_def)

theorem finished_orders_stay_finished_witness:
  "\<exists>c'. get_work_order wo_table (hd (wo_states wo_table [[demo_failed]]
      [TransitionOp demo_now ''wo_1'' ''running'' None, ArchiveOp demo_now ''wo_1''])) ''wo_1'' = Some c' \<and>
    (w_status c' = w_status (row_to_contract demo_failed) \<or> w_status c' = ''archived'')"
proof (rule finished_orders_stay_finished [OF orm_table_wo_table _ _ demo_failed_get])
  show "list_invar r_work_order_id [demo_failed]" by (simp add: list_invar_def)
  show "\<forall>r \<in> orm_rows wo_table [demo_failed]. wo_row_ok r" using demo_failed_ok by (simp add: wo_table_def)
  show "is_terminal_work_order_status (w_status (row_to_contract demo_failed))"
    by (simp add: demo_failed_def is_terminal_work_order_status_def WORK_ORDER_TERMINAL_STATUSES_def)
qed

text \<open>
  Every row keeps the store's invariant under any calls: a known status, at least one validation
  attempt, scope and dependency lists without repetition and within the item bounds, and metadata
  within the key bounds with no dictionary below a dictionary.
\<close>

theorem store_rows_well_formed:
  assumes "orm_table api r_work_order_id invar" "invar db" "\<forall>r \<in> orm_rows api db. wo_row_ok r"
  shows "\<forall>r \<in> orm_rows api (hd (wo_states api [db] ops)). wo_row_ok r"
  using work_order_store.states_invar [OF work_order_store.intro [OF assms(1)] assms(2,3)] by blast

theorem store_rows_well_formed_witness:
  "list_all wo_row_ok (hd (wo_states wo_table [[demo_failed]] demo_ops))"
proof -
  have "\<forall>r \<in> orm_rows wo_table (hd (wo_states wo_table [[demo_failed]] demo_ops)). wo_row_ok r"
    by (rule store_rows_well_formed [OF orm_table_wo_table])
      (use demo_failed_ok in \<open>simp_all add: list_invar_def wo_table_def\<close>)
  then show ?thesis by (simp add: wo_table_def list_all_iff)
qed

text \<open>
  A call that succeeds returns exactly the contract a following read of that work order finds,
  and no other work order changes.
\<close>

theorem store_reads_back:
  assumes "orm_table api r_work_order_id invar" "invar db" "wo_exec api db op1 = Inr (db', c)"
  shows "get_work_order api db' k = (if k = wo_target op1 then Some c else get_work_order api db k)"
  by (rule work_order_store.exec_get [OF work_order_store.intro [OF assms(1)] assms(2,3)])

lemma demo_create_exec: "\<exists>db' c. wo_exec wo_table [demo_failed] (CreateOp demo_now ''wo_2'' demo_create) = Inr (db', c)"
proof -
  have "\<not> isl (wo_exec wo_table [demo_failed] (CreateOp demo_now ''wo_2'' demo_create))" by code_simp
  then show ?thesis by (cases "wo_exec wo_table [demo_failed] (CreateOp demo_now ''wo_2'' demo_create)") auto
qed

theorem store_reads_back_witness:
  "\<exists>db' c. get_work_order wo_table db' ''wo_2'' = Some c \<and>
     get_work_order wo_table db' ''wo_1'' = get_work_order wo_table [demo_failed] ''wo_1''"
proof -
  obtain db' c where "wo_exec wo_table [demo_failed] (CreateOp demo_now ''wo_2'' demo_create) = Inr (db', c)"
    using demo_create_exec by blast
  from store_reads_back [OF orm_table_wo_table _ this, of "''wo_2''"]
    store_reads_back [OF orm_table_wo_table _ this, of "''wo_1''"]
  show ?thesis by (intro exI [of _ db'] exI [of _ c]) (simp add: list_invar_def)
qed

lemma validate_transition_cases:
  assumes "cur \<in> WORK_ORDER_STATUSES"
  shows "t \<notin> WORK_ORDER_STATUSES \<Longrightarrow> strip t = t \<Longrightarrow> validate_work_order_transition cur t =
      wv_bad (''invalid to status: '' @ t) ''invalid_work_order_status''"
    "t \<in> WORK_ORDER_STATUSES \<Longrightarrow> t \<noteq> cur \<Longrightarrow> t \<notin> allowed_targets cur \<Longrightarrow>
      validate_work_order_transition cur t =
        wv_bad (''forbidden transition: '' @ cur @ '' -> '' @ t) ''invalid_work_order_transition''"
    "t \<in> WORK_ORDER_STATUSES \<Longrightarrow> t = cur \<or> t \<in> allowed_targets cur \<Longrightarrow>
      validate_work_order_transition cur t = wv_good"
  using assms by (auto simp: validate_work_order_transition_def Let_def)

text \<open>
  A transition request on an order in a known status has exactly these outcomes: an unknown
  target is a validation error, a target the table does not allow a transition error that names both
  statuses, and an allowed one is written (or the database fails), with the reason recorded on a
  blocked, escalated or cancelled order and the archival time on an archived one.
\<close>

theorem transition_outcomes:
  assumes "orm_table api r_work_order_id invar" "invar db"
    and c: "get_work_order api db k = Some c" and cur: "w_status c \<in> WORK_ORDER_STATUSES"
  shows
    "(let t = strip s; result = transition_work_order api db now k s reason in
      if t \<notin> WORK_ORDER_STATUSES
      then result = Inl (WorkOrderValidationError
             (wv_bad (''invalid to status: '' @ t) ''invalid_work_order_status''))
      else if t \<noteq> w_status c \<and> t \<notin> allowed_targets (w_status c)
      then result = Inl (WorkOrderTransitionError (w_status c) t
             (Some (''forbidden transition: '' @ w_status c @ '' -> '' @ t)) (Some ''invalid_work_order_transition''))
      else (\<exists>e. result = Inl (WoDatabase e)) \<or>
        (\<exists>db' c'. result = Inr (db', c') \<and> w_status c' = t \<and> w_updated_at c' = ensure_aware_datetime now \<and>
          (t \<in> {''blocked'', ''escalated'', ''cancelled''} \<longrightarrow> w_blocked_reason c' = bounded_text reason) \<and>
          (t = ''archived'' \<longrightarrow> w_archived_at c' = Some (ensure_aware_datetime now))))"
proof -
  have store: "work_order_store api invar" by (rule work_order_store.intro [OF assms(1)])
  obtain r where r: "get_row_or_raise api db k = Inr r" "c = row_to_contract r"
    using c work_order_store.get_Some [OF store assms(2)] work_order_store.get_row_Inr [OF store assms(2)] by blast
  with cur have st: "r_status r \<in> WORK_ORDER_STATUSES" by simp
  let ?t = "strip s"
  consider "?t \<notin> WORK_ORDER_STATUSES"
    | "?t \<in> WORK_ORDER_STATUSES" "?t \<noteq> r_status r" "?t \<notin> allowed_targets (r_status r)"
    | "?t \<in> WORK_ORDER_STATUSES" "?t = r_status r \<or> ?t \<in> allowed_targets (r_status r)" by blast
  then show ?thesis
  proof cases
    case 1
    with st r validate_transition_cases(1) [OF st 1] show ?thesis
      by (simp add: transition_work_order_def Let_def)
  next
    case 2
    with st r validate_transition_cases(2) [OF st 2(1,2,3)] show ?thesis
      by (simp add: transition_work_order_def Let_def)
  next
    case 3
    with st r validate_transition_cases(3) [OF st 3] show ?thesis
      by (cases "orm_commit api db (apply_transition now ?t reason r)")
        (auto simp: transition_work_order_def commit_row_def row_to_contract_def apply_transition_def Let_def)
  qed
qed

theorem transition_outcomes_witness:
  "transition_work_order wo_table [demo_failed] demo_now ''wo_1'' ''running'' None =
     Inl (WorkOrderTransitionError ''failed'' ''running'' (Some ''forbidden transition: failed -> running'')
       (Some ''invalid_work_order_transition''))"
proof -
  have "list_invar r_work_order_id [demo_failed]" by (simp add: list_invar_def)
  moreover have st: "w_status (row_to_contract demo_failed) = ''failed''" by (simp add: demo_failed_def)
  then have "w_status (row_to_contract demo_failed) \<in> WORK_ORDER_STATUSES"
    by (simp add: WORK_ORDER_STATUSES_def)
  moreover have "strip ''running'' = ''running''" "''running'' \<in> WORK_ORDER_STATUSES"
    "''running'' \<notin> allowed_targets ''failed''" by (simp_all add: status_defs)
  ultimately show ?thesis
    using transition_outcomes [OF orm_table_wo_table _ demo_failed_get, of "''running''" demo_now None] st
    by (simp add: Let_def)
qed

definition creatable :: "WorkOrderCreate \<Rightarrow> bool" where
  "creatable p \<longleftrightarrow> strip (c_title p) \<noteq> [] \<and> strip (c_objective p) \<noteq> [] \<and>
     (case c_status p of None \<Rightarrow> True | Some s \<Rightarrow> strip s \<in> {''draft'', ''ready''}) \<and>
     (\<exists>i. py_int (c_priority p) = Inr i) \<and> (\<exists>n. py_int (c_max_validation_attempts p) = Inr n \<and> 1 \<le> n)"

lemma try_int_Inr: "try_int v = Inr (Some i) \<longleftrightarrow> py_int v = Inr i"
  by (simp add: try_int_def split: sum.splits py_error.splits)

lemma validate_create_ok: "creatable p \<Longrightarrow> validate_create_payload p = Inr wv_good"
  by (auto simp: validate_create_payload_def creatable_def Let_def try_int_def WORK_ORDER_STATUSES_def
      split: option.splits)

lemma validate_create_bad:
  assumes "validate_create_payload p = Inr res" "wv_ok res"
  shows "creatable p"
  using assms
  by (auto simp: validate_create_payload_def creatable_def Let_def try_int_Inr
      split: sum.splits option.splits if_splits)

lemma create_row_contract:
  assumes "1 \<le> n" and c: "c = row_to_contract (create_row now k p i n)"
  shows "w_work_order_id c = k" "w_title c = strip (c_title p)"
    "w_status c = (if c_status p \<noteq> None \<and> strip (the (c_status p)) = ''draft'' then ''draft'' else ''ready'')"
    "w_priority c = i" "w_max_validation_attempts c = n" "w_latest_run_id c = None" "w_archived_at c = None"
  using assms(1) unfolding c
  by (simp_all add: row_to_contract_def create_row_def normalize_initial_status_def split: option.splits)

text \<open>
  Creation accepts exactly the well-formed payloads: with a non-blank title and objective, an
  initial status that is absent, draft or ready, and integer priority and attempts (at least one),
  it writes the normalised row (or the database fails); every other payload is refused before the
  database is touched.
\<close>

theorem create_accepts_exactly:
  "if creatable p
   then (\<exists>e. create_work_order api db now k p = Inl (WoDatabase e)) \<or>
     (\<exists>db' c. create_work_order api db now k p = Inr (db', c) \<and>
        w_work_order_id c = k \<and> w_title c = strip (c_title p) \<and>
        w_status c = (if c_status p \<noteq> None \<and> strip (the (c_status p)) = ''draft'' then ''draft'' else ''ready'') \<and>
        Inr (w_priority c) = py_int (c_priority p) \<and>
        Inr (w_max_validation_attempts c) = py_int (c_max_validation_attempts p) \<and>
        w_latest_run_id c = None \<and> w_archived_at c = None)
   else (\<exists>res. create_work_order api db now k p = Inl (WorkOrderValidationError res) \<and> \<not> wv_ok res) \<or>
     (\<exists>e. create_work_order api db now k p = Inl (WoPython e))"
proof (cases "creatable p")
  case True
  then obtain i n where pin: "py_int (c_priority p) = Inr i" "py_int (c_max_validation_attempts p) = Inr n" "1 \<le> n"
    by (auto simp: creatable_def)
  have "create_work_order api db now k p =
      (case orm_add api db (create_row now k p i n) of Inl e \<Rightarrow> Inl (WoDatabase e)
       | Inr db' \<Rightarrow> Inr (db', row_to_contract (create_row now k p i n)))"
    using pin validate_create_ok [OF True] by (simp add: create_work_order_def Let_def)
  with True pin create_row_contract [OF pin(3) refl] show ?thesis
    by (cases "orm_add api db (create_row now k p i n)") simp_all
next
  case False
  then show ?thesis
    using validate_create_bad [of p]
    by (auto simp: create_work_order_def split: sum.splits)
qed

end
