(* ===== verification/Worktree_Leases.thy ===== *)
theory Worktree_Leases
  imports Py_Base
begin

text \<open>
  Model of \<^verbatim>\<open>guardian/agents/worktree_leases.py\<close>: the contract of a lease on a mutable Git branch and
  worktree, the request with its dictionary codec, the validation of one lease and the check that no
  two active leases share a worktree path or a branch. The main lemma is that the check, a single
  pass with two dictionaries, decides exactly that exclusion.
\<close>

section \<open>Statuses and contracts\<close>

definition WORKTREE_LEASE_STATUSES :: "string set" where
  "WORKTREE_LEASE_STATUSES =
     {''active'', ''expired'', ''released'', ''abandoned'', ''cleanup_pending'', ''cleaned'',
      ''blocked'', ''failed''}"

definition WORKTREE_LEASE_CLEANUP_POLICIES :: "string set" where
  "WORKTREE_LEASE_CLEANUP_POLICIES =
     {''cleanup_on_merge'', ''preserve_on_fail'', ''manual_cleanup_required''}"

definition WORKTREE_LEASE_TERMINAL_STATUSES :: "string set" where
  "WORKTREE_LEASE_TERMINAL_STATUSES =
     {''expired'', ''released'', ''abandoned'', ''cleaned'', ''failed''}"

definition WORKTREE_LEASE_ACTIVE_STATUSES :: "string set" where
  "WORKTREE_LEASE_ACTIVE_STATUSES = {''active''}"

record WorktreeLeaseContract =
  l_lease_id :: string
  l_work_order_id :: string
  l_run_id :: string
  l_worker_id :: string
  l_base_ref :: string
  l_branch_name :: string
  l_worktree_path :: string
  l_status :: string
  l_created_at :: pydt
  l_expires_at :: pydt
  l_preserve_on_failure :: bool
  l_cleanup_policy :: string
  l_last_heartbeat_at :: "pydt option"

definition lease_to_dict :: "WorktreeLeaseContract \<Rightarrow> pydict" where
  "lease_to_dict l =
     [(''lease_id'', PStr (l_lease_id l)), (''work_order_id'', PStr (l_work_order_id l)),
      (''run_id'', PStr (l_run_id l)), (''worker_id'', PStr (l_worker_id l)),
      (''base_ref'', PStr (l_base_ref l)), (''branch_name'', PStr (l_branch_name l)),
      (''worktree_path'', PStr (l_worktree_path l)), (''status'', PStr (l_status l)),
      (''created_at'', PStr (isoformat (l_created_at l))),
      (''expires_at'', PStr (isoformat (l_expires_at l))),
      (''preserve_on_failure'', PBool (l_preserve_on_failure l)),
      (''cleanup_policy'', PStr (l_cleanup_policy l)),
      (''last_heartbeat_at'', opt_str (map_option isoformat (l_last_heartbeat_at l)))]"

record WorktreeLeaseRequest =
  q_work_order_id :: string
  q_run_id :: string
  q_worker_id :: string
  q_base_ref :: string
  q_branch_name :: "string option"
  q_worktree_path :: "string option"
  q_preserve_on_failure :: bool
  q_cleanup_policy :: string

definition request_to_dict :: "WorktreeLeaseRequest \<Rightarrow> pydict" where
  "request_to_dict q =
     [(''work_order_id'', PStr (q_work_order_id q)), (''run_id'', PStr (q_run_id q)),
      (''worker_id'', PStr (q_worker_id q)), (''base_ref'', PStr (q_base_ref q)),
      (''branch_name'', opt_str (q_branch_name q)), (''worktree_path'', opt_str (q_worktree_path q)),
      (''preserve_on_failure'', PBool (q_preserve_on_failure q)),
      (''cleanup_policy'', PStr (q_cleanup_policy q))]"

text \<open>\<open>str(payload.get(key, ""))\<close>: an absent key is the empty string, a present \<open>None\<close> is \<open>"None"\<close>.\<close>

definition str_field :: "pydict \<Rightarrow> string \<Rightarrow> string" where
  "str_field d k = py_str (dict_get_default d k (PStr []))"

definition request_from_dict :: "pydict \<Rightarrow> WorktreeLeaseRequest" where
  "request_from_dict payload =
     (let branch_name = dict_get payload ''branch_name'';
          worktree_path = dict_get payload ''worktree_path''
      in \<lparr>q_work_order_id = str_field payload ''work_order_id'', q_run_id = str_field payload ''run_id'',
          q_worker_id = str_field payload ''worker_id'', q_base_ref = str_field payload ''base_ref'',
          q_branch_name = (if branch_name = PNone then None else Some (py_str branch_name)),
          q_worktree_path = (if worktree_path = PNone then None else Some (py_str worktree_path)),
          q_preserve_on_failure =
            truthy (dict_get_default payload ''preserve_on_failure'' (PBool False)),
          q_cleanup_policy = str_field payload ''cleanup_policy''\<rparr>)"

section \<open>Validation\<close>

record WorktreeLeaseValidationResult =
  lv_ok :: bool
  lv_reason :: "string option"
  lv_reason_code :: "string option"

definition lv_good :: WorktreeLeaseValidationResult where
  "lv_good = \<lparr>lv_ok = True, lv_reason = None, lv_reason_code = None\<rparr>"

definition lv_bad :: "string \<Rightarrow> string \<Rightarrow> WorktreeLeaseValidationResult" where
  "lv_bad reason code = \<lparr>lv_ok = False, lv_reason = Some reason, lv_reason_code = Some code\<rparr>"

definition is_terminal_lease_status :: "string \<Rightarrow> bool" where
  "is_terminal_lease_status status = (status \<in> WORKTREE_LEASE_TERMINAL_STATUSES)"

definition is_active_lease_status :: "string \<Rightarrow> bool" where
  "is_active_lease_status status = (status \<in> WORKTREE_LEASE_ACTIVE_STATUSES)"

definition is_non_empty_string :: "string \<Rightarrow> bool" where
  "is_non_empty_string value = (strip value \<noteq> [])"

definition required_fields :: "WorktreeLeaseContract \<Rightarrow> (string \<times> string) list" where
  "required_fields lease =
     [(''lease_id'', l_lease_id lease), (''work_order_id'', l_work_order_id lease),
      (''run_id'', l_run_id lease), (''worker_id'', l_worker_id lease),
      (''base_ref'', l_base_ref lease), (''branch_name'', l_branch_name lease),
      (''worktree_path'', l_worktree_path lease)]"

text \<open>The checks in the order of the code; comparing datetimes is the only step that could raise.\<close>

definition validate_lease_contract :: "WorktreeLeaseContract \<Rightarrow> py_error + WorktreeLeaseValidationResult" where
  "validate_lease_contract lease =
     (case find (\<lambda>(field_name, value). \<not> is_non_empty_string value) (required_fields lease) of
        Some (field_name, _) \<Rightarrow>
          Inr (lv_bad (''missing required string field: '' @ field_name) ''missing_required_string_field'')
      | None \<Rightarrow>
        if l_status lease \<notin> WORKTREE_LEASE_STATUSES
        then Inr (lv_bad (''invalid lease status: '' @ l_status lease) ''invalid_lease_status'')
        else if l_cleanup_policy lease \<notin> WORKTREE_LEASE_CLEANUP_POLICIES
        then Inr (lv_bad (''invalid cleanup policy: '' @ l_cleanup_policy lease) ''invalid_cleanup_policy'')
        else if \<not> dt_aware (l_created_at lease)
        then Inr (lv_bad ''created_at must be timezone-aware'' ''created_at_not_timezone_aware'')
        else if \<not> dt_aware (l_expires_at lease)
        then Inr (lv_bad ''expires_at must be timezone-aware'' ''expires_at_not_timezone_aware'')
        else
          (case dt_less (l_expires_at lease) (l_created_at lease) of
             Inl e \<Rightarrow> Inl e
           | Inr before \<Rightarrow>
             if before then Inr (lv_bad ''expires_at must be >= created_at'' ''expires_before_created'')
             else (case l_last_heartbeat_at lease of
                None \<Rightarrow> Inr lv_good
              | Some beat \<Rightarrow>
                if \<not> dt_aware beat
                then Inr (lv_bad ''last_heartbeat_at must be timezone-aware''
                       ''last_heartbeat_not_timezone_aware'')
                else
                  (case dt_less beat (l_created_at lease) of
                     Inl e \<Rightarrow> Inl e
                   | Inr before \<Rightarrow>
                     if before then Inr (lv_bad ''last_heartbeat_at must be >= created_at''
                       ''heartbeat_before_created'')
                     else Inr lv_good))))"

fun no_shared_loop ::
    "(string \<rightharpoonup> string) \<Rightarrow> (string \<rightharpoonup> string) \<Rightarrow> WorktreeLeaseContract list \<Rightarrow>
      py_error + WorktreeLeaseValidationResult" where
  "no_shared_loop active_by_path active_by_branch [] = Inr lv_good"
| "no_shared_loop active_by_path active_by_branch (lease # leases) =
     (case validate_lease_contract lease of
        Inl e \<Rightarrow> Inl e
      | Inr validity \<Rightarrow>
        if \<not> lv_ok validity then Inr validity
        else if \<not> is_active_lease_status (l_status lease)
        then no_shared_loop active_by_path active_by_branch leases
        else if active_by_path (l_worktree_path lease) \<notin> {None, Some (l_lease_id lease)}
        then Inr (lv_bad (''active leases share worktree_path: '' @ l_worktree_path lease)
               ''shared_active_worktree_path'')
        else if active_by_branch (l_branch_name lease) \<notin> {None, Some (l_lease_id lease)}
        then Inr (lv_bad (''active leases share branch_name: '' @ l_branch_name lease)
               ''shared_active_branch_name'')
        else no_shared_loop (active_by_path(l_worktree_path lease \<mapsto> l_lease_id lease))
               (active_by_branch(l_branch_name lease \<mapsto> l_lease_id lease)) leases)"

definition validate_no_shared_mutable_worktree ::
    "WorktreeLeaseContract list \<Rightarrow> py_error + WorktreeLeaseValidationResult" where
  "validate_no_shared_mutable_worktree leases = no_shared_loop Map.empty Map.empty leases"

section \<open>What the validation decides\<close>

lemma lv_simps [simp]: "lv_ok lv_good" "\<not> lv_ok (lv_bad r c)" "lv_reason_code (lv_bad r c) = Some c"
  by (simp_all add: lv_good_def lv_bad_def)

text \<open>A lease is in order: named fields, known status and policy, aware times after its creation.\<close>

definition lease_valid :: "WorktreeLeaseContract \<Rightarrow> bool" where
  "lease_valid l \<longleftrightarrow>
     (\<forall>(n, v) \<in> set (required_fields l). strip v \<noteq> []) \<and>
     l_status l \<in> WORKTREE_LEASE_STATUSES \<and> l_cleanup_policy l \<in> WORKTREE_LEASE_CLEANUP_POLICIES \<and>
     dt_aware (l_created_at l) \<and> dt_aware (l_expires_at l) \<and>
     instant (l_created_at l) \<le> instant (l_expires_at l) \<and>
     (case l_last_heartbeat_at l of
        None \<Rightarrow> True
      | Some beat \<Rightarrow> dt_aware beat \<and> instant (l_created_at l) \<le> instant beat)"

lemma validate_lease_contract_total:
  "\<exists>v. validate_lease_contract lease = Inr v \<and> (lv_ok v \<longleftrightarrow> lease_valid lease)"
proof -
  have f: "find (\<lambda>(field_name, value). \<not> is_non_empty_string value) (required_fields lease) = None \<longleftrightarrow>
      (\<forall>(n, v) \<in> set (required_fields lease). strip v \<noteq> [])"
    by (auto simp: find_None_iff is_non_empty_string_def)
  show ?thesis
  proof (cases "find (\<lambda>(field_name, value). \<not> is_non_empty_string value) (required_fields lease)")
    case None
    with f show ?thesis
      by (simp add: validate_lease_contract_def lease_valid_def dt_less_def not_less split: option.splits)
  next
    case (Some a)
    with f have "\<not> lease_valid lease" unfolding lease_valid_def by (metis option.distinct(1))
    with Some show ?thesis by (auto simp: validate_lease_contract_def split: prod.splits)
  qed
qed

definition lease_active :: "WorktreeLeaseContract \<Rightarrow> bool" where
  "lease_active l = is_active_lease_status (l_status l)"

text \<open>The exclusion the check is for.\<close>

definition no_shared :: "WorktreeLeaseContract set \<Rightarrow> bool" where
  "no_shared ls \<longleftrightarrow>
     (\<forall>a \<in> ls. \<forall>b \<in> ls. lease_active a \<and> lease_active b \<and> l_lease_id a \<noteq> l_lease_id b \<longrightarrow>
        l_worktree_path a \<noteq> l_worktree_path b \<and> l_branch_name a \<noteq> l_branch_name b)"

lemma no_sharedD:
  "no_shared ls \<Longrightarrow> a \<in> ls \<Longrightarrow> b \<in> ls \<Longrightarrow> lease_active a \<Longrightarrow> lease_active b \<Longrightarrow> l_lease_id a \<noteq> l_lease_id b \<Longrightarrow>
     l_worktree_path a \<noteq> l_worktree_path b \<and> l_branch_name a \<noteq> l_branch_name b"
  unfolding no_shared_def by blast

definition fits_maps :: "(string \<rightharpoonup> string) \<Rightarrow> (string \<rightharpoonup> string) \<Rightarrow> WorktreeLeaseContract \<Rightarrow> bool" where
  "fits_maps byp byb l \<longleftrightarrow> byp (l_worktree_path l) \<in> {None, Some (l_lease_id l)} \<and>
     byb (l_branch_name l) \<in> {None, Some (l_lease_id l)}"

lemma no_shared_insert:
  "no_shared (insert l ls) \<longleftrightarrow> no_shared ls \<and>
     (lease_active l \<longrightarrow> (\<forall>b \<in> ls. lease_active b \<and> l_lease_id b \<noteq> l_lease_id l \<longrightarrow>
        l_worktree_path b \<noteq> l_worktree_path l \<and> l_branch_name b \<noteq> l_branch_name l))"
  unfolding no_shared_def by (auto; metis)

lemma fits_maps_upd:
  "fits_maps byp byb l \<Longrightarrow>
   fits_maps (byp(l_worktree_path l \<mapsto> l_lease_id l)) (byb(l_branch_name l \<mapsto> l_lease_id l)) b \<longleftrightarrow>
     fits_maps byp byb b \<and> (l_lease_id b \<noteq> l_lease_id l \<longrightarrow>
        l_worktree_path b \<noteq> l_worktree_path l \<and> l_branch_name b \<noteq> l_branch_name l)"
  by (auto simp: fits_maps_def)

lemma no_shared_loop_ok:
  "\<exists>v. no_shared_loop byp byb ls = Inr v \<and>
     (lv_ok v \<longleftrightarrow> (\<forall>l \<in> set ls. lease_valid l) \<and> no_shared (set ls) \<and>
        (\<forall>l \<in> set ls. lease_active l \<longrightarrow> fits_maps byp byb l))"
proof (induction ls arbitrary: byp byb)
  case Nil
  show ?case by (simp add: no_shared_def)
next
  case (Cons l ls)
  obtain v where v: "validate_lease_contract l = Inr v" "lv_ok v \<longleftrightarrow> lease_valid l"
    using validate_lease_contract_total by blast
  consider "\<not> lease_valid l" | "lease_valid l" "\<not> lease_active l"
    | "lease_valid l" "lease_active l" "\<not> fits_maps byp byb l"
    | "lease_valid l" "lease_active l" "fits_maps byp byb l" by blast
  then show ?case
  proof cases
    case 1
    with v show ?thesis by simp
  next
    case 2
    with v Cons.IH [of byp byb] show ?thesis by (auto simp: lease_active_def no_shared_insert)
  next
    case 3
    with v show ?thesis by (auto simp: lease_active_def fits_maps_def)
  next
    case 4
    let ?p = "byp(l_worktree_path l \<mapsto> l_lease_id l)" and ?b = "byb(l_branch_name l \<mapsto> l_lease_id l)"
    have "no_shared_loop byp byb (l # ls) = no_shared_loop ?p ?b ls"
      using 4 v by (auto simp: lease_active_def fits_maps_def)
    moreover obtain w where w: "no_shared_loop ?p ?b ls = Inr w"
      "lv_ok w \<longleftrightarrow> (\<forall>l \<in> set ls. lease_valid l) \<and> no_shared (set ls) \<and>
        (\<forall>l \<in> set ls. lease_active l \<longrightarrow> fits_maps ?p ?b l)" using Cons.IH [of ?p ?b] by blast
    moreover have "lv_ok w \<longleftrightarrow> (\<forall>l \<in> set (l # ls). lease_valid l) \<and> no_shared (set (l # ls)) \<and>
        (\<forall>l \<in> set (l # ls). lease_active l \<longrightarrow> fits_maps byp byb l)"
      unfolding w(2) fits_maps_upd [OF 4(3)] list.set no_shared_insert using 4 by blast
    ultimately show ?thesis by (simp only:) blast
  qed
qed

text \<open>When every lease is valid, a rejection is one of the two conflicts.\<close>

lemma no_shared_loop_code:
  "no_shared_loop byp byb ls = Inr v \<Longrightarrow> \<not> lv_ok v \<Longrightarrow> \<forall>l \<in> set ls. lease_valid l \<Longrightarrow>
     lv_reason_code v \<in> {Some ''shared_active_worktree_path'', Some ''shared_active_branch_name''}"
proof (induction ls arbitrary: byp byb)
  case (Cons l ls)
  obtain w where "validate_lease_contract l = Inr w" "lv_ok w"
    using validate_lease_contract_total [of l] Cons.prems(3) by auto
  with Cons show ?case by (auto split: if_splits)
qed simp

lemma no_shared_check:
  "\<exists>v. validate_no_shared_mutable_worktree ls = Inr v \<and>
     (lv_ok v \<longleftrightarrow> (\<forall>l \<in> set ls. lease_valid l) \<and> no_shared (set ls))"
  using no_shared_loop_ok [of Map.empty Map.empty ls]
  by (auto simp: validate_no_shared_mutable_worktree_def fits_maps_def)

section \<open>Properties\<close>

text \<open>
  C36. The single-pass check never raises and accepts a list of leases exactly when every lease is
  valid and no two active leases with different identifiers share a worktree path or a branch.
\<close>

theorem shared_worktree_check_exact:
  "\<exists>v. validate_no_shared_mutable_worktree ls = Inr v \<and>
     (lv_ok v \<longleftrightarrow> (\<forall>l \<in> set ls. lease_valid l) \<and> no_shared (set ls))"
  by (rule no_shared_check)

definition demo_lease :: "string \<Rightarrow> string \<Rightarrow> string \<Rightarrow> WorktreeLeaseContract" where
  "demo_lease k branch path =
     \<lparr>l_lease_id = k, l_work_order_id = ''wo_1'', l_run_id = ''run_1'', l_worker_id = ''w'',
      l_base_ref = ''main'', l_branch_name = branch, l_worktree_path = path, l_status = ''active'',
      l_created_at = \<lparr>wall = 1000, utcoff = Some 0\<rparr>, l_expires_at = \<lparr>wall = 2000, utcoff = Some 0\<rparr>,
      l_preserve_on_failure = True, l_cleanup_policy = ''preserve_on_fail'', l_last_heartbeat_at = None\<rparr>"

lemma demo_lease_valid: "lease_valid (demo_lease ''l1'' ''b1'' ''/w'')" "lease_valid (demo_lease ''l2'' ''b2'' ''/w'')"
  by (simp_all add: lease_valid_def demo_lease_def required_fields_def strip_def py_isspace_def
      WORKTREE_LEASE_STATUSES_def WORKTREE_LEASE_CLEANUP_POLICIES_def dt_aware_def instant_def)

theorem shared_worktree_check_exact_witness:
  "\<exists>v. validate_no_shared_mutable_worktree [demo_lease ''l1'' ''b1'' ''/w'', demo_lease ''l2'' ''b2'' ''/w''] = Inr v \<and>
     \<not> lv_ok v"
proof -
  have "\<not> no_shared (set [demo_lease ''l1'' ''b1'' ''/w'', demo_lease ''l2'' ''b2'' ''/w''])"
    by (simp add: no_shared_def lease_active_def is_active_lease_status_def demo_lease_def
        WORKTREE_LEASE_ACTIVE_STATUSES_def)
  with shared_worktree_check_exact [of "[demo_lease ''l1'' ''b1'' ''/w'', demo_lease ''l2'' ''b2'' ''/w'']"]
  show ?thesis by blast
qed

text \<open>A lease request written out as a dictionary and read back is the same request.\<close>

theorem lease_request_roundtrip: "request_from_dict (request_to_dict q) = q"
  by (cases q)
    (simp add: request_from_dict_def request_to_dict_def str_field_def dict_get_default_def dict_get_def
      py_str_def opt_str_def split: option.splits)

end
