(* ===== verification/Worktree_Lease_Store.thy ===== *)
theory Worktree_Lease_Store
  imports Worktree_Leases Orm_Table
begin

text \<open>
  Model of \<^verbatim>\<open>guardian/agents/worktree_lease_store.py\<close> over the lease table of
  \<^verbatim>\<open>guardian/db/models.py\<close>: creating a lease with the check against the active leases, the status
  marks and the reads. The main result is mutual exclusion: in every state that calls of the store
  can reach, no two active leases share a branch or a worktree path.
\<close>

section \<open>Rows, errors, helpers\<close>

record CodingWorktreeLease =
  wl_lease_id :: string
  wl_work_order_id :: string
  wl_run_id :: string
  wl_worker_id :: string
  wl_base_ref :: string
  wl_branch_name :: string
  wl_worktree_path :: string
  wl_status :: string
  wl_created_at :: pydt
  wl_expires_at :: pydt
  wl_preserve_on_failure :: bool
  wl_cleanup_policy :: string
  wl_last_heartbeat_at :: "pydt option"
  wl_released_at :: "pydt option"
  wl_cleanup_completed_at :: "pydt option"
  wl_cleanup_error :: "string option"
  wl_extra_meta :: "pydict option"

datatype lease_error =
    LeaseDatabase db_error
  | LeasePython py_error
  | WorktreeLeaseStoreError string
  | WorktreeLeaseNotFound string
  | WorktreeLeaseConflict (conflict_field: string) (conflict_value: string)
  | WorktreeLeaseValidationError WorktreeLeaseValidationResult

definition MAX_CLEANUP_ERROR_CHARS :: nat where "MAX_CLEANUP_ERROR_CHARS = 2048"

definition ensure_aware :: "pydt \<Rightarrow> pydt" where
  "ensure_aware d = (if dt_aware d then d else replace_utc d)"

definition bound_cleanup_error :: "string \<Rightarrow> string" where
  "bound_cleanup_error error =
     (let text1 = strip error in
      if length text1 \<le> MAX_CLEANUP_ERROR_CHARS then text1
      else take (MAX_CLEANUP_ERROR_CHARS - 3) text1 @ ''...'')"

definition lease_row_to_contract :: "CodingWorktreeLease \<Rightarrow> WorktreeLeaseContract" where
  "lease_row_to_contract row =
     \<lparr>l_lease_id = wl_lease_id row, l_work_order_id = wl_work_order_id row, l_run_id = wl_run_id row,
      l_worker_id = wl_worker_id row, l_base_ref = wl_base_ref row, l_branch_name = wl_branch_name row,
      l_worktree_path = wl_worktree_path row, l_status = wl_status row,
      l_created_at = ensure_aware (wl_created_at row), l_expires_at = ensure_aware (wl_expires_at row),
      l_preserve_on_failure = wl_preserve_on_failure row, l_cleanup_policy = wl_cleanup_policy row,
      l_last_heartbeat_at = map_option ensure_aware (wl_last_heartbeat_at row)\<rparr>"

text \<open>The row \<open>create_lease\<close> builds; a lease contract has no attribute \<open>extra_meta\<close>.\<close>

definition lease_row :: "WorktreeLeaseContract \<Rightarrow> CodingWorktreeLease" where
  "lease_row lease =
     \<lparr>wl_lease_id = l_lease_id lease, wl_work_order_id = l_work_order_id lease, wl_run_id = l_run_id lease,
      wl_worker_id = l_worker_id lease, wl_base_ref = l_base_ref lease, wl_branch_name = l_branch_name lease,
      wl_worktree_path = l_worktree_path lease, wl_status = l_status lease,
      wl_created_at = l_created_at lease, wl_expires_at = l_expires_at lease,
      wl_preserve_on_failure = l_preserve_on_failure lease, wl_cleanup_policy = l_cleanup_policy lease,
      wl_last_heartbeat_at = l_last_heartbeat_at lease, wl_released_at = None,
      wl_cleanup_completed_at = None, wl_cleanup_error = None, wl_extra_meta = Some []\<rparr>"

section \<open>Operations\<close>

definition assert_no_active_conflict ::
    "('db, CodingWorktreeLease) orm \<Rightarrow> 'db \<Rightarrow> WorktreeLeaseContract \<Rightarrow> lease_error + unit" where
  "assert_no_active_conflict api db candidate_lease =
     (let active_rows = orm_select api db (\<lambda>r. wl_status r \<in> WORKTREE_LEASE_ACTIVE_STATUSES);
          active_contracts = map lease_row_to_contract active_rows
      in case validate_no_shared_mutable_worktree (active_contracts @ [candidate_lease]) of
           Inl e \<Rightarrow> Inl (LeasePython e)
         | Inr result \<Rightarrow>
           if lv_ok result then Inr ()
           else if lv_reason_code result = Some ''shared_active_worktree_path''
           then Inl (WorktreeLeaseConflict ''worktree_path'' (l_worktree_path candidate_lease))
           else if lv_reason_code result = Some ''shared_active_branch_name''
           then Inl (WorktreeLeaseConflict ''branch_name'' (l_branch_name candidate_lease))
           else Inl (WorktreeLeaseValidationError result))"

definition translate_integrity_error :: "string \<Rightarrow> WorktreeLeaseContract \<Rightarrow> lease_error" where
  "translate_integrity_error orig lease =
     (let message = lower orig in
      if contains ''active_worktree_path'' message \<or> contains ''worktree_path'' message
      then WorktreeLeaseConflict ''worktree_path'' (l_worktree_path lease)
      else if contains ''active_branch_name'' message \<or> contains ''branch_name'' message
      then WorktreeLeaseConflict ''branch_name'' (l_branch_name lease)
      else if contains ''lease_id'' message \<or> contains ''unique'' message
      then WorktreeLeaseConflict ''lease_id'' (l_lease_id lease)
      else WorktreeLeaseStoreError ''unable to persist worktree lease'')"

definition persist_lease ::
    "('db, CodingWorktreeLease) orm \<Rightarrow> 'db \<Rightarrow> WorktreeLeaseContract \<Rightarrow> lease_error + ('db \<times> WorktreeLeaseContract)" where
  "persist_lease api db lease =
     (case orm_add api db (lease_row lease) of
        Inl (IntegrityError orig) \<Rightarrow> Inl (translate_integrity_error orig lease)
      | Inl e \<Rightarrow> Inl (LeaseDatabase e)
      | Inr db' \<Rightarrow> Inr (db', lease_row_to_contract (lease_row lease)))"

definition create_lease ::
    "('db, CodingWorktreeLease) orm \<Rightarrow> 'db \<Rightarrow> WorktreeLeaseContract \<Rightarrow> lease_error + ('db \<times> WorktreeLeaseContract)" where
  "create_lease api db lease =
     (case validate_lease_contract lease of
        Inl e \<Rightarrow> Inl (LeasePython e)
      | Inr validation \<Rightarrow>
        if \<not> lv_ok validation then Inl (WorktreeLeaseValidationError validation)
        else if is_active_lease_status (l_status lease)
        then (case assert_no_active_conflict api db lease of
                Inl e \<Rightarrow> Inl e
              | Inr _ \<Rightarrow> persist_lease api db lease)
        else persist_lease api db lease)"

definition get_lease :: "('db, CodingWorktreeLease) orm \<Rightarrow> 'db \<Rightarrow> string \<Rightarrow> WorktreeLeaseContract option" where
  "get_lease api db lease_id =
     map_option lease_row_to_contract (orm_first api db (\<lambda>r. wl_lease_id r = lease_id))"

text \<open>\<open>order_by(created_at.asc())\<close>: rows with equal times in the order the query finds them.\<close>

definition list_leases_for_work_order ::
    "('db, CodingWorktreeLease) orm \<Rightarrow> 'db \<Rightarrow> string \<Rightarrow> WorktreeLeaseContract list" where
  "list_leases_for_work_order api db work_order_id =
     map lease_row_to_contract (sort_key (\<lambda>r. instant (wl_created_at r))
       (orm_select api db (\<lambda>r. wl_work_order_id r = work_order_id)))"

definition list_active_leases :: "('db, CodingWorktreeLease) orm \<Rightarrow> 'db \<Rightarrow> WorktreeLeaseContract list" where
  "list_active_leases api db =
     map lease_row_to_contract (sort_key (\<lambda>r. instant (wl_created_at r))
       (orm_select api db (\<lambda>r. wl_status r \<in> WORKTREE_LEASE_ACTIVE_STATUSES)))"

definition lease_get_row_or_raise ::
    "('db, CodingWorktreeLease) orm \<Rightarrow> 'db \<Rightarrow> string \<Rightarrow> lease_error + CodingWorktreeLease" where
  "lease_get_row_or_raise api db lease_id =
     (case orm_first api db (\<lambda>r. wl_lease_id r = lease_id) of
        None \<Rightarrow> Inl (WorktreeLeaseNotFound (''unknown lease_id: '' @ lease_id))
      | Some row \<Rightarrow> Inr row)"

text \<open>The frame of every mark: load the row or raise, assign, commit, refresh, return the contract.\<close>

definition lease_mark ::
    "('db, CodingWorktreeLease) orm \<Rightarrow> 'db \<Rightarrow> string \<Rightarrow> (CodingWorktreeLease \<Rightarrow> CodingWorktreeLease) \<Rightarrow>
      lease_error + ('db \<times> WorktreeLeaseContract)" where
  "lease_mark api db lease_id assign =
     (case lease_get_row_or_raise api db lease_id of
        Inl e \<Rightarrow> Inl e
      | Inr row \<Rightarrow>
        (case orm_commit api db (assign row) of
           Inl e \<Rightarrow> Inl (LeaseDatabase e)
         | Inr db' \<Rightarrow> Inr (db', lease_row_to_contract (assign row))))"

text \<open>\<open>at or _utc_now()\<close>.\<close>

definition at_or_now :: "pydt option \<Rightarrow> pydt \<Rightarrow> pydt" where
  "at_or_now at now = (case at of None \<Rightarrow> now | Some t \<Rightarrow> t)"

definition heartbeat ::
    "('db, CodingWorktreeLease) orm \<Rightarrow> 'db \<Rightarrow> pydt \<Rightarrow> string \<Rightarrow> pydt option \<Rightarrow> lease_error + ('db \<times> WorktreeLeaseContract)" where
  "heartbeat api db now lease_id at =
     lease_mark api db lease_id (\<lambda>row. row\<lparr>wl_last_heartbeat_at := Some (at_or_now at now)\<rparr>)"

definition mark_expired ::
    "('db, CodingWorktreeLease) orm \<Rightarrow> 'db \<Rightarrow> pydt \<Rightarrow> string \<Rightarrow> pydt option \<Rightarrow> lease_error + ('db \<times> WorktreeLeaseContract)" where
  "mark_expired api db now lease_id at =
     lease_mark api db lease_id
       (\<lambda>row. row\<lparr>wl_status := ''expired'', wl_last_heartbeat_at := Some (at_or_now at now)\<rparr>)"

definition mark_abandoned ::
    "('db, CodingWorktreeLease) orm \<Rightarrow> 'db \<Rightarrow> pydt \<Rightarrow> string \<Rightarrow> pydt option \<Rightarrow> lease_error + ('db \<times> WorktreeLeaseContract)" where
  "mark_abandoned api db now lease_id at =
     lease_mark api db lease_id
       (\<lambda>row. row\<lparr>wl_status := ''abandoned'', wl_last_heartbeat_at := Some (at_or_now at now)\<rparr>)"

definition release_lease ::
    "('db, CodingWorktreeLease) orm \<Rightarrow> 'db \<Rightarrow> pydt \<Rightarrow> string \<Rightarrow> pydt option \<Rightarrow> lease_error + ('db \<times> WorktreeLeaseContract)" where
  "release_lease api db now lease_id at =
     lease_mark api db lease_id
       (\<lambda>row. row\<lparr>wl_status := ''released'', wl_released_at := Some (at_or_now at now)\<rparr>)"

definition meta_with :: "string \<Rightarrow> pyval \<Rightarrow> CodingWorktreeLease \<Rightarrow> CodingWorktreeLease" where
  "meta_with k v row = row\<lparr>wl_extra_meta :=
     Some (dict_set (case wl_extra_meta row of None \<Rightarrow> [] | Some m \<Rightarrow> m) k v)\<rparr>"

definition mark_cleanup_pending ::
    "('db, CodingWorktreeLease) orm \<Rightarrow> 'db \<Rightarrow> string \<Rightarrow> string option \<Rightarrow> lease_error + ('db \<times> WorktreeLeaseContract)" where
  "mark_cleanup_pending api db lease_id reason =
     lease_mark api db lease_id (\<lambda>row.
       let row1 = row\<lparr>wl_status := ''cleanup_pending''\<rparr> in
       case reason of
         None \<Rightarrow> row1
       | Some r \<Rightarrow> if r = [] then row1 else meta_with ''cleanup_pending_reason'' (PStr (strip r)) row1)"

definition mark_cleaned ::
    "('db, CodingWorktreeLease) orm \<Rightarrow> 'db \<Rightarrow> pydt \<Rightarrow> string \<Rightarrow> pydt option \<Rightarrow> lease_error + ('db \<times> WorktreeLeaseContract)" where
  "mark_cleaned api db now lease_id at =
     lease_mark api db lease_id
       (\<lambda>row. row\<lparr>wl_status := ''cleaned'', wl_cleanup_completed_at := Some (at_or_now at now)\<rparr>)"

definition record_cleanup_error ::
    "('db, CodingWorktreeLease) orm \<Rightarrow> 'db \<Rightarrow> pydt \<Rightarrow> string \<Rightarrow> string \<Rightarrow> pydt option \<Rightarrow>
      lease_error + ('db \<times> WorktreeLeaseContract)" where
  "record_cleanup_error api db now lease_id error at =
     lease_mark api db lease_id (\<lambda>row.
       meta_with ''cleanup_error_recorded_at'' (PStr (isoformat (at_or_now at now)))
         (row\<lparr>wl_cleanup_error := Some (bound_cleanup_error error)\<rparr>))"

section \<open>The operations as one interface\<close>

datatype lease_op =
    CreateLease WorktreeLeaseContract
  | Heartbeat pydt string "pydt option"
  | MarkExpired pydt string "pydt option"
  | MarkAbandoned pydt string "pydt option"
  | ReleaseLease pydt string "pydt option"
  | MarkCleanupPending string "string option"
  | MarkCleaned pydt string "pydt option"
  | RecordCleanupError pydt string string "pydt option"

fun lease_exec :: "('db, CodingWorktreeLease) orm \<Rightarrow> 'db \<Rightarrow> lease_op \<Rightarrow> lease_error + ('db \<times> WorktreeLeaseContract)" where
  "lease_exec api db (CreateLease lease) = create_lease api db lease"
| "lease_exec api db (Heartbeat now k at) = heartbeat api db now k at"
| "lease_exec api db (MarkExpired now k at) = mark_expired api db now k at"
| "lease_exec api db (MarkAbandoned now k at) = mark_abandoned api db now k at"
| "lease_exec api db (ReleaseLease now k at) = release_lease api db now k at"
| "lease_exec api db (MarkCleanupPending k reason) = mark_cleanup_pending api db k reason"
| "lease_exec api db (MarkCleaned now k at) = mark_cleaned api db now k at"
| "lease_exec api db (RecordCleanupError now k err at) = record_cleanup_error api db now k err at"

fun lease_target :: "lease_op \<Rightarrow> string" where
  "lease_target (CreateLease lease) = l_lease_id lease"
| "lease_target (Heartbeat now k at) = k"
| "lease_target (MarkExpired now k at) = k"
| "lease_target (MarkAbandoned now k at) = k"
| "lease_target (ReleaseLease now k at) = k"
| "lease_target (MarkCleanupPending k reason) = k"
| "lease_target (MarkCleaned now k at) = k"
| "lease_target (RecordCleanupError now k err at) = k"

text \<open>The states successful calls lead to; a call that raises commits nothing.\<close>

inductive lease_reach :: "('db, CodingWorktreeLease) orm \<Rightarrow> 'db \<Rightarrow> 'db \<Rightarrow> bool" for api :: "('db, CodingWorktreeLease) orm" and db0 :: 'db where
  start: "lease_reach api db0 db0"
| call: "lease_reach api db0 db \<Longrightarrow> lease_exec api db op1 = Inr (db', c) \<Longrightarrow> lease_reach api db0 db'"

definition row_active :: "CodingWorktreeLease \<Rightarrow> bool" where
  "row_active r = is_active_lease_status (wl_status r)"

text \<open>Mutual exclusion on the rows.\<close>

definition leases_exclusive :: "CodingWorktreeLease set \<Rightarrow> bool" where
  "leases_exclusive rows \<longleftrightarrow>
     (\<forall>a \<in> rows. \<forall>b \<in> rows. row_active a \<and> row_active b \<and> a \<noteq> b \<longrightarrow>
        wl_worktree_path a \<noteq> wl_worktree_path b \<and> wl_branch_name a \<noteq> wl_branch_name b)"

lemma leases_exclusive_insert:
  assumes "leases_exclusive rows"
    "\<And>r. r \<in> rows \<Longrightarrow> row_active r \<Longrightarrow> row_active x \<Longrightarrow>
       wl_worktree_path r \<noteq> wl_worktree_path x \<and> wl_branch_name r \<noteq> wl_branch_name x"
  shows "leases_exclusive (insert x rows)"
  using assms unfolding leases_exclusive_def by (metis insert_iff)

text \<open>What a mark may change: it keeps the identity of the lease and activates nothing.\<close>

definition lease_step :: "CodingWorktreeLease \<Rightarrow> CodingWorktreeLease \<Rightarrow> bool" where
  "lease_step r r' \<longleftrightarrow>
     wl_lease_id r' = wl_lease_id r \<and> wl_work_order_id r' = wl_work_order_id r \<and> wl_run_id r' = wl_run_id r \<and>
     wl_worker_id r' = wl_worker_id r \<and> wl_base_ref r' = wl_base_ref r \<and> wl_branch_name r' = wl_branch_name r \<and>
     wl_worktree_path r' = wl_worktree_path r \<and> wl_created_at r' = wl_created_at r \<and>
     wl_expires_at r' = wl_expires_at r \<and> wl_cleanup_policy r' = wl_cleanup_policy r \<and>
     (row_active r' \<longrightarrow> row_active r)"

lemma contract_simps [simp]:
  "l_lease_id (lease_row_to_contract r) = wl_lease_id r" "l_status (lease_row_to_contract r) = wl_status r"
  "l_worktree_path (lease_row_to_contract r) = wl_worktree_path r"
  "l_branch_name (lease_row_to_contract r) = wl_branch_name r"
  "lease_active (lease_row_to_contract r) = row_active r"
  by (simp_all add: lease_row_to_contract_def lease_active_def row_active_def)

lemma lease_row_simps [simp]:
  "wl_lease_id (lease_row l) = l_lease_id l" "wl_status (lease_row l) = l_status l"
  "wl_worktree_path (lease_row l) = l_worktree_path l" "wl_branch_name (lease_row l) = l_branch_name l"
  "row_active (lease_row l) = lease_active l"
  by (simp_all add: lease_row_def lease_active_def row_active_def)

lemma lease_step_meta: "lease_step r r' \<Longrightarrow> lease_step r (meta_with k v r')"
  by (simp add: lease_step_def meta_with_def row_active_def)

lemma lease_step_marks:
  "lease_step r (r\<lparr>wl_last_heartbeat_at := t\<rparr>)"
  "lease_step r (r\<lparr>wl_status := ''expired'', wl_last_heartbeat_at := t\<rparr>)"
  "lease_step r (r\<lparr>wl_status := ''abandoned'', wl_last_heartbeat_at := t\<rparr>)"
  "lease_step r (r\<lparr>wl_status := ''released'', wl_released_at := t\<rparr>)"
  "lease_step r (r\<lparr>wl_status := ''cleanup_pending''\<rparr>)"
  "lease_step r (r\<lparr>wl_status := ''cleaned'', wl_cleanup_completed_at := t\<rparr>)"
  "lease_step r (r\<lparr>wl_cleanup_error := e\<rparr>)"
  by (simp_all add: lease_step_def row_active_def is_active_lease_status_def WORKTREE_LEASE_ACTIVE_STATUSES_def)

lemma lease_mark_Inr:
  assumes "lease_mark api db k assign = Inr (db', c)" "\<And>r. lease_step r (assign r)"
  obtains r where "lease_get_row_or_raise api db k = Inr r" "lease_step r (assign r)"
    "orm_commit api db (assign r) = Inr db'" "c = lease_row_to_contract (assign r)"
  using assms by (auto simp: lease_mark_def split: sum.splits)

lemma lease_exec_mark:
  assumes "\<forall>l. op1 \<noteq> CreateLease l"
  obtains assign where "lease_exec api db op1 = lease_mark api db (lease_target op1) assign"
    "\<And>r. lease_step r (assign r)"
proof -
  have "\<exists>assign. lease_exec api db op1 = lease_mark api db (lease_target op1) assign \<and>
      (\<forall>r. lease_step r (assign r))"
  proof (cases op1)
    case (MarkCleanupPending k reason)
    show ?thesis unfolding MarkCleanupPending lease_exec.simps lease_target.simps mark_cleanup_pending_def
      by (intro exI conjI, rule refl) (auto simp: Let_def intro: lease_step_marks lease_step_meta split: option.splits)
  next
    case (RecordCleanupError now k err at)
    show ?thesis unfolding RecordCleanupError lease_exec.simps lease_target.simps record_cleanup_error_def
      by (intro exI conjI, rule refl) (auto intro: lease_step_marks lease_step_meta)
  qed (use assms lease_step_marks in \<open>auto simp: heartbeat_def mark_expired_def mark_abandoned_def release_lease_def
      mark_cleaned_def\<close>)
  with that show ?thesis by blast
qed

lemma create_lease_Inr:
  assumes "create_lease api db l = Inr (db', c)"
  shows "lease_valid l" "lease_active l \<Longrightarrow> assert_no_active_conflict api db l = Inr ()"
    "orm_add api db (lease_row l) = Inr db'" "c = lease_row_to_contract (lease_row l)"
proof -
  have p: "persist_lease api db l = Inr (db', c)"
    using assms by (auto simp: create_lease_def split: sum.splits if_splits)
  then show "orm_add api db (lease_row l) = Inr db'" "c = lease_row_to_contract (lease_row l)"
    by (auto simp: persist_lease_def split: sum.splits db_error.splits)
  show "lease_valid l"
    using assms validate_lease_contract_total [of l] by (auto simp: create_lease_def split: if_splits)
  show "lease_active l \<Longrightarrow> assert_no_active_conflict api db l = Inr ()"
    using assms by (auto simp: create_lease_def lease_active_def split: sum.splits if_splits)
qed

section \<open>The store over a table\<close>

locale lease_store = orm_table api wl_lease_id invar
  for api :: "('db, CodingWorktreeLease) orm" and invar :: "'db \<Rightarrow> bool"
begin

lemma lease_row_Inr:
  "invar db \<Longrightarrow> lease_get_row_or_raise api db k = Inr r \<longleftrightarrow> r \<in> orm_rows api db \<and> wl_lease_id r = k"
  by (auto simp: lease_get_row_or_raise_def first_key [symmetric] split: option.splits)

lemma lease_exec_cases:
  assumes "invar db" "lease_exec api db op1 = Inr (db', c)"
  obtains (new) l where "op1 = CreateLease l" "lease_valid l"
      "lease_active l \<Longrightarrow> assert_no_active_conflict api db l = Inr ()"
      "orm_add api db (lease_row l) = Inr db'" "c = lease_row_to_contract (lease_row l)"
  | (old) r r' where "r \<in> orm_rows api db" "lease_target op1 = wl_lease_id r" "lease_step r r'"
      "orm_commit api db r' = Inr db'" "c = lease_row_to_contract r'"
proof (cases "\<exists>l. op1 = CreateLease l")
  case True
  then obtain l where l: "op1 = CreateLease l" by blast
  with assms(2) have "create_lease api db l = Inr (db', c)" by simp
  from create_lease_Inr [OF this] l show ?thesis by (intro new) blast+
next
  case False
  then obtain assign where "lease_exec api db op1 = lease_mark api db (lease_target op1) assign"
    "\<And>r. lease_step r (assign r)" by (metis lease_exec_mark)
  with assms(2) obtain r where "lease_get_row_or_raise api db (lease_target op1) = Inr r" "lease_step r (assign r)"
    "orm_commit api db (assign r) = Inr db'" "c = lease_row_to_contract (assign r)"
    using lease_mark_Inr by metis
  with old [of r "assign r"] lease_row_Inr [OF assms(1)] show ?thesis by simp
qed

lemma lease_exec_invar:
  assumes "invar db" "lease_exec api db op1 = Inr (db', c)"
  shows "invar db'"
  using assms
  by (cases rule: lease_exec_cases)
    (blast intro: add_invar [OF assms(1)], metis commit_invar [OF assms(1)] lease_step_def)

lemma no_conflict_rows:
  assumes "invar db" "assert_no_active_conflict api db l = Inr ()" "r \<in> orm_rows api db" "row_active r"
    "lease_active l" "wl_lease_id r \<noteq> l_lease_id l"
  shows "wl_worktree_path r \<noteq> l_worktree_path l \<and> wl_branch_name r \<noteq> l_branch_name l"
proof -
  let ?ls = "map lease_row_to_contract (orm_select api db (\<lambda>r. wl_status r \<in> WORKTREE_LEASE_ACTIVE_STATUSES)) @ [l]"
  have "no_shared (set ?ls)"
    using assms(2) no_shared_check [of ?ls]
    by (auto simp: assert_no_active_conflict_def Let_def split: sum.splits if_splits)
  moreover have "lease_row_to_contract r \<in> set ?ls"
    using assms(3,4) select_rows [OF assms(1)] by (auto simp: row_active_def is_active_lease_status_def)
  moreover have "l \<in> set ?ls" by simp
  ultimately show ?thesis
    using no_sharedD [of "set ?ls" "lease_row_to_contract r" l] assms(4-6) by (simp only: contract_simps simp_thms)
qed

lemma lease_exec_keeps:
  assumes "invar db" "leases_exclusive (orm_rows api db)" "lease_exec api db op1 = Inr (db', c)"
  shows "invar db' \<and> leases_exclusive (orm_rows api db')"
  using assms(1,3)
proof (cases rule: lease_exec_cases)
  case (new l)
  have "wl_worktree_path r \<noteq> l_worktree_path l \<and> wl_branch_name r \<noteq> l_branch_name l"
    if "r \<in> orm_rows api db" "row_active r" "lease_active l" for r
    using no_conflict_rows [OF assms(1) new(3) that(1,2,3)] add_fresh [OF assms(1) new(4) that(1)] that(3) by simp
  then show ?thesis
    using leases_exclusive_insert [OF assms(2), of "lease_row l"] add_rows [OF assms(1) new(4)]
      add_invar [OF assms(1) new(4)] by simp
next
  case (old r r')
  then have k: "wl_lease_id r = wl_lease_id r'" by (simp add: lease_step_def)
  have "row_active r' \<Longrightarrow> row_active r" "wl_worktree_path r' = wl_worktree_path r" "wl_branch_name r' = wl_branch_name r"
    using old(3) by (simp_all add: lease_step_def)
  then show ?thesis
    using assms(2) old(1) commit_rows [OF assms(1) old(1) k old(4)] commit_invar [OF assms(1) old(1) k old(4)]
    by (auto simp: leases_exclusive_def)
qed

lemma lease_reach_keeps:
  assumes "lease_reach api db0 db" "invar db0" "leases_exclusive (orm_rows api db0)"
  shows "invar db \<and> leases_exclusive (orm_rows api db)"
  using assms by (induction rule: lease_reach.induct) (blast dest: lease_exec_keeps)+

text \<open>What one call can do to the lease a reader sees under one identifier.\<close>

lemma get_lease_exec:
  assumes "invar db" "lease_exec api db op1 = Inr (db', c)"
  shows "get_lease api db' k = (if k = lease_target op1 then Some c else get_lease api db k)"
  using assms
proof (cases rule: lease_exec_cases)
  case (new l)
  then show ?thesis using first_key_add [OF assms(1) new(4)] by (simp add: get_lease_def)
next
  case (old r r')
  then have "wl_lease_id r = wl_lease_id r'" by (simp add: lease_step_def)
  with old first_key_commit [OF assms(1) old(1) _ old(4)] show ?thesis by (simp add: get_lease_def)
qed

lemma row_persists:
  assumes "invar db" "lease_exec api db op1 = Inr (db', c)" "r \<in> orm_rows api db"
  shows "\<exists>r' \<in> orm_rows api db'. lease_step r r'"
  using assms(1,2)
proof (cases rule: lease_exec_cases)
  case (new l)
  then show ?thesis using add_rows [OF assms(1) new(4)] assms(3) by (auto simp: lease_step_def)
next
  case (old r0 r')
  then have "wl_lease_id r0 = wl_lease_id r'" by (simp add: lease_step_def)
  with old commit_rows [OF assms(1) old(1) _ old(4)] assms(3) show ?thesis
    by (cases "r = r0") (auto simp: lease_step_def)
qed

lemma row_persists_reach:
  assumes "lease_reach api db0 db" "invar db0" "r \<in> orm_rows api db0"
  shows "invar db \<and> (\<exists>r' \<in> orm_rows api db. lease_step r r')"
  using assms
proof (induction rule: lease_reach.induct)
  case start
  then show ?case by (auto simp: lease_step_def)
next
  case (call db op1 db' c)
  then obtain r' where r': "invar db" "r' \<in> orm_rows api db" "lease_step r r'" by blast
  obtain r'' where "r'' \<in> orm_rows api db'" "lease_step r' r''"
    using row_persists [OF r'(1) call.hyps(2) r'(2)] by blast
  moreover from this r' have "lease_step r r''" by (simp add: lease_step_def)
  moreover have "invar db'" using lease_exec_invar [OF r'(1) call.hyps(2)] .
  ultimately show ?case by blast
qed

end

section \<open>The store on the list-backed table\<close>

text \<open>
  The constraints of the table: known status and cleanup policy, and the two partial unique indexes
  over the active rows.
\<close>

definition lease_constraint :: "CodingWorktreeLease list \<Rightarrow> CodingWorktreeLease \<Rightarrow> string option" where
  "lease_constraint rows r =
     (if wl_status r \<notin> WORKTREE_LEASE_STATUSES
      then Some ''CHECK constraint failed: coding_worktree_leases_status_check''
      else if wl_cleanup_policy r \<notin> WORKTREE_LEASE_CLEANUP_POLICIES
      then Some ''CHECK constraint failed: coding_worktree_leases_cleanup_policy_check''
      else if row_active r \<and> (\<exists>x \<in> set rows. row_active x \<and> wl_branch_name x = wl_branch_name r)
      then Some ''UNIQUE constraint failed: coding_worktree_leases.branch_name''
      else if row_active r \<and> (\<exists>x \<in> set rows. row_active x \<and> wl_worktree_path x = wl_worktree_path r)
      then Some ''UNIQUE constraint failed: coding_worktree_leases.worktree_path''
      else None)"

definition lease_table :: "(CodingWorktreeLease list, CodingWorktreeLease) orm" where
  "lease_table = list_orm wl_lease_id lease_constraint"

interpretation wls: lease_store lease_table "list_invar wl_lease_id"
  unfolding lease_table_def by unfold_locales

lemma orm_table_lease_table: "orm_table lease_table wl_lease_id (list_invar wl_lease_id)"
  by (rule wls.orm_table_axioms)

section \<open>Properties\<close>

text \<open>
  C3. Mutual exclusion: from an empty table, in every state that calls of the store reach, no two
  active leases share a worktree path or a branch. The store's own check gives it; the proof does
  not use the unique indexes of the database.
\<close>

theorem active_leases_exclusive:
  assumes "orm_table api wl_lease_id invar" "invar db0" "orm_rows api db0 = {}" "lease_reach api db0 db"
  shows "leases_exclusive (orm_rows api db)"
  using lease_store.lease_reach_keeps [OF lease_store.intro [OF assms(1)] assms(4,2)] assms(3)
  by (simp add: leases_exclusive_def)

lemma demo_reach:
  assumes "lease_exec lease_table [] (CreateLease a) = Inr (d1, x)" "lease_exec lease_table d1 (CreateLease b) = Inr (d2, y)"
  shows "lease_reach lease_table [] d2"
  using lease_reach.call [OF lease_reach.call [OF lease_reach.start assms(1)] assms(2)] .

lemma lease_exec_Inr: "\<not> isl (lease_exec api db op1) \<Longrightarrow> \<exists>db' c. lease_exec api db op1 = Inr (db', c)"
  by (cases "lease_exec api db op1") auto

definition demo_rows :: "CodingWorktreeLease list" where
  "demo_rows = [lease_row (demo_lease ''l1'' ''b1'' ''/w1''), lease_row (demo_lease ''l2'' ''b2'' ''/w2'')]"

lemma demo_rows_exec:
  "lease_exec lease_table [] (CreateLease (demo_lease ''l1'' ''b1'' ''/w1'')) =
     Inr (take 1 demo_rows, lease_row_to_contract (lease_row (demo_lease ''l1'' ''b1'' ''/w1'')))"
  "lease_exec lease_table (take 1 demo_rows) (CreateLease (demo_lease ''l2'' ''b2'' ''/w2'')) =
     Inr (demo_rows, lease_row_to_contract (lease_row (demo_lease ''l2'' ''b2'' ''/w2'')))"
  by code_simp+

theorem active_leases_exclusive_witness: "leases_exclusive (orm_rows lease_table demo_rows)"
  by (rule active_leases_exclusive [OF orm_table_lease_table _ _ demo_reach [OF demo_rows_exec]])
    (simp_all add: list_invar_def lease_table_def)

text \<open>
  A lease never comes back: along any calls every lease stays in the table under its
  identifier with the same work order, run, worker, base, branch, path and times, and one that is
  not active is never active again.
\<close>

theorem leases_never_reactivated:
  assumes "orm_table api wl_lease_id invar" "invar db0" "lease_reach api db0 db" "r \<in> orm_rows api db0"
  shows "\<exists>r' \<in> orm_rows api db. lease_step r r'"
  using lease_store.row_persists_reach [OF lease_store.intro [OF assms(1)] assms(3,2,4)] by blast

theorem leases_never_reactivated_witness:
  "\<exists>r' \<in> orm_rows lease_table demo_rows. lease_step (lease_row (demo_lease ''l1'' ''b1'' ''/w1'')) r'"
  by (rule leases_never_reactivated [OF orm_table_lease_table _
        lease_reach.call [OF lease_reach.start demo_rows_exec(2)]])
    (simp_all add: list_invar_def lease_table_def demo_rows_def)

text \<open>
  A creation has exactly these outcomes, when the active leases are in order: an invalid lease
  is a validation error; an active one that collides with another active lease is a conflict on the
  path or the branch; any other goes to the database.
\<close>

theorem create_lease_outcomes:
  assumes "orm_table api wl_lease_id invar" "invar db"
    and valid: "\<forall>r \<in> orm_rows api db. row_active r \<longrightarrow> lease_valid (lease_row_to_contract r)"
    and exclusive: "leases_exclusive (orm_rows api db)"
  shows "if \<not> lease_valid l then \<exists>v. create_lease api db l = Inl (WorktreeLeaseValidationError v)
    else if lease_active l \<and> (\<exists>r \<in> orm_rows api db. row_active r \<and> wl_lease_id r \<noteq> l_lease_id l \<and>
        (wl_worktree_path r = l_worktree_path l \<or> wl_branch_name r = l_branch_name l))
    then \<exists>v. create_lease api db l = Inl (WorktreeLeaseConflict ''worktree_path'' v) \<or>
      create_lease api db l = Inl (WorktreeLeaseConflict ''branch_name'' v)
    else create_lease api db l = persist_lease api db l"
proof -
  let ?rows = "orm_select api db (\<lambda>r. wl_status r \<in> WORKTREE_LEASE_ACTIVE_STATUSES)"
  let ?ls = "map lease_row_to_contract ?rows @ [l]"
  obtain v where v: "validate_lease_contract l = Inr v" "lv_ok v \<longleftrightarrow> lease_valid l"
    using validate_lease_contract_total by blast
  obtain w where w: "validate_no_shared_mutable_worktree ?ls = Inr w"
    "lv_ok w \<longleftrightarrow> (\<forall>l \<in> set ?ls. lease_valid l) \<and> no_shared (set ?ls)" using no_shared_check by blast
  have rows: "set ?rows = {r \<in> orm_rows api db. row_active r}"
    using orm_table.select_rows [OF assms(1,2)] by (simp add: row_active_def is_active_lease_status_def)
  have ex: "no_shared (lease_row_to_contract ` set ?rows)"
    using exclusive unfolding rows no_shared_def leases_exclusive_def by (auto; metis)
  show ?thesis
  proof (cases "lease_valid l \<and> lease_active l")
    case False
    with v show ?thesis by (auto simp: create_lease_def lease_active_def)
  next
    case True
    have all: "\<forall>l \<in> set ?ls. lease_valid l" using valid rows True by auto
    have ok: "lv_ok w \<longleftrightarrow> (\<forall>r \<in> set ?rows. wl_lease_id r \<noteq> l_lease_id l \<longrightarrow>
        wl_worktree_path r \<noteq> l_worktree_path l \<and> wl_branch_name r \<noteq> l_branch_name l)"
      using w(2) all ex True rows by (simp add: no_shared_insert)
    have code: "lv_reason_code w \<in> {Some ''shared_active_worktree_path'', Some ''shared_active_branch_name''}"
      if "\<not> lv_ok w"
      using no_shared_loop_code [OF w(1) [unfolded validate_no_shared_mutable_worktree_def] that all] .
    show ?thesis
      using True v w(1) ok code rows
      by (auto simp: create_lease_def assert_no_active_conflict_def Let_def lease_active_def)
  qed
qed

lemma demo_rows_valid:
  "\<forall>r \<in> orm_rows lease_table demo_rows. row_active r \<longrightarrow> lease_valid (lease_row_to_contract r)"
  by (simp add: lease_table_def demo_rows_def lease_valid_def demo_lease_def required_fields_def strip_def
      py_isspace_def lease_row_to_contract_def lease_row_def ensure_aware_def
      WORKTREE_LEASE_STATUSES_def WORKTREE_LEASE_CLEANUP_POLICIES_def dt_aware_def instant_def)

lemma demo_rows_exclusive: "list_invar wl_lease_id demo_rows" "leases_exclusive (orm_rows lease_table demo_rows)"
  by (simp_all add: list_invar_def lease_table_def demo_rows_def leases_exclusive_def demo_lease_def lease_row_def)

theorem create_lease_outcomes_witness:
  "\<exists>v. create_lease lease_table demo_rows (demo_lease ''l3'' ''b3'' ''/w1'') =
      Inl (WorktreeLeaseConflict ''worktree_path'' v) \<or>
    create_lease lease_table demo_rows (demo_lease ''l3'' ''b3'' ''/w1'') =
      Inl (WorktreeLeaseConflict ''branch_name'' v)"
proof -
  have "lease_valid (demo_lease ''l3'' ''b3'' ''/w1'')"
    by (simp add: lease_valid_def demo_lease_def required_fields_def strip_def py_isspace_def
      WORKTREE_LEASE_STATUSES_def WORKTREE_LEASE_CLEANUP_POLICIES_def dt_aware_def instant_def)
  moreover have "lease_active (demo_lease ''l3'' ''b3'' ''/w1'')"
    "\<exists>r \<in> orm_rows lease_table demo_rows. row_active r \<and> wl_lease_id r \<noteq> l_lease_id (demo_lease ''l3'' ''b3'' ''/w1'') \<and>
        wl_worktree_path r = l_worktree_path (demo_lease ''l3'' ''b3'' ''/w1'')"
    by (simp_all add: lease_table_def demo_rows_def demo_lease_def lease_row_def lease_active_def row_active_def
        is_active_lease_status_def WORKTREE_LEASE_ACTIVE_STATUSES_def)
  ultimately show ?thesis
    using create_lease_outcomes [OF orm_table_lease_table demo_rows_exclusive(1) demo_rows_valid demo_rows_exclusive(2),
        of "demo_lease ''l3'' ''b3'' ''/w1''"] by (metis (no_types, lifting))
qed

text \<open>
  A heartbeat is stored with whatever time the caller passes. One dated before the creation of
  its active lease leaves a row that the lease validation rejects, and from then on the store refuses
  every further active lease, whatever its branch and path.
\<close>

theorem stale_heartbeat_blocks_creates:
  assumes "orm_table api wl_lease_id invar" "invar db"
    and beat: "heartbeat api db now k (Some at) = Inr (db', c)"
    and active: "lease_active c" and stale: "dt_aware at" "instant at < instant (l_created_at c)"
  shows "lease_active l \<Longrightarrow> \<exists>e. create_lease api db' l = Inl e"
proof -
  have store: "lease_store api invar" by (rule lease_store.intro [OF assms(1)])
  have ex: "lease_exec api db (Heartbeat now k (Some at)) = Inr (db', c)" using beat by simp
  then have "get_lease api db' k = Some c" "invar db'"
    using lease_store.get_lease_exec [OF store assms(2) ex] lease_store.lease_exec_invar [OF store assms(2) ex]
    by simp_all
  then obtain r where r: "r \<in> orm_rows api db'" "c = lease_row_to_contract r"
    using orm_table.first_key [OF assms(1)] by (auto simp: get_lease_def)
  have "l_last_heartbeat_at c = Some at"
    using beat stale by (auto simp: heartbeat_def lease_mark_def at_or_now_def lease_row_to_contract_def
        ensure_aware_def split: sum.splits)
  with stale have bad: "\<not> lease_valid c" by (simp add: lease_valid_def)
  assume "lease_active l"
  let ?rows = "orm_select api db' (\<lambda>r. wl_status r \<in> WORKTREE_LEASE_ACTIVE_STATUSES)"
  have "c \<in> set (map lease_row_to_contract ?rows @ [l])"
    using r active orm_table.select_rows [OF assms(1) \<open>invar db'\<close>]
    by (auto simp: row_active_def is_active_lease_status_def)
  then obtain w where "validate_no_shared_mutable_worktree (map lease_row_to_contract ?rows @ [l]) = Inr w" "\<not> lv_ok w"
    using bad no_shared_check by blast
  then have "\<exists>e. assert_no_active_conflict api db' l = Inl e"
    by (auto simp: assert_no_active_conflict_def)
  with \<open>lease_active l\<close> show "\<exists>e. create_lease api db' l = Inl e"
    using validate_lease_contract_total [of l] by (auto simp: create_lease_def lease_active_def)
qed

lemma demo_beat:
  "heartbeat lease_table demo_rows \<lparr>wall = 1500, utcoff = Some 0\<rparr> ''l1'' (Some \<lparr>wall = 999, utcoff = Some 0\<rparr>) =
     Inr ([(hd demo_rows)\<lparr>wl_last_heartbeat_at := Some \<lparr>wall = 999, utcoff = Some 0\<rparr>\<rparr>, demo_rows ! 1],
       lease_row_to_contract ((hd demo_rows)\<lparr>wl_last_heartbeat_at := Some \<lparr>wall = 999, utcoff = Some 0\<rparr>\<rparr>))"
  by code_simp

theorem stale_heartbeat_blocks_creates_witness:
  "\<exists>e. create_lease lease_table
     [(hd demo_rows)\<lparr>wl_last_heartbeat_at := Some \<lparr>wall = 999, utcoff = Some 0\<rparr>\<rparr>, demo_rows ! 1]
     (demo_lease ''l9'' ''b9'' ''/w9'') = Inl e"
  by (rule stale_heartbeat_blocks_creates [OF orm_table_lease_table demo_rows_exclusive(1) demo_beat])
    (simp_all add: demo_rows_def demo_lease_def lease_row_def lease_row_to_contract_def lease_active_def
      is_active_lease_status_def WORKTREE_LEASE_ACTIVE_STATUSES_def ensure_aware_def dt_aware_def instant_def)

end
