(* ===== verification/Orchestrator_Policy.thy ===== *)
theory Orchestrator_Policy
  imports Work_Order_Store Worktree_Leases "HOL-Library.Multiset"
begin

text \<open>
  Model of \<^verbatim>\<open>guardian/agents/orchestrator_policy.py\<close>: the ranking of the next work orders to
  dispatch, with a reason for each one it leaves out. The lemmas show that the selection is safe
  (only ready orders whose dependencies are met and which collide with nothing that runs), complete
  (every order is accounted for once, and a better one is never passed over) and independent of the
  order of its input.
\<close>

section \<open>Data\<close>

record OrchestratorRecommendation =
  o_work_order_id :: string
  o_title :: string
  o_status :: string
  o_priority :: int
  o_rank :: nat
  o_decision :: string
  o_reason_codes :: "string list"
  o_dependency_ids :: "string list"
  o_file_scope :: "string list"
  o_requires_human_review :: bool
  o_latest_run_id :: "string option"
  o_latest_lease_id :: "string option"

record OrchestratorSkipReason =
  s_work_order_id :: string
  s_reason_code :: string
  s_message :: string

record OrchestratorPolicyResult =
  p_recommendations :: "OrchestratorRecommendation list"
  p_skipped :: "OrchestratorSkipReason list"
  p_decision_reasons :: "string list"
  p_generated_at :: pydt

definition recommendation_to_dict :: "OrchestratorRecommendation \<Rightarrow> pydict" where
  "recommendation_to_dict r =
     [(''work_order_id'', PStr (o_work_order_id r)), (''title'', PStr (o_title r)),
      (''status'', PStr (o_status r)), (''priority'', PInt (o_priority r)), (''rank'', PInt (int (o_rank r))),
      (''decision'', PStr (o_decision r)), (''reason_codes'', str_list (o_reason_codes r)),
      (''dependency_ids'', str_list (o_dependency_ids r)), (''file_scope'', str_list (o_file_scope r)),
      (''requires_human_review'', PBool (o_requires_human_review r)),
      (''latest_run_id'', opt_str (o_latest_run_id r)), (''latest_lease_id'', opt_str (o_latest_lease_id r))]"

definition skip_to_dict :: "OrchestratorSkipReason \<Rightarrow> pydict" where
  "skip_to_dict s =
     [(''work_order_id'', PStr (s_work_order_id s)), (''reason_code'', PStr (s_reason_code s)),
      (''message'', PStr (s_message s))]"

definition result_to_dict :: "OrchestratorPolicyResult \<Rightarrow> pydict" where
  "result_to_dict r =
     [(''recommendations'', PList (map (PDict \<circ> recommendation_to_dict) (p_recommendations r))),
      (''skipped'', PList (map (PDict \<circ> skip_to_dict) (p_skipped r))),
      (''decision_reasons'', str_list (p_decision_reasons r)),
      (''generated_at'', PStr (isoformat (p_generated_at r)))]"

section \<open>The checks of one work order\<close>

definition skip_reason :: "string \<Rightarrow> string \<Rightarrow> string \<Rightarrow> OrchestratorSkipReason" where
  "skip_reason k code msg = \<lparr>s_work_order_id = k, s_reason_code = code, s_message = msg\<rparr>"

fun dependency_loop :: "string \<Rightarrow> (string \<rightharpoonup> WorkOrderContract) \<Rightarrow> string list \<Rightarrow> OrchestratorSkipReason option" where
  "dependency_loop k by_id [] = None"
| "dependency_loop k by_id (dependency_id # ids) =
     (case by_id dependency_id of
        None \<Rightarrow> Some (skip_reason k ''AMBIGUOUS_STATE''
          (''dependency is missing from input set: '' @ dependency_id))
      | Some dependency \<Rightarrow>
        if w_status dependency \<notin> {''merged'', ''archived''}
        then Some (skip_reason k ''DEPENDENCY_NOT_SATISFIED''
          (''dependency is not in a satisfied terminal status (dependency_id='' @ dependency_id
           @ '', status='' @ w_status dependency @ '')''))
        else dependency_loop k by_id ids)"

definition dependency_failure ::
    "WorkOrderContract \<Rightarrow> (string \<rightharpoonup> WorkOrderContract) \<Rightarrow> OrchestratorSkipReason option" where
  "dependency_failure work_order by_id =
     dependency_loop (w_work_order_id work_order) by_id (w_dependency_ids work_order)"

definition lease_conflict ::
    "WorkOrderContract \<Rightarrow> string set \<Rightarrow> string set \<Rightarrow> OrchestratorSkipReason option" where
  "lease_conflict work_order active_lease_ids active_lease_work_order_ids =
     (if w_work_order_id work_order \<in> active_lease_work_order_ids
      then Some (skip_reason (w_work_order_id work_order) ''ACTIVE_LEASE_CONFLICT''
        ''work order already has an active lease'')
      else
        (let latest_lease_id = strip (case w_latest_lease_id work_order of None \<Rightarrow> [] | Some s \<Rightarrow> s) in
         if latest_lease_id \<noteq> [] \<and> latest_lease_id \<in> active_lease_ids
         then Some (skip_reason (w_work_order_id work_order) ''ACTIVE_LEASE_CONFLICT''
           (''latest lease is currently active: '' @ latest_lease_id))
         else None))"

fun scope_loop :: "string \<Rightarrow> string list \<Rightarrow> (string \<times> string list) list \<Rightarrow> OrchestratorSkipReason option" where
  "scope_loop k candidate_scope [] = None"
| "scope_loop k candidate_scope ((active_id, active_scope) # scopes) =
     (if active_id = k then scope_loop k candidate_scope scopes
      else
        (let overlap = sort (remdups (filter (\<lambda>v. v \<in> set active_scope) candidate_scope)) in
         if overlap \<noteq> []
         then Some (skip_reason k ''FILE_SCOPE_CONFLICT''
           (''file scope overlaps with active work-order scope (active_work_order_id='' @ active_id
            @ '', overlap='' @ py_repr (str_list overlap) @ '')''))
         else scope_loop k candidate_scope scopes))"

text \<open>A set of scope entries is the list of its members in the order of the field.\<close>

definition scope_entries :: "WorkOrderContract \<Rightarrow> string list" where
  "scope_entries work_order = filter (\<lambda>v. v \<noteq> []) (w_file_scope work_order)"

definition file_scope_conflict ::
    "WorkOrderContract \<Rightarrow> (string \<times> string list) list \<Rightarrow> OrchestratorSkipReason option" where
  "file_scope_conflict work_order active_file_scopes =
     (let candidate_scope = scope_entries work_order in
      if candidate_scope = [] then None
      else scope_loop (w_work_order_id work_order) candidate_scope active_file_scopes)"

definition recommendation_decision :: "WorkOrderContract \<Rightarrow> string \<times> string list" where
  "recommendation_decision work_order =
     (if w_require_human_review_before_merge work_order
      then (''recommendation_only'', [''READY_FOR_DISPATCH'', ''HUMAN_REVIEW_REQUIRED''])
      else (''recommend'', [''READY_FOR_DISPATCH'']))"

definition count_reason :: "OrchestratorSkipReason \<Rightarrow> (string \<times> nat) list \<Rightarrow> (string \<times> nat) list" where
  "count_reason item skip_counts =
     AList.update (s_reason_code item)
       ((case map_of skip_counts (s_reason_code item) of None \<Rightarrow> 0 | Some n \<Rightarrow> n) + 1) skip_counts"

definition build_decision_reasons ::
    "OrchestratorRecommendation list \<Rightarrow> OrchestratorSkipReason list \<Rightarrow> string list" where
  "build_decision_reasons recommendations skipped =
     (let skip_counts = fold count_reason skipped [] in
      [''evaluated work orders: '' @ show_nat (length recommendations + length skipped),
       ''recommended count: '' @ show_nat (length recommendations),
       ''skipped count: '' @ show_nat (length skipped)]
      @ map (\<lambda>code. ''skip '' @ code @ '': '' @ show_nat (the (map_of skip_counts code)))
          (sort (map fst skip_counts)))"

definition datetime_sort_key :: "pydt \<Rightarrow> pydt" where
  "datetime_sort_key value = (if \<not> dt_aware value then replace_utc value else astimezone_utc value)"

section \<open>The selection\<close>

definition index_by_id :: "WorkOrderContract list \<Rightarrow> (string \<rightharpoonup> WorkOrderContract)" where
  "index_by_id rows = foldl (\<lambda>m row. m(w_work_order_id row \<mapsto> row)) Map.empty rows"

definition active_execution_statuses :: "string set" where
  "active_execution_statuses = {''leased'', ''running'', ''validating'', ''retrying''}"

definition active_scopes :: "WorkOrderContract list \<Rightarrow> (string \<times> string list) list" where
  "active_scopes rows =
     foldl (\<lambda>d row. AList.update (w_work_order_id row) (scope_entries row) d) []
       (filter (\<lambda>row. w_status row \<in> active_execution_statuses) rows)"

text \<open>The body of the loop over the work orders: the first check that fails, if any.\<close>

definition skip_check ::
    "(string \<rightharpoonup> WorkOrderContract) \<Rightarrow> string set \<Rightarrow> string set \<Rightarrow> (string \<times> string list) list \<Rightarrow>
      WorkOrderContract \<Rightarrow> OrchestratorSkipReason option" where
  "skip_check by_id lease_ids lease_work_order_ids scopes work_order =
     (if w_status work_order \<noteq> ''ready''
      then Some (skip_reason (w_work_order_id work_order) ''STATUS_NOT_READY''
        (''work order is not in ready status (current='' @ w_status work_order @ '')''))
      else (case dependency_failure work_order by_id of
          Some f \<Rightarrow> Some f
        | None \<Rightarrow> (case lease_conflict work_order lease_ids lease_work_order_ids of
            Some f \<Rightarrow> Some f
          | None \<Rightarrow> file_scope_conflict work_order scopes)))"

fun classify ::
    "(WorkOrderContract \<Rightarrow> OrchestratorSkipReason option) \<Rightarrow> WorkOrderContract list \<Rightarrow>
      OrchestratorSkipReason list \<times> WorkOrderContract list \<Rightarrow> OrchestratorSkipReason list \<times> WorkOrderContract list" where
  "classify chk [] acc = acc"
| "classify chk (work_order # rows) (skipped, eligible) =
     (case chk work_order of
        Some f \<Rightarrow> classify chk rows (skipped @ [f], eligible)
      | None \<Rightarrow> classify chk rows (skipped, eligible @ [work_order]))"

definition rank_key :: "WorkOrderContract \<Rightarrow> int \<times> int \<times> string" where
  "rank_key w = (- w_priority w, instant (datetime_sort_key (w_created_at w)), w_work_order_id w)"

definition recommend :: "nat \<Rightarrow> WorkOrderContract \<Rightarrow> OrchestratorRecommendation" where
  "recommend index work_order =
     \<lparr>o_work_order_id = w_work_order_id work_order, o_title = w_title work_order,
      o_status = w_status work_order, o_priority = w_priority work_order, o_rank = index,
      o_decision = fst (recommendation_decision work_order),
      o_reason_codes = snd (recommendation_decision work_order),
      o_dependency_ids = w_dependency_ids work_order, o_file_scope = w_file_scope work_order,
      o_requires_human_review = w_require_human_review_before_merge work_order,
      o_latest_run_id = w_latest_run_id work_order, o_latest_lease_id = w_latest_lease_id work_order\<rparr>"

definition overflow_skip :: "WorkOrderContract \<Rightarrow> OrchestratorSkipReason" where
  "overflow_skip work_order =
     skip_reason (w_work_order_id work_order) ''READY_FOR_DISPATCH''
       ''work order is ready but not selected due to ranking/limit''"

definition policy_check ::
    "WorkOrderContract list \<Rightarrow> WorktreeLeaseContract list \<Rightarrow> WorkOrderContract \<Rightarrow> OrchestratorSkipReason option" where
  "policy_check work_orders active_leases =
     (let live = filter (\<lambda>l. is_active_lease_status (l_status l)) active_leases in
      skip_check (index_by_id work_orders) (l_lease_id ` set live) (l_work_order_id ` set live)
        (active_scopes work_orders))"

definition select_next_work_orders ::
    "WorkOrderContract list \<Rightarrow> WorktreeLeaseContract list option \<Rightarrow> int \<Rightarrow> pydt \<Rightarrow> OrchestratorPolicyResult" where
  "select_next_work_orders work_orders active_leases limit now =
     (let normalized_limit = nat (max 1 (if limit = 0 then 1 else limit));
          lease_rows = (case active_leases of None \<Rightarrow> [] | Some ls \<Rightarrow> ls);
          (skipped, eligible) =
            classify (policy_check work_orders lease_rows) (sort_key w_work_order_id work_orders) ([], []);
          ranked_eligible = sort_key rank_key eligible;
          selected = take normalized_limit ranked_eligible;
          overflow = drop normalized_limit ranked_eligible;
          recommendations = map (\<lambda>(i, w). recommend i w) (zip [1..<Suc (length selected)] selected);
          all_skipped = skipped @ map overflow_skip overflow
      in \<lparr>p_recommendations = recommendations,
          p_skipped = sort_key (\<lambda>s. (s_work_order_id s, s_reason_code s, s_message s)) all_skipped,
          p_decision_reasons = build_decision_reasons recommendations all_skipped,
          p_generated_at = now\<rparr>)"

section \<open>Lemmas\<close>

lemma classify_eq:
  "classify chk rows (sk, el) =
     (sk @ List.map_filter chk rows, el @ filter (\<lambda>w. chk w = None) rows)"
  by (induction rows arbitrary: sk el) (auto simp: map_filter_def split: option.splits)

lemma dependency_loop_None:
  "dependency_loop k by_id ids = None \<longleftrightarrow>
     (\<forall>d \<in> set ids. \<exists>w. by_id d = Some w \<and> w_status w \<in> {''merged'', ''archived''})"
  by (induction ids) (auto split: option.splits)

lemma dependency_loop_id: "dependency_loop k by_id ids = Some f \<Longrightarrow> s_work_order_id f = k"
  by (induction ids) (auto simp: skip_reason_def split: option.splits if_splits)

lemma scope_loop_None:
  "scope_loop k cand scopes = None \<longleftrightarrow>
     (\<forall>(a, sc) \<in> set scopes. a \<noteq> k \<longrightarrow> set cand \<inter> set sc = {})"
proof (induction scopes)
  case (Cons p scopes)
  obtain a sc where p: "p = (a, sc)" by (cases p)
  have "sort (remdups (filter (\<lambda>v. v \<in> set sc) cand)) = [] \<longleftrightarrow> set cand \<inter> set sc = {}"
    by (metis set_sort set_remdups set_filter set_empty Int_def Collect_empty_eq)
  with Cons p show ?case by (auto simp: Let_def)
qed simp

lemma scope_loop_id: "scope_loop k cand scopes = Some f \<Longrightarrow> s_work_order_id f = k"
  by (induction scopes) (auto simp: skip_reason_def Let_def split: if_splits)

lemma skip_check_id:
  "skip_check by_id a b scopes w = Some f \<Longrightarrow> s_work_order_id f = w_work_order_id w"
  by (auto simp: skip_check_def dependency_failure_def lease_conflict_def file_scope_conflict_def Let_def
      split: if_splits option.splits dest!: dependency_loop_id scope_loop_id) (simp_all add: skip_reason_def)

lemma index_by_id_iff:
  "distinct (map w_work_order_id rows) \<Longrightarrow>
   index_by_id rows k = Some v \<longleftrightarrow> v \<in> set rows \<and> w_work_order_id v = k"
proof (induction rows rule: rev_induct)
  case (snoc x rows)
  then have "index_by_id (rows @ [x]) = (index_by_id rows)(w_work_order_id x \<mapsto> x)"
    by (simp add: index_by_id_def)
  with snoc show ?case by (auto simp: image_iff)
qed (simp add: index_by_id_def)

lemma update_fresh: "k \<notin> fst ` set d \<Longrightarrow> AList.update k v d = d @ [(k, v)]"
  by (induction d) auto

lemma active_scopes_eq:
  "distinct (map w_work_order_id rows) \<Longrightarrow>
   active_scopes rows = map (\<lambda>w. (w_work_order_id w, scope_entries w))
     (filter (\<lambda>w. w_status w \<in> active_execution_statuses) rows)"
proof (induction rows rule: rev_induct)
  case (snoc x rows)
  let ?f = "map (\<lambda>w. (w_work_order_id w, scope_entries w)) (filter (\<lambda>w. w_status w \<in> active_execution_statuses) rows)"
  have "w_work_order_id x \<notin> fst ` set ?f" using snoc.prems by auto
  from update_fresh [OF this] snoc show ?case by (simp add: active_scopes_def)
qed (simp add: active_scopes_def)

text \<open>What makes a work order fit for dispatch, as a statement about the input.\<close>

definition dispatchable :: "WorkOrderContract set \<Rightarrow> WorktreeLeaseContract set \<Rightarrow> WorkOrderContract \<Rightarrow> bool" where
  "dispatchable orders leases w \<longleftrightarrow>
     w_status w = ''ready'' \<and>
     (\<forall>d \<in> set (w_dependency_ids w).
        \<exists>v \<in> orders. w_work_order_id v = d \<and> w_status v \<in> {''merged'', ''archived''}) \<and>
     (\<forall>l \<in> leases. lease_active l \<longrightarrow> l_work_order_id l \<noteq> w_work_order_id w \<and>
        (strip (case w_latest_lease_id w of None \<Rightarrow> [] | Some s \<Rightarrow> s) \<noteq> [] \<longrightarrow>
          l_lease_id l \<noteq> strip (case w_latest_lease_id w of None \<Rightarrow> [] | Some s \<Rightarrow> s))) \<and>
     (\<forall>v \<in> orders. w_status v \<in> active_execution_statuses \<and> w_work_order_id v \<noteq> w_work_order_id w \<longrightarrow>
        set (scope_entries w) \<inter> set (scope_entries v) = {})"

lemma lease_conflict_None:
  "lease_conflict w (l_lease_id ` set live) (l_work_order_id ` set live) = None \<longleftrightarrow>
     (\<forall>l \<in> set live. l_work_order_id l \<noteq> w_work_order_id w \<and>
        (strip (case w_latest_lease_id w of None \<Rightarrow> [] | Some s \<Rightarrow> s) \<noteq> [] \<longrightarrow>
          l_lease_id l \<noteq> strip (case w_latest_lease_id w of None \<Rightarrow> [] | Some s \<Rightarrow> s)))"
  unfolding lease_conflict_def Let_def by (auto simp: image_iff)

lemma file_scope_conflict_None:
  "distinct (map w_work_order_id orders) \<Longrightarrow>
   file_scope_conflict w (active_scopes orders) = None \<longleftrightarrow>
     (\<forall>v \<in> set orders. w_status v \<in> active_execution_statuses \<and> w_work_order_id v \<noteq> w_work_order_id w \<longrightarrow>
        set (scope_entries w) \<inter> set (scope_entries v) = {})"
  by (cases "scope_entries w = []")
    (auto simp: file_scope_conflict_def Let_def active_scopes_eq scope_loop_None)

lemma dependency_failure_None:
  "distinct (map w_work_order_id orders) \<Longrightarrow>
   dependency_failure w (index_by_id orders) = None \<longleftrightarrow>
     (\<forall>d \<in> set (w_dependency_ids w).
        \<exists>v \<in> set orders. w_work_order_id v = d \<and> w_status v \<in> {''merged'', ''archived''})"
  by (simp add: dependency_failure_def dependency_loop_None index_by_id_iff Bex_def conj_assoc)

lemma ball_set_filter: "(\<forall>x \<in> set (filter P xs). Q x) \<longleftrightarrow> (\<forall>x \<in> set xs. P x \<longrightarrow> Q x)"
  by auto

lemma policy_check_None:
  assumes "distinct (map w_work_order_id orders)"
  shows "policy_check orders leases w = None \<longleftrightarrow> dispatchable (set orders) (set leases) w"
proof -
  have "policy_check orders leases w = None \<longleftrightarrow> w_status w = ''ready'' \<and>
      dependency_failure w (index_by_id orders) = None \<and>
      lease_conflict w (l_lease_id ` set (filter (\<lambda>l. is_active_lease_status (l_status l)) leases))
        (l_work_order_id ` set (filter (\<lambda>l. is_active_lease_status (l_status l)) leases)) = None \<and>
      file_scope_conflict w (active_scopes orders) = None"
    by (simp add: policy_check_def skip_check_def split: option.splits)
  then show ?thesis
    unfolding dependency_failure_None [OF assms] lease_conflict_None file_scope_conflict_None [OF assms]
      dispatchable_def lease_active_def ball_set_filter .
qed

text \<open>The selection, unfolded once for all properties.\<close>

definition eligible_orders :: "WorkOrderContract list \<Rightarrow> WorktreeLeaseContract list \<Rightarrow> WorkOrderContract list" where
  "eligible_orders orders leases = sort_key rank_key
     (filter (\<lambda>w. policy_check orders leases w = None) (sort_key w_work_order_id orders))"

definition policy_limit :: "int \<Rightarrow> nat" where
  "policy_limit limit = nat (max 1 (if limit = 0 then 1 else limit))"

definition lease_rows_of :: "WorktreeLeaseContract list option \<Rightarrow> WorktreeLeaseContract list" where
  "lease_rows_of ls = (case ls of None \<Rightarrow> [] | Some xs \<Rightarrow> xs)"

lemma recommendations_eq:
  "p_recommendations (select_next_work_orders orders ls limit now) =
     (let sel = take (policy_limit limit) (eligible_orders orders (lease_rows_of ls))
      in map (\<lambda>(i, w). recommend i w) (zip [1..<Suc (length sel)] sel))"
  by (simp add: select_next_work_orders_def Let_def classify_eq eligible_orders_def policy_limit_def
      lease_rows_of_def)

lemma number_ids:
  "map o_work_order_id (map (\<lambda>(i, w). recommend i w) (zip [1..<Suc (length sel)] sel)) = map w_work_order_id sel"
  by (rule nth_equalityI) (simp_all add: recommend_def del: upt_Suc)

lemma recommended_ids:
  "map o_work_order_id (p_recommendations (select_next_work_orders orders ls limit now)) =
     map w_work_order_id (take (policy_limit limit) (eligible_orders orders (lease_rows_of ls)))"
  unfolding recommendations_eq Let_def by (rule number_ids)

lemma skipped_mset:
  "mset (p_skipped (select_next_work_orders orders ls limit now)) =
     mset (List.map_filter (policy_check orders (lease_rows_of ls)) (sort_key w_work_order_id orders)) +
     mset (map overflow_skip (drop (policy_limit limit) (eligible_orders orders (lease_rows_of ls))))"
  by (simp add: select_next_work_orders_def Let_def classify_eq eligible_orders_def policy_limit_def
      lease_rows_of_def)

lemma overflow_skip_id [simp]: "s_work_order_id (overflow_skip w) = w_work_order_id w"
  by (simp add: overflow_skip_def skip_reason_def)

lemma checked_ids:
  "map s_work_order_id (List.map_filter (policy_check orders leases) rows) =
     map w_work_order_id (filter (\<lambda>w. policy_check orders leases w \<noteq> None) rows)"
proof (induction rows)
  case (Cons w rows)
  then show ?case using skip_check_id by (auto simp: map_filter_def policy_check_def Let_def)
qed (simp add: map_filter_def)

lemma skipped_ids:
  "mset (map s_work_order_id (p_skipped (select_next_work_orders orders ls limit now))) =
     mset (map w_work_order_id (filter (\<lambda>w. policy_check orders (lease_rows_of ls) w \<noteq> None) orders)) +
     mset (map w_work_order_id (drop (policy_limit limit) (eligible_orders orders (lease_rows_of ls))))"
proof -
  let ?chk = "policy_check orders (lease_rows_of ls)"
  have "mset (map s_work_order_id (List.map_filter ?chk (sort_key w_work_order_id orders))) =
      mset (map w_work_order_id (filter (\<lambda>w. ?chk w \<noteq> None) orders))"
    unfolding checked_ids mset_map mset_filter by simp
  then show ?thesis
    unfolding mset_map [of s_work_order_id] skipped_mset
    by (simp add: image_mset.compositionality comp_def)
qed

lemma mset_take_drop: "mset (map f (take n xs)) + mset (map f (drop n xs)) = mset (map f xs)"
  by (metis append_take_drop_id map_append mset_append)

lemma mset_eligible:
  "mset (map f (eligible_orders orders leases)) =
     mset (map f (filter (\<lambda>w. policy_check orders leases w = None) orders))"
  by (simp add: eligible_orders_def)

lemma mset_filter_split: "mset (map f (filter P xs)) + mset (map f (filter (\<lambda>x. \<not> P x) xs)) = mset (map f xs)"
  by (induction xs) auto

lemma sorted_take_drop:
  assumes "sorted (map f xs)" "v \<in> set (take n xs)" "w \<in> set (drop n xs)"
  shows "f v \<le> f w"
proof -
  have "sorted (map f (take n xs) @ map f (drop n xs))"
    using assms(1) by (simp flip: map_append)
  with assms(2,3) show ?thesis by (simp add: sorted_append)
qed

lemma set_eligible:
  "distinct (map w_work_order_id orders) \<Longrightarrow>
   set (eligible_orders orders leases) = {w \<in> set orders. dispatchable (set orders) (set leases) w}"
  by (auto simp: eligible_orders_def policy_check_None)

lemma sorted_eligible: "sorted (map rank_key (eligible_orders orders leases))"
  by (simp add: eligible_orders_def)

lemma distinct_eligible:
  "distinct (map w_work_order_id orders) \<Longrightarrow> distinct (map w_work_order_id (eligible_orders orders leases))"
  by (metis distinct_map_filter mset_eligible mset_eq_imp_distinct_iff)

lemma recommendations_nth:
  assumes "i < length (p_recommendations (select_next_work_orders orders ls limit now))"
  shows "p_recommendations (select_next_work_orders orders ls limit now) ! i =
    recommend (Suc i) (eligible_orders orders (lease_rows_of ls) ! i)"
  using assms unfolding recommendations_eq Let_def by (simp del: upt_Suc)

lemma recommendations_length:
  "length (p_recommendations (select_next_work_orders orders ls limit now)) =
     min (length (eligible_orders orders (lease_rows_of ls))) (policy_limit limit)"
  unfolding recommendations_eq Let_def by (simp del: upt_Suc)

text \<open>The eligible orders, and so the recommendations, depend only on the set of orders given.\<close>

lemma eligible_perm:
  assumes "distinct (map w_work_order_id orders)" "mset orders = mset orders'"
  shows "eligible_orders orders leases = eligible_orders orders' leases"
proof -
  have d': "distinct (map w_work_order_id orders')"
    using assms by (metis mset_eq_imp_distinct_iff mset_map)
  have "sort_key w_work_order_id orders = sort_key w_work_order_id orders'"
  proof (rule map_sorted_distinct_set_unique [where f = w_work_order_id])
    show "inj_on w_work_order_id (set (sort_key w_work_order_id orders) \<union> set (sort_key w_work_order_id orders'))"
      using assms(1) mset_eq_setD [OF assms(2)] by (simp add: distinct_map)
    show "distinct (map w_work_order_id (sort_key w_work_order_id orders))"
      "distinct (map w_work_order_id (sort_key w_work_order_id orders'))"
      using assms(1) d' by (simp_all add: distinct_map)
  qed (use mset_eq_setD [OF assms(2)] in simp_all)
  moreover have "policy_check orders leases w = None \<longleftrightarrow> policy_check orders' leases w = None" for w
    using assms d' mset_eq_setD [OF assms(2)] by (simp add: policy_check_None)
  ultimately show ?thesis by (simp add: eligible_orders_def)
qed

section \<open>Properties\<close>

text \<open>
  Nothing is lost or counted twice: the identifiers of the recommended orders and of the
  skipped ones together are, with multiplicity, the identifiers of the orders given.
\<close>

theorem selection_accounts_for_every_order:
  "mset (map o_work_order_id (p_recommendations (select_next_work_orders orders ls limit now))) +
   mset (map s_work_order_id (p_skipped (select_next_work_orders orders ls limit now))) =
   mset (map w_work_order_id orders)"
proof -
  let ?ids = "\<lambda>xs. mset (map w_work_order_id xs)"
  let ?el = "eligible_orders orders (lease_rows_of ls)" and ?n = "policy_limit limit"
  let ?bad = "filter (\<lambda>w. policy_check orders (lease_rows_of ls) w \<noteq> None) orders"
  have "?ids (take ?n ?el) + (?ids ?bad + ?ids (drop ?n ?el)) = (?ids (take ?n ?el) + ?ids (drop ?n ?el)) + ?ids ?bad"
    by (simp only: add.assoc add.commute add.left_commute)
  also have "\<dots> = ?ids (filter (\<lambda>w. policy_check orders (lease_rows_of ls) w = None) orders) + ?ids ?bad"
    unfolding mset_take_drop mset_eligible ..
  also have "\<dots> = ?ids orders" by (rule mset_filter_split)
  finally show ?thesis unfolding recommended_ids skipped_ids .
qed

text \<open>
  C7. Only dispatchable orders are recommended: each recommendation describes an order of the input
  that is ready, whose dependencies are all present and merged or archived, which holds no active
  lease, and whose file scope meets the scope of no order in execution.
\<close>

theorem recommendations_are_dispatchable:
  assumes "distinct (map w_work_order_id orders)"
    "r \<in> set (p_recommendations (select_next_work_orders orders (Some leases) limit now))"
  shows "\<exists>w \<in> set orders. dispatchable (set orders) (set leases) w \<and> r = recommend (o_rank r) w"
proof -
  from assms(2) obtain i where i: "i < length (p_recommendations (select_next_work_orders orders (Some leases) limit now))"
    "r = p_recommendations (select_next_work_orders orders (Some leases) limit now) ! i"
    by (metis in_set_conv_nth)
  let ?w = "eligible_orders orders leases ! i"
  have "r = recommend (Suc i) ?w" using i recommendations_nth [OF i(1)] by (simp add: lease_rows_of_def)
  moreover have "?w \<in> set (eligible_orders orders leases)"
    using i(1) unfolding recommendations_length by (simp add: lease_rows_of_def)
  ultimately show ?thesis using set_eligible [OF assms(1), of leases] by (auto simp: recommend_def)
qed

definition demo_order :: "string \<Rightarrow> string \<Rightarrow> WorkOrderContract" where
  "demo_order k status =
     (row_to_contract (create_row demo_now k demo_create 3 2))\<lparr>w_status := status\<rparr>"

definition demo_orders :: "WorkOrderContract list" where
  "demo_orders = [demo_order ''wo_2'' ''ready'', demo_order ''wo_1'' ''ready'', demo_order ''wo_0'' ''merged'']"

lemma demo_orders_distinct: "distinct (map w_work_order_id demo_orders)"
  by (simp add: demo_orders_def demo_order_def row_to_contract_def create_row_def)

lemma demo_orders_recs:
  "p_recommendations (select_next_work_orders demo_orders (Some []) 1 demo_now) =
     [recommend 1 (demo_order ''wo_1'' ''ready'')]"
  by code_simp

theorem recommendations_are_dispatchable_witness:
  "\<exists>w \<in> set demo_orders. dispatchable (set demo_orders) (set []) w \<and>
     recommend 1 (demo_order ''wo_1'' ''ready'') = recommend (o_rank (recommend 1 (demo_order ''wo_1'' ''ready''))) w"
  by (rule recommendations_are_dispatchable [OF demo_orders_distinct, of _ "[]" 1 demo_now])
    (simp add: demo_orders_recs)

text \<open>
  The recommendations are numbered from one, at most as many as asked for, ordered by priority,
  age and identifier; and a dispatchable order is left out only when the list is full and every
  order on it ranks strictly before.
\<close>

theorem ranking_is_fair:
  fixes orders leases limit now
  defines "recs \<equiv> p_recommendations (select_next_work_orders orders (Some leases) limit now)"
  assumes "distinct (map w_work_order_id orders)"
  shows "map o_rank recs = [1..<Suc (length recs)] \<and> length recs \<le> policy_limit limit \<and>
    (\<exists>sel. map o_work_order_id recs = map w_work_order_id sel \<and> set sel \<subseteq> set orders \<and> sorted (map rank_key sel) \<and>
      (\<forall>w \<in> set orders. dispatchable (set orders) (set leases) w \<and> w_work_order_id w \<notin> set (map o_work_order_id recs) \<longrightarrow>
        length recs = policy_limit limit \<and> (\<forall>v \<in> set sel. rank_key v < rank_key w)))"
proof -
  let ?el = "eligible_orders orders leases" and ?n = "policy_limit limit"
  let ?sel = "take ?n ?el"
  have ids: "map o_work_order_id recs = map w_work_order_id ?sel"
    unfolding recs_def recommended_ids by (simp add: lease_rows_of_def)
  then have len: "length recs = length ?sel" by (metis length_map)
  have ranks: "map o_rank recs = [1..<Suc (length recs)]"
    unfolding recs_def
    by (rule nth_equalityI) (simp_all add: recommendations_nth recommend_def del: upt_Suc)
  have full: "length recs = ?n \<and> (\<forall>v \<in> set ?sel. rank_key v < rank_key w)"
    if w: "w \<in> set orders" "dispatchable (set orders) (set leases) w" "w_work_order_id w \<notin> set (map o_work_order_id recs)" for w
  proof -
    have "w \<in> set ?el" using w set_eligible [OF assms(2)] by simp
    moreover have "w \<notin> set ?sel" using w(3) ids by auto
    ultimately have dr: "w \<in> set (drop ?n ?el)" by (metis Un_iff append_take_drop_id set_append)
    then have "length recs = ?n" using len by (cases "length ?el \<le> ?n") auto
    moreover have "rank_key v < rank_key w" if "v \<in> set ?sel" for v
    proof -
      have "rank_key v \<le> rank_key w"
        by (rule sorted_take_drop [OF sorted_eligible that dr])
      moreover have "w_work_order_id v \<noteq> w_work_order_id w" by (metis ids imageI set_map that w(3))
      ultimately show ?thesis by (auto simp: rank_key_def)
    qed
    ultimately show ?thesis by blast
  qed
  have sub: "set ?sel \<subseteq> set orders"
    by (rule order_trans [OF set_take_subset]) (auto simp: set_eligible [OF assms(2)])
  have srt: "sorted (map rank_key ?sel)"
    using sorted_eligible [of orders leases] by (metis sorted_wrt_take take_map)
  have lim: "length recs \<le> ?n" using len by simp
  show ?thesis
  proof (intro conjI exI [of _ ?sel] ballI impI)
    fix w v
    assume w: "w \<in> set orders"
      "dispatchable (set orders) (set leases) w \<and> w_work_order_id w \<notin> set (map o_work_order_id recs)"
    then show "length recs = ?n" using full by blast
    show "v \<in> set ?sel \<Longrightarrow> rank_key v < rank_key w" using full w by blast
  qed (rule ranks lim ids sub srt)+
qed

theorem ranking_is_fair_witness:
  "map o_rank (p_recommendations (select_next_work_orders demo_orders (Some []) 1 demo_now)) = [1..<Suc 1] \<and>
   length (p_recommendations (select_next_work_orders demo_orders (Some []) 1 demo_now)) \<le> policy_limit 1"
  using ranking_is_fair [OF demo_orders_distinct, of "[]" 1 demo_now] by (simp add: demo_orders_recs)

text \<open>
  The recommendation does not depend on the order in which the store lists the work orders.
\<close>

theorem recommendations_order_independent:
  assumes "distinct (map w_work_order_id orders)" "mset orders = mset orders'"
  shows "p_recommendations (select_next_work_orders orders ls limit now) =
    p_recommendations (select_next_work_orders orders' ls limit now)"
  unfolding recommendations_eq eligible_perm [OF assms] ..

theorem recommendations_order_independent_witness:
  "p_recommendations (select_next_work_orders (rev demo_orders) (Some []) 1 demo_now) =
     [recommend 1 (demo_order ''wo_1'' ''ready'')]"
  using recommendations_order_independent [OF demo_orders_distinct, of "rev demo_orders" "Some []" 1 demo_now]
  by (simp add: demo_orders_recs)

end
