(* ===== verification/Execution_Ledger.thy ===== *)
theory Execution_Ledger
  imports Work_Order_Store
begin

text \<open>
  Model of \<^verbatim>\<open>guardian/agents/execution_ledger_store.py\<close>: gate artifacts kept under the metadata of a
  work order. The artifact models are pydantic classes; \<open>model_dump(mode="json")\<close> and
  \<open>model_validate\<close> are the parameters \<open>dump\<close> and \<open>validate\<close> (\<open>None\<close> for a rejected payload). Setting
  and getting a gate are inverse on the metadata themselves; through the work-order store they are
  not, since the store flattens nested metadata to text.
\<close>

definition EXECUTION_LEDGER_KEY :: string where "EXECUTION_LEDGER_KEY = ''execution_ledger''"
definition INTENT_SCOPE_GATE_KEY :: string where "INTENT_SCOPE_GATE_KEY = ''intent_scope_gate''"
definition IMPLEMENTATION_PLAN_GATE_KEY :: string where
  "IMPLEMENTATION_PLAN_GATE_KEY = ''implementation_plan_gate''"
definition COMPLETION_PROOF_GATE_KEY :: string where "COMPLETION_PROOF_GATE_KEY = ''completion_proof_gate''"

definition GATE_KEYS :: "string list" where
  "GATE_KEYS = [INTENT_SCOPE_GATE_KEY, IMPLEMENTATION_PLAN_GATE_KEY, COMPLETION_PROOF_GATE_KEY]"

lemmas gate_key_defs = EXECUTION_LEDGER_KEY_def INTENT_SCOPE_GATE_KEY_def IMPLEMENTATION_PLAN_GATE_KEY_def
  COMPLETION_PROOF_GATE_KEY_def GATE_KEYS_def

text \<open>The two kinds of argument the helpers accept: a mapping, or an object with an attribute.\<close>

datatype work_order_object = MappingObject pydict | ContractObject WorkOrderContract

section \<open>Reading\<close>

definition extract_work_order_metadata :: "work_order_object \<Rightarrow> pydict" where
  "extract_work_order_metadata work_order =
     (case work_order of
        MappingObject d \<Rightarrow> (case dict_get d ''extra_meta'' of PDict m \<Rightarrow> m | _ \<Rightarrow> [])
      | ContractObject c \<Rightarrow> w_extra_meta c)"

definition extract_ledger_namespace :: "pydict \<Rightarrow> pydict" where
  "extract_ledger_namespace metadata =
     (case dict_get metadata EXECUTION_LEDGER_KEY of PDict d \<Rightarrow> d | _ \<Rightarrow> [])"

definition clone_gate_payload :: "pyval \<Rightarrow> pyval" where
  "clone_gate_payload raw = (case raw of PDict d \<Rightarrow> PDict d | _ \<Rightarrow> PNone)"

definition read_execution_ledger_metadata :: "work_order_object \<Rightarrow> pydict" where
  "read_execution_ledger_metadata work_order =
     (let ledger = extract_ledger_namespace (extract_work_order_metadata work_order) in
      [(INTENT_SCOPE_GATE_KEY, clone_gate_payload (dict_get ledger INTENT_SCOPE_GATE_KEY)),
       (IMPLEMENTATION_PLAN_GATE_KEY, clone_gate_payload (dict_get ledger IMPLEMENTATION_PLAN_GATE_KEY)),
       (COMPLETION_PROOF_GATE_KEY, clone_gate_payload (dict_get ledger COMPLETION_PROOF_GATE_KEY))])"

text \<open>The body the three getters share, \<open>validate\<close> being \<open>_validate_gate_model\<close> of their class.\<close>

definition get_gate :: "string \<Rightarrow> (pydict \<Rightarrow> 'a option) \<Rightarrow> work_order_object \<Rightarrow> 'a option" where
  "get_gate gate_key validate work_order =
     (case dict_get (read_execution_ledger_metadata work_order) gate_key of
        PDict payload \<Rightarrow> validate payload
      | _ \<Rightarrow> None)"

definition get_intent_scope_gate :: "(pydict \<Rightarrow> 'a option) \<Rightarrow> work_order_object \<Rightarrow> 'a option" where
  "get_intent_scope_gate validate work_order = get_gate INTENT_SCOPE_GATE_KEY validate work_order"

definition get_implementation_plan_gate :: "(pydict \<Rightarrow> 'a option) \<Rightarrow> work_order_object \<Rightarrow> 'a option" where
  "get_implementation_plan_gate validate work_order = get_gate IMPLEMENTATION_PLAN_GATE_KEY validate work_order"

definition get_completion_proof_gate :: "(pydict \<Rightarrow> 'a option) \<Rightarrow> work_order_object \<Rightarrow> 'a option" where
  "get_completion_proof_gate validate work_order = get_gate COMPLETION_PROOF_GATE_KEY validate work_order"

section \<open>Writing\<close>

definition set_gate_metadata :: "work_order_object \<Rightarrow> string \<Rightarrow> pydict \<Rightarrow> pydict" where
  "set_gate_metadata work_order gate_key artifact_payload =
     (let metadata = extract_work_order_metadata work_order;
          ledger = dict_set (extract_ledger_namespace metadata) gate_key (PDict artifact_payload);
          ledger' = fold (\<lambda>key d. dict_setdefault d key PNone) GATE_KEYS ledger
      in dict_set metadata EXECUTION_LEDGER_KEY (PDict ledger'))"

definition set_intent_scope_gate :: "('a \<Rightarrow> pydict) \<Rightarrow> work_order_object \<Rightarrow> 'a \<Rightarrow> pydict" where
  "set_intent_scope_gate dump work_order artifact =
     set_gate_metadata work_order INTENT_SCOPE_GATE_KEY (dump artifact)"

definition set_implementation_plan_gate :: "('a \<Rightarrow> pydict) \<Rightarrow> work_order_object \<Rightarrow> 'a \<Rightarrow> pydict" where
  "set_implementation_plan_gate dump work_order artifact =
     set_gate_metadata work_order IMPLEMENTATION_PLAN_GATE_KEY (dump artifact)"

definition set_completion_proof_gate :: "('a \<Rightarrow> pydict) \<Rightarrow> work_order_object \<Rightarrow> 'a \<Rightarrow> pydict" where
  "set_completion_proof_gate dump work_order artifact =
     set_gate_metadata work_order COMPLETION_PROOF_GATE_KEY (dump artifact)"

datatype ledger_error = UnknownWorkOrder string | LedgerStore wo_error

definition save_gate ::
    "('db, CodingWorkOrder) orm \<Rightarrow> 'db \<Rightarrow> pydt \<Rightarrow> string \<Rightarrow> (work_order_object \<Rightarrow> 'a \<Rightarrow> pydict) \<Rightarrow> 'a \<Rightarrow>
      ledger_error + ('db \<times> WorkOrderContract)" where
  "save_gate api db now work_order_id set_gate artifact =
     (case get_work_order api db work_order_id of
        None \<Rightarrow> Inl (UnknownWorkOrder (''unknown work_order_id: '' @ work_order_id))
      | Some work_order \<Rightarrow>
        (let updated_metadata = set_gate (ContractObject work_order) artifact in
         map_sum LedgerStore id
           (update_work_order api db now work_order_id (empty_update\<lparr>u_extra_meta := Some updated_metadata\<rparr>))))"

definition save_intent_scope_gate ::
    "('a \<Rightarrow> pydict) \<Rightarrow> ('db, CodingWorkOrder) orm \<Rightarrow> 'db \<Rightarrow> pydt \<Rightarrow> string \<Rightarrow> 'a \<Rightarrow>
      ledger_error + ('db \<times> WorkOrderContract)" where
  "save_intent_scope_gate dump api db now work_order_id artifact =
     save_gate api db now work_order_id (set_intent_scope_gate dump) artifact"

definition save_implementation_plan_gate ::
    "('a \<Rightarrow> pydict) \<Rightarrow> ('db, CodingWorkOrder) orm \<Rightarrow> 'db \<Rightarrow> pydt \<Rightarrow> string \<Rightarrow> 'a \<Rightarrow>
      ledger_error + ('db \<times> WorkOrderContract)" where
  "save_implementation_plan_gate dump api db now work_order_id artifact =
     save_gate api db now work_order_id (set_implementation_plan_gate dump) artifact"

definition save_completion_proof_gate ::
    "('a \<Rightarrow> pydict) \<Rightarrow> ('db, CodingWorkOrder) orm \<Rightarrow> 'db \<Rightarrow> pydt \<Rightarrow> string \<Rightarrow> 'a \<Rightarrow>
      ledger_error + ('db \<times> WorkOrderContract)" where
  "save_completion_proof_gate dump api db now work_order_id artifact =
     save_gate api db now work_order_id (set_completion_proof_gate dump) artifact"

section \<open>Setting and getting on the metadata\<close>

lemma gate_keys_distinct [simp]:
  "INTENT_SCOPE_GATE_KEY \<noteq> IMPLEMENTATION_PLAN_GATE_KEY" "INTENT_SCOPE_GATE_KEY \<noteq> COMPLETION_PROOF_GATE_KEY"
  "IMPLEMENTATION_PLAN_GATE_KEY \<noteq> COMPLETION_PROOF_GATE_KEY"
  by (simp_all add: gate_key_defs)

text \<open>A work order whose metadata are the given ones.\<close>

definition with_metadata :: "pydict \<Rightarrow> work_order_object" where
  "with_metadata m = MappingObject [(''extra_meta'', PDict m)]"

lemma with_metadata_extract [simp]: "extract_work_order_metadata (with_metadata m) = m"
  by (simp add: with_metadata_def extract_work_order_metadata_def dict_get_def)

lemma get_gate_eq:
  assumes "k \<in> set GATE_KEYS"
  shows "get_gate k validate wo =
    (case dict_get (extract_ledger_namespace (extract_work_order_metadata wo)) k of
       PDict p \<Rightarrow> validate p | _ \<Rightarrow> None)"
  using assms
  by (auto simp: get_gate_def read_execution_ledger_metadata_def Let_def GATE_KEYS_def dict_get_def [of "(_, _) # _"]
      clone_gate_payload_def split: pyval.splits)

lemma dict_get_setdefault_PNone [simp]: "dict_get (dict_setdefault d k PNone) k' = dict_get d k'"
  by (simp add: dict_get_def split: option.splits)

lemma dict_get_setdefaults [simp]:
  "dict_get (fold (\<lambda>key d. dict_setdefault d key PNone) ks d) k = dict_get d k"
  by (induction ks arbitrary: d) simp_all

lemma ledger_of_set_gate:
  "dict_get (extract_ledger_namespace (set_gate_metadata wo key payload)) k =
     (if k = key then PDict payload
      else dict_get (extract_ledger_namespace (extract_work_order_metadata wo)) k)"
  by (simp add: set_gate_metadata_def Let_def extract_ledger_namespace_def)

section \<open>Through the store\<close>

lemma flat_ledger_value:
  assumes "bounded_meta_dict m" "dict_get m k = PDict d"
  shows "\<exists>s. dict_get d k' = PStr s \<or> dict_get d k' = PNone"
proof -
  from assms(2) have "(k, PDict d) \<in> set m"
    by (auto simp: dict_get_def split: option.splits dest: map_of_SomeD)
  then have "flat_meta_value (PDict d)" using assms(1) by (auto simp: bounded_meta_dict_def)
  then have flat: "(case v of PStr s \<Rightarrow> length s \<le> MAX_TEXT_CHARS | _ \<Rightarrow> False)" if "map_of d k' = Some v" for v
    using that by (auto simp: list_all_iff dest!: map_of_SomeD)
  show ?thesis
  proof (cases "map_of d k'")
    case (Some v)
    with flat show ?thesis by (cases v) (auto simp: dict_get_def)
  qed (simp add: dict_get_def)
qed

lemma stored_gate_absent:
  assumes "k \<in> set GATE_KEYS"
  shows "get_gate k validate (ContractObject (row_to_contract r)) = None"
proof -
  have m: "extract_work_order_metadata (ContractObject (row_to_contract r)) = bounded_meta (r_extra_meta r)"
    by (simp add: extract_work_order_metadata_def row_to_contract_def)
  show ?thesis
    using flat_ledger_value [OF bounded_meta_bounded, of "r_extra_meta r" EXECUTION_LEDGER_KEY _ k]
    by (auto simp: get_gate_eq [OF assms] m extract_ledger_namespace_def dict_get_def [of "[]"] split: pyval.splits)
qed

lemma stored_gates_absent:
  "get_intent_scope_gate validate (ContractObject (row_to_contract r)) = None"
  "get_implementation_plan_gate validate (ContractObject (row_to_contract r)) = None"
  "get_completion_proof_gate validate (ContractObject (row_to_contract r)) = None"
  by (simp_all add: get_intent_scope_gate_def get_implementation_plan_gate_def get_completion_proof_gate_def
      stored_gate_absent GATE_KEYS_def)

lemma save_gate_Inr:
  "save_gate api db now k set_gate a = Inr (db', c) \<Longrightarrow> \<exists>r. c = row_to_contract r"
  by (auto simp: save_gate_def update_work_order_def Let_def map_sum_def split: option.splits sum.splits
      dest!: commit_row_Inr)

section \<open>Properties\<close>

text \<open>
  On the metadata themselves the gates are independent slots: after one is set, reading it gives
  the validated artifact, the other two read as before, and every other metadata key is unchanged.
\<close>

theorem gate_slots_independent:
  assumes "g \<in> set GATE_KEYS" "k \<in> set GATE_KEYS"
  shows "get_gate k validate (with_metadata (set_gate_metadata wo g payload)) =
      (if k = g then validate payload else get_gate k validate wo) \<and>
    (key \<noteq> EXECUTION_LEDGER_KEY \<longrightarrow>
      dict_get (set_gate_metadata wo g payload) key = dict_get (extract_work_order_metadata wo) key)"
  by (simp add: get_gate_eq [OF assms(2)] ledger_of_set_gate) (simp add: set_gate_metadata_def Let_def)

theorem gate_slots_independent_witness:
  "get_gate COMPLETION_PROOF_GATE_KEY Some
     (with_metadata (set_gate_metadata (MappingObject []) COMPLETION_PROOF_GATE_KEY [(''decision'', PStr ''approve'')])) =
   Some [(''decision'', PStr ''approve'')]"
  using gate_slots_independent [of COMPLETION_PROOF_GATE_KEY COMPLETION_PROOF_GATE_KEY Some "MappingObject []"
      "[(''decision'', PStr ''approve'')]"] by (simp add: GATE_KEYS_def)

text \<open>
  Through the work-order store a gate artifact is lost: whatever artifact was saved, and whatever
  the validation accepts, the work order that the save returns, like every work order that the store
  returns, has no readable gate, because the store keeps nested metadata as text only.
\<close>

theorem saved_gates_unreadable:
  "(save_intent_scope_gate dump1 api db now k a1 = Inr (db', c) \<longrightarrow>
      get_intent_scope_gate validate1 (ContractObject c) = None) \<and>
   (save_implementation_plan_gate dump2 api db now k a2 = Inr (db', c) \<longrightarrow>
      get_implementation_plan_gate validate2 (ContractObject c) = None) \<and>
   (save_completion_proof_gate dump3 api db now k a3 = Inr (db', c) \<longrightarrow>
      get_completion_proof_gate validate3 (ContractObject c) = None) \<and>
   (get_work_order api db k = Some c \<longrightarrow>
      get_intent_scope_gate validate1 (ContractObject c) = None \<and>
      get_implementation_plan_gate validate2 (ContractObject c) = None \<and>
      get_completion_proof_gate validate3 (ContractObject c) = None)"
  by (auto simp: save_intent_scope_gate_def save_implementation_plan_gate_def save_completion_proof_gate_def
      get_work_order_def stored_gates_absent dest!: save_gate_Inr)

definition demo_dump :: "string \<Rightarrow> pydict" where "demo_dump a = [(''decision'', PStr a)]"

theorem saved_gates_unreadable_witness:
  "\<exists>db' c. save_completion_proof_gate demo_dump wo_table [demo_failed] demo_now ''wo_1'' ''approve'' = Inr (db', c) \<and>
     get_completion_proof_gate Some (ContractObject c) = None"
proof -
  have "\<not> isl (save_completion_proof_gate demo_dump wo_table [demo_failed] demo_now ''wo_1'' ''approve'')"
    by code_simp
  then obtain db' c where c: "save_completion_proof_gate demo_dump wo_table [demo_failed] demo_now ''wo_1'' ''approve'' = Inr (db', c)"
    by (cases "save_completion_proof_gate demo_dump wo_table [demo_failed] demo_now ''wo_1'' ''approve''") auto
  have "get_completion_proof_gate Some (ContractObject c) = None"
    by (rule saved_gates_unreadable [THEN conjunct2, THEN conjunct2, THEN conjunct1, rule_format, OF c])
  with c show ?thesis by blast
qed

end
