(* ===== verification/Execution_Credentials.thy ===== *)
theory Execution_Credentials
  imports Orm_Table
begin

text \<open>
  Model of \<^verbatim>\<open>guardian/agents/execution_credentials.py\<close> and of the token encryption it uses
  (\<^verbatim>\<open>guardian/connectors/oauth_crypto.py\<close>): custody of API keys for coding runs, the authorization of a
  binding against a stored key, revocation, and the one-time lease of a key to one attempt. The two
  tables are sessions as in \<open>Orm_Table\<close>; the Fernet cipher, the key derivation and the environment are
  parameters. The results are the soundness of every authorization, that revocation is final, and that
  an attempt redeems a key at most once.
\<close>

section \<open>Token encryption\<close>

text \<open>A Fernet object of the cryptography package; decryption of a foreign token is \<open>None\<close>.\<close>

record fernet =
  fernet_encrypt :: "string \<Rightarrow> string"
  fernet_decrypt :: "string \<Rightarrow> string option"

definition KEY_ENV_NAMES :: "string list" where
  "KEY_ENV_NAMES = [''GUARDIAN_OAUTH_TOKEN_ENCRYPTION_KEY'', ''OAUTH_TOKEN_ENCRYPTION_KEY'']"

definition FALLBACK_SECRET_ENV_NAMES :: "string list" where
  "FALLBACK_SECRET_ENV_NAMES = [''GUARDIAN_SESSION_SECRET'', ''GUARDIAN_JWT_SECRET'', ''GUARDIAN_API_KEY'']"

definition env_value :: "(string \<Rightarrow> string option) \<Rightarrow> string \<Rightarrow> string" where
  "env_value getenv name = strip (case getenv name of None \<Rightarrow> [] | Some v \<Rightarrow> v)"

text \<open>
  \<open>mk\<close> is the constructor \<open>Fernet(...)\<close> (\<open>None\<close> for an invalid key), \<open>derive\<close> the hashed and encoded
  fallback key; a raised \<open>RuntimeError\<close> is its message.
\<close>

definition load_fernet ::
    "(string \<Rightarrow> string option) \<Rightarrow> (string \<Rightarrow> fernet option) \<Rightarrow> (string \<Rightarrow> string) \<Rightarrow> string + fernet" where
  "load_fernet getenv mk derive =
     (case find (\<lambda>n. env_value getenv n \<noteq> []) KEY_ENV_NAMES of
        Some env_name \<Rightarrow>
          (case mk (env_value getenv env_name) of
             Some f \<Rightarrow> Inr f
           | None \<Rightarrow> Inl (env_name @ '' is set but not a valid Fernet key.''))
      | None \<Rightarrow>
          (case find (\<lambda>n. env_value getenv n \<noteq> []) FALLBACK_SECRET_ENV_NAMES of
             Some env_name \<Rightarrow>
               (case mk (derive (env_value getenv env_name)) of
                  Some f \<Rightarrow> Inr f
                | None \<Rightarrow> Inl ''Fernet key must be 32 url-safe base64-encoded bytes.'')
           | None \<Rightarrow> Inl (''Missing OAuth token encryption key. Set GUARDIAN_OAUTH_TOKEN_ENCRYPTION_KEY (preferred) ''
             @ ''or one of GUARDIAN_SESSION_SECRET/GUARDIAN_JWT_SECRET/GUARDIAN_API_KEY.'')))"

definition encrypt_token :: "string + fernet \<Rightarrow> string option \<Rightarrow> string + string option" where
  "encrypt_token loaded value =
     (case value of
        None \<Rightarrow> Inr None
      | Some v \<Rightarrow>
        if v = [] then Inr None
        else (case loaded of Inl e \<Rightarrow> Inl e | Inr f \<Rightarrow> Inr (Some (fernet_encrypt f v))))"

definition decrypt_token :: "string + fernet \<Rightarrow> string option \<Rightarrow> string + string option" where
  "decrypt_token loaded value =
     (case value of
        None \<Rightarrow> Inr None
      | Some v \<Rightarrow>
        if v = [] then Inr None
        else (case loaded of
            Inl e \<Rightarrow> Inl e
          | Inr f \<Rightarrow> (case fernet_decrypt f v of
              None \<Rightarrow> Inl ''Stored OAuth token could not be decrypted.'' | Some s \<Rightarrow> Inr (Some s))))"

section \<open>Rows and errors\<close>

record CodingExecutionCredential =
  x_credential_ref :: string
  x_owner_scope :: string
  x_owner_id :: string
  x_provider_id :: string
  x_credential_type :: string
  x_funding_route :: string
  x_encrypted_secret :: "string option"
  x_status :: string
  x_allowed_account_ids :: "string list"
  x_allowed_model_ids :: "string list"
  x_usage_policy_ref :: "string option"
  x_expires_at :: "pydt option"
  x_revoked_at :: "pydt option"
  x_created_at :: pydt

record CodingExecutionCredentialLease =
  xl_lease_id :: string
  xl_binding_id :: string
  xl_attempt_id :: string
  xl_attempt_index :: int
  xl_credential_ref :: string
  xl_owner_scope :: string
  xl_owner_id :: string
  xl_account_id :: string
  xl_issued_at :: pydt
  xl_expires_at :: pydt

datatype cred_error = CredentialAuthorityError string | CredPython py_error | CredRuntime string

definition ACCOUNT_FUNDING_ROUTE :: string where "ACCOUNT_FUNDING_ROUTE = ''user_byok''"
definition SERVICE_FUNDING_ROUTES :: "string set" where
  "SERVICE_FUNDING_ROUTES = {''codexify_included'', ''codexify_metered''}"
definition OPERATOR_FUNDING_ROUTE :: string where "OPERATOR_FUNDING_ROUTE = ''local_self_hosted''"
definition SUPPORTED_OWNER_SCOPES :: "string set" where
  "SUPPORTED_OWNER_SCOPES = {''account'', ''service'', ''operator''}"
definition LEASE_LIFETIME :: int where "LEASE_LIFETIME = 120000000"

definition text_of :: "pyval \<Rightarrow> string" where
  "text_of value = strip (str_or_empty value)"

definition source_class :: "string \<Rightarrow> string" where
  "source_class owner_scope =
     (case map_of [(''account'', ''account_api_key''), (''service'', ''service_api_key''),
        (''operator'', ''operator_api_key'')] owner_scope of None \<Rightarrow> ''unknown'' | Some s \<Rightarrow> s)"

definition safe_credential :: "CodingExecutionCredential \<Rightarrow> pydict" where
  "safe_credential row =
     [(''credential_ref'', PStr (x_credential_ref row)), (''owner_scope'', PStr (x_owner_scope row)),
      (''owner_id'', PStr (x_owner_id row)), (''provider_id'', PStr (x_provider_id row)),
      (''credential_type'', PStr (x_credential_type row)), (''funding_route'', PStr (x_funding_route row)),
      (''source_class'', PStr (source_class (x_owner_scope row))), (''status'', PStr (x_status row)),
      (''usage_policy_ref'', opt_str (x_usage_policy_ref row)),
      (''expires_at'', opt_str (map_option isoformat (x_expires_at row)))]"

section \<open>Storing\<close>

text \<open>\<open>sorted({_text(v) for v in values or [] if _text(v)})\<close>.\<close>

definition sorted_texts :: "string list option \<Rightarrow> string list" where
  "sorted_texts values1 = sort (remdups (filter (\<lambda>v. v \<noteq> [])
     (map strip (case values1 of None \<Rightarrow> [] | Some xs \<Rightarrow> xs))))"

definition falsy_list :: "string list option \<Rightarrow> bool" where
  "falsy_list xs = (xs = None \<or> xs = Some [])"

definition validate_store_input ::
    "string \<Rightarrow> string \<Rightarrow> string \<Rightarrow> string \<Rightarrow> string \<Rightarrow> string list option \<Rightarrow> string list option \<Rightarrow> string option \<Rightarrow>
      string option" where
  "validate_store_input scope owner provider secret route allowed_account_ids allowed_model_ids usage_policy_ref =
     (if scope \<notin> SUPPORTED_OWNER_SCOPES \<or> owner = [] \<or> provider = [] \<or> secret = []
      then Some ''credential_input_invalid''
      else if scope = ''account'' \<and> route \<noteq> ACCOUNT_FUNDING_ROUTE then Some ''account_funding_route_invalid''
      else if scope = ''service'' \<and> route \<notin> SERVICE_FUNDING_ROUTES then Some ''service_funding_route_invalid''
      else if scope = ''service'' \<and> (falsy_list allowed_account_ids \<or> falsy_list allowed_model_ids \<or>
        text_of (opt_str usage_policy_ref) = []) then Some ''service_policy_incomplete''
      else if scope = ''operator'' \<and> route \<noteq> OPERATOR_FUNDING_ROUTE then Some ''operator_funding_route_invalid''
      else None)"

definition store_api_key ::
    "string + fernet \<Rightarrow> ('db, CodingExecutionCredential) orm \<Rightarrow> 'db \<Rightarrow> pydt \<Rightarrow> string \<Rightarrow>
      string \<Rightarrow> string \<Rightarrow> string \<Rightarrow> string \<Rightarrow> string \<Rightarrow> string list option \<Rightarrow> string list option \<Rightarrow> string option \<Rightarrow>
      cred_error + ('db \<times> pydict)" where
  "store_api_key loaded api db server_now new_ref owner_scope owner_id provider_id api_key funding_route
       allowed_account_ids allowed_model_ids usage_policy_ref =
     (let scope = lower (strip owner_scope); owner = strip owner_id; provider = lower (strip provider_id);
          route = lower (strip funding_route); secret = strip api_key
      in case validate_store_input scope owner provider secret route allowed_account_ids allowed_model_ids
                usage_policy_ref of
           Some code \<Rightarrow> Inl (CredentialAuthorityError code)
         | None \<Rightarrow>
           (case encrypt_token loaded (Some secret) of
              Inl e \<Rightarrow> Inl (CredRuntime e)
            | Inr encrypted \<Rightarrow>
              if encrypted = None \<or> encrypted = Some []
              then Inl (CredentialAuthorityError ''credential_encryption_unavailable'')
              else
                (let row = \<lparr>x_credential_ref = new_ref, x_owner_scope = scope, x_owner_id = owner,
                      x_provider_id = provider, x_credential_type = ''api_key'', x_funding_route = route,
                      x_encrypted_secret = encrypted, x_status = ''active'',
                      x_allowed_account_ids = sorted_texts allowed_account_ids,
                      x_allowed_model_ids = sorted_texts allowed_model_ids,
                      x_usage_policy_ref = or_none (text_of (opt_str usage_policy_ref)),
                      x_expires_at = None, x_revoked_at = None, x_created_at = server_now\<rparr>
                 in case orm_add api db row of
                      Inl _ \<Rightarrow> Inl (CredentialAuthorityError ''credential_storage_unavailable'')
                    | Inr db' \<Rightarrow> Inr (db', safe_credential row))))"

definition list_account_credentials ::
    "('db, CodingExecutionCredential) orm \<Rightarrow> 'db \<Rightarrow> string \<Rightarrow> cred_error + pydict list" where
  "list_account_credentials api db account_id =
     (let account = strip account_id in
      if account = [] then Inl (CredentialAuthorityError ''account_identity_missing'')
      else Inr (map safe_credential (sort_key (\<lambda>r. - instant (x_created_at r))
        (orm_select api db (\<lambda>r. x_owner_scope r = ''account'' \<and> x_owner_id r = account)))))"

definition service_candidate :: "CodingExecutionCredential \<Rightarrow> pydict" where
  "service_candidate row =
     dict_set (dict_set (safe_credential row) ''allowed_account_ids'' (str_list (sort (x_allowed_account_ids row))))
       ''allowed_model_ids'' (str_list (sort (x_allowed_model_ids row)))"

definition list_service_credential_candidates ::
    "('db, CodingExecutionCredential) orm \<Rightarrow> 'db \<Rightarrow> string \<Rightarrow> cred_error + pydict list" where
  "list_service_credential_candidates api db account_id =
     (let account = strip account_id in
      if account = [] then Inl (CredentialAuthorityError ''account_identity_missing'')
      else Inr (map service_candidate (filter (\<lambda>r. account \<in> set (x_allowed_account_ids r))
        (sort_key (\<lambda>r. - instant (x_created_at r)) (orm_select api db (\<lambda>r. x_owner_scope r = ''service''))))))"

definition revoke_account_credential ::
    "('db, CodingExecutionCredential) orm \<Rightarrow> 'db \<Rightarrow> pydt \<Rightarrow> string \<Rightarrow> string \<Rightarrow> db_error + ('db \<times> bool)" where
  "revoke_account_credential api db now account_id credential_ref =
     (let account = strip account_id; ref = strip credential_ref in
      case orm_first api db (\<lambda>r. x_credential_ref r = ref \<and> x_owner_scope r = ''account'' \<and> x_owner_id r = account) of
        None \<Rightarrow> Inr (db, False)
      | Some row \<Rightarrow>
        if x_status row \<noteq> ''revoked''
        then (case orm_commit api db
                (row\<lparr>x_status := ''revoked'', x_encrypted_secret := None, x_revoked_at := Some now\<rparr>) of
                Inl e \<Rightarrow> Inl e
              | Inr db' \<Rightarrow> Inr (db', True))
        else Inr (db, True))"

section \<open>Authorization\<close>

definition row_expired :: "CodingExecutionCredential \<Rightarrow> pydt \<Rightarrow> bool" where
  "row_expired row now =
     (case x_expires_at row of
        None \<Rightarrow> False
      | Some expires \<Rightarrow>
        (let expiry = (if \<not> dt_aware expires then replace_utc expires else expires)
         in instant expiry \<le> instant now))"

definition validate_account_row :: "CodingExecutionCredential \<Rightarrow> pydict \<Rightarrow> string \<Rightarrow> string option" where
  "validate_account_row row binding account_id =
     (if x_owner_id row \<noteq> account_id \<or> x_funding_route row \<noteq> ACCOUNT_FUNDING_ROUTE
      then Some ''account_credential_owner_mismatch''
      else if dict_get binding ''usage_policy_ref'' \<notin> {PNone, PStr []} then Some ''account_usage_policy_unexpected''
      else None)"

definition validate_service_row :: "CodingExecutionCredential \<Rightarrow> pydict \<Rightarrow> string \<Rightarrow> string option" where
  "validate_service_row row binding account_id =
     (if x_funding_route row \<notin> SERVICE_FUNDING_ROUTES then Some ''service_funding_route_invalid''
      else if account_id \<notin> set (x_allowed_account_ids row) then Some ''service_account_policy_denied''
      else if text_of (dict_get binding ''model_id'') \<notin> set (x_allowed_model_ids row)
      then Some ''service_model_policy_denied''
      else if text_of (opt_str (x_usage_policy_ref row)) = [] then Some ''service_usage_policy_missing''
      else if text_of (dict_get binding ''usage_policy_ref'') \<noteq> text_of (opt_str (x_usage_policy_ref row))
      then Some ''service_usage_policy_mismatch''
      else None)"

text \<open>The denial code of a row, \<open>None\<close> when it is accepted.\<close>

definition validate_row ::
    "CodingExecutionCredential option \<Rightarrow> pydict \<Rightarrow> string \<Rightarrow> pydt \<Rightarrow> string option" where
  "validate_row row0 binding account_id now =
     (case row0 of
        None \<Rightarrow> Some ''credential_reference_missing''
      | Some row \<Rightarrow>
        if x_status row \<noteq> ''active'' \<or> x_encrypted_secret row \<in> {None, Some []}
        then Some ''credential_revoked_or_missing''
        else if x_credential_type row \<noteq> ''api_key'' then Some ''credential_type_unsupported''
        else if row_expired row now then Some ''credential_expired''
        else if x_provider_id row \<noteq> text_of (dict_get binding ''provider_id'')
        then Some ''credential_provider_mismatch''
        else if x_owner_scope row \<noteq> text_of (dict_get binding ''credential_owner_scope'')
        then Some ''credential_owner_scope_mismatch''
        else if x_owner_id row \<noteq> text_of (dict_get binding ''credential_owner_id'')
        then Some ''credential_owner_mismatch''
        else if x_funding_route row \<noteq> text_of (dict_get binding ''funding_route'')
        then Some ''credential_funding_route_mismatch''
        else if text_of (dict_get binding ''user_id'') \<noteq> account_id
        then Some ''credential_account_binding_mismatch''
        else if x_owner_scope row = ''account'' then validate_account_row row binding account_id
        else if x_owner_scope row = ''service'' then validate_service_row row binding account_id
        else if x_owner_scope row = ''operator'' then Some ''operator_credential_not_authorized_for_account''
        else Some ''credential_owner_scope_unsupported'')"

definition find_credential ::
    "('db, CodingExecutionCredential) orm \<Rightarrow> 'db \<Rightarrow> string \<Rightarrow> CodingExecutionCredential option" where
  "find_credential api db ref = orm_first api db (\<lambda>r. x_credential_ref r = ref)"

definition authorize_binding_credential ::
    "('db, CodingExecutionCredential) orm \<Rightarrow> 'db \<Rightarrow> pydt \<Rightarrow> pydict \<Rightarrow> string \<Rightarrow> cred_error + pydict" where
  "authorize_binding_credential api db now binding account_id =
     (let row = find_credential api db (text_of (dict_get binding ''credential_ref'')) in
      case validate_row row binding (strip account_id) now of
        Some code \<Rightarrow> Inl (CredentialAuthorityError code)
      | None \<Rightarrow> (case row of None \<Rightarrow> Inl (CredPython AssertionError) | Some r \<Rightarrow> Inr (safe_credential r)))"

definition selection_binding :: "CodingExecutionCredential \<Rightarrow> string \<Rightarrow> string \<Rightarrow> string \<Rightarrow> pydict" where
  "selection_binding row provider_id model_id account =
     [(''credential_ref'', PStr (x_credential_ref row)),
      (''credential_owner_scope'', PStr (x_owner_scope row)),
      (''credential_owner_id'', PStr (x_owner_id row)),
      (''provider_id'', PStr (strip provider_id)), (''model_id'', PStr (strip model_id)),
      (''funding_route'', PStr (x_funding_route row)),
      (''usage_policy_ref'', opt_str (x_usage_policy_ref row)), (''user_id'', PStr account)]"

definition authorize_credential_selection ::
    "('db, CodingExecutionCredential) orm \<Rightarrow> 'db \<Rightarrow> pydt \<Rightarrow> string \<Rightarrow> string \<Rightarrow> string \<Rightarrow> string \<Rightarrow>
      cred_error + pydict" where
  "authorize_credential_selection api db now credential_ref account_id provider_id model_id =
     (case find_credential api db (strip credential_ref) of
        None \<Rightarrow> Inl (CredentialAuthorityError ''credential_reference_missing'')
      | Some row \<Rightarrow>
        (let account = strip account_id in
         case validate_row (Some row) (selection_binding row provider_id model_id account) account now of
           Some code \<Rightarrow> Inl (CredentialAuthorityError code)
         | None \<Rightarrow> Inr (safe_credential row)))"

section \<open>The lease of a key\<close>

definition lease_of :: "string \<Rightarrow> string \<Rightarrow> string \<Rightarrow> int \<Rightarrow> CodingExecutionCredential \<Rightarrow> string \<Rightarrow> pydt \<Rightarrow>
    CodingExecutionCredentialLease" where
  "lease_of new_id binding_id attempt attempt_index row account now =
     \<lparr>xl_lease_id = new_id, xl_binding_id = binding_id, xl_attempt_id = attempt,
      xl_attempt_index = attempt_index, xl_credential_ref = x_credential_ref row,
      xl_owner_scope = x_owner_scope row, xl_owner_id = x_owner_id row, xl_account_id = account,
      xl_issued_at = now, xl_expires_at = dt_add_us now LEASE_LIFETIME\<rparr>"

definition safe_lease :: "CodingExecutionCredentialLease \<Rightarrow> CodingExecutionCredential \<Rightarrow> pydict \<Rightarrow> pydict" where
  "safe_lease lease row binding =
     [(''lease_id'', PStr (xl_lease_id lease)), (''binding_id'', PStr (xl_binding_id lease)),
      (''credential_ref'', PStr (x_credential_ref row)), (''owner_scope'', PStr (x_owner_scope row)),
      (''owner_id'', PStr (x_owner_id row)), (''credential_owner_scope'', PStr (x_owner_scope row)),
      (''credential_owner_id'', PStr (x_owner_id row)), (''account_id'', PStr (xl_account_id lease)),
      (''provider_id'', PStr (x_provider_id row)),
      (''model_id'', PStr (text_of (dict_get binding ''model_id''))),
      (''funding_route'', PStr (x_funding_route row)),
      (''source_class'', PStr (source_class (x_owner_scope row))),
      (''harness_id'', PStr (text_of (dict_get binding ''harness_id''))),
      (''harness_selection_mode'', PStr (text_of (dict_get binding ''harness_selection_mode''))),
      (''usage_policy_ref'', opt_str (x_usage_policy_ref row)),
      (''attempt_id'', PStr (xl_attempt_id lease)), (''attempt_index'', PInt (xl_attempt_index lease)),
      (''expires_at'', PStr (isoformat (xl_expires_at lease)))]"

text \<open>The \<open>try\<close> block: insert the lease, decrypt the key, commit; every failure rolls back.\<close>

definition redeem ::
    "string + fernet \<Rightarrow> ('l, CodingExecutionCredentialLease) orm \<Rightarrow> 'l \<Rightarrow> CodingExecutionCredentialLease \<Rightarrow>
      CodingExecutionCredential \<Rightarrow> pydict \<Rightarrow> cred_error + ('l \<times> string \<times> pydict)" where
  "redeem loaded lapi ldb lease row binding =
     (case orm_add lapi ldb lease of
        Inl (IntegrityError _) \<Rightarrow> Inl (CredentialAuthorityError ''credential_attempt_already_leased'')
      | Inl (DatabaseError _) \<Rightarrow> Inl (CredentialAuthorityError ''credential_lease_unavailable'')
      | Inr ldb' \<Rightarrow>
        (case decrypt_token loaded (x_encrypted_secret row) of
           Inl _ \<Rightarrow> Inl (CredentialAuthorityError ''credential_lease_unavailable'')
         | Inr secret \<Rightarrow>
           if secret \<in> {None, Some []} then Inl (CredentialAuthorityError ''credential_secret_unavailable'')
           else Inr (ldb', the secret, safe_lease lease row binding)))"

definition issue_api_key_lease ::
    "string + fernet \<Rightarrow> ('db, CodingExecutionCredential) orm \<Rightarrow> 'db \<Rightarrow>
      ('l, CodingExecutionCredentialLease) orm \<Rightarrow> 'l \<Rightarrow> pydt \<Rightarrow> pydt \<Rightarrow> string \<Rightarrow> pydict \<Rightarrow> string \<Rightarrow> string \<Rightarrow> int \<Rightarrow>
      cred_error + ('l \<times> string \<times> pydict)" where
  "issue_api_key_lease loaded api db lapi ldb now check_now new_id binding account_id attempt_id attempt_index =
     (let binding_id = text_of (dict_get binding ''binding_id''); attempt = strip attempt_id;
          account = strip account_id
      in if binding_id = [] \<or> attempt = [] \<or> attempt_index < 1
         then Inl (CredentialAuthorityError ''credential_lease_identity_invalid'')
         else if attempt \<noteq> text_of (dict_get binding ''attempt_id'')
         then Inl (CredentialAuthorityError ''credential_attempt_binding_mismatch'')
         else
           (let row0 = find_credential api db (text_of (dict_get binding ''credential_ref'')) in
            case validate_row row0 binding account check_now of
              Some code \<Rightarrow> Inl (CredentialAuthorityError code)
            | None \<Rightarrow>
              (case row0 of
                 None \<Rightarrow> Inl (CredPython AssertionError)
               | Some row \<Rightarrow>
                 (let max_raw = dict_get binding ''max_attempts'' in
                  case (if truthy max_raw then py_int max_raw else Inr 0) of
                    Inl e \<Rightarrow> Inl (CredPython e)
                  | Inr max_attempts \<Rightarrow>
                    if max_attempts < attempt_index
                    then Inl (CredentialAuthorityError ''credential_attempt_not_authorized'')
                    else redeem loaded lapi ldb
                           (lease_of new_id binding_id attempt attempt_index row account now) row binding))))"

section \<open>What an accepted row is\<close>

definition row_usable :: "CodingExecutionCredential \<Rightarrow> pydt \<Rightarrow> bool" where
  "row_usable row now \<longleftrightarrow> x_status row = ''active'' \<and> x_encrypted_secret row \<notin> {None, Some []} \<and>
     x_credential_type row = ''api_key'' \<and> \<not> row_expired row now"

text \<open>The account may spend this key: its own, or a service key that names the account and the model.\<close>

definition owner_permits :: "CodingExecutionCredential \<Rightarrow> string \<Rightarrow> string \<Rightarrow> bool" where
  "owner_permits row account model \<longleftrightarrow>
     x_owner_scope row = ''account'' \<and> x_owner_id row = account \<and> x_funding_route row = ACCOUNT_FUNDING_ROUTE \<or>
     x_owner_scope row = ''service'' \<and> account \<in> set (x_allowed_account_ids row) \<and>
       model \<in> set (x_allowed_model_ids row) \<and> x_funding_route row \<in> SERVICE_FUNDING_ROUTES \<and>
       text_of (opt_str (x_usage_policy_ref row)) \<noteq> []"

definition binding_matches :: "CodingExecutionCredential \<Rightarrow> pydict \<Rightarrow> string \<Rightarrow> bool" where
  "binding_matches row binding account \<longleftrightarrow>
     x_provider_id row = text_of (dict_get binding ''provider_id'') \<and>
     x_owner_scope row = text_of (dict_get binding ''credential_owner_scope'') \<and>
     x_owner_id row = text_of (dict_get binding ''credential_owner_id'') \<and>
     x_funding_route row = text_of (dict_get binding ''funding_route'') \<and>
     text_of (dict_get binding ''user_id'') = account \<and>
     (if x_owner_scope row = ''account'' then dict_get binding ''usage_policy_ref'' \<in> {PNone, PStr []}
      else text_of (dict_get binding ''usage_policy_ref'') = text_of (opt_str (x_usage_policy_ref row)))"

lemma validate_row_None:
  "validate_row r0 binding account now = None \<longleftrightarrow>
     (\<exists>row. r0 = Some row \<and> row_usable row now \<and> binding_matches row binding account \<and>
        owner_permits row account (text_of (dict_get binding ''model_id'')))"
proof (cases r0)
  case (Some row)
  consider "x_owner_scope row = ''account''" | "x_owner_scope row = ''service''"
    | "x_owner_scope row \<noteq> ''account''" "x_owner_scope row \<noteq> ''service''" by blast
  then show ?thesis
  proof cases
    case 1
    then show ?thesis
      by (simp add: Some validate_row_def row_usable_def binding_matches_def owner_permits_def
          validate_account_row_def; blast)
  next
    case 2
    then show ?thesis
      by (simp add: Some validate_row_def row_usable_def binding_matches_def owner_permits_def
          validate_service_row_def; blast)
  qed (simp add: Some validate_row_def owner_permits_def)
qed (simp add: validate_row_def)

lemma issue_Inr:
  assumes "issue_api_key_lease loaded api db lapi ldb now check_now new_id binding account_id attempt_id ix =
    Inr (ldb', secret, lease)"
  obtains row n where "find_credential api db (text_of (dict_get binding ''credential_ref'')) = Some row"
    "validate_row (Some row) binding (strip account_id) check_now = None"
    "text_of (dict_get binding ''binding_id'') \<noteq> []" "strip attempt_id = text_of (dict_get binding ''attempt_id'')"
    "1 \<le> ix" "ix \<le> n" "(if truthy (dict_get binding ''max_attempts'') then py_int (dict_get binding ''max_attempts'') else Inr 0) = Inr n"
    "orm_add lapi ldb (lease_of new_id (text_of (dict_get binding ''binding_id'')) (strip attempt_id) ix row
      (strip account_id) now) = Inr ldb'"
    "decrypt_token loaded (x_encrypted_secret row) = Inr (Some secret)" "secret \<noteq> []"
proof -
  let ?max = "if truthy (dict_get binding ''max_attempts'') then py_int (dict_get binding ''max_attempts'') else Inr 0"
  from assms obtain row n where row: "find_credential api db (text_of (dict_get binding ''credential_ref'')) = Some row"
    "validate_row (Some row) binding (strip account_id) check_now = None" "?max = Inr n"
    unfolding issue_api_key_lease_def Let_def by (auto simp del: split_paired_All split: if_splits option.splits sum.splits)
  then have redeem: "redeem loaded lapi ldb (lease_of new_id (text_of (dict_get binding ''binding_id'')) (strip attempt_id) ix row
      (strip account_id) now) row binding = Inr (ldb', secret, lease)"
    and "text_of (dict_get binding ''binding_id'') \<noteq> []" "strip attempt_id = text_of (dict_get binding ''attempt_id'')"
    "1 \<le> ix" "ix \<le> n"
    using assms unfolding issue_api_key_lease_def Let_def by (simp_all split: if_splits)
  moreover from redeem have "decrypt_token loaded (x_encrypted_secret row) = Inr (Some secret) \<and> secret \<noteq> []"
    by (auto simp: redeem_def split: if_splits sum.splits db_error.splits)
  moreover from redeem have "orm_add lapi ldb (lease_of new_id (text_of (dict_get binding ''binding_id'')) (strip attempt_id) ix row
      (strip account_id) now) = Inr ldb'"
    by (auto simp: redeem_def split: if_splits sum.splits db_error.splits)
  ultimately show ?thesis using row by (intro that [of row n]) simp_all
qed

section \<open>The credential table\<close>

text \<open>The states that calls of the module lead to: keys are stored and revoked, nothing else writes.\<close>

inductive cred_reaches :: "('db, CodingExecutionCredential) orm \<Rightarrow> 'db \<Rightarrow> 'db \<Rightarrow> bool" for api db where
  start: "cred_reaches api db db"
| stored: "cred_reaches api db db1 \<Longrightarrow>
    store_api_key loaded api db1 server_now new_ref scope owner provider key route accs mods policy = Inr (db2, safe) \<Longrightarrow>
    cred_reaches api db db2"
| revoked: "cred_reaches api db db1 \<Longrightarrow> revoke_account_credential api db1 now account ref = Inr (db2, found) \<Longrightarrow>
    cred_reaches api db db2"

lemma store_Inr:
  assumes "store_api_key loaded api db t new_ref scope owner provider key route accs mods policy = Inr (db', safe)"
  obtains row where "orm_add api db row = Inr db'" "x_credential_ref row = new_ref"
  using assms unfolding store_api_key_def Let_def by (auto split: if_splits option.splits sum.splits)

lemma revoke_False:
  "revoke_account_credential api db now account ref = Inr (db', False) \<Longrightarrow> db' = db"
  by (auto simp: revoke_account_credential_def Let_def split: if_splits option.splits sum.splits)

locale credential_table = orm_table api x_credential_ref invar
  for api :: "('db, CodingExecutionCredential) orm" and invar :: "'db \<Rightarrow> bool"
begin

lemma find_Some:
  "invar db \<Longrightarrow> find_credential api db ref = Some row \<longleftrightarrow> row \<in> orm_rows api db \<and> x_credential_ref row = ref"
  by (simp add: find_credential_def first_key)

lemma revoke_True:
  assumes "invar db" "revoke_account_credential api db now account ref = Inr (db', True)"
  obtains row where "row \<in> orm_rows api db" "x_credential_ref row = strip ref" "x_owner_scope row = ''account''"
    "x_owner_id row = strip account" "invar db'"
    "\<exists>row'. find_credential api db' (strip ref) = Some row' \<and> x_status row' = ''revoked''"
    "\<And>k. k \<noteq> strip ref \<Longrightarrow> find_credential api db' k = find_credential api db k"
proof -
  from assms(2) obtain row where row: "orm_first api db (\<lambda>r. x_credential_ref r = strip ref \<and>
      x_owner_scope r = ''account'' \<and> x_owner_id r = strip account) = Some row"
    by (auto simp: revoke_account_credential_def Let_def split: option.splits)
  note r = first_Some [OF assms(1) row]
  let ?row' = "row\<lparr>x_status := ''revoked'', x_encrypted_secret := None, x_revoked_at := Some now\<rparr>"
  show ?thesis
  proof (cases "x_status row = ''revoked''")
    case True
    then have "db' = db" using assms(2) row by (simp add: revoke_account_credential_def Let_def)
    with r True assms(1) show ?thesis by (intro that [of row]) (auto simp: find_Some)
  next
    case False
    then have c: "orm_commit api db ?row' = Inr db'"
      using assms(2) row by (auto simp: revoke_account_credential_def Let_def split: sum.splits)
    have k: "x_credential_ref row = x_credential_ref ?row'" by simp
    note fk = first_key_commit [OF assms(1) r(1) k c]
    show ?thesis
      using r fk commit_invar [OF assms(1) r(1) k c] by (intro that [of row]) (auto simp: find_credential_def)
  qed
qed

lemma revoked_kept:
  assumes "cred_reaches api db db'" "invar db" "find_credential api db k = Some row" "x_status row = ''revoked''"
  shows "invar db' \<and> (\<exists>row'. find_credential api db' k = Some row' \<and> x_status row' = ''revoked'')"
  using assms
proof (induction rule: cred_reaches.induct)
  case (stored db1 loaded server_now new_ref scope owner provider key route accs mods policy db2 safe)
  then obtain row' where 1: "invar db1" "find_credential api db1 k = Some row'" "x_status row' = ''revoked''" by blast
  from stored.hyps(2) obtain r where r: "orm_add api db1 r = Inr db2" by (rule store_Inr)
  have "x_credential_ref row' = k" "row' \<in> orm_rows api db1" using 1 by (simp_all add: find_Some)
  with add_fresh [OF 1(1) r] have "k \<noteq> x_credential_ref r" by blast
  with first_key_add [OF 1(1) r, of k] add_invar [OF 1(1) r] 1 show ?case by (simp add: find_credential_def)
next
  case (revoked db1 now account ref db2 found)
  then obtain row' where 1: "invar db1" "find_credential api db1 k = Some row'" "x_status row' = ''revoked''" by blast
  show ?case
  proof (cases found)
    case True
    with revoked.hyps(2) have "revoke_account_credential api db1 now account ref = Inr (db2, True)" by simp
    from revoke_True [OF 1(1) this] 1 show ?thesis by (metis (no_types))
  next
    case False
    with revoked.hyps(2) revoke_False [of api db1 now account ref db2] have "db2 = db1" by simp
    with 1 show ?thesis by blast
  qed
qed auto

end

text \<open>The check constraints of the credential table and of the lease table.\<close>

definition credential_constraint :: "CodingExecutionCredential list \<Rightarrow> CodingExecutionCredential \<Rightarrow> string option" where
  "credential_constraint rows r =
     (if x_owner_scope r \<notin> SUPPORTED_OWNER_SCOPES then Some ''ck_coding_execution_credentials_owner_scope''
      else if x_credential_type r \<noteq> ''api_key'' then Some ''ck_coding_execution_credentials_type''
      else if x_funding_route r \<notin> {''user_byok'', ''codexify_included'', ''codexify_metered'', ''local_self_hosted''}
      then Some ''ck_coding_execution_credentials_funding_route''
      else if x_status r \<notin> {''active'', ''revoked''} then Some ''ck_coding_execution_credentials_status''
      else if \<not> (x_status r = ''active'' \<and> x_encrypted_secret r \<noteq> None \<or>
        x_status r = ''revoked'' \<and> x_encrypted_secret r = None)
      then Some ''ck_coding_execution_credentials_secret_status''
      else None)"

definition lease_row_constraint ::
    "CodingExecutionCredentialLease list \<Rightarrow> CodingExecutionCredentialLease \<Rightarrow> string option" where
  "lease_row_constraint rows r =
     (if xl_lease_id r \<in> xl_lease_id ` set rows then Some ''UNIQUE constraint failed: lease_id''
      else if xl_attempt_index r \<le> 0 then Some ''ck_coding_execution_credential_leases_attempt_index_positive''
      else None)"

definition attempt_key :: "CodingExecutionCredentialLease \<Rightarrow> string \<times> int" where
  "attempt_key l = (xl_binding_id l, xl_attempt_index l)"

lemma attempt_key_lease_of: "attempt_key (lease_of new_id b a ix row account now) = (b, ix)"
  by (simp add: attempt_key_def lease_of_def)

definition credential_tbl :: "(CodingExecutionCredential list, CodingExecutionCredential) orm" where
  "credential_tbl = list_orm x_credential_ref credential_constraint"

definition attempt_tbl :: "(CodingExecutionCredentialLease list, CodingExecutionCredentialLease) orm" where
  "attempt_tbl = list_orm attempt_key lease_row_constraint"

interpretation ctbl: credential_table credential_tbl "list_invar x_credential_ref"
  unfolding credential_tbl_def by unfold_locales

interpretation atbl: orm_table attempt_tbl attempt_key "list_invar attempt_key"
  unfolding attempt_tbl_def by unfold_locales

section \<open>Examples\<close>

definition demo_fernet :: fernet where
  "demo_fernet = \<lparr>fernet_encrypt = (\<lambda>s. CHR ''k'' # s),
     fernet_decrypt = (\<lambda>s. case s of [] \<Rightarrow> None | c # cs \<Rightarrow> if c = CHR ''k'' then Some cs else None)\<rparr>"

definition demo_time :: pydt where "demo_time = \<lparr>wall = 63902649600000000, utcoff = Some 0\<rparr>"

definition demo_cred :: CodingExecutionCredential where
  "demo_cred = \<lparr>x_credential_ref = ''ccr_1'', x_owner_scope = ''account'', x_owner_id = ''u1'',
     x_provider_id = ''openai'', x_credential_type = ''api_key'', x_funding_route = ''user_byok'',
     x_encrypted_secret = Some ''ksk-1'', x_status = ''active'', x_allowed_account_ids = [],
     x_allowed_model_ids = [], x_usage_policy_ref = None, x_expires_at = None, x_revoked_at = None,
     x_created_at = demo_time\<rparr>"

definition demo_binding :: pydict where
  "demo_binding = [(''credential_ref'', PStr ''ccr_1''), (''provider_id'', PStr ''openai''),
     (''credential_owner_scope'', PStr ''account''), (''credential_owner_id'', PStr ''u1''),
     (''funding_route'', PStr ''user_byok''), (''user_id'', PStr ''u1''), (''binding_id'', PStr ''b1''),
     (''attempt_id'', PStr ''a1''), (''max_attempts'', PInt 2), (''model_id'', PStr ''m'')]"

definition demo_lease_row :: CodingExecutionCredentialLease where
  "demo_lease_row = lease_of ''cl_1'' ''b1'' ''a1'' 1 demo_cred ''u1'' demo_time"

lemma demo_texts: "strip '' sk-1'' = ''sk-1''" "strip ''u1'' = ''u1''" "strip ''a1'' = ''a1''" "lower (strip ''OpenAI'') = ''openai''"
  "text_of (dict_get demo_binding ''credential_ref'') = ''ccr_1''" "text_of (dict_get demo_binding ''provider_id'') = ''openai''"
  "text_of (dict_get demo_binding ''credential_owner_scope'') = ''account''" "text_of (dict_get demo_binding ''credential_owner_id'') = ''u1''"
  "text_of (dict_get demo_binding ''funding_route'') = ''user_byok''" "text_of (dict_get demo_binding ''user_id'') = ''u1''"
  "text_of (dict_get demo_binding ''binding_id'') = ''b1''" "text_of (dict_get demo_binding ''attempt_id'') = ''a1''"
  by code_simp+

lemma demo_binding_raw: "dict_get demo_binding ''usage_policy_ref'' = PNone" "dict_get demo_binding ''max_attempts'' = PInt 2"
  by (simp_all add: demo_binding_def dict_get_def)

lemma demo_issue:
  "issue_api_key_lease (Inr demo_fernet) credential_tbl [demo_cred] attempt_tbl [] demo_time demo_time ''cl_1''
     demo_binding ''u1'' ''a1'' 1 = Inr ([demo_lease_row], ''sk-1'', safe_lease demo_lease_row demo_cred demo_binding)"
proof -
  have "validate_row (Some demo_cred) demo_binding ''u1'' demo_time = None"
    by (simp add: validate_row_def validate_account_row_def demo_texts demo_binding_raw demo_cred_def row_expired_def
        ACCOUNT_FUNDING_ROUTE_def)
  moreover have "find_credential credential_tbl [demo_cred] ''ccr_1'' = Some demo_cred"
    by (simp add: find_credential_def orm_first_def credential_tbl_def list_select_def demo_cred_def)
  moreover have "orm_add attempt_tbl [] demo_lease_row = Inr [demo_lease_row]"
    by (simp add: attempt_tbl_def list_add_def lease_row_constraint_def demo_lease_row_def lease_of_def)
  moreover have "decrypt_token (Inr demo_fernet) (x_encrypted_secret demo_cred) = Inr (Some ''sk-1'')"
    by (simp add: decrypt_token_def demo_fernet_def demo_cred_def)
  ultimately show ?thesis
    by (simp add: issue_api_key_lease_def Let_def demo_texts demo_binding_raw redeem_def demo_lease_row_def)
qed

lemma demo_cred_invar: "list_invar x_credential_ref [demo_cred]" "list_invar attempt_key []"
  "list_invar attempt_key [demo_lease_row]"
  by (simp_all add: list_invar_def)

section \<open>Properties\<close>

text \<open>
  C11. A key reaches an attempt only under authority: when a lease is issued, the stored credential it
  names is active, holds a secret, is an API key, has not expired, agrees with the binding in provider,
  owner, funding route and user, belongs to the account or is a service key that names the account and
  the model, and is never an operator key; and the attempt is one of those the binding allows.
\<close>

theorem lease_only_under_authority:
  assumes "orm_table api x_credential_ref invar" "invar db"
    and issued: "issue_api_key_lease loaded api db lapi ldb now check_now new_id binding account_id attempt_id ix =
      Inr (ldb', secret, lease)"
  shows "\<exists>row \<in> orm_rows api db. \<exists>n.
    x_credential_ref row = text_of (dict_get binding ''credential_ref'') \<and> row_usable row check_now \<and>
    binding_matches row binding (strip account_id) \<and>
    owner_permits row (strip account_id) (text_of (dict_get binding ''model_id'')) \<and>
    strip attempt_id = text_of (dict_get binding ''attempt_id'') \<and>
    py_int (dict_get binding ''max_attempts'') = Inr n \<and> 1 \<le> ix \<and> ix \<le> n \<and>
    decrypt_token loaded (x_encrypted_secret row) = Inr (Some secret)"
proof -
  have tbl: "credential_table api invar" by (rule credential_table.intro [OF assms(1)])
  from issued show ?thesis
  proof (rule issue_Inr)
    fix row n
    assume r: "find_credential api db (text_of (dict_get binding ''credential_ref'')) = Some row"
      "validate_row (Some row) binding (strip account_id) check_now = None"
      "strip attempt_id = text_of (dict_get binding ''attempt_id'')"
      and ix: "1 \<le> ix" "ix \<le> n"
      and n: "(if truthy (dict_get binding ''max_attempts'') then py_int (dict_get binding ''max_attempts'') else Inr 0) = Inr n"
      and d: "decrypt_token loaded (x_encrypted_secret row) = Inr (Some secret)"
    from n ix have "py_int (dict_get binding ''max_attempts'') = Inr n" by (auto split: if_splits)
    with r ix d show ?thesis
      using credential_table.find_Some [OF tbl assms(2)] by (auto simp: validate_row_None)
  qed
qed

theorem lease_only_under_authority_witness:
  "\<exists>row \<in> orm_rows credential_tbl [demo_cred]. owner_permits row ''u1'' ''m''"
proof -
  have "text_of (dict_get demo_binding ''model_id'') = ''m''" "strip ''u1'' = ''u1''" by code_simp+
  with lease_only_under_authority [OF ctbl.orm_table_axioms demo_cred_invar(1) demo_issue] show ?thesis by auto
qed

text \<open>
  C15. An attempt redeems a key at most once: after a lease was issued for a binding and an attempt
  index, no later call succeeds for the same binding and index, whatever else it names, in any state of
  the lease table that still holds the issued leases.
\<close>

theorem attempt_redeems_once:
  assumes "orm_table lapi attempt_key linv" "linv ldb"
    and first: "issue_api_key_lease loaded api db lapi ldb now check_now new_id binding account_id attempt_id ix =
      Inr (ldb', secret, lease)"
    and later: "linv ldb2" "orm_rows lapi ldb' \<subseteq> orm_rows lapi ldb2"
    and same: "text_of (dict_get binding2 ''binding_id'') = text_of (dict_get binding ''binding_id'')"
  shows "\<exists>e. issue_api_key_lease loaded2 api2 db2 lapi ldb2 now2 check2 new_id2 binding2 account2 attempt2 ix = Inl e"
proof (cases "issue_api_key_lease loaded2 api2 db2 lapi ldb2 now2 check2 new_id2 binding2 account2 attempt2 ix")
  case (Inr res)
  obtain ldb3 secret2 lease2 where "res = (ldb3, secret2, lease2)" by (cases res)
  with Inr have second: "issue_api_key_lease loaded2 api2 db2 lapi ldb2 now2 check2 new_id2 binding2 account2 attempt2 ix =
      Inr (ldb3, secret2, lease2)" by simp
  obtain row where a: "orm_add lapi ldb (lease_of new_id (text_of (dict_get binding ''binding_id'')) (strip attempt_id) ix row
      (strip account_id) now) = Inr ldb'" using first by (rule issue_Inr) blast
  obtain row2 where b: "orm_add lapi ldb2 (lease_of new_id2 (text_of (dict_get binding2 ''binding_id'')) (strip attempt2) ix row2
      (strip account2) now2) = Inr ldb3" using second by (rule issue_Inr) blast
  from orm_table.add_rows [OF assms(1,2) a] later(2)
  have "lease_of new_id (text_of (dict_get binding ''binding_id'')) (strip attempt_id) ix row
      (strip account_id) now \<in> orm_rows lapi ldb2" by auto
  from orm_table.add_fresh [OF assms(1) later(1) b this] same show ?thesis
    by (simp add: attempt_key_def lease_of_def)
qed blast

theorem attempt_redeems_once_witness:
  "\<exists>e. issue_api_key_lease (Inr demo_fernet) credential_tbl [demo_cred] attempt_tbl [demo_lease_row] demo_time demo_time
     ''cl_2'' demo_binding ''u1'' ''a1'' 1 = Inl e"
  by (rule attempt_redeems_once [OF atbl.orm_table_axioms demo_cred_invar(2) demo_issue demo_cred_invar(3) subset_refl refl])

text \<open>
  Revocation is final: once an account revoked its credential, no authorization and no lease
  under that reference succeeds, neither at once nor in any state that later calls of the module lead
  to; and the revocation leaves every other credential as it was.
\<close>

theorem revocation_is_final:
  assumes "orm_table api x_credential_ref invar" "invar db"
    and revoked: "revoke_account_credential api db now account ref = Inr (db', True)"
    and later: "cred_reaches api db' db2"
  shows "(\<exists>row \<in> orm_rows api db. x_credential_ref row = strip ref \<and> x_owner_scope row = ''account'' \<and>
      x_owner_id row = strip account) \<and>
    (strip ref2 = strip ref \<longrightarrow> (\<exists>e. authorize_credential_selection api db2 now2 ref2 account2 provider model = Inl e)) \<and>
    (text_of (dict_get binding ''credential_ref'') = strip ref \<longrightarrow>
      (\<exists>e. authorize_binding_credential api db2 now2 binding account2 = Inl e) \<and>
      (\<exists>e. issue_api_key_lease loaded api db2 lapi ldb now2 check2 new_id binding account2 attempt ix = Inl e)) \<and>
    (k \<noteq> strip ref \<longrightarrow> find_credential api db' k = find_credential api db k)"
proof -
  have tbl: "credential_table api invar" by (rule credential_table.intro [OF assms(1)])
  obtain row row1 where row: "row \<in> orm_rows api db" "x_credential_ref row = strip ref" "x_owner_scope row = ''account''"
    "x_owner_id row = strip account" "invar db'"
    and row1: "find_credential api db' (strip ref) = Some row1" "x_status row1 = ''revoked''"
    and other: "\<And>k. k \<noteq> strip ref \<Longrightarrow> find_credential api db' k = find_credential api db k"
    using credential_table.revoke_True [OF tbl assms(2) revoked] by metis
  obtain row' where row': "find_credential api db2 (strip ref) = Some row'" "x_status row' = ''revoked''"
    using credential_table.revoked_kept [OF tbl later row(5) row1] by blast
  have bad: "validate_row (Some row') b acc t = Some ''credential_revoked_or_missing''" for b acc t
    using row'(2) by (simp add: validate_row_def)
  have "\<exists>e. issue_api_key_lease loaded api db2 lapi ldb now2 check2 new_id binding account2 attempt ix = Inl e"
    if "text_of (dict_get binding ''credential_ref'') = strip ref"
    using that row' bad by (simp add: issue_api_key_lease_def Let_def)
  with row row' bad other show ?thesis
    by (auto simp: authorize_credential_selection_def authorize_binding_credential_def Let_def)
qed

theorem revocation_is_final_witness:
  "\<exists>db' e. revoke_account_credential credential_tbl [demo_cred] demo_time ''u1'' ''ccr_1'' = Inr (db', True) \<and>
     authorize_credential_selection credential_tbl db' demo_time ''ccr_1'' ''u1'' ''openai'' ''m'' = Inl e"
proof -
  have r: "revoke_account_credential credential_tbl [demo_cred] demo_time ''u1'' ''ccr_1'' =
      Inr ([demo_cred\<lparr>x_status := ''revoked'', x_encrypted_secret := None, x_revoked_at := Some demo_time\<rparr>], True)"
    by code_simp
  from revocation_is_final [OF ctbl.orm_table_axioms demo_cred_invar(1) r cred_reaches.start, THEN conjunct2, THEN conjunct1, rule_format, OF refl]
  have "\<exists>e. authorize_credential_selection credential_tbl
      [demo_cred\<lparr>x_status := ''revoked'', x_encrypted_secret := None, x_revoked_at := Some demo_time\<rparr>]
      demo_time ''ccr_1'' ''u1'' ''openai'' ''m'' = Inl e" .
  with r show ?thesis by blast
qed

text \<open>
  A stored key comes back: when an account stores an API key under its own funding route without a
  policy reference, a lease for a binding that names the new reference and agrees with the stored row
  hands the attempt exactly that key, provided the cipher inverts itself on it and the lease table
  accepts the attempt.
\<close>

theorem stored_key_is_leased:
  assumes "orm_table api x_credential_ref invar" "invar db"
    and cipher: "loaded = Inr f" "fernet_decrypt f (fernet_encrypt f (strip key)) = Some (strip key)"
    and stored: "store_api_key loaded api db t ref ''account'' owner provider key ''user_byok'' accs mods None =
      Inr (db', safe)"
    and binding: "text_of (dict_get binding ''credential_ref'') = ref"
      "text_of (dict_get binding ''provider_id'') = lower (strip provider)"
      "text_of (dict_get binding ''credential_owner_scope'') = ''account''"
      "text_of (dict_get binding ''credential_owner_id'') = strip owner"
      "text_of (dict_get binding ''funding_route'') = ''user_byok''"
      "text_of (dict_get binding ''user_id'') = strip owner" "dict_get binding ''usage_policy_ref'' = PNone"
      "text_of (dict_get binding ''binding_id'') \<noteq> []" "text_of (dict_get binding ''attempt_id'') = strip attempt"
      "strip attempt \<noteq> []" "dict_get binding ''max_attempts'' = PInt n" "1 \<le> ix" "ix \<le> n"
    and free: "\<And>l. attempt_key l = (text_of (dict_get binding ''binding_id''), ix) \<Longrightarrow> \<exists>ldb'. orm_add lapi ldb l = Inr ldb'"
  shows "\<exists>ldb' lease. issue_api_key_lease loaded api db' lapi ldb now check_now new_id binding owner attempt ix =
    Inr (ldb', strip key, lease)"
proof -
  have norm: "lower (strip ''account'') = ''account''" "lower (strip ''user_byok'') = ''user_byok''" by code_simp+
  from stored obtain row where row: "orm_add api db row = Inr db'" "x_credential_ref row = ref" "x_owner_scope row = ''account''"
    "x_owner_id row = strip owner" "x_provider_id row = lower (strip provider)" "x_credential_type row = ''api_key''"
    "x_funding_route row = ''user_byok''" "x_encrypted_secret row = Some (fernet_encrypt f (strip key))"
    "x_status row = ''active''" "x_expires_at row = None" "fernet_encrypt f (strip key) \<noteq> []" "strip key \<noteq> []"
    unfolding store_api_key_def Let_def norm cipher encrypt_token_def
    by (auto simp: validate_store_input_def split: if_splits sum.splits)
  have find: "find_credential api db' ref = Some row"
    using orm_table.first_key_add [OF assms(1,2) row(1)] row(2) by (simp add: find_credential_def)
  have ok: "validate_row (Some row) binding (strip owner) check_now = None"
    using row binding by (simp add: validate_row_def validate_account_row_def row_expired_def ACCOUNT_FUNDING_ROUTE_def)
  have dec: "decrypt_token loaded (x_encrypted_secret row) = Inr (Some (strip key))"
    using row cipher by (simp add: decrypt_token_def)
  obtain ldb' where add: "orm_add lapi ldb (lease_of new_id (text_of (dict_get binding ''binding_id'')) (strip attempt) ix row
      (strip owner) now) = Inr ldb'" using free by (metis (no_types) attempt_key_lease_of)
  show ?thesis
    using find ok dec add binding row(12) by (auto simp: issue_api_key_lease_def redeem_def Let_def)
qed

lemma demo_store:
  "store_api_key (Inr demo_fernet) credential_tbl [] demo_time ''ccr_1'' ''account'' ''u1'' ''OpenAI'' '' sk-1'' ''user_byok''
     None None None = Inr ([demo_cred], safe_credential demo_cred)"
  by code_simp

theorem stored_key_is_leased_witness:
  "\<exists>ldb' lease. issue_api_key_lease (Inr demo_fernet) credential_tbl [demo_cred] attempt_tbl [] demo_time demo_time ''cl_1''
     demo_binding ''u1'' ''a1'' 1 = Inr (ldb', strip '' sk-1'', lease)"
proof (rule stored_key_is_leased [OF ctbl.orm_table_axioms _ refl _ demo_store, where n = 2])
  show "list_invar x_credential_ref []" by (simp add: list_invar_def)
  show "fernet_decrypt demo_fernet (fernet_encrypt demo_fernet (strip '' sk-1'')) = Some (strip '' sk-1'')"
    by (simp add: demo_fernet_def)
  show "\<exists>ldb'. orm_add attempt_tbl [] l = Inr ldb'" if "attempt_key l = (text_of (dict_get demo_binding ''binding_id''), 1)" for l
    using that by (simp add: attempt_tbl_def list_add_def lease_row_constraint_def attempt_key_def)
qed (simp_all add: demo_texts demo_binding_raw)

end
