(* ===== verification/Path_Guard.thy ===== *)
theory Path_Guard
  imports Py_Base "HOL-Library.Sublist"
begin

text \<open>
  Model of \<^verbatim>\<open>guardian/security/path_guard.py\<close>: the containment check of a write path under an allowed
  root. Lexical paths follow \<open>pathlib.PurePosixPath\<close> and \<open>posixpath\<close>; the file system is a record of the
  three queries the guard makes. The results are that an accepted path is lexically below the root with
  no upward step, that its resolution through the deepest existing ancestor stays below the resolved
  root, and that the upward walk always ends.
\<close>

section \<open>Lexical paths\<close>

text \<open>The root (empty, one or two slashes) and the parts of a \<open>PurePosixPath\<close>.\<close>

record ppath =
  pp_root :: string
  pp_parts :: "string list"

fun split_slash :: "string \<Rightarrow> string list" where
  "split_slash [] = [[]]"
| "split_slash (c # cs) =
     (if c = CHR ''/'' then [] # split_slash cs
      else (case split_slash cs of [] \<Rightarrow> [[c]] | x # xs \<Rightarrow> (c # x) # xs))"

text \<open>The leading slashes POSIX keeps: one, or exactly two.\<close>

definition lead_slashes :: "string \<Rightarrow> string" where
  "lead_slashes s =
     (if take 1 s \<noteq> ''/'' then []
      else if take 2 s = ''//'' \<and> take 3 s \<noteq> ''///'' then ''//'' else ''/'')"

definition parse_path :: "string \<Rightarrow> ppath" where
  "parse_path s = \<lparr>pp_root = lead_slashes s, pp_parts = filter (\<lambda>p. p \<noteq> [] \<and> p \<noteq> ''.'') (split_slash s)\<rparr>"

definition path_str :: "ppath \<Rightarrow> string" where
  "path_str p = (if pp_root p = [] \<and> pp_parts p = [] then ''.'' else pp_root p @ join_with ''/'' (pp_parts p))"

definition is_absolute :: "ppath \<Rightarrow> bool" where
  "is_absolute p = (pp_root p \<noteq> [])"

definition path_join :: "ppath \<Rightarrow> ppath \<Rightarrow> ppath" where
  "path_join p q = (if pp_root q \<noteq> [] then q else p\<lparr>pp_parts := pp_parts p @ pp_parts q\<rparr>)"

definition path_parent :: "ppath \<Rightarrow> ppath" where
  "path_parent p = p\<lparr>pp_parts := butlast (pp_parts p)\<rparr>"

definition path_name :: "ppath \<Rightarrow> string" where
  "path_name p = (if pp_parts p = [] then [] else last (pp_parts p))"

text \<open>\<open>posixpath.normpath\<close> and \<open>posixpath.abspath\<close>.\<close>

fun norm_comps :: "bool \<Rightarrow> string list \<Rightarrow> string list \<Rightarrow> string list" where
  "norm_comps absolute acc [] = acc"
| "norm_comps absolute acc (c # cs) =
     (if c = [] \<or> c = ''.'' then norm_comps absolute acc cs
      else if c \<noteq> ''..'' \<or> (\<not> absolute \<and> acc = []) \<or> (acc \<noteq> [] \<and> last acc = ''..'')
      then norm_comps absolute (acc @ [c]) cs
      else norm_comps absolute (butlast acc) cs)"

definition normpath :: "string \<Rightarrow> string" where
  "normpath s =
     (if s = [] then ''.''
      else (let r = lead_slashes s;
                path = r @ join_with ''/'' (norm_comps (r \<noteq> []) [] (split_slash s))
            in if path = [] then ''.'' else path))"

definition abspath :: "string \<Rightarrow> string \<Rightarrow> string" where
  "abspath cwd s =
     normpath (if take 1 s = ''/'' then s
               else if cwd = [] \<or> last cwd = CHR ''/'' then cwd @ s else cwd @ ''/'' @ s)"

section \<open>The guard\<close>

text \<open>
  The file system: \<open>Path.resolve(strict=True)\<close>, whether \<open>lstat\<close> finds a symbolic link, and \<open>is_dir\<close>. An
  \<open>OSError\<close> carries its number and its text; the queries raise \<open>ValueError\<close> on an embedded null byte.
\<close>

datatype fs_error = FileNotFound | RuntimeErr | ValueErr | OsErr int string

record filesystem =
  fs_resolve :: "ppath \<Rightarrow> fs_error + ppath"
  fs_lstat_link :: "ppath \<Rightarrow> fs_error + bool"
  fs_is_dir :: "ppath \<Rightarrow> bool"

definition ENOTDIR :: int where "ENOTDIR = 20"
definition ENAMETOOLONG :: int where "ENAMETOOLONG = 36"
definition ELOOP :: int where "ELOOP = 40"

datatype guard_error = PathGuardError (guard_message: string) (guard_code: string) | Uncaught fs_error

record ValidatedPath =
  v_requested_path :: string
  v_normalized_path :: ppath
  v_resolved_parent_path :: ppath
  v_allowed_root :: ppath
  v_scope_kind :: string
  v_scope_id :: string

definition normalize_candidate_path :: "string \<Rightarrow> ppath \<Rightarrow> guard_error + (string \<times> ppath)" where
  "normalize_candidate_path requested_text root =
     (if CHR 0x00 \<in> set requested_text
      then Inl (PathGuardError (''Requested path contains a null byte: '' @ repr_str requested_text)
             ''PATH_GUARD_NULL_BYTE'')
      else
        (let raw_candidate = parse_path requested_text;
             base = (if is_absolute raw_candidate then raw_candidate else path_join root raw_candidate)
         in Inr (requested_text, parse_path (normpath (path_str base)))))"

definition is_within :: "ppath \<Rightarrow> ppath \<Rightarrow> bool" where
  "is_within candidate root = (pp_root candidate = pp_root root \<and> prefix (pp_parts root) (pp_parts candidate))"

function resolve_walk :: "filesystem \<Rightarrow> ppath \<Rightarrow> string list \<Rightarrow> ppath \<Rightarrow> guard_error + ppath" where
  "resolve_walk fs path tail current =
     (case fs_resolve fs current of
        Inr resolved_current \<Rightarrow> Inr (resolved_current\<lparr>pp_parts := pp_parts resolved_current @ rev tail\<rparr>)
      | Inl FileNotFound \<Rightarrow>
        (case fs_lstat_link fs current of
           Inl (OsErr n t) \<Rightarrow> Inl (Uncaught (OsErr n t))
         | Inl RuntimeErr \<Rightarrow> Inl (Uncaught RuntimeErr)
         | Inl ValueErr \<Rightarrow> Inl (Uncaught ValueErr)
         | Inr True \<Rightarrow> Inl (PathGuardError
             (''Dangling symlink blocks containment verification: '' @ path_str current) ''PATH_GUARD_DANGLING_SYMLINK'')
         | _ \<Rightarrow>
           if pp_parts current = []
           then Inl (PathGuardError (''Could not resolve an existing ancestor for: '' @ path_str path)
                  ''PATH_GUARD_UNVERIFIABLE'')
           else resolve_walk fs path (tail @ [path_name current]) (path_parent current))
      | Inl ValueErr \<Rightarrow> Inl (Uncaught ValueErr)
      | Inl RuntimeErr \<Rightarrow>
        Inl (PathGuardError (''Symlink loop detected while resolving: '' @ path_str current) ''PATH_GUARD_SYMLINK_LOOP'')
      | Inl (OsErr n t) \<Rightarrow>
        if n \<in> {ENOTDIR, ENAMETOOLONG}
        then if pp_parts current = []
             then Inl (PathGuardError (''Could not resolve an existing ancestor for: '' @ path_str path)
                    ''PATH_GUARD_UNVERIFIABLE'')
             else resolve_walk fs path (tail @ [path_name current]) (path_parent current)
        else if n = ELOOP
        then Inl (PathGuardError (''Symlink loop detected while resolving: '' @ path_str current)
               ''PATH_GUARD_SYMLINK_LOOP'')
        else Inl (PathGuardError (''Failed to verify path containment ('' @ t @ ''): '' @ path_str current)
               ''PATH_GUARD_UNVERIFIABLE''))"
  by pat_completeness auto
termination
  by (relation "measure (\<lambda>(_, _, _, current). length (pp_parts current))")
    (auto simp: path_parent_def length_greater_0_conv)

declare resolve_walk.simps [simp del]

definition resolve_deepest_existing :: "filesystem \<Rightarrow> ppath \<Rightarrow> guard_error + ppath" where
  "resolve_deepest_existing fs path = resolve_walk fs path [] path"

definition validate_write_path ::
    "filesystem \<Rightarrow> string \<Rightarrow> string \<Rightarrow> string \<Rightarrow> string \<Rightarrow> string \<Rightarrow> guard_error + ValidatedPath" where
  "validate_write_path fs cwd requested_path allowed_root scope_kind scope_id =
     (let normalized_scope_id = strip scope_id; raw_root = parse_path allowed_root in
      if normalized_scope_id = []
      then Inl (PathGuardError ''scope_id must be a non-empty string'' ''PATH_GUARD_INVALID_SCOPE_ID'')
      else if strip (path_str raw_root) = []
      then Inl (PathGuardError ''allowed_root must be a non-empty path'' ''PATH_GUARD_INVALID_ALLOWED_ROOT'')
      else
        (let lexical_root = parse_path (abspath cwd (path_str raw_root)) in
         case fs_resolve fs raw_root of
           Inl FileNotFound \<Rightarrow>
             Inl (PathGuardError (''allowed_root does not exist: '' @ path_str raw_root)
               ''PATH_GUARD_ALLOWED_ROOT_NOT_FOUND'')
         | Inl (OsErr n t) \<Rightarrow>
             Inl (PathGuardError (''failed to resolve allowed_root: '' @ path_str raw_root) ''PATH_GUARD_UNVERIFIABLE'')
         | Inl RuntimeErr \<Rightarrow> Inl (Uncaught RuntimeErr)
         | Inl ValueErr \<Rightarrow> Inl (Uncaught ValueErr)
         | Inr resolved_root \<Rightarrow>
           if \<not> fs_is_dir fs resolved_root
           then Inl (PathGuardError (''allowed_root is not a directory: '' @ path_str resolved_root)
                  ''PATH_GUARD_ALLOWED_ROOT_NOT_DIRECTORY'')
           else
             (case normalize_candidate_path requested_path lexical_root of
                Inl e \<Rightarrow> Inl e
              | Inr (requested_text, normalized_path) \<Rightarrow>
                if \<not> is_within normalized_path lexical_root
                then Inl (PathGuardError (''Path escapes allowed root: '' @ repr_str requested_text)
                       ''PATH_GUARD_PATH_TRAVERSAL'')
                else
                  (case resolve_deepest_existing fs normalized_path of
                     Inl e \<Rightarrow> Inl e
                   | Inr resolved_candidate \<Rightarrow>
                     if \<not> is_within resolved_candidate resolved_root
                     then Inl (PathGuardError
                            (''Path escapes allowed root via symlink resolution: '' @ repr_str requested_text)
                            ''PATH_GUARD_SYMLINK_ESCAPE'')
                     else Inr \<lparr>v_requested_path = requested_text, v_normalized_path = normalized_path,
                            v_resolved_parent_path = path_parent resolved_candidate,
                            v_allowed_root = resolved_root, v_scope_kind = scope_kind,
                            v_scope_id = normalized_scope_id\<rparr>))))"

section \<open>Lexical lemmas\<close>

text \<open>A component as normalisation leaves it: a name, neither empty nor a dot, without a slash.\<close>

definition plain_comp :: "string \<Rightarrow> bool" where
  "plain_comp c \<longleftrightarrow> c \<noteq> [] \<and> c \<noteq> ''.'' \<and> CHR ''/'' \<notin> set c"

lemma split_slash_no_slash: "c \<in> set (split_slash s) \<Longrightarrow> CHR ''/'' \<notin> set c"
  by (induction s arbitrary: c) (auto split: list.splits if_splits)

lemma norm_comps_cases:
  obtains (skip) "c = [] \<or> c = ''.''" "norm_comps absolute acc (c # cs) = norm_comps absolute acc cs"
  | (push) "c \<noteq> []" "c \<noteq> ''.''" "c \<noteq> ''..'' \<or> (\<not> absolute \<and> acc = []) \<or> (acc \<noteq> [] \<and> last acc = ''..'')"
      "norm_comps absolute acc (c # cs) = norm_comps absolute (acc @ [c]) cs"
  | (pop) "c = ''..''" "norm_comps absolute acc (c # cs) = norm_comps absolute (butlast acc) cs"
  by (cases "c = [] \<or> c = ''.''";
      cases "c \<noteq> ''..'' \<or> (\<not> absolute \<and> acc = []) \<or> (acc \<noteq> [] \<and> last acc = ''..'')") auto

lemma norm_comps_plain:
  "(\<forall>c \<in> set acc. plain_comp c) \<Longrightarrow> (\<forall>c \<in> set cs. CHR ''/'' \<notin> set c) \<Longrightarrow>
    \<forall>c \<in> set (norm_comps absolute acc cs). plain_comp c"
proof (induction cs arbitrary: acc)
  case (Cons d cs)
  have cs: "\<forall>c \<in> set cs. CHR ''/'' \<notin> set c" and d: "CHR ''/'' \<notin> set d" using Cons.prems(2) by simp_all
  show ?case
  proof (cases rule: norm_comps_cases [of d absolute acc cs])
    case skip
    then show ?thesis using Cons.IH [OF Cons.prems(1) cs] by (simp only:)
  next
    case push
    have "\<forall>c \<in> set (acc @ [d]). plain_comp c" using Cons.prems(1) push(1,2) d by (auto simp: plain_comp_def)
    then show ?thesis using Cons.IH [OF _ cs] push(4) by (simp only:)
  next
    case pop
    have "\<forall>c \<in> set (butlast acc). plain_comp c" using Cons.prems(1) by (auto dest: in_set_butlastD)
    then show ?thesis using Cons.IH [OF _ cs] pop(2) by (simp only:)
  qed
qed simp

lemma norm_comps_no_up:
  "''..'' \<notin> set acc \<Longrightarrow> ''..'' \<notin> set (norm_comps True acc cs)"
proof (induction cs arbitrary: acc)
  case (Cons d cs)
  show ?case
  proof (cases rule: norm_comps_cases [of d True acc cs])
    case skip
    show ?thesis unfolding skip(2) by (rule Cons.IH [OF Cons.prems])
  next
    case push
    have "d \<noteq> ''..''" using push(3) Cons.prems last_in_set by metis
    then have "''..'' \<notin> set (acc @ [d])" using Cons.prems by auto
    then show ?thesis unfolding push(4) by (rule Cons.IH)
  next
    case pop
    have "''..'' \<notin> set (butlast acc)" using Cons.prems by (auto dest: in_set_butlastD)
    then show ?thesis unfolding pop(2) by (rule Cons.IH)
  qed
qed simp

text \<open>Splitting what was joined.\<close>

lemma split_slash_append: "CHR ''/'' \<notin> set c \<Longrightarrow> split_slash (c @ CHR ''/'' # s) = c # split_slash s"
  by (induction c) auto

lemma split_slash_single: "CHR ''/'' \<notin> set c \<Longrightarrow> split_slash c = [c]"
  by (induction c) auto

lemma split_join:
  "cs \<noteq> [] \<Longrightarrow> \<forall>c \<in> set cs. CHR ''/'' \<notin> set c \<Longrightarrow> split_slash (join_with ''/'' cs) = cs"
proof (induction cs rule: induct_list012)
  case (3 x y zs)
  then have "split_slash (x @ CHR ''/'' # join_with ''/'' (y # zs)) = x # split_slash (join_with ''/'' (y # zs))"
    by (intro split_slash_append) simp
  with 3 show ?case by simp
qed (simp_all add: split_slash_single)

lemma join_hd_plain: "cs \<noteq> [] \<Longrightarrow> \<forall>c \<in> set cs. plain_comp c \<Longrightarrow> \<exists>d ds. join_with ''/'' cs = d # ds \<and> d \<noteq> CHR ''/''"
  by (induction cs rule: induct_list012) (auto simp: plain_comp_def neq_Nil_conv)

text \<open>Parsing the text of a rooted path of plain components gives the path back.\<close>

lemma parse_rooted:
  assumes "\<forall>c \<in> set cs. plain_comp c" "r \<in> {''/'', ''//''}"
  shows "parse_path (r @ join_with ''/'' cs) = \<lparr>pp_root = r, pp_parts = cs\<rparr>"
proof -
  have ns: "\<forall>c \<in> set cs. CHR ''/'' \<notin> set c" using assms(1) by (simp add: plain_comp_def)
  have keep: "filter (\<lambda>p. p \<noteq> [] \<and> p \<noteq> ''.'') cs = cs"
    using assms(1) by (simp add: plain_comp_def)
  show ?thesis
  proof (cases "cs = []")
    case True
    with assms(2) show ?thesis by (auto simp: parse_path_def lead_slashes_def)
  next
    case False
    obtain d ds where j: "join_with ''/'' cs = d # ds" "d \<noteq> CHR ''/''" using join_hd_plain [OF False assms(1)] by blast
    have "split_slash (r @ join_with ''/'' cs) = replicate (length r) [] @ cs"
      using assms(2) split_join [OF False ns] by auto
    moreover have "lead_slashes (r @ join_with ''/'' cs) = r"
      using assms(2) j by (auto simp: lead_slashes_def)
    ultimately show ?thesis using keep by (simp add: parse_path_def)
  qed
qed

lemma parse_path_plain: "\<forall>c \<in> set (pp_parts (parse_path s)). plain_comp c"
  using split_slash_no_slash by (auto simp: parse_path_def plain_comp_def)

lemma lead_slashes_cases: "lead_slashes s = [] \<or> lead_slashes s \<in> {''/'', ''//''}"
  by (simp add: lead_slashes_def)

lemma lead_slashes_path_str:
  assumes "\<forall>c \<in> set (pp_parts p). plain_comp c" "pp_root p \<in> {''/'', ''//''}"
  shows "lead_slashes (path_str p) = pp_root p"
proof -
  have "parse_path (path_str p) = p"
    using parse_rooted [OF assms] assms(2) by (auto simp: path_str_def)
  then show ?thesis by (metis parse_path_def ppath.select_convs(1))
qed

lemma parse_normpath:
  assumes "lead_slashes s \<noteq> []"
  shows "pp_root (parse_path (normpath s)) = lead_slashes s" "''..'' \<notin> set (pp_parts (parse_path (normpath s)))"
proof -
  let ?cs = "norm_comps True [] (split_slash s)"
  have "\<forall>c \<in> set ?cs. plain_comp c"
    using norm_comps_plain [of "[]" "split_slash s" True] split_slash_no_slash by auto
  moreover have "lead_slashes s \<in> {''/'', ''//''}" using lead_slashes_cases [of s] assms by blast
  ultimately have "parse_path (lead_slashes s @ join_with ''/'' ?cs) = \<lparr>pp_root = lead_slashes s, pp_parts = ?cs\<rparr>"
    by (rule parse_rooted)
  moreover have "normpath s = lead_slashes s @ join_with ''/'' ?cs"
    using assms by (auto simp: normpath_def Let_def lead_slashes_def)
  ultimately show "pp_root (parse_path (normpath s)) = lead_slashes s"
    "''..'' \<notin> set (pp_parts (parse_path (normpath s)))"
    using norm_comps_no_up [of "[]" "split_slash s"] by simp_all
qed

lemma lexical_root_absolute:
  assumes "take 1 cwd = ''/''"
  shows "pp_root (parse_path (abspath cwd s)) \<in> {''/'', ''//''}"
proof -
  have "take 1 (if take 1 s = ''/'' then s else if cwd = [] \<or> last cwd = CHR ''/'' then cwd @ s else cwd @ ''/'' @ s) = ''/''"
    using assms by (cases cwd) auto
  then have "lead_slashes (if take 1 s = ''/'' then s else if cwd = [] \<or> last cwd = CHR ''/'' then cwd @ s else cwd @ ''/'' @ s) \<noteq> []"
    by (simp add: lead_slashes_def)
  from parse_normpath(1) [OF this] this show ?thesis
    unfolding abspath_def using lead_slashes_cases by metis
qed

lemma normalized_no_up:
  assumes "pp_root root \<in> {''/'', ''//''}" "\<forall>c \<in> set (pp_parts root). plain_comp c"
    "normalize_candidate_path req root = Inr (text1, p)"
  shows "''..'' \<notin> set (pp_parts p)" "CHR 0x00 \<notin> set req" "text1 = req"
proof -
  let ?raw = "parse_path req"
  let ?base = "if is_absolute ?raw then ?raw else path_join root ?raw"
  have p: "p = parse_path (normpath (path_str ?base))"
    using assms(3) by (auto simp: normalize_candidate_path_def Let_def split: if_splits)
  have "pp_root ?base \<in> {''/'', ''//''}"
    using assms(1) lead_slashes_cases [of req] by (auto simp: is_absolute_def path_join_def parse_path_def)
  moreover have "\<forall>c \<in> set (pp_parts ?base). plain_comp c"
    using assms(2) parse_path_plain [of req] by (auto simp: path_join_def)
  ultimately have "lead_slashes (path_str ?base) \<noteq> []" using lead_slashes_path_str by auto
  then show "''..'' \<notin> set (pp_parts p)" unfolding p by (rule parse_normpath(2))
  show "CHR 0x00 \<notin> set req" "text1 = req"
    using assms(3) by (auto simp: normalize_candidate_path_def Let_def split: if_splits)
qed

section \<open>The upward walk\<close>

definition at_depth :: "ppath \<Rightarrow> nat \<Rightarrow> ppath" where
  "at_depth p k = p\<lparr>pp_parts := take k (pp_parts p)\<rparr>"

lemma at_depth_full: "length (pp_parts p) \<le> k \<Longrightarrow> at_depth p k = p"
  by (cases p) (simp add: at_depth_def)

text \<open>A path the walk may step over: it does not exist (and is no dangling link), or cannot be a directory.\<close>

definition missing :: "filesystem \<Rightarrow> ppath \<Rightarrow> bool" where
  "missing fs p \<longleftrightarrow>
     fs_resolve fs p = Inl FileNotFound \<and> fs_lstat_link fs p \<in> {Inl FileNotFound, Inr False} \<or>
     (\<exists>n t. fs_resolve fs p = Inl (OsErr n t) \<and> n \<in> {ENOTDIR, ENAMETOOLONG})"

lemma resolve_walk_step:
  assumes "resolve_walk fs path tail current = Inr q"
  shows "(\<exists>b. fs_resolve fs current = Inr b \<and> q = b\<lparr>pp_parts := pp_parts b @ rev tail\<rparr>) \<or>
    missing fs current \<and> pp_parts current \<noteq> [] \<and>
      resolve_walk fs path (tail @ [path_name current]) (path_parent current) = Inr q"
  using assms unfolding resolve_walk.simps [of fs path tail current] missing_def
  by (auto split: sum.splits fs_error.splits bool.splits if_splits)

lemma resolve_walk_Inr:
  "resolve_walk fs path tail current = Inr q \<Longrightarrow>
   \<exists>k b. k \<le> length (pp_parts current) \<and> fs_resolve fs (at_depth current k) = Inr b \<and>
     q = b\<lparr>pp_parts := pp_parts b @ drop k (pp_parts current) @ rev tail\<rparr> \<and>
     (\<forall>j. k < j \<and> j \<le> length (pp_parts current) \<longrightarrow> missing fs (at_depth current j))"
proof (induction "length (pp_parts current)" arbitrary: tail current)
  case 0
  with resolve_walk_step [OF 0(2)] show ?case by (intro exI [of _ 0]) (auto simp: at_depth_full)
next
  case (Suc n)
  let ?ps = "pp_parts current"
  from resolve_walk_step [OF Suc.prems] show ?case
  proof (elim disjE)
    assume "\<exists>b. fs_resolve fs current = Inr b \<and> q = b\<lparr>pp_parts := pp_parts b @ rev tail\<rparr>"
    then show ?thesis by (intro exI [of _ "length ?ps"]) (auto simp: at_depth_def)
  next
    assume m: "missing fs current \<and> ?ps \<noteq> [] \<and>
      resolve_walk fs path (tail @ [path_name current]) (path_parent current) = Inr q"
    have len: "length (pp_parts (path_parent current)) = n" using Suc(2) by (simp add: path_parent_def)
    from Suc(1) [OF len [symmetric]] m obtain k b where k: "k \<le> n" "fs_resolve fs (at_depth (path_parent current) k) = Inr b"
      "q = b\<lparr>pp_parts := pp_parts b @ drop k (pp_parts (path_parent current)) @ rev (tail @ [path_name current])\<rparr>"
      "\<forall>j. k < j \<and> j \<le> n \<longrightarrow> missing fs (at_depth (path_parent current) j)" unfolding len by blast
    have at: "at_depth (path_parent current) j = at_depth current j" if "j \<le> n" for j
      using that Suc(2) by (simp add: at_depth_def path_parent_def take_butlast)
    have snoc: "?ps = butlast ?ps @ [path_name current]" using m by (simp add: path_name_def)
    have "drop k ?ps = drop k (butlast ?ps) @ [path_name current]"
      using k(1) Suc(2) by (subst snoc) simp
    then have "q = b\<lparr>pp_parts := pp_parts b @ drop k ?ps @ rev tail\<rparr>"
      using k(3) by (simp add: path_parent_def)
    moreover have "missing fs (at_depth current j)" if "k < j" "j \<le> Suc n" for j
      using that k(4) at m Suc(2) by (cases "j = Suc n") (auto simp: at_depth_def)
    ultimately show ?thesis using k(1,2) at Suc(2) by (intro exI [of _ k] exI [of _ b]) auto
  qed
qed

section \<open>Properties\<close>

lemma validate_Inr:
  assumes "validate_write_path fs cwd req root kind sid = Inr v"
  obtains resolved_root cand where
    "normalize_candidate_path req (parse_path (abspath cwd (path_str (parse_path root)))) =
      Inr (v_requested_path v, v_normalized_path v)"
    "fs_resolve fs (parse_path root) = Inr resolved_root" "fs_is_dir fs resolved_root"
    "is_within (v_normalized_path v) (parse_path (abspath cwd (path_str (parse_path root))))"
    "resolve_walk fs (v_normalized_path v) [] (v_normalized_path v) = Inr cand" "is_within cand resolved_root"
    "v_allowed_root v = resolved_root" "v_resolved_parent_path v = path_parent cand" "v_scope_id v = strip sid" "strip sid \<noteq> []"
proof -
  from assms obtain resolved_root text1 p cand where r:
    "fs_resolve fs (parse_path root) = Inr resolved_root" "fs_is_dir fs resolved_root" "strip sid \<noteq> []"
    "normalize_candidate_path req (parse_path (abspath cwd (path_str (parse_path root)))) = Inr (text1, p)"
    "is_within p (parse_path (abspath cwd (path_str (parse_path root))))"
    "resolve_walk fs p [] p = Inr cand" "is_within cand resolved_root"
    "v = \<lparr>v_requested_path = text1, v_normalized_path = p, v_resolved_parent_path = path_parent cand,
        v_allowed_root = resolved_root, v_scope_kind = kind, v_scope_id = strip sid\<rparr>"
    unfolding validate_write_path_def Let_def resolve_deepest_existing_def
    by (auto split: if_splits sum.splits fs_error.splits)
  then show ?thesis by (intro that [of resolved_root cand]) simp_all
qed

text \<open>
  C12. Containment: when the guard accepts a write path, its normal form extends the lexical root
  downwards with no upward step, and its real place, found by resolving the deepest ancestor that exists
  and appending the part that does not exist yet, lies below the resolved root, which is a directory;
  every ancestor skipped on the way is a missing path and no dangling link.
\<close>

theorem accepted_path_contained:
  assumes "take 1 cwd = ''/''" "validate_write_path fs cwd req root kind sid = Inr v"
  defines "lexical \<equiv> parse_path (abspath cwd (path_str (parse_path root)))"
  shows "(\<exists>rest. pp_parts (v_normalized_path v) = pp_parts lexical @ rest \<and> ''..'' \<notin> set rest) \<and>
    fs_resolve fs (parse_path root) = Inr (v_allowed_root v) \<and> fs_is_dir fs (v_allowed_root v) \<and>
    (\<exists>k b below. fs_resolve fs (at_depth (v_normalized_path v) k) = Inr b \<and>
      pp_root b = pp_root (v_allowed_root v) \<and>
      pp_parts b @ drop k (pp_parts (v_normalized_path v)) = pp_parts (v_allowed_root v) @ below \<and>
      (\<forall>j. k < j \<and> j \<le> length (pp_parts (v_normalized_path v)) \<longrightarrow> missing fs (at_depth (v_normalized_path v) j)))"
  using assms(2)
proof (rule validate_Inr)
  fix resolved_root cand
  assume a: "normalize_candidate_path req (parse_path (abspath cwd (path_str (parse_path root)))) =
      Inr (v_requested_path v, v_normalized_path v)"
    and root: "fs_resolve fs (parse_path root) = Inr resolved_root" "fs_is_dir fs resolved_root"
    and lex: "is_within (v_normalized_path v) (parse_path (abspath cwd (path_str (parse_path root))))"
    and walk: "resolve_walk fs (v_normalized_path v) [] (v_normalized_path v) = Inr cand" "is_within cand resolved_root"
    and v: "v_allowed_root v = resolved_root"
  have "''..'' \<notin> set (pp_parts (v_normalized_path v))"
    using normalized_no_up(1) [OF lexical_root_absolute [OF assms(1)] _ a]
    using parse_path_plain by blast
  moreover obtain rest where "pp_parts (v_normalized_path v) = pp_parts lexical @ rest"
    using lex unfolding lexical_def is_within_def prefix_def by blast
  moreover obtain k b where kb: "fs_resolve fs (at_depth (v_normalized_path v) k) = Inr b"
      "cand = b\<lparr>pp_parts := pp_parts b @ drop k (pp_parts (v_normalized_path v))\<rparr>"
      "\<forall>j. k < j \<and> j \<le> length (pp_parts (v_normalized_path v)) \<longrightarrow> missing fs (at_depth (v_normalized_path v) j)"
    using resolve_walk_Inr [OF walk(1)] by auto
  moreover obtain below where "pp_parts b @ drop k (pp_parts (v_normalized_path v)) = pp_parts resolved_root @ below"
    "pp_root b = pp_root resolved_root"
    using walk(2) unfolding kb(2) is_within_def prefix_def by auto
  ultimately have "\<exists>k b below. fs_resolve fs (at_depth (v_normalized_path v) k) = Inr b \<and>
      pp_root b = pp_root resolved_root \<and>
      pp_parts b @ drop k (pp_parts (v_normalized_path v)) = pp_parts resolved_root @ below \<and>
      (\<forall>j. k < j \<and> j \<le> length (pp_parts (v_normalized_path v)) \<longrightarrow> missing fs (at_depth (v_normalized_path v) j))"
    by blast
  with \<open>''..'' \<notin> set (pp_parts (v_normalized_path v))\<close> \<open>pp_parts (v_normalized_path v) = pp_parts lexical @ rest\<close> root v
  show ?thesis by auto
qed

definition demo_fs :: filesystem where
  "demo_fs = \<lparr>fs_resolve = (\<lambda>p. if pp_parts p \<in> {[], [''r''], [''r'', ''d'']} then Inr p else Inl FileNotFound),
     fs_lstat_link = (\<lambda>p. Inl FileNotFound), fs_is_dir = (\<lambda>p. True)\<rparr>"

lemma demo_validate:
  "validate_write_path demo_fs ''/home'' ''d/../d/x.txt'' ''/r'' ''thread'' ''t1'' =
     Inr \<lparr>v_requested_path = ''d/../d/x.txt'', v_normalized_path = \<lparr>pp_root = ''/'', pp_parts = [''r'', ''d'', ''x.txt'']\<rparr>,
       v_resolved_parent_path = \<lparr>pp_root = ''/'', pp_parts = [''r'', ''d'']\<rparr>,
       v_allowed_root = \<lparr>pp_root = ''/'', pp_parts = [''r'']\<rparr>, v_scope_kind = ''thread'', v_scope_id = ''t1''\<rparr>"
  by code_simp

theorem accepted_path_contained_witness:
  "\<exists>rest. [''r'', ''d'', ''x.txt''] = pp_parts (parse_path (abspath ''/home'' (path_str (parse_path ''/r'')))) @ rest \<and>
     ''..'' \<notin> set rest"
  using accepted_path_contained [OF _ demo_validate] by simp

text \<open>
  The guard reports every refusal as its own error; another exception leaves it only when resolving
  the root itself runs into a loop or an embedded null byte, when a path it walks up has such a byte, or
  when the inspection of a missing ancestor fails.
\<close>

theorem guard_errors_are_its_own:
  assumes "validate_write_path fs cwd req root kind sid = Inl (Uncaught e)"
  shows "fs_resolve fs (parse_path root) = Inl e \<and> e \<in> {RuntimeErr, ValueErr} \<or>
    (\<exists>p. fs_resolve fs p = Inl ValueErr \<and> e = ValueErr) \<or>
    (\<exists>p. fs_resolve fs p = Inl FileNotFound \<and> fs_lstat_link fs p = Inl e \<and> e \<noteq> FileNotFound)"
proof -
  have walk: "(\<exists>p. fs_resolve fs p = Inl ValueErr \<and> e = ValueErr) \<or>
      (\<exists>p. fs_resolve fs p = Inl FileNotFound \<and> fs_lstat_link fs p = Inl e \<and> e \<noteq> FileNotFound)"
    if "resolve_walk fs path tail current = Inl (Uncaught e)" for path tail current
    using that
  proof (induction fs path tail current rule: resolve_walk.induct)
    case (1 fs path tail current)
    then show ?case
      unfolding resolve_walk.simps [of fs path tail current]
      by (auto split: sum.splits fs_error.splits bool.splits if_splits)
  qed
  show ?thesis
    using assms walk
    by (auto simp: validate_write_path_def Let_def resolve_deepest_existing_def normalize_candidate_path_def
        split: if_splits sum.splits fs_error.splits)
qed

definition demo_loop_fs :: filesystem where
  "demo_loop_fs = demo_fs\<lparr>fs_resolve := (\<lambda>p. Inl RuntimeErr)\<rparr>"

theorem guard_errors_are_its_own_witness:
  "validate_write_path demo_loop_fs ''/home'' ''x'' ''/r'' ''thread'' ''t1'' = Inl (Uncaught RuntimeErr) \<and>
   (fs_resolve demo_loop_fs (parse_path ''/r'') = Inl RuntimeErr \<and> RuntimeErr \<in> {RuntimeErr, ValueErr} \<or>
    (\<exists>p. fs_resolve demo_loop_fs p = Inl ValueErr \<and> RuntimeErr = ValueErr) \<or>
    (\<exists>p. fs_resolve demo_loop_fs p = Inl FileNotFound \<and> fs_lstat_link demo_loop_fs p = Inl RuntimeErr \<and>
      RuntimeErr \<noteq> FileNotFound))"
proof -
  have "validate_write_path demo_loop_fs ''/home'' ''x'' ''/r'' ''thread'' ''t1'' = Inl (Uncaught RuntimeErr)"
    by code_simp
  with guard_errors_are_its_own [OF this] show ?thesis by blast
qed

end
