(* ===== verification/Permission_Profiles.thy ===== *)
theory Permission_Profiles
  imports Path_Guard
begin

text \<open>
  Model of \<^verbatim>\<open>guardian/command_bus/permission_profiles.py\<close>: the decision whether a command may run under a
  permission profile, with the path guard as its check of write paths. The main result is that a request
  is allowed exactly when it meets every condition of the profile, so a denial always wins.
\<close>

record PermissionProfile =
  pf_profile_id :: string
  pf_actor_id :: string
  pf_subject_id :: string
  pf_task_id :: string
  pf_project_id :: "string option"
  pf_thread_id :: "string option"
  pf_allowed_command_classes :: "string list"
  pf_denied_command_classes :: "string list"
  pf_allowed_command_ids :: "string list"
  pf_denied_command_ids :: "string list"
  pf_filesystem_access :: string
  pf_allowed_write_roots :: "string list"
  pf_shell_allowed :: bool
  pf_shell_read_only :: bool
  pf_allowed_shell_commands :: "string list"
  pf_network_allowed :: bool
  pf_connector_allowed :: bool

record PermissionProfileRequest =
  rq_actor_id :: string
  rq_subject_id :: string
  rq_task_id :: string
  rq_command_id :: string
  rq_command_class :: string
  rq_project_id :: "string option"
  rq_thread_id :: "string option"
  rq_requested_write_paths :: "string list"
  rq_uses_shell :: bool
  rq_shell_command :: "string option"
  rq_shell_mutates :: bool
  rq_uses_network :: bool
  rq_uses_connector :: bool

record PermissionProfileDecision =
  dc_allowed :: bool
  dc_code :: string
  dc_reason :: string

definition deny :: "string \<Rightarrow> string \<Rightarrow> PermissionProfileDecision" where
  "deny code reason = \<lparr>dc_allowed = False, dc_code = code, dc_reason = reason\<rparr>"

definition required_value :: "string option \<Rightarrow> string option" where
  "required_value value = or_none (strip (case value of None \<Rightarrow> [] | Some s \<Rightarrow> s))"

text \<open>\<open>{value.strip() for value in values if value.strip()}\<close>.\<close>

definition name_set :: "string list \<Rightarrow> string set" where
  "name_set vals = set (filter (\<lambda>v. v \<noteq> []) (map strip vals))"

definition resolve_path_scope :: "PermissionProfile \<Rightarrow> string \<times> string" where
  "resolve_path_scope profile =
     (case pf_thread_id profile of
        Some (c # cs) \<Rightarrow> (''thread'', c # cs)
      | _ \<Rightarrow> (case pf_project_id profile of
          Some (c # cs) \<Rightarrow> (''project'', c # cs)
        | _ \<Rightarrow> (''sandbox'', pf_task_id profile)))"

text \<open>The loop over the roots: a guard error goes on to the next root, any other exception leaves.\<close>

fun within_roots :: "filesystem \<Rightarrow> string \<Rightarrow> string \<times> string \<Rightarrow> string list \<Rightarrow> string \<Rightarrow> fs_error + bool" where
  "within_roots fs cwd scope [] requested_path = Inr False"
| "within_roots fs cwd scope (allowed_root # roots) requested_path =
     (case validate_write_path fs cwd requested_path allowed_root (fst scope) (snd scope) of
        Inr _ \<Rightarrow> Inr True
      | Inl (PathGuardError _ _) \<Rightarrow> within_roots fs cwd scope roots requested_path
      | Inl (Uncaught e) \<Rightarrow> Inl e)"

definition is_path_within_allowed_roots ::
    "filesystem \<Rightarrow> string \<Rightarrow> PermissionProfile \<Rightarrow> string \<Rightarrow> fs_error + bool" where
  "is_path_within_allowed_roots fs cwd profile requested_path =
     within_roots fs cwd (resolve_path_scope profile) (pf_allowed_write_roots profile) requested_path"

text \<open>The loop over the requested paths: the first one out of scope is the denial.\<close>

fun check_write_paths ::
    "filesystem \<Rightarrow> string \<Rightarrow> PermissionProfile \<Rightarrow> string list \<Rightarrow> fs_error + PermissionProfileDecision option" where
  "check_write_paths fs cwd profile [] = Inr None"
| "check_write_paths fs cwd profile (requested_path # paths) =
     (case is_path_within_allowed_roots fs cwd profile requested_path of
        Inl e \<Rightarrow> Inl e
      | Inr ok \<Rightarrow>
        if \<not> ok
        then Inr (Some (deny ''path_out_of_scope'' (''requested write path is outside scope: '' @ requested_path)))
        else check_write_paths fs cwd profile paths)"

definition check_identity :: "PermissionProfile \<Rightarrow> PermissionProfileRequest \<Rightarrow> PermissionProfileDecision option" where
  "check_identity profile request =
     (if required_value (Some (rq_actor_id request)) = None then Some (deny ''missing_actor'' ''actor_id is required'')
      else if required_value (Some (rq_subject_id request)) = None
      then Some (deny ''missing_subject'' ''subject_id is required'')
      else if required_value (Some (rq_task_id request)) = None then Some (deny ''missing_task'' ''task_id is required'')
      else if required_value (Some (rq_command_id request)) = None
      then Some (deny ''missing_command_id'' ''command_id is required'')
      else if required_value (Some (rq_command_class request)) = None
      then Some (deny ''missing_command_class'' ''command_class is required'')
      else if required_value (Some (rq_actor_id request)) \<noteq> required_value (Some (pf_actor_id profile))
      then Some (deny ''actor_mismatch'' ''request actor_id does not match profile'')
      else if required_value (Some (rq_subject_id request)) \<noteq> required_value (Some (pf_subject_id profile))
      then Some (deny ''subject_mismatch'' ''request subject_id does not match profile'')
      else if required_value (Some (rq_task_id request)) \<noteq> required_value (Some (pf_task_id profile))
      then Some (deny ''task_mismatch'' ''request task_id does not match profile'')
      else if pf_project_id profile \<noteq> None \<and> rq_project_id request \<noteq> pf_project_id profile
      then Some (deny ''project_scope_mismatch'' ''request project_id is outside profile scope'')
      else if pf_thread_id profile \<noteq> None \<and> rq_thread_id request \<noteq> pf_thread_id profile
      then Some (deny ''thread_scope_mismatch'' ''request thread_id is outside profile scope'')
      else None)"

definition check_command :: "PermissionProfile \<Rightarrow> PermissionProfileRequest \<Rightarrow> PermissionProfileDecision option" where
  "check_command profile request =
     (let command_id = strip (rq_command_id request); command_class = strip (rq_command_class request) in
      if command_id \<in> name_set (pf_denied_command_ids profile)
      then Some (deny ''command_id_denied'' ''command_id is denied by profile'')
      else if command_class \<in> name_set (pf_denied_command_classes profile)
      then Some (deny ''command_class_denied'' ''command_class is denied by profile'')
      else if name_set (pf_allowed_command_ids profile) \<noteq> {} \<and> command_id \<notin> name_set (pf_allowed_command_ids profile)
      then Some (deny ''command_id_not_allowed'' ''command_id is not in profile allow list'')
      else if name_set (pf_allowed_command_classes profile) \<noteq> {} \<and>
        command_class \<notin> name_set (pf_allowed_command_classes profile)
      then Some (deny ''command_class_not_allowed'' ''command_class is not in profile allow list'')
      else None)"

definition check_writes ::
    "filesystem \<Rightarrow> string \<Rightarrow> PermissionProfile \<Rightarrow> PermissionProfileRequest \<Rightarrow>
      fs_error + PermissionProfileDecision option" where
  "check_writes fs cwd profile request =
     (if rq_requested_write_paths request = [] then Inr None
      else if pf_filesystem_access profile \<noteq> ''write_scoped''
      then Inr (Some (deny ''filesystem_denied'' ''filesystem write access is not write_scoped''))
      else if pf_allowed_write_roots profile = []
      then Inr (Some (deny ''filesystem_denied'' ''allowed_write_roots is required for write requests''))
      else check_write_paths fs cwd profile (rq_requested_write_paths request))"

definition check_resources :: "PermissionProfile \<Rightarrow> PermissionProfileRequest \<Rightarrow> PermissionProfileDecision option" where
  "check_resources profile request =
     (if rq_uses_shell request \<and> \<not> pf_shell_allowed profile
      then Some (deny ''shell_denied'' ''shell access is not allowed'')
      else if rq_uses_shell request \<and> name_set (pf_allowed_shell_commands profile) \<noteq> {} \<and>
        required_value (rq_shell_command request) \<notin> Some ` name_set (pf_allowed_shell_commands profile)
      then Some (deny ''shell_command_not_allowed'' ''shell command is not in profile allow list'')
      else if rq_uses_shell request \<and> pf_shell_read_only profile \<and> rq_shell_mutates request
      then Some (deny ''shell_mutation_denied'' ''shell mutation is denied in read-only shell mode'')
      else if rq_uses_network request \<and> \<not> pf_network_allowed profile
      then Some (deny ''network_denied'' ''network access is not allowed'')
      else if rq_uses_connector request \<and> \<not> pf_connector_allowed profile
      then Some (deny ''connector_denied'' ''connector access is not allowed'')
      else None)"

definition evaluate_permission_profile ::
    "filesystem \<Rightarrow> string \<Rightarrow> PermissionProfile option \<Rightarrow> PermissionProfileRequest \<Rightarrow>
      fs_error + PermissionProfileDecision" where
  "evaluate_permission_profile fs cwd profile0 request =
     (case profile0 of
        None \<Rightarrow> Inr (deny ''missing_profile'' ''permission profile is required'')
      | Some profile \<Rightarrow>
        (case check_identity profile request of
           Some d \<Rightarrow> Inr d
         | None \<Rightarrow> (case check_command profile request of
             Some d \<Rightarrow> Inr d
           | None \<Rightarrow> (case check_writes fs cwd profile request of
               Inl e \<Rightarrow> Inl e
             | Inr (Some d) \<Rightarrow> Inr d
             | Inr None \<Rightarrow> (case check_resources profile request of
                 Some d \<Rightarrow> Inr d
               | None \<Rightarrow> Inr \<lparr>dc_allowed = True, dc_code = ''allowed'',
                   dc_reason = ''request allowed by permission profile''\<rparr>)))))"

section \<open>What is allowed\<close>

text \<open>The request is the profile's: same actor, subject and task, inside its project and thread.\<close>

definition identity_ok :: "PermissionProfile \<Rightarrow> PermissionProfileRequest \<Rightarrow> bool" where
  "identity_ok p r \<longleftrightarrow>
     strip (rq_actor_id r) \<noteq> [] \<and> strip (rq_subject_id r) \<noteq> [] \<and> strip (rq_task_id r) \<noteq> [] \<and>
     strip (rq_command_id r) \<noteq> [] \<and> strip (rq_command_class r) \<noteq> [] \<and>
     strip (rq_actor_id r) = strip (pf_actor_id p) \<and> strip (rq_subject_id r) = strip (pf_subject_id p) \<and>
     strip (rq_task_id r) = strip (pf_task_id p) \<and>
     (pf_project_id p = None \<or> rq_project_id r = pf_project_id p) \<and>
     (pf_thread_id p = None \<or> rq_thread_id r = pf_thread_id p)"

definition command_ok :: "PermissionProfile \<Rightarrow> PermissionProfileRequest \<Rightarrow> bool" where
  "command_ok p r \<longleftrightarrow>
     strip (rq_command_id r) \<notin> name_set (pf_denied_command_ids p) \<and>
     strip (rq_command_class r) \<notin> name_set (pf_denied_command_classes p) \<and>
     (name_set (pf_allowed_command_ids p) = {} \<or> strip (rq_command_id r) \<in> name_set (pf_allowed_command_ids p)) \<and>
     (name_set (pf_allowed_command_classes p) = {} \<or>
        strip (rq_command_class r) \<in> name_set (pf_allowed_command_classes p))"

text \<open>Every requested path is accepted by the guard under one of the roots, after the guard refused it
  under the roots before that one.\<close>

definition root_accepts :: "filesystem \<Rightarrow> string \<Rightarrow> PermissionProfile \<Rightarrow> string \<Rightarrow> string \<Rightarrow> bool" where
  "root_accepts fs cwd p path root \<longleftrightarrow>
     (\<exists>v. validate_write_path fs cwd path root (fst (resolve_path_scope p)) (snd (resolve_path_scope p)) = Inr v)"

definition resources_ok :: "PermissionProfile \<Rightarrow> PermissionProfileRequest \<Rightarrow> bool" where
  "resources_ok p r \<longleftrightarrow>
     (rq_uses_shell r \<longrightarrow> pf_shell_allowed p \<and> \<not> (pf_shell_read_only p \<and> rq_shell_mutates r) \<and>
        (name_set (pf_allowed_shell_commands p) = {} \<or>
          required_value (rq_shell_command r) \<in> Some ` name_set (pf_allowed_shell_commands p))) \<and>
     (rq_uses_network r \<longrightarrow> pf_network_allowed p) \<and> (rq_uses_connector r \<longrightarrow> pf_connector_allowed p)"

lemma deny_not_allowed [simp]: "\<not> dc_allowed (deny c r)"
  by (simp add: deny_def)

lemma required_value_Some: "required_value (Some s) = or_none (strip s)"
  by (simp add: required_value_def)

lemma or_none_inject: "or_none s = or_none t \<longleftrightarrow> s = t"
  by (simp add: or_none_def)

lemma check_identity_None: "check_identity p r = None \<longleftrightarrow> identity_ok p r"
  unfolding check_identity_def identity_ok_def required_value_Some or_none_None or_none_inject by (simp; blast)

lemma check_command_None: "check_command p r = None \<longleftrightarrow> command_ok p r"
  unfolding check_command_def command_ok_def Let_def by simp

lemma check_resources_None: "check_resources p r = None \<longleftrightarrow> resources_ok p r"
  unfolding check_resources_def resources_ok_def by (simp; blast)

lemma within_roots_True:
  "within_roots fs cwd scope roots path = Inr True \<Longrightarrow>
     \<exists>root \<in> set roots. \<exists>v. validate_write_path fs cwd path root (fst scope) (snd scope) = Inr v"
  by (induction roots) (auto split: sum.splits guard_error.splits)

lemma check_write_paths_None:
  "check_write_paths fs cwd p paths = Inr None \<longleftrightarrow>
     (\<forall>path \<in> set paths. is_path_within_allowed_roots fs cwd p path = Inr True)"
  by (induction paths) (auto split: sum.splits)

lemma check_write_paths_Some: "check_write_paths fs cwd p paths = Inr (Some d) \<Longrightarrow> \<not> dc_allowed d"
  by (induction paths) (auto split: sum.splits if_splits)

lemma check_denials:
  "check_identity p r = Some d \<Longrightarrow> \<not> dc_allowed d" "check_command p r = Some d \<Longrightarrow> \<not> dc_allowed d"
  "check_resources p r = Some d \<Longrightarrow> \<not> dc_allowed d"
  by (auto simp: check_identity_def check_command_def check_resources_def Let_def split: if_splits)

lemma check_writes_None:
  "check_writes fs cwd p r = Inr None \<longleftrightarrow> rq_requested_write_paths r = [] \<or>
     pf_filesystem_access p = ''write_scoped'' \<and> pf_allowed_write_roots p \<noteq> [] \<and>
     (\<forall>path \<in> set (rq_requested_write_paths r). is_path_within_allowed_roots fs cwd p path = Inr True)"
  by (simp add: check_writes_def check_write_paths_None)

lemma check_writes_Some: "check_writes fs cwd p r = Inr (Some d) \<Longrightarrow> \<not> dc_allowed d"
  by (auto simp: check_writes_def split: if_splits dest: check_write_paths_Some)

lemma evaluate_allowed_iff:
  "(\<exists>d. evaluate_permission_profile fs cwd (Some p) r = Inr d \<and> dc_allowed d) \<longleftrightarrow>
     identity_ok p r \<and> command_ok p r \<and> check_writes fs cwd p r = Inr None \<and> resources_ok p r"
  unfolding evaluate_permission_profile_def check_identity_None [symmetric] check_command_None [symmetric]
    check_resources_None [symmetric]
  by (auto split: option.splits sum.splits dest: check_denials check_writes_Some)

section \<open>Properties\<close>

text \<open>
  C19. A request is allowed exactly when it has a profile, belongs to it, names a command that is on no
  deny list and on every non-empty allow list, writes only under scoped roots, and uses only the shell,
  network and connectors the profile grants; an allowed write path lies under one of the profile's roots
  as the path guard proves.
\<close>

theorem permission_decision_exact:
  "((\<exists>d. evaluate_permission_profile fs cwd p0 r = Inr d \<and> dc_allowed d) \<longleftrightarrow>
     (\<exists>p. p0 = Some p \<and> identity_ok p r \<and> command_ok p r \<and> resources_ok p r \<and>
       (rq_requested_write_paths r = [] \<or>
        pf_filesystem_access p = ''write_scoped'' \<and> pf_allowed_write_roots p \<noteq> [] \<and>
        (\<forall>path \<in> set (rq_requested_write_paths r). is_path_within_allowed_roots fs cwd p path = Inr True)))) \<and>
   (is_path_within_allowed_roots fs cwd p path = Inr True \<longrightarrow>
     (\<exists>root \<in> set (pf_allowed_write_roots p). root_accepts fs cwd p path root))"
proof (rule conjI)
  show "(\<exists>d. evaluate_permission_profile fs cwd p0 r = Inr d \<and> dc_allowed d) \<longleftrightarrow>
     (\<exists>p. p0 = Some p \<and> identity_ok p r \<and> command_ok p r \<and> resources_ok p r \<and>
       (rq_requested_write_paths r = [] \<or>
        pf_filesystem_access p = ''write_scoped'' \<and> pf_allowed_write_roots p \<noteq> [] \<and>
        (\<forall>path \<in> set (rq_requested_write_paths r). is_path_within_allowed_roots fs cwd p path = Inr True)))"
  proof (cases p0)
    case (Some p)
    show ?thesis unfolding Some evaluate_allowed_iff check_writes_None by blast
  qed (simp add: evaluate_permission_profile_def)
  show "is_path_within_allowed_roots fs cwd p path = Inr True \<longrightarrow>
     (\<exists>root \<in> set (pf_allowed_write_roots p). root_accepts fs cwd p path root)"
    using within_roots_True by (auto simp: is_path_within_allowed_roots_def root_accepts_def)
qed

definition demo_profile :: PermissionProfile where
  "demo_profile =
     \<lparr>pf_profile_id = ''p1'', pf_actor_id = ''a'', pf_subject_id = ''s'', pf_task_id = ''t'', pf_project_id = None,
      pf_thread_id = Some ''th'', pf_allowed_command_classes = [''write''], pf_denied_command_classes = [''admin''],
      pf_allowed_command_ids = [], pf_denied_command_ids = [''rm''], pf_filesystem_access = ''write_scoped'',
      pf_allowed_write_roots = [''/nowhere'', ''/r''], pf_shell_allowed = False, pf_shell_read_only = True,
      pf_allowed_shell_commands = [], pf_network_allowed = False, pf_connector_allowed = False\<rparr>"

definition demo_request :: PermissionProfileRequest where
  "demo_request =
     \<lparr>rq_actor_id = ''a'', rq_subject_id = '' s'', rq_task_id = ''t'', rq_command_id = ''doc.save'',
      rq_command_class = ''write'', rq_project_id = None, rq_thread_id = Some ''th'',
      rq_requested_write_paths = [''d/x.txt''], rq_uses_shell = False, rq_shell_command = None,
      rq_shell_mutates = False, rq_uses_network = False, rq_uses_connector = False\<rparr>"

theorem permission_decision_exact_witness:
  "identity_ok demo_profile demo_request \<and> command_ok demo_profile demo_request \<and>
   (\<exists>root. root \<in> {''/nowhere'', ''/r''} \<and> root_accepts demo_fs ''/home'' demo_profile ''d/x.txt'' root)"
proof -
  have "evaluate_permission_profile demo_fs ''/home'' (Some demo_profile) demo_request =
      Inr \<lparr>dc_allowed = True, dc_code = ''allowed'', dc_reason = ''request allowed by permission profile''\<rparr>"
    by code_simp
  then have ex: "\<exists>d. evaluate_permission_profile demo_fs ''/home'' (Some demo_profile) demo_request = Inr d \<and> dc_allowed d"
    by simp
  note t = permission_decision_exact [of demo_fs "''/home''" "Some demo_profile" demo_request demo_profile "''d/x.txt''"]
  from t [THEN conjunct1, THEN iffD1, OF ex]
  have a: "identity_ok demo_profile demo_request" "command_ok demo_profile demo_request"
    "is_path_within_allowed_roots demo_fs ''/home'' demo_profile ''d/x.txt'' = Inr True"
    by (simp_all add: demo_request_def)
  from t [THEN conjunct2, rule_format, OF a(3)] a(1,2) show ?thesis by (auto simp: demo_profile_def)
qed

end
