(* ===== verification/Commit_Gate.thy ===== *)
theory Commit_Gate
  imports Py_Base
begin

text \<open>
  Model of \<^verbatim>\<open>guardian/agents/commit_gate.py\<close>: one bounded commit in an existing Git worktree after the
  validation passed. Running Git is a parameter that reads and changes a world of its own; an exception of
  the subprocess is the name of its type. The results are which Git commands are run at all, that a result
  says committed only after each of them succeeded, and the bounds of what is passed on.
\<close>

record completed =
  cp_returncode :: int
  cp_stdout :: string
  cp_stderr :: string

record CommitGateResult =
  g_attempted :: bool
  g_committed :: bool
  g_commit_hash :: "string option"
  g_status :: string
  g_reason_code :: "string option"
  g_message :: "string option"
  g_files_changed :: "string list"
  g_worktree_path :: string
  g_branch_name :: "string option"

definition commit_result_to_dict :: "CommitGateResult \<Rightarrow> pydict" where
  "commit_result_to_dict r =
     [(''attempted'', PBool (g_attempted r)), (''committed'', PBool (g_committed r)),
      (''commit_hash'', opt_str (g_commit_hash r)), (''status'', PStr (g_status r)),
      (''reason_code'', opt_str (g_reason_code r)), (''message'', opt_str (g_message r)),
      (''files_changed'', str_list (g_files_changed r)), (''worktree_path'', PStr (g_worktree_path r)),
      (''branch_name'', opt_str (g_branch_name r))]"

definition MAX_MESSAGE_CHARS :: nat where "MAX_MESSAGE_CHARS = 256"
definition MAX_ERROR_CHARS :: nat where "MAX_ERROR_CHARS = 320"

section \<open>Text helpers\<close>

text \<open>\<open>str.splitlines()\<close>: a carriage return and a line feed together are one break.\<close>

definition line_break :: "char \<Rightarrow> bool" where
  "line_break c = (let n = (of_char c :: nat) in (10 \<le> n \<and> n \<le> 13) \<or> (28 \<le> n \<and> n \<le> 30) \<or> n = 133)"

fun split_lines :: "string \<Rightarrow> string \<Rightarrow> string list" where
  "split_lines line [] = (if line = [] then [] else [line])"
| "split_lines line [c] = (if line_break c then [line] else [line @ [c]])"
| "split_lines line (c # d # cs) =
     (if c = CHR 0x0D \<and> d = CHR 0x0A then line # split_lines [] cs
      else if line_break c then line # split_lines [] (d # cs)
      else split_lines (line @ [c]) (d # cs))"

text \<open>The part of \<open>s\<close> after the first occurrence of \<open>pat\<close>, as \<open>s.partition(pat)[2]\<close>.\<close>

fun after_first :: "string \<Rightarrow> string \<Rightarrow> string" where
  "after_first pat [] = []"
| "after_first pat (c # cs) =
     (if take (length pat) (c # cs) = pat then drop (length pat) (c # cs) else after_first pat cs)"

definition porcelain_path :: "string \<Rightarrow> string list" where
  "porcelain_path line =
     (if length line < 4 then []
      else
        (let raw_path = strip (drop 3 line);
             raw_path' = (if contains '' -> '' raw_path
               then (let dst = strip (after_first '' -> '' raw_path) in if dst = [] then raw_path else dst)
               else raw_path)
         in if raw_path' = [] then [] else [raw_path']))"

fun dedup :: "string list \<Rightarrow> string list \<Rightarrow> string list" where
  "dedup acc [] = acc"
| "dedup acc (p # ps) = dedup (if p \<in> set acc then acc else acc @ [p]) ps"

definition parse_porcelain_paths :: "string \<Rightarrow> string list" where
  "parse_porcelain_paths output = dedup [] (concat (map porcelain_path (split_lines [] output)))"

definition sanitize_error :: "string \<Rightarrow> string option" where
  "sanitize_error raw =
     (let text1 = join_with '' '' (split_words [] raw) in
      if text1 = [] then None
      else if length text1 \<le> MAX_ERROR_CHARS then Some text1
      else Some (take (MAX_ERROR_CHARS - 3) text1 @ ''...''))"

definition bound_commit_message :: "string \<Rightarrow> string" where
  "bound_commit_message message =
     (let stripped = strip message;
          text1 = (if stripped = [] then ''Guardian commit-after-green'' else stripped)
      in if length text1 \<le> MAX_MESSAGE_CHARS then text1 else take (MAX_MESSAGE_CHARS - 3) text1 @ ''...'')"

section \<open>The gate\<close>

type_synonym 'w git = "'w \<Rightarrow> string list \<Rightarrow> string \<Rightarrow> (string + completed) \<times> 'w"

text \<open>Continue with the completed process, or leave with \<open>CommitGateError\<close>.\<close>

definition run_git ::
    "'w git \<Rightarrow> 'w \<Rightarrow> string list \<Rightarrow> string \<Rightarrow> (completed \<Rightarrow> 'w \<Rightarrow> (string + 'r) \<times> 'w) \<Rightarrow> (string + 'r) \<times> 'w" where
  "run_git git w argv cwd k =
     (case git w argv cwd of
        (Inl exc_type, w') \<Rightarrow> (Inl (''git command failed: '' @ exc_type), w')
      | (Inr res, w') \<Rightarrow> k res w')"

definition gate_result ::
    "string \<Rightarrow> string option \<Rightarrow> string \<Rightarrow> string \<Rightarrow> string \<Rightarrow> string list \<Rightarrow> CommitGateResult" where
  "gate_result path branch status code message files =
     \<lparr>g_attempted = True, g_committed = False, g_commit_hash = None, g_status = status, g_reason_code = Some code,
      g_message = Some message, g_files_changed = files, g_worktree_path = path, g_branch_name = branch\<rparr>"

definition or_text :: "string option \<Rightarrow> string \<Rightarrow> string" where
  "or_text o1 dflt = (case o1 of None \<Rightarrow> dflt | Some s \<Rightarrow> s)"

definition head_phase :: "'w git \<Rightarrow> string \<Rightarrow> string option \<Rightarrow> string list \<Rightarrow> 'w \<Rightarrow> (string + CommitGateResult) \<times> 'w" where
  "head_phase git path branch files_changed w =
     run_git git w [''rev-parse'', ''HEAD''] path (\<lambda>head_result w'.
       if cp_returncode head_result \<noteq> 0
       then (Inr (gate_result path branch ''failed'' ''GIT_COMMIT_FAILED''
              (or_text (sanitize_error (cp_stderr head_result)) ''failed to read git HEAD'') files_changed), w')
       else
         (let commit_hash = strip (cp_stdout head_result) in
          if commit_hash = []
          then (Inr (gate_result path branch ''failed'' ''GIT_COMMIT_FAILED''
                 ''commit hash missing after git commit'' files_changed), w')
          else (Inr \<lparr>g_attempted = True, g_committed = True, g_commit_hash = Some commit_hash,
                 g_status = ''committed'', g_reason_code = Some ''GIT_COMMIT_CREATED'',
                 g_message = Some ''commit created'', g_files_changed = files_changed,
                 g_worktree_path = path, g_branch_name = branch\<rparr>, w')))"

definition commit_phase ::
    "'w git \<Rightarrow> string \<Rightarrow> string option \<Rightarrow> string \<Rightarrow> string list \<Rightarrow> 'w \<Rightarrow> (string + CommitGateResult) \<times> 'w" where
  "commit_phase git path branch bounded_message files_changed w =
     run_git git w [''commit'', ''-m'', bounded_message] path (\<lambda>commit_result w'.
       if cp_returncode commit_result \<noteq> 0
       then
         (let combined = join_with [CHR 0x0A] (filter (\<lambda>item. item \<noteq> []) [cp_stdout commit_result, cp_stderr commit_result]);
              sanitized = sanitize_error combined
          in if sanitized \<noteq> None \<and> contains ''nothing to commit'' (lower (the sanitized))
             then (Inr (gate_result path branch ''skipped'' ''GIT_NO_CHANGES_TO_COMMIT'' ''no changes to commit'' []), w')
             else (Inr (gate_result path branch ''failed'' ''GIT_COMMIT_FAILED''
                    (or_text sanitized ''git commit failed'') files_changed), w'))
       else head_phase git path branch files_changed w')"

definition stage_phase ::
    "'w git \<Rightarrow> string \<Rightarrow> string option \<Rightarrow> string \<Rightarrow> string list \<Rightarrow> 'w \<Rightarrow> (string + CommitGateResult) \<times> 'w" where
  "stage_phase git path branch bounded_message files_changed w =
     run_git git w [''add'', ''-A''] path (\<lambda>add_result w'.
       if cp_returncode add_result \<noteq> 0
       then (Inr (gate_result path branch ''failed'' ''GIT_COMMIT_FAILED''
              (or_text (sanitize_error (cp_stderr add_result)) ''failed to stage changes'') files_changed), w')
       else commit_phase git path branch bounded_message files_changed w')"

definition status_phase ::
    "'w git \<Rightarrow> string \<Rightarrow> string option \<Rightarrow> string \<Rightarrow> 'w \<Rightarrow> (string + CommitGateResult) \<times> 'w" where
  "status_phase git path branch bounded_message w =
     run_git git w [''status'', ''--porcelain''] path (\<lambda>status_result w'.
       if cp_returncode status_result \<noteq> 0
       then (Inr (gate_result path branch ''failed'' ''GIT_COMMIT_FAILED''
              (or_text (sanitize_error (cp_stderr status_result)) ''failed to inspect git status'') []), w')
       else
         (let files_changed = parse_porcelain_paths (cp_stdout status_result) in
          if files_changed = []
          then (Inr (gate_result path branch ''skipped'' ''GIT_NO_CHANGES_TO_COMMIT'' ''no changes to commit'' []), w')
          else stage_phase git path branch bounded_message files_changed w'))"

definition commit_after_green ::
    "'w git \<Rightarrow> ('w \<Rightarrow> string \<Rightarrow> bool) \<Rightarrow> 'w \<Rightarrow> string \<Rightarrow> string \<Rightarrow> string option \<Rightarrow>
      (string + CommitGateResult) \<times> 'w" where
  "commit_after_green git isdir w worktree_path commit_message branch_name =
     (let normalized_path = strip worktree_path; bounded_message = bound_commit_message commit_message in
      if normalized_path = []
      then (Inr (gate_result normalized_path branch_name ''failed'' ''GIT_WORKTREE_INVALID''
             ''worktree path is required'' []), w)
      else if \<not> isdir w normalized_path
      then (Inr (gate_result normalized_path branch_name ''failed'' ''GIT_WORKTREE_INVALID''
             ''worktree path is unavailable or not a directory'' []), w)
      else run_git git w [''rev-parse'', ''--is-inside-work-tree''] normalized_path (\<lambda>inside_worktree w'.
        if cp_returncode inside_worktree \<noteq> 0 \<or> strip (cp_stdout inside_worktree) \<noteq> ''true''
        then (Inr (gate_result normalized_path branch_name ''failed'' ''GIT_WORKTREE_INVALID''
               (or_text (sanitize_error (if cp_stderr inside_worktree \<noteq> [] then cp_stderr inside_worktree
                  else cp_stdout inside_worktree)) ''worktree path is not inside a git worktree'') []), w')
        else status_phase git normalized_path branch_name bounded_message w'))"

section \<open>Lemmas\<close>

lemmas gate_phases = status_phase_def stage_phase_def commit_phase_def head_phase_def

lemma dedup_props: "distinct acc \<Longrightarrow> distinct (dedup acc ps) \<and> set (dedup acc ps) = set acc \<union> set ps"
  by (induction ps arbitrary: acc) auto

lemma parse_porcelain_distinct [simp]: "distinct (parse_porcelain_paths out)"
  by (simp add: parse_porcelain_paths_def dedup_props)

lemma sanitize_error_bound: "sanitize_error raw = Some m \<Longrightarrow> m \<noteq> [] \<and> length m \<le> MAX_ERROR_CHARS"
  by (auto simp: sanitize_error_def Let_def MAX_ERROR_CHARS_def split: if_splits)

lemma or_text_bound: "length dflt \<le> MAX_ERROR_CHARS \<Longrightarrow> length (or_text (sanitize_error raw) dflt) \<le> MAX_ERROR_CHARS"
  by (auto simp: or_text_def split: option.splits dest: sanitize_error_bound)

lemma bound_commit_message_bound:
  "bound_commit_message m \<noteq> [] \<and> length (bound_commit_message m) \<le> MAX_MESSAGE_CHARS"
  by (auto simp: bound_commit_message_def Let_def MAX_MESSAGE_CHARS_def)

text \<open>What every result keeps.\<close>

definition gate_result_ok :: "CommitGateResult \<Rightarrow> bool" where
  "gate_result_ok r \<longleftrightarrow> g_attempted r \<and> distinct (g_files_changed r) \<and>
     (\<exists>m. g_message r = Some m \<and> length m \<le> MAX_ERROR_CHARS) \<and>
     (if g_committed r
      then g_status r = ''committed'' \<and> (\<exists>h. g_commit_hash r = Some h \<and> h \<noteq> []) \<and> g_files_changed r \<noteq> []
      else g_status r \<in> {''failed'', ''skipped''} \<and> g_commit_hash r = None)"

lemma gate_result_ok [simp]:
  "st \<in> {''failed'', ''skipped''} \<Longrightarrow> distinct files \<Longrightarrow> length m \<le> MAX_ERROR_CHARS \<Longrightarrow>
     gate_result_ok (gate_result path branch st code m files)"
  by (auto simp: gate_result_ok_def gate_result_def)

text \<open>A property of worlds and one of results, through one run of Git.\<close>

definition keeps :: "('w \<Rightarrow> bool) \<Rightarrow> ('r \<Rightarrow> bool) \<Rightarrow> (string + 'r) \<times> 'w \<Rightarrow> bool" where
  "keeps P Q out \<longleftrightarrow> P (snd out) \<and> (\<forall>r. fst out = Inr r \<longrightarrow> Q r)"

lemma keeps_run:
  assumes "P w" "P w \<Longrightarrow> P (snd (git w argv cwd))" "\<And>res w'. P w' \<Longrightarrow> keeps P Q (k res w')"
  shows "keeps P Q (run_git git w argv cwd k)"
proof (cases "git w argv cwd")
  case (Pair res w')
  then have "P w'" using assms(2) [OF assms(1)] by simp
  with assms(3) show ?thesis by (cases res) (simp_all add: run_git_def Pair keeps_def)
qed

lemma keeps_ret: "P w \<Longrightarrow> Q r \<Longrightarrow> keeps P Q (Inr r, w)"
  by (simp add: keeps_def)

lemma keeps_if: "(b \<Longrightarrow> keeps P Q x) \<Longrightarrow> (\<not> b \<Longrightarrow> keeps P Q y) \<Longrightarrow> keeps P Q (if b then x else y)"
  by simp

definition gate_commands :: "string \<Rightarrow> string list set" where
  "gate_commands message =
     {[''rev-parse'', ''--is-inside-work-tree''], [''status'', ''--porcelain''], [''add'', ''-A''],
      [''commit'', ''-m'', message], [''rev-parse'', ''HEAD'']}"

text \<open>The world property is kept by each of the gate's commands in the worktree.\<close>

definition commands_keep :: "'w git \<Rightarrow> string \<Rightarrow> string \<Rightarrow> ('w \<Rightarrow> bool) \<Rightarrow> bool" where
  "commands_keep git path msg P \<longleftrightarrow> (\<forall>w argv. argv \<in> gate_commands msg \<longrightarrow> P w \<longrightarrow> P (snd (git w argv path)))"

lemma commands_keepD:
  assumes "commands_keep git path msg P" "P w"
  shows "P (snd (git w [''rev-parse'', ''--is-inside-work-tree''] path))" "P (snd (git w [''status'', ''--porcelain''] path))"
    "P (snd (git w [''add'', ''-A''] path))" "P (snd (git w [''commit'', ''-m'', msg] path))"
    "P (snd (git w [''rev-parse'', ''HEAD''] path))"
  using assms by (simp_all add: commands_keep_def gate_commands_def)

lemma short_texts:
  "length ''failed to read git HEAD'' \<le> MAX_ERROR_CHARS" "length ''commit hash missing after git commit'' \<le> MAX_ERROR_CHARS"
  "length ''no changes to commit'' \<le> MAX_ERROR_CHARS" "length ''git commit failed'' \<le> MAX_ERROR_CHARS"
  "length ''failed to stage changes'' \<le> MAX_ERROR_CHARS" "length ''failed to inspect git status'' \<le> MAX_ERROR_CHARS"
  "length ''worktree path is required'' \<le> MAX_ERROR_CHARS"
  "length ''worktree path is unavailable or not a directory'' \<le> MAX_ERROR_CHARS"
  "length ''worktree path is not inside a git worktree'' \<le> MAX_ERROR_CHARS"
  by (simp_all add: MAX_ERROR_CHARS_def)

lemmas keeps_intros = keeps_run keeps_if keeps_ret gate_result_ok or_text_bound short_texts

lemma head_phase_keeps:
  assumes "commands_keep git path msg P" "P w" "distinct files" "files \<noteq> []"
  shows "keeps P gate_result_ok (head_phase git path branch files w)"
  unfolding head_phase_def Let_def
  by (intro keeps_intros assms commands_keepD [OF assms(1)])
    (use assms in \<open>simp_all add: gate_result_ok_def MAX_ERROR_CHARS_def\<close>)

lemma commit_phase_keeps:
  assumes "commands_keep git path msg P" "P w" "distinct files" "files \<noteq> []"
  shows "keeps P gate_result_ok (commit_phase git path branch msg files w)"
  unfolding commit_phase_def Let_def
  by (intro keeps_intros head_phase_keeps assms commands_keepD [OF assms(1)]) (use assms in simp_all)

lemma stage_phase_keeps:
  assumes "commands_keep git path msg P" "P w" "distinct files" "files \<noteq> []"
  shows "keeps P gate_result_ok (stage_phase git path branch msg files w)"
  unfolding stage_phase_def
  by (intro keeps_intros commit_phase_keeps assms commands_keepD [OF assms(1)]) (use assms in simp_all)

lemma status_phase_keeps:
  assumes "commands_keep git path msg P" "P w"
  shows "keeps P gate_result_ok (status_phase git path branch msg w)"
  unfolding status_phase_def Let_def
  by (intro keeps_intros stage_phase_keeps assms commands_keepD [OF assms(1)]) (use assms in simp_all)

lemma commit_after_green_keeps:
  assumes "commands_keep git (strip path) (bound_commit_message m) P" "P w"
  shows "keeps P gate_result_ok (commit_after_green git isdir w path m branch)"
  unfolding commit_after_green_def Let_def
  by (intro keeps_intros status_phase_keeps assms commands_keepD [OF assms(1)]) (use assms in simp_all)

lemma run_git_Inr:
  assumes "run_git git w argv cwd k = (Inr r, w')"
  obtains res w1 where "git w argv cwd = (Inr res, w1)" "k res w1 = (Inr r, w')"
  using assms by (auto simp: run_git_def split: prod.splits sum.splits)

lemma gate_result_not_committed [simp]: "\<not> g_committed (gate_result path branch st code m files)"
  by (simp add: gate_result_def)

lemma head_phase_committed:
  assumes "head_phase git path branch files w = (Inr r, w')" "g_committed r"
  obtains hd where "git w [''rev-parse'', ''HEAD''] path = (Inr hd, w')" "cp_returncode hd = 0"
    "g_commit_hash r = Some (strip (cp_stdout hd))" "strip (cp_stdout hd) \<noteq> []" "g_files_changed r = files"
  using assms unfolding head_phase_def
  by (auto elim!: run_git_Inr simp: Let_def split: if_splits)

lemma commit_phase_committed:
  assumes "commit_phase git path branch msg files w = (Inr r, w')" "g_committed r"
  obtains co w1 where "git w [''commit'', ''-m'', msg] path = (Inr co, w1)" "cp_returncode co = 0"
    "head_phase git path branch files w1 = (Inr r, w')"
  using assms unfolding commit_phase_def
  by (auto elim!: run_git_Inr simp: Let_def split: if_splits)

lemma stage_phase_committed:
  assumes "stage_phase git path branch msg files w = (Inr r, w')" "g_committed r"
  obtains ad w1 where "git w [''add'', ''-A''] path = (Inr ad, w1)" "cp_returncode ad = 0"
    "commit_phase git path branch msg files w1 = (Inr r, w')"
  using assms unfolding stage_phase_def
  by (auto elim!: run_git_Inr split: if_splits)

lemma status_phase_committed:
  assumes "status_phase git path branch msg w = (Inr r, w')" "g_committed r"
  obtains st w1 where "git w [''status'', ''--porcelain''] path = (Inr st, w1)" "cp_returncode st = 0"
    "parse_porcelain_paths (cp_stdout st) \<noteq> []"
    "stage_phase git path branch msg (parse_porcelain_paths (cp_stdout st)) w1 = (Inr r, w')"
  using assms unfolding status_phase_def
  by (auto elim!: run_git_Inr simp: Let_def split: if_splits)

lemma gate_entered:
  assumes "commit_after_green git isdir w path m branch = (Inr r, w')" "g_committed r"
  obtains ins w1 where "strip path \<noteq> []" "isdir w (strip path)"
    "git w [''rev-parse'', ''--is-inside-work-tree''] (strip path) = (Inr ins, w1)" "cp_returncode ins = 0"
    "strip (cp_stdout ins) = ''true''" "status_phase git (strip path) branch (bound_commit_message m) w1 = (Inr r, w')"
  using assms unfolding commit_after_green_def
  by (auto elim!: run_git_Inr simp: Let_def split: if_splits)

section \<open>Properties\<close>

text \<open>
  The gate runs only five Git commands, all in the given worktree: any property of the world that
  these commands keep is kept by the gate, so it never pushes, merges or creates a branch; and every
  result it returns is well formed, with a bounded message, and a commit hash exactly when it says
  committed.
\<close>

theorem gate_runs_only_its_commands:
  assumes "\<And>w argv. argv \<in> gate_commands (bound_commit_message m) \<Longrightarrow> P w \<Longrightarrow> P (snd (git w argv (strip path)))" "P w"
  shows "P (snd (commit_after_green git isdir w path m branch)) \<and>
    (\<forall>r. fst (commit_after_green git isdir w path m branch) = Inr r \<longrightarrow> gate_result_ok r)"
  using commit_after_green_keeps [of git path m P w isdir branch] assms by (simp add: commands_keep_def keeps_def)

text \<open>An example world: the commands that were run, and one changed file until the commit.\<close>

definition demo_git :: "(string list list) git" where
  "demo_git log argv cwd =
     (Inr \<lparr>cp_returncode = 0,
        cp_stdout =
          (if argv = [''rev-parse'', ''--is-inside-work-tree''] then ''true''
           else if argv = [''status'', ''--porcelain''] then '' M a.py''
           else if argv = [''rev-parse'', ''HEAD''] then ''abc123'' else []),
        cp_stderr = []\<rparr>, log @ [argv])"

theorem gate_runs_only_its_commands_witness:
  "[''push''] \<notin> set (snd (commit_after_green demo_git (\<lambda>_ _. True) [] ''/w'' ''fix'' None))"
proof -
  have "[''push''] \<notin> set (snd (demo_git log argv (strip ''/w'')))"
    if "argv \<in> gate_commands (bound_commit_message ''fix'')" "[''push''] \<notin> set log" for argv log
    using that by (auto simp: demo_git_def gate_commands_def)
  then show ?thesis
    using gate_runs_only_its_commands [where P = "\<lambda>log. [''push''] \<notin> set log" and git = demo_git and w = "[]"
        and path = "''/w''" and m = "''fix''" and isdir = "\<lambda>_ _. True" and branch = None] by simp
qed

text \<open>
  C38. A result says committed only when every step succeeded in turn: the path is a directory inside a
  worktree, the status listed changed files, they were staged, the commit with the bounded message went
  through, and the hash read from HEAD is not empty.
\<close>

theorem committed_after_every_step:
  assumes "commit_after_green git isdir w path m branch = (Inr r, w')" "g_committed r"
  shows "strip path \<noteq> [] \<and> isdir w (strip path) \<and>
    (\<exists>ins st ad co hd w1 w2 w3 w4.
      git w [''rev-parse'', ''--is-inside-work-tree''] (strip path) = (Inr ins, w1) \<and> cp_returncode ins = 0 \<and>
      strip (cp_stdout ins) = ''true'' \<and>
      git w1 [''status'', ''--porcelain''] (strip path) = (Inr st, w2) \<and> cp_returncode st = 0 \<and>
      git w2 [''add'', ''-A''] (strip path) = (Inr ad, w3) \<and> cp_returncode ad = 0 \<and>
      git w3 [''commit'', ''-m'', bound_commit_message m] (strip path) = (Inr co, w4) \<and> cp_returncode co = 0 \<and>
      git w4 [''rev-parse'', ''HEAD''] (strip path) = (Inr hd, w') \<and> cp_returncode hd = 0 \<and>
      g_commit_hash r = Some (strip (cp_stdout hd)) \<and> strip (cp_stdout hd) \<noteq> [] \<and>
      g_files_changed r = parse_porcelain_paths (cp_stdout st) \<and> g_files_changed r \<noteq> [])"
proof -
  obtain ins w1 where 1: "strip path \<noteq> []" "isdir w (strip path)"
    "git w [''rev-parse'', ''--is-inside-work-tree''] (strip path) = (Inr ins, w1)" "cp_returncode ins = 0"
    "strip (cp_stdout ins) = ''true''" "status_phase git (strip path) branch (bound_commit_message m) w1 = (Inr r, w')"
    using assms by (rule gate_entered)
  obtain st w2 where 2: "git w1 [''status'', ''--porcelain''] (strip path) = (Inr st, w2)" "cp_returncode st = 0"
    "parse_porcelain_paths (cp_stdout st) \<noteq> []"
    "stage_phase git (strip path) branch (bound_commit_message m) (parse_porcelain_paths (cp_stdout st)) w2 = (Inr r, w')"
    using 1(6) assms(2) by (rule status_phase_committed)
  obtain ad w3 where 3: "git w2 [''add'', ''-A''] (strip path) = (Inr ad, w3)" "cp_returncode ad = 0"
    "commit_phase git (strip path) branch (bound_commit_message m) (parse_porcelain_paths (cp_stdout st)) w3 = (Inr r, w')"
    using 2(4) assms(2) by (rule stage_phase_committed)
  obtain co w4 where 4: "git w3 [''commit'', ''-m'', bound_commit_message m] (strip path) = (Inr co, w4)" "cp_returncode co = 0"
    "head_phase git (strip path) branch (parse_porcelain_paths (cp_stdout st)) w4 = (Inr r, w')"
    using 3(3) assms(2) by (rule commit_phase_committed)
  obtain hd where 5: "git w4 [''rev-parse'', ''HEAD''] (strip path) = (Inr hd, w')" "cp_returncode hd = 0"
    "g_commit_hash r = Some (strip (cp_stdout hd))" "strip (cp_stdout hd) \<noteq> []"
    "g_files_changed r = parse_porcelain_paths (cp_stdout st)"
    using 4(3) assms(2) by (rule head_phase_committed)
  from 2(3) 5(5) have "g_files_changed r \<noteq> []" by simp
  with 1(1-5) 2(1,2) 3(1,2) 4(1,2) 5 show ?thesis by blast
qed

definition demo_result :: CommitGateResult where
  "demo_result = \<lparr>g_attempted = True, g_committed = True, g_commit_hash = Some ''abc123'', g_status = ''committed'',
     g_reason_code = Some ''GIT_COMMIT_CREATED'', g_message = Some ''commit created'', g_files_changed = [''a.py''],
     g_worktree_path = ''/w'', g_branch_name = None\<rparr>"

theorem committed_after_every_step_witness:
  "\<exists>st w1 w2. demo_git w1 [''status'', ''--porcelain''] (strip ''/w'') = (Inr st, w2) \<and> cp_returncode st = 0 \<and>
     g_files_changed demo_result = parse_porcelain_paths (cp_stdout st)"
proof -
  have run: "commit_after_green demo_git (\<lambda>_ _. True) [] ''/w'' ''fix'' None =
      (Inr demo_result, [[''rev-parse'', ''--is-inside-work-tree''], [''status'', ''--porcelain''], [''add'', ''-A''],
         [''commit'', ''-m'', ''fix''], [''rev-parse'', ''HEAD'']])" by code_simp
  have "g_committed demo_result" by (simp add: demo_result_def)
  from committed_after_every_step [OF run this] show ?thesis by blast
qed

end
