(* ===== verification/Retry_Policy.thy ===== *)
theory Retry_Policy
  imports Py_Base
begin

text \<open>
  Model of \<^verbatim>\<open>guardian/agents/retry_policy.py\<close>: whether a failed attempt of a delegated step is retried,
  abandoned or escalated. The hash of a failure signature is a parameter. The results give the exact
  condition of a retry and which failures have the same signature.
\<close>

record AttemptMetrics =
  am_fail_count :: int
  am_fail_signature :: string
  am_diff_added :: int
  am_diff_deleted :: int
  am_error_category :: string
  am_progress_made :: bool

record RetryConfig =
  rc_max_attempts :: int
  rc_min_attempts_before_abort :: int
  rc_no_progress_window :: int
  rc_max_same_signature_repeats :: int
  rc_regression_limit :: int

record RetryDecision =
  rd_should_retry :: bool
  rd_escalate :: bool
  rd_reason :: string

fun stable_lines :: "string list \<Rightarrow> string list" where
  "stable_lines [] = []"
| "stable_lines (raw # lines) =
     (let clean = join_with '' '' (split_words [] (strip raw)) in
      if clean \<noteq> [] then clean # stable_lines lines else stable_lines lines)"

definition stable_text_lines :: "string list option \<Rightarrow> string list" where
  "stable_text_lines lines = stable_lines (case lines of None \<Rightarrow> [] | Some xs \<Rightarrow> xs)"

text \<open>\<open>hexdigest\<close> stands for \<open>hashlib.sha256(payload.encode("utf-8")).hexdigest()\<close>.\<close>

definition build_fail_signature :: "(string \<Rightarrow> string) \<Rightarrow> string list option \<Rightarrow> string list option \<Rightarrow> string" where
  "build_fail_signature hexdigest failing_tests stderr_lines =
     (let tests = sort (remdups (stable_text_lines failing_tests));
          stderr = take 20 (stable_text_lines stderr_lines);
          payload = join_with [CHR 0x0A] (tests @ [''---''] @ stderr)
      in take 24 (hexdigest payload))"

definition error_rank :: "string \<Rightarrow> int" where
  "error_rank value =
     (let key = lower (strip (if value = [] then ''unknown'' else value)) in
      case map_of [(''spec_alignment_violation'', 0), (''schema_invalid'', 1), (''tests_failed'', 2), (''unknown'', 3)] key of
        Some n \<Rightarrow> n | None \<Rightarrow> 3)"

fun same_signature_run :: "string \<Rightarrow> AttemptMetrics list \<Rightarrow> int" where
  "same_signature_run sig [] = 0"
| "same_signature_run sig (item # items) =
     (if am_fail_signature item \<noteq> sig then 0 else 1 + same_signature_run sig items)"

definition count_same_signature_suffix :: "AttemptMetrics list \<Rightarrow> string \<Rightarrow> int" where
  "count_same_signature_suffix history current_signature = same_signature_run current_signature (rev history)"

fun no_progress_run :: "AttemptMetrics list \<Rightarrow> int" where
  "no_progress_run [] = 0"
| "no_progress_run (item # items) = (if am_progress_made item then 0 else 1 + no_progress_run items)"

definition no_progress_suffix :: "AttemptMetrics list \<Rightarrow> int" where
  "no_progress_suffix history = no_progress_run (rev history)"

definition is_progress :: "AttemptMetrics \<Rightarrow> AttemptMetrics option \<Rightarrow> int option \<Rightarrow> bool" where
  "is_progress current previous best_fail_count =
     (if (case previous of None \<Rightarrow> False | Some p \<Rightarrow> am_fail_count current < am_fail_count p) then True
      else if (case previous of None \<Rightarrow> False
        | Some p \<Rightarrow> error_rank (am_error_category current) < error_rank (am_error_category p)) then True
      else if (case best_fail_count of None \<Rightarrow> False | Some b \<Rightarrow> am_fail_count current < b) then True
      else False)"

definition best_fail_count :: "AttemptMetrics list \<Rightarrow> int option" where
  "best_fail_count history = (case map am_fail_count history of [] \<Rightarrow> None | c # cs \<Rightarrow> Some (fold min cs c))"

definition previous_attempt :: "AttemptMetrics list \<Rightarrow> AttemptMetrics option" where
  "previous_attempt history = (if history = [] then None else Some (last history))"

definition stop_with :: "bool \<Rightarrow> string \<Rightarrow> RetryDecision" where
  "stop_with escalate reason = \<lparr>rd_should_retry = False, rd_escalate = escalate, rd_reason = reason\<rparr>"

definition evaluate_retry_decision ::
    "int \<Rightarrow> AttemptMetrics \<Rightarrow> AttemptMetrics list \<Rightarrow> RetryConfig \<Rightarrow> bool \<Rightarrow> RetryDecision" where
  "evaluate_retry_decision attempt_index current history config spec_alignment_violation =
     (if spec_alignment_violation then stop_with True ''spec_alignment_violation''
      else
        (let best = best_fail_count history;
             progress = is_progress current (previous_attempt history) best;
             extended = history @ [current\<lparr>am_progress_made := progress\<rparr>];
             min_reached = (rc_min_attempts_before_abort config \<le> attempt_index)
         in if min_reached \<and> rc_no_progress_window config \<le> no_progress_suffix extended
            then stop_with True ''no_progress_window''
            else if min_reached \<and>
              rc_max_same_signature_repeats config < count_same_signature_suffix extended (am_fail_signature current)
            then stop_with True ''same_signature_repeat''
            else if min_reached \<and>
              (case best of None \<Rightarrow> False | Some b \<Rightarrow> b + rc_regression_limit config < am_fail_count current)
            then stop_with True ''regression_limit''
            else if rc_max_attempts config \<le> attempt_index then stop_with False ''max_attempts_exhausted''
            else \<lparr>rd_should_retry = True, rd_escalate = False, rd_reason = ''retry''\<rparr>))"

section \<open>Lemmas\<close>

lemma no_progress_run_eq: "no_progress_run h = int (length (takeWhile (\<lambda>a. \<not> am_progress_made a) h))"
  by (induction h) auto

lemma same_signature_run_eq: "same_signature_run s h = int (length (takeWhile (\<lambda>a. am_fail_signature a = s) h))"
  by (induction h) auto

lemma best_fail_count_Min:
  "best_fail_count h = (if h = [] then None else Some (Min (am_fail_count ` set h)))"
  by (cases h) (simp_all add: best_fail_count_def Min.set_eq_fold [symmetric])

text \<open>The attempt made progress over what came before it.\<close>

definition made_progress :: "AttemptMetrics \<Rightarrow> AttemptMetrics list \<Rightarrow> bool" where
  "made_progress a h \<longleftrightarrow> h \<noteq> [] \<and>
     (am_fail_count a < am_fail_count (last h) \<or>
      error_rank (am_error_category a) < error_rank (am_error_category (last h)) \<or>
      (\<forall>x \<in> set h. am_fail_count a < am_fail_count x))"

lemma is_progress_eq: "is_progress a (previous_attempt h) (best_fail_count h) \<longleftrightarrow> made_progress a h"
  by (auto simp: is_progress_def previous_attempt_def best_fail_count_Min made_progress_def)

text \<open>The cascade of decisions, over the truth values of its conditions.\<close>

definition cascade :: "bool \<Rightarrow> bool \<Rightarrow> bool \<Rightarrow> bool \<Rightarrow> bool \<Rightarrow> bool \<Rightarrow> RetryDecision" where
  "cascade spec reached w r g exhausted =
     (if spec then stop_with True ''spec_alignment_violation''
      else if reached \<and> w then stop_with True ''no_progress_window''
      else if reached \<and> r then stop_with True ''same_signature_repeat''
      else if reached \<and> g then stop_with True ''regression_limit''
      else if exhausted then stop_with False ''max_attempts_exhausted''
      else \<lparr>rd_should_retry = True, rd_escalate = False, rd_reason = ''retry''\<rparr>)"

lemma cascade_retry: "rd_should_retry (cascade spec reached w r g exhausted) \<longleftrightarrow>
    \<not> spec \<and> \<not> exhausted \<and> (\<not> reached \<or> \<not> w \<and> \<not> r \<and> \<not> g)"
  by (cases spec; cases reached; cases w; cases r; cases g) (simp_all add: cascade_def stop_with_def)

lemma cascade_escalate: "rd_escalate (cascade spec reached w r g exhausted) \<longleftrightarrow>
    \<not> rd_should_retry (cascade spec reached w r g exhausted) \<and>
    rd_reason (cascade spec reached w r g exhausted) \<noteq> ''max_attempts_exhausted''"
  by (cases spec; cases reached; cases w; cases r; cases g; cases exhausted) (simp_all add: cascade_def stop_with_def)

lemma evaluate_cascade:
  "evaluate_retry_decision i a h cfg spec =
     cascade spec (rc_min_attempts_before_abort cfg \<le> i)
       (rc_no_progress_window cfg \<le> (if made_progress a h then 0 else 1 + no_progress_run (rev h)))
       (rc_max_same_signature_repeats cfg < 1 + same_signature_run (am_fail_signature a) (rev h))
       (h \<noteq> [] \<and> Min (am_fail_count ` set h) + rc_regression_limit cfg < am_fail_count a)
       (rc_max_attempts cfg \<le> i)"
proof -
  have "no_progress_run (rev (h @ [a\<lparr>am_progress_made := p\<rparr>])) = (if p then 0 else 1 + no_progress_run (rev h))" for p
    by simp
  moreover have "same_signature_run (am_fail_signature a) (rev (h @ [a\<lparr>am_progress_made := p\<rparr>])) =
      1 + same_signature_run (am_fail_signature a) (rev h)" for p by simp
  moreover have "(case best_fail_count h of None \<Rightarrow> False | Some b \<Rightarrow> b + l < n) \<longleftrightarrow>
      h \<noteq> [] \<and> Min (am_fail_count ` set h) + l < n" for l n by (simp add: best_fail_count_Min)
  ultimately show ?thesis
    unfolding evaluate_retry_decision_def Let_def is_progress_eq no_progress_suffix_def count_same_signature_suffix_def
      cascade_def by (simp only:)
qed

section \<open>Properties\<close>

text \<open>
  An attempt is retried exactly when there is no specification violation, attempts are left, and,
  once the minimum number of attempts is reached, the run of attempts without progress (this one
  included) is shorter than the window, the run of attempts with this failure signature is within the
  limit, and the failures do not exceed the best attempt by more than the regression limit. When it is
  not retried it escalates, unless it merely used up its attempts.
\<close>

theorem retry_exactly_when:
  defines "stuck \<equiv> \<lambda>a h. if made_progress a h then 0 else 1 + int (length (takeWhile (\<lambda>x. \<not> am_progress_made x) (rev h)))"
    and "repeats \<equiv> \<lambda>a h. 1 + int (length (takeWhile (\<lambda>x. am_fail_signature x = am_fail_signature a) (rev h)))"
  shows "(rd_should_retry (evaluate_retry_decision i a h cfg spec) \<longleftrightarrow>
      \<not> spec \<and> i < rc_max_attempts cfg \<and>
      (i < rc_min_attempts_before_abort cfg \<or>
       stuck a h < rc_no_progress_window cfg \<and> repeats a h \<le> rc_max_same_signature_repeats cfg \<and>
       (h = [] \<or> am_fail_count a \<le> Min (am_fail_count ` set h) + rc_regression_limit cfg))) \<and>
    (rd_escalate (evaluate_retry_decision i a h cfg spec) \<longleftrightarrow>
      \<not> rd_should_retry (evaluate_retry_decision i a h cfg spec) \<and>
      rd_reason (evaluate_retry_decision i a h cfg spec) \<noteq> ''max_attempts_exhausted'')"
proof
  show "rd_should_retry (evaluate_retry_decision i a h cfg spec) \<longleftrightarrow>
      \<not> spec \<and> i < rc_max_attempts cfg \<and>
      (i < rc_min_attempts_before_abort cfg \<or>
       stuck a h < rc_no_progress_window cfg \<and> repeats a h \<le> rc_max_same_signature_repeats cfg \<and>
       (h = [] \<or> am_fail_count a \<le> Min (am_fail_count ` set h) + rc_regression_limit cfg))"
    unfolding evaluate_cascade cascade_retry no_progress_run_eq same_signature_run_eq stuck_def repeats_def
    by (simp only: de_Morgan_conj not_le not_less not_not)
qed (unfold evaluate_cascade, rule cascade_escalate)

text \<open>
  The failure signature does not depend on the order in which failing tests are reported, on
  repeated reports, or on the white space inside them.
\<close>

theorem fail_signature_stable:
  assumes "set (stable_text_lines t) = set (stable_text_lines t')" "take 20 (stable_text_lines e) = take 20 (stable_text_lines e')"
  shows "build_fail_signature hexdigest t e = build_fail_signature hexdigest t' e'"
proof -
  have "sort (remdups (stable_text_lines t)) = sort (remdups (stable_text_lines t'))"
    using assms(1) by (metis sorted_list_of_set_sort_remdups)
  with assms(2) show ?thesis by (simp add: build_fail_signature_def)
qed

theorem fail_signature_stable_witness:
  "build_fail_signature id (Some [''t_a  failed'', ''t_b'']) None = build_fail_signature id (Some ['' t_b '', ''t_a failed'', ''t_b'']) None"
  by (rule fail_signature_stable) code_simp+

end
