(* ===== verification/Flow_Spec.thy ===== *)
theory Flow_Spec
  imports Py_Base Complex_Main
begin

text \<open>
  Model of \<^verbatim>\<open>guardian/flows/spec.py\<close>, \<^verbatim>\<open>guardian/flows/primitives.py\<close> and \<^verbatim>\<open>guardian/flows/compiler.py\<close>:
  the flow description with the constraints its classes declare, the registry of primitives, and the
  compiler that turns a description into an executable plan. A pydantic class is a record and its
  declared constraints are a predicate; reading a record out of a dictionary is pydantic's work and is
  not modelled. A confidence is a rational number.
\<close>

section \<open>The flow description\<close>

definition FLOW_SPEC_VERSION :: string where "FLOW_SPEC_VERSION = ''0.1''"

definition PrimitiveName :: "string list" where
  "PrimitiveName = [''assemble_context'', ''retrieve_memory'', ''summarize'', ''classify'', ''plan'', ''extract_actions'',
     ''create_thread'', ''append_thread'', ''write_codex_entry'', ''schedule_cron_job'', ''emit_event'']"

record FlowTrigger =
  ft_type :: string
  ft_schedule :: "string option"
  ft_event_name :: "string option"

record FlowScope =
  fc_user_id :: string
  fc_project_ids :: "string list"
  fc_thread_ids :: "string list"
  fc_persona :: "string option"

record FlowBudget =
  fb_max_steps :: int
  fb_max_tokens :: int
  fb_timeout_seconds :: int

record FlowPolicy =
  fp_min_confidence :: rat
  fp_require_confirmation_below_threshold :: bool
  fp_allow_side_effects_without_confirmation :: bool

record FlowStep =
  st_step_id :: string
  st_primitive :: string
  st_params :: pydict
  st_required_scopes :: "string list"
  st_external_domain :: "string option"
  st_requires_network :: bool
  st_requests_auth :: bool
  st_requested_scopes :: "string list"

record FlowOutput =
  fo_store_as_thread :: bool
  fo_store_as_codex :: bool
  fo_emit_event :: "string option"

record FlowIdempotency =
  fi_key_template :: "string option"
  fi_mode :: string

record FlowAudit =
  fa_log_trace :: bool
  fa_record_cost :: bool
  fa_redact_fields :: "string list"

record FlowSpec =
  f_flow_id :: string
  f_version :: string
  f_enabled :: bool
  f_trigger :: FlowTrigger
  f_scope :: FlowScope
  f_budget :: FlowBudget
  f_policy :: FlowPolicy
  f_steps :: "FlowStep list"
  f_output :: FlowOutput
  f_idempotency :: FlowIdempotency
  f_audit :: FlowAudit

text \<open>The validators that run after the fields are read; a raised \<open>ValueError\<close> is its message.\<close>

definition given :: "string option \<Rightarrow> bool" where
  "given o1 = (o1 \<noteq> None \<and> o1 \<noteq> Some [])"

text \<open>A text between single quotes.\<close>

definition quoted :: "string \<Rightarrow> string" where
  "quoted s = [CHR 0x27] @ s @ [CHR 0x27]"

definition validate_trigger :: "FlowTrigger \<Rightarrow> string + FlowTrigger" where
  "validate_trigger self =
     (if ft_type self = ''cron'' \<and> \<not> given (ft_schedule self)
      then Inl (''trigger.schedule is required when trigger.type='' @ quoted ''cron'')
      else if ft_type self \<noteq> ''cron'' \<and> ft_schedule self \<noteq> None
      then Inl (''trigger.schedule is only valid when trigger.type='' @ quoted ''cron'')
      else if ft_type self = ''event'' \<and> \<not> given (ft_event_name self)
      then Inl (''trigger.event_name is required when trigger.type='' @ quoted ''event'')
      else if ft_type self \<noteq> ''event'' \<and> ft_event_name self \<noteq> None
      then Inl (''trigger.event_name is only valid when trigger.type='' @ quoted ''event'')
      else Inr self)"

definition validate_step_ids_and_budget :: "FlowSpec \<Rightarrow> string + FlowSpec" where
  "validate_step_ids_and_budget self =
     (let step_ids = map st_step_id (f_steps self) in
      if length step_ids \<noteq> card (set step_ids) then Inl ''steps.step_id values must be unique''
      else if fb_max_steps (f_budget self) < int (length (f_steps self))
      then Inl ''steps length cannot exceed budget.max_steps''
      else Inr self)"

text \<open>The declared constraints of the fields together with the validators: what a \<open>FlowSpec\<close> object satisfies.\<close>

definition valid_budget :: "FlowBudget \<Rightarrow> bool" where
  "valid_budget b = (1 \<le> fb_max_steps b \<and> fb_max_steps b \<le> 200 \<and> 1 \<le> fb_max_tokens b \<and> fb_max_tokens b \<le> 200000 \<and>
     1 \<le> fb_timeout_seconds b \<and> fb_timeout_seconds b \<le> 3600)"

definition valid_step :: "FlowStep \<Rightarrow> bool" where
  "valid_step s = (st_step_id s \<noteq> [] \<and> length (st_step_id s) \<le> 128 \<and> st_primitive s \<in> set PrimitiveName)"

definition valid_flow_spec :: "FlowSpec \<Rightarrow> bool" where
  "valid_flow_spec f =
     (f_flow_id f \<noteq> [] \<and> length (f_flow_id f) \<le> 128 \<and> f_version f = FLOW_SPEC_VERSION \<and>
      ft_type (f_trigger f) \<in> {''manual'', ''cron'', ''event''} \<and> validate_trigger (f_trigger f) = Inr (f_trigger f) \<and>
      fc_user_id (f_scope f) \<noteq> [] \<and> valid_budget (f_budget f) \<and>
      0 \<le> fp_min_confidence (f_policy f) \<and> fp_min_confidence (f_policy f) \<le> 1 \<and>
      f_steps f \<noteq> [] \<and> list_all valid_step (f_steps f) \<and>
      fi_mode (f_idempotency f) \<in> {''return_cached'', ''always_run'', ''skip_if_running''} \<and>
      validate_step_ids_and_budget f = Inr f)"

section \<open>Compiled flows\<close>

record CompilationWarning =
  cw_code :: string
  cw_message :: string
  cw_step_id :: "string option"

record CompiledStep =
  cs_step_id :: string
  cs_primitive :: string
  cs_params :: pydict
  cs_side_effecting :: bool
  cs_required_scopes :: "string list"
  cs_external_domain :: "string option"
  cs_requires_network :: bool
  cs_requests_auth :: bool
  cs_requested_scopes :: "string list"

record CompiledFlow =
  c_flow_id :: string
  c_version :: string
  c_enabled :: bool
  c_trigger :: FlowTrigger
  c_scope :: FlowScope
  c_budget :: FlowBudget
  c_policy :: FlowPolicy
  c_steps :: "CompiledStep list"
  c_output :: FlowOutput
  c_idempotency :: FlowIdempotency
  c_audit :: FlowAudit
  c_warnings :: "CompilationWarning list"
  c_has_side_effects :: bool
  c_requires_confirmation :: bool

section \<open>Primitives\<close>

text \<open>
  A params class: validating and dumping a dictionary of parameters, and its schema. A failed validation
  carries its list of errors and its text. A handler reads and changes the world; what it raises is a text.
\<close>

record validation_error =
  ve_errors :: string
  ve_text :: string

record params_model =
  pm_validate :: "pydict \<Rightarrow> validation_error + pydict"
  pm_schema :: pyval

type_synonym 'w handler = "pydict \<Rightarrow> pydict \<Rightarrow> 'w \<Rightarrow> (string + pydict) \<times> 'w"

record PrimitiveContract =
  pc_name :: string
  pc_description :: string
  pc_params_model :: params_model
  pc_side_effecting :: bool

record 'w PrimitiveRegistration =
  pr_contract :: PrimitiveContract
  pr_handler :: "'w handler"

type_synonym 'w PrimitiveRegistry = "(string \<times> 'w PrimitiveRegistration) list"

definition stub_handler :: "string \<Rightarrow> 'w handler" where
  "stub_handler name = (\<lambda>params context w.
     (Inr [(''primitive'', PStr name), (''ok'', PBool True), (''stub'', PBool True), (''params'', PDict params),
       (''context_keys'', str_list (sort (map fst context)))], w))"

definition register :: "'w PrimitiveRegistry \<Rightarrow> PrimitiveContract \<Rightarrow> 'w handler \<Rightarrow> 'w PrimitiveRegistry" where
  "register entries contract handler =
     AList.update (pc_name contract) \<lparr>pr_contract = contract, pr_handler = handler\<rparr> entries"

definition has_primitive :: "'w PrimitiveRegistry \<Rightarrow> string \<Rightarrow> bool" where
  "has_primitive entries primitive_name = (map_of entries primitive_name \<noteq> None)"

text \<open>\<open>get\<close> raises \<open>KeyError\<close>, whose text is the quoted message.\<close>

definition get_primitive :: "'w PrimitiveRegistry \<Rightarrow> string \<Rightarrow> string + 'w PrimitiveRegistration" where
  "get_primitive entries primitive_name =
     (case map_of entries primitive_name of
        None \<Rightarrow> Inl (repr_str (''Primitive not registered: '' @ primitive_name))
      | Some registration \<Rightarrow> Inr registration)"

definition validate_params :: "'w PrimitiveRegistration \<Rightarrow> pydict \<Rightarrow> validation_error + pydict" where
  "validate_params registration params = pm_validate (pc_params_model (pr_contract registration)) params"

definition invoke_primitive :: "'w PrimitiveRegistry \<Rightarrow> string \<Rightarrow> 'w handler" where
  "invoke_primitive entries primitive_name params context w =
     (case get_primitive entries primitive_name of
        Inl e \<Rightarrow> (Inl e, w)
      | Inr registration \<Rightarrow>
        (case validate_params registration params of
           Inl e \<Rightarrow> (Inl (ve_text e), w)
         | Inr normalized \<Rightarrow> pr_handler registration normalized context w))"

definition catalog_entry :: "PrimitiveContract \<Rightarrow> pydict" where
  "catalog_entry contract =
     [(''name'', PStr (pc_name contract)), (''description'', PStr (pc_description contract)),
      (''side_effecting'', PBool (pc_side_effecting contract)),
      (''params_schema'', pm_schema (pc_params_model contract))]"

definition catalog :: "'w PrimitiveRegistry \<Rightarrow> pydict list" where
  "catalog entries = map (\<lambda>name. catalog_entry (pr_contract (the (map_of entries name)))) (sort (map fst entries))"

text \<open>The contracts of the default registry; \<open>model\<close> is the params class of each primitive.\<close>

definition contract :: "(string \<Rightarrow> params_model) \<Rightarrow> string \<Rightarrow> string \<Rightarrow> bool \<Rightarrow> PrimitiveContract" where
  "contract model name description side_effecting =
     \<lparr>pc_name = name, pc_description = description, pc_params_model = model name, pc_side_effecting = side_effecting\<rparr>"

definition default_contracts :: "(string \<Rightarrow> params_model) \<Rightarrow> PrimitiveContract list" where
  "default_contracts model =
     [contract model ''assemble_context'' ''Collect thread/memory/codex context for downstream steps.'' False,
      contract model ''retrieve_memory'' ''Retrieve semantic memory snippets for a query.'' False,
      contract model ''summarize'' ''Generate structured summary output from context.'' False,
      contract model ''classify'' ''Classify context into provided labels.'' False,
      contract model ''plan'' ''Generate a structured plan artifact.'' False,
      contract model ''extract_actions'' ''Extract concrete next actions from context.'' False,
      contract model ''create_thread'' ''Create a new thread artifact.'' True,
      contract model ''append_thread'' ''Append content to an existing thread.'' True,
      contract model ''write_codex_entry'' ''Write a codex entry from previous outputs.'' True,
      contract model ''schedule_cron_job'' ''Schedule a cron job from flow output.'' True,
      contract model ''emit_event'' ''Emit an event with selected step payloads.'' True]"

definition default_registry :: "(string \<Rightarrow> params_model) \<Rightarrow> 'w PrimitiveRegistry" where
  "default_registry model =
     fold (\<lambda>c entries. register entries c (stub_handler (pc_name c))) (default_contracts model) []"

section \<open>The compiler\<close>

definition compiled_step :: "FlowStep \<Rightarrow> pydict \<Rightarrow> bool \<Rightarrow> CompiledStep" where
  "compiled_step step normalized_params side_effecting =
     \<lparr>cs_step_id = st_step_id step, cs_primitive = st_primitive step, cs_params = normalized_params,
      cs_side_effecting = side_effecting, cs_required_scopes = st_required_scopes step,
      cs_external_domain = st_external_domain step, cs_requires_network = st_requires_network step,
      cs_requests_auth = st_requests_auth step, cs_requested_scopes = st_requested_scopes step\<rparr>"

fun compile_steps ::
    "'w PrimitiveRegistry \<Rightarrow> FlowStep list \<Rightarrow> CompiledStep list \<Rightarrow> bool \<Rightarrow> string + CompiledStep list \<times> bool" where
  "compile_steps reg [] compiled_steps has_side_effects = Inr (compiled_steps, has_side_effects)"
| "compile_steps reg (step # steps) compiled_steps has_side_effects =
     (case map_of reg (st_primitive step) of
        None \<Rightarrow> Inl (''Unknown primitive '' @ quoted (st_primitive step) @ '' in step '' @ quoted (st_step_id step))
      | Some registration \<Rightarrow>
        (case validate_params registration (st_params step) of
           Inl exc \<Rightarrow> Inl (''Invalid params for primitive '' @ quoted (st_primitive step) @ '' in step '' @
             quoted (st_step_id step) @ '': '' @ ve_errors exc)
         | Inr normalized_params \<Rightarrow>
           (let side_effecting = pc_side_effecting (pr_contract registration) in
            compile_steps reg steps (compiled_steps @ [compiled_step step normalized_params side_effecting])
              (has_side_effects \<or> side_effecting))))"

definition SIDE_EFFECT_POLICY_BLOCK :: CompilationWarning where
  "SIDE_EFFECT_POLICY_BLOCK =
     \<lparr>cw_code = ''SIDE_EFFECT_POLICY_BLOCK'',
      cw_message = ''Flow contains side-effecting steps but policy does not allow '' @ ''unconfirmed side effects.'',
      cw_step_id = None\<rparr>"

definition NON_MANUAL_SIDE_EFFECTS :: CompilationWarning where
  "NON_MANUAL_SIDE_EFFECTS =
     \<lparr>cw_code = ''NON_MANUAL_SIDE_EFFECTS'',
      cw_message = ''Non-manual trigger with side-effecting steps requires explicit '' @ ''confirmation handling.'',
      cw_step_id = None\<rparr>"

definition compile_warnings :: "FlowSpec \<Rightarrow> bool \<Rightarrow> CompilationWarning list" where
  "compile_warnings spec has_side_effects =
     (if has_side_effects \<and> \<not> fp_allow_side_effects_without_confirmation (f_policy spec)
      then [SIDE_EFFECT_POLICY_BLOCK] else []) @
     (if ft_type (f_trigger spec) \<noteq> ''manual'' \<and> has_side_effects then [NON_MANUAL_SIDE_EFFECTS] else [])"

definition compile_flow :: "'w PrimitiveRegistry \<Rightarrow> FlowSpec \<Rightarrow> string + CompiledFlow" where
  "compile_flow reg spec =
     (case compile_steps reg (f_steps spec) [] False of
        Inl e \<Rightarrow> Inl e
      | Inr (compiled_steps, has_side_effects) \<Rightarrow>
        (let warnings = compile_warnings spec has_side_effects in
         Inr \<lparr>c_flow_id = f_flow_id spec, c_version = f_version spec, c_enabled = f_enabled spec,
           c_trigger = f_trigger spec, c_scope = f_scope spec, c_budget = f_budget spec,
           c_policy = f_policy spec, c_steps = compiled_steps, c_output = f_output spec,
           c_idempotency = f_idempotency spec, c_audit = f_audit spec, c_warnings = warnings,
           c_has_side_effects = has_side_effects, c_requires_confirmation = (warnings \<noteq> [])\<rparr>))"

section \<open>Lemmas\<close>

text \<open>What a step becomes: the registered contract decides on its side effects, its params are validated.\<close>

definition step_compiles :: "'w PrimitiveRegistry \<Rightarrow> FlowStep \<Rightarrow> CompiledStep \<Rightarrow> bool" where
  "step_compiles reg s c \<longleftrightarrow> (\<exists>r ps. map_of reg (st_primitive s) = Some r \<and> validate_params r (st_params s) = Inr ps \<and>
     c = compiled_step s ps (pc_side_effecting (pr_contract r)))"

lemma compile_steps_Inr:
  "compile_steps reg steps acc h = Inr (cs, h') \<longleftrightarrow>
     (\<exists>ds. cs = acc @ ds \<and> list_all2 (step_compiles reg) steps ds \<and> (h' \<longleftrightarrow> h \<or> (\<exists>d \<in> set ds. cs_side_effecting d)))"
proof (induction steps arbitrary: acc h)
  case (Cons s steps)
  show ?case
  proof (cases "\<exists>d. step_compiles reg s d")
    case True
    then obtain r ps where r: "map_of reg (st_primitive s) = Some r" "validate_params r (st_params s) = Inr ps"
      by (auto simp: step_compiles_def)
    let ?d = "compiled_step s ps (pc_side_effecting (pr_contract r))"
    have d: "step_compiles reg s x \<longleftrightarrow> x = ?d" for x using r by (auto simp: step_compiles_def)
    have side: "cs_side_effecting (compiled_step s ps b) = b" for b by (simp add: compiled_step_def)
    show ?thesis using Cons r by (auto simp: Let_def list_all2_Cons1 d side)
  next
    case False
    then show ?thesis
      by (auto simp: list_all2_Cons1 step_compiles_def Let_def split: option.splits sum.splits)
  qed
qed auto

lemma list_all2_ex: "(\<exists>ys. list_all2 P xs ys) \<longleftrightarrow> (\<forall>x \<in> set xs. \<exists>y. P x y)"
  by (induction xs) (auto simp: list_all2_Cons1)

lemma compile_flow_Inr:
  assumes "compile_flow reg spec = Inr c"
  shows "list_all2 (step_compiles reg) (f_steps spec) (c_steps c)"
    "c_has_side_effects c \<longleftrightarrow> (\<exists>d \<in> set (c_steps c). cs_side_effecting d)"
    "c_warnings c = compile_warnings spec (c_has_side_effects c)" "c_requires_confirmation c \<longleftrightarrow> c_warnings c \<noteq> []"
    "c_policy c = f_policy spec" "c_idempotency c = f_idempotency spec" "c_flow_id c = f_flow_id spec"
    "c_budget c = f_budget spec" "c_enabled c = f_enabled spec" "c_trigger c = f_trigger spec"
  using assms by (auto simp: compile_flow_def Let_def compile_steps_Inr split: sum.splits)

section \<open>Properties\<close>

text \<open>
  The compiler is exact: it succeeds exactly when every step names a registered primitive and its
  params pass validation; the plan then has the steps of the description one by one, each with its own
  id, scopes and network claims and with the side effects its contract declares; and it asks for
  confirmation exactly when some step has side effects and the policy forbids unconfirmed ones or the
  flow does not start by hand.
\<close>

theorem compile_flow_exact:
  "((\<exists>c. compile_flow reg spec = Inr c) \<longleftrightarrow> (\<forall>s \<in> set (f_steps spec). \<exists>d. step_compiles reg s d)) \<and>
   (compile_flow reg spec = Inr c \<longrightarrow>
     list_all2 (step_compiles reg) (f_steps spec) (c_steps c) \<and>
     (c_requires_confirmation c \<longleftrightarrow> (\<exists>d \<in> set (c_steps c). cs_side_effecting d) \<and>
       (\<not> fp_allow_side_effects_without_confirmation (f_policy spec) \<or> ft_type (f_trigger spec) \<noteq> ''manual'')))"
proof (rule conjI)
  have "(\<exists>c. compile_flow reg spec = Inr c) \<longleftrightarrow> (\<exists>ds. list_all2 (step_compiles reg) (f_steps spec) ds)"
  proof
    assume "\<exists>c. compile_flow reg spec = Inr c"
    then show "\<exists>ds. list_all2 (step_compiles reg) (f_steps spec) ds" using compile_flow_Inr(1) by blast
  next
    assume "\<exists>ds. list_all2 (step_compiles reg) (f_steps spec) ds"
    then have "\<exists>cs h. compile_steps reg (f_steps spec) [] False = Inr (cs, h)"
      unfolding compile_steps_Inr by blast
    then show "\<exists>c. compile_flow reg spec = Inr c" by (auto simp: compile_flow_def Let_def)
  qed
  also have "\<dots> \<longleftrightarrow> (\<forall>s \<in> set (f_steps spec). \<exists>d. step_compiles reg s d)"
    by (rule list_all2_ex)
  finally show "(\<exists>c. compile_flow reg spec = Inr c) \<longleftrightarrow> (\<forall>s \<in> set (f_steps spec). \<exists>d. step_compiles reg s d)" .
qed (auto simp: compile_flow_Inr compile_warnings_def)

text \<open>A flow of two steps, the second with side effects, that starts by hand.\<close>

definition demo_step :: "string \<Rightarrow> string \<Rightarrow> pydict \<Rightarrow> FlowStep" where
  "demo_step i p ps = \<lparr>st_step_id = i, st_primitive = p, st_params = ps, st_required_scopes = [], st_external_domain = None,
     st_requires_network = False, st_requests_auth = False, st_requested_scopes = []\<rparr>"

definition demo_flow :: FlowSpec where
  "demo_flow =
     \<lparr>f_flow_id = ''digest'', f_version = ''0.1'', f_enabled = True,
      f_trigger = \<lparr>ft_type = ''manual'', ft_schedule = None, ft_event_name = None\<rparr>,
      f_scope = \<lparr>fc_user_id = ''u1'', fc_project_ids = [], fc_thread_ids = [], fc_persona = None\<rparr>,
      f_budget = \<lparr>fb_max_steps = 10, fb_max_tokens = 4000, fb_timeout_seconds = 120\<rparr>,
      f_policy = \<lparr>fp_min_confidence = 3/4, fp_require_confirmation_below_threshold = True,
        fp_allow_side_effects_without_confirmation = False\<rparr>,
      f_steps = [demo_step ''sum'' ''summarize'' [(''schema_name'', PStr ''s''), (''api_key'', PStr ''k'')],
        demo_step ''post'' ''create_thread'' [(''title_template'', PStr ''t'')]],
      f_output = \<lparr>fo_store_as_thread = False, fo_store_as_codex = False, fo_emit_event = None\<rparr>,
      f_idempotency = \<lparr>fi_key_template = Some ''digest-{{date}}'', fi_mode = ''return_cached''\<rparr>,
      f_audit = \<lparr>fa_log_trace = True, fa_record_cost = True, fa_redact_fields = []\<rparr>\<rparr>"

definition demo_model :: "string \<Rightarrow> params_model" where
  "demo_model name = \<lparr>pm_validate = Inr, pm_schema = PNone\<rparr>"

definition demo_plan :: CompiledFlow where
  "demo_plan = (case compile_flow (default_registry demo_model :: unit PrimitiveRegistry) demo_flow of Inr c \<Rightarrow> c)"

lemma demo_compiles: "compile_flow (default_registry demo_model :: unit PrimitiveRegistry) demo_flow = Inr demo_plan"
proof -
  have "\<not> isl (compile_flow (default_registry demo_model :: unit PrimitiveRegistry) demo_flow)" by code_simp
  then show ?thesis
    unfolding demo_plan_def
    by (cases "compile_flow (default_registry demo_model :: unit PrimitiveRegistry) demo_flow") simp_all
qed

theorem compile_flow_exact_witness:
  "c_requires_confirmation demo_plan \<and> list_all2 (step_compiles (default_registry demo_model :: unit PrimitiveRegistry))
     (f_steps demo_flow) (c_steps demo_plan)"
proof -
  note t = compile_flow_exact [THEN conjunct2, rule_format, OF demo_compiles]
  have "list_ex cs_side_effecting (c_steps demo_plan)" by code_simp
  then have "\<exists>d \<in> set (c_steps demo_plan). cs_side_effecting d" by (simp add: list_ex_iff)
  moreover have "\<not> fp_allow_side_effects_without_confirmation (f_policy demo_flow)" by (simp add: demo_flow_def)
  ultimately show ?thesis using t by blast
qed

end
