(* ===== verification/Flow_Security.thy ===== *)
theory Flow_Security
  imports Flow_Spec
begin

text \<open>
  Model of \<^verbatim>\<open>guardian/flows/security.py\<close>: the capability envelope of a flow run, the security view of a
  step, and the checks before a run and before each step. Domains go through \<open>urllib.parse\<close>, whose host
  extraction is written out; whether a bracketed host is an address literal is a parameter, since the
  supported Python versions differ there. The result is what each check guarantees.
\<close>

section \<open>Host names\<close>

text \<open>\<open>urlparse(url).hostname\<close>. A \<open>ValueError\<close> for bad brackets is the left result; \<open>brackets\<close> gives its
  message for a netloc with both brackets.\<close>

definition scheme_char :: "char \<Rightarrow> bool" where
  "scheme_char c = (let n = (of_char c :: nat) in
     (48 \<le> n \<and> n \<le> 57) \<or> (65 \<le> n \<and> n \<le> 90) \<or> (97 \<le> n \<and> n \<le> 122) \<or> c \<in> {CHR ''+'', CHR ''-'', CHR ''.''})"

definition ascii_alpha :: "char \<Rightarrow> bool" where
  "ascii_alpha c = (let n = (of_char c :: nat) in (65 \<le> n \<and> n \<le> 90) \<or> (97 \<le> n \<and> n \<le> 122))"

definition drop_scheme :: "string \<Rightarrow> string" where
  "drop_scheme url =
     (let head = takeWhile (\<lambda>c. c \<noteq> CHR '':'') url in
      if length head < length url \<and> head \<noteq> [] \<and> ascii_alpha (hd head) \<and> list_all scheme_char head
      then drop (Suc (length head)) url else url)"

text \<open>\<open>urlsplit(url).scheme\<close> and \<open>.netloc\<close>.\<close>

definition url_scheme :: "string \<Rightarrow> string" where
  "url_scheme url =
     (let clean = filter (\<lambda>c. c \<notin> {CHR 0x09, CHR 0x0A, CHR 0x0D}) (dropWhile (\<lambda>c. (of_char c :: nat) \<le> 32) url);
          head = takeWhile (\<lambda>c. c \<noteq> CHR '':'') clean
      in if length head < length clean \<and> head \<noteq> [] \<and> ascii_alpha (hd head) \<and> list_all scheme_char head
         then lower head else [])"

definition url_netloc :: "string \<Rightarrow> string" where
  "url_netloc url =
     (let clean = filter (\<lambda>c. c \<notin> {CHR 0x09, CHR 0x0A, CHR 0x0D})
            (dropWhile (\<lambda>c. (of_char c :: nat) \<le> 32) url);
          rest = drop_scheme clean
      in if take 2 rest = ''//''
         then takeWhile (\<lambda>c. c \<notin> {CHR ''/'', CHR ''?'', CHR ''#''}) (drop 2 rest) else [])"

definition netloc_host :: "string \<Rightarrow> string" where
  "netloc_host netloc =
     (let hostinfo = rev (takeWhile (\<lambda>c. c \<noteq> CHR ''@'') (rev netloc));
          host = (if CHR ''['' \<in> set hostinfo
            then takeWhile (\<lambda>c. c \<noteq> CHR '']'') (drop 1 (dropWhile (\<lambda>c. c \<noteq> CHR ''['') hostinfo))
            else takeWhile (\<lambda>c. c \<noteq> CHR '':'') hostinfo)
      in lower (takeWhile (\<lambda>c. c \<noteq> CHR ''%'') host) @ dropWhile (\<lambda>c. c \<noteq> CHR ''%'') host)"

definition url_hostname :: "(string \<Rightarrow> string option) \<Rightarrow> string \<Rightarrow> py_error + string" where
  "url_hostname brackets url =
     (let netloc = url_netloc url in
      if (CHR ''['' \<in> set netloc) \<noteq> (CHR '']'' \<in> set netloc) then Inl (ValueError ''Invalid IPv6 URL'')
      else if CHR ''['' \<in> set netloc \<and> brackets netloc \<noteq> None then Inl (ValueError (the (brackets netloc)))
      else Inr (netloc_host netloc))"

definition normalize_domain :: "(string \<Rightarrow> string option) \<Rightarrow> pyval \<Rightarrow> py_error + string option" where
  "normalize_domain brackets value =
     (let raw = lower (strip (str_or_empty value)) in
      if raw = [] then Inr None
      else
        (let candidate = (if contains ''://'' raw then raw else ''https://'' @ raw) in
         case url_hostname brackets candidate of
           Inl e \<Rightarrow> Inl e
         | Inr hostname \<Rightarrow> Inr (or_none (lower (strip hostname)))))"

text \<open>\<open>{d for d in (normalize_domain(v) for v in values) if d}\<close>, in the order of the values.\<close>

fun normalize_domains :: "(string \<Rightarrow> string option) \<Rightarrow> pyval list \<Rightarrow> py_error + string list" where
  "normalize_domains brackets [] = Inr []"
| "normalize_domains brackets (v # vs) =
     (case normalize_domain brackets v of
        Inl e \<Rightarrow> Inl e
      | Inr d \<Rightarrow>
        (case normalize_domains brackets vs of
           Inl e \<Rightarrow> Inl e
         | Inr ds \<Rightarrow> Inr (case d of None \<Rightarrow> ds | Some x \<Rightarrow> x # ds)))"

section \<open>The envelope and the step view\<close>

record FlowExecutionContext =
  e_pre_authenticated :: bool
  e_granted_scopes :: "string list"
  e_allowed_external_domains :: "string list"
  e_allow_network_egress :: bool
  e_run_id :: string
  e_issued_at :: pydt
  e_expires_at :: pydt

record FlowStepSpec =
  ss_step_id :: string
  ss_action :: string
  ss_required_scopes :: "string list"
  ss_external_domain :: "string option"
  ss_requires_network :: bool
  ss_requests_auth :: bool
  ss_requested_scopes :: "string list"

text \<open>\<open>FlowSecurityError(code, message)\<close>, and any other exception.\<close>

datatype flow_error = FlowSecurityError (fe_code: string) (fe_message: string) | FlowPython py_error

definition clean_scopes :: "string list \<Rightarrow> string list" where
  "clean_scopes items = sort (remdups (filter (\<lambda>v. v \<noteq> []) (map strip items)))"

fun coerce_scopes :: "pyval \<Rightarrow> string list" where
  "coerce_scopes PNone = []"
| "coerce_scopes (PStr s) = (let v = strip s in if v \<noteq> [] then [v] else [])"
| "coerce_scopes (PList items) = clean_scopes (map py_str items)"
| "coerce_scopes (PDict items) = clean_scopes (map fst items)"
| "coerce_scopes _ = []"

text \<open>Python's \<open>a or b\<close>.\<close>

definition starts_with :: "string \<Rightarrow> string \<Rightarrow> bool" where
  "starts_with pre s = (take (length pre) s = pre)"

definition asks_auth :: "CompiledStep \<Rightarrow> bool" where
  "asks_auth step =
     (let action = lower (cs_primitive step); params = cs_params step in
      cs_requests_auth step \<or> action \<in> {''request_auth'', ''authenticate''} \<or> starts_with ''oauth_'' action \<or>
      starts_with ''auth_'' action \<or> starts_with ''request_scope'' action \<or> starts_with ''grant_scope'' action \<or>
      truthy (dict_get params ''request_auth'') \<or> truthy (dict_get params ''prompt_for_auth'') \<or>
      truthy (dict_get params ''auth_prompt''))"

text \<open>The domain before its last normalisation: the step's, that of the params, or the host of a \<open>url\<close> text.\<close>

definition step_domain :: "(string \<Rightarrow> string option) \<Rightarrow> CompiledStep \<Rightarrow> py_error + pyval" where
  "step_domain brackets step =
     (let params = cs_params step;
          external_domain = py_or (opt_str (cs_external_domain step)) (dict_get params ''external_domain'')
      in case (truthy external_domain, dict_get params ''url'') of
           (False, PStr url) \<Rightarrow>
             (case normalize_domain brackets (PStr url) of Inl e \<Rightarrow> Inl e | Inr d \<Rightarrow> Inr (opt_str d))
         | _ \<Rightarrow> Inr external_domain)"

text \<open>An empty id or action is a \<open>ValidationError\<close> of pydantic, a \<open>ValueError\<close> whose text is not modelled.\<close>

definition build_step_spec :: "(string \<Rightarrow> string option) \<Rightarrow> CompiledStep \<Rightarrow> py_error + FlowStepSpec" where
  "build_step_spec brackets step =
     (let params = cs_params step in
      case step_domain brackets step of
        Inl e \<Rightarrow> Inl e
      | Inr external_domain \<Rightarrow>
        (case normalize_domain brackets external_domain of
           Inl e \<Rightarrow> Inl e
         | Inr domain \<Rightarrow>
           if cs_step_id step = [] \<or> cs_primitive step = [] then Inl (ValueError ''FlowStepSpec'')
           else Inr \<lparr>ss_step_id = cs_step_id step, ss_action = cs_primitive step,
            ss_required_scopes = coerce_scopes
              (py_or (str_list (cs_required_scopes step)) (dict_get params ''required_scopes'')),
            ss_external_domain = domain,
            ss_requires_network = (cs_requires_network step \<or> truthy (dict_get params ''requires_network'')),
            ss_requests_auth = asks_auth step,
            ss_requested_scopes = coerce_scopes (py_or (str_list (cs_requested_scopes step))
              (py_or (dict_get params ''request_scopes'') (py_or (dict_get params ''additional_scopes'')
                (dict_get params ''grant_scopes''))))\<rparr>))"

fun build_step_specs :: "(string \<Rightarrow> string option) \<Rightarrow> CompiledStep list \<Rightarrow> py_error + FlowStepSpec list" where
  "build_step_specs brackets [] = Inr []"
| "build_step_specs brackets (step # steps) =
     (case build_step_spec brackets step of
        Inl e \<Rightarrow> Inl e
      | Inr spec \<Rightarrow> (case build_step_specs brackets steps of Inl e \<Rightarrow> Inl e | Inr specs \<Rightarrow> Inr (spec # specs)))"

section \<open>The context of a run\<close>

text \<open>
  Reading the context out of a dictionary is pydantic's: \<open>cx_read payload issued expires\<close> gives the context
  or the text of the error, where \<open>issued\<close> and \<open>expires\<close> are the two datetime objects the code puts into
  the payload when it has none; \<open>cx_error\<close> is the text pydantic makes of a message its validator raised, and \<open>cx_dict\<close>
  is \<open>dict(v)\<close> on a value that is neither empty nor a dictionary.
\<close>

record ctx_reader =
  cx_read :: "pydict \<Rightarrow> pydt option \<Rightarrow> pydt option \<Rightarrow> string + FlowExecutionContext"
  cx_error :: "string \<Rightarrow> string"
  cx_dict :: "pyval \<Rightarrow> string + pydict"

definition validate_window :: "ctx_reader \<Rightarrow> FlowExecutionContext \<Rightarrow> string + FlowExecutionContext" where
  "validate_window reader self =
     (case dt_le (e_expires_at self) (e_issued_at self) of
        Inl _ \<Rightarrow> Inl (''can'' @ [CHR 0x27] @ ''t compare offset-naive and offset-aware datetimes'')
      | Inr True \<Rightarrow> Inl (cx_error reader ''expires_at must be after issued_at'')
      | Inr False \<Rightarrow> Inr self)"

definition context_payload :: "pydict \<Rightarrow> string \<Rightarrow> pydict" where
  "context_payload raw run_id =
     dict_setdefault (dict_setdefault (dict_setdefault (dict_setdefault (dict_setdefault raw
       ''pre_authenticated'' (PBool True)) ''granted_scopes'' (PList [])) ''allowed_external_domains'' (PList []))
       ''allow_network_egress'' (PBool False)) ''run_id'' (PStr run_id)"

definition coerce_execution_context :: "ctx_reader \<Rightarrow> pydt \<Rightarrow> pyval \<Rightarrow> string \<Rightarrow> string + FlowExecutionContext" where
  "coerce_execution_context reader now raw_context run_id =
     (case (if \<not> truthy raw_context then Inr [] else case raw_context of PDict d \<Rightarrow> Inr d | v \<Rightarrow> cx_dict reader v) of
        Inl e \<Rightarrow> Inl e
      | Inr raw \<Rightarrow>
        (let payload = context_payload raw run_id;
             issued = (if map_of payload ''issued_at'' = None then Some now else None);
             expires = (if map_of payload ''expires_at'' = None then Some (dt_add_us now 900000000) else None)
         in case cx_read reader payload issued expires of
              Inl e \<Rightarrow> Inl e
            | Inr ctx \<Rightarrow> validate_window reader ctx))"

section \<open>The checks\<close>

definition build_preflight_contract :: "FlowStepSpec list \<Rightarrow> pydict" where
  "build_preflight_contract step_specs =
     [(''steps_count'', PInt (int (length step_specs))),
      (''required_scopes'', str_list (sort (remdups (concat (map ss_required_scopes step_specs))))),
      (''external_domains'', str_list (sort (remdups (filter (\<lambda>d. d \<noteq> []) (concat (map
         (\<lambda>s. case ss_external_domain s of None \<Rightarrow> [] | Some d \<Rightarrow> [d]) step_specs)))))),
      (''requires_network_egress'', PBool (list_ex ss_requires_network step_specs))]"

definition list_text :: "string list \<Rightarrow> string" where
  "list_text xs = py_repr (str_list xs)"

definition set_diff :: "string list \<Rightarrow> string list \<Rightarrow> string list" where
  "set_diff xs ys = sort (remdups (filter (\<lambda>x. x \<notin> set ys) xs))"

definition list_items :: "pyval \<Rightarrow> pyval list" where
  "list_items v = (case v of PList xs \<Rightarrow> xs | _ \<Rightarrow> [])"

definition validate_preflight_contract ::
    "(string \<Rightarrow> string option) \<Rightarrow> pydt \<Rightarrow> pydict \<Rightarrow> FlowExecutionContext \<Rightarrow> flow_error option" where
  "validate_preflight_contract brackets now contract1 ctx =
     (if \<not> e_pre_authenticated ctx
      then Some (FlowSecurityError ''pre_auth_required'' ''Flow execution requires pre_authenticated=true.'')
      else case dt_le (e_expires_at ctx) now of
        Inl e \<Rightarrow> Some (FlowPython e)
      | Inr True \<Rightarrow> Some (FlowSecurityError ''execution_context_expired'' ''Execution context is expired.'')
      | Inr False \<Rightarrow>
        (let missing = set_diff (coerce_scopes (dict_get contract1 ''required_scopes'')) (e_granted_scopes ctx) in
         if missing \<noteq> []
         then Some (FlowSecurityError ''missing_scopes''
                (''Flow requires scopes not granted at run start: '' @ list_text missing))
         else if truthy (dict_get contract1 ''requires_network_egress'') \<and> \<not> e_allow_network_egress ctx
         then Some (FlowSecurityError ''network_egress_blocked''
                ''Flow requires network egress but allow_network_egress is false.'')
         else
           (case normalize_domains brackets (map PStr (e_allowed_external_domains ctx)) of
              Inl e \<Rightarrow> Some (FlowPython e)
            | Inr allowed_domains \<Rightarrow>
              (case normalize_domains brackets (list_items (dict_get contract1 ''external_domains'')) of
                 Inl e \<Rightarrow> Some (FlowPython e)
               | Inr external_domains \<Rightarrow>
                 (let not_allowed = set_diff external_domains allowed_domains in
                  if not_allowed \<noteq> []
                  then Some (FlowSecurityError ''external_domain_not_allowed''
                         (''Flow targets domains not pre-approved in execution context: '' @ list_text not_allowed))
                  else None)))))"

definition validate_step :: "(string \<Rightarrow> string option) \<Rightarrow> FlowStepSpec \<Rightarrow> FlowExecutionContext \<Rightarrow> flow_error option" where
  "validate_step brackets step_spec ctx =
     (let name = ''Step '' @ quoted (ss_step_id step_spec);
          missing = set_diff (ss_required_scopes step_spec) (e_granted_scopes ctx)
      in if ss_requests_auth step_spec
         then Some (FlowSecurityError ''mid_flow_auth_forbidden'' (name @ '' attempted mid-flow auth request.''))
         else if ss_requested_scopes step_spec \<noteq> []
         then Some (FlowSecurityError ''scope_escalation_forbidden''
                (name @ '' attempted to request additional scopes: '' @ list_text (ss_requested_scopes step_spec)))
         else if missing \<noteq> []
         then Some (FlowSecurityError ''missing_scopes'' (name @ '' requires missing scopes: '' @ list_text missing))
         else if \<not> ss_requires_network step_spec then None
         else if \<not> e_allow_network_egress ctx
         then Some (FlowSecurityError ''network_egress_blocked''
                (name @ '' requires network egress but execution context forbids it.''))
         else
           (if \<not> given (ss_external_domain step_spec)
            then Some (FlowSecurityError ''external_domain_missing''
                   (name @ '' requires network but external_domain is missing.''))
            else
              (case normalize_domains brackets (map PStr (e_allowed_external_domains ctx)) of
                 Inl e \<Rightarrow> Some (FlowPython e)
               | Inr allowed_domains \<Rightarrow>
                 if the (ss_external_domain step_spec) \<notin> set allowed_domains
                 then Some (FlowSecurityError ''external_domain_not_allowed'' (name @ '' targets '' @
                        quoted (the (ss_external_domain step_spec)) @ '' which is not pre-approved.''))
                 else None)))"

section \<open>What the checks guarantee\<close>

definition step_permitted :: "(string \<Rightarrow> string option) \<Rightarrow> FlowStepSpec \<Rightarrow> FlowExecutionContext \<Rightarrow> bool" where
  "step_permitted brackets spec ctx \<longleftrightarrow>
     \<not> ss_requests_auth spec \<and> ss_requested_scopes spec = [] \<and>
     set (ss_required_scopes spec) \<subseteq> set (e_granted_scopes ctx) \<and>
     (ss_requires_network spec \<longrightarrow> e_allow_network_egress ctx \<and>
       (\<exists>d ds. ss_external_domain spec = Some d \<and> d \<noteq> [] \<and> d \<in> set ds \<and>
         normalize_domains brackets (map PStr (e_allowed_external_domains ctx)) = Inr ds))"

lemma set_diff_Nil [simp]: "set_diff xs ys = [] \<longleftrightarrow> set xs \<subseteq> set ys"
  unfolding set_empty [symmetric] by (auto simp: set_diff_def)

lemma validate_step_None: "validate_step brackets spec ctx = None \<longleftrightarrow> step_permitted brackets spec ctx"
proof (cases "ss_requires_network spec")
  case True
  then show ?thesis
    by (cases "ss_external_domain spec"; cases "normalize_domains brackets (map PStr (e_allowed_external_domains ctx))")
      (auto simp: validate_step_def step_permitted_def Let_def given_def)
qed (auto simp: validate_step_def step_permitted_def Let_def)

lemma preflight_None:
  assumes "validate_preflight_contract brackets now contract1 ctx = None"
  shows "e_pre_authenticated ctx" "dt_le (e_expires_at ctx) now = Inr False"
    "set (coerce_scopes (dict_get contract1 ''required_scopes'')) \<subseteq> set (e_granted_scopes ctx)"
    "truthy (dict_get contract1 ''requires_network_egress'') \<Longrightarrow> e_allow_network_egress ctx"
  using assms by (auto simp: validate_preflight_contract_def Let_def split: if_splits sum.splits bool.splits)

lemma coerce_scopes_clean: "x \<in> set (coerce_scopes v) \<Longrightarrow> strip x = x \<and> x \<noteq> []"
  by (cases v rule: coerce_scopes.cases) (auto simp: clean_scopes_def Let_def split: if_splits)

lemma coerce_scopes_str_list:
  "\<forall>x \<in> set xs. strip x = x \<and> x \<noteq> [] \<Longrightarrow> set (coerce_scopes (str_list xs)) = set xs"
  by (force simp: str_list_def clean_scopes_def py_str_def)

lemma build_step_specs_in:
  "build_step_specs brackets steps = Inr specs \<Longrightarrow> spec \<in> set specs \<Longrightarrow>
     \<exists>step \<in> set steps. build_step_spec brackets step = Inr spec"
  by (induction steps arbitrary: specs) (auto split: sum.splits)

lemma build_step_spec_scopes:
  "build_step_spec brackets step = Inr spec \<Longrightarrow> x \<in> set (ss_required_scopes spec) \<Longrightarrow> strip x = x \<and> x \<noteq> []"
  by (auto simp: build_step_spec_def Let_def split: sum.splits if_splits dest: coerce_scopes_clean)

lemma contract_fields:
  "dict_get (build_preflight_contract specs) ''required_scopes'' =
     str_list (sort (remdups (concat (map ss_required_scopes specs))))"
  "dict_get (build_preflight_contract specs) ''requires_network_egress'' = PBool (list_ex ss_requires_network specs)"
  by (simp_all add: build_preflight_contract_def dict_get_def)

section \<open>Property\<close>

text \<open>
  The check before the run covers the steps: when the contract built from the steps of a plan passes,
  the context was authenticated in advance and has not expired, and the check before a step can then
  refuse it only for asking for authority in the middle of the run or for its domain, never for a missing
  scope or for network access.
\<close>

theorem preflight_covers_steps:
  assumes "build_step_specs brackets steps = Inr specs"
    "validate_preflight_contract brackets now (build_preflight_contract specs) ctx = None" "spec \<in> set specs"
  shows "e_pre_authenticated ctx \<and> dt_le (e_expires_at ctx) now = Inr False \<and>
    set (ss_required_scopes spec) \<subseteq> set (e_granted_scopes ctx) \<and>
    (ss_requires_network spec \<longrightarrow> e_allow_network_egress ctx) \<and>
    (\<forall>code msg. validate_step brackets spec ctx = Some (FlowSecurityError code msg) \<longrightarrow>
       code \<in> {''mid_flow_auth_forbidden'', ''scope_escalation_forbidden'', ''external_domain_missing'',
         ''external_domain_not_allowed''})"
proof -
  note p = preflight_None [OF assms(2), unfolded contract_fields]
  have "\<forall>x \<in> set (sort (remdups (concat (map ss_required_scopes specs)))). strip x = x \<and> x \<noteq> []"
    using build_step_specs_in [OF assms(1)] build_step_spec_scopes by (auto, blast+)
  from p(3) [unfolded coerce_scopes_str_list [OF this]] assms(3)
  have scopes: "set (ss_required_scopes spec) \<subseteq> set (e_granted_scopes ctx)" by auto
  have egress: "ss_requires_network spec \<longrightarrow> e_allow_network_egress ctx"
    using p(4) assms(3) by (auto simp: list_ex_iff)
  have "code \<in> {''mid_flow_auth_forbidden'', ''scope_escalation_forbidden'', ''external_domain_missing'',
         ''external_domain_not_allowed''}" if "validate_step brackets spec ctx = Some (FlowSecurityError code msg)" for code msg
    using that scopes egress
    by (auto simp: validate_step_def Let_def split: if_splits sum.splits)
  with p scopes egress show ?thesis by blast
qed

definition demo_context :: FlowExecutionContext where
  "demo_context =
     \<lparr>e_pre_authenticated = True, e_granted_scopes = [''threads.read''], e_allowed_external_domains = [''https://API.example.com/v1''],
      e_allow_network_egress = True, e_run_id = ''r1'', e_issued_at = \<lparr>wall = 0, utcoff = Some 0\<rparr>,
      e_expires_at = \<lparr>wall = 900000000, utcoff = Some 0\<rparr>\<rparr>"

definition demo_net_step :: CompiledStep where
  "demo_net_step =
     \<lparr>cs_step_id = ''s1'', cs_primitive = ''summarize'', cs_params = [(''url'', PStr ''api.example.com:443/x'')],
      cs_side_effecting = False, cs_required_scopes = [''threads.read''], cs_external_domain = None,
      cs_requires_network = True, cs_requests_auth = False, cs_requested_scopes = []\<rparr>"

definition demo_net_spec :: FlowStepSpec where
  "demo_net_spec =
     \<lparr>ss_step_id = ''s1'', ss_action = ''summarize'', ss_required_scopes = [''threads.read''],
      ss_external_domain = Some ''api.example.com'', ss_requires_network = True, ss_requests_auth = False,
      ss_requested_scopes = []\<rparr>"

lemma demo_net_spec_built: "build_step_specs (\<lambda>_. None) [demo_net_step] = Inr [demo_net_spec]"
  by code_simp

lemma demo_preflight:
  "validate_preflight_contract (\<lambda>_. None) \<lparr>wall = 60000000, utcoff = Some 0\<rparr>
     (build_preflight_contract [demo_net_spec]) demo_context = None"
  by code_simp

theorem preflight_covers_steps_witness:
  "set (ss_required_scopes demo_net_spec) \<subseteq> set (e_granted_scopes demo_context) \<and> e_pre_authenticated demo_context"
  using preflight_covers_steps [OF demo_net_spec_built demo_preflight] by simp

end
