(* ===== verification/Flow_Runner.thy ===== *)
theory Flow_Runner
  imports Flow_Security
begin

text \<open>
  Model of \<^verbatim>\<open>guardian/flows/runner.py\<close>: the execution of a compiled flow with its confirmation gate, its
  budgets, the security check before every step, the redacted trace and the cache of runs by idempotency
  key. Handlers act on a world that is passed along; the readings of the clocks, the hash and pydantic's
  reader of the execution context are parameters. Handlers do not change the dictionaries they are given,
  and a cached run is not changed by its holder.
\<close>

section \<open>JSON text\<close>

text \<open>\<open>json.dumps(payload, sort_keys=True, default=str)\<close>.\<close>

definition json_char :: "char \<Rightarrow> string" where
  "json_char c =
     (let n = (of_char c :: nat) in
      if c = CHR 0x22 \<or> c = CHR 0x5C then [CHR 0x5C, c]
      else if n = 10 then [CHR 0x5C, CHR ''n''] else if n = 13 then [CHR 0x5C, CHR ''r'']
      else if n = 9 then [CHR 0x5C, CHR ''t''] else if n = 12 then [CHR 0x5C, CHR ''f'']
      else if n = 8 then [CHR 0x5C, CHR ''b'']
      else if 32 \<le> n \<and> n \<le> 126 then [c]
      else [CHR 0x5C, CHR ''u'', CHR ''0'', CHR ''0'', hex_digit (n div 16), hex_digit (n mod 16)])"

definition json_str :: "string \<Rightarrow> string" where
  "json_str s = [CHR 0x22] @ concat (map json_char s) @ [CHR 0x22]"

definition json_float :: "pyfloat \<Rightarrow> string" where
  "json_float f =
     (let t = float_repr f in
      if t = ''inf'' then ''Infinity'' else if t = ''-inf'' then ''-Infinity'' else if t = ''nan'' then ''NaN'' else t)"

fun json_dumps :: "pyval \<Rightarrow> string"
  and json_list :: "pyval list \<Rightarrow> string list"
  and json_items :: "(string \<times> pyval) list \<Rightarrow> (string \<times> string) list" where
  "json_dumps PNone = ''null''"
| "json_dumps (PBool b) = (if b then ''true'' else ''false'')"
| "json_dumps (PInt i) = show_int i"
| "json_dumps (PFloat f) = json_float f"
| "json_dumps (PStr s) = json_str s"
| "json_dumps (PList xs) = ''['' @ join_with '', '' (json_list xs) @ '']''"
| "json_dumps (PDict items) =
     ''{'' @ join_with '', '' (map (\<lambda>(k, v). json_str k @ '': '' @ v) (sort_key fst (json_items items))) @ ''}''"
| "json_list [] = []"
| "json_list (x # xs) = json_dumps x # json_list xs"
| "json_items [] = []"
| "json_items ((k, v) # items) = (k, json_dumps v) # json_items items"

section \<open>Records\<close>

record FlowStepResult =
  sr_step_id :: string
  sr_primitive :: string
  sr_status :: string
  sr_started_at :: pydt
  sr_ended_at :: "pydt option"
  sr_params_redacted :: pydict
  sr_output :: pydict
  sr_error :: "string option"
  sr_token_usage :: "int option"

record FlowRun =
  fr_run_id :: string
  fr_flow_id :: string
  fr_version :: string
  fr_status :: string
  fr_started_at :: pydt
  fr_ended_at :: "pydt option"
  fr_step_results :: "FlowStepResult list"
  fr_output :: pydict
  fr_warnings :: "string list"
  fr_error :: "string option"
  fr_idempotency_key :: "string option"
  fr_needs_confirmation :: bool

text \<open>
  What a run reads from outside: the hash, pydantic's reader, the bracket check of \<open>urlparse\<close>, and the
  clocks. \<open>en_elapsed i\<close> is the time since the start that iteration \<open>i\<close> reads, in seconds.
\<close>

record flow_env =
  en_sha256_hex :: "string \<Rightarrow> string"
  en_reader :: ctx_reader
  en_brackets :: "string \<Rightarrow> string option"
  en_started_at :: pydt
  en_context_now :: pydt
  en_preflight_now :: pydt
  en_ended_at :: pydt
  en_elapsed :: "nat \<Rightarrow> rat"
  en_step_started :: "nat \<Rightarrow> pydt"
  en_step_ended :: "nat \<Rightarrow> pydt"

type_synonym run_cache = "string \<rightharpoonup> FlowRun"

definition clear_run_cache :: "run_cache \<Rightarrow> run_cache" where
  "clear_run_cache cache = Map.empty"

section \<open>Helpers\<close>

definition estimate_tokens :: "pyval \<Rightarrow> int" where
  "estimate_tokens payload = max 1 (int (length (json_dumps payload)) div 4)"

text \<open>\<open>s.replace(old, new)\<close> for a text \<open>old\<close> that is not empty.\<close>

fun replace_all :: "string \<Rightarrow> string \<Rightarrow> string \<Rightarrow> string" where
  "replace_all old new [] = []"
| "replace_all old new (c # cs) =
     (if take (length old) (c # cs) = old then new @ replace_all old new (drop (length old - 1) cs)
      else c # replace_all old new cs)"

definition placeholder :: "string \<Rightarrow> string" where
  "placeholder key = ''{{'' @ key @ ''}}''"

definition render_template :: "string option \<Rightarrow> pydict \<Rightarrow> string option" where
  "render_template template values1 =
     (case template of
        None \<Rightarrow> None
      | Some [] \<Rightarrow> None
      | Some t \<Rightarrow> Some (fold (\<lambda>(key, v) rendered. replace_all (placeholder key) (py_str v) rendered) values1 t))"

text \<open>The pattern \<open>(api[_-]?key|authorization|cookie|token|secret)\<close> found in a lower-case key.\<close>

definition sensitive_key :: "string \<Rightarrow> bool" where
  "sensitive_key key = list_ex (\<lambda>p. contains p key)
     [''apikey'', ''api_key'', ''api-key'', ''authorization'', ''cookie'', ''token'', ''secret'']"

definition redact_payload :: "pydict \<Rightarrow> string list \<Rightarrow> pydict" where
  "redact_payload payload explicit_redactions =
     map (\<lambda>(key, v). (key, if lower key \<in> set (map lower explicit_redactions) \<or> sensitive_key (lower key)
       then PStr ''<redacted>'' else v)) payload"

definition build_idempotency_key :: "CompiledFlow \<Rightarrow> pydict \<Rightarrow> string option" where
  "build_idempotency_key compiled context =
     (let rendered = render_template (fi_key_template (c_idempotency compiled)) context in
      if given rendered then rendered
      else case dict_get context ''idempotency_key'' of PStr (c # cs) \<Rightarrow> Some (c # cs) | _ \<Rightarrow> None)"

section \<open>The loop over the steps\<close>

record loop_state =
  lp_status :: string
  lp_error :: "string option"
  lp_results :: "FlowStepResult list"
  lp_tokens :: int
  lp_outputs :: "(string \<times> pydict) list"

definition outputs_value :: "(string \<times> pydict) list \<Rightarrow> pyval" where
  "outputs_value outputs = PDict (map (\<lambda>(k, v). (k, PDict v)) outputs)"

definition handler_context :: "CompiledFlow \<Rightarrow> pydict \<Rightarrow> loop_state \<Rightarrow> pydict" where
  "handler_context compiled run_context lp =
     [(''flow_id'', PStr (c_flow_id compiled)), (''step_outputs'', outputs_value (lp_outputs lp)),
      (''context'', PDict run_context)]"

definition step_result :: "flow_env \<Rightarrow> nat \<Rightarrow> CompiledFlow \<Rightarrow> CompiledStep \<Rightarrow> string \<Rightarrow> pydict \<Rightarrow> string option \<Rightarrow>
    FlowStepResult" where
  "step_result env i compiled step status output err =
     \<lparr>sr_step_id = cs_step_id step, sr_primitive = cs_primitive step, sr_status = status,
      sr_started_at = en_step_started env i, sr_ended_at = Some (en_step_ended env i),
      sr_params_redacted = redact_payload (cs_params step) (fa_redact_fields (c_audit compiled)),
      sr_output = output, sr_error = err,
      sr_token_usage = Some (if output \<noteq> [] then estimate_tokens (PDict output) else 0)\<rparr>"

definition stop_loop :: "string \<Rightarrow> string \<Rightarrow> loop_state \<Rightarrow> loop_state" where
  "stop_loop status err lp = lp\<lparr>lp_status := status, lp_error := Some err\<rparr>"

definition add_result :: "FlowStepResult \<Rightarrow> loop_state \<Rightarrow> loop_state" where
  "add_result r lp = lp\<lparr>lp_results := lp_results lp @ [r]\<rparr>"

text \<open>One iteration after the checks: invoke the primitive, record the result, account for the tokens.
  The flag says whether the loop goes on.\<close>

definition run_step ::
    "flow_env \<Rightarrow> CompiledFlow \<Rightarrow> pydict \<Rightarrow> 'w PrimitiveRegistry \<Rightarrow> nat \<Rightarrow> CompiledStep \<Rightarrow> loop_state \<Rightarrow> 'w \<Rightarrow>
      (bool \<times> loop_state) \<times> 'w" where
  "run_step env compiled run_context reg i step lp w =
     (case invoke_primitive reg (cs_primitive step) (cs_params step) (handler_context compiled run_context lp) w of
        (Inl exc, w') \<Rightarrow>
          ((False, stop_loop ''failed'' (''Step '' @ quoted (cs_step_id step) @ '' failed: '' @ exc)
             (add_result (step_result env i compiled step ''error'' [] (Some exc)) lp)), w')
      | (Inr output, w') \<Rightarrow>
        (let tokens = lp_tokens lp + estimate_tokens (PDict (cs_params step)) + estimate_tokens (PDict output);
             lp' = (add_result (step_result env i compiled step ''ok'' output None) lp)
               \<lparr>lp_tokens := tokens, lp_outputs := AList.update (cs_step_id step) output (lp_outputs lp)\<rparr>
         in if fb_max_tokens (c_budget compiled) < tokens
            then ((False, stop_loop ''failed'' ''Token budget exhausted during execution'' lp'), w')
            else ((True, lp'), w')))"

fun run_steps ::
    "flow_env \<Rightarrow> CompiledFlow \<Rightarrow> FlowExecutionContext \<Rightarrow> pydict \<Rightarrow> 'w PrimitiveRegistry \<Rightarrow> nat \<Rightarrow>
      (CompiledStep \<times> FlowStepSpec) list \<Rightarrow> loop_state \<Rightarrow> 'w \<Rightarrow> (py_error + loop_state) \<times> 'w" where
  "run_steps env compiled ctx run_context reg i [] lp w = (Inr lp, w)"
| "run_steps env compiled ctx run_context reg i ((step, step_spec) # rest) lp w =
     (if of_int (fb_timeout_seconds (c_budget compiled)) < en_elapsed env i
      then (Inr (stop_loop ''failed'' ''Execution timed out'' lp), w)
      else if fb_max_steps (c_budget compiled) \<le> int (length (lp_results lp))
      then (Inr (stop_loop ''failed'' ''Step budget exhausted during execution'' lp), w)
      else
        (case validate_step (en_brackets env) step_spec ctx of
           Some (FlowPython e) \<Rightarrow> (Inl e, w)
         | Some (FlowSecurityError code message) \<Rightarrow>
           (let step_error = code @ '': '' @ message in
            (Inr (stop_loop ''blocked'' step_error
               (add_result (step_result env i compiled step ''blocked'' [] (Some step_error)) lp)), w))
         | None \<Rightarrow>
           (case run_step env compiled run_context reg i step lp w of
              ((True, lp'), w') \<Rightarrow> run_steps env compiled ctx run_context reg (Suc i) rest lp' w'
            | ((False, lp'), w') \<Rightarrow> (Inr lp', w'))))"

section \<open>A run\<close>

definition start_loop :: loop_state where
  "start_loop = \<lparr>lp_status = ''running'', lp_error = None, lp_results = [], lp_tokens = 0, lp_outputs = []\<rparr>"

definition run_id_of :: "flow_env \<Rightarrow> CompiledFlow \<Rightarrow> pydict \<Rightarrow> string" where
  "run_id_of env compiled run_context =
     take 16 (en_sha256_hex env (json_dumps (PDict
       [(''flow_id'', PStr (c_flow_id compiled)), (''context'', PDict run_context)])))"

definition new_run :: "flow_env \<Rightarrow> CompiledFlow \<Rightarrow> string \<Rightarrow> string option \<Rightarrow> FlowRun" where
  "new_run env compiled run_id idempotency_key =
     \<lparr>fr_run_id = run_id, fr_flow_id = c_flow_id compiled, fr_version = c_version compiled, fr_status = ''running'',
      fr_started_at = en_started_at env, fr_ended_at = None, fr_step_results = [], fr_output = [],
      fr_warnings = map cw_message (c_warnings compiled), fr_error = None,
      fr_idempotency_key = idempotency_key, fr_needs_confirmation = False\<rparr>"

definition stop_run :: "flow_env \<Rightarrow> string \<Rightarrow> string \<Rightarrow> FlowRun \<Rightarrow> FlowRun" where
  "stop_run env status err run = run\<lparr>fr_status := status, fr_error := Some err, fr_ended_at := Some (en_ended_at env)\<rparr>"

text \<open>The run after the loop, and the cache with it.\<close>

definition finish_run :: "flow_env \<Rightarrow> FlowRun \<Rightarrow> loop_state \<Rightarrow> FlowRun" where
  "finish_run env run lp =
     run\<lparr>fr_status := (if lp_status lp = ''running'' then ''success'' else lp_status lp), fr_error := lp_error lp,
       fr_step_results := lp_results lp,
       fr_output := dict_set (fr_output run) ''step_outputs'' (outputs_value (lp_outputs lp)),
       fr_ended_at := Some (en_ended_at env)\<rparr>"

definition store_run :: "CompiledFlow \<Rightarrow> FlowRun \<Rightarrow> run_cache \<Rightarrow> run_cache" where
  "store_run compiled run cache =
     (case fr_idempotency_key run of
        Some (c # cs) \<Rightarrow>
          if fi_mode (c_idempotency compiled) \<in> {''return_cached'', ''skip_if_running''}
          then cache((c # cs) \<mapsto> run) else cache
      | _ \<Rightarrow> cache)"

text \<open>The part behind the gates: context, preflight, loop.\<close>

definition execute_flow ::
    "flow_env \<Rightarrow> CompiledFlow \<Rightarrow> pydict \<Rightarrow> 'w PrimitiveRegistry \<Rightarrow> run_cache \<Rightarrow> FlowRun \<Rightarrow> 'w \<Rightarrow>
      (py_error + FlowRun) \<times> run_cache \<times> 'w" where
  "execute_flow env compiled run_context reg cache run w =
     (case coerce_execution_context (en_reader env) (en_context_now env) (dict_get run_context ''execution_context'')
             (fr_run_id run) of
        Inl exc \<Rightarrow> (Inr (stop_run env ''failed'' (''invalid_execution_context: '' @ exc) run), cache, w)
      | Inr ctx \<Rightarrow>
        (case build_step_specs (en_brackets env) (c_steps compiled) of
           Inl e \<Rightarrow> (Inl e, cache, w)
         | Inr step_specs \<Rightarrow>
           (let preflight_contract = build_preflight_contract step_specs;
                run' = run\<lparr>fr_output := [(''preflight_contract'', PDict preflight_contract)]\<rparr>
            in case validate_preflight_contract (en_brackets env) (en_preflight_now env) preflight_contract ctx of
                 Some (FlowSecurityError code message) \<Rightarrow>
                   (Inr (stop_run env ''blocked'' (code @ '': '' @ message) run'), cache, w)
               | Some (FlowPython e) \<Rightarrow> (Inl e, cache, w)
               | None \<Rightarrow>
                 (case run_steps env compiled ctx run_context reg 0 (zip (c_steps compiled) step_specs) start_loop w of
                    (Inl e, w') \<Rightarrow> (Inl e, cache, w')
                  | (Inr lp, w') \<Rightarrow>
                    (let done1 = finish_run env run' lp in (Inr done1, store_run compiled done1 cache, w'))))))"

definition cached_run :: "CompiledFlow \<Rightarrow> string option \<Rightarrow> run_cache \<Rightarrow> FlowRun option" where
  "cached_run compiled idempotency_key cache =
     (case idempotency_key of
        Some (c # cs) \<Rightarrow> if fi_mode (c_idempotency compiled) = ''return_cached'' then cache (c # cs) else None
      | _ \<Rightarrow> None)"

definition run_flow ::
    "flow_env \<Rightarrow> CompiledFlow \<Rightarrow> pydict \<Rightarrow> 'w PrimitiveRegistry \<Rightarrow> run_cache \<Rightarrow> 'w \<Rightarrow>
      (py_error + FlowRun) \<times> run_cache \<times> 'w" where
  "run_flow env compiled run_context reg cache w =
     (let run_id = run_id_of env compiled run_context;
          idempotency_key = build_idempotency_key compiled run_context
      in case cached_run compiled idempotency_key cache of
           Some cached \<Rightarrow> (Inr (cached\<lparr>fr_status := ''cached''\<rparr>), cache, w)
         | None \<Rightarrow>
           (let run = new_run env compiled run_id idempotency_key in
            if \<not> c_enabled compiled then (Inr (stop_run env ''blocked'' ''Flow is disabled'' run), cache, w)
            else if c_requires_confirmation compiled \<and> \<not> truthy (dict_get_default run_context ''confirmed'' (PBool False))
            then (Inr ((stop_run env ''blocked'' ''Flow requires confirmation before side effects are allowed'' run)
                   \<lparr>fr_needs_confirmation := True\<rparr>), cache, w)
            else if fb_max_steps (c_budget compiled) < int (length (c_steps compiled))
            then (Inr (stop_run env ''failed'' ''Step budget exceeded before execution'' run), cache, w)
            else execute_flow env compiled run_context reg cache run w))"

section \<open>Lemmas\<close>

text \<open>The world is touched by the invocation of a permitted step and by nothing else.\<close>

lemma run_step_world:
  "snd (run_step env compiled rc reg i step lp w) =
     snd (invoke_primitive reg (cs_primitive step) (cs_params step) (handler_context compiled rc lp) w)"
  by (auto simp: run_step_def Let_def split: prod.splits sum.splits)

lemma run_steps_world:
  assumes "P w"
    and "\<And>step spec c v. (step, spec) \<in> set zs \<Longrightarrow> step_permitted (en_brackets env) spec ctx \<Longrightarrow> P v \<Longrightarrow>
      P (snd (invoke_primitive reg (cs_primitive step) (cs_params step) c v))"
  shows "P (snd (run_steps env compiled ctx rc reg i zs lp w))"
  using assms
proof (induction zs arbitrary: i lp w)
  case (Cons z zs)
  obtain step spec where z: "z = (step, spec)" by (cases z)
  show ?case
  proof (cases "validate_step (en_brackets env) spec ctx")
    case None
    then have ok: "step_permitted (en_brackets env) spec ctx" by (simp add: validate_step_None)
    obtain b lp' w' where r: "run_step env compiled rc reg i step lp w = ((b, lp'), w')"
      by (metis prod.exhaust)
    have "P w'"
      using Cons.prems(2) [of step spec w "handler_context compiled rc lp"] ok Cons.prems(1) z
        run_step_world [of env compiled rc reg i step lp w] r by simp
    then have "P (snd (run_steps env compiled ctx rc reg (Suc i) zs lp' w'))"
      using Cons.prems(2) by (intro Cons.IH) auto
    with \<open>P w'\<close> Cons.prems(1) show ?thesis by (cases b) (simp_all add: z None r)
  next
    case (Some e)
    with Cons.prems(1) show ?thesis by (cases e) (simp_all add: z Let_def)
  qed
qed simp

lemma build_step_specs_zip:
  "build_step_specs brackets steps = Inr specs \<Longrightarrow> (step, spec) \<in> set (zip steps specs) \<Longrightarrow>
     step \<in> set steps \<and> build_step_spec brackets step = Inr spec"
  by (induction steps arbitrary: specs) (auto split: sum.splits)

lemma build_step_specs_length: "build_step_specs brackets steps = Inr specs \<Longrightarrow> length specs = length steps"
  by (induction steps arbitrary: specs) (auto split: sum.splits)

lemma execute_flow_world:
  assumes "P w"
    and "\<And>ctx step spec c v.
      coerce_execution_context (en_reader env) (en_context_now env) (dict_get rc ''execution_context'') (fr_run_id run) = Inr ctx \<Longrightarrow>
      e_pre_authenticated ctx \<Longrightarrow> dt_le (e_expires_at ctx) (en_preflight_now env) = Inr False \<Longrightarrow>
      step \<in> set (c_steps compiled) \<Longrightarrow> build_step_spec (en_brackets env) step = Inr spec \<Longrightarrow>
      step_permitted (en_brackets env) spec ctx \<Longrightarrow> P v \<Longrightarrow>
      P (snd (invoke_primitive reg (cs_primitive step) (cs_params step) c v))"
  shows "P (snd (snd (execute_flow env compiled rc reg cache run w)))"
proof -
  let ?ctx = "coerce_execution_context (en_reader env) (en_context_now env) (dict_get rc ''execution_context'') (fr_run_id run)"
  show ?thesis
  proof (cases "\<exists>ctx specs. ?ctx = Inr ctx \<and> build_step_specs (en_brackets env) (c_steps compiled) = Inr specs \<and>
      validate_preflight_contract (en_brackets env) (en_preflight_now env) (build_preflight_contract specs) ctx = None")
    case True
    then obtain ctx specs where c: "?ctx = Inr ctx" "build_step_specs (en_brackets env) (c_steps compiled) = Inr specs"
      "validate_preflight_contract (en_brackets env) (en_preflight_now env) (build_preflight_contract specs) ctx = None" by blast
    have "P (snd (run_steps env compiled ctx rc reg 0 (zip (c_steps compiled) specs) start_loop w))"
      using assms(1)
    proof (rule run_steps_world)
      fix step spec c v
      assume s: "(step, spec) \<in> set (zip (c_steps compiled) specs)" "step_permitted (en_brackets env) spec ctx" "P v"
      show "P (snd (invoke_primitive reg (cs_primitive step) (cs_params step) c v))"
        using assms(2) [OF c(1) preflight_None(1,2) [OF c(3)]] build_step_specs_zip [OF c(2) s(1)] s(2,3) by blast
    qed
    then show ?thesis by (auto simp: execute_flow_def c Let_def split: prod.splits sum.splits)
  qed (auto simp: execute_flow_def Let_def assms(1) split: prod.splits sum.splits option.splits flow_error.splits)
qed

text \<open>The trace of the loop.\<close>

definition trace_of :: "'w PrimitiveRegistry \<Rightarrow> CompiledFlow \<Rightarrow> CompiledStep \<Rightarrow> FlowStepResult \<Rightarrow> bool" where
  "trace_of reg compiled step r \<longleftrightarrow> sr_step_id r = cs_step_id step \<and> sr_primitive r = cs_primitive step \<and>
     sr_params_redacted r = redact_payload (cs_params step) (fa_redact_fields (c_audit compiled)) \<and>
     sr_status r \<in> {''ok'', ''error'', ''blocked''} \<and>
     (sr_status r = ''ok'' \<longrightarrow>
       (\<exists>c v v'. invoke_primitive reg (cs_primitive step) (cs_params step) c v = (Inr (sr_output r), v')))"

lemma trace_of_step_result [simp]:
  "st \<in> {''error'', ''blocked''} \<Longrightarrow> trace_of reg compiled step (step_result env i compiled step st out err)"
  "sr_status (step_result env i compiled step st out err) = st"
  by (auto simp: trace_of_def step_result_def)

lemma trace_of_invoked:
  "invoke_primitive reg (cs_primitive step) (cs_params step) c v = (Inr out, v') \<Longrightarrow>
     trace_of reg compiled step (step_result env i compiled step ''ok'' out err)"
  by (auto simp: trace_of_def step_result_def)

text \<open>What the loop adds to its results \<open>rs\<close> over the steps \<open>steps\<close> before it stops with status \<open>st\<close>.\<close>

definition loop_trace :: "'w PrimitiveRegistry \<Rightarrow> CompiledFlow \<Rightarrow> CompiledStep list \<Rightarrow> FlowStepResult list \<Rightarrow> string \<Rightarrow> bool" where
  "loop_trace reg compiled steps rs st \<longleftrightarrow>
     length rs \<le> length steps \<and> list_all2 (trace_of reg compiled) (take (length rs) steps) rs \<and>
     list_all (\<lambda>r. sr_status r = ''ok'') (butlast rs) \<and>
     (st = ''running'' \<and> length rs = length steps \<and> list_all (\<lambda>r. sr_status r = ''ok'') rs \<or> st \<in> {''failed'', ''blocked''})"

lemma loop_trace_Nil: "st \<in> {''failed'', ''blocked''} \<Longrightarrow> loop_trace reg compiled steps [] st"
  by (simp add: loop_trace_def)

lemma loop_trace_stop:
  "trace_of reg compiled step r \<Longrightarrow> st \<in> {''failed'', ''blocked''} \<Longrightarrow> loop_trace reg compiled (step # steps) [r] st"
  by (simp add: loop_trace_def)

lemma loop_trace_Cons:
  "trace_of reg compiled step r \<Longrightarrow> sr_status r = ''ok'' \<Longrightarrow> loop_trace reg compiled steps rs st \<Longrightarrow>
     loop_trace reg compiled (step # steps) (r # rs) st"
  by (auto simp: loop_trace_def)

lemma run_step_cases:
  assumes "run_step env compiled rc reg i step lp w = ((b, lp'), w')"
  obtains (go) out where "b" "lp_status lp' = lp_status lp" "lp_error lp' = lp_error lp"
      "lp_results lp' = lp_results lp @ [step_result env i compiled step ''ok'' out None]"
      "lp_tokens lp' \<le> fb_max_tokens (c_budget compiled)"
      "trace_of reg compiled step (step_result env i compiled step ''ok'' out None)"
  | (stop) st out err where "\<not> b" "lp_status lp' = ''failed''"
      "trace_of reg compiled step (step_result env i compiled step st out err)"
      "lp_results lp' = lp_results lp @ [step_result env i compiled step st out err]"
proof -
  obtain res w1 where inv: "invoke_primitive reg (cs_primitive step) (cs_params step) (handler_context compiled rc lp) w = (res, w1)"
    by (cases "invoke_primitive reg (cs_primitive step) (cs_params step) (handler_context compiled rc lp) w")
  show ?thesis
  proof (cases res)
    case (Inl exc)
    show ?thesis
      by (rule stop [of "''error''" "[]" "Some exc"])
        (use assms inv Inl in \<open>auto simp: run_step_def add_result_def stop_loop_def\<close>)
  next
    case (Inr out)
    show ?thesis
    proof (cases b)
      case True
      show ?thesis
        by (rule go [of out]) (use assms inv Inr True trace_of_invoked [OF inv [unfolded Inr]] in \<open>auto simp: run_step_def Let_def add_result_def split: if_splits\<close>)
    next
      case False
      show ?thesis
        by (rule stop [of "''ok''" out None])
          (use assms inv Inr False trace_of_invoked [OF inv [unfolded Inr]] in \<open>auto simp: run_step_def Let_def add_result_def stop_loop_def split: if_splits\<close>)
    qed
  qed
qed

lemma run_steps_trace:
  assumes "run_steps env compiled ctx rc reg i zs lp w = (Inr lp', w')" "lp_status lp = ''running''"
    "int (length (lp_results lp)) \<le> fb_max_steps (c_budget compiled)" "lp_tokens lp \<le> fb_max_tokens (c_budget compiled)"
  shows "\<exists>rs. lp_results lp' = lp_results lp @ rs \<and> loop_trace reg compiled (map fst zs) rs (lp_status lp') \<and>
    int (length (lp_results lp')) \<le> fb_max_steps (c_budget compiled) \<and>
    (lp_status lp' = ''running'' \<longrightarrow> lp_tokens lp' \<le> fb_max_tokens (c_budget compiled))"
  using assms
proof (induction zs arbitrary: i lp w)
  case Nil
  then show ?case by (simp add: loop_trace_def)
next
  case (Cons z zs)
  obtain step spec where z: "z = (step, spec)" by (cases z)
  let ?over = "of_int (fb_timeout_seconds (c_budget compiled)) < en_elapsed env i \<or>
    fb_max_steps (c_budget compiled) \<le> int (length (lp_results lp))"
  show ?case
  proof (cases ?over)
    case True
    with Cons.prems show ?thesis
      by (auto simp: z stop_loop_def loop_trace_Nil split: if_splits)
  next
    case room: False
    show ?thesis
    proof (cases "validate_step (en_brackets env) spec ctx")
      case (Some e)
      with room Cons.prems show ?thesis
        by (cases e) (auto simp: z Let_def stop_loop_def add_result_def loop_trace_stop)
    next
      case None
      obtain b lp1 w1 where r: "run_step env compiled rc reg i step lp w = ((b, lp1), w1)" by (metis prod.exhaust)
      from r show ?thesis
      proof (cases rule: run_step_cases)
        case (go out)
        let ?r = "step_result env i compiled step ''ok'' out None"
        have "run_steps env compiled ctx rc reg (Suc i) zs lp1 w1 = (Inr lp', w')"
          using Cons.prems(1) room None r go(1) by (simp add: z)
        from Cons.IH [OF this] go Cons.prems room obtain rs where "lp_results lp' = lp_results lp @ ?r # rs"
          "loop_trace reg compiled (map fst zs) rs (lp_status lp')"
          "int (length (lp_results lp')) \<le> fb_max_steps (c_budget compiled)"
          "lp_status lp' = ''running'' \<longrightarrow> lp_tokens lp' \<le> fb_max_tokens (c_budget compiled)" by auto
        then show ?thesis by (intro exI [of _ "?r # rs"]) (simp add: z loop_trace_Cons go(6))
      next
        case (stop st out err)
        then have "lp' = lp1" using Cons.prems(1) room None r by (simp add: z)
        then show ?thesis using stop room Cons.prems by (auto simp: z loop_trace_stop)
      qed
    qed
  qed
qed

text \<open>The ways a run ends without an exception.\<close>

lemma run_flow_cases:
  assumes "run_flow env compiled rc reg cache w = (Inr run, cache', w')"
  obtains (cached) r0 where "cached_run compiled (build_idempotency_key compiled rc) cache = Some r0"
      "run = r0\<lparr>fr_status := ''cached''\<rparr>" "cache' = cache" "w' = w"
  | (early) "cached_run compiled (build_idempotency_key compiled rc) cache = None" "fr_step_results run = []"
      "fr_status run \<in> {''blocked'', ''failed''}" "cache' = cache" "w' = w"
  | (ran) ctx specs lp run1 where "cached_run compiled (build_idempotency_key compiled rc) cache = None"
      "length specs = length (c_steps compiled)"
      "run_steps env compiled ctx rc reg 0 (zip (c_steps compiled) specs) start_loop w = (Inr lp, w')"
      "run = finish_run env run1 lp" "fr_idempotency_key run = build_idempotency_key compiled rc"
      "cache' = store_run compiled run cache"
proof (cases "cached_run compiled (build_idempotency_key compiled rc) cache")
  case (Some r0)
  with assms show ?thesis by (intro cached) (auto simp: run_flow_def Let_def)
next
  case None
  let ?run = "new_run env compiled (run_id_of env compiled rc) (build_idempotency_key compiled rc)"
  show ?thesis
  proof (cases "run_flow env compiled rc reg cache w = execute_flow env compiled rc reg cache ?run w")
    case True
    show ?thesis
    proof (cases "\<exists>specs. build_step_specs (en_brackets env) (c_steps compiled) = Inr specs \<and>
        (\<exists>ctx lp. run_steps env compiled ctx rc reg 0 (zip (c_steps compiled) specs) start_loop w = (Inr lp, w') \<and>
          run = finish_run env (?run\<lparr>fr_output := [(''preflight_contract'', PDict (build_preflight_contract specs))]\<rparr>) lp \<and>
          cache' = store_run compiled run cache)")
      case True
      then obtain specs ctx lp where t: "build_step_specs (en_brackets env) (c_steps compiled) = Inr specs"
        "run_steps env compiled ctx rc reg 0 (zip (c_steps compiled) specs) start_loop w = (Inr lp, w')"
        "run = finish_run env (?run\<lparr>fr_output := [(''preflight_contract'', PDict (build_preflight_contract specs))]\<rparr>) lp"
        "cache' = store_run compiled run cache" by blast
      have "fr_idempotency_key run = build_idempotency_key compiled rc" by (simp add: t(3) finish_run_def new_run_def)
      with None t show ?thesis by (intro ran [OF None _ t(2,3)] build_step_specs_length) simp_all
    next
      case False
      with assms True show ?thesis
        by (intro early [OF None])
          (auto simp: execute_flow_def Let_def stop_run_def new_run_def
            split: sum.splits option.splits flow_error.splits prod.splits)
    qed
  next
    case False
    with assms None show ?thesis
      by (intro early [OF None]) (auto simp: run_flow_def Let_def stop_run_def new_run_def split: if_splits)
  qed
qed

text \<open>The trace of a run that was not answered from the cache.\<close>

lemma run_flow_trace:
  assumes "run_flow env compiled rc reg cache w = (Inr run, cache', w')" "fr_status run \<noteq> ''cached''"
    "valid_budget (c_budget compiled)"
  shows "\<exists>st. loop_trace reg compiled (c_steps compiled) (fr_step_results run) st \<and>
    int (length (fr_step_results run)) \<le> fb_max_steps (c_budget compiled) \<and>
    fr_status run = (if st = ''running'' then ''success'' else st)"
  using assms(1)
proof (cases rule: run_flow_cases)
  case (cached r0)
  with assms(2) show ?thesis by simp
next
  case early
  with assms(3) show ?thesis by (intro exI [of _ "fr_status run"]) (auto simp: loop_trace_def valid_budget_def)
next
  case (ran ctx specs lp run1)
  have "map fst (zip (c_steps compiled) specs) = c_steps compiled" using ran(2) by simp
  with run_steps_trace [OF ran(3)] assms(3) show ?thesis
    by (intro exI [of _ "lp_status lp"]) (auto simp: ran(4) finish_run_def start_loop_def valid_budget_def)
qed

lemma redact_payload_keys: "map fst (redact_payload ps names) = map fst ps"
  by (induction ps) (auto simp: redact_payload_def)

lemma redact_payload_in:
  "(k, v) \<in> set (redact_payload ps names) \<Longrightarrow>
     if lower k \<in> lower ` set names \<or> sensitive_key (lower k) then v = PStr ''<redacted>'' else (k, v) \<in> set ps"
  by (auto simp: redact_payload_def split: if_splits)

lemma default_registry_lookup:
  "p \<in> set PrimitiveName \<Longrightarrow> \<exists>r. map_of (default_registry model) p = Some r \<and> pr_handler r = stub_handler p \<and>
     pc_params_model (pr_contract r) = model p"
  by (auto simp: PrimitiveName_def default_registry_def default_contracts_def register_def contract_def)

lemma default_invoke:
  assumes "invoke_primitive (default_registry model :: 'w PrimitiveRegistry) p ps c v = (Inr out, v')" "p \<in> set PrimitiveName"
  shows "\<exists>ps'. pm_validate (model p) ps = Inr ps' \<and> dict_get out ''params'' = PDict ps'"
proof -
  obtain r :: "'w PrimitiveRegistration" where "map_of (default_registry model) p = Some r" "pr_handler r = stub_handler p" "pc_params_model (pr_contract r) = model p"
    using default_registry_lookup [OF assms(2)] by blast
  with assms(1) show ?thesis
    by (auto simp: invoke_primitive_def get_primitive_def validate_params_def stub_handler_def dict_get_def split: sum.splits)
qed

section \<open>Examples\<close>

definition demo_env :: flow_env where
  "demo_env =
     \<lparr>en_sha256_hex = (\<lambda>s. take 16 s), en_reader = \<lparr>cx_read = (\<lambda>_ _ _. Inr demo_context), cx_error = (\<lambda>m. m), cx_dict = (\<lambda>_. Inr [])\<rparr>,
      en_brackets = (\<lambda>_. None), en_started_at = \<lparr>wall = 60000000, utcoff = Some 0\<rparr>,
      en_context_now = \<lparr>wall = 60000000, utcoff = Some 0\<rparr>, en_preflight_now = \<lparr>wall = 60000000, utcoff = Some 0\<rparr>,
      en_ended_at = \<lparr>wall = 61000000, utcoff = Some 0\<rparr>, en_elapsed = (\<lambda>i. of_nat i), en_step_started = (\<lambda>_. \<lparr>wall = 60000000, utcoff = Some 0\<rparr>),
      en_step_ended = (\<lambda>_. \<lparr>wall = 60500000, utcoff = Some 0\<rparr>)\<rparr>"

text \<open>Handlers that log the name of their primitive.\<close>

definition log_registry :: "string list PrimitiveRegistry" where
  "log_registry = fold (\<lambda>c reg. register reg c (\<lambda>ps ctx w. (Inr [(''ok'', PBool True)], w @ [pc_name c])))
     (default_contracts demo_model) []"

definition yes :: pydict where "yes = [(''confirmed'', PBool True), (''date'', PStr ''d2'')]"

lemma demo_run:
  obtains run cache' w' where "run_flow demo_env demo_plan yes log_registry Map.empty [] = (Inr run, cache', w')"
    "fr_status run = ''success''" "fr_step_results run \<noteq> []"
proof -
  have "case run_flow demo_env demo_plan yes log_registry Map.empty [] of
      (Inr run, cache', w') \<Rightarrow> fr_status run = ''success'' \<and> fr_step_results run \<noteq> [] | _ \<Rightarrow> False" by code_simp
  then show ?thesis using that by (auto split: prod.splits sum.splits)
qed

section \<open>Properties\<close>

text \<open>
  C18. No unconfirmed side effects: when a flow that compiles has a step with side effects, and its policy
  forbids unconfirmed ones or it does not start by hand, then a run without confirmation invokes no
  primitive at all: the world and the cache are as before, and the answer is an earlier cached run or a
  blocked one, which asks for the confirmation unless the flow is disabled.
\<close>

theorem side_effects_need_confirmation:
  assumes "compile_flow reg0 spec = Inr compiled"
    "s \<in> set (f_steps spec)" "map_of reg0 (st_primitive s) = Some r" "pc_side_effecting (pr_contract r)"
    "\<not> fp_allow_side_effects_without_confirmation (f_policy spec) \<or> ft_type (f_trigger spec) \<noteq> ''manual''"
    "\<not> truthy (dict_get_default rc ''confirmed'' (PBool False))"
  shows "\<exists>run. run_flow env compiled rc reg cache w = (Inr run, cache, w) \<and>
    (fr_status run = ''cached'' \<or>
     fr_status run = ''blocked'' \<and> (if f_enabled spec then fr_needs_confirmation run else fr_error run = Some ''Flow is disabled''))"
proof -
  note c = compile_flow_Inr [OF assms(1)]
  obtain d where d: "d \<in> set (c_steps compiled)" "step_compiles reg0 s d"
    using c(1) assms(2) by (metis list_all2_conv_all_nth in_set_conv_nth)
  with assms(3,4) have "cs_side_effecting d" by (auto simp: step_compiles_def compiled_step_def)
  with d(1) c(2) have "c_has_side_effects compiled" by blast
  with assms(5) c(3,4) have "c_requires_confirmation compiled" by (auto simp: compile_warnings_def)
  with assms(6) c(9) show ?thesis
    by (cases "cached_run compiled (build_idempotency_key compiled rc) cache")
      (auto simp: run_flow_def Let_def stop_run_def)
qed

theorem side_effects_need_confirmation_witness:
  "\<exists>run. run_flow demo_env demo_plan [] log_registry Map.empty [''before''] = (Inr run, Map.empty, [''before'']) \<and>
     fr_status run \<noteq> ''success''"
proof -
  let ?reg = "default_registry demo_model :: unit PrimitiveRegistry" and ?s = "demo_step ''post'' ''create_thread'' [(''title_template'', PStr ''t'')]"
  have "case map_of ?reg (st_primitive ?s) of None \<Rightarrow> False | Some r \<Rightarrow> pc_side_effecting (pr_contract r)" by code_simp
  then obtain r where "map_of ?reg (st_primitive ?s) = Some r" "pc_side_effecting (pr_contract r)"
    by (auto split: option.splits)
  from side_effects_need_confirmation [OF demo_compiles _ this, of "[]" demo_env log_registry Map.empty "[''before'']"]
  show ?thesis by (auto simp: demo_flow_def dict_get_default_def)
qed

text \<open>
  C21. Only permitted steps act: whatever holds of the world before a run and is kept by invoking the
  permitted steps of the plan holds after it. A permitted step belongs to an enabled flow, confirmed where
  that is required, and ran under a context that was authenticated in advance, has not expired and grants
  the step its scopes and its network target; such a step asks for no further authority.
\<close>

theorem only_permitted_steps_act:
  assumes "P w"
    and "\<And>ctx step spec c v.
      c_enabled compiled \<Longrightarrow> c_requires_confirmation compiled \<longrightarrow> truthy (dict_get_default rc ''confirmed'' (PBool False)) \<Longrightarrow>
      coerce_execution_context (en_reader env) (en_context_now env) (dict_get rc ''execution_context'')
        (run_id_of env compiled rc) = Inr ctx \<Longrightarrow>
      e_pre_authenticated ctx \<Longrightarrow> dt_le (e_expires_at ctx) (en_preflight_now env) = Inr False \<Longrightarrow>
      step \<in> set (c_steps compiled) \<Longrightarrow> build_step_spec (en_brackets env) step = Inr spec \<Longrightarrow>
      step_permitted (en_brackets env) spec ctx \<Longrightarrow> P v \<Longrightarrow>
      P (snd (invoke_primitive reg (cs_primitive step) (cs_params step) c v))"
  shows "P (snd (snd (run_flow env compiled rc reg cache w)))"
proof (cases "snd (snd (run_flow env compiled rc reg cache w)) = w")
  case False
  let ?run = "new_run env compiled (run_id_of env compiled rc) (build_idempotency_key compiled rc)"
  have g: "c_enabled compiled" "c_requires_confirmation compiled \<longrightarrow> truthy (dict_get_default rc ''confirmed'' (PBool False))"
    and e: "run_flow env compiled rc reg cache w = execute_flow env compiled rc reg cache ?run w"
    using False by (auto simp: run_flow_def Let_def split: option.splits if_splits)
  have id: "fr_run_id ?run = run_id_of env compiled rc" by (simp add: new_run_def)
  show ?thesis
    unfolding e by (rule execute_flow_world [where P = P, OF assms(1)]) (rule assms(2) [OF g], unfold id, assumption+)
qed (use assms(1) in simp)

theorem only_permitted_steps_act_witness:
  "list_all (\<lambda>n. n \<in> set PrimitiveName) (snd (snd (run_flow demo_env demo_plan yes log_registry Map.empty [])))"
proof (rule only_permitted_steps_act [where P = "\<lambda>w. list_all (\<lambda>n. n \<in> set PrimitiveName) w"])
  have "list_all (\<lambda>s. cs_primitive s \<in> {''summarize'', ''create_thread''}) (c_steps demo_plan)" by code_simp
  then have prim: "cs_primitive s \<in> {''summarize'', ''create_thread''}" if "s \<in> set (c_steps demo_plan)" for s
    using that by (auto simp: list_all_iff)
  fix step c v
  assume "step \<in> set (c_steps demo_plan)" "list_all (\<lambda>n. n \<in> set PrimitiveName) v"
  with prim [of step] show "list_all (\<lambda>n. n \<in> set PrimitiveName)
      (snd (invoke_primitive log_registry (cs_primitive step) (cs_params step) c v))"
    by (auto simp: invoke_primitive_def get_primitive_def log_registry_def register_def default_contracts_def contract_def
        validate_params_def demo_model_def PrimitiveName_def)
qed simp

text \<open>
  C35. The trace is faithful and bounded: a run that was not answered from the cache has the results of a
  prefix of the plan's steps in their order, at most as many as the step budget, all but the last of them
  \<open>ok\<close>; it ends as success, failed or blocked, and a success means every step ran and was \<open>ok\<close>.
\<close>

theorem run_trace_faithful:
  assumes "run_flow env compiled rc reg cache w = (Inr run, cache', w')" "fr_status run \<noteq> ''cached''"
    "valid_budget (c_budget compiled)"
  defines "rs \<equiv> fr_step_results run"
  shows "length rs \<le> length (c_steps compiled) \<and> int (length rs) \<le> fb_max_steps (c_budget compiled) \<and>
    map sr_step_id rs = map cs_step_id (take (length rs) (c_steps compiled)) \<and>
    list_all (\<lambda>r. sr_status r = ''ok'') (butlast rs) \<and> fr_status run \<in> {''success'', ''failed'', ''blocked''} \<and>
    (fr_status run = ''success'' \<longrightarrow> length rs = length (c_steps compiled) \<and> list_all (\<lambda>r. sr_status r = ''ok'') rs)"
proof -
  obtain st where st: "loop_trace reg compiled (c_steps compiled) rs st" "int (length rs) \<le> fb_max_steps (c_budget compiled)"
    "fr_status run = (if st = ''running'' then ''success'' else st)"
    using run_flow_trace [OF assms(1-3)] unfolding rs_def by blast
  moreover have "map sr_step_id ys = map cs_step_id xs" if "list_all2 (trace_of reg compiled) xs ys" for xs ys
    using that by (induction rule: list_all2_induct) (auto simp: trace_of_def)
  ultimately show ?thesis by (auto simp: loop_trace_def)
qed

lemma demo_budget: "valid_budget (c_budget demo_plan)"
  by code_simp

theorem run_trace_faithful_witness:
  "\<exists>run cache' w'. run_flow demo_env demo_plan yes log_registry Map.empty [] = (Inr run, cache', w') \<and>
     length (fr_step_results run) = length (c_steps demo_plan) \<and> list_all (\<lambda>r. sr_status r = ''ok'') (fr_step_results run)"
proof (rule demo_run)
  fix run cache' w'
  assume r: "run_flow demo_env demo_plan yes log_registry Map.empty [] = (Inr run, cache', w')" "fr_status run = ''success''"
  with run_trace_faithful [OF r(1) _ demo_budget] show ?thesis by simp
qed

text \<open>
  The trace redacts parameters and only parameters: every recorded parameter whose name is listed for
  redaction or looks sensitive is replaced, every other one is recorded as it is; but the recorded output
  of a step is not redacted, and the handlers of the default registry copy the parameters into it, so a
  secret parameter of a step that ran is still in the trace.
\<close>

theorem trace_redacted:
  assumes "run_flow env compiled rc reg cache w = (Inr run, cache', w')" "fr_status run \<noteq> ''cached''"
    "valid_budget (c_budget compiled)" "i < length (fr_step_results run)"
  defines "res \<equiv> fr_step_results run ! i" and "step \<equiv> c_steps compiled ! i"
  shows "map fst (sr_params_redacted res) = map fst (cs_params step) \<and>
    (\<forall>k v. (k, v) \<in> set (sr_params_redacted res) \<longrightarrow>
      (if lower k \<in> lower ` set (fa_redact_fields (c_audit compiled)) \<or> sensitive_key (lower k)
       then v = PStr ''<redacted>'' else (k, v) \<in> set (cs_params step))) \<and>
    (reg = default_registry model \<longrightarrow> sr_status res = ''ok'' \<longrightarrow> cs_primitive step \<in> set PrimitiveName \<longrightarrow>
      (\<exists>ps. pm_validate (model (cs_primitive step)) (cs_params step) = Inr ps \<and> dict_get (sr_output res) ''params'' = PDict ps))"
proof -
  obtain st where st: "loop_trace reg compiled (c_steps compiled) (fr_step_results run) st"
    using run_flow_trace [OF assms(1-3)] by blast
  then have "trace_of reg compiled step res"
    using assms(4) unfolding loop_trace_def res_def step_def by (auto simp: list_all2_conv_all_nth)
  then have tr: "sr_params_redacted res = redact_payload (cs_params step) (fa_redact_fields (c_audit compiled))"
    "sr_status res = ''ok'' \<Longrightarrow> \<exists>c v v'. invoke_primitive reg (cs_primitive step) (cs_params step) c v = (Inr (sr_output res), v')"
    by (auto simp: trace_of_def)
  have "\<exists>ps. pm_validate (model (cs_primitive step)) (cs_params step) = Inr ps \<and> dict_get (sr_output res) ''params'' = PDict ps"
    if d: "reg = default_registry model" "sr_status res = ''ok''" "cs_primitive step \<in> set PrimitiveName"
  proof -
    obtain c v v' where "invoke_primitive reg (cs_primitive step) (cs_params step) c v = (Inr (sr_output res), v')"
      using tr(2) [OF d(2)] by blast
    from default_invoke [OF this [unfolded d(1)] d(3)] show ?thesis .
  qed
  then show ?thesis
    unfolding tr(1) redact_payload_keys using redact_payload_in by (intro conjI allI impI refl) blast+
qed

theorem trace_redacted_witness:
  "\<exists>run cache' w'. run_flow demo_env demo_plan yes (default_registry demo_model) Map.empty () = (Inr run, cache', w') \<and>
     dict_get (sr_output (fr_step_results run ! 0)) ''params'' = PDict [(''schema_name'', PStr ''s''), (''api_key'', PStr ''k'')]"
proof -
  let ?reg = "default_registry demo_model :: unit PrimitiveRegistry"
  have "case run_flow demo_env demo_plan yes ?reg Map.empty () of
      (Inr run, cache', w') \<Rightarrow> fr_status run = ''success'' \<and> fr_step_results run \<noteq> [] \<and> sr_status (fr_step_results run ! 0) = ''ok''
    | _ \<Rightarrow> False" by code_simp
  then obtain run cache' w' where r: "run_flow demo_env demo_plan yes ?reg Map.empty () = (Inr run, cache', w')"
    "fr_status run \<noteq> ''cached''" "0 < length (fr_step_results run)" "sr_status (fr_step_results run ! 0) = ''ok''"
    by (auto split: prod.splits sum.splits)
  have "c_steps demo_plan ! 0 = compiled_step (f_steps demo_flow ! 0) (st_params (f_steps demo_flow ! 0)) False" by code_simp
  then have d: "cs_params (c_steps demo_plan ! 0) = [(''schema_name'', PStr ''s''), (''api_key'', PStr ''k'')]"
    "cs_primitive (c_steps demo_plan ! 0) = ''summarize''" by (simp_all add: compiled_step_def demo_flow_def demo_step_def)
  from trace_redacted [OF r(1,2) demo_budget r(3), of demo_model] d r(1,4) show ?thesis
    by (auto simp: demo_model_def PrimitiveName_def)
qed

text \<open>
  C38. A key answers for every flow: once a run under an idempotency key went through its steps, whatever
  its outcome, every later run of any flow in the mode \<open>return_cached\<close> under the same key is answered with
  that run marked as cached, without invoking a primitive and without looking at the flow; and a run that
  was stopped before its steps leaves the cache as it was.
\<close>

theorem cached_key_answers_all:
  assumes "run_flow env compiled rc reg cache w = (Inr run, cache', w')"
    "build_idempotency_key compiled rc = Some key" "key \<noteq> []"
    "fi_mode (c_idempotency compiled) \<in> {''return_cached'', ''skip_if_running''}"
    "build_idempotency_key compiled2 rc2 = Some key" "fi_mode (c_idempotency compiled2) = ''return_cached''"
  shows "(fr_step_results run \<noteq> [] \<and> fr_status run \<noteq> ''cached'' \<longrightarrow>
      run_flow env2 compiled2 rc2 reg2 cache' w2 = (Inr (run\<lparr>fr_status := ''cached''\<rparr>), cache', w2)) \<and>
    (cache' = cache \<or> cache' = cache(key \<mapsto> run))"
  using assms(1)
proof (cases rule: run_flow_cases)
  case (ran ctx specs lp run1)
  obtain c cs where key: "key = c # cs" using assms(3) by (cases key) auto
  have "cache' = cache(key \<mapsto> run)"
    using ran(5,6) assms(2,4) by (auto simp: store_run_def key)
  moreover from this have "cached_run compiled2 (build_idempotency_key compiled2 rc2) cache' = Some run"
    using assms(5,6) by (simp add: cached_run_def key)
  ultimately show ?thesis by (simp add: run_flow_def Let_def)
qed simp_all

theorem cached_key_answers_all_witness:
  "\<exists>run cache'. run_flow demo_env demo_plan [(''idempotency_key'', PStr ''x''), (''date'', PStr ''d2'')] log_registry cache' [''later''] =
     (Inr (run\<lparr>fr_status := ''cached''\<rparr>), cache', [''later'']) \<and> fr_status run = ''success''"
proof (rule demo_run)
  fix run cache' w'
  assume r: "run_flow demo_env demo_plan yes log_registry Map.empty [] = (Inr run, cache', w')" "fr_status run = ''success''"
    "fr_step_results run \<noteq> []"
  have k: "build_idempotency_key demo_plan yes = Some ''digest-d2''"
    "build_idempotency_key demo_plan [(''idempotency_key'', PStr ''x''), (''date'', PStr ''d2'')] = Some ''digest-d2''"
    "fi_mode (c_idempotency demo_plan) = ''return_cached''" by code_simp+
  from cached_key_answers_all [OF r(1) k(1) _ _ k(2,3), THEN conjunct1, THEN mp] r(2,3) k(3)
  have "run_flow demo_env demo_plan [(''idempotency_key'', PStr ''x''), (''date'', PStr ''d2'')] log_registry cache' [''later''] =
     (Inr (run\<lparr>fr_status := ''cached''\<rparr>), cache', [''later''])" by simp
  with r(2) show ?thesis by blast
qed

end
