(* ===== verification/Flow_Drafts.thy ===== *)
theory Flow_Drafts
  imports Flow_Runner
begin

text \<open>
  Model of \<^verbatim>\<open>guardian/flows/nl_compiler.py\<close>: drafting a flow from a sentence and compiling the draft behind
  a confirmation gate. The dictionary of a draft is written as the record that \<open>FlowSpec.model_validate\<close>
  reads from it, with the declared defaults; a confidence, which the code rounds to two decimals, is the
  rational number of those decimals. The results are that every draft is a valid description, that drafts
  with side effects are always held for confirmation at the default threshold, and that the idempotency
  key of a draft never depends on the context it names.
\<close>

section \<open>Reading the sentence\<close>

definition ascii_alnum :: "char \<Rightarrow> bool" where
  "ascii_alnum c = (let n = (of_char c :: nat) in (48 \<le> n \<and> n \<le> 57) \<or> (65 \<le> n \<and> n \<le> 90) \<or> (97 \<le> n \<and> n \<le> 122))"

text \<open>\<open>re.sub(r"[^a-zA-Z0-9]+", "_", s)\<close>; the flag says whether the last character was replaced.\<close>

fun sub_runs :: "bool \<Rightarrow> string \<Rightarrow> string" where
  "sub_runs inside [] = []"
| "sub_runs inside (c # cs) =
     (if ascii_alnum c then c # sub_runs False cs
      else if inside then sub_runs True cs else CHR ''_'' # sub_runs True cs)"

definition strip_char :: "char \<Rightarrow> string \<Rightarrow> string" where
  "strip_char x s = rev (dropWhile (\<lambda>c. c = x) (rev (dropWhile (\<lambda>c. c = x) s)))"

definition slugify :: "string \<Rightarrow> string" where
  "slugify text1 =
     (let base = strip_char CHR ''_'' (sub_runs False (lower (strip text1)));
          base' = (if base = [] then ''flow'' else base)
      in take 48 base' @ ''_v1'')"

definition infer_trigger :: "string \<Rightarrow> FlowTrigger" where
  "infer_trigger text_lower =
     (if contains ''every morning'' text_lower \<or> contains ''every day'' text_lower \<or> contains ''daily'' text_lower
      then \<lparr>ft_type = ''cron'', ft_schedule = Some ''0 7 * * *'', ft_event_name = None\<rparr>
      else if contains ''every friday'' text_lower \<or> contains ''weekly'' text_lower
      then \<lparr>ft_type = ''cron'', ft_schedule = Some ''0 9 * * FRI'', ft_event_name = None\<rparr>
      else if starts_with ''when '' text_lower \<or> contains '' on event '' text_lower
      then \<lparr>ft_type = ''event'', ft_schedule = None, ft_event_name = Some ''flow.event.triggered''\<rparr>
      else \<lparr>ft_type = ''manual'', ft_schedule = None, ft_event_name = None\<rparr>)"

definition contains_side_effect_request :: "string \<Rightarrow> bool" where
  "contains_side_effect_request text_lower = list_ex (\<lambda>marker. contains marker text_lower)
     [''save'', ''write'', ''post'', ''create thread'', ''append'', ''emit event'', ''codex entry'']"

definition plain_step :: "string \<Rightarrow> string \<Rightarrow> pydict \<Rightarrow> FlowStep" where
  "plain_step step_id primitive params =
     \<lparr>st_step_id = step_id, st_primitive = primitive, st_params = params, st_required_scopes = [],
      st_external_domain = None, st_requires_network = False, st_requests_auth = False, st_requested_scopes = []\<rparr>"

definition context_step :: "string \<Rightarrow> FlowStep" where
  "context_step text1 = plain_step ''ctx'' ''assemble_context''
     [(''intent'', PStr text1),
      (''sources'', PDict [(''threads'', PBool True), (''memory'', PBool True), (''codex'', PBool True)]),
      (''window'', PDict [(''threads_days'', PInt 14), (''memory_days'', PInt 30), (''codex_days'', PInt 30)]),
      (''search_depth'', PInt 2), (''max_items'', PInt 50)]"

definition classify_step :: FlowStep where
  "classify_step = plain_step ''classify'' ''classify''
     [(''schema_name'', PStr ''nl_classification_v1''), (''labels'', str_list [''important'', ''neutral'', ''ignore'']),
      (''instructions'', str_list [''Classify major points from context.''])]"

definition summarize_step :: FlowStep where
  "summarize_step = plain_step ''summarize'' ''summarize''
     [(''schema_name'', PStr ''nl_summary_v1''),
      (''instructions'', str_list [''Summarize relevant context.'', ''Label speculation as speculation.''])]"

definition actions_step :: FlowStep where
  "actions_step = plain_step ''actions'' ''extract_actions''
     [(''schema_name'', PStr ''nl_actions_v1''), (''max_actions'', PInt 3),
      (''actionable_definition'', str_list [''Start with a verb'', ''Be specific and feasible''])]"

definition post_step :: "string \<Rightarrow> FlowStep" where
  "post_step from_step = plain_step ''post_thread'' ''create_thread''
     [(''title_template'', PStr ''Flow Output - {{date}}''),
      (''body_template'', PDict [(''format'', PStr ''markdown''),
        (''sections'', PList [PDict [(''title'', PStr ''Result''), (''from_step'', PStr from_step)]])])]"

definition emit_step :: "string \<Rightarrow> FlowStep" where
  "emit_step from_step = plain_step ''emit'' ''emit_event''
     [(''event_name'', PStr ''codexify.flow.generated''), (''payload_from_steps'', str_list [from_step])]"

definition infer_steps :: "string \<Rightarrow> FlowStep list" where
  "infer_steps text1 =
     (let text_lower = lower text1;
          steps1 = [context_step text1] @
            (if contains ''classify'' text_lower \<or> contains ''categorize'' text_lower then [classify_step] else [summarize_step]);
          steps2 = steps1 @ (if contains ''action'' text_lower \<or> contains ''next step'' text_lower then [actions_step] else []);
          steps3 = steps2 @ (if contains_side_effect_request text_lower then [post_step (st_step_id (last steps2))] else [])
      in steps3 @ (if contains ''event'' text_lower then [emit_step (st_step_id (last steps3))] else []))"

definition clarifying_questions :: "string \<Rightarrow> FlowTrigger \<Rightarrow> bool \<Rightarrow> string list" where
  "clarifying_questions text1 trigger side_effects =
     (let text_lower = lower text1 in
      (if ft_type trigger = ''cron'' \<and> list_all (\<lambda>token. \<not> contains token text_lower) [''7:'', ''8:'', ''9:'', ''am'', ''pm'']
       then [''What exact time should this scheduled flow run in your timezone?''] else []) @
      (if ft_type trigger = ''manual'' \<and> list_ex (\<lambda>token. contains token text_lower) [''daily'', ''weekly'', ''every '']
       then [''Should this flow be scheduled or stay manual?''] else []) @
      (if side_effects \<and> \<not> contains ''thread'' text_lower \<and> \<not> contains ''codex'' text_lower
       then [''Where should side effects be written (thread, codex, both, or none)?''] else []) @
      (if length (split_words [] text1) < 6
       then [''Can you provide more detail on the desired output format?''] else []))"

definition estimate_confidence :: "string \<Rightarrow> FlowTrigger \<Rightarrow> string list \<Rightarrow> rat" where
  "estimate_confidence text1 trigger questions =
     (let score = 55/100 + (if ft_type trigger \<noteq> ''manual'' then 15/100 else 0) +
            (if 8 \<le> length (split_words [] text1) then 15/100 else 0) - 8/100 * of_nat (length questions)
      in max 0 (min 1 score))"

section \<open>Drafts\<close>

record DraftFlowResult =
  df_source_text :: string
  df_draft_flow_spec :: FlowSpec
  df_confidence :: rat
  df_clarifying_questions :: "string list"

text \<open>The entries of the user context a draft reads; a missing one is \<open>None\<close>.\<close>

record user_context =
  uc_user_id :: "pyval option"
  uc_project_ids :: "string list option"
  uc_thread_ids :: "string list option"
  uc_persona :: "string option option"

definition or_default :: "'a option \<Rightarrow> 'a \<Rightarrow> 'a" where
  "or_default o1 d = (case o1 of None \<Rightarrow> d | Some x \<Rightarrow> x)"

definition draft_flow_from_text :: "string \<Rightarrow> user_context \<Rightarrow> DraftFlowResult" where
  "draft_flow_from_text text1 context =
     (let normalized_text = strip text1; text_lower = lower normalized_text;
          trigger = infer_trigger text_lower; side_effects = contains_side_effect_request text_lower;
          questions = clarifying_questions normalized_text trigger side_effects;
          confidence = estimate_confidence normalized_text trigger questions;
          flow_id = slugify normalized_text
      in \<lparr>df_source_text = normalized_text,
          df_draft_flow_spec =
           \<lparr>f_flow_id = flow_id, f_version = ''0.1'', f_enabled = True, f_trigger = trigger,
            f_scope = \<lparr>fc_user_id = py_str (or_default (uc_user_id context) (PStr ''default'')),
              fc_project_ids = or_default (uc_project_ids context) [], fc_thread_ids = or_default (uc_thread_ids context) [],
              fc_persona = or_default (uc_persona context) (Some ''guardian.flow_builder'')\<rparr>,
            f_budget = \<lparr>fb_max_steps = 12, fb_max_tokens = 5000, fb_timeout_seconds = 180\<rparr>,
            f_policy = \<lparr>fp_min_confidence = 75/100, fp_require_confirmation_below_threshold = True,
              fp_allow_side_effects_without_confirmation = (\<not> side_effects)\<rparr>,
            f_steps = infer_steps normalized_text,
            f_output = \<lparr>fo_store_as_thread = side_effects, fo_store_as_codex = contains ''codex'' text_lower,
              fo_emit_event = None\<rparr>,
            f_idempotency = \<lparr>fi_key_template = Some (flow_id @ ''::{date}''), fi_mode = ''return_cached''\<rparr>,
            f_audit = \<lparr>fa_log_trace = True, fa_record_cost = True,
              fa_redact_fields = [''api_key'', ''authorization'', ''cookie'']\<rparr>\<rparr>,
          df_confidence = confidence, df_clarifying_questions = questions\<rparr>)"

section \<open>The gate\<close>

record GatedCompileResult =
  gc_draft_flow_spec :: FlowSpec
  gc_compiled_flow :: CompiledFlow
  gc_confidence :: rat
  gc_clarifying_questions :: "string list"
  gc_needs_confirmation :: bool
  gc_warnings :: "string list"
  gc_summary :: string
  gc_diff :: "string list"

datatype draft_error = DraftValidationError | DraftValueError string

text \<open>The dumps of a step before and after compilation: only the compiled one has \<open>side_effecting\<close>.\<close>

definition dump_step :: "FlowStep \<Rightarrow> pydict" where
  "dump_step s =
     [(''step_id'', PStr (st_step_id s)), (''params'', PDict (st_params s)), (''required_scopes'', str_list (st_required_scopes s)),
      (''external_domain'', opt_str (st_external_domain s)), (''requires_network'', PBool (st_requires_network s)),
      (''requests_auth'', PBool (st_requests_auth s)), (''requested_scopes'', str_list (st_requested_scopes s)),
      (''primitive'', PStr (st_primitive s))]"

definition dump_compiled_step :: "CompiledStep \<Rightarrow> pydict" where
  "dump_compiled_step s =
     [(''step_id'', PStr (cs_step_id s)), (''primitive'', PStr (cs_primitive s)), (''params'', PDict (cs_params s)),
      (''side_effecting'', PBool (cs_side_effecting s)), (''required_scopes'', str_list (cs_required_scopes s)),
      (''external_domain'', opt_str (cs_external_domain s)), (''requires_network'', PBool (cs_requires_network s)),
      (''requests_auth'', PBool (cs_requests_auth s)), (''requested_scopes'', str_list (cs_requested_scopes s))]"

text \<open>Equality of two dumped dictionaries, whose order does not matter.\<close>

definition same_dict :: "pydict \<Rightarrow> pydict \<Rightarrow> bool" where
  "same_dict a b = (set a = set b)"

definition build_diff :: "FlowSpec \<Rightarrow> CompiledFlow \<Rightarrow> string list" where
  "build_diff draft compiled =
     (let lines =
        (if f_trigger draft \<noteq> c_trigger compiled then [''trigger: normalized by compiler''] else []) @
        (if f_budget draft \<noteq> c_budget compiled then [''budget: normalized by compiler''] else []) @
        (if f_policy draft \<noteq> c_policy compiled then [''policy: normalized by compiler''] else []) @
        (if \<not> list_all2 same_dict (map dump_step (f_steps draft)) (map dump_compiled_step (c_steps compiled))
         then [''steps: normalized by compiler''] else []) @
        (if f_output draft \<noteq> c_output compiled then [''output: normalized by compiler''] else []) @
        (if f_idempotency draft \<noteq> c_idempotency compiled then [''idempotency: normalized by compiler''] else []) @
        (if f_audit draft \<noteq> c_audit compiled then [''audit: normalized by compiler''] else [])
      in if lines = [] then [''No normalization differences detected between draft and compiled flow.''] else lines)"

text \<open>\<open>f"{q:.2f}"\<close> for a number that is not negative, ties to even.\<close>

definition show_hundredths :: "rat \<Rightarrow> string" where
  "show_hundredths q =
     (let low = \<lfloor>100 * q\<rfloor>; rest = 100 * q - of_int low;
          n = nat (if rest > 1/2 \<or> (rest = 1/2 \<and> odd low) then low + 1 else low)
      in show_nat (n div 100) @ ''.'' @ pad_nat 2 (n mod 100))"

definition build_summary :: "DraftFlowResult \<Rightarrow> CompiledFlow \<Rightarrow> bool \<Rightarrow> string" where
  "build_summary draft compiled needs_confirmation =
     ''Drafted flow '' @ quoted (c_flow_id compiled) @ '' with '' @ show_nat (length (c_steps compiled)) @ '' steps, '' @
     ''trigger '' @ quoted (ft_type (c_trigger compiled)) @ '', confidence '' @ show_hundredths (df_confidence draft) @ '', '' @
     ''needs_confirmation='' @ (if needs_confirmation then ''true'' else ''false'') @ ''.''"

definition compile_draft_with_gating ::
    "'w PrimitiveRegistry \<Rightarrow> DraftFlowResult \<Rightarrow> rat option \<Rightarrow> draft_error + GatedCompileResult" where
  "compile_draft_with_gating reg draft confidence_threshold =
     (if \<not> valid_flow_spec (df_draft_flow_spec draft) then Inl DraftValidationError
      else case compile_flow reg (df_draft_flow_spec draft) of
        Inl e \<Rightarrow> Inl (DraftValueError e)
      | Inr compiled0 \<Rightarrow>
        (let threshold = (case confidence_threshold of Some t \<Rightarrow> t | None \<Rightarrow> fp_min_confidence (c_policy compiled0));
             warnings = map cw_message (c_warnings compiled0);
             needs_confirmation = (df_confidence draft < threshold \<or> warnings \<noteq> []);
             compiled = (if needs_confirmation then compiled0\<lparr>c_requires_confirmation := True\<rparr> else compiled0)
         in Inr \<lparr>gc_draft_flow_spec = df_draft_flow_spec draft, gc_compiled_flow = compiled,
              gc_confidence = df_confidence draft, gc_clarifying_questions = df_clarifying_questions draft,
              gc_needs_confirmation = needs_confirmation, gc_warnings = warnings,
              gc_summary = build_summary draft compiled needs_confirmation,
              gc_diff = build_diff (df_draft_flow_spec draft) compiled\<rparr>))"

definition propose_flow_from_text ::
    "'w PrimitiveRegistry \<Rightarrow> string \<Rightarrow> user_context \<Rightarrow> rat option \<Rightarrow> draft_error + GatedCompileResult" where
  "propose_flow_from_text reg text1 context confidence_threshold =
     compile_draft_with_gating reg (draft_flow_from_text text1 context) confidence_threshold"

section \<open>Lemmas\<close>

lemmas step_defs = context_step_def classify_step_def summarize_step_def actions_step_def post_step_def emit_step_def plain_step_def

lemma infer_steps_ids:
  "\<exists>a b c d. map st_step_id (infer_steps t) = [''ctx''] @ (if a then [''classify''] else [''summarize'']) @
     (if b then [''actions''] else []) @ (if c then [''post_thread''] else []) @ (if d then [''emit''] else []) \<and>
     map st_primitive (infer_steps t) = [''assemble_context''] @ (if a then [''classify''] else [''summarize'']) @
     (if b then [''extract_actions''] else []) @ (if c then [''create_thread''] else []) @ (if d then [''emit_event''] else [])"
  by (rule exI [of _ "contains ''classify'' (lower t) \<or> contains ''categorize'' (lower t)"],
      rule exI [of _ "contains ''action'' (lower t) \<or> contains ''next step'' (lower t)"],
      rule exI [of _ "contains_side_effect_request (lower t)"], rule exI [of _ "contains ''event'' (lower t)"])
    (simp add: infer_steps_def Let_def step_defs)

lemma infer_steps_ok:
  "infer_steps t \<noteq> []" "distinct (map st_step_id (infer_steps t))" "length (infer_steps t) \<le> 12" "list_all valid_step (infer_steps t)"
proof -
  obtain a b c d where i: "map st_step_id (infer_steps t) = [''ctx''] @ (if a then [''classify''] else [''summarize'']) @
     (if b then [''actions''] else []) @ (if c then [''post_thread''] else []) @ (if d then [''emit''] else [])"
    and p: "map st_primitive (infer_steps t) = [''assemble_context''] @ (if a then [''classify''] else [''summarize'']) @
     (if b then [''extract_actions''] else []) @ (if c then [''create_thread''] else []) @ (if d then [''emit_event''] else [])"
    using infer_steps_ids [of t] by blast
  show "infer_steps t \<noteq> []" using i by (cases "infer_steps t") auto
  show "distinct (map st_step_id (infer_steps t))" unfolding i by simp
  show "length (infer_steps t) \<le> 12" using arg_cong [OF i, of length] by simp
  have "list_all (\<lambda>x. x \<noteq> [] \<and> length x \<le> 128) (map st_step_id (infer_steps t))" unfolding i by simp
  moreover have "list_all (\<lambda>x. x \<in> set PrimitiveName) (map st_primitive (infer_steps t))"
    unfolding p by (simp add: PrimitiveName_def)
  ultimately show "list_all valid_step (infer_steps t)" by (simp add: valid_step_def list_all_iff)
qed

lemma infer_trigger_ok:
  "ft_type (infer_trigger t) \<in> {''manual'', ''cron'', ''event''} \<and> validate_trigger (infer_trigger t) = Inr (infer_trigger t)"
  by (simp add: infer_trigger_def validate_trigger_def given_def)

lemma slugify_ok: "slugify t \<noteq> []" "length (slugify t) \<le> 128"
  by (simp_all add: slugify_def Let_def)

lemma draft_fields:
  "f_steps (df_draft_flow_spec (draft_flow_from_text t uc)) = infer_steps (strip t)"
  "f_trigger (df_draft_flow_spec (draft_flow_from_text t uc)) = infer_trigger (lower (strip t))"
  "fp_min_confidence (f_policy (df_draft_flow_spec (draft_flow_from_text t uc))) = 75/100"
  "fi_key_template (f_idempotency (df_draft_flow_spec (draft_flow_from_text t uc))) = Some (slugify (strip t) @ ''::{date}'')"
  "df_confidence (draft_flow_from_text t uc) = estimate_confidence (strip t) (infer_trigger (lower (strip t)))
     (df_clarifying_questions (draft_flow_from_text t uc))"
  by (simp_all add: draft_flow_from_text_def Let_def)

text \<open>A template without two opening braces in a row has no placeholder.\<close>

lemma replace_all_absent: "old \<noteq> [] \<Longrightarrow> \<not> contains old s \<Longrightarrow> replace_all old new s = s"
  by (induction s) auto

lemma contains_prefix: "contains (p @ q) s \<Longrightarrow> contains p s"
proof (induction s)
  case (Cons c cs)
  have "take (length p) (c # cs) = p" if "take (length (p @ q)) (c # cs) = p @ q"
    using arg_cong [OF that, of "take (length p)"] by (simp add: min_def)
  with Cons show ?case by auto
qed simp

lemma contains_braces_append:
  "CHR 0x7B \<notin> set a \<Longrightarrow> \<not> contains [CHR 0x7B, CHR 0x7B] b \<Longrightarrow> \<not> contains [CHR 0x7B, CHR 0x7B] (a @ b)"
proof (induction a)
  case (Cons c a)
  then show ?case by (cases "a @ b") auto
qed simp

lemma sub_runs_chars: "x \<in> set (sub_runs i s) \<Longrightarrow> ascii_alnum x \<or> x = CHR ''_''"
  by (induction i s rule: sub_runs.induct) (auto split: if_splits)

lemma slugify_no_brace: "CHR 0x7B \<notin> set (slugify t)"
proof -
  have b: "\<not> ascii_alnum CHR 0x7B" by code_simp
  have "x \<in> set s" if "x \<in> set (strip_char y s)" for x y s
    using that by (auto simp: strip_char_def dest!: set_dropWhileD)
  then have "CHR 0x7B \<notin> set (strip_char CHR ''_'' (sub_runs False (lower (strip t))))"
    using sub_runs_chars b by fastforce
  then show ?thesis by (auto simp: slugify_def Let_def dest!: in_set_takeD)
qed

lemma draft_template_fixed:
  "render_template (Some (slugify t @ ''::{date}'')) rc = Some (slugify t @ ''::{date}'')"
proof -
  let ?s = "slugify t @ ''::{date}''"
  have "\<not> contains [CHR 0x7B, CHR 0x7B] ''::{date}''" by code_simp
  then have "\<not> contains [CHR 0x7B, CHR 0x7B] ?s" using contains_braces_append [OF slugify_no_brace] by blast
  then have "\<not> contains (placeholder k) ?s" for k
    using contains_prefix [of "[CHR 0x7B, CHR 0x7B]" "k @ ''}}''" ?s] by (auto simp: placeholder_def)
  then have "fold (\<lambda>(key, v) rendered. replace_all (placeholder key) (py_str v) rendered) rc ?s = ?s"
    by (induction rc) (auto simp: replace_all_absent placeholder_def)
  moreover obtain c cs where "?s = c # cs" using slugify_ok(1) [of t] by (cases "slugify t") auto
  ultimately show ?thesis by (simp add: render_template_def)
qed

lemma manual_confidence:
  assumes "ft_type tr = ''manual''"
  shows "estimate_confidence t tr qs < 75/100"
proof -
  define score :: rat where "score = 55/100 + (if ft_type tr \<noteq> ''manual'' then 15/100 else 0) +
    (if 8 \<le> length (split_words [] t) then 15/100 else 0) - 8/100 * of_nat (length qs)"
  have "score \<le> 70/100" using assms by (simp add: score_def)
  then have "max 0 (min 1 score) < 75/100" by (simp add: max_def min_def)
  then show ?thesis unfolding estimate_confidence_def Let_def score_def .
qed

lemma gate_Inr:
  assumes "compile_draft_with_gating reg draft th = Inr g"
  obtains compiled where "compile_flow reg (df_draft_flow_spec draft) = Inr compiled"
    "gc_needs_confirmation g \<longleftrightarrow> df_confidence draft < (case th of Some t \<Rightarrow> t | None \<Rightarrow> fp_min_confidence (c_policy compiled)) \<or>
      c_warnings compiled \<noteq> []"
    "c_steps (gc_compiled_flow g) = c_steps compiled" "c_idempotency (gc_compiled_flow g) = c_idempotency compiled"
    "gc_needs_confirmation g \<Longrightarrow> c_requires_confirmation (gc_compiled_flow g)"
    "gc_diff g = build_diff (df_draft_flow_spec draft) (gc_compiled_flow g)" "c_enabled (gc_compiled_flow g) = c_enabled compiled"
  using assms unfolding compile_draft_with_gating_def Let_def
  by (auto split: if_splits sum.splits)

section \<open>Properties\<close>


definition demo_user :: user_context where
  "demo_user = \<lparr>uc_user_id = Some (PStr ''u1''), uc_project_ids = None, uc_thread_ids = None, uc_persona = None\<rparr>"


text \<open>
  Drafted side effects are held: at the default threshold a proposed flow that has a step with side
  effects needs confirmation and its plan requires it, whatever the sentence was; so does every proposed
  flow that starts by hand.
\<close>

theorem drafted_side_effects_held:
  assumes "propose_flow_from_text reg t uc None = Inr g"
    "(\<exists>d \<in> set (c_steps (gc_compiled_flow g)). cs_side_effecting d) \<or> ft_type (infer_trigger (lower (strip t))) = ''manual''"
  shows "gc_needs_confirmation g \<and> c_requires_confirmation (gc_compiled_flow g)"
  using assms(1) [unfolded propose_flow_from_text_def]
proof (rule gate_Inr)
  fix compiled
  let ?spec = "df_draft_flow_spec (draft_flow_from_text t uc)"
  assume c: "compile_flow reg ?spec = Inr compiled"
    and n: "gc_needs_confirmation g \<longleftrightarrow> df_confidence (draft_flow_from_text t uc) <
      (case None of Some t \<Rightarrow> t | None \<Rightarrow> fp_min_confidence (c_policy compiled)) \<or> c_warnings compiled \<noteq> []"
    and s: "c_steps (gc_compiled_flow g) = c_steps compiled"
    and r: "gc_needs_confirmation g \<Longrightarrow> c_requires_confirmation (gc_compiled_flow g)"
  note ci = compile_flow_Inr [OF c]
  have "gc_needs_confirmation g"
  proof (cases "ft_type (infer_trigger (lower (strip t))) = ''manual''")
    case True
    then show ?thesis using manual_confidence n by (simp add: ci(5) draft_fields)
  next
    case False
    with assms(2) s ci(2) have "c_has_side_effects compiled" by auto
    with False have "c_warnings compiled \<noteq> []" by (simp add: ci(3) compile_warnings_def draft_fields)
    with n show ?thesis by blast
  qed
  with r show ?thesis by blast
qed

definition demo_sentence :: string where
  "demo_sentence = ''When the build breaks summarize the log and save it in a thread''"

lemma demo_proposal:
  obtains g where "propose_flow_from_text (default_registry demo_model :: unit PrimitiveRegistry) demo_sentence demo_user None = Inr g"
    "list_ex cs_side_effecting (c_steps (gc_compiled_flow g))"
proof -
  have "case propose_flow_from_text (default_registry demo_model :: unit PrimitiveRegistry) demo_sentence demo_user None of
      Inr g \<Rightarrow> list_ex cs_side_effecting (c_steps (gc_compiled_flow g)) | Inl _ \<Rightarrow> False" by code_simp
  then show ?thesis using that by (auto split: sum.splits)
qed

theorem drafted_side_effects_held_witness:
  "\<exists>g. propose_flow_from_text (default_registry demo_model :: unit PrimitiveRegistry) demo_sentence demo_user None = Inr g \<and>
     gc_needs_confirmation g"
proof (rule demo_proposal)
  fix g
  assume g: "propose_flow_from_text (default_registry demo_model :: unit PrimitiveRegistry) demo_sentence demo_user None = Inr g"
    "list_ex cs_side_effecting (c_steps (gc_compiled_flow g))"
  with drafted_side_effects_held [OF g(1)] show ?thesis by (auto simp: list_ex_iff)
qed

text \<open>
  C36. The key of a draft ignores the context: the template a draft writes ends in a single-braced
  \<open>{date}\<close>, which no context entry replaces, so every run of a proposed flow has one and the same
  idempotency key, on every date and for every user; after the first run that reached its steps, every
  later run, whatever its context, is answered with that first run.
\<close>

theorem drafted_key_is_constant:
  assumes "propose_flow_from_text reg0 t uc th = Inr g"
    "run_flow env (gc_compiled_flow g) rc reg cache w = (Inr run, cache', w')"
    "fr_step_results run \<noteq> []" "fr_status run \<noteq> ''cached''"
  shows "build_idempotency_key (gc_compiled_flow g) rc2 = Some (slugify (strip t) @ ''::{date}'') \<and>
    run_flow env2 (gc_compiled_flow g) rc2 reg2 cache' w2 = (Inr (run\<lparr>fr_status := ''cached''\<rparr>), cache', w2)"
  using assms(1) [unfolded propose_flow_from_text_def]
proof (rule gate_Inr)
  fix compiled
  let ?key = "slugify (strip t) @ ''::{date}''"
  assume c: "compile_flow reg0 (df_draft_flow_spec (draft_flow_from_text t uc)) = Inr compiled"
    and i: "c_idempotency (gc_compiled_flow g) = c_idempotency compiled"
  have "c_idempotency compiled = \<lparr>fi_key_template = Some ?key, fi_mode = ''return_cached''\<rparr>"
    using compile_flow_Inr(6) [OF c] by (simp add: draft_flow_from_text_def Let_def)
  then have k: "build_idempotency_key (gc_compiled_flow g) x = Some ?key" and m: "fi_mode (c_idempotency (gc_compiled_flow g)) = ''return_cached''" for x
    by (simp_all add: i build_idempotency_key_def draft_template_fixed Let_def given_def)
  have r: "cache'(?key) = Some run"
    using assms(2)
  proof (cases rule: run_flow_cases)
    case (ran ctx specs lp run1)
    then show ?thesis
      using k [of rc] m by (cases "slugify (strip t)") (auto simp: store_run_def)
  qed (use assms(3,4) in auto)
  then have "cached_run (gc_compiled_flow g) (Some ?key) cache' = Some run"
    using m by (cases "slugify (strip t)") (auto simp: cached_run_def)
  with k show ?thesis by (simp add: run_flow_def Let_def)
qed

theorem drafted_key_is_constant_witness:
  "\<exists>g cache' run. propose_flow_from_text (default_registry demo_model :: unit PrimitiveRegistry) demo_sentence demo_user None = Inr g \<and>
     run_flow demo_env (gc_compiled_flow g) [(''date'', PStr ''another day'')] log_registry cache' [] =
       (Inr (run\<lparr>fr_status := ''cached''\<rparr>), cache', [])"
proof -
  have "case propose_flow_from_text (default_registry demo_model :: unit PrimitiveRegistry) demo_sentence demo_user None of
      Inl _ \<Rightarrow> False
    | Inr g \<Rightarrow> (case run_flow demo_env (gc_compiled_flow g) yes log_registry Map.empty [] of
        (Inr run, cache', w') \<Rightarrow> fr_step_results run \<noteq> [] \<and> fr_status run \<noteq> ''cached'' | _ \<Rightarrow> False)" by code_simp
  then obtain g where g: "propose_flow_from_text (default_registry demo_model :: unit PrimitiveRegistry) demo_sentence demo_user None = Inr g"
    and c: "case run_flow demo_env (gc_compiled_flow g) yes log_registry Map.empty [] of
        (Inr run, cache', w') \<Rightarrow> fr_step_results run \<noteq> [] \<and> fr_status run \<noteq> ''cached'' | _ \<Rightarrow> False"
    by (cases "propose_flow_from_text (default_registry demo_model :: unit PrimitiveRegistry) demo_sentence demo_user None") simp_all
  obtain res cache' w' where r: "run_flow demo_env (gc_compiled_flow g) yes log_registry Map.empty [] = (res, cache', w')"
    by (metis prod.exhaust)
  with c obtain run where run: "res = Inr run" "fr_step_results run \<noteq> []" "fr_status run \<noteq> ''cached''" by (cases res) simp_all
  show ?thesis
    using g drafted_key_is_constant [OF g r [unfolded run(1)] run(2,3), of "[(''date'', PStr ''another day'')]" demo_env log_registry "[]"]
    by blast
qed

end
