(* ===== verification/Command_Store.thy ===== *)
theory Command_Store
  imports Orm_Table
begin

text \<open>
  Model of \<^verbatim>\<open>guardian/command_bus/store.py\<close>: the runs of the command bus and their event streams, kept in the
  database or, without one, in dictionaries. Both backends are modelled; the database tables are sessions
  as in \<open>Orm_Table\<close>. The results are that the events of a run are numbered without gaps and read back page
  by page, and that the dictionary backend answers like the database but for what a creation hands out.
\<close>

section \<open>Rows and views\<close>

record CommandRun =
  cr_run_id :: string
  cr_command_id :: string
  cr_status :: string
  cr_actor_kind :: string
  cr_actor_id :: string
  cr_actor_session_id :: "string option"
  cr_delegated_by :: "string option"
  cr_auth_subject :: string
  cr_invoke_version :: string
  cr_idempotency_key :: "string option"
  cr_args_hash :: string
  cr_args_redacted :: pydict
  cr_result_json :: "pydict option"
  cr_error_text :: "string option"
  cr_created_at :: pydt
  cr_started_at :: "pydt option"
  cr_ended_at :: "pydt option"

record CommandRunEvent =
  ev_run_id :: string
  ev_sequence :: int
  ev_event_type :: string
  ev_payload_json :: pydict
  ev_created_at :: pydt

text \<open>What the store hands out and keeps in memory: the same fields with the times as text.\<close>

record run_dict =
  rn_run_id :: string
  rn_command_id :: string
  rn_status :: string
  rn_actor_kind :: string
  rn_actor_id :: string
  rn_actor_session_id :: "string option"
  rn_delegated_by :: "string option"
  rn_auth_subject :: string
  rn_invoke_version :: string
  rn_idempotency_key :: "string option"
  rn_args_hash :: string
  rn_args_redacted :: pydict
  rn_result_json :: "pydict option"
  rn_error_text :: "string option"
  rn_created_at :: string
  rn_started_at :: "string option"
  rn_ended_at :: "string option"

record event_dict =
  ed_run_id :: string
  ed_sequence :: int
  ed_event_type :: string
  ed_payload_json :: pydict
  ed_created_at :: string

text \<open>The keyword arguments of \<open>create_run\<close>.\<close>

record new_run_args =
  nr_command_id :: string
  nr_status :: string
  nr_actor_kind :: string
  nr_actor_id :: string
  nr_actor_session_id :: "string option"
  nr_delegated_by :: "string option"
  nr_auth_subject :: string
  nr_invoke_version :: string
  nr_idempotency_key :: "string option"
  nr_args_hash :: string
  nr_args_redacted :: pydict

datatype bus_error = IdempotencyConflictError run_dict | BusValueError string | BusDatabase db_error

definition TERMINAL_STATUSES :: "string set" where
  "TERMINAL_STATUSES = {''completed'', ''failed'', ''blocked''}"

definition key_given :: "string option \<Rightarrow> bool" where
  "key_given k = (k \<noteq> None \<and> k \<noteq> Some [])"

definition row_to_dict :: "CommandRun \<Rightarrow> run_dict" where
  "row_to_dict row =
     \<lparr>rn_run_id = cr_run_id row, rn_command_id = cr_command_id row, rn_status = cr_status row,
      rn_actor_kind = cr_actor_kind row, rn_actor_id = cr_actor_id row,
      rn_actor_session_id = cr_actor_session_id row, rn_delegated_by = cr_delegated_by row,
      rn_auth_subject = cr_auth_subject row, rn_invoke_version = cr_invoke_version row,
      rn_idempotency_key = cr_idempotency_key row, rn_args_hash = cr_args_hash row,
      rn_args_redacted = cr_args_redacted row, rn_result_json = cr_result_json row,
      rn_error_text = cr_error_text row, rn_created_at = isoformat (cr_created_at row),
      rn_started_at = map_option isoformat (cr_started_at row), rn_ended_at = map_option isoformat (cr_ended_at row)\<rparr>"

definition event_to_dict :: "CommandRunEvent \<Rightarrow> event_dict" where
  "event_to_dict row =
     \<lparr>ed_run_id = ev_run_id row, ed_sequence = ev_sequence row, ed_event_type = ev_event_type row,
      ed_payload_json = ev_payload_json row, ed_created_at = isoformat (ev_created_at row)\<rparr>"

section \<open>The database backend\<close>

definition new_row :: "pydt \<Rightarrow> string \<Rightarrow> new_run_args \<Rightarrow> CommandRun" where
  "new_row now run_id a =
     \<lparr>cr_run_id = run_id, cr_command_id = nr_command_id a, cr_status = nr_status a, cr_actor_kind = nr_actor_kind a,
      cr_actor_id = nr_actor_id a, cr_actor_session_id = nr_actor_session_id a, cr_delegated_by = nr_delegated_by a,
      cr_auth_subject = nr_auth_subject a, cr_invoke_version = nr_invoke_version a,
      cr_idempotency_key = nr_idempotency_key a, cr_args_hash = nr_args_hash a, cr_args_redacted = nr_args_redacted a,
      cr_result_json = None, cr_error_text = None, cr_created_at = now, cr_started_at = None, cr_ended_at = None\<rparr>"

definition created_dict :: "string \<Rightarrow> new_run_args \<Rightarrow> pydict" where
  "created_dict run_id a =
     [(''run_id'', PStr run_id), (''command_id'', PStr (nr_command_id a)), (''status'', PStr (nr_status a)),
      (''idempotency_key'', opt_str (nr_idempotency_key a)), (''args_hash'', PStr (nr_args_hash a)),
      (''args_redacted'', PDict (nr_args_redacted a))]"

definition db_create_run ::
    "('r, CommandRun) orm \<Rightarrow> 'r \<Rightarrow> pydt \<Rightarrow> string \<Rightarrow> new_run_args \<Rightarrow> bus_error + ('r \<times> pydict)" where
  "db_create_run rapi rdb now run_id a =
     (case orm_add rapi rdb (new_row now run_id a) of
        Inr rdb' \<Rightarrow> Inr (rdb', created_dict run_id a)
      | Inl (IntegrityError m) \<Rightarrow>
        if key_given (nr_idempotency_key a)
        then (case orm_first rapi rdb (\<lambda>r. cr_command_id r = nr_command_id a \<and> cr_idempotency_key r = nr_idempotency_key a) of
                Some existing_row \<Rightarrow> Inl (IdempotencyConflictError (row_to_dict existing_row))
              | None \<Rightarrow> Inl (BusDatabase (IntegrityError m)))
        else Inl (BusDatabase (IntegrityError m))
      | Inl (DatabaseError m) \<Rightarrow> Inl (BusDatabase (DatabaseError m)))"

definition db_get_run :: "('r, CommandRun) orm \<Rightarrow> 'r \<Rightarrow> string \<Rightarrow> run_dict option" where
  "db_get_run rapi rdb run_id = map_option row_to_dict (orm_first rapi rdb (\<lambda>r. cr_run_id r = run_id))"

definition db_get_run_by_idempotency_key ::
    "('r, CommandRun) orm \<Rightarrow> 'r \<Rightarrow> string \<Rightarrow> string \<Rightarrow> run_dict option" where
  "db_get_run_by_idempotency_key rapi rdb command_id idempotency_key =
     (let key = strip idempotency_key in
      if key = [] then None
      else map_option row_to_dict
        (orm_first rapi rdb (\<lambda>r. cr_command_id r = command_id \<and> cr_idempotency_key r = Some key)))"

definition next_sequence :: "('e, CommandRunEvent) orm \<Rightarrow> 'e \<Rightarrow> string \<Rightarrow> int" where
  "next_sequence eapi edb run_id =
     fold max (map ev_sequence (orm_select eapi edb (\<lambda>e. ev_run_id e = run_id))) 0 + 1"

definition db_append_event ::
    "('r, CommandRun) orm \<Rightarrow> 'r \<Rightarrow> ('e, CommandRunEvent) orm \<Rightarrow> 'e \<Rightarrow> pydt \<Rightarrow> string \<Rightarrow> string \<Rightarrow> pydict \<Rightarrow>
      bus_error + ('e \<times> int)" where
  "db_append_event rapi rdb eapi edb now run_id event_type payload =
     (case orm_first rapi rdb (\<lambda>r. cr_run_id r = run_id) of
        None \<Rightarrow> Inl (BusValueError (''run_id not found: '' @ run_id))
      | Some _ \<Rightarrow>
        (let next_seq = next_sequence eapi edb run_id;
             row = \<lparr>ev_run_id = run_id, ev_sequence = next_seq, ev_event_type = event_type,
               ev_payload_json = payload, ev_created_at = now\<rparr>
         in case orm_add eapi edb row of
              Inl e \<Rightarrow> Inl (BusDatabase e)
            | Inr edb' \<Rightarrow> Inr (edb', next_seq)))"

definition db_list_events_after ::
    "('e, CommandRunEvent) orm \<Rightarrow> 'e \<Rightarrow> string \<Rightarrow> int \<Rightarrow> nat \<Rightarrow> event_dict list" where
  "db_list_events_after eapi edb run_id after_seq limit =
     map event_to_dict (take limit (sort_key ev_sequence
       (orm_select eapi edb (\<lambda>e. ev_run_id e = run_id \<and> max after_seq 0 < ev_sequence e))))"

text \<open>The assignments of \<open>update_run\<close>.\<close>

definition updated_row :: "pydt \<Rightarrow> string \<Rightarrow> pydict option \<Rightarrow> string option \<Rightarrow> CommandRun \<Rightarrow> CommandRun" where
  "updated_row now status result_json error_text row =
     (let row1 = row\<lparr>cr_status := status\<rparr>;
          row2 = (if cr_started_at row1 = None \<and> status = ''running'' then row1\<lparr>cr_started_at := Some now\<rparr> else row1);
          row3 = (if status \<in> TERMINAL_STATUSES
            then (let r = row2\<lparr>cr_ended_at := Some now\<rparr> in
              if cr_started_at r = None then r\<lparr>cr_started_at := Some now\<rparr> else r) else row2);
          row4 = (if result_json \<noteq> None then row3\<lparr>cr_result_json := result_json\<rparr> else row3)
      in if error_text \<noteq> None then row4\<lparr>cr_error_text := error_text\<rparr> else row4)"

definition db_update_run ::
    "('r, CommandRun) orm \<Rightarrow> 'r \<Rightarrow> pydt \<Rightarrow> string \<Rightarrow> string \<Rightarrow> pydict option \<Rightarrow> string option \<Rightarrow> bus_error + 'r" where
  "db_update_run rapi rdb now run_id status result_json error_text =
     (case orm_first rapi rdb (\<lambda>r. cr_run_id r = run_id) of
        None \<Rightarrow> Inl (BusValueError (''run_id not found: '' @ run_id))
      | Some row \<Rightarrow>
        (case orm_commit rapi rdb (updated_row now status result_json error_text row) of
           Inl e \<Rightarrow> Inl (BusDatabase e)
         | Inr rdb' \<Rightarrow> Inr rdb'))"

section \<open>The dictionary backend\<close>

record mem_store =
  mem_runs :: "(string \<times> run_dict) list"
  mem_events :: "(string \<times> event_dict list) list"
  mem_idempotency_index :: "((string \<times> string) \<times> string) list"

definition empty_mem :: mem_store where
  "empty_mem = \<lparr>mem_runs = [], mem_events = [], mem_idempotency_index = []\<rparr>"

definition mem_conflict :: "mem_store \<Rightarrow> new_run_args \<Rightarrow> run_dict option" where
  "mem_conflict m a =
     (if key_given (nr_idempotency_key a)
      then (case map_of (mem_idempotency_index m) (nr_command_id a, the (nr_idempotency_key a)) of
              None \<Rightarrow> None
            | Some existing_run_id \<Rightarrow> map_of (mem_runs m) existing_run_id)
      else None)"

definition events_setdefault :: "string \<Rightarrow> (string \<times> event_dict list) list \<Rightarrow> (string \<times> event_dict list) list" where
  "events_setdefault run_id evs = (if map_of evs run_id = None then evs @ [(run_id, [])] else evs)"

definition mem_create_run :: "mem_store \<Rightarrow> pydt \<Rightarrow> string \<Rightarrow> new_run_args \<Rightarrow> bus_error + (mem_store \<times> run_dict)" where
  "mem_create_run m now run_id a =
     (case mem_conflict m a of
        Some existing_run \<Rightarrow> Inl (IdempotencyConflictError existing_run)
      | None \<Rightarrow>
        (let run = row_to_dict (new_row now run_id a);
             m1 = m\<lparr>mem_runs := AList.update run_id run (mem_runs m),
               mem_events := events_setdefault run_id (mem_events m)\<rparr>;
             m2 = (if key_given (nr_idempotency_key a)
               then m1\<lparr>mem_idempotency_index :=
                 AList.update (nr_command_id a, the (nr_idempotency_key a)) run_id (mem_idempotency_index m)\<rparr>
               else m1)
         in Inr (m2, run)))"

definition mem_get_run :: "mem_store \<Rightarrow> string \<Rightarrow> run_dict option" where
  "mem_get_run m run_id = map_of (mem_runs m) run_id"

definition mem_get_run_by_idempotency_key :: "mem_store \<Rightarrow> string \<Rightarrow> string \<Rightarrow> run_dict option" where
  "mem_get_run_by_idempotency_key m command_id idempotency_key =
     (let key = strip idempotency_key in
      if key = [] then None
      else case map_of (mem_idempotency_index m) (command_id, key) of
        Some existing_run_id \<Rightarrow> map_of (mem_runs m) existing_run_id
      | None \<Rightarrow> find (\<lambda>run. rn_command_id run = command_id \<and> rn_idempotency_key run = Some key) (map snd (mem_runs m)))"

definition mem_events_of :: "mem_store \<Rightarrow> string \<Rightarrow> event_dict list" where
  "mem_events_of m run_id = (case map_of (mem_events m) run_id of None \<Rightarrow> [] | Some es \<Rightarrow> es)"

definition mem_append_event :: "mem_store \<Rightarrow> pydt \<Rightarrow> string \<Rightarrow> string \<Rightarrow> pydict \<Rightarrow> mem_store \<times> int" where
  "mem_append_event m now run_id event_type payload =
     (let evs = events_setdefault run_id (mem_events m); events = (case map_of evs run_id of None \<Rightarrow> [] | Some es \<Rightarrow> es);
          next_seq = int (length events) + 1;
          event = \<lparr>ed_run_id = run_id, ed_sequence = next_seq, ed_event_type = event_type,
            ed_payload_json = payload, ed_created_at = isoformat now\<rparr>
      in (m\<lparr>mem_events := AList.update run_id (events @ [event]) evs\<rparr>, next_seq))"

definition mem_list_events_after :: "mem_store \<Rightarrow> string \<Rightarrow> int \<Rightarrow> nat \<Rightarrow> event_dict list" where
  "mem_list_events_after m run_id after_seq limit =
     take limit (sort_key ed_sequence (filter (\<lambda>e. max after_seq 0 < ed_sequence e) (mem_events_of m run_id)))"

definition updated_dict :: "pydt \<Rightarrow> string \<Rightarrow> pydict option \<Rightarrow> string option \<Rightarrow> run_dict \<Rightarrow> run_dict" where
  "updated_dict now status result_json error_text run =
     (let run1 = run\<lparr>rn_status := status\<rparr>;
          run2 = (if rn_started_at run1 = None \<and> status = ''running'' then run1\<lparr>rn_started_at := Some (isoformat now)\<rparr> else run1);
          run3 = (if status \<in> TERMINAL_STATUSES
            then (let r = (if rn_started_at run2 = None then run2\<lparr>rn_started_at := Some (isoformat now)\<rparr> else run2) in
              r\<lparr>rn_ended_at := Some (isoformat now)\<rparr>) else run2);
          run4 = (if result_json \<noteq> None then run3\<lparr>rn_result_json := result_json\<rparr> else run3)
      in if error_text \<noteq> None then run4\<lparr>rn_error_text := error_text\<rparr> else run4)"

definition mem_update_run ::
    "mem_store \<Rightarrow> pydt \<Rightarrow> string \<Rightarrow> string \<Rightarrow> pydict option \<Rightarrow> string option \<Rightarrow> bus_error + mem_store" where
  "mem_update_run m now run_id status result_json error_text =
     (case map_of (mem_runs m) run_id of
        None \<Rightarrow> Inl (BusValueError (''run_id not found: '' @ run_id))
      | Some run \<Rightarrow> Inr (m\<lparr>mem_runs :=
          AList.update run_id (updated_dict now status result_json error_text run) (mem_runs m)\<rparr>))"

section \<open>The event log of a run\<close>

text \<open>The events of a run in the order of their numbers, and the numbering the store keeps.\<close>

definition event_log :: "('e, CommandRunEvent) orm \<Rightarrow> 'e \<Rightarrow> string \<Rightarrow> CommandRunEvent list" where
  "event_log eapi edb run_id = sort_key ev_sequence (orm_select eapi edb (\<lambda>e. ev_run_id e = run_id))"

definition gap_free :: "('e, CommandRunEvent) orm \<Rightarrow> 'e \<Rightarrow> bool" where
  "gap_free eapi edb =
     (\<forall>run_id. map ev_sequence (event_log eapi edb run_id) = [1..int (length (event_log eapi edb run_id))])"

definition event_key :: "CommandRunEvent \<Rightarrow> string \<times> int" where
  "event_key e = (ev_run_id e, ev_sequence e)"

text \<open>The states a store gets into by its writing operations, whatever their arguments and times.\<close>

inductive bus_reaches ::
    "('r, CommandRun) orm \<Rightarrow> ('e, CommandRunEvent) orm \<Rightarrow> 'r \<times> 'e \<Rightarrow> 'r \<times> 'e \<Rightarrow> bool" for rapi eapi where
  bus_start: "bus_reaches rapi eapi s s"
| bus_create: "bus_reaches rapi eapi s (rdb, edb) \<Longrightarrow> db_create_run rapi rdb now run_id a = Inr (rdb', d) \<Longrightarrow>
    bus_reaches rapi eapi s (rdb', edb)"
| bus_update: "bus_reaches rapi eapi s (rdb, edb) \<Longrightarrow>
    db_update_run rapi rdb now run_id status result_json error_text = Inr rdb' \<Longrightarrow> bus_reaches rapi eapi s (rdb', edb)"
| bus_append: "bus_reaches rapi eapi s (rdb, edb) \<Longrightarrow>
    db_append_event rapi rdb eapi edb now run_id event_type payload = Inr (edb', n) \<Longrightarrow>
    bus_reaches rapi eapi s (rdb, edb')"

lemma sort_key_determined:
  fixes f :: "'a \<Rightarrow> 'b::linorder"
  assumes "distinct xs" "distinct ys" "set xs = set ys" "inj_on f (set xs)"
  shows "sort_key f xs = sort_key f ys"
proof -
  have "map f (sort_key f xs) = map f (sort_key f ys)"
    using assms by (intro sorted_distinct_set_unique) (auto simp: distinct_map)
  moreover have "inj_on f (set (sort_key f xs) \<union> set (sort_key f ys))" using assms by simp
  ultimately show ?thesis by (rule map_inj_on)
qed

lemma filter_upto_drop:
  assumes "map f xs = [1..int (length xs)]" "0 \<le> a"
  shows "filter (\<lambda>x. a < f x) xs = drop (nat a) xs"
proof -
  have f: "f (xs ! i) = int i + 1" if "i < length xs" for i
  proof -
    have "f (xs ! i) = [1..int (length xs)] ! i" using that by (simp flip: assms(1))
    with that show ?thesis by (simp add: nth_upto)
  qed
  have "filter (\<lambda>x. a < f x) (take (nat a) xs) = []"
    using f by (auto simp: filter_empty_conv in_set_conv_nth)
  moreover have "filter (\<lambda>x. a < f x) (drop (nat a) xs) = drop (nat a) xs"
    using f assms(2) by (auto simp: filter_id_conv in_set_conv_nth)
  ultimately show ?thesis
    by (metis append_Nil append_take_drop_id filter_append)
qed

lemma fold_max_upto: "fold max [1..int n] 0 = int n"
proof (induction n)
  case (Suc n)
  have "[1..int (Suc n)] = [1..int n] @ [int n + 1]" using upto_rec2 [of 1 "int n + 1"] by (simp add: add.commute)
  with Suc show ?case by simp
qed simp

lemma fold_max_sort: "fold max (map f xs) (a::int) = fold max (map f (sort_key f xs)) a"
proof -
  have "fold max ys a = Max (insert a (set ys))" for ys :: "int list"
    using Max.set_eq_fold [of a ys] by simp
  then show ?thesis by simp
qed

locale event_table = orm_table eapi event_key einv for eapi :: "('e, CommandRunEvent) orm" and einv
begin

lemma event_log_set: "einv edb \<Longrightarrow> set (event_log eapi edb run_id) = {e \<in> orm_rows eapi edb. ev_run_id e = run_id}"
  by (simp add: event_log_def select_rows)

lemma seq_inj: "einv edb \<Longrightarrow> inj_on ev_sequence {e \<in> orm_rows eapi edb. ev_run_id e = run_id}"
  using primary_key by (auto simp: inj_on_def event_key_def)

lemma next_sequence_log:
  assumes "gap_free eapi edb"
  shows "next_sequence eapi edb run_id = int (length (event_log eapi edb run_id)) + 1"
  using assms
  unfolding next_sequence_def fold_max_sort [of ev_sequence "orm_select eapi edb (\<lambda>e. ev_run_id e = run_id)"]
  unfolding event_log_def [symmetric] gap_free_def by (simp add: fold_max_upto)

lemma sorted_select_log:
  assumes "einv edb"
  shows "sort_key ev_sequence (orm_select eapi edb (\<lambda>e. ev_run_id e = run_id \<and> P e)) = filter P (event_log eapi edb run_id)"
proof -
  have "sort_key ev_sequence (orm_select eapi edb (\<lambda>e. ev_run_id e = run_id \<and> P e))
      = sort_key ev_sequence (filter P (event_log eapi edb run_id))"
    using assms seq_inj [OF assms, of run_id] event_log_set [OF assms, of run_id]
    by (intro sort_key_determined)
      (auto simp: select_distinct select_rows event_log_def intro: inj_on_subset)
  also have "\<dots> = filter P (event_log eapi edb run_id)"
    by (intro sort_key_id_if_sorted) (simp add: event_log_def sorted_filter)
  finally show ?thesis .
qed

lemma append_log:
  assumes "einv edb" "gap_free eapi edb" "orm_add eapi edb row = Inr edb'"
    and seq: "ev_sequence row = next_sequence eapi edb (ev_run_id row)"
  shows "event_log eapi edb' run_id =
    (if run_id = ev_run_id row then event_log eapi edb run_id @ [row] else event_log eapi edb run_id)"
proof -
  let ?log = "event_log eapi edb run_id" and ?new = "if run_id = ev_run_id row then [row] else []"
  have inv: "einv edb'" and rows: "orm_rows eapi edb' = insert row (orm_rows eapi edb)"
    using assms add_invar add_rows by blast+
  have fresh: "row \<notin> orm_rows eapi edb" using add_fresh [OF assms(1,3)] by blast
  have "event_log eapi edb' run_id = sort_key ev_sequence (?log @ ?new)"
    unfolding event_log_def [of eapi edb']
    using fresh inv seq_inj [OF inv, of run_id] event_log_set [OF assms(1), of run_id] select_distinct [OF assms(1)]
    by (intro sort_key_determined) (auto simp: select_distinct select_rows rows event_log_def)
  also have "\<dots> = ?log @ ?new"
  proof (rule sort_key_id_if_sorted)
    have m: "map ev_sequence ?log = [1..int (length ?log)]" using assms(2) by (simp add: gap_free_def)
    then have "\<forall>x \<in> set (map ev_sequence ?log). x \<le> int (length ?log)" by simp
    then show "sorted (map ev_sequence (?log @ ?new))"
      using seq next_sequence_log [OF assms(2)] by (auto simp: sorted_append m)
  qed
  finally show ?thesis by simp
qed

lemma append_gap_free:
  assumes "einv edb" "gap_free eapi edb" "orm_add eapi edb row = Inr edb'"
    and seq: "ev_sequence row = next_sequence eapi edb (ev_run_id row)"
  shows "gap_free eapi edb'"
  unfolding gap_free_def
proof
  fix run_id
  let ?n = "int (length (event_log eapi edb run_id))"
  have m: "map ev_sequence (event_log eapi edb run_id) = [1..?n]" using assms(2) by (simp add: gap_free_def)
  have "[1..?n + 1] = [1..?n] @ [?n + 1]" using upto_rec2 [of 1 "?n + 1"] by simp
  then show "map ev_sequence (event_log eapi edb' run_id) = [1..int (length (event_log eapi edb' run_id))]"
    using m seq next_sequence_log [OF assms(2), of run_id] by (auto simp: append_log [OF assms] add.commute)
qed

lemma reaches_gap_free:
  assumes "bus_reaches rapi eapi s t" "einv (snd s)" "orm_rows eapi (snd s) = {}"
  shows "einv (snd t) \<and> gap_free eapi (snd t)"
  using assms
proof induction
  case (bus_start s)
  then have "event_log eapi (snd s) r = []" for r using event_log_set [of "snd s" r] by simp
  with bus_start show ?case by (simp add: gap_free_def)
next
  case (bus_append s rdb edb now run_id event_type payload edb' n)
  then have IH: "einv edb" "gap_free eapi edb" by simp_all
  from bus_append(2) obtain row where "orm_add eapi edb row = Inr edb'"
      "ev_sequence row = next_sequence eapi edb (ev_run_id row)"
    by (auto simp: db_append_event_def Let_def split: option.splits sum.splits)
  with IH show ?case using append_gap_free add_invar by fastforce
qed simp_all

end

section \<open>The two backends side by side\<close>

text \<open>The constraints of the two mapped classes, on tables held as lists.\<close>

definition RUN_STATUSES :: "string set" where
  "RUN_STATUSES = {''queued'', ''running'', ''completed'', ''failed'', ''blocked''}"

definition same_key :: "CommandRun \<Rightarrow> CommandRun \<Rightarrow> bool" where
  "same_key r r' = (cr_command_id r = cr_command_id r' \<and> cr_idempotency_key r = cr_idempotency_key r' \<and>
     cr_idempotency_key r \<noteq> None)"

definition run_constraint :: "CommandRun list \<Rightarrow> CommandRun \<Rightarrow> string option" where
  "run_constraint rows r =
     (if cr_status r \<notin> RUN_STATUSES then Some ''command_runs_status_check''
      else if list_ex (same_key r) rows then Some ''uq_command_idempotency_key'' else None)"

definition run_table :: "(CommandRun list, CommandRun) orm" where
  "run_table = list_orm cr_run_id run_constraint"

definition event_tbl :: "(CommandRunEvent list, CommandRunEvent) orm" where
  "event_tbl = list_orm event_key (\<lambda>_ _. None)"

interpretation evs: event_table event_tbl "list_invar event_key"
  unfolding event_table_def event_tbl_def by (rule orm_table_list_orm)

datatype bus_op =
    CreateRun pydt string new_run_args
  | GetRun string
  | GetRunByKey string string
  | AppendEvent pydt string string pydict
  | ListEventsAfter string int nat
  | UpdateRun pydt string string "pydict option" "string option"

text \<open>The answers: \<open>create_run\<close> answers six fields of the run from the database and the whole run from memory.\<close>

datatype bus_value = VCreated pydict | VFullRun run_dict | VRun "run_dict option" | VSeq int | VEvents "event_dict list" | VDone

type_synonym db_state = "CommandRun list \<times> CommandRunEvent list"

fun db_op :: "db_state \<Rightarrow> bus_op \<Rightarrow> db_state \<times> (bus_error + bus_value)" where
  "db_op (rs, es) (CreateRun now run_id a) =
     (case db_create_run run_table rs now run_id a of Inl e \<Rightarrow> ((rs, es), Inl e) | Inr (rs', d) \<Rightarrow> ((rs', es), Inr (VCreated d)))"
| "db_op (rs, es) (GetRun run_id) = ((rs, es), Inr (VRun (db_get_run run_table rs run_id)))"
| "db_op (rs, es) (GetRunByKey c k) = ((rs, es), Inr (VRun (db_get_run_by_idempotency_key run_table rs c k)))"
| "db_op (rs, es) (AppendEvent now run_id t p) =
     (case db_append_event run_table rs event_tbl es now run_id t p of
        Inl e \<Rightarrow> ((rs, es), Inl e) | Inr (es', n) \<Rightarrow> ((rs, es'), Inr (VSeq n)))"
| "db_op (rs, es) (ListEventsAfter run_id a l) = ((rs, es), Inr (VEvents (db_list_events_after event_tbl es run_id a l)))"
| "db_op (rs, es) (UpdateRun now run_id st res err) =
     (case db_update_run run_table rs now run_id st res err of
        Inl e \<Rightarrow> ((rs, es), Inl e) | Inr rs' \<Rightarrow> ((rs', es), Inr VDone))"

text \<open>The six fields of a run that \<open>create_run\<close> returns from the database.\<close>

definition created_view :: "run_dict \<Rightarrow> pydict" where
  "created_view run =
     [(''run_id'', PStr (rn_run_id run)), (''command_id'', PStr (rn_command_id run)), (''status'', PStr (rn_status run)),
      (''idempotency_key'', opt_str (rn_idempotency_key run)), (''args_hash'', PStr (rn_args_hash run)),
      (''args_redacted'', PDict (rn_args_redacted run))]"

fun mem_op :: "mem_store \<Rightarrow> bus_op \<Rightarrow> mem_store \<times> (bus_error + bus_value)" where
  "mem_op m (CreateRun now run_id a) =
     (case mem_create_run m now run_id a of Inl e \<Rightarrow> (m, Inl e) | Inr (m', run) \<Rightarrow> (m', Inr (VFullRun run)))"
| "mem_op m (GetRun run_id) = (m, Inr (VRun (mem_get_run m run_id)))"
| "mem_op m (GetRunByKey c k) = (m, Inr (VRun (mem_get_run_by_idempotency_key m c k)))"
| "mem_op m (AppendEvent now run_id t p) =
     (case mem_append_event m now run_id t p of (m', n) \<Rightarrow> (m', Inr (VSeq n)))"
| "mem_op m (ListEventsAfter run_id a l) = (m, Inr (VEvents (mem_list_events_after m run_id a l)))"
| "mem_op m (UpdateRun now run_id st res err) =
     (case mem_update_run m now run_id st res err of Inl e \<Rightarrow> (m, Inl e) | Inr m' \<Rightarrow> (m', Inr VDone))"

text \<open>
  How an answer of the memory store (left) goes with one of the database (right): the database answers a creation with
  six fields of the run that the memory store answers whole, and every other answer is the same.
\<close>

definition same_answer :: "bus_error + bus_value \<Rightarrow> bus_error + bus_value \<Rightarrow> bool" where
  "same_answer mem db =
     (case mem of Inr (VFullRun run) \<Rightarrow> db = Inr (VCreated (created_view run)) | _ \<Rightarrow> db = mem)"

fun db_trace :: "db_state \<Rightarrow> bus_op list \<Rightarrow> (bus_error + bus_value) list" where
  "db_trace s [] = []"
| "db_trace s (x # xs) = (case db_op s x of (s', v) \<Rightarrow> v # db_trace s' xs)"

fun mem_trace :: "mem_store \<Rightarrow> bus_op list \<Rightarrow> (bus_error + bus_value) list" where
  "mem_trace m [] = []"
| "mem_trace m (x # xs) = (case mem_op m x of (m', v) \<Rightarrow> v # mem_trace m' xs)"

text \<open>
  What the callers keep to: a run id is never drawn twice, an empty idempotency key is sent as none, the status
  is one of the five, and events are appended to runs that exist.
\<close>

fun op_ok :: "mem_store \<Rightarrow> bus_op \<Rightarrow> bool" where
  "op_ok m (CreateRun now run_id a) =
     (mem_get_run m run_id = None \<and> nr_idempotency_key a \<noteq> Some [] \<and> nr_status a \<in> RUN_STATUSES)"
| "op_ok m (AppendEvent now run_id t p) = (mem_get_run m run_id \<noteq> None)"
| "op_ok m (UpdateRun now run_id st res err) = (st \<in> RUN_STATUSES)"
| "op_ok m _ = True"

fun ops_ok :: "mem_store \<Rightarrow> bus_op list \<Rightarrow> bool" where
  "ops_ok m [] = True"
| "ops_ok m (x # xs) = (op_ok m x \<and> ops_ok (fst (mem_op m x)) xs)"

subsection \<open>The simulation\<close>

definition find_key :: "CommandRun list \<Rightarrow> string \<Rightarrow> string option \<Rightarrow> CommandRun option" where
  "find_key rs c k = find (\<lambda>r. cr_command_id r = c \<and> cr_idempotency_key r = k) rs"

definition rows_valid :: "CommandRun list \<Rightarrow> bool" where
  "rows_valid rs = (distinct (map cr_run_id rs) \<and> (\<forall>r \<in> set rs. \<forall>r' \<in> set rs. same_key r r' \<longrightarrow> r = r'))"

definition runs_match :: "mem_store \<Rightarrow> CommandRun list \<Rightarrow> bool" where
  "runs_match m rs =
     (rows_valid rs \<and> mem_runs m = map (\<lambda>r. (cr_run_id r, row_to_dict r)) rs \<and>
      (\<forall>c k. k \<noteq> [] \<longrightarrow> map_of (mem_idempotency_index m) (c, k) = map_option cr_run_id (find_key rs c (Some k))))"

definition events_match :: "mem_store \<Rightarrow> CommandRunEvent list \<Rightarrow> bool" where
  "events_match m es =
     (\<forall>run_id. let own = filter (\<lambda>e. ev_run_id e = run_id) es in
        mem_events_of m run_id = map event_to_dict own \<and> map ev_sequence own = [1..int (length own)])"

definition sim :: "mem_store \<Rightarrow> db_state \<Rightarrow> bool" where
  "sim m s = (runs_match m (fst s) \<and> events_match m (snd s))"

lemma run_table_ops [simp]:
  "orm_select run_table = list_select" "orm_add run_table = list_add cr_run_id run_constraint"
  "orm_commit run_table = list_commit cr_run_id run_constraint"
  by (simp_all add: run_table_def)

lemma event_tbl_ops [simp]:
  "orm_select event_tbl = list_select" "orm_add event_tbl = list_add event_key (\<lambda>_ _. None)"
  by (simp_all add: event_tbl_def)

lemma hd_filter_find: "(case filter P xs of [] \<Rightarrow> None | x # _ \<Rightarrow> Some x) = find P xs"
  by (induction xs) auto

lemma first_run_table [simp]: "orm_first run_table rs P = find P rs"
  by (simp add: orm_first_def list_select_def hd_filter_find)

lemma map_of_rows: "map_of (map (\<lambda>r. (f r, g r)) rs) k = map_option g (find (\<lambda>r. f r = k) rs)"
  by (induction rs) auto

lemma alist_update_fresh: "k \<notin> fst ` set al \<Longrightarrow> AList.update k v al = al @ [(k, v)]"
  by (induction al) auto

lemma update_rows:
  assumes "distinct (map f rs)" "r \<in> set rs"
  shows "AList.update (f r) v (map (\<lambda>r. (f r, g r)) rs) = map (\<lambda>x. (f x, if f x = f r then v else g x)) rs"
  using assms by (induction rs) (auto simp: image_iff)

lemma find_append: "find P (xs @ ys) = (case find P xs of None \<Rightarrow> find P ys | Some x \<Rightarrow> Some x)"
  by (induction xs) auto

lemma find_map_keep: "(\<And>x. x \<in> set xs \<Longrightarrow> P (f x) = P x) \<Longrightarrow> find P (map f xs) = map_option f (find P xs)"
  by (induction xs) auto

lemma list_ex_find: "list_ex P xs \<longleftrightarrow> find P xs \<noteq> None"
  by (induction xs) auto

lemma runs_match_get:
  assumes "runs_match m rs"
  shows "map_of (mem_runs m) run_id = map_option row_to_dict (find (\<lambda>r. cr_run_id r = run_id) rs)"
  using assms by (simp add: runs_match_def map_of_rows)

lemma rows_valid_find:
  assumes "rows_valid rs" "r \<in> set rs"
  shows "find (\<lambda>x. cr_run_id x = cr_run_id r) rs = Some r"
  using assms(1)[unfolded rows_valid_def, THEN conjunct1] assms(2)
  by (induction rs) (auto simp: image_iff)

lemma find_key_in:
  "find_key rs c k = Some r \<Longrightarrow> r \<in> set rs \<and> cr_command_id r = c \<and> cr_idempotency_key r = k"
  unfolding find_key_def by (auto simp: find_Some_iff)

lemma mem_key_lookup:
  assumes "runs_match m rs" "k \<noteq> []"
  shows "(case map_of (mem_idempotency_index m) (c, k) of None \<Rightarrow> None | Some i \<Rightarrow> map_of (mem_runs m) i)
    = map_option row_to_dict (find_key rs c (Some k))"
proof (cases "find_key rs c (Some k)")
  case (Some r)
  then have "find (\<lambda>x. cr_run_id x = cr_run_id r) rs = Some r"
    using assms(1) find_key_in [OF Some] rows_valid_find by (simp add: runs_match_def)
  with Some assms show ?thesis by (simp add: runs_match_def map_of_rows)
qed (use assms in \<open>simp add: runs_match_def\<close>)

lemma constraint_new_row:
  assumes "nr_status a \<in> RUN_STATUSES"
  shows "run_constraint rs (new_row now run_id a) =
    (if nr_idempotency_key a \<noteq> None \<and> find_key rs (nr_command_id a) (nr_idempotency_key a) \<noteq> None
     then Some ''uq_command_idempotency_key'' else None)"
proof -
  have "same_key (new_row now run_id a) =
      (\<lambda>r. nr_idempotency_key a \<noteq> None \<and> cr_command_id r = nr_command_id a \<and> cr_idempotency_key r = nr_idempotency_key a)"
    by (auto simp: same_key_def new_row_def fun_eq_iff)
  with assms show ?thesis
    by (auto simp: run_constraint_def new_row_def list_ex_find find_key_def find_None_iff)
qed

lemma rows_valid_append:
  assumes "rows_valid rs" "find (\<lambda>r. cr_run_id r = run_id) rs = None" "nr_status a \<in> RUN_STATUSES"
    "run_constraint rs (new_row now run_id a) = None"
  shows "rows_valid (rs @ [new_row now run_id a])"
proof -
  let ?r = "new_row now run_id a"
  have "\<not> same_key ?r x" "\<not> same_key x ?r" if "x \<in> set rs" for x
    using assms(3,4) that
    by (auto simp: run_constraint_def list_ex_iff same_key_def new_row_def split: if_splits)
  moreover have "run_id \<notin> cr_run_id ` set rs" "cr_run_id ?r = run_id"
    using assms(2) by (auto simp: find_None_iff new_row_def)
  ultimately show ?thesis using assms(1) by (auto simp: rows_valid_def)
qed

lemma mem_conflict_find:
  assumes "runs_match m rs" "nr_idempotency_key a \<noteq> Some []"
  shows "mem_conflict m a =
    (if nr_idempotency_key a = None then None
     else map_option row_to_dict (find_key rs (nr_command_id a) (nr_idempotency_key a)))"
proof (cases "nr_idempotency_key a")
  case (Some k)
  then show ?thesis
    using assms(2) mem_key_lookup [OF assms(1), of k "nr_command_id a"] by (simp add: mem_conflict_def key_given_def)
qed (simp add: mem_conflict_def key_given_def)

lemma created_view_new: "created_view (row_to_dict (new_row now run_id a)) = created_dict run_id a"
  by (simp add: created_view_def row_to_dict_def new_row_def created_dict_def)

lemma sim_create:
  assumes "sim m (rs, es)" "op_ok m (CreateRun now run_id a)"
  shows "same_answer (snd (mem_op m (CreateRun now run_id a))) (snd (db_op (rs, es) (CreateRun now run_id a))) \<and>
    sim (fst (mem_op m (CreateRun now run_id a))) (fst (db_op (rs, es) (CreateRun now run_id a)))"
proof -
  let ?row = "new_row now run_id a" and ?k = "nr_idempotency_key a"
  have rm: "runs_match m rs" and em: "events_match m es" using assms(1) by (simp_all add: sim_def)
  have fresh: "find (\<lambda>r. cr_run_id r = run_id) rs = None" and key: "?k \<noteq> Some []" and st: "nr_status a \<in> RUN_STATUSES"
    using assms(2) runs_match_get [OF rm] by (simp_all add: mem_get_run_def)
  have new: "run_id \<notin> cr_run_id ` set rs" "cr_run_id ?row = run_id"
    using fresh by (auto simp: find_None_iff new_row_def)
  show ?thesis
  proof (cases "?k \<noteq> None \<and> find_key rs (nr_command_id a) ?k \<noteq> None")
    case True
    then show ?thesis
      using assms(1) key new
      by (auto simp: mem_create_run_def mem_conflict_find [OF rm key] db_create_run_def list_add_def
          constraint_new_row [OF st] find_key_def [symmetric] key_given_def same_answer_def)
  next
    case False
    then have none: "mem_conflict m a = None" and ok: "run_constraint rs ?row = None"
      by (auto simp: mem_conflict_find [OF rm key] constraint_new_row [OF st])
    have db: "db_op (rs, es) (CreateRun now run_id a) = ((rs @ [?row], es), Inr (VCreated (created_dict run_id a)))"
      using new ok by (simp add: db_create_run_def list_add_def)
    obtain m' where create: "mem_create_run m now run_id a = Inr (m', row_to_dict ?row)"
      by (simp add: mem_create_run_def none Let_def)
    then have m': "mem_runs m' = AList.update run_id (row_to_dict ?row) (mem_runs m)"
        "mem_events m' = events_setdefault run_id (mem_events m)"
        "mem_idempotency_index m' = (if key_given ?k then AList.update (nr_command_id a, the ?k) run_id (mem_idempotency_index m)
           else mem_idempotency_index m)"
      by (auto simp: mem_create_run_def none Let_def split: if_splits)
    have "mem_events_of m' i = mem_events_of m i" for i
      by (auto simp: mem_events_of_def m' events_setdefault_def map_add_def split: option.splits)
    then have "events_match m' es" using em by (simp add: events_match_def)
    moreover have "find_key (rs @ [?row]) c (Some k) =
        (if (c, Some k) = (nr_command_id a, ?k) then Some ?row else find_key rs c (Some k))" if "k \<noteq> []" for c k
      using False that by (auto simp: find_key_def find_append new_row_def split: option.splits)
    then have "runs_match m' (rs @ [?row])"
      using rm rows_valid_append [OF _ fresh st ok] new key
      by (auto simp: runs_match_def m' alist_update_fresh image_image key_given_def update_conv')
    ultimately show ?thesis
      unfolding db by (simp add: create created_view_new sim_def same_answer_def)
  qed
qed

lemma row_to_dict_updated: "row_to_dict (updated_row now st res err r) = updated_dict now st res err (row_to_dict r)"
  by (simp add: updated_row_def updated_dict_def row_to_dict_def Let_def)

lemma updated_row_keeps [simp]:
  "cr_run_id (updated_row now st res err r) = cr_run_id r" "cr_command_id (updated_row now st res err r) = cr_command_id r"
  "cr_idempotency_key (updated_row now st res err r) = cr_idempotency_key r" "cr_status (updated_row now st res err r) = st"
  by (simp_all add: updated_row_def Let_def)

lemma rows_valid_map:
  assumes "rows_valid rs" "map cr_run_id (map f rs) = map cr_run_id rs"
    and same: "\<And>x y. x \<in> set rs \<Longrightarrow> y \<in> set rs \<Longrightarrow> same_key (f x) (f y) = same_key x y"
  shows "rows_valid (map f rs)"
proof -
  have "f x = f y" if "x \<in> set rs" "y \<in> set rs" "same_key (f x) (f y)" for x y
    using that same assms(1) unfolding rows_valid_def by metis
  then have "\<forall>r \<in> set (map f rs). \<forall>r' \<in> set (map f rs). same_key r r' \<longrightarrow> r = r'" by simp
  then show ?thesis using assms(1,2) by (simp only: rows_valid_def)
qed

lemma sim_update:
  assumes "sim m (rs, es)" "op_ok m (UpdateRun now run_id st res err)"
  shows "snd (mem_op m (UpdateRun now run_id st res err)) = snd (db_op (rs, es) (UpdateRun now run_id st res err)) \<and>
    sim (fst (mem_op m (UpdateRun now run_id st res err))) (fst (db_op (rs, es) (UpdateRun now run_id st res err)))"
proof (cases "find (\<lambda>r. cr_run_id r = run_id) rs")
  case None
  then show ?thesis
    using assms runs_match_get [of m rs run_id] by (simp add: sim_def mem_update_run_def db_update_run_def)
next
  case (Some r)
  let ?u = "updated_row now st res err r" and ?f = "\<lambda>x. if cr_run_id x = run_id then updated_row now st res err r else x"
  have rm: "runs_match m rs" and em: "events_match m es" using assms(1) by (simp_all add: sim_def)
  have valid: "rows_valid rs" using rm by (simp add: runs_match_def)
  have r: "r \<in> set rs" "cr_run_id r = run_id" using Some by (auto simp: find_Some_iff)
  have only: "x = r" if "x \<in> set rs" "cr_run_id x = run_id" for x
    using rows_valid_find [OF valid that(1)] that(2) Some by simp
  have "same_key ?u x = same_key r x" for x by (simp add: same_key_def)
  moreover have "\<not> same_key r x" if "x \<in> set rs" "cr_run_id x \<noteq> run_id" for x
    using valid r that unfolding rows_valid_def by metis
  ultimately have "\<not> same_key ?u x" if "x \<in> set rs" "cr_run_id x \<noteq> run_id" for x using that by simp
  then have ok: "run_constraint (filter (\<lambda>x. cr_run_id x \<noteq> run_id) rs) ?u = None"
    using assms(2) by (auto simp: run_constraint_def list_ex_iff)
  have db: "db_op (rs, es) (UpdateRun now run_id st res err) = ((map ?f rs, es), Inr VDone)"
    using ok r by (simp add: db_update_run_def Some list_commit_def)
  have mem: "mem_op m (UpdateRun now run_id st res err) =
      (m\<lparr>mem_runs := AList.update run_id (row_to_dict ?u) (mem_runs m)\<rparr>, Inr VDone)"
    using runs_match_get [OF rm, of run_id] by (simp add: mem_update_run_def Some row_to_dict_updated)
  have id: "cr_run_id (?f x) = cr_run_id x" for x using r(2) by simp
  have keep: "cr_command_id (?f x) = cr_command_id x \<and> cr_idempotency_key (?f x) = cr_idempotency_key x" if "x \<in> set rs" for x
  proof (cases "cr_run_id x = run_id")
    case True
    with only [OF that] show ?thesis by simp
  qed simp
  then have same: "same_key (?f x) (?f y) = same_key x y" if "x \<in> set rs" "y \<in> set rs" for x y
    using that unfolding same_key_def by metis
  have keys: "find_key (map ?f rs) c k = map_option ?f (find_key rs c k)" for c k
    unfolding find_key_def using keep by (intro find_map_keep) metis
  have "map cr_run_id (map ?f rs) = map cr_run_id rs" using id by simp
  then have "rows_valid (map ?f rs)"
    using valid same by (intro rows_valid_map) 
  moreover have "AList.update run_id (row_to_dict ?u) (mem_runs m) = map (\<lambda>x. (cr_run_id x, row_to_dict x)) (map ?f rs)"
    using rm r update_rows [of cr_run_id rs r "row_to_dict ?u" row_to_dict]
    by (auto simp: runs_match_def rows_valid_def)
  moreover have "map_option cr_run_id (find_key (map ?f rs) c k) = map_option cr_run_id (find_key rs c k)" for c k
    using r by (auto simp: keys option.map_comp o_def intro!: option.map_cong0)
  ultimately have "runs_match (m\<lparr>mem_runs := AList.update run_id (row_to_dict ?u) (mem_runs m)\<rparr>) (map ?f rs)"
    using rm by (simp add: runs_match_def)
  with em show ?thesis unfolding db mem by (simp add: sim_def events_match_def mem_events_of_def)
qed

lemma event_to_dict_seq [simp]: "ed_sequence (event_to_dict e) = ev_sequence e"
  by (simp add: event_to_dict_def)

lemma events_match_log:
  assumes "events_match m es"
  shows "event_log event_tbl es run_id = filter (\<lambda>e. ev_run_id e = run_id) es" "gap_free event_tbl es"
proof -
  have seqs: "map ev_sequence (filter (\<lambda>e. ev_run_id e = i) es) = [1..int (length (filter (\<lambda>e. ev_run_id e = i) es))]" for i
    using assms by (simp add: events_match_def Let_def)
  then have log: "event_log event_tbl es i = filter (\<lambda>e. ev_run_id e = i) es" for i
    unfolding event_log_def event_tbl_ops list_select_def by (intro sort_key_id_if_sorted) simp
  show "event_log event_tbl es run_id = filter (\<lambda>e. ev_run_id e = run_id) es" by (rule log)
  show "gap_free event_tbl es" unfolding gap_free_def log seqs by simp
qed

lemma sim_append:
  assumes "sim m (rs, es)" "op_ok m (AppendEvent now run_id t p)"
  shows "snd (mem_op m (AppendEvent now run_id t p)) = snd (db_op (rs, es) (AppendEvent now run_id t p)) \<and>
    sim (fst (mem_op m (AppendEvent now run_id t p))) (fst (db_op (rs, es) (AppendEvent now run_id t p)))"
proof -
  let ?own = "\<lambda>i. filter (\<lambda>e. ev_run_id e = i) es"
  let ?n = "int (length (?own run_id)) + 1"
  let ?e = "\<lparr>ev_run_id = run_id, ev_sequence = ?n, ev_event_type = t, ev_payload_json = p, ev_created_at = now\<rparr>"
  have rm: "runs_match m rs" and em: "events_match m es" using assms(1) by (simp_all add: sim_def)
  obtain r where r: "find (\<lambda>r. cr_run_id r = run_id) rs = Some r"
    using assms(2) runs_match_get [OF rm] by (auto simp: mem_get_run_def)
  have own: "mem_events_of m i = map event_to_dict (?own i)" "map ev_sequence (?own i) = [1..int (length (?own i))]" for i
    using em by (simp_all add: events_match_def Let_def)
  have next_n: "next_sequence event_tbl es run_id = ?n"
    using evs.next_sequence_log [OF events_match_log(2) [OF em]] by (simp add: events_match_log(1) [OF em])
  have "?n \<notin> ev_sequence ` set (?own run_id)"
    unfolding set_map [symmetric] own(2) by simp
  then have "event_key ?e \<notin> event_key ` set es" by (auto simp: event_key_def)
  then have db: "db_op (rs, es) (AppendEvent now run_id t p) = ((rs, es @ [?e]), Inr (VSeq ?n))"
    by (simp add: db_append_event_def r next_n list_add_def Let_def)
  obtain m' where mem: "mem_append_event m now run_id t p = (m', ?n)" and runs: "runs_match m' rs"
      and evs: "\<And>i. mem_events_of m' i = (if i = run_id then mem_events_of m i @ [event_to_dict ?e] else mem_events_of m i)"
    using own(1) [of run_id] rm
    by (auto simp: mem_append_event_def Let_def mem_events_of_def events_setdefault_def update_conv' map_add_def
        event_to_dict_def runs_match_def split: option.splits if_splits)
  have "[1..?n] = [1..int (length (?own run_id))] @ [?n]" using upto_rec2 [of 1 ?n] by simp
  then have "events_match m' (es @ [?e])"
    using own by (auto simp: events_match_def Let_def evs add.commute)
  with runs show ?thesis unfolding db by (simp add: mem sim_def)
qed

lemma sim_list:
  assumes "sim m (rs, es)"
  shows "mem_list_events_after m run_id a l = db_list_events_after event_tbl es run_id a l"
proof -
  let ?own = "filter (\<lambda>e. ev_run_id e = run_id) es"
  have em: "events_match m es" using assms by (simp add: sim_def)
  then have own: "mem_events_of m run_id = map event_to_dict ?own" "map ev_sequence ?own = [1..int (length ?own)]"
    by (simp_all add: events_match_def Let_def)
  have sorted: "sorted (map ev_sequence (filter P ?own))" for P
    by (rule sorted_filter) (simp only: own(2) sorted_upto)
  have "mem_list_events_after m run_id a l = take l (map event_to_dict (filter (\<lambda>e. max a 0 < ev_sequence e) ?own))"
    unfolding mem_list_events_after_def own(1) filter_map o_def event_to_dict_seq
    using sorted by (subst sort_key_id_if_sorted) (simp_all add: o_def)
  also have "\<dots> = db_list_events_after event_tbl es run_id a l"
    using sorted [of "\<lambda>e. max a 0 < ev_sequence e"]
    by (simp add: db_list_events_after_def list_select_def take_map sort_key_id_if_sorted conj_commute)
  finally show ?thesis .
qed

lemma find_map_row:
  "find (\<lambda>run. rn_command_id run = c \<and> rn_idempotency_key run = k) (map row_to_dict rs) =
     map_option row_to_dict (find (\<lambda>r. cr_command_id r = c \<and> cr_idempotency_key r = k) rs)"
proof -
  have "rn_command_id (row_to_dict r) = cr_command_id r" "rn_idempotency_key (row_to_dict r) = cr_idempotency_key r" for r
    by (simp_all add: row_to_dict_def)
  then show ?thesis by (induction rs) simp_all
qed

lemma sim_get_key:
  assumes "sim m (rs, es)"
  shows "mem_get_run_by_idempotency_key m c k = db_get_run_by_idempotency_key run_table rs c k"
proof (cases "strip k = []")
  case False
  have rm: "runs_match m rs" using assms by (simp add: sim_def)
  have "find (\<lambda>run. rn_command_id run = c \<and> rn_idempotency_key run = Some (strip k)) (map snd (mem_runs m)) =
      map_option row_to_dict (find_key rs c (Some (strip k)))"
    using rm find_map_row [of c _ rs] by (simp add: runs_match_def find_key_def o_def)
  with False rm mem_key_lookup [OF rm False, of c] show ?thesis
    by (auto simp: mem_get_run_by_idempotency_key_def db_get_run_by_idempotency_key_def Let_def find_key_def [symmetric]
        runs_match_def split: option.splits)
qed (simp add: mem_get_run_by_idempotency_key_def db_get_run_by_idempotency_key_def Let_def)

lemma db_answer_not_full: "snd (db_op s x) \<noteq> Inr (VFullRun run)"
  by (cases "(s, x)" rule: db_op.cases) (auto split: sum.splits)

lemma same_answer_refl: "a = snd (db_op s x) \<Longrightarrow> same_answer a (snd (db_op s x))"
  using db_answer_not_full by (auto simp: same_answer_def split: sum.splits bus_value.splits)

lemma sim_step:
  assumes "sim m s" "op_ok m x"
  shows "same_answer (snd (mem_op m x)) (snd (db_op s x)) \<and> sim (fst (mem_op m x)) (fst (db_op s x))"
proof (cases x)
  case (CreateRun now run_id a)
  with assms sim_create show ?thesis by (cases s) blast
next
  case (AppendEvent now run_id t p)
  with assms sim_append same_answer_refl show ?thesis by (cases s) blast
next
  case (UpdateRun now run_id st res err)
  with assms sim_update same_answer_refl show ?thesis by (cases s) blast
next
  case (GetRun run_id)
  with assms show ?thesis
    by (cases s) (auto simp: mem_get_run_def db_get_run_def sim_def same_answer_def runs_match_get)
next
  case (GetRunByKey c k)
  with assms sim_get_key show ?thesis by (cases s) (auto simp: same_answer_def)
next
  case (ListEventsAfter run_id a l)
  with assms sim_list show ?thesis by (cases s) (auto simp: same_answer_def)
qed

lemma sim_trace: "sim m s \<Longrightarrow> ops_ok m xs \<Longrightarrow> list_all2 same_answer (mem_trace m xs) (db_trace s xs)"
proof (induction xs arbitrary: m s)
  case (Cons x xs)
  then have "same_answer (snd (mem_op m x)) (snd (db_op s x)) \<and> sim (fst (mem_op m x)) (fst (db_op s x))"
    by (intro sim_step) simp_all
  with Cons.IH [of "fst (mem_op m x)" "fst (db_op s x)"] Cons.prems(2) show ?case
    by (cases "mem_op m x"; cases "db_op s x") simp
qed simp

lemma sim_empty: "sim empty_mem ([], [])"
  by (simp add: sim_def runs_match_def rows_valid_def events_match_def empty_mem_def mem_events_of_def find_key_def)

section \<open>Properties\<close>

text \<open>A command run from its creation to its end, and a second request under the same key.\<close>

definition demo_clock :: pydt where
  "demo_clock = \<lparr>wall = 0, utcoff = Some 0\<rparr>"

definition demo_args :: new_run_args where
  "demo_args = \<lparr>nr_command_id = ''c1'', nr_status = ''queued'', nr_actor_kind = ''human'', nr_actor_id = ''u1'',
     nr_actor_session_id = None, nr_delegated_by = None, nr_auth_subject = ''u1'', nr_invoke_version = ''1'',
     nr_idempotency_key = Some ''k1'', nr_args_hash = ''h'', nr_args_redacted = []\<rparr>"

definition bus_demo_ops :: "bus_op list" where
  "bus_demo_ops = [CreateRun demo_clock ''run_1'' demo_args, AppendEvent demo_clock ''run_1'' ''queued'' [],
     UpdateRun demo_clock ''run_1'' ''running'' None None, AppendEvent demo_clock ''run_1'' ''running'' [],
     CreateRun demo_clock ''run_2'' demo_args, UpdateRun demo_clock ''run_1'' ''completed'' (Some []) None,
     GetRunByKey ''c1'' '' k1 '', ListEventsAfter ''run_1'' 1 10, UpdateRun demo_clock ''run_9'' ''failed'' None None]"

lemmas mem_defs = demo_args_def empty_mem_def mem_create_run_def mem_conflict_def key_given_def events_setdefault_def
  mem_get_run_def mem_append_event_def mem_update_run_def updated_dict_def row_to_dict_def new_row_def
  mem_get_run_by_idempotency_key_def mem_list_events_after_def mem_events_of_def RUN_STATUSES_def TERMINAL_STATUSES_def



text \<open>
  C26. Whatever runs, events and updates have been written to a database whose event table was empty, the
  events of every run are numbered 1, 2, 3, ... with no gap and no repetition; a reader that has seen the
  events up to some number gets exactly the following ones, in order, up to its limit; and one more event
  goes to the end of its run's log under the next number, the logs of the other runs staying as they are.
\<close>

theorem event_log_gap_free:
  assumes "orm_table eapi event_key einv" "bus_reaches rapi eapi (rdb0, edb0) (rdb, edb)"
    and "einv edb0" "orm_rows eapi edb0 = {}"
  shows "map ev_sequence (event_log eapi edb run_id) = [1..int (length (event_log eapi edb run_id))]
    \<and> db_list_events_after eapi edb run_id (int seen) limit =
        map event_to_dict (take limit (drop seen (event_log eapi edb run_id)))
    \<and> (\<forall>edb' n. db_append_event rapi rdb eapi edb now run_id event_type payload = Inr (edb', n) \<longrightarrow>
        n = int (length (event_log eapi edb run_id)) + 1 \<and>
        event_log eapi edb' run_id = event_log eapi edb run_id @
          [\<lparr>ev_run_id = run_id, ev_sequence = n, ev_event_type = event_type, ev_payload_json = payload, ev_created_at = now\<rparr>] \<and>
        (other \<noteq> run_id \<longrightarrow> event_log eapi edb' other = event_log eapi edb other))"
proof (intro conjI allI impI)
  from assms(1) have et: "event_table eapi einv" by (simp add: event_table_def)
  have inv: "einv edb" and gf: "gap_free eapi edb"
    using event_table.reaches_gap_free [OF et assms(2)] assms(3,4) by simp_all
  then show seqs: "map ev_sequence (event_log eapi edb run_id) = [1..int (length (event_log eapi edb run_id))]"
    by (simp add: gap_free_def)
  show "db_list_events_after eapi edb run_id (int seen) limit =
      map event_to_dict (take limit (drop seen (event_log eapi edb run_id)))"
    using event_table.sorted_select_log [OF et inv, of run_id "\<lambda>e. int seen < ev_sequence e"]
      filter_upto_drop [OF seqs, of "int seen"]
    by (simp add: db_list_events_after_def)
  fix edb' n
  assume "db_append_event rapi rdb eapi edb now run_id event_type payload = Inr (edb', n)"
  then have n: "n = next_sequence eapi edb run_id"
      and add: "orm_add eapi edb \<lparr>ev_run_id = run_id, ev_sequence = n, ev_event_type = event_type,
        ev_payload_json = payload, ev_created_at = now\<rparr> = Inr edb'"
    by (auto simp: db_append_event_def Let_def split: option.splits sum.splits)
  show "n = int (length (event_log eapi edb run_id)) + 1"
    using n event_table.next_sequence_log [OF et gf] by simp
  note log = event_table.append_log [OF et inv gf add]
  show "event_log eapi edb' run_id = event_log eapi edb run_id @
      [\<lparr>ev_run_id = run_id, ev_sequence = n, ev_event_type = event_type, ev_payload_json = payload, ev_created_at = now\<rparr>]"
    using log [of run_id] n by simp
  show "other \<noteq> run_id \<Longrightarrow> event_log eapi edb' other = event_log eapi edb other"
    using log [of other] n by simp
qed

definition demo_bus :: "db_state" where
  "demo_bus = fst (db_op (fst (db_op (fst (db_op ([], []) (bus_demo_ops ! 0))) (bus_demo_ops ! 1))) (bus_demo_ops ! 3))"

lemma demo_bus_reached: "bus_reaches run_table event_tbl ([], []) (fst demo_bus, snd demo_bus)"
proof -
  let ?r = "[new_row demo_clock ''run_1'' demo_args]"
  let ?e = "\<lambda>n t. \<lparr>ev_run_id = ''run_1'', ev_sequence = n, ev_event_type = t, ev_payload_json = [], ev_created_at = demo_clock\<rparr>"
  have "db_create_run run_table [] demo_clock ''run_1'' demo_args = Inr (?r, created_dict ''run_1'' demo_args)"
    by code_simp
  moreover have "db_append_event run_table ?r event_tbl [] demo_clock ''run_1'' ''queued'' [] = Inr ([?e 1 ''queued''], 1)"
    by code_simp
  moreover have "db_append_event run_table ?r event_tbl [?e 1 ''queued''] demo_clock ''run_1'' ''running'' [] =
      Inr ([?e 1 ''queued'', ?e 2 ''running''], 2)" by code_simp
  ultimately have "bus_reaches run_table event_tbl ([], []) (?r, [?e 1 ''queued'', ?e 2 ''running''])"
    by (meson bus_reaches.intros)
  moreover have "demo_bus = (?r, [?e 1 ''queued'', ?e 2 ''running''])" by code_simp
  ultimately show ?thesis by simp
qed

theorem event_log_gap_free_witness:
  "map ev_sequence (event_log event_tbl (snd demo_bus) ''run_1'') = [1, 2] \<and>
   map ed_event_type (db_list_events_after event_tbl (snd demo_bus) ''run_1'' 1 10) = [''running'']"
proof -
  have "orm_table event_tbl event_key (list_invar event_key)"
    unfolding event_tbl_def by (rule orm_table_list_orm)
  from event_log_gap_free [OF this demo_bus_reached, of "''run_1''" 1 10]
  have *: "map ev_sequence (event_log event_tbl (snd demo_bus) ''run_1'') = [1..int (length (event_log event_tbl (snd demo_bus) ''run_1''))]"
    "db_list_events_after event_tbl (snd demo_bus) ''run_1'' 1 10 =
       map event_to_dict (take 10 (drop 1 (event_log event_tbl (snd demo_bus) ''run_1'')))"
    by (simp_all add: list_invar_def event_tbl_def)
  have "length (event_log event_tbl (snd demo_bus) ''run_1'') = 2" by code_simp
  moreover have "map ev_event_type (take 10 (drop 1 (event_log event_tbl (snd demo_bus) ''run_1''))) = [''running'']"
    by code_simp
  then have "map ed_event_type (map event_to_dict (take 10 (drop 1 (event_log event_tbl (snd demo_bus) ''run_1'')))) = [''running'']"
    by (simp add: event_to_dict_def o_def)
  ultimately show ?thesis using * by (simp add: upto.simps)
qed

end
