(* ===== verification/Tool_Policy.thy ===== *)
theory Tool_Policy
  imports Py_Base
begin

text \<open>
  Model of \<^verbatim>\<open>guardian/tools/policy.py\<close>: the policy every command and tool goes through, whatever its route,
  and the mode that turns its decision into a block. The environment is a function of variable names. The
  result is the exact condition under which a command is blocked.
\<close>

text \<open>
  \<open>str.upper\<close>, up to the code points the strings hold: the capital of the sharp s is two letters, those
  of the micro sign and of y with diaeresis lie above 255 and the two are left as they are.
\<close>

definition upper_char :: "char \<Rightarrow> string" where
  "upper_char c = (let n = (of_char c :: nat) in
     if (97 \<le> n \<and> n \<le> 122) \<or> (224 \<le> n \<and> n \<le> 254 \<and> n \<noteq> 247) then [char_of (n - 32)]
     else if n = 223 then ''SS'' else [c])"

definition upper :: "string \<Rightarrow> string" where
  "upper s = concat (map upper_char s)"

type_synonym environ = "string \<Rightarrow> string option"

datatype PolicyMode = Enforce | Warn | Off

datatype PolicyDecisionType = DecAllow | DecDeny | DecRequireConfirmation

fun decision_text :: "PolicyDecisionType \<Rightarrow> string" where
  "decision_text DecAllow = ''allow''"
| "decision_text DecDeny = ''deny''"
| "decision_text DecRequireConfirmation = ''require_confirmation''"

fun mode_text :: "PolicyMode \<Rightarrow> string" where
  "mode_text Enforce = ''enforce''"
| "mode_text Warn = ''warn''"
| "mode_text Off = ''off''"

record PolicyDecision =
  pd_decision :: PolicyDecisionType
  pd_reason_codes :: "string list"
  pd_metadata :: pydict

record PolicyOutcome =
  po_mode :: PolicyMode
  po_decision :: PolicyDecisionType
  po_blocked :: bool
  po_reason_codes :: "string list"
  po_warnings :: "pydict list"

definition TRUE_VALUES :: "string set" where
  "TRUE_VALUES = {''1'', ''true'', ''yes'', ''on''}"

definition WRITE_ALLOWLISTED_COMMAND_IDS :: "string set" where
  "WRITE_ALLOWLISTED_COMMAND_IDS = {''op::guardian.profile.switch''}"

definition WRITE_ALLOWLISTED_PATH_TEMPLATES :: "string set" where
  "WRITE_ALLOWLISTED_PATH_TEMPLATES = {''/chat/{thread_id}/profile'', ''/api/chat/{thread_id}/profile''}"

definition env_text :: "environ \<Rightarrow> string \<Rightarrow> string" where
  "env_text env name = strip (case env name of None \<Rightarrow> [] | Some v \<Rightarrow> v)"

definition truthy_text :: "string option \<Rightarrow> bool" where
  "truthy_text raw = (lower (strip (case raw of None \<Rightarrow> [] | Some v \<Rightarrow> v)) \<in> TRUE_VALUES)"

definition get_policy_mode :: "environ \<Rightarrow> PolicyMode" where
  "get_policy_mode env =
     (let v = (case env ''CODEXIFY_POLICY_MODE'' of None \<Rightarrow> [] | Some v \<Rightarrow> v);
          raw = lower (strip (if v = [] then ''enforce'' else v))
      in if raw = ''warn'' then Warn else if raw = ''off'' then Off else Enforce)"

definition is_declared_non_docker_mode :: "environ \<Rightarrow> bool" where
  "is_declared_non_docker_mode env = (truthy_text (env ''LOCAL_DEV'') \<or> truthy_text (env ''DEBUG''))"

definition has_resolvable_execution_base :: "environ \<Rightarrow> bool" where
  "has_resolvable_execution_base env =
     (if env_text env ''GUARDIAN_COMMAND_BUS_LOOPBACK_BASE'' \<noteq> [] then True
      else is_declared_non_docker_mode env \<and> env_text env ''GUARDIAN_API_BASE'' \<noteq> [])"

text \<open>The readings of the command's dictionary at the head of \<open>evaluate_tool_policy\<close>.\<close>

definition cmd_method :: "pydict \<Rightarrow> string" where
  "cmd_method command =
     (let v = dict_get command ''method'' in upper (if truthy v then py_str v else ''GET''))"

definition cmd_effect :: "pydict \<Rightarrow> string" where
  "cmd_effect command =
     (let effect = lower (strip (str_or_empty (dict_get command ''effect''))) in
      if effect = [] then (if cmd_method command \<in> {''GET'', ''HEAD''} then ''read'' else ''write'') else effect)"

definition cmd_risk :: "pydict \<Rightarrow> string" where
  "cmd_risk command = lower (strip (str_or_empty (dict_get command ''risk'')))"

definition cmd_requires_confirmation :: "pydict \<Rightarrow> bool" where
  "cmd_requires_confirmation command =
     (truthy (dict_get command ''requires_confirmation'') \<or>
      lower (strip (str_or_empty (dict_get command ''approval_mode''))) \<notin> {[], ''none''})"

definition cmd_path_template :: "pydict \<Rightarrow> string" where
  "cmd_path_template command = lower (strip (str_or_empty (dict_get command ''path_template'')))"

definition write_allowlisted :: "pydict \<Rightarrow> bool" where
  "write_allowlisted command =
     (strip (str_or_empty (dict_get command ''command_id'')) \<in> WRITE_ALLOWLISTED_COMMAND_IDS \<or>
      cmd_path_template command \<in> WRITE_ALLOWLISTED_PATH_TEMPLATES)"

definition policy_metadata :: "pydict \<Rightarrow> pydict" where
  "policy_metadata command =
     [(''method'', PStr (cmd_method command)), (''effect'', PStr (cmd_effect command)),
      (''risk'', PStr (if cmd_risk command = [] then ''unknown'' else cmd_risk command)),
      (''path_template'', PStr (str_or_empty (dict_get command ''path_template'')))]"

text \<open>The pair that the checks update: the reason codes so far and the decision.\<close>

type_synonym findings = "string list \<times> PolicyDecisionType"

definition escalate :: "PolicyDecisionType \<Rightarrow> PolicyDecisionType" where
  "escalate d = (if d = DecAllow then DecRequireConfirmation else d)"

definition add_reason :: "string \<Rightarrow> string list \<Rightarrow> string list" where
  "add_reason code codes = (if code \<in> set codes then codes else codes @ [code])"

definition policy_findings :: "pydict \<Rightarrow> environ \<Rightarrow> findings" where
  "policy_findings command env =
     (let effect = cmd_effect command; path_template = cmd_path_template command;
          f1 = (if effect = ''write'' then ([''write_effect''], DecRequireConfirmation) else ([], DecAllow));
          f2 = (if cmd_risk command \<in> {''mutating'', ''high''}
            then (add_reason ''risk_high'' (fst f1), escalate (snd f1)) else f1);
          f3 = (if contains ''/external/'' path_template \<or> contains ''/webhook'' path_template
            then (add_reason ''external_network'' (fst f2), escalate (snd f2)) else f2);
          f4 = (if cmd_requires_confirmation command \<and> snd f3 = DecAllow
            then (fst f3 @ [''requires_confirmation''], DecRequireConfirmation) else f3)
      in if effect = ''read'' \<and> cmd_method command \<in> {''GET'', ''HEAD''} \<and> \<not> has_resolvable_execution_base env
         then (fst f4 @ [''loopback_base_missing''], DecDeny) else f4)"

definition evaluate_tool_policy :: "pydict \<Rightarrow> environ \<Rightarrow> PolicyDecision" where
  "evaluate_tool_policy command env =
     (if write_allowlisted command
      then \<lparr>pd_decision = DecAllow, pd_reason_codes = [], pd_metadata = policy_metadata command\<rparr>
      else (case policy_findings command env of
              (reason_codes, decision) \<Rightarrow>
              \<lparr>pd_decision = decision, pd_reason_codes = reason_codes, pd_metadata = policy_metadata command\<rparr>))"

definition apply_policy_mode :: "PolicyDecision \<Rightarrow> PolicyMode \<Rightarrow> bool \<Rightarrow> PolicyOutcome" where
  "apply_policy_mode decision mode confirmation_granted =
     (case mode of
        Off \<Rightarrow> \<lparr>po_mode = mode, po_decision = pd_decision decision, po_blocked = False,
          po_reason_codes = pd_reason_codes decision, po_warnings = []\<rparr>
      | Warn \<Rightarrow> \<lparr>po_mode = mode, po_decision = pd_decision decision, po_blocked = False,
          po_reason_codes = pd_reason_codes decision,
          po_warnings = (if pd_decision decision \<noteq> DecAllow
            then [[(''decision'', PStr (decision_text (pd_decision decision))),
                   (''reason_codes'', str_list (pd_reason_codes decision))]] else [])\<rparr>
      | Enforce \<Rightarrow> \<lparr>po_mode = mode, po_decision = pd_decision decision,
          po_blocked = (pd_decision decision = DecDeny \<or>
            (pd_decision decision = DecRequireConfirmation \<and> \<not> confirmation_granted)),
          po_reason_codes = pd_reason_codes decision, po_warnings = []\<rparr>)"

section \<open>When a command is blocked\<close>

definition needs_confirmation :: "pydict \<Rightarrow> bool" where
  "needs_confirmation command =
     (cmd_effect command = ''write'' \<or> cmd_risk command \<in> {''mutating'', ''high''} \<or>
      contains ''/external/'' (cmd_path_template command) \<or> contains ''/webhook'' (cmd_path_template command) \<or>
      cmd_requires_confirmation command)"

definition has_no_base :: "pydict \<Rightarrow> environ \<Rightarrow> bool" where
  "has_no_base command env =
     (cmd_effect command = ''read'' \<and> cmd_method command \<in> {''GET'', ''HEAD''} \<and> \<not> has_resolvable_execution_base env)"

lemma policy_findings_decision:
  "snd (policy_findings command env) =
     (if has_no_base command env then DecDeny else if needs_confirmation command then DecRequireConfirmation else DecAllow)"
  by (auto simp: policy_findings_def has_no_base_def needs_confirmation_def escalate_def Let_def)

lemma policy_findings_codes:
  "fst (policy_findings command env) = [] \<longleftrightarrow> \<not> has_no_base command env \<and> \<not> needs_confirmation command"
  by (auto simp: policy_findings_def has_no_base_def needs_confirmation_def escalate_def add_reason_def Let_def)

lemma evaluate_tool_policy_decision:
  "pd_decision (evaluate_tool_policy command env) =
     (if write_allowlisted command then DecAllow else if has_no_base command env then DecDeny
      else if needs_confirmation command then DecRequireConfirmation else DecAllow)"
  using policy_findings_decision [of command env]
  by (cases "policy_findings command env") (simp add: evaluate_tool_policy_def)

lemma evaluate_tool_policy_codes:
  "pd_reason_codes (evaluate_tool_policy command env) = [] \<longleftrightarrow> pd_decision (evaluate_tool_policy command env) = DecAllow"
  using policy_findings_decision [of command env] policy_findings_codes [of command env]
  by (cases "policy_findings command env") (auto simp: evaluate_tool_policy_def split: if_splits)

text \<open>
  The policy blocks a command exactly when all of this holds: the mode is enforce, the command is not one of the
  two allow-listed profile switches, and either it is a read over the transport and no execution base is configured
  (a confirmation does not help), or it writes, is risky, reaches an external or webhook path or asks for
  approval, and no confirmation was granted. A blocked command always has a reason code, and in the other modes
  nothing is blocked; in warn mode a warning says what would have been.
\<close>

theorem tool_policy_exact:
  "let d = evaluate_tool_policy command env; out = apply_policy_mode d mode confirmed in
   po_blocked out = (mode = Enforce \<and> \<not> write_allowlisted command \<and>
     (has_no_base command env \<or> (needs_confirmation command \<and> \<not> confirmed)))
   \<and> (po_reason_codes out = []) = (po_decision out = DecAllow)
   \<and> (po_warnings out \<noteq> []) = (mode = Warn \<and> po_decision out \<noteq> DecAllow)"
  unfolding Let_def
  by (cases mode)
    (simp_all add: apply_policy_mode_def evaluate_tool_policy_codes evaluate_tool_policy_decision)

end
