(* ===== verification/External_Policy.thy ===== *)
theory External_Policy
  imports Flow_Security
begin

text \<open>
  Model of \<^verbatim>\<open>guardian/connectors/external_transport_policy.py\<close>: the deny-first policy for requests that leave
  through a connector. URLs are split as in \<open>Flow_Security\<close>. The result is the exact condition under which a
  request is allowed.
\<close>

record CommandTuple =
  ct_namespace :: string
  ct_name :: string

record ExternalPolicyRequest =
  xr_actor_id :: string
  xr_subject_id :: string
  xr_connector_name :: string
  xr_transport :: string
  xr_command :: "CommandTuple option"
  xr_target_url :: "string option"
  xr_project_id :: "string option"
  xr_thread_id :: "string option"

datatype PolicyEffect = AllowRule | DenyRule

record ExternalPolicyRule =
  rl_effect :: PolicyEffect
  rl_connector_name :: "string option"
  rl_transport :: "string option"
  rl_command :: "CommandTuple option"
  rl_url_host_pattern :: "string option"
  rl_url_scheme :: "string option"
  rl_project_id :: "string option"
  rl_thread_id :: "string option"
  rl_reason :: string

record ExternalPolicyDecision =
  xd_allowed :: bool
  xd_code :: string
  xd_reason :: string
  xd_matched_rule_index :: "nat option"

record ParsedUrl =
  pu_scheme :: string
  pu_hostname :: string

definition SUPPORTED_TRANSPORTS :: "string set" where
  "SUPPORTED_TRANSPORTS = {''local'', ''http'', ''https'', ''stdio'', ''websocket'', ''mcp''}"

definition parse_target_url :: "(string \<Rightarrow> string option) \<Rightarrow> string \<Rightarrow> ParsedUrl option" where
  "parse_target_url brackets value =
     (let raw = strip value in
      if raw = [] then None
      else case url_hostname brackets raw of
        Inl _ \<Rightarrow> None
      | Inr host \<Rightarrow>
        (let scheme = lower (strip (url_scheme raw)); hostname = lower (strip host) in
         if scheme = [] \<or> hostname = [] then None
         else Some \<lparr>pu_scheme = scheme, pu_hostname = hostname\<rparr>))"

definition ends_with :: "string \<Rightarrow> string \<Rightarrow> bool" where
  "ends_with suf s = starts_with (rev suf) (rev s)"

definition host_matches_pattern :: "string \<Rightarrow> string \<Rightarrow> bool" where
  "host_matches_pattern hostname pat =
     (let normalized_pattern = lower (strip pat) in
      if normalized_pattern = [] then False
      else if starts_with ''*.'' normalized_pattern
      then (let suffix = drop 2 normalized_pattern in if suffix = [] then False else ends_with (''.'' @ suffix) hostname)
      else hostname = normalized_pattern)"

definition rule_matches ::
    "ExternalPolicyRequest \<Rightarrow> string \<Rightarrow> string \<Rightarrow> ParsedUrl option \<Rightarrow> ExternalPolicyRule \<Rightarrow> bool" where
  "rule_matches request normalized_connector_name normalized_transport parsed_url rule =
     (if rl_connector_name rule \<noteq> None \<and> rl_connector_name rule \<noteq> Some normalized_connector_name then False
      else if rl_transport rule \<noteq> None \<and> strip (the (rl_transport rule)) \<noteq> normalized_transport then False
      else if rl_command rule \<noteq> None \<and> (xr_command request = None \<or> rl_command rule \<noteq> xr_command request) then False
      else if rl_project_id rule \<noteq> None \<and> rl_project_id rule \<noteq> xr_project_id request then False
      else if rl_thread_id rule \<noteq> None \<and> rl_thread_id rule \<noteq> xr_thread_id request then False
      else if rl_url_scheme rule \<noteq> None \<and>
        (case parsed_url of None \<Rightarrow> True | Some u \<Rightarrow> lower (strip (the (rl_url_scheme rule))) \<noteq> pu_scheme u) then False
      else if rl_url_host_pattern rule \<noteq> None \<and>
        (case parsed_url of None \<Rightarrow> True | Some u \<Rightarrow> \<not> host_matches_pattern (pu_hostname u) (the (rl_url_host_pattern rule)))
      then False else True)"

fun first_matching_rule :: "(ExternalPolicyRule \<Rightarrow> bool) \<Rightarrow> PolicyEffect \<Rightarrow> nat \<Rightarrow> ExternalPolicyRule list \<Rightarrow>
    (nat \<times> ExternalPolicyRule) option" where
  "first_matching_rule matches effect index [] = None"
| "first_matching_rule matches effect index (rule # rules) =
     (if rl_effect rule \<noteq> effect then first_matching_rule matches effect (Suc index) rules
      else if matches rule then Some (index, rule)
      else first_matching_rule matches effect (Suc index) rules)"

definition deny_external :: "string \<Rightarrow> string \<Rightarrow> ExternalPolicyDecision" where
  "deny_external code reason = \<lparr>xd_allowed = False, xd_code = code, xd_reason = reason, xd_matched_rule_index = None\<rparr>"

definition reason_or :: "string \<Rightarrow> string \<Rightarrow> string" where
  "reason_or s dflt = (if s = [] then dflt else s)"

definition match_rules ::
    "ExternalPolicyRequest \<Rightarrow> string \<Rightarrow> string \<Rightarrow> ParsedUrl option \<Rightarrow> ExternalPolicyRule list \<Rightarrow> ExternalPolicyDecision" where
  "match_rules request connector_name transport parsed_url rules =
     (let matches = rule_matches request connector_name transport parsed_url in
      case first_matching_rule matches DenyRule 0 rules of
        Some (index, rule) \<Rightarrow>
          \<lparr>xd_allowed = False, xd_code = ''denied_by_rule'',
           xd_reason = reason_or (rl_reason rule) ''request denied by external transport policy'',
           xd_matched_rule_index = Some index\<rparr>
      | None \<Rightarrow>
        (case first_matching_rule matches AllowRule 0 rules of
           Some (index, rule) \<Rightarrow>
             \<lparr>xd_allowed = True, xd_code = ''allowed'',
              xd_reason = reason_or (rl_reason rule) ''request allowed by external transport policy'',
              xd_matched_rule_index = Some index\<rparr>
         | None \<Rightarrow> deny_external ''no_allow_rule'' ''no matching allow rule''))"

definition evaluate_external_transport_policy ::
    "(string \<Rightarrow> string option) \<Rightarrow> ExternalPolicyRequest \<Rightarrow> ExternalPolicyRule list \<Rightarrow> ExternalPolicyDecision" where
  "evaluate_external_transport_policy brackets request rules =
     (let connector_name = strip (xr_connector_name request); transport = strip (xr_transport request) in
      if strip (xr_actor_id request) = [] then deny_external ''missing_actor'' ''actor_id is required''
      else if strip (xr_subject_id request) = [] then deny_external ''missing_subject'' ''subject_id is required''
      else if connector_name = [] then deny_external ''missing_connector'' ''connector_name is required''
      else if transport = [] then deny_external ''missing_transport'' ''transport is required''
      else if transport \<notin> SUPPORTED_TRANSPORTS
      then deny_external ''unsupported_transport'' (''unsupported transport: '' @ transport)
      else (case xr_target_url request of
              None \<Rightarrow> match_rules request connector_name transport None rules
            | Some url \<Rightarrow>
              (case parse_target_url brackets url of
                 None \<Rightarrow> deny_external ''malformed_url'' ''target_url is malformed''
               | Some parsed_url \<Rightarrow> match_rules request connector_name transport (Some parsed_url) rules)))"

section \<open>Deny first\<close>

text \<open>What makes a request well formed, and what it takes to match, as the rules read.\<close>

definition request_url :: "(string \<Rightarrow> string option) \<Rightarrow> ExternalPolicyRequest \<Rightarrow> ParsedUrl option" where
  "request_url brackets request = Option.bind (xr_target_url request) (parse_target_url brackets)"

definition well_formed_request :: "(string \<Rightarrow> string option) \<Rightarrow> ExternalPolicyRequest \<Rightarrow> bool" where
  "well_formed_request brackets request =
     (strip (xr_actor_id request) \<noteq> [] \<and> strip (xr_subject_id request) \<noteq> [] \<and> strip (xr_connector_name request) \<noteq> [] \<and>
      strip (xr_transport request) \<in> SUPPORTED_TRANSPORTS \<and>
      (xr_target_url request \<noteq> None \<longrightarrow> request_url brackets request \<noteq> None))"

definition applies :: "(string \<Rightarrow> string option) \<Rightarrow> ExternalPolicyRequest \<Rightarrow> ExternalPolicyRule \<Rightarrow> bool" where
  "applies brackets request rule =
     rule_matches request (strip (xr_connector_name request)) (strip (xr_transport request)) (request_url brackets request) rule"

lemma first_matching_rule_None:
  "first_matching_rule matches effect n rules = None \<longleftrightarrow> (\<forall>rule \<in> set rules. rl_effect rule = effect \<longrightarrow> \<not> matches rule)"
  by (induction rules arbitrary: n) auto

lemma first_matching_rule_Some:
  "first_matching_rule matches effect n rules = Some (i, rule) \<Longrightarrow>
     n \<le> i \<and> i - n < length rules \<and> rules ! (i - n) = rule \<and> rl_effect rule = effect \<and> matches rule \<and>
     (\<forall>j < i - n. \<not> (rl_effect (rules ! j) = effect \<and> matches (rules ! j)))"
proof (induction rules arbitrary: n)
  case (Cons r rules)
  show ?case
  proof (cases "rl_effect r = effect \<and> matches r")
    case False
    with Cons.prems have "first_matching_rule matches effect (Suc n) rules = Some (i, rule)" by (auto split: if_splits)
    from Cons.IH [OF this] False show ?thesis
      by (auto simp: less_Suc_eq_0_disj nth_Cons' Suc_diff_le split: if_splits) (metis Suc_diff_le Suc_less_eq diff_Suc_Suc gr0_implies_Suc)+
  qed (use Cons.prems in auto)
qed simp

lemma match_rules_allowed:
  "xd_allowed (match_rules request connector transport url rules) \<longleftrightarrow>
     (\<exists>rule \<in> set rules. rl_effect rule = AllowRule \<and> rule_matches request connector transport url rule) \<and>
     (\<forall>rule \<in> set rules. rl_effect rule = DenyRule \<longrightarrow> \<not> rule_matches request connector transport url rule)"
  unfolding match_rules_def Let_def
  using first_matching_rule_None [of "rule_matches request connector transport url" AllowRule 0 rules]
    first_matching_rule_None [of "rule_matches request connector transport url" DenyRule 0 rules]
  by (auto simp: deny_external_def split: option.splits)

lemma match_rules_index:
  assumes "xd_matched_rule_index (match_rules request connector transport url rules) = Some i"
  shows "\<exists>eff rule. first_matching_rule (rule_matches request connector transport url) eff 0 rules = Some (i, rule) \<and>
    xd_allowed (match_rules request connector transport url rules) = (eff = AllowRule)"
proof (cases "first_matching_rule (rule_matches request connector transport url) DenyRule 0 rules")
  case None
  then show ?thesis
    using assms
    by (cases "first_matching_rule (rule_matches request connector transport url) AllowRule 0 rules")
      (auto simp: match_rules_def deny_external_def)
next
  case (Some m)
  then show ?thesis using assms by (cases m) (auto simp: match_rules_def)
qed

lemma evaluate_well_formed:
  "well_formed_request brackets request \<Longrightarrow> evaluate_external_transport_policy brackets request rules =
     match_rules request (strip (xr_connector_name request)) (strip (xr_transport request)) (request_url brackets request) rules"
  by (auto simp: evaluate_external_transport_policy_def well_formed_request_def request_url_def
      SUPPORTED_TRANSPORTS_def Let_def split: option.splits)

lemma evaluate_ill_formed:
  "\<not> well_formed_request brackets request \<Longrightarrow>
     \<not> xd_allowed (evaluate_external_transport_policy brackets request rules) \<and>
     xd_matched_rule_index (evaluate_external_transport_policy brackets request rules) = None"
  by (auto simp: evaluate_external_transport_policy_def well_formed_request_def request_url_def deny_external_def
      Let_def split: option.splits)

text \<open>
  C28. A request to leave through a connector is allowed exactly when it is well formed (actor, subject and connector
  named, a supported transport, and a URL, if there is one, with scheme and host), some allow rule applies to it,
  and no deny rule does, wherever the rules stand in the list. When the decision names a rule, that rule applies,
  has the effect the decision has, and is the first such in the list.
\<close>

theorem external_policy_exact:
  "let d = evaluate_external_transport_policy brackets request rules in
   xd_allowed d = (well_formed_request brackets request \<and>
     (\<exists>rule \<in> set rules. rl_effect rule = AllowRule \<and> applies brackets request rule) \<and>
     \<not> (\<exists>rule \<in> set rules. rl_effect rule = DenyRule \<and> applies brackets request rule))
   \<and> (\<forall>i. xd_matched_rule_index d = Some i \<longrightarrow> i < length rules \<and> applies brackets request (rules ! i) \<and>
       rl_effect (rules ! i) = (if xd_allowed d then AllowRule else DenyRule) \<and>
       (\<forall>j < i. \<not> (rl_effect (rules ! j) = rl_effect (rules ! i) \<and> applies brackets request (rules ! j))))"
  unfolding Let_def
proof (intro conjI allI impI)
  let ?d = "evaluate_external_transport_policy brackets request rules"
  show "xd_allowed ?d = (well_formed_request brackets request \<and>
     (\<exists>rule \<in> set rules. rl_effect rule = AllowRule \<and> applies brackets request rule) \<and>
     \<not> (\<exists>rule \<in> set rules. rl_effect rule = DenyRule \<and> applies brackets request rule))"
    by (cases "well_formed_request brackets request")
      (auto simp: evaluate_well_formed evaluate_ill_formed match_rules_allowed applies_def)
  fix i
  assume i: "xd_matched_rule_index ?d = Some i"
  then have wf: "well_formed_request brackets request"
    using evaluate_ill_formed [of brackets request rules] by auto
  obtain eff rule where first: "first_matching_rule (applies brackets request) eff 0 rules = Some (i, rule)"
      and eff: "xd_allowed ?d = (eff = AllowRule)"
    using i match_rules_index unfolding evaluate_well_formed [OF wf] applies_def [abs_def] by metis
  note first = first_matching_rule_Some [OF first]
  show "i < length rules" "applies brackets request (rules ! i)" using first by auto
  show "rl_effect (rules ! i) = (if xd_allowed ?d then AllowRule else DenyRule)"
    using first eff by (cases eff) auto
  show "\<not> (rl_effect (rules ! j) = rl_effect (rules ! i) \<and> applies brackets request (rules ! j))" if "j < i" for j
    using first that by auto
qed

definition demo_rules :: "ExternalPolicyRule list" where
  "demo_rules =
     [\<lparr>rl_effect = AllowRule, rl_connector_name = Some ''mail'', rl_transport = None, rl_command = None,
       rl_url_host_pattern = Some ''*.example.com'', rl_url_scheme = Some ''https'', rl_project_id = None,
       rl_thread_id = None, rl_reason = []\<rparr>,
      \<lparr>rl_effect = DenyRule, rl_connector_name = None, rl_transport = None, rl_command = None,
       rl_url_host_pattern = Some ''internal.example.com'', rl_url_scheme = None, rl_project_id = None,
       rl_thread_id = None, rl_reason = ''internal''\<rparr>]"

definition demo_external :: "string \<Rightarrow> ExternalPolicyRequest" where
  "demo_external url = \<lparr>xr_actor_id = ''a'', xr_subject_id = ''s'', xr_connector_name = ''mail'', xr_transport = ''https'',
     xr_command = None, xr_target_url = Some url, xr_project_id = None, xr_thread_id = None\<rparr>"

theorem external_policy_exact_witness:
  "xd_allowed (evaluate_external_transport_policy (\<lambda>_. None) (demo_external ''https://api.example.com/v1'') demo_rules) \<and>
   well_formed_request (\<lambda>_. None) (demo_external ''https://api.example.com/v1'') \<and>
   \<not> xd_allowed (evaluate_external_transport_policy (\<lambda>_. None) (demo_external ''https://internal.example.com/'') demo_rules) \<and>
   \<not> xd_allowed (evaluate_external_transport_policy (\<lambda>_. None) (demo_external ''https://badexample.com/'') demo_rules)"
proof -
  let ?e = "\<lambda>u. evaluate_external_transport_policy (\<lambda>_. None) (demo_external u) demo_rules"
  have "xd_allowed (?e ''https://api.example.com/v1'')" "\<not> xd_allowed (?e ''https://internal.example.com/'')"
      "\<not> xd_allowed (?e ''https://badexample.com/'')" by code_simp+
  then show ?thesis
    using external_policy_exact [of "\<lambda>_. None" "demo_external ''https://api.example.com/v1''" demo_rules]
    by (simp add: Let_def)
qed

end
