(* ===== verification/Arg_Redaction.thy ===== *)
theory Arg_Redaction
  imports Py_Base
begin

text \<open>
  Model of \<^verbatim>\<open>guardian/command_bus/redaction_policy.py\<close>: the canonical text and the hash of a command's arguments,
  and the redacted copy that is stored. The hash function is a parameter. The result is that the stored copy
  is exactly the arguments with every value below a sensitive key replaced, at any depth.
\<close>

section \<open>Canonical text\<close>

text \<open>\<open>json.dumps(value, sort_keys=True, separators=(",", ":"), ensure_ascii=False)\<close>.\<close>

definition canonical_char :: "char \<Rightarrow> string" where
  "canonical_char c =
     (let n = (of_char c :: nat) in
      if c = CHR 0x22 \<or> c = CHR 0x5C then [CHR 0x5C, c]
      else if n = 10 then [CHR 0x5C, CHR ''n''] else if n = 13 then [CHR 0x5C, CHR ''r'']
      else if n = 9 then [CHR 0x5C, CHR ''t''] else if n = 12 then [CHR 0x5C, CHR ''f'']
      else if n = 8 then [CHR 0x5C, CHR ''b'']
      else if n < 32 then [CHR 0x5C, CHR ''u'', CHR ''0'', CHR ''0'', hex_digit (n div 16), hex_digit (n mod 16)]
      else [c])"

definition canonical_str :: "string \<Rightarrow> string" where
  "canonical_str s = [CHR 0x22] @ concat (map canonical_char s) @ [CHR 0x22]"

definition canonical_float :: "pyfloat \<Rightarrow> string" where
  "canonical_float f =
     (let t = float_repr f in
      if t = ''inf'' then ''Infinity'' else if t = ''-inf'' then ''-Infinity'' else if t = ''nan'' then ''NaN'' else t)"

fun canonical_json :: "pyval \<Rightarrow> string"
  and canonical_list :: "pyval list \<Rightarrow> string list"
  and canonical_items :: "pydict \<Rightarrow> (string \<times> string) list" where
  "canonical_json PNone = ''null''"
| "canonical_json (PBool b) = (if b then ''true'' else ''false'')"
| "canonical_json (PInt i) = show_int i"
| "canonical_json (PFloat f) = canonical_float f"
| "canonical_json (PStr s) = canonical_str s"
| "canonical_json (PList xs) = ''['' @ join_with '','' (canonical_list xs) @ '']''"
| "canonical_json (PDict items) =
     ''{'' @ join_with '','' (map (\<lambda>(k, v). canonical_str k @ '':'' @ v) (sort_key fst (canonical_items items))) @ ''}''"
| "canonical_list [] = []"
| "canonical_list (x # xs) = canonical_json x # canonical_list xs"
| "canonical_items [] = []"
| "canonical_items ((k, v) # items) = (k, canonical_json v) # canonical_items items"

text \<open>\<open>len(text.encode("utf-8"))\<close> for code points below 256.\<close>

definition utf8_length :: "string \<Rightarrow> nat" where
  "utf8_length s = sum_list (map (\<lambda>c. if (of_char c :: nat) < 128 then 1 else 2) s)"

definition compute_args_hash :: "(string \<Rightarrow> string) \<Rightarrow> pydict \<Rightarrow> string" where
  "compute_args_hash sha256 arguments = sha256 (canonical_json (PDict arguments))"

section \<open>Redaction\<close>

definition REDACTED :: string where
  "REDACTED = ''[REDACTED]''"

definition SENSITIVE_KEY_PARTS :: "string list" where
  "SENSITIVE_KEY_PARTS = [''authorization'', ''cookie'', ''token'', ''secret'', ''password'', ''api_key'', ''apikey'', ''x-api-key'']"

definition COMMAND_REDACTION_RULES :: "(string \<times> string list list) list" where
  "COMMAND_REDACTION_RULES =
     [(''*'', [[''headers'', ''authorization''], [''headers'', ''cookie''], [''headers'', ''x-api-key''],
        [''query'', ''api_key''], [''query'', ''token'']])]"

definition normal_key :: "string \<Rightarrow> string" where
  "normal_key key = map (\<lambda>c. if c = CHR ''-'' then CHR ''_'' else c) (lower (strip key))"

definition looks_sensitive_key :: "string \<Rightarrow> bool" where
  "looks_sensitive_key key =
     (let normalized = normal_key key in
      if normalized = [] then False
      else if normalized \<in> set SENSITIVE_KEY_PARTS then True
      else list_ex (\<lambda>part. contains part normalized) SENSITIVE_KEY_PARTS)"

fun redact_recursive :: "pyval \<Rightarrow> pyval"
  and redact_list :: "pyval list \<Rightarrow> pyval list"
  and redact_items :: "pydict \<Rightarrow> pydict" where
  "redact_recursive (PDict items) = PDict (redact_items items)"
| "redact_recursive (PList xs) = PList (redact_list xs)"
| "redact_recursive v = v"
| "redact_list [] = []"
| "redact_list (x # xs) = redact_recursive x # redact_list xs"
| "redact_items [] = []"
| "redact_items ((k, v) # items) =
     (k, if looks_sensitive_key k then PStr REDACTED else redact_recursive v) # redact_items items"

definition find_mapping_key :: "pydict \<Rightarrow> string \<Rightarrow> string option" where
  "find_mapping_key mapping target = find (\<lambda>key. lower (strip key) = lower (strip target)) (map fst mapping)"

text \<open>The walk down the path and the assignment at its end; the payload is changed in place.\<close>

fun set_path_redacted :: "pyval \<Rightarrow> string list \<Rightarrow> pyval" where
  "set_path_redacted (PDict items) [segment] =
     (case find_mapping_key items segment of
        None \<Rightarrow> PDict items
      | Some target \<Rightarrow> PDict (dict_set items target (PStr REDACTED)))"
| "set_path_redacted (PDict items) (segment # next # path) =
     (case find_mapping_key items segment of
        None \<Rightarrow> PDict items
      | Some match \<Rightarrow> PDict (dict_set items match (set_path_redacted (dict_get items match) (next # path))))"
| "set_path_redacted v path = v"

definition apply_explicit_paths :: "pyval \<Rightarrow> string list list \<Rightarrow> pyval" where
  "apply_explicit_paths payload path_rules =
     fold (\<lambda>path p. if path = [] then p else set_path_redacted p path) path_rules payload"

definition rules_for :: "string \<Rightarrow> string list list" where
  "rules_for command_id = (case map_of COMMAND_REDACTION_RULES command_id of None \<Rightarrow> [] | Some rules \<Rightarrow> rules)"

definition redact_arguments :: "string \<Rightarrow> pyval \<Rightarrow> pyval" where
  "redact_arguments command_id arguments =
     (let payload = redact_recursive arguments;
          payload' = apply_explicit_paths payload (rules_for ''*'')
      in apply_explicit_paths payload' (rules_for command_id))"

section \<open>What redaction leaves\<close>

text \<open>Walking into a value by keys and list positions.\<close>

datatype step = Key string | Pos nat

fun walk :: "pyval \<Rightarrow> step list \<Rightarrow> pyval option" where
  "walk v [] = Some v"
| "walk (PDict items) (Key k # path) = Option.bind (map_of items k) (\<lambda>v. walk v path)"
| "walk (PList xs) (Pos i # path) = (if i < length xs then walk (xs ! i) path else None)"
| "walk v (s # path) = None"

fun sensitive_step :: "step \<Rightarrow> bool" where
  "sensitive_step (Key k) = looks_sensitive_key k"
| "sensitive_step (Pos i) = False"

lemma redact_list_map: "redact_list xs = map redact_recursive xs"
  by (induction xs) simp_all

lemma redact_items_map_of:
  "map_of (redact_items items) k =
     map_option (\<lambda>v. if looks_sensitive_key k then PStr REDACTED else redact_recursive v) (map_of items k)"
  by (induction items) auto

lemma redact_items_keys: "map fst (redact_items items) = map fst items"
  by (induction items) auto

lemma walk_redacted:
  "walk (redact_recursive v) path =
     (if \<exists>s \<in> set path. sensitive_step s
      then (if walk v path \<noteq> None \<and> (\<forall>s \<in> set (butlast path). \<not> sensitive_step s) then Some (PStr REDACTED) else None)
      else map_option redact_recursive (walk v path))"
proof (induction v path rule: walk.induct)
  case (2 items k path)
  show ?case
  proof (cases "map_of items k")
    case (Some v)
    show ?thesis
    proof (cases "looks_sensitive_key k")
      case True
      with Some show ?thesis by (cases path) (auto simp: redact_items_map_of)
    next
      case False
      with Some 2 show ?thesis by (cases path) (auto simp: redact_items_map_of)
    qed
  qed (auto simp: redact_items_map_of)
next
  case (3 xs i path)
  then show ?case by (cases path) (auto simp: redact_list_map)
qed (auto)

text \<open>The explicit rules end in sensitive keys, so they find their values redacted already.\<close>

lemma sensitive_normal: "lower (strip k) = lower (strip k') \<Longrightarrow> looks_sensitive_key k = looks_sensitive_key k'"
  by (simp add: looks_sensitive_key_def normal_key_def)

lemma update_same: "map_of al k = Some v \<Longrightarrow> AList.update k v al = al"
  by (induction al) auto

lemma find_mapping_key_Some:
  assumes "find_mapping_key items target = Some k"
  shows "\<exists>v. map_of items k = Some v" "looks_sensitive_key k = looks_sensitive_key target"
proof -
  from assms have k: "k \<in> set (map fst items)" "lower (strip k) = lower (strip target)"
    by (auto simp: find_mapping_key_def find_Some_iff)
  then show "\<exists>v. map_of items k = Some v" by (metis image_set map_of_eq_None_iff not_None_eq)
  from k(2) show "looks_sensitive_key k = looks_sensitive_key target" by (rule sensitive_normal)
qed

lemma find_mapping_key_redacted: "find_mapping_key (redact_items items) target = find_mapping_key items target"
  by (simp add: find_mapping_key_def redact_items_keys)

lemma explicit_path_redundant:
  "path \<noteq> [] \<Longrightarrow> looks_sensitive_key (last path) \<Longrightarrow> set_path_redacted (redact_recursive v) path = redact_recursive v"
proof (induction path arbitrary: v rule: induct_list012)
  case (2 seg)
  show ?case
  proof (cases v)
    case (PDict items)
    show ?thesis
    proof (cases "find_mapping_key items seg")
      case (Some k)
      with 2 find_mapping_key_Some [OF Some] show ?thesis
        by (auto simp: PDict find_mapping_key_redacted dict_set_def redact_items_map_of update_same)
    qed (simp add: PDict find_mapping_key_redacted)
  qed simp_all
next
  case (3 seg n path)
  show ?case
  proof (cases v)
    case (PDict items)
    show ?thesis
    proof (cases "find_mapping_key items seg")
      case (Some k)
      obtain x where x: "map_of items k = Some x" using find_mapping_key_Some [OF Some] by blast
      let ?y = "if looks_sensitive_key k then PStr REDACTED else redact_recursive x"
      have y: "map_of (redact_items items) k = Some ?y" by (simp add: redact_items_map_of x)
      have "set_path_redacted ?y (n # path) = ?y" using 3 by simp
      with y show ?thesis
        by (simp add: PDict find_mapping_key_redacted Some dict_get_def dict_set_def update_same)
    qed (simp add: PDict find_mapping_key_redacted)
  qed simp_all
qed simp

lemma rules_end_sensitive: "path \<in> set (rules_for command_id) \<Longrightarrow> path \<noteq> [] \<and> looks_sensitive_key (last path)"
proof -
  have "list_all (\<lambda>path. path \<noteq> [] \<and> looks_sensitive_key (last path)) (rules_for ''*'')" by code_simp
  moreover have "rules_for command_id = (if command_id = ''*'' then rules_for ''*'' else [])"
    by (simp add: rules_for_def COMMAND_REDACTION_RULES_def)
  ultimately show "path \<in> set (rules_for command_id) \<Longrightarrow> path \<noteq> [] \<and> looks_sensitive_key (last path)"
    by (simp add: list_all_iff split: if_splits)
qed

lemma explicit_paths_redundant:
  assumes "\<And>path. path \<in> set rules \<Longrightarrow> path \<noteq> [] \<and> looks_sensitive_key (last path)"
  shows "apply_explicit_paths (redact_recursive v) rules = redact_recursive v"
  using assms unfolding apply_explicit_paths_def by (induction rules) (simp_all add: explicit_path_redundant)

lemma redact_arguments_recursive: "redact_arguments command_id arguments = redact_recursive arguments"
  by (simp add: redact_arguments_def explicit_paths_redundant rules_end_sensitive)

text \<open>
  C39. The stored copy of a command's arguments agrees with the arguments everywhere outside sensitive keys and nowhere
  inside them. Following any path of keys and list positions: if a key on it looks sensitive, one finds the
  redaction mark when that key ends the path, and nothing at all when the path goes on; otherwise one finds the
  value of the arguments at that place, redacted in the same way (so a text or number unchanged). The explicit
  rules per command change nothing beyond this.
\<close>

theorem redaction_exact:
  "walk (redact_arguments command_id arguments) path =
     (if list_ex sensitive_step path
      then (if walk arguments path = None \<or> list_ex sensitive_step (butlast path) then None else Some (PStr REDACTED))
      else map_option redact_recursive (walk arguments path))"
  unfolding redact_arguments_recursive walk_redacted by (simp add: list_ex_iff)

end
