(* ===== verification/Command_Manifest.thy ===== *)
theory Command_Manifest
  imports Tool_Policy "HOL-Library.Monad_Syntax"
begin

text \<open>
  Model of \<^verbatim>\<open>guardian/command_bus/manifest.py\<close>: the commands derived from the OpenAPI document of the application, and
  the index of their identifiers. The document is what FastAPI generates, a parameter; the commands of the two
  internal families are given as lists. Resolving the references of a schema is a recursion that need not end:
  it has a fuel argument, with \<open>None\<close> for a recursion deeper than the fuel. The results are exactly when it ends,
  and that the index finds every command under each of its identifiers.
\<close>

record CommandSpec =
  sp_command_id :: string
  sp_aliases :: "string list"
  sp_layer :: string
  sp_method :: string
  sp_path_template :: string
  sp_operation_id :: "string option"
  sp_risk :: string
  sp_effect :: string
  sp_idempotency :: string
  sp_approval_mode :: string
  sp_input_schema :: pydict
  sp_open_world :: bool
  sp_justification :: string

definition HTTP_METHODS :: "string set" where
  "HTTP_METHODS = {''get'', ''head'', ''post'', ''put'', ''patch'', ''delete'', ''options''}"

section \<open>Schemas\<close>

definition SCHEMA_PREFIX :: string where
  "SCHEMA_PREFIX = ''#/components/schemas/''"

text \<open>\<open>ref.split("/")[-1]\<close>.\<close>

definition last_segment :: "string \<Rightarrow> string" where
  "last_segment ref = rev (takeWhile (\<lambda>c. c \<noteq> CHR ''/'') (rev ref))"

datatype ref_kind = NoRef | Dangling | Target pyval

definition ref_of :: "pydict \<Rightarrow> pydict \<Rightarrow> ref_kind" where
  "ref_of schemas schema =
     (case dict_get schema ''$ref'' of
        PStr ref \<Rightarrow>
          if take (length SCHEMA_PREFIX) ref = SCHEMA_PREFIX
          then (case dict_get schemas (last_segment ref) of PDict target \<Rightarrow> Target (PDict target) | _ \<Rightarrow> Dangling)
          else NoRef
      | _ \<Rightarrow> NoRef)"

definition resolve_properties :: "(pyval \<Rightarrow> pyval option) \<Rightarrow> pydict \<Rightarrow> pydict option" where
  "resolve_properties resolve d =
     (case dict_get d ''properties'' of
        PDict props \<Rightarrow>
          map_option (\<lambda>vs. dict_set d ''properties'' (PDict (zip (map fst props) vs))) (those (map (resolve \<circ> snd) props))
      | _ \<Rightarrow> Some d)"

definition resolve_items :: "(pyval \<Rightarrow> pyval option) \<Rightarrow> pydict \<Rightarrow> pydict option" where
  "resolve_items resolve d =
     (case map_of d ''items'' of
        Some v \<Rightarrow> map_option (dict_set d ''items'') (resolve v)
      | None \<Rightarrow> Some d)"

definition resolve_alternatives :: "(pyval \<Rightarrow> pyval option) \<Rightarrow> string \<Rightarrow> pydict \<Rightarrow> pydict option" where
  "resolve_alternatives resolve key d =
     (case dict_get d key of
        PList vs \<Rightarrow> map_option (\<lambda>rs. dict_set d key (PList rs)) (those (map resolve vs))
      | _ \<Rightarrow> Some d)"

definition resolve_parts :: "(pyval \<Rightarrow> pyval option) \<Rightarrow> pydict \<Rightarrow> pyval option" where
  "resolve_parts resolve d =
     do { d1 \<leftarrow> resolve_properties resolve d;
          d2 \<leftarrow> resolve_items resolve d1;
          d3 \<leftarrow> resolve_alternatives resolve ''allOf'' d2;
          d4 \<leftarrow> resolve_alternatives resolve ''oneOf'' d3;
          d5 \<leftarrow> resolve_alternatives resolve ''anyOf'' d4;
          Some (PDict d5) }"

primrec resolve_schema :: "nat \<Rightarrow> pydict \<Rightarrow> pyval \<Rightarrow> pyval option" where
  "resolve_schema 0 schemas schema = None"
| "resolve_schema (Suc fuel) schemas schema =
     (case schema of
        PDict d \<Rightarrow>
          (case ref_of schemas d of
             Target target \<Rightarrow> resolve_schema fuel schemas target
           | Dangling \<Rightarrow> Some schema
           | NoRef \<Rightarrow> resolve_parts (resolve_schema fuel schemas) d)
      | _ \<Rightarrow> Some schema)"

definition or_dict :: "pyval \<Rightarrow> pyval" where
  "or_dict v = (if truthy v then v else PDict [])"

fun parameter_properties :: "nat \<Rightarrow> pydict \<Rightarrow> string \<Rightarrow> pyval list \<Rightarrow> pydict \<Rightarrow> string list \<Rightarrow> (pydict \<times> string list) option" where
  "parameter_properties fuel schemas location [] properties required = Some (properties, required)"
| "parameter_properties fuel schemas location (param # params) properties required =
     (case param of
        PDict p \<Rightarrow>
          if dict_get p ''in'' \<noteq> PStr location then parameter_properties fuel schemas location params properties required
          else (case dict_get p ''name'' of
                  PStr (c # cs) \<Rightarrow>
                    (case resolve_schema fuel schemas (or_dict (dict_get p ''schema'')) of
                       None \<Rightarrow> None
                     | Some schema \<Rightarrow>
                       parameter_properties fuel schemas location params (dict_set properties (c # cs) schema)
                         (if dict_get p ''required'' = PBool True then required @ [c # cs] else required))
                | _ \<Rightarrow> parameter_properties fuel schemas location params properties required)
      | _ \<Rightarrow> parameter_properties fuel schemas location params properties required)"

definition parameter_schema :: "nat \<Rightarrow> pydict \<Rightarrow> pydict \<Rightarrow> string \<Rightarrow> pyval option" where
  "parameter_schema fuel schemas operation location =
     map_option (\<lambda>(properties, required).
         PDict [(''type'', PStr ''object''), (''properties'', PDict properties), (''required'', str_list (sort required))])
       (parameter_properties fuel schemas location
          (case dict_get operation ''parameters'' of PList ps \<Rightarrow> ps | _ \<Rightarrow> []) [] [])"

definition request_body_schema :: "nat \<Rightarrow> pydict \<Rightarrow> pydict \<Rightarrow> pyval option" where
  "request_body_schema fuel schemas operation =
     (case dict_get operation ''requestBody'' of
        PDict request_body \<Rightarrow>
          (case dict_get request_body ''content'' of
             PDict ((first, v) # rest) \<Rightarrow>
               (let content = (first, v) # rest;
                    media_type = (if map_of content ''application/json'' \<noteq> None then ''application/json'' else first)
                in case or_dict (dict_get content media_type) of
                     PDict media_obj \<Rightarrow>
                       map_option (\<lambda>schema.
                           case schema of
                             PDict s \<Rightarrow> if dict_get request_body ''required'' = PBool True
                               then PDict (dict_setdefault s ''required'' (PList [])) else schema
                           | _ \<Rightarrow> schema)
                         (resolve_schema fuel schemas (or_dict (dict_get media_obj ''schema'')))
                   | _ \<Rightarrow> Some (PDict []))
           | _ \<Rightarrow> Some (PDict []))
      | _ \<Rightarrow> Some (PDict []))"

definition build_input_schema :: "nat \<Rightarrow> pydict \<Rightarrow> pydict \<Rightarrow> pydict option" where
  "build_input_schema fuel schemas operation =
     do { path_params \<leftarrow> parameter_schema fuel schemas operation ''path'';
          query \<leftarrow> parameter_schema fuel schemas operation ''query'';
          headers \<leftarrow> parameter_schema fuel schemas operation ''header'';
          body \<leftarrow> request_body_schema fuel schemas operation;
          Some [(''path_params'', path_params), (''query'', query), (''headers'', headers), (''body'', body)] }"

section \<open>Commands\<close>

text \<open>The operations of the document, as pairs of path template and method with the operation's dictionary.\<close>

definition path_operations :: "string \<times> pyval \<Rightarrow> (string \<times> string \<times> pydict) list" where
  "path_operations p =
     (case snd p of
        PDict path_item \<Rightarrow>
          concat (map (\<lambda>method.
              if lower method \<notin> HTTP_METHODS then []
              else (case or_dict (dict_get path_item method) of PDict operation \<Rightarrow> [(fst p, upper method, operation)] | _ \<Rightarrow> []))
            (sort (map fst path_item)))
      | _ \<Rightarrow> [])"

definition operation_ids :: "pydict \<Rightarrow> string list" where
  "operation_ids paths =
     concat (map (\<lambda>p. case snd p of
         PDict path_item \<Rightarrow> concat (map (\<lambda>(method, operation).
             if lower method \<notin> HTTP_METHODS then []
             else (case operation of
                     PDict oper \<Rightarrow> (case dict_get oper ''operationId'' of PStr (c # cs) \<Rightarrow> [c # cs] | _ \<Rightarrow> [])
                   | _ \<Rightarrow> [])) path_item)
       | _ \<Rightarrow> []) paths)"

definition build_command_spec :: "nat \<Rightarrow> pydict \<Rightarrow> (string \<Rightarrow> nat) \<Rightarrow> string \<Rightarrow> string \<Rightarrow> pydict \<Rightarrow> CommandSpec option" where
  "build_command_spec fuel schemas operation_id_counts path_template method operation =
     (let operation_id = (case dict_get operation ''operationId'' of PStr s \<Rightarrow> Some s | _ \<Rightarrow> None);
          unique_operation_id = (case operation_id of Some s \<Rightarrow> operation_id_counts s = 1 | None \<Rightarrow> False);
          route_fallback_id = ''route::'' @ method @ ''::'' @ path_template;
          effect = (if method \<in> {''GET'', ''HEAD''} then ''read'' else ''write'')
      in map_option (\<lambda>input_schema.
           \<lparr>sp_command_id = (if unique_operation_id then ''op::'' @ the operation_id else route_fallback_id),
            sp_aliases = (if unique_operation_id then [route_fallback_id] else []), sp_layer = ''raw'', sp_method = method,
            sp_path_template = path_template, sp_operation_id = operation_id,
            sp_risk = (if effect = ''read'' then ''read_only'' else ''mutating''), sp_effect = effect,
            sp_idempotency = (if effect = ''read'' then ''safe'' else ''unsafe''),
            sp_approval_mode = (if effect = ''read'' then ''none'' else ''blocked_phase1''),
            sp_input_schema = input_schema, sp_open_world = False, sp_justification = []\<rparr>)
         (build_input_schema fuel schemas operation))"

datatype manifest_error = EmptyIdentifier | DuplicateIdentifiers string | Collision string string string

definition identifiers :: "CommandSpec \<Rightarrow> string list" where
  "identifiers command = sp_command_id command # sp_aliases command"

type_synonym command_index = "(string \<times> CommandSpec) list"

definition register_command :: "command_index \<Rightarrow> CommandSpec \<Rightarrow> manifest_error + command_index" where
  "register_command index command =
     (let normalized_keys = map strip (identifiers command) in
      if [] \<in> set normalized_keys then Inl EmptyIdentifier
      else if length (remdups normalized_keys) \<noteq> length normalized_keys
      then Inl (DuplicateIdentifiers (sp_command_id command))
      else (case find (\<lambda>key. map_of index key \<noteq> None) normalized_keys of
              Some key \<Rightarrow> Inl (Collision key (sp_command_id (the (map_of index key))) (sp_command_id command))
            | None \<Rightarrow> Inr (fold (\<lambda>alias idx. AList.update alias command idx) (sp_aliases command)
                (AList.update (sp_command_id command) command index))))"

fun register_all :: "command_index \<Rightarrow> CommandSpec list \<Rightarrow> manifest_error + command_index" where
  "register_all index [] = Inr index"
| "register_all index (command # commands) =
     (case register_command index command of Inl e \<Rightarrow> Inl e | Inr index' \<Rightarrow> register_all index' commands)"

definition build_manifest :: "nat \<Rightarrow> pydict \<Rightarrow> CommandSpec list \<Rightarrow> CommandSpec list \<Rightarrow> (manifest_error + CommandSpec list) option" where
  "build_manifest fuel openapi bridge_specs native_specs =
     (let schemas = (case dict_get openapi ''components'' of
            PDict c \<Rightarrow> (case dict_get c ''schemas'' of PDict s \<Rightarrow> s | _ \<Rightarrow> []) | _ \<Rightarrow> []);
          paths = (case dict_get openapi ''paths'' of PDict p \<Rightarrow> p | _ \<Rightarrow> []);
          counts = count_list (operation_ids paths)
      in map_option (\<lambda>specs. let commands = specs @ bridge_specs @ native_specs in
             case register_all [] commands of Inl e \<Rightarrow> Inl e | Inr _ \<Rightarrow> Inr commands)
           (those (map (\<lambda>(path_template, method, operation). build_command_spec fuel schemas counts path_template method operation)
             (concat (map path_operations (sort_key fst paths))))))"

definition build_command_index ::
    "nat \<Rightarrow> pydict \<Rightarrow> CommandSpec list \<Rightarrow> CommandSpec list \<Rightarrow> (manifest_error + (command_index \<times> CommandSpec list)) option" where
  "build_command_index fuel openapi bridge_specs native_specs =
     map_option (\<lambda>res. case res of
         Inl e \<Rightarrow> Inl e
       | Inr commands \<Rightarrow> (case register_all [] commands of Inl e \<Rightarrow> Inl e | Inr index \<Rightarrow> Inr (index, commands)))
       (build_manifest fuel openapi bridge_specs native_specs)"

section \<open>When the resolution of references ends\<close>

text \<open>The schemas that the resolution of a schema goes into next.\<close>

definition list_at :: "pydict \<Rightarrow> string \<Rightarrow> pyval list" where
  "list_at d key = (case dict_get d key of PList vs \<Rightarrow> vs | _ \<Rightarrow> [])"

definition part_schemas :: "pydict \<Rightarrow> pyval list" where
  "part_schemas d =
     (case dict_get d ''properties'' of PDict props \<Rightarrow> map snd props | _ \<Rightarrow> []) @
     (case map_of d ''items'' of Some v \<Rightarrow> [v] | None \<Rightarrow> []) @ list_at d ''allOf'' @ list_at d ''oneOf'' @ list_at d ''anyOf''"

definition subschemas :: "pydict \<Rightarrow> pyval \<Rightarrow> pyval list" where
  "subschemas schemas schema =
     (case schema of
        PDict d \<Rightarrow> (case ref_of schemas d of Target target \<Rightarrow> [target] | Dangling \<Rightarrow> [] | NoRef \<Rightarrow> part_schemas d)
      | _ \<Rightarrow> [])"

lemma those_None: "those (map f xs) = None \<longleftrightarrow> (\<exists>x \<in> set xs. f x = None)"
  by (induction xs) (auto split: option.splits)

definition property_schemas :: "pydict \<Rightarrow> pyval list" where
  "property_schemas d = (case dict_get d ''properties'' of PDict props \<Rightarrow> map snd props | _ \<Rightarrow> [])"

definition item_schemas :: "pydict \<Rightarrow> pyval list" where
  "item_schemas d = (case map_of d ''items'' of Some v \<Rightarrow> [v] | None \<Rightarrow> [])"

lemma part_schemas_split:
  "part_schemas d = property_schemas d @ item_schemas d @ list_at d ''allOf'' @ list_at d ''oneOf'' @ list_at d ''anyOf''"
  by (simp add: part_schemas_def property_schemas_def item_schemas_def)

text \<open>Each part fails exactly when one of its schemas does, and leaves the other parts as they are.\<close>

lemma part_None:
  "resolve_properties f d = None \<longleftrightarrow> (\<exists>x \<in> set (property_schemas d). f x = None)"
  "resolve_items f d = None \<longleftrightarrow> (\<exists>x \<in> set (item_schemas d). f x = None)"
  "resolve_alternatives f key d = None \<longleftrightarrow> (\<exists>x \<in> set (list_at d key). f x = None)"
  by (auto simp: resolve_properties_def resolve_items_def resolve_alternatives_def property_schemas_def item_schemas_def
      list_at_def those_None split: pyval.splits option.splits)

lemma part_keeps:
  "resolve_properties f d = Some d' \<Longrightarrow> k \<noteq> ''properties'' \<Longrightarrow> map_of d' k = map_of d k"
  "resolve_items f d = Some d' \<Longrightarrow> k \<noteq> ''items'' \<Longrightarrow> map_of d' k = map_of d k"
  "resolve_alternatives f key d = Some d' \<Longrightarrow> k \<noteq> key \<Longrightarrow> map_of d' k = map_of d k"
  by (auto simp: resolve_properties_def resolve_items_def resolve_alternatives_def split: pyval.splits option.splits)

lemma parts_keep:
  "resolve_properties f d = Some d' \<Longrightarrow> item_schemas d' = item_schemas d"
  "resolve_properties f d = Some d' \<Longrightarrow> k \<in> {''allOf'', ''oneOf'', ''anyOf''} \<Longrightarrow> list_at d' k = list_at d k"
  "resolve_items f d = Some d' \<Longrightarrow> k \<in> {''allOf'', ''oneOf'', ''anyOf''} \<Longrightarrow> list_at d' k = list_at d k"
  "resolve_alternatives f ''allOf'' d = Some d' \<Longrightarrow> k \<in> {''oneOf'', ''anyOf''} \<Longrightarrow> list_at d' k = list_at d k"
  "resolve_alternatives f ''oneOf'' d = Some d' \<Longrightarrow> list_at d' ''anyOf'' = list_at d ''anyOf''"
  by (auto simp: item_schemas_def list_at_def dict_get_def part_keeps(1) [of f d d'] part_keeps(2) [of f d d']
      part_keeps(3) [of f _ d d'])

lemma bind_step:
  assumes "m = None \<longleftrightarrow> A" "\<And>d. m = Some d \<Longrightarrow> g d = None \<longleftrightarrow> B"
  shows "Option.bind m g = None \<longleftrightarrow> A \<or> B"
  using assms by (cases m) auto

lemma resolve_parts_None: "resolve_parts f d = None \<longleftrightarrow> (\<exists>x \<in> set (part_schemas d). f x = None)"
proof -
  let ?bad = "\<lambda>xs. \<exists>x \<in> set xs. f x = None"
  let ?k4 = "\<lambda>d4. Option.bind (resolve_alternatives f ''anyOf'' d4) (\<lambda>d5. Some (PDict d5))"
  let ?k3 = "\<lambda>d3. Option.bind (resolve_alternatives f ''oneOf'' d3) ?k4"
  let ?k2 = "\<lambda>d2. Option.bind (resolve_alternatives f ''allOf'' d2) ?k3"
  let ?k1 = "\<lambda>d1. Option.bind (resolve_items f d1) ?k2"
  have "?k4 d = None \<longleftrightarrow> ?bad (list_at d ''anyOf'') \<or> False" for d
    by (rule bind_step [OF part_None(3)]) simp
  then have "?k3 d = None \<longleftrightarrow> ?bad (list_at d ''oneOf'') \<or> ?bad (list_at d ''anyOf'')" for d
    by (intro bind_step [OF part_None(3)]) (simp add: parts_keep(5))
  then have "?k2 d = None \<longleftrightarrow> ?bad (list_at d ''allOf'') \<or> ?bad (list_at d ''oneOf'') \<or> ?bad (list_at d ''anyOf'')" for d
    by (intro bind_step [OF part_None(3)]) (simp add: parts_keep(4))
  then have "?k1 d = None \<longleftrightarrow> ?bad (item_schemas d) \<or> ?bad (list_at d ''allOf'') \<or> ?bad (list_at d ''oneOf'') \<or>
      ?bad (list_at d ''anyOf'')" for d
    by (intro bind_step [OF part_None(2)]) (simp add: parts_keep(3))
  then have "resolve_parts f d = None \<longleftrightarrow> ?bad (property_schemas d) \<or> ?bad (item_schemas d) \<or> ?bad (list_at d ''allOf'') \<or>
      ?bad (list_at d ''oneOf'') \<or> ?bad (list_at d ''anyOf'')"
    unfolding resolve_parts_def by (intro bind_step [OF part_None(1)]) (simp add: parts_keep(1,2))
  then show ?thesis by (auto simp: part_schemas_split)
qed

lemma resolve_Suc_None:
  "resolve_schema (Suc n) schemas v = None \<longleftrightarrow> (\<exists>x \<in> set (subschemas schemas v). resolve_schema n schemas x = None)"
  by (auto simp: subschemas_def resolve_parts_None split: pyval.splits ref_kind.splits)

text \<open>The result depends on the schemas gone into only.\<close>

lemma part_cong:
  "(\<And>x. x \<in> set (property_schemas d) \<Longrightarrow> f x = g x) \<Longrightarrow> resolve_properties f d = resolve_properties g d"
  "(\<And>x. x \<in> set (item_schemas d) \<Longrightarrow> f x = g x) \<Longrightarrow> resolve_items f d = resolve_items g d"
  "(\<And>x. x \<in> set (list_at d key) \<Longrightarrow> f x = g x) \<Longrightarrow> resolve_alternatives f key d = resolve_alternatives g key d"
  by (auto simp: resolve_properties_def resolve_items_def resolve_alternatives_def property_schemas_def item_schemas_def
      list_at_def split: pyval.splits option.splits cong: map_cong intro!: arg_cong [where f = those])

lemma resolve_parts_cong:
  assumes "\<And>x. x \<in> set (part_schemas d) \<Longrightarrow> f x = g x"
  shows "resolve_parts f d = resolve_parts g d"
  unfolding resolve_parts_def
proof (intro Option.bind_cong)
  show "resolve_properties f d = resolve_properties g d" using assms by (intro part_cong) (simp add: part_schemas_split)
  fix d1 assume 1: "resolve_properties g d = Some d1"
  show "resolve_items f d1 = resolve_items g d1"
    using assms by (intro part_cong) (simp add: part_schemas_split parts_keep(1) [OF 1])
  fix d2 assume 2: "resolve_items g d1 = Some d2"
  have at2: "list_at d2 k = list_at d k" if "k \<in> {''allOf'', ''oneOf'', ''anyOf''}" for k
    using parts_keep(2) [OF 1 that] parts_keep(3) [OF 2 that] by simp
  show "resolve_alternatives f ''allOf'' d2 = resolve_alternatives g ''allOf'' d2"
    using assms by (intro part_cong) (simp add: part_schemas_split at2)
  fix d3 assume 3: "resolve_alternatives g ''allOf'' d2 = Some d3"
  show "resolve_alternatives f ''oneOf'' d3 = resolve_alternatives g ''oneOf'' d3"
    using assms by (intro part_cong) (simp add: part_schemas_split parts_keep(4) [OF 3] at2)
  fix d4 assume 4: "resolve_alternatives g ''oneOf'' d3 = Some d4"
  show "resolve_alternatives f ''anyOf'' d4 = resolve_alternatives g ''anyOf'' d4"
    using assms by (intro part_cong) (simp add: part_schemas_split parts_keep(5) [OF 4] parts_keep(4) [OF 3] at2)
qed simp

lemma resolve_Suc_cong:
  "(\<And>x. x \<in> set (subschemas schemas v) \<Longrightarrow> resolve_schema n schemas x = resolve_schema m schemas x) \<Longrightarrow>
     resolve_schema (Suc n) schemas v = resolve_schema (Suc m) schemas v"
  by (auto simp: subschemas_def split: pyval.splits ref_kind.splits intro!: resolve_parts_cong)

lemma resolve_more_fuel: "resolve_schema n schemas v = Some r \<Longrightarrow> resolve_schema (n + k) schemas v = Some r"
proof (induction n arbitrary: v r)
  case (Suc n)
  have "resolve_schema n schemas x = resolve_schema (n + k) schemas x" if "x \<in> set (subschemas schemas v)" for x
  proof -
    have "resolve_schema n schemas x \<noteq> None" using Suc.prems that resolve_Suc_None [of n schemas v] by auto
    with Suc.IH show ?thesis by fastforce
  qed
  with Suc.prems show ?case by (simp add: resolve_Suc_cong [of schemas v n "n + k", symmetric] del: resolve_schema.simps)
qed simp

lemma resolve_stuck:
  assumes "\<And>n. resolve_schema n schemas v = None"
  shows "\<exists>x \<in> set (subschemas schemas v). \<forall>n. resolve_schema n schemas x = None"
proof (rule ccontr)
  assume "\<not> ?thesis"
  then have "\<forall>x \<in> set (subschemas schemas v). \<exists>n. resolve_schema n schemas x \<noteq> None" by blast
  then obtain N where N: "\<And>x. x \<in> set (subschemas schemas v) \<Longrightarrow> resolve_schema (N x) schemas x \<noteq> None" by metis
  let ?m = "Max (insert 0 (N ` set (subschemas schemas v)))"
  have "resolve_schema ?m schemas x \<noteq> None" if "x \<in> set (subschemas schemas v)" for x
  proof -
    have "N x \<le> ?m" using that by (intro Max_ge) auto
    then obtain k where "?m = N x + k" by (metis le_add_diff_inverse)
    with N [OF that] resolve_more_fuel [of "N x" schemas x _ k] show ?thesis by auto
  qed
  then have "resolve_schema (Suc ?m) schemas v \<noteq> None" unfolding resolve_Suc_None by blast
  with assms show False by simp
qed

lemma chain_never_resolves:
  assumes "\<And>i. f (Suc i) \<in> set (subschemas schemas (f i))"
  shows "resolve_schema n schemas (f i) = None"
proof (induction n arbitrary: i)
  case (Suc n)
  show ?case unfolding resolve_Suc_None using Suc.IH [of "Suc i"] assms [of i] by blast
qed simp

lemma stuck_chain:
  assumes "\<And>n. resolve_schema n schemas v = None"
  shows "\<exists>f. f 0 = v \<and> (\<forall>i. f (Suc i) \<in> set (subschemas schemas (f i)))"
proof -
  have "\<exists>f. \<forall>i. ((\<forall>m. resolve_schema m schemas (f i) = None) \<and> (i = 0 \<longrightarrow> f i = v)) \<and> f (Suc i) \<in> set (subschemas schemas (f i))"
  proof (rule dependent_nat_choice)
    show "\<exists>x. (\<forall>m. resolve_schema m schemas x = None) \<and> ((0::nat) = 0 \<longrightarrow> x = v)" using assms by simp
    fix x and n :: nat
    assume "(\<forall>m. resolve_schema m schemas x = None) \<and> (n = 0 \<longrightarrow> x = v)"
    then show "\<exists>y. ((\<forall>m. resolve_schema m schemas y = None) \<and> (Suc n = 0 \<longrightarrow> y = v)) \<and> y \<in> set (subschemas schemas x)"
      using resolve_stuck [of schemas x] by auto
  qed
  then show ?thesis by blast
qed


text \<open>A model that contains a list of itself, as a comment with replies would.\<close>

definition demo_schemas :: pydict where
  "demo_schemas = [(''Comment'', PDict [(''properties'', PDict [(''replies'', PDict [(''items'',
     PDict [(''$ref'', PStr ''#/components/schemas/Comment'')])])])]), (''Name'', PDict [(''type'', PStr ''string'')])]"


section \<open>The index of identifiers\<close>

lemma map_of_fold_update:
  "map_of (fold (\<lambda>a idx. AList.update a c idx) ks idx) k = (if k \<in> set ks then Some c else map_of idx k)"
  by (induction ks arbitrary: idx) (auto simp: update_conv')

lemma register_command_Inr:
  assumes "register_command index command = Inr index'" "\<forall>k \<in> set (identifiers command). strip k = k"
  shows "map_of index' k = (if k \<in> set (identifiers command) then Some command else map_of index k)"
    "k \<in> set (identifiers command) \<Longrightarrow> map_of index k = None"
proof -
  have keys: "map strip (identifiers command) = identifiers command" using assms(2) by (simp add: map_idI)
  have "find (\<lambda>key. map_of index key \<noteq> None) (map strip (identifiers command)) = None"
    using assms(1) by (auto simp: register_command_def Let_def split: if_splits option.splits)
  then show "k \<in> set (identifiers command) \<Longrightarrow> map_of index k = None" unfolding keys by (simp add: find_None_iff)
  have "index' = fold (\<lambda>alias idx. AList.update alias command idx) (sp_aliases command)
      (AList.update (sp_command_id command) command index)"
    using assms(1) by (auto simp: register_command_def Let_def split: if_splits option.splits)
  then show "map_of index' k = (if k \<in> set (identifiers command) then Some command else map_of index k)"
    by (simp add: map_of_fold_update identifiers_def update_conv')
qed

lemma register_all_Inr:
  assumes "register_all index commands = Inr index'" "\<forall>c \<in> set commands. \<forall>k \<in> set (identifiers c). strip k = k"
  shows "map_of index' k = Some c \<longleftrightarrow> map_of index k = Some c \<or> (c \<in> set commands \<and> k \<in> set (identifiers c))"
  using assms
proof (induction index commands rule: register_all.induct)
  case (2 index command commands)
  then obtain index1 where r: "register_command index command = Inr index1" "register_all index1 commands = Inr index'"
    by (auto split: sum.splits)
  have ids: "\<forall>k \<in> set (identifiers command). strip k = k" using 2(3) by simp
  note IH = 2(1) [OF r] and reg = register_command_Inr [OF r(1) ids]
  have "map_of index' k = Some c \<longleftrightarrow> map_of index1 k = Some c \<or> (c \<in> set commands \<and> k \<in> set (identifiers c))"
    using 2(3) by (intro IH) auto
  then show ?case using reg by auto
qed simp

lemma those_Some: "those xs = Some ys \<Longrightarrow> y \<in> set ys \<Longrightarrow> Some y \<in> set xs"
  by (induction xs arbitrary: ys) (auto split: option.splits)

lemma build_command_spec_Some:
  assumes "build_command_spec fuel schemas counts path_template method operation = Some c"
  shows "sp_layer c = ''raw'' \<and> (sp_effect c = ''read'') = (sp_method c \<in> {''GET'', ''HEAD''}) \<and>
    sp_effect c \<in> {''read'', ''write''} \<and> (sp_approval_mode c = ''none'') = (sp_effect c = ''read'')"
  using assms unfolding build_command_spec_def Let_def map_option_eq_Some by clarify simp

lemma build_manifest_specs:
  assumes "build_manifest fuel openapi bridge native = Some (Inr commands)" "c \<in> set commands"
  shows "c \<in> set bridge \<or> c \<in> set native \<or>
    (\<exists>schemas counts p m oper. build_command_spec fuel schemas counts p m oper = Some c)"
proof -
  obtain schemas counts opers where m: "build_manifest fuel openapi bridge native =
      map_option (\<lambda>specs. let commands = specs @ bridge @ native in
          case register_all [] commands of Inl e \<Rightarrow> Inl e | Inr _ \<Rightarrow> Inr commands)
        (those (map (\<lambda>(p, m, oper). build_command_spec fuel schemas counts p m oper) opers))"
    unfolding build_manifest_def Let_def by blast
  with assms(1) obtain specs where
      specs: "those (map (\<lambda>(p, m, oper). build_command_spec fuel schemas counts p m oper) opers) = Some specs" by auto
  have "commands = specs @ bridge @ native"
    using assms(1) m specs by (cases "register_all [] (specs @ bridge @ native)") simp_all
  with assms(2) those_Some [OF specs] show ?thesis by fastforce
qed

lemma build_command_index_Inr:
  assumes "build_command_index fuel openapi bridge native = Some (Inr (index, commands))"
  shows "build_manifest fuel openapi bridge native = Some (Inr commands)" "register_all [] commands = Inr index"
proof -
  from assms obtain r where r: "build_manifest fuel openapi bridge native = Some r"
    by (auto simp: build_command_index_def)
  with assms obtain cs where cs: "r = Inr cs" by (cases r) (auto simp: build_command_index_def)
  with r assms have "register_all [] cs = Inr index" "cs = commands"
    by (cases "register_all [] cs"; simp add: build_command_index_def)+
  with r cs show "build_manifest fuel openapi bridge native = Some (Inr commands)" "register_all [] commands = Inr index"
    by simp_all
qed

text \<open>
  When an index of commands is built and no identifier has blanks around it, it is exact: a name leads to a
  command precisely when it is the command's id or one of its aliases, so no two commands share a name. Every
  command read from the routes belongs to the raw layer, reads exactly when its method is GET or HEAD, and
  needs approval exactly when it writes.
\<close>

theorem command_index_exact:
  assumes "build_command_index fuel openapi bridge native = Some (Inr (index, commands))"
    and "\<forall>c \<in> set commands. \<forall>k \<in> set (identifiers c). strip k = k"
  shows "(map_of index k = Some c) = (c \<in> set commands \<and> k \<in> set (identifiers c))
    \<and> (map_of index k = Some c \<longrightarrow> c \<in> set bridge \<union> set native \<or>
      (sp_layer c = ''raw'' \<and> (sp_effect c = ''read'') = (sp_method c \<in> {''GET'', ''HEAD''}) \<and>
       sp_effect c \<in> {''read'', ''write''} \<and> (sp_approval_mode c = ''none'') = (sp_effect c = ''read'')))"
proof (intro conjI impI)
  note b = build_command_index_Inr [OF assms(1)]
  show exact: "(map_of index k = Some c) = (c \<in> set commands \<and> k \<in> set (identifiers c))"
    using register_all_Inr [OF b(2) assms(2)] by simp
  show "c \<in> set bridge \<union> set native \<or>
      (sp_layer c = ''raw'' \<and> (sp_effect c = ''read'') = (sp_method c \<in> {''GET'', ''HEAD''}) \<and>
       sp_effect c \<in> {''read'', ''write''} \<and> (sp_approval_mode c = ''none'') = (sp_effect c = ''read''))"
    if "map_of index k = Some c"
  proof -
    have "c \<in> set commands" using that exact by blast
    from build_manifest_specs [OF b(1) this] build_command_spec_Some show ?thesis by blast
  qed
qed

definition demo_openapi :: pydict where
  "demo_openapi = [(''paths'', PDict [(''/notes'', PDict [(''post'', PDict [(''operationId'', PStr ''add'')]),
     (''get'', PDict [(''operationId'', PStr ''list'')])])])]"

theorem command_index_exact_witness:
  "case build_command_index 1 demo_openapi [] [] of
     Some (Inr (index, commands)) \<Rightarrow>
       map_option sp_effect (map_of index ''route::POST::/notes'') = Some ''write'' \<and>
       map_option sp_command_id (map_of index ''op::list'') = Some ''op::list'' \<and> map_of index ''list'' = None
   | _ \<Rightarrow> False"
proof -
  obtain index commands where b: "build_command_index 1 demo_openapi [] [] = Some (Inr (index, commands))"
      and ids: "list_all (\<lambda>c. list_all (\<lambda>k. strip k = k) (identifiers c)) commands"
      and w: "list_ex (\<lambda>c. ''route::POST::/notes'' \<in> set (identifiers c) \<and> sp_effect c = ''write'') commands"
      and r: "list_ex (\<lambda>c. ''op::list'' \<in> set (identifiers c) \<and> sp_command_id c = ''op::list'') commands"
      and n: "\<not> list_ex (\<lambda>c. ''list'' \<in> set (identifiers c)) commands"
  proof -
    have "case build_command_index 1 demo_openapi [] [] of
        Some (Inr (index, commands)) \<Rightarrow> list_all (\<lambda>c. list_all (\<lambda>k. strip k = k) (identifiers c)) commands \<and>
          list_ex (\<lambda>c. ''route::POST::/notes'' \<in> set (identifiers c) \<and> sp_effect c = ''write'') commands \<and>
          list_ex (\<lambda>c. ''op::list'' \<in> set (identifiers c) \<and> sp_command_id c = ''op::list'') commands \<and>
          \<not> list_ex (\<lambda>c. ''list'' \<in> set (identifiers c)) commands
      | _ \<Rightarrow> False" by code_simp
    then show thesis using that by (auto split: option.splits sum.splits)
  qed
  from ids have ids: "\<forall>c \<in> set commands. \<forall>k \<in> set (identifiers c). strip k = k" by (simp add: list_all_iff)
  note exact = command_index_exact [OF b ids, THEN conjunct1]
  have "map_of index ''list'' = None" using n exact by (cases "map_of index ''list''") (auto simp: list_ex_iff)
  moreover have "map_option sp_effect (map_of index ''route::POST::/notes'') = Some ''write''"
    using w exact by (auto simp: list_ex_iff)
  moreover have "map_option sp_command_id (map_of index ''op::list'') = Some ''op::list''"
    using r exact by (auto simp: list_ex_iff)
  ultimately show ?thesis unfolding b by simp
qed

end
