(* ===== verification/Loopback.thy ===== *)
theory Loopback
  imports Tool_Policy Flow_Security
begin

text \<open>
  Model of \<^verbatim>\<open>guardian/command_bus/loopback_http_adapter.py\<close>: how a command becomes a request to the application's own
  routes. The HTTP client is a parameter that may change the world; the readings of the clock against an
  accepted deadline are given. The results are that a rendered path parameter cannot leave its segment and that a request
  is sent only past the policy, the recursion guard and a valid base.
\<close>

section \<open>Paths\<close>

definition name_start :: "char \<Rightarrow> bool" where
  "name_start c = (ascii_alpha c \<or> c = CHR ''_'')"

definition name_char :: "char \<Rightarrow> bool" where
  "name_char c = (name_start c \<or> is_digit c)"

text \<open>\<open>urllib.parse.quote(text, safe="")\<close>: everything but the unreserved characters, byte by byte in UTF-8.\<close>

definition unreserved :: "char \<Rightarrow> bool" where
  "unreserved c = (name_char c \<or> c \<in> {CHR ''.'', CHR ''-'', CHR ''~''})"

definition hex_upper :: "nat \<Rightarrow> char" where
  "hex_upper d = (if d < 10 then char_of (48 + d) else char_of (55 + d))"

definition percent :: "nat \<Rightarrow> string" where
  "percent b = [CHR ''%'', hex_upper (b div 16), hex_upper (b mod 16)]"

definition quote_char :: "char \<Rightarrow> string" where
  "quote_char c =
     (let n = (of_char c :: nat) in
      if unreserved c then [c] else if n < 128 then percent n
      else percent (192 + n div 64) @ percent (128 + n mod 64))"

definition quote :: "string \<Rightarrow> string" where
  "quote s = concat (map quote_char s)"

text \<open>\<open>render_path\<close>: the substitution of \<open>{name}\<close> from left to right; the left result is the message of the error.\<close>

definition token_at :: "string \<Rightarrow> string option" where
  "token_at cs =
     (let name = takeWhile name_char cs in
      if name \<noteq> [] \<and> name_start (hd name) \<and> take 1 (drop (length name) cs) = ''}'' then Some name else None)"

function render_path :: "pydict \<Rightarrow> string \<Rightarrow> string + string" where
  "render_path path_params [] = Inr []"
| "render_path path_params (c # cs) =
     (case (if c = CHR ''{'' then token_at cs else None) of
        None \<Rightarrow> (case render_path path_params cs of Inl e \<Rightarrow> Inl e | Inr r \<Rightarrow> Inr (c # r))
      | Some name \<Rightarrow>
        (case map_of path_params name of
           None \<Rightarrow> Inl (''missing required path param '' @ [CHR 0x27] @ name @ [CHR 0x27])
         | Some v \<Rightarrow>
           (case render_path path_params (drop (Suc (length name)) cs) of
              Inl e \<Rightarrow> Inl e | Inr r \<Rightarrow> Inr (quote (py_str v) @ r))))"
  by pat_completeness auto
termination by (relation "measure (length \<circ> snd)") auto

definition RECURSION_BLOCKED_PREFIXES :: "string list" where
  "RECURSION_BLOCKED_PREFIXES = [''/api/guardian/commands/'']"

definition is_recursion_blocked :: "string \<Rightarrow> bool" where
  "is_recursion_blocked path =
     (let normalized = ''/'' @ dropWhile (\<lambda>c. c = CHR ''/'') path in
      list_ex (\<lambda>prefix. starts_with prefix normalized) RECURSION_BLOCKED_PREFIXES)"

section \<open>The base\<close>

text \<open>The \<open>ValueError\<close> of \<open>urlparse(raw)\<close> for bad brackets.\<close>

definition url_error :: "(string \<Rightarrow> string option) \<Rightarrow> string \<Rightarrow> string option" where
  "url_error brackets url =
     (let netloc = url_netloc url in
      if (CHR ''['' \<in> set netloc) \<noteq> (CHR '']'' \<in> set netloc) then Some ''Invalid IPv6 URL''
      else if CHR ''['' \<in> set netloc then brackets netloc else None)"

definition BASE_MISSING :: string where
  "BASE_MISSING = ''GUARDIAN_COMMAND_BUS_LOOPBACK_BASE is required for command execution in docker mode (or set GUARDIAN_API_BASE with LOCAL_DEV/DEBUG for non-docker mode)''"

definition BASE_INVALID :: string where
  "BASE_INVALID = ''GUARDIAN_COMMAND_BUS_LOOPBACK_BASE must be a valid absolute http(s) URL''"

definition resolve_loopback_base :: "environ \<Rightarrow> (string \<Rightarrow> string option) \<Rightarrow> string + string" where
  "resolve_loopback_base env brackets =
     (let raw0 = env_text env ''GUARDIAN_COMMAND_BUS_LOOPBACK_BASE'';
          raw = (if raw0 = [] \<and> is_declared_non_docker_mode env then env_text env ''GUARDIAN_API_BASE'' else raw0)
      in if raw = [] then Inl BASE_MISSING
         else (case url_error brackets raw of
                 Some e \<Rightarrow> Inl e
               | None \<Rightarrow>
                 if url_scheme raw \<notin> {''http'', ''https''} \<or> url_netloc raw = [] then Inl BASE_INVALID
                 else Inr (rev (dropWhile (\<lambda>c. c = CHR ''/'') (rev raw)))))"

section \<open>The request\<close>

text \<open>
  An exception, by its text; whether it is the deadline's and whether it is a timeout of the client. The client
  answers a request with a status, headers, a body text and the body read as JSON (\<open>None\<close> when that raises).
\<close>

record exn =
  ex_text :: string
  ex_deadline :: bool
  ex_timeout :: bool

record http_request =
  hq_method :: string
  hq_url :: string
  hq_params :: pydict
  hq_headers :: "(string \<times> string) list"
  hq_json :: "pyval option"

record http_response =
  hr_status_code :: int
  hr_headers :: "(string \<times> string) list"
  hr_text :: string
  hr_json :: "pyval option"

type_synonym 'w client = "http_request \<Rightarrow> 'w \<Rightarrow> 'w \<times> (exn + http_response)"

text \<open>
  The clock against the accepted deadline: the time left on entry, before the client is made and before the
  request is sent, whether the total timer of the wait ran out, and whether the limit has passed afterwards.
\<close>

record deadline_clock =
  dl_remaining :: int
  dl_before :: int
  dl_inside :: int
  dl_cut_off :: bool
  dl_expired_after :: bool

definition runtime_error :: "string \<Rightarrow> exn" where
  "runtime_error text = \<lparr>ex_text = text, ex_deadline = False, ex_timeout = False\<rparr>"

definition deadline_exceeded :: "bool \<Rightarrow> exn" where
  "deadline_exceeded attempted =
     \<lparr>ex_text = ''504: '' @ py_repr (PDict [(''failure_code'', PStr ''CHAT_ACCEPTED_TASK_DEADLINE_EXCEEDED''),
        (''message'', PStr ''Accepted chat task work deadline exceeded.''),
        (''completion_truth'', PDict [(''accepted'', PBool True), (''attempted'', PBool attempted),
          (''fallback_attempted'', PBool False), (''executed'', PBool False), (''completed'', PBool False)])]),
      ex_deadline = True, ex_timeout = False\<rparr>"

record policy_context =
  pc_effect :: string
  pc_risk :: string
  pc_approval_mode :: string
  pc_requires_confirmation :: bool
  pc_policy_mode :: PolicyMode
  pc_confirmation_granted :: bool

definition context_command :: "string \<Rightarrow> string \<Rightarrow> policy_context \<Rightarrow> pydict" where
  "context_command method path_template ctx =
     [(''method'', PStr (upper method)), (''path_template'', PStr path_template),
      (''effect'', PStr (if pc_effect ctx \<noteq> [] then pc_effect ctx
         else if upper method \<in> {''GET'', ''HEAD''} then ''read'' else ''write'')),
      (''risk'', PStr (pc_risk ctx)), (''approval_mode'', PStr (pc_approval_mode ctx)),
      (''requires_confirmation'', PBool (pc_requires_confirmation ctx))]"

definition FORWARDED_AUTH_HEADERS :: "string list" where
  "FORWARDED_AUTH_HEADERS = [''authorization'', ''x-api-key'', ''x-user-id'', ''cookie'']"

definition outbound_headers :: "(string \<times> string) list \<Rightarrow> pydict \<Rightarrow> (string \<times> string) list" where
  "outbound_headers inbound headers =
     fold (\<lambda>(k, v) h. AList.update k (py_str v) h) headers
       (fold (\<lambda>(k, v) h. if lower k \<in> set FORWARDED_AUTH_HEADERS then AList.update k v h else h) inbound [])"

definition build_request ::
    "string \<Rightarrow> string \<Rightarrow> string \<Rightarrow> pydict \<Rightarrow> pydict \<Rightarrow> pyval \<Rightarrow> (string \<times> string) list \<Rightarrow> http_request" where
  "build_request method base_url path query headers body inbound =
     \<lparr>hq_method = upper method, hq_url = base_url @ path, hq_params = query, hq_headers = outbound_headers inbound headers,
      hq_json = (if body \<noteq> PNone \<and> upper method \<notin> {''GET'', ''HEAD''} then Some body else None)\<rparr>"

text \<open>The request under the deadline: one timer for the whole exchange.\<close>

definition send_request :: "'w client \<Rightarrow> deadline_clock option \<Rightarrow> http_request \<Rightarrow> 'w \<Rightarrow> 'w \<times> (exn + http_response)" where
  "send_request client clock req w =
     (case clock of
        None \<Rightarrow> client req w
      | Some k \<Rightarrow>
        if dl_before k \<le> 0 \<or> dl_inside k \<le> 0 then (w, Inl (deadline_exceeded False))
        else (case client req w of
                (w', result) \<Rightarrow>
                  if dl_cut_off k
                  then (w', Inl (if dl_expired_after k then deadline_exceeded True
                    else \<lparr>ex_text = ''Loopback command request timed out'', ex_deadline = False, ex_timeout = True\<rparr>))
                  else (case result of
                          Inr response \<Rightarrow>
                            if dl_expired_after k then (w', Inl (deadline_exceeded True)) else (w', Inr response)
                        | Inl e \<Rightarrow>
                            if ex_timeout e \<and> dl_expired_after k then (w', Inl (deadline_exceeded True)) else (w', Inl e))))"

definition parse_response :: "http_response \<Rightarrow> pydict" where
  "parse_response response =
     (let content_type = lower (case map_of (map (\<lambda>(k, v). (lower k, v)) (hr_headers response)) ''content-type'' of
            None \<Rightarrow> [] | Some v \<Rightarrow> v);
          parsed_body = (if contains ''application/json'' content_type
            then (case hr_json response of Some v \<Rightarrow> v | None \<Rightarrow> PDict [(''raw'', PStr (hr_text response))])
            else PStr (hr_text response))
      in [(''status_code'', PInt (hr_status_code response)),
          (''headers'', PDict (map (\<lambda>(k, v). (k, PStr v)) (hr_headers response))), (''body'', parsed_body)])"

definition blocked_by_policy :: "environ \<Rightarrow> string \<Rightarrow> string \<Rightarrow> policy_context \<Rightarrow> string option" where
  "blocked_by_policy env method path_template ctx =
     (let outcome = apply_policy_mode (evaluate_tool_policy (context_command method path_template ctx) env)
            (pc_policy_mode ctx) (pc_confirmation_granted ctx)
      in if po_blocked outcome
         then Some (''policy_blocked:'' @ join_with '','' (if po_reason_codes outcome = []
           then [decision_text (po_decision outcome)] else po_reason_codes outcome))
         else None)"

definition execute_loopback_request ::
    "environ \<Rightarrow> (string \<Rightarrow> string option) \<Rightarrow> 'w client \<Rightarrow> deadline_clock option \<Rightarrow> string \<Rightarrow> string \<Rightarrow> pydict \<Rightarrow> pydict \<Rightarrow>
      pydict \<Rightarrow> pyval \<Rightarrow> (string \<times> string) list \<Rightarrow> policy_context \<Rightarrow> 'w \<Rightarrow> 'w \<times> (exn + pydict)" where
  "execute_loopback_request env brackets client clock method path_template path_params query headers body inbound ctx w =
     (if (case clock of None \<Rightarrow> False | Some k \<Rightarrow> dl_remaining k \<le> 0) then (w, Inl (deadline_exceeded False))
      else case blocked_by_policy env method path_template ctx of
        Some reasons \<Rightarrow> (w, Inl (runtime_error reasons))
      | None \<Rightarrow>
        (case render_path path_params path_template of
           Inl e \<Rightarrow> (w, Inl (runtime_error e))
         | Inr path \<Rightarrow>
           if is_recursion_blocked path then (w, Inl (runtime_error ''recursion_guard_blocked''))
           else (case resolve_loopback_base env brackets of
                   Inl e \<Rightarrow> (w, Inl (runtime_error e))
                 | Inr base_url \<Rightarrow>
                   (case send_request client clock (build_request method base_url path query headers body inbound) w of
                      (w', Inl e) \<Rightarrow> (w', Inl e)
                    | (w', Inr response) \<Rightarrow> (w', Inr (parse_response response))))))"

section \<open>What can be sent\<close>

lemma hex_upper_unreserved: "d < 16 \<Longrightarrow> unreserved (hex_upper d)"
  by (auto simp: hex_upper_def unreserved_def name_char_def name_start_def ascii_alpha_def is_digit_def Let_def)

lemma percent_safe: "b < 256 \<Longrightarrow> x \<in> set (percent b) \<Longrightarrow> unreserved x \<or> x = CHR ''%''"
  using hex_upper_unreserved [of "b div 16"] hex_upper_unreserved [of "b mod 16"] by (auto simp: percent_def)

lemma quote_char_safe: "x \<in> set (quote_char c) \<Longrightarrow> unreserved x \<or> x = CHR ''%''"
proof -
  have n: "(of_char c :: nat) < 256" by (rule nat_of_char_less_256)
  then have two: "192 + of_char c div 64 < (256::nat)" "128 + of_char c mod 64 < (256::nat)" by linarith+
  show "x \<in> set (quote_char c) \<Longrightarrow> unreserved x \<or> x = CHR ''%''"
    using percent_safe [OF n, of x] percent_safe [OF two(1), of x] percent_safe [OF two(2), of x]
    by (auto simp: quote_char_def Let_def split: if_splits)
qed

lemma quote_safe: "x \<in> set (quote s) \<Longrightarrow> unreserved x \<or> x = CHR ''%''"
  using quote_char_safe by (auto simp: quote_def)

lemma quote_no_separator:
  assumes "c \<in> {CHR ''/'', CHR ''?'', CHR ''#''}"
  shows "c \<notin> set (quote s)"
proof -
  have "list_all (\<lambda>c. \<not> unreserved c \<and> c \<noteq> CHR ''%'') [CHR ''/'', CHR ''?'', CHR ''#'']" by code_simp
  with assms quote_safe show ?thesis by (auto simp: list_all_iff)
qed

lemma token_at_Some:
  assumes "token_at cs = Some name"
  shows "cs = name @ CHR ''}'' # drop (Suc (length name)) cs" "\<forall>x \<in> set name. name_char x"
proof -
  from assms have name: "name = takeWhile name_char cs" and close: "take 1 (drop (length name) cs) = ''}''"
    by (auto simp: token_at_def Let_def split: if_splits)
  have "cs = name @ drop (length name) cs" unfolding name by (metis takeWhile_dropWhile_id dropWhile_eq_drop)
  moreover have "drop (length name) cs = CHR ''}'' # drop (Suc (length name)) cs"
    using close by (cases "drop (length name) cs") (simp_all, metis list.sel(3) tl_drop drop_Suc)
  ultimately show "cs = name @ CHR ''}'' # drop (Suc (length name)) cs" by simp
  show "\<forall>x \<in> set name. name_char x" unfolding name by (auto dest: set_takeWhileD)
qed

lemma render_path_count:
  assumes "c \<in> {CHR ''/'', CHR ''?'', CHR ''#''}" "render_path params template = Inr path"
  shows "count_list path c = count_list template c"
  using assms(2)
proof (induction params template arbitrary: path rule: render_path.induct)
  case (2 params x cs)
  show ?case
  proof (cases "if x = CHR ''{'' then token_at cs else None")
    case None
    with 2(3) obtain r where "render_path params cs = Inr r" "path = x # r" by (auto split: sum.splits)
    with 2(1) [OF None] show ?thesis by simp
  next
    case (Some name)
    with 2(3) obtain v r where v: "map_of params name = Some v"
        and r: "render_path params (drop (Suc (length name)) cs) = Inr r" "path = quote (py_str v) @ r"
      by (auto split: sum.splits option.splits)
    have tok: "token_at cs = Some name" and x: "x = CHR ''{''" using Some by (auto split: if_splits)
    have sep: "list_all (\<lambda>c. \<not> name_char c \<and> c \<noteq> CHR ''{'' \<and> c \<noteq> CHR ''}'') [CHR ''/'', CHR ''?'', CHR ''#'']" by code_simp
    then have "c \<notin> set name" "c \<noteq> CHR ''{''" "c \<noteq> CHR ''}''"
      using assms(1) token_at_Some(2) [OF tok] by (auto simp: list_all_iff)
    moreover obtain rest where rest: "cs = name @ CHR ''}'' # rest" "drop (Suc (length name)) cs = rest"
      using token_at_Some(1) [OF tok] by blast
    ultimately have "count_list (x # cs) c = count_list (drop (Suc (length name)) cs) c"
      unfolding rest by (simp add: x)
    moreover have "count_list (quote (py_str v)) c = 0" using quote_no_separator [OF assms(1)] by simp
    ultimately show ?thesis using 2(2) [OF Some v r(1)] r(2) by simp
  qed
qed simp

text \<open>
  C26. A path parameter cannot change the shape of a route: whatever values the parameters have, a rendered path has
  as many slashes, question marks and hashes as its template, so no value adds a segment, a query or a
  fragment. (The values \<open>.\<close> and \<open>..\<close> pass unchanged, and the recursion guard looks at the path with them in it.)
\<close>

theorem rendered_path_keeps_shape:
  assumes "render_path path_params path_template = Inr path"
  shows "count_list path (CHR ''/'') = count_list path_template (CHR ''/'') \<and>
    count_list path (CHR ''?'') = count_list path_template (CHR ''?'') \<and>
    count_list path (CHR ''#'') = count_list path_template (CHR ''#'')"
  using render_path_count [OF _ assms] by simp

theorem rendered_path_keeps_shape_witness:
  "render_path [(''id'', PStr ''../a?b'')] ''/x/{id}/y'' = Inr ''/x/..%2Fa%3Fb/y'' \<and>
   count_list ''/x/..%2Fa%3Fb/y'' (CHR ''/'') = 3 \<and>
   render_path [(''id'', PStr ''..'')] ''/x/{id}/api/guardian/commands/y'' = Inr ''/x/../api/guardian/commands/y'' \<and>
   \<not> is_recursion_blocked ''/x/../api/guardian/commands/y''"
proof -
  have r: "render_path [(''id'', PStr ''../a?b'')] ''/x/{id}/y'' = Inr ''/x/..%2Fa%3Fb/y''" by code_simp
  have "count_list ''/x/..%2Fa%3Fb/y'' (CHR ''/'') = 3"
    using rendered_path_keeps_shape [OF r] by simp
  moreover have "render_path [(''id'', PStr ''..'')] ''/x/{id}/api/guardian/commands/y'' = Inr ''/x/../api/guardian/commands/y''"
    by code_simp
  moreover have "\<not> is_recursion_blocked ''/x/../api/guardian/commands/y''" by code_simp
  ultimately show ?thesis using r by simp
qed

section \<open>When the client is called\<close>

definition loopback_cleared ::
    "environ \<Rightarrow> (string \<Rightarrow> string option) \<Rightarrow> string \<Rightarrow> string \<Rightarrow> pydict \<Rightarrow> policy_context \<Rightarrow> bool" where
  "loopback_cleared env brackets method path_template path_params ctx =
     (blocked_by_policy env method path_template ctx = None \<and>
      (\<exists>path base. render_path path_params path_template = Inr path \<and> \<not> is_recursion_blocked path \<and>
        resolve_loopback_base env brackets = Inr base))"

lemma send_request_world: "P w \<Longrightarrow> (\<And>w. P w \<Longrightarrow> P (fst (client req w))) \<Longrightarrow> P (fst (send_request client clock req w))"
  by (cases "client req w") (auto simp: send_request_def dest: meta_spec [where x = w] split: option.splits sum.splits)

lemma execute_loopback_uncleared:
  "\<not> loopback_cleared env brackets method path_template path_params ctx \<Longrightarrow>
     fst (execute_loopback_request env brackets client clock method path_template path_params query headers body inbound ctx w) = w"
  by (auto simp: loopback_cleared_def execute_loopback_request_def split: option.splits sum.splits)

end
