(* ===== verification/Command_Invoke.thy ===== *)
theory Command_Invoke
  imports Command_Store Command_Manifest Loopback External_Policy Arg_Redaction Permission_Profiles Work_Order_Store
begin

text \<open>
  Model of \<^verbatim>\<open>guardian/command_bus/invoke.py\<close> with the classes of \<^verbatim>\<open>contracts.py\<close> it reads: one invocation of a command, from
  the checks on the request to the end of the run. It composes the manifest, the tool policy, permission
  profiles, the external policy, redaction, the loopback request, the run store and the work order store. Parameters
  are the database sessions, the HTTP client, the internal commands, the clock and fresh ids. The
  results are what must hold before anything is executed, that a repeated request executes nothing, and how a run
  ends.
\<close>

section \<open>Contracts\<close>

definition INVOKE_VERSION :: string where "INVOKE_VERSION = ''1.0''"

definition MANIFEST_VERSION :: string where "MANIFEST_VERSION = ''1.0''"

definition MAX_PAYLOAD_BYTES :: int where "MAX_PAYLOAD_BYTES = 262144"

record ActorSpec =
  ac_kind :: string
  ac_id :: string
  ac_session_id :: "string option"
  ac_delegated_by :: "string option"

record InvokeArguments =
  ar_path_params :: pydict
  ar_query :: pydict
  ar_headers :: pydict
  ar_body :: pyval

record InvokePermissionProfile =
  pp_profile_id :: string
  pp_actor_id :: string
  pp_subject_id :: string
  pp_task_id :: string
  pp_project_id :: "string option"
  pp_thread_id :: "string option"
  pp_allowed_command_classes :: "string list"
  pp_denied_command_classes :: "string list"
  pp_allowed_command_ids :: "string list"
  pp_denied_command_ids :: "string list"
  pp_filesystem_access :: string
  pp_allowed_write_roots :: "string list"
  pp_shell_allowed :: bool
  pp_shell_read_only :: bool
  pp_allowed_shell_commands :: "string list"
  pp_network_allowed :: bool
  pp_connector_allowed :: bool
  pp_request_task_id :: "string option"
  pp_request_project_id :: "string option"
  pp_request_thread_id :: "string option"
  pp_request_command_class :: "string option"
  pp_requested_write_paths :: "string list"
  pp_uses_shell :: bool
  pp_shell_command :: "string option"
  pp_shell_mutates :: bool
  pp_uses_network :: bool
  pp_uses_connector :: bool

record InvokeExternalPolicyRule =
  er_effect :: PolicyEffect
  er_connector_name :: "string option"
  er_transport :: "string option"
  er_command_namespace :: "string option"
  er_command_name :: "string option"
  er_url_host_pattern :: "string option"
  er_url_scheme :: "string option"
  er_project_id :: "string option"
  er_thread_id :: "string option"
  er_reason :: string

text \<open>\<open>iq_fields_set\<close> is pydantic's \<open>model_fields_set\<close>: the fields the caller sent.\<close>

record InvokeRequest =
  iq_invoke_version :: string
  iq_command_id :: string
  iq_actor :: ActorSpec
  iq_arguments :: InvokeArguments
  iq_idempotency_key :: "string option"
  iq_provenance_json :: pydict
  iq_permission_profile :: "InvokePermissionProfile option"
  iq_external_transport :: "string option"
  iq_external_target_url :: "string option"
  iq_external_policy_rules :: "InvokeExternalPolicyRule list"
  iq_external_command_namespace :: "string option"
  iq_external_command_name :: "string option"
  iq_external_project_id :: "string option"
  iq_external_thread_id :: "string option"
  iq_external_connector_name :: "string option"
  iq_work_order_id :: "string option"
  iq_fields_set :: "string list"

text \<open>What leaves \<open>execute_invoke\<close> as an exception: an HTTP error by status and code, or an error of a part.\<close>

datatype invoke_error =
    HTTPException int string
  | DeadlineRaised string
  | ManifestRaised manifest_error
  | StoreRaised bus_error
  | OrderRaised wo_error
  | GuardRaised fs_error

section \<open>Checks and conversions\<close>

definition validate_invoke_version :: "string \<Rightarrow> invoke_error option" where
  "validate_invoke_version version =
     (if version \<noteq> INVOKE_VERSION then Some (HTTPException 400 ''unsupported_invoke_version'') else None)"

definition validate_actor_claim :: "string \<Rightarrow> string option \<Rightarrow> string \<Rightarrow> invoke_error option" where
  "validate_actor_claim actor_id delegated_by auth_subject =
     (if actor_id = auth_subject then None
      else if delegated_by \<noteq> None \<and> delegated_by \<noteq> Some [] \<and> delegated_by = Some auth_subject then None
      else Some (HTTPException 403 ''actor_claim_not_permitted''))"

definition opt_text :: "string option \<Rightarrow> string" where
  "opt_text raw = (case raw of None \<Rightarrow> [] | Some s \<Rightarrow> s)"

definition optional_text :: "string option \<Rightarrow> string option" where
  "optional_text raw = or_none (strip (opt_text raw))"

definition events_url :: "string \<Rightarrow> string" where
  "events_url run_id = ''/api/guardian/commands/runs/'' @ run_id @ ''/events?after_seq=0''"

definition response_from_existing_run :: "run_dict \<Rightarrow> string \<Rightarrow> pydict" where
  "response_from_existing_run run fallback_invoke_version =
     (let status = (if rn_status run = [] then ''queued'' else rn_status run) in
      [(''run_id'', PStr (rn_run_id run)), (''status'', PStr status),
       (''invoke_version'', PStr (if rn_invoke_version run = [] then fallback_invoke_version else rn_invoke_version run)),
       (''manifest_version'', PStr MANIFEST_VERSION), (''events_url'', PStr (events_url (rn_run_id run))),
       (''policy_warnings'', PList [])]
      @ (case rn_result_json run of Some r \<Rightarrow> if status = ''completed'' then [(''inline_result'', PDict r)] else [] | None \<Rightarrow> [])
      @ (case rn_error_text run of Some e \<Rightarrow> [(''error'', PStr e)] | None \<Rightarrow> []))"

definition validate_existing_run_replay ::
    "run_dict \<Rightarrow> string \<Rightarrow> string option \<Rightarrow> string \<Rightarrow> string \<Rightarrow> invoke_error option" where
  "validate_existing_run_replay run command_id idempotency_key auth_subject args_hash =
     (if rn_auth_subject run \<noteq> auth_subject then Some (HTTPException 403 ''idempotency_key_not_permitted'')
      else if rn_command_id run \<noteq> command_id \<or> rn_idempotency_key run \<noteq> idempotency_key \<or> rn_args_hash run \<noteq> args_hash
      then Some (HTTPException 409 ''command_bus_idempotency_conflict'') else None)"

text \<open>\<open>^wo_[a-f0-9]{16}$\<close>.\<close>

definition is_valid_work_order_id_format :: "string \<Rightarrow> bool" where
  "is_valid_work_order_id_format work_order_id =
     (let s = strip work_order_id in
      take 3 s = ''wo_'' \<and> length s = 19 \<and>
      list_all (\<lambda>c. is_digit c \<or> c \<in> {CHR ''a'', CHR ''b'', CHR ''c'', CHR ''d'', CHR ''e'', CHR ''f''}) (drop 3 s))"

definition derive_command_class :: "CommandSpec \<Rightarrow> InvokePermissionProfile \<Rightarrow> string" where
  "derive_command_class command profile_payload =
     (case optional_text (pp_request_command_class profile_payload) of
        Some explicit \<Rightarrow> explicit
      | None \<Rightarrow>
        (case optional_text (Some (sp_effect command)) of
           Some effect \<Rightarrow> if effect \<in> {''read'', ''write''} then effect
             else if upper (sp_method command) \<in> {''GET'', ''HEAD''} then ''read'' else ''write''
         | None \<Rightarrow> if upper (sp_method command) \<in> {''GET'', ''HEAD''} then ''read'' else ''write''))"

definition build_permission_profile :: "InvokePermissionProfile \<Rightarrow> PermissionProfile" where
  "build_permission_profile p =
     \<lparr>pf_profile_id = pp_profile_id p, pf_actor_id = pp_actor_id p, pf_subject_id = pp_subject_id p, pf_task_id = pp_task_id p,
      pf_project_id = pp_project_id p, pf_thread_id = pp_thread_id p,
      pf_allowed_command_classes = pp_allowed_command_classes p, pf_denied_command_classes = pp_denied_command_classes p,
      pf_allowed_command_ids = pp_allowed_command_ids p, pf_denied_command_ids = pp_denied_command_ids p,
      pf_filesystem_access = pp_filesystem_access p, pf_allowed_write_roots = pp_allowed_write_roots p,
      pf_shell_allowed = pp_shell_allowed p, pf_shell_read_only = pp_shell_read_only p,
      pf_allowed_shell_commands = pp_allowed_shell_commands p, pf_network_allowed = pp_network_allowed p,
      pf_connector_allowed = pp_connector_allowed p\<rparr>"

definition or_else :: "string option \<Rightarrow> string option \<Rightarrow> string option" where
  "or_else a b = (case a of None \<Rightarrow> b | Some v \<Rightarrow> Some v)"

definition build_permission_profile_request ::
    "InvokeRequest \<Rightarrow> InvokePermissionProfile \<Rightarrow> CommandSpec \<Rightarrow> string \<Rightarrow> string \<Rightarrow> PermissionProfileRequest" where
  "build_permission_profile_request payload p command auth_subject fallback_task_id =
     \<lparr>rq_actor_id = ac_id (iq_actor payload), rq_subject_id = auth_subject,
      rq_task_id = the (or_else (or_else (optional_text (pp_request_task_id p)) (optional_text (iq_idempotency_key payload)))
        (Some fallback_task_id)),
      rq_command_id = sp_command_id command, rq_command_class = derive_command_class command p,
      rq_project_id = optional_text (pp_request_project_id p), rq_thread_id = optional_text (pp_request_thread_id p),
      rq_requested_write_paths = pp_requested_write_paths p, rq_uses_shell = pp_uses_shell p,
      rq_shell_command = pp_shell_command p, rq_shell_mutates = pp_shell_mutates p,
      rq_uses_network = pp_uses_network p, rq_uses_connector = pp_uses_connector p\<rparr>"

definition EXTERNAL_POLICY_TRIGGER_FIELDS :: "string list" where
  "EXTERNAL_POLICY_TRIGGER_FIELDS = [''external_transport'', ''external_target_url'', ''external_policy_rules'',
     ''external_command_namespace'', ''external_command_name'', ''external_connector_name'']"

definition external_policy_is_triggered :: "InvokeRequest \<Rightarrow> bool" where
  "external_policy_is_triggered payload =
     list_ex (\<lambda>field_name. field_name \<in> set (iq_fields_set payload)) EXTERNAL_POLICY_TRIGGER_FIELDS"

definition command_tuple :: "string option \<Rightarrow> string option \<Rightarrow> CommandTuple option" where
  "command_tuple namespace name =
     (case (optional_text namespace, optional_text name) of
        (Some ns, Some n) \<Rightarrow> Some \<lparr>ct_namespace = ns, ct_name = n\<rparr>
      | _ \<Rightarrow> None)"

definition build_external_policy_rules :: "InvokeExternalPolicyRule list \<Rightarrow> ExternalPolicyRule list" where
  "build_external_policy_rules policy_rules =
     map (\<lambda>rule. \<lparr>rl_effect = er_effect rule, rl_connector_name = er_connector_name rule, rl_transport = er_transport rule,
       rl_command = command_tuple (er_command_namespace rule) (er_command_name rule),
       rl_url_host_pattern = er_url_host_pattern rule, rl_url_scheme = er_url_scheme rule,
       rl_project_id = er_project_id rule, rl_thread_id = er_thread_id rule, rl_reason = er_reason rule\<rparr>) policy_rules"

definition build_external_policy_request :: "InvokeRequest \<Rightarrow> string \<Rightarrow> ExternalPolicyRequest" where
  "build_external_policy_request payload auth_subject =
     \<lparr>xr_actor_id = ac_id (iq_actor payload), xr_subject_id = auth_subject,
      xr_connector_name = opt_text (optional_text (iq_external_connector_name payload)),
      xr_transport = opt_text (iq_external_transport payload),
      xr_command = command_tuple (iq_external_command_namespace payload) (iq_external_command_name payload),
      xr_target_url = iq_external_target_url payload, xr_project_id = optional_text (iq_external_project_id payload),
      xr_thread_id = optional_text (iq_external_thread_id payload)\<rparr>"

text \<open>\<open>model_dump(mode="json")\<close> of the arguments and of a command.\<close>

definition args_dict :: "InvokeArguments \<Rightarrow> pydict" where
  "args_dict a = [(''path_params'', PDict (ar_path_params a)), (''query'', PDict (ar_query a)),
     (''headers'', PDict (ar_headers a)), (''body'', ar_body a)]"

definition command_dump :: "CommandSpec \<Rightarrow> pydict" where
  "command_dump c =
     [(''command_id'', PStr (sp_command_id c)), (''aliases'', str_list (sp_aliases c)), (''layer'', PStr (sp_layer c)),
      (''method'', PStr (sp_method c)), (''path_template'', PStr (sp_path_template c)),
      (''operation_id'', opt_str (sp_operation_id c)), (''risk'', PStr (sp_risk c)), (''effect'', PStr (sp_effect c)),
      (''idempotency'', PStr (sp_idempotency c)), (''approval_mode'', PStr (sp_approval_mode c)),
      (''input_schema'', PDict (sp_input_schema c)), (''open_world'', PBool (sp_open_world c)),
      (''justification'', PStr (sp_justification c))]"

section \<open>The invocation\<close>

text \<open>
  What \<open>execute_invoke\<close> changes: the runs and events of the command bus, the work orders, and the world that
  HTTP requests and internal commands act on. \<open>ie_clock\<close> gives the readings of the clock in order.
\<close>

record ('r, 'e, 'o, 'w) bus_state =
  bs_runs :: 'r
  bs_events :: 'e
  bs_orders :: 'o
  bs_world :: 'w

record ('r, 'e, 'o, 'w) invoke_env =
  ie_runs :: "('r, CommandRun) orm"
  ie_events :: "('e, CommandRunEvent) orm"
  ie_orders :: "('o, CodingWorkOrder) orm option"
  ie_environ :: environ
  ie_sha256 :: "string \<Rightarrow> string"
  ie_brackets :: "string \<Rightarrow> string option"
  ie_fs :: filesystem
  ie_cwd :: string
  ie_clock :: "nat \<Rightarrow> pydt"
  ie_run_id :: string
  ie_task_id :: string
  ie_manifest :: "manifest_error + (command_index \<times> CommandSpec list)"
  ie_client :: "'w client"
  ie_internal :: "string \<Rightarrow> InvokeArguments \<Rightarrow> string \<Rightarrow> 'w \<Rightarrow> 'w \<times> (exn + pydict)"
  ie_deadline :: "deadline_clock option"

text \<open>One action after the other; an exception ends the sequence and what was written stays.\<close>

definition and_then :: "('s \<Rightarrow> 's \<times> ('x + 'a)) \<Rightarrow> ('a \<Rightarrow> 's \<Rightarrow> 's \<times> ('x + 'b)) \<Rightarrow> 's \<Rightarrow> 's \<times> ('x + 'b)" where
  "and_then f g s = (case f s of (s', Inl e) \<Rightarrow> (s', Inl e) | (s', Inr x) \<Rightarrow> g x s')"

definition update_action ::
    "('r, 'e, 'o, 'w) invoke_env \<Rightarrow> nat \<Rightarrow> string \<Rightarrow> pydict option \<Rightarrow> string option \<Rightarrow> ('r, 'e, 'o, 'w) bus_state \<Rightarrow>
      ('r, 'e, 'o, 'w) bus_state \<times> (invoke_error + unit)" where
  "update_action env n status result_json error_text s =
     (case db_update_run (ie_runs env) (bs_runs s) (ie_clock env n) (ie_run_id env) status result_json error_text of
        Inl e \<Rightarrow> (s, Inl (StoreRaised e))
      | Inr runs \<Rightarrow> (s\<lparr>bs_runs := runs\<rparr>, Inr ()))"

definition append_action ::
    "('r, 'e, 'o, 'w) invoke_env \<Rightarrow> nat \<Rightarrow> string \<Rightarrow> pydict \<Rightarrow> ('r, 'e, 'o, 'w) bus_state \<Rightarrow>
      ('r, 'e, 'o, 'w) bus_state \<times> (invoke_error + unit)" where
  "append_action env n event_type payload s =
     (case db_append_event (ie_runs env) (bs_runs s) (ie_events env) (bs_events s) (ie_clock env n) (ie_run_id env) event_type payload of
        Inl e \<Rightarrow> (s, Inl (StoreRaised e))
      | Inr (events, _) \<Rightarrow> (s\<lparr>bs_events := events\<rparr>, Inr ()))"

subsection \<open>The decisions before dispatch\<close>

record decisions =
  de_policy :: PolicyOutcome
  de_profile :: "PermissionProfileDecision option"
  de_external :: "ExternalPolicyDecision option"

definition decide :: "('r, 'e, 'o, 'w) invoke_env \<Rightarrow> InvokeRequest \<Rightarrow> string \<Rightarrow> bool \<Rightarrow> CommandSpec \<Rightarrow> invoke_error + decisions" where
  "decide env payload auth_subject confirmation_granted command =
     (let policy = apply_policy_mode (evaluate_tool_policy (command_dump command) (ie_environ env))
            (get_policy_mode (ie_environ env)) confirmation_granted;
          ext = (if external_policy_is_triggered payload
            then Some (evaluate_external_transport_policy (ie_brackets env)
              (build_external_policy_request payload auth_subject)
              (build_external_policy_rules (iq_external_policy_rules payload)))
            else None)
      in case iq_permission_profile payload of
           None \<Rightarrow> Inr \<lparr>de_policy = policy, de_profile = None, de_external = ext\<rparr>
         | Some p \<Rightarrow>
           (case evaluate_permission_profile (ie_fs env) (ie_cwd env) (Some (build_permission_profile p))
               (build_permission_profile_request payload p command auth_subject (ie_task_id env)) of
              Inl e \<Rightarrow> Inl (GuardRaised e)
            | Inr d \<Rightarrow> Inr \<lparr>de_policy = policy, de_profile = Some d, de_external = ext\<rparr>))"

definition pre_dispatch_blocked_reason :: "decisions \<Rightarrow> string option" where
  "pre_dispatch_blocked_reason d =
     (case de_profile d of
        Some p \<Rightarrow> if \<not> dc_allowed p then Some (''permission_profile_denied:'' @ dc_code p)
          else (case de_external d of
                  Some x \<Rightarrow> if \<not> xd_allowed x then Some (''external_transport_policy_denied:'' @ xd_code x) else None
                | None \<Rightarrow> None)
      | None \<Rightarrow> (case de_external d of
                  Some x \<Rightarrow> if \<not> xd_allowed x then Some (''external_transport_policy_denied:'' @ xd_code x) else None
                | None \<Rightarrow> None))"

definition path_blocked_reason :: "CommandSpec \<Rightarrow> InvokeArguments \<Rightarrow> string option" where
  "path_blocked_reason command arguments =
     (case render_path (ar_path_params arguments) (sp_path_template command) of
        Inl e \<Rightarrow> Some (''invalid_path_params: '' @ e)
      | Inr rendered \<Rightarrow> if is_recursion_blocked rendered then Some ''recursion_guard_blocked'' else None)"

definition policy_blocked_reason :: "PolicyOutcome \<Rightarrow> string option" where
  "policy_blocked_reason policy =
     (if po_blocked policy
      then Some (''policy_'' @ decision_text (po_decision policy) @ '':'' @
        join_with '','' (if po_reason_codes policy = [] then [decision_text (po_decision policy)] else po_reason_codes policy))
      else None)"

definition write_blocked_reason :: "CommandSpec \<Rightarrow> bool \<Rightarrow> string option" where
  "write_blocked_reason command allow_write_execution =
     (if \<not> (sp_effect command = ''read'' \<and> sp_method command \<in> {''GET'', ''HEAD''}) \<and>
         \<not> (allow_write_execution \<and> sp_effect command = ''write'')
      then Some ''phase1_write_blocked'' else None)"

definition is_internal :: "CommandSpec \<Rightarrow> bool" where
  "is_internal command = (sp_layer command = ''internal'')"

definition blocked_reason :: "decisions \<Rightarrow> CommandSpec \<Rightarrow> InvokeArguments \<Rightarrow> bool \<Rightarrow> string option" where
  "blocked_reason d command arguments allow_write_execution =
     (let r1 = pre_dispatch_blocked_reason d;
          r2 = (if r1 = None \<and> \<not> is_internal command then path_blocked_reason command arguments else r1);
          r3 = (if r2 = None then policy_blocked_reason (de_policy d) else r2)
      in if r3 = None \<and> \<not> is_internal command then write_blocked_reason command allow_write_execution else r3)"

subsection \<open>Payloads and responses\<close>

definition dicts :: "pydict list \<Rightarrow> pyval" where
  "dicts ds = PList (map PDict ds)"

definition policy_dict :: "PolicyOutcome \<Rightarrow> pydict" where
  "policy_dict p = [(''mode'', PStr (mode_text (po_mode p))), (''decision'', PStr (decision_text (po_decision p))),
     (''reason_codes'', str_list (po_reason_codes p))]"

definition decision_dicts :: "decisions \<Rightarrow> pydict" where
  "decision_dicts d =
     (case de_profile d of None \<Rightarrow> [] | Some p \<Rightarrow> [(''permission_profile'', PDict [(''code'', PStr (dc_code p)),
        (''reason'', PStr (dc_reason p)), (''blocked_before_dispatch'', PBool (\<not> dc_allowed p))])]) @
     (case de_external d of None \<Rightarrow> [] | Some x \<Rightarrow> [(''external_transport_policy'', PDict [(''code'', PStr (xd_code x)),
        (''reason'', PStr (xd_reason x)), (''blocked_before_dispatch'', PBool (\<not> xd_allowed x))])])"

definition created_payload :: "InvokeRequest \<Rightarrow> CommandSpec \<Rightarrow> decisions \<Rightarrow> pydict" where
  "created_payload payload command d =
     [(''command_id'', PStr (sp_command_id command)), (''status'', PStr ''queued''),
      (''provenance_json'', PDict (iq_provenance_json payload)),
      (''policy'', PDict (policy_dict (de_policy d) @ [(''warnings'', dicts (po_warnings (de_policy d)))]))] @ decision_dicts d"

definition blocked_payload :: "InvokeRequest \<Rightarrow> decisions \<Rightarrow> string \<Rightarrow> pydict" where
  "blocked_payload payload d reason =
     [(''reason'', PStr reason), (''provenance_json'', PDict (iq_provenance_json payload)),
      (''policy'', PDict (policy_dict (de_policy d)))] @ decision_dicts d"

definition warning_entry :: "PolicyOutcome \<Rightarrow> pydict" where
  "warning_entry p = (case po_warnings p of [] \<Rightarrow> [] | w # _ \<Rightarrow> [(''warning'', PDict w)])"

definition run_response :: "string \<Rightarrow> string \<Rightarrow> InvokeRequest \<Rightarrow> (string \<times> pyval) \<Rightarrow> PolicyOutcome \<Rightarrow> pydict" where
  "run_response run_id status payload entry policy =
     [(''run_id'', PStr run_id), (''status'', PStr status), (''invoke_version'', PStr (iq_invoke_version payload)),
      (''manifest_version'', PStr MANIFEST_VERSION), (''events_url'', PStr (events_url run_id)), entry,
      (''policy_warnings'', dicts (po_warnings policy))]"

subsection \<open>Ending a run\<close>

definition finish_blocked ::
    "('r, 'e, 'o, 'w) invoke_env \<Rightarrow> InvokeRequest \<Rightarrow> decisions \<Rightarrow> string \<Rightarrow> ('r, 'e, 'o, 'w) bus_state \<Rightarrow>
      ('r, 'e, 'o, 'w) bus_state \<times> (invoke_error + pydict)" where
  "finish_blocked env payload d reason =
     and_then (update_action env 3 ''blocked'' None (Some reason)) (\<lambda>_.
     and_then (append_action env 4 ''run.blocked'' (blocked_payload payload d reason)) (\<lambda>_ s.
       (s, Inr (run_response (ie_run_id env) ''blocked'' payload (''error'', PStr reason) (de_policy d) @ decision_dicts d @
         warning_entry (de_policy d)))))"

definition finish_stopped ::
    "('r, 'e, 'o, 'w) invoke_env \<Rightarrow> InvokeRequest \<Rightarrow> decisions \<Rightarrow> string \<Rightarrow> ('r, 'e, 'o, 'w) bus_state \<Rightarrow>
      ('r, 'e, 'o, 'w) bus_state \<times> (invoke_error + pydict)" where
  "finish_stopped env payload d reason =
     and_then (update_action env 5 ''blocked'' None (Some reason)) (\<lambda>_.
     and_then (append_action env 6 ''run.blocked''
       [(''reason'', PStr reason), (''provenance_json'', PDict (iq_provenance_json payload))]) (\<lambda>_ s.
       (s, Inr (run_response (ie_run_id env) ''blocked'' payload (''error'', PStr reason) (de_policy d) @ warning_entry (de_policy d)))))"

definition finish_failed ::
    "('r, 'e, 'o, 'w) invoke_env \<Rightarrow> InvokeRequest \<Rightarrow> decisions \<Rightarrow> exn \<Rightarrow> bool \<Rightarrow> ('r, 'e, 'o, 'w) bus_state \<Rightarrow>
      ('r, 'e, 'o, 'w) bus_state \<times> (invoke_error + pydict)" where
  "finish_failed env payload d x reraise =
     and_then (update_action env 5 ''failed'' None (Some (ex_text x))) (\<lambda>_.
     and_then (append_action env 6 ''run.failed''
       [(''error'', PStr (ex_text x)), (''provenance_json'', PDict (iq_provenance_json payload))]) (\<lambda>_ s.
       if reraise then (s, Inl (DeadlineRaised (ex_text x)))
       else (s, Inr (run_response (ie_run_id env) ''failed'' payload (''error'', PStr (ex_text x)) (de_policy d) @ warning_entry (de_policy d)))))"

definition finish_completed ::
    "('r, 'e, 'o, 'w) invoke_env \<Rightarrow> InvokeRequest \<Rightarrow> decisions \<Rightarrow> string \<times> string \<Rightarrow> pydict \<Rightarrow> ('r, 'e, 'o, 'w) bus_state \<Rightarrow>
      ('r, 'e, 'o, 'w) bus_state \<times> (invoke_error + pydict)" where
  "finish_completed env payload d entry execution_result =
     and_then (update_action env 5 ''completed'' (Some execution_result) None) (\<lambda>_.
     and_then (append_action env 6 ''run.completed''
       [(fst entry, dict_get execution_result (snd entry)), (''provenance_json'', PDict (iq_provenance_json payload))]) (\<lambda>_ s.
       (s, Inr (run_response (ie_run_id env) ''completed'' payload (''inline_result'', PDict execution_result) (de_policy d)))))"

definition is_policy_or_guard_block :: "string \<Rightarrow> bool" where
  "is_policy_or_guard_block error_text =
     (starts_with ''policy_blocked:'' error_text \<or> error_text = ''recursion_guard_blocked'' \<or>
      contains ''GUARDIAN_COMMAND_BUS_LOOPBACK_BASE'' error_text \<or> contains ''GUARDIAN_API_BASE'' error_text)"

definition run_internal ::
    "('r, 'e, 'o, 'w) invoke_env \<Rightarrow> InvokeRequest \<Rightarrow> string \<Rightarrow> CommandSpec \<Rightarrow> decisions \<Rightarrow> ('r, 'e, 'o, 'w) bus_state \<Rightarrow>
      ('r, 'e, 'o, 'w) bus_state \<times> (invoke_error + pydict)" where
  "run_internal env payload auth_subject command d s =
     (case ie_internal env (sp_command_id command) (iq_arguments payload) auth_subject (bs_world s) of
        (w, Inl x) \<Rightarrow> finish_failed env payload d x False (s\<lparr>bs_world := w\<rparr>)
      | (w, Inr result) \<Rightarrow> finish_completed env payload d (''result'', ''result'') result (s\<lparr>bs_world := w\<rparr>))"

definition loopback_context :: "environ \<Rightarrow> CommandSpec \<Rightarrow> bool \<Rightarrow> policy_context" where
  "loopback_context environ command confirmation_granted =
     \<lparr>pc_effect = sp_effect command, pc_risk = sp_risk command, pc_approval_mode = sp_approval_mode command,
      pc_requires_confirmation = (sp_approval_mode command \<noteq> ''none''), pc_policy_mode = get_policy_mode environ,
      pc_confirmation_granted = confirmation_granted\<rparr>"

definition run_loopback ::
    "('r, 'e, 'o, 'w) invoke_env \<Rightarrow> InvokeRequest \<Rightarrow> (string \<times> string) list \<Rightarrow> bool \<Rightarrow> CommandSpec \<Rightarrow> decisions \<Rightarrow>
      ('r, 'e, 'o, 'w) bus_state \<Rightarrow> ('r, 'e, 'o, 'w) bus_state \<times> (invoke_error + pydict)" where
  "run_loopback env payload inbound_headers confirmation_granted command d s =
     (let a = iq_arguments payload in
      case execute_loopback_request (ie_environ env) (ie_brackets env) (ie_client env) (ie_deadline env) (sp_method command)
          (sp_path_template command) (ar_path_params a) (ar_query a) (ar_headers a) (ar_body a) inbound_headers
          (loopback_context (ie_environ env) command confirmation_granted) (bs_world s) of
        (w, Inl x) \<Rightarrow>
          if is_policy_or_guard_block (ex_text x) then finish_stopped env payload d (ex_text x) (s\<lparr>bs_world := w\<rparr>)
          else finish_failed env payload d x (ex_deadline x) (s\<lparr>bs_world := w\<rparr>)
      | (w, Inr result) \<Rightarrow> finish_completed env payload d (''status_code'', ''status_code'') result (s\<lparr>bs_world := w\<rparr>))"

subsection \<open>Creating the run\<close>

definition work_order_of :: "InvokeRequest \<Rightarrow> string option" where
  "work_order_of payload = or_none (strip (opt_text (iq_work_order_id payload)))"

definition validate_work_order :: "('r, 'e, 'o, 'w) invoke_env \<Rightarrow> string option \<Rightarrow> ('r, 'e, 'o, 'w) bus_state \<Rightarrow> invoke_error option" where
  "validate_work_order env wo_id s =
     (case wo_id of
        None \<Rightarrow> None
      | Some wo \<Rightarrow>
        if \<not> is_valid_work_order_id_format wo then Some (HTTPException 422 ''work_order_id_malformed'')
        else (case ie_orders env of
                None \<Rightarrow> Some (HTTPException 400 ''work_order_linkage_unavailable'')
              | Some api \<Rightarrow>
                (case get_work_order api (bs_orders s) wo of
                   None \<Rightarrow> Some (HTTPException 404 ''work_order_not_found'')
                 | Some _ \<Rightarrow> None)))"

definition run_args :: "InvokeRequest \<Rightarrow> string \<Rightarrow> CommandSpec \<Rightarrow> string option \<Rightarrow> string \<Rightarrow> new_run_args" where
  "run_args payload auth_subject command idempotency_key args_hash =
     \<lparr>nr_command_id = sp_command_id command, nr_status = ''queued'', nr_actor_kind = ac_kind (iq_actor payload),
      nr_actor_id = ac_id (iq_actor payload), nr_actor_session_id = ac_session_id (iq_actor payload),
      nr_delegated_by = ac_delegated_by (iq_actor payload), nr_auth_subject = auth_subject,
      nr_invoke_version = iq_invoke_version payload, nr_idempotency_key = idempotency_key, nr_args_hash = args_hash,
      nr_args_redacted = (case redact_arguments (sp_command_id command) (PDict (args_dict (iq_arguments payload))) of
         PDict d \<Rightarrow> d | _ \<Rightarrow> [])\<rparr>"

text \<open>The answer to a request whose key has a run: the run's response, or the refusal to replay it.\<close>

definition replay_existing :: "InvokeRequest \<Rightarrow> string \<Rightarrow> CommandSpec \<Rightarrow> string option \<Rightarrow> string \<Rightarrow> run_dict \<Rightarrow> invoke_error + pydict" where
  "replay_existing payload auth_subject command idempotency_key args_hash existing_run =
     (case validate_existing_run_replay existing_run (sp_command_id command) idempotency_key auth_subject args_hash of
        Some e \<Rightarrow> Inl e
      | None \<Rightarrow> Inr (response_from_existing_run existing_run (iq_invoke_version payload)))"

definition link_order ::
    "('r, 'e, 'o, 'w) invoke_env \<Rightarrow> string option \<Rightarrow> ('r, 'e, 'o, 'w) bus_state \<Rightarrow>
      ('r, 'e, 'o, 'w) bus_state \<times> (invoke_error + unit)" where
  "link_order env wo_id s =
     (case (wo_id, ie_orders env) of
        (Some wo, Some api) \<Rightarrow>
          (case mark_latest_run api (bs_orders s) (ie_clock env 1) wo (Some (ie_run_id env)) None None of
             Inl e \<Rightarrow> (s, Inl (OrderRaised e))
           | Inr (orders, _) \<Rightarrow> (s\<lparr>bs_orders := orders\<rparr>, Inr ()))
      | _ \<Rightarrow> (s, Inr ()))"

definition dispatch_run ::
    "('r, 'e, 'o, 'w) invoke_env \<Rightarrow> InvokeRequest \<Rightarrow> string \<Rightarrow> (string \<times> string) list \<Rightarrow> bool \<Rightarrow> CommandSpec \<Rightarrow> decisions \<Rightarrow>
      ('r, 'e, 'o, 'w) bus_state \<Rightarrow> ('r, 'e, 'o, 'w) bus_state \<times> (invoke_error + pydict)" where
  "dispatch_run env payload auth_subject inbound_headers confirmation_granted command d =
     and_then (update_action env 3 ''running'' None None) (\<lambda>_.
     and_then (append_action env 4 ''run.started'' [(''command_id'', PStr (sp_command_id command)), (''status'', PStr ''running''),
         (''provenance_json'', PDict (iq_provenance_json payload))]) (\<lambda>_.
       if is_internal command then run_internal env payload auth_subject command d
       else run_loopback env payload inbound_headers confirmation_granted command d))"

definition execute_run ::
    "('r, 'e, 'o, 'w) invoke_env \<Rightarrow> InvokeRequest \<Rightarrow> string \<Rightarrow> (string \<times> string) list \<Rightarrow> bool \<Rightarrow> bool \<Rightarrow> CommandSpec \<Rightarrow> decisions \<Rightarrow>
      ('r, 'e, 'o, 'w) bus_state \<Rightarrow> ('r, 'e, 'o, 'w) bus_state \<times> (invoke_error + pydict)" where
  "execute_run env payload auth_subject inbound_headers allow_write_execution confirmation_granted command d =
     and_then (link_order env (work_order_of payload)) (\<lambda>_.
     and_then (append_action env 2 ''run.created'' (created_payload payload command d)) (\<lambda>_.
       case blocked_reason d command (iq_arguments payload) allow_write_execution of
         Some reason \<Rightarrow> finish_blocked env payload d reason
       | None \<Rightarrow> dispatch_run env payload auth_subject inbound_headers confirmation_granted command d))"

definition start_run ::
    "('r, 'e, 'o, 'w) invoke_env \<Rightarrow> InvokeRequest \<Rightarrow> string \<Rightarrow> (string \<times> string) list \<Rightarrow> bool \<Rightarrow> bool \<Rightarrow> CommandSpec \<Rightarrow> string option \<Rightarrow>
      string \<Rightarrow> decisions \<Rightarrow> ('r, 'e, 'o, 'w) bus_state \<Rightarrow> ('r, 'e, 'o, 'w) bus_state \<times> (invoke_error + pydict)" where
  "start_run env payload auth_subject inbound_headers allow_write_execution confirmation_granted command idempotency_key args_hash d s =
     (case validate_work_order env (work_order_of payload) s of
        Some e \<Rightarrow> (s, Inl e)
      | None \<Rightarrow>
        (case db_create_run (ie_runs env) (bs_runs s) (ie_clock env 0) (ie_run_id env)
            (run_args payload auth_subject command idempotency_key args_hash) of
           Inl (IdempotencyConflictError existing_run) \<Rightarrow>
             (s, replay_existing payload auth_subject command idempotency_key args_hash existing_run)
         | Inl e \<Rightarrow> (s, Inl (StoreRaised e))
         | Inr (runs, _) \<Rightarrow>
             execute_run env payload auth_subject inbound_headers allow_write_execution confirmation_granted command d
               (s\<lparr>bs_runs := runs\<rparr>)))"

definition key_of :: "InvokeRequest \<Rightarrow> string option" where
  "key_of payload = or_none (strip (opt_text (iq_idempotency_key payload)))"

definition check_request :: "('r, 'e, 'o, 'w) invoke_env \<Rightarrow> InvokeRequest \<Rightarrow> string \<Rightarrow> invoke_error + CommandSpec" where
  "check_request env payload auth_subject =
     (case validate_invoke_version (iq_invoke_version payload) of
        Some e \<Rightarrow> Inl e
      | None \<Rightarrow>
        (case validate_actor_claim (ac_id (iq_actor payload)) (ac_delegated_by (iq_actor payload)) auth_subject of
           Some e \<Rightarrow> Inl e
         | None \<Rightarrow>
           if MAX_PAYLOAD_BYTES < int (utf8_length (canonical_json (PDict (args_dict (iq_arguments payload)))))
           then Inl (HTTPException 413 ''payload_too_large'')
           else (case ie_manifest env of
                   Inl e \<Rightarrow> Inl (ManifestRaised e)
                 | Inr (index, _) \<Rightarrow>
                   (case map_of index (iq_command_id payload) of
                      None \<Rightarrow> Inl (HTTPException 404 ''command_not_found'')
                    | Some command \<Rightarrow> Inr command))))"

definition existing_run_of ::
    "('r, 'e, 'o, 'w) invoke_env \<Rightarrow> string option \<Rightarrow> CommandSpec \<Rightarrow> ('r, 'e, 'o, 'w) bus_state \<Rightarrow> run_dict option" where
  "existing_run_of env idempotency_key command s =
     (case idempotency_key of
        None \<Rightarrow> None
      | Some key \<Rightarrow> db_get_run_by_idempotency_key (ie_runs env) (bs_runs s) (sp_command_id command) key)"

definition execute_invoke ::
    "('r, 'e, 'o, 'w) invoke_env \<Rightarrow> InvokeRequest \<Rightarrow> string \<Rightarrow> (string \<times> string) list \<Rightarrow> string \<Rightarrow> bool \<Rightarrow> bool \<Rightarrow>
      ('r, 'e, 'o, 'w) bus_state \<Rightarrow> ('r, 'e, 'o, 'w) bus_state \<times> (invoke_error + pydict)" where
  "execute_invoke env payload auth_subject inbound_headers execution_lane allow_write confirmation s =
     (let allow_write_execution = (execution_lane = ''tools'' \<and> allow_write);
          confirmation_granted = (execution_lane = ''tools'' \<and> confirmation)
      in case check_request env payload auth_subject of
           Inl e \<Rightarrow> (s, Inl e)
         | Inr command \<Rightarrow>
           (let args_hash = compute_args_hash (ie_sha256 env) (args_dict (iq_arguments payload));
                idempotency_key = key_of payload
            in case existing_run_of env idempotency_key command s of
                 Some existing_run \<Rightarrow> (s, replay_existing payload auth_subject command idempotency_key args_hash existing_run)
               | None \<Rightarrow>
                 (case decide env payload auth_subject confirmation_granted command of
                    Inl e \<Rightarrow> (s, Inl e)
                  | Inr d \<Rightarrow> start_run env payload auth_subject inbound_headers allow_write_execution confirmation_granted
                      command idempotency_key args_hash d s)))"

section \<open>Reasoning about sequences of actions\<close>

text \<open>A precondition, a postcondition for a return, and one for an exception.\<close>

definition triple :: "('s \<Rightarrow> bool) \<Rightarrow> ('s \<Rightarrow> 's \<times> ('x + 'a)) \<Rightarrow> ('a \<Rightarrow> 's \<Rightarrow> bool) \<Rightarrow> ('x \<Rightarrow> 's \<Rightarrow> bool) \<Rightarrow> bool" where
  "triple P f Q E \<longleftrightarrow> (\<forall>s. P s \<longrightarrow> (case f s of (s', Inr x) \<Rightarrow> Q x s' | (s', Inl e) \<Rightarrow> E e s'))"

lemma tripleD_Inr: "triple P f Q E \<Longrightarrow> P s \<Longrightarrow> f s = (s', Inr x) \<Longrightarrow> Q x s'"
  by (auto simp: triple_def)

lemma triple_state: "triple P f (\<lambda>_. Q) (\<lambda>_. Q) \<Longrightarrow> P s \<Longrightarrow> Q (fst (f s))"
  by (cases "f s"; cases "snd (f s)") (auto simp: triple_def)

lemma triple_post: "triple P f Q E \<Longrightarrow> (\<And>x s. Q x s \<Longrightarrow> R x s) \<Longrightarrow> triple P f R E"
  unfolding triple_def by (metis (mono_tags, lifting) old.prod.case old.prod.exhaust old.sum.exhaust sum.case)

lemma triple_and_then:
  assumes "triple P f Q E" "\<And>x. triple (Q x) (g x) R E"
  shows "triple P (and_then f g) R E"
  unfolding triple_def
proof (intro allI impI)
  fix s assume P: "P s"
  obtain s' r where f: "f s = (s', r)" by fastforce
  show "case and_then f g s of (s', Inr x) \<Rightarrow> R x s' | (s', Inl e) \<Rightarrow> E e s'"
  proof (cases r)
    case (Inl e)
    with P f assms(1) show ?thesis by (auto simp: triple_def and_then_def)
  next
    case (Inr x)
    with P f assms(1) have "Q x s'" by (auto simp: triple_def)
    with assms(2) [of x] f Inr show ?thesis by (simp add: triple_def and_then_def)
  qed
qed

lemma triple_return: "(\<And>s. P s \<Longrightarrow> Q x s) \<Longrightarrow> triple P (\<lambda>s. (s, Inr x)) Q E"
  by (simp add: triple_def)

lemma triple_raise: "(\<And>s. P s \<Longrightarrow> E e s) \<Longrightarrow> triple P (\<lambda>s. (s, Inl e)) Q E"
  by (simp add: triple_def)

lemma triple_if: "(b \<Longrightarrow> triple P f Q E) \<Longrightarrow> (\<not> b \<Longrightarrow> triple P g Q E) \<Longrightarrow> triple P (if b then f else g) Q E"
  by simp

lemma triple_if_state:
  "(b \<Longrightarrow> triple P f Q E) \<Longrightarrow> (\<not> b \<Longrightarrow> triple P g Q E) \<Longrightarrow> triple P (\<lambda>s. if b then f s else g s) Q E"
  by (cases b) (simp_all add: triple_def)

section \<open>What is executed\<close>

text \<open>Only the client and the internal commands change the world.\<close>

abbreviation in_world :: "'w \<Rightarrow> ('r, 'e, 'o, 'w) bus_state \<Rightarrow> bool" where
  "in_world w s \<equiv> bs_world s = w"

lemma action_world:
  "triple (in_world w) (update_action env n status res err) (\<lambda>_. in_world w) (\<lambda>_. in_world w)"
  "triple (in_world w) (append_action env n event_type payload) (\<lambda>_. in_world w) (\<lambda>_. in_world w)"
  "triple (in_world w) (link_order env wo_id) (\<lambda>_. in_world w) (\<lambda>_. in_world w)"
  by (auto simp: triple_def update_action_def append_action_def link_order_def split: sum.splits prod.splits option.splits)

lemmas world_rules = triple_and_then [OF action_world(1)] triple_and_then [OF action_world(2)]
  triple_and_then [OF action_world(3)] triple_return triple_raise triple_if_state

lemma finish_world:
  "triple (in_world w) (finish_blocked env payload d reason) (\<lambda>_. in_world w) (\<lambda>_. in_world w)"
  "triple (in_world w) (finish_stopped env payload d reason) (\<lambda>_. in_world w) (\<lambda>_. in_world w)"
  "triple (in_world w) (finish_failed env payload d x reraise) (\<lambda>_. in_world w) (\<lambda>_. in_world w)"
  "triple (in_world w) (finish_completed env payload d entry result) (\<lambda>_. in_world w) (\<lambda>_. in_world w)"
  by (unfold finish_blocked_def finish_stopped_def finish_failed_def finish_completed_def; intro world_rules; assumption?)+

lemma run_loopback_world:
  assumes "\<not> loopback_cleared (ie_environ env) (ie_brackets env) (sp_method command) (sp_path_template command)
    (ar_path_params (iq_arguments payload)) (loopback_context (ie_environ env) command confirmed)"
  shows "triple (in_world w) (run_loopback env payload inbound confirmed command d) (\<lambda>_. in_world w) (\<lambda>_. in_world w)"
  unfolding triple_def
proof (intro allI impI)
  fix s :: "('a, 'b, 'c, 'd) bus_state" assume s: "bs_world s = w"
  let ?a = "iq_arguments payload"
  let ?x = "execute_loopback_request (ie_environ env) (ie_brackets env) (ie_client env) (ie_deadline env) (sp_method command)
      (sp_path_template command) (ar_path_params ?a) (ar_query ?a) (ar_headers ?a) (ar_body ?a) inbound
      (loopback_context (ie_environ env) command confirmed) (bs_world s)"
  have w: "fst ?x = w" using execute_loopback_uncleared [OF assms] s by simp
  then have "in_world w (s\<lparr>bs_world := fst ?x\<rparr>)" by simp
  then show "case run_loopback env payload inbound confirmed command d s of (s', Inr x) \<Rightarrow> in_world w s' | (s', Inl e) \<Rightarrow> in_world w s'"
    using finish_world(2-4) [of w env payload d]
    by (cases ?x; cases "snd ?x") (auto simp: run_loopback_def Let_def triple_def)
qed

definition may_dispatch :: "('r, 'e, 'o, 'w) invoke_env \<Rightarrow> InvokeRequest \<Rightarrow> bool \<Rightarrow> bool \<Rightarrow> CommandSpec \<Rightarrow> decisions \<Rightarrow> bool" where
  "may_dispatch env payload allow_write confirmed command d =
     (blocked_reason d command (iq_arguments payload) allow_write = None \<and>
      (is_internal command \<or>
       loopback_cleared (ie_environ env) (ie_brackets env) (sp_method command) (sp_path_template command)
         (ar_path_params (iq_arguments payload)) (loopback_context (ie_environ env) command confirmed)))"

lemma execute_run_world:
  assumes "\<not> may_dispatch env payload allow_write confirmed command d"
  shows "triple (in_world w) (execute_run env payload auth_subject inbound allow_write confirmed command d)
    (\<lambda>_. in_world w) (\<lambda>_. in_world w)"
proof -
  have "triple (in_world w) (dispatch_run env payload auth_subject inbound confirmed command d) (\<lambda>_. in_world w) (\<lambda>_. in_world w)"
    if "blocked_reason d command (iq_arguments payload) allow_write = None"
    using assms that run_loopback_world unfolding dispatch_run_def may_dispatch_def
    by (intro world_rules triple_if) auto
  then show ?thesis
    unfolding execute_run_def
    by (intro world_rules) (auto intro: finish_world split: option.splits)
qed

lemma start_run_world:
  assumes "bs_world (fst (start_run env payload auth_subject inbound allow_write confirmed command key hash d s)) \<noteq> bs_world s"
  shows "validate_work_order env (work_order_of payload) s = None \<and> may_dispatch env payload allow_write confirmed command d"
proof (rule ccontr)
  assume no: "\<not> ?thesis"
  let ?run = "start_run env payload auth_subject inbound allow_write confirmed command key hash d s"
  have "triple (in_world (bs_world s)) (execute_run env payload auth_subject inbound allow_write confirmed command d)
      (\<lambda>_. in_world (bs_world s)) (\<lambda>_. in_world (bs_world s))" if "validate_work_order env (work_order_of payload) s = None"
    using no that by (intro execute_run_world) simp
  then have same: "bs_world (fst (execute_run env payload auth_subject inbound allow_write confirmed command d (s\<lparr>bs_runs := runs\<rparr>))) = bs_world s"
    if "validate_work_order env (work_order_of payload) s = None" for runs
    using triple_state [of "in_world (bs_world s)" "execute_run env payload auth_subject inbound allow_write confirmed command d"
        "in_world (bs_world s)" "s\<lparr>bs_runs := runs\<rparr>"] that by simp
  then have "bs_world (fst ?run) = bs_world s"
    by (auto simp: start_run_def split: option.splits sum.splits bus_error.splits)
  with assms show False by simp
qed

lemma existing_run_of_None:
  "existing_run_of env k command s = None \<longleftrightarrow>
     (\<forall>key. k = Some key \<longrightarrow> db_get_run_by_idempotency_key (ie_runs env) (bs_runs s) (sp_command_id command) key = None)"
  by (cases k) (simp_all add: existing_run_of_def)

lemma execute_invoke_world:
  assumes "bs_world (fst (execute_invoke env payload auth_subject inbound lane allow confirm s)) \<noteq> bs_world s"
  obtains command d where "check_request env payload auth_subject = Inr command"
    "\<forall>key. key_of payload = Some key \<longrightarrow> db_get_run_by_idempotency_key (ie_runs env) (bs_runs s) (sp_command_id command) key = None"
    "decide env payload auth_subject (lane = ''tools'' \<and> confirm) command = Inr d"
    "validate_work_order env (work_order_of payload) s = None"
    "may_dispatch env payload (lane = ''tools'' \<and> allow) (lane = ''tools'' \<and> confirm) command d"
proof -
  obtain command where c: "check_request env payload auth_subject = Inr command"
    using assms by (cases "check_request env payload auth_subject") (simp_all add: execute_invoke_def Let_def)
  let ?old = "existing_run_of env (key_of payload) command s"
  have old: "?old = None" using assms by (cases ?old) (simp_all add: execute_invoke_def Let_def c)
  obtain d where d: "decide env payload auth_subject (lane = ''tools'' \<and> confirm) command = Inr d"
    using assms by (cases "decide env payload auth_subject (lane = ''tools'' \<and> confirm) command")
      (simp_all add: execute_invoke_def Let_def c old)
  have "validate_work_order env (work_order_of payload) s = None \<and>
      may_dispatch env payload (lane = ''tools'' \<and> allow) (lane = ''tools'' \<and> confirm) command d"
    using assms by (intro start_run_world [of env payload auth_subject inbound]) (simp add: execute_invoke_def Let_def c old d)
  with c old d that show thesis by (simp add: existing_run_of_None)
qed

lemma decide_Inr:
  assumes "decide env payload auth_subject confirmed command = Inr d"
  shows "de_policy d = apply_policy_mode (evaluate_tool_policy (command_dump command) (ie_environ env))
      (get_policy_mode (ie_environ env)) confirmed"
    and "iq_permission_profile payload = Some p \<Longrightarrow>
      evaluate_permission_profile (ie_fs env) (ie_cwd env) (Some (build_permission_profile p))
        (build_permission_profile_request payload p command auth_subject (ie_task_id env)) = Inr (the (de_profile d)) \<and> de_profile d \<noteq> None"
    and "external_policy_is_triggered payload \<Longrightarrow>
      de_external d = Some (evaluate_external_transport_policy (ie_brackets env)
        (build_external_policy_request payload auth_subject) (build_external_policy_rules (iq_external_policy_rules payload)))"
  using assms by (auto simp: decide_def Let_def split: option.splits sum.splits)

lemma pre_dispatch_None:
  "pre_dispatch_blocked_reason d = None \<longleftrightarrow>
     (\<forall>p. de_profile d = Some p \<longrightarrow> dc_allowed p) \<and> (\<forall>x. de_external d = Some x \<longrightarrow> xd_allowed x)"
  by (auto simp: pre_dispatch_blocked_reason_def split: option.splits)

lemma blocked_reason_None:
  assumes "blocked_reason d command arguments allow_write = None"
  shows "pre_dispatch_blocked_reason d = None" "\<not> po_blocked (de_policy d)"
    "\<not> is_internal command \<Longrightarrow> path_blocked_reason command arguments = None"
    "\<not> is_internal command \<Longrightarrow> (sp_effect command = ''read'' \<and> sp_method command \<in> {''GET'', ''HEAD''}) \<or>
       (allow_write \<and> sp_effect command = ''write'')"
  using assms
  by (auto simp: blocked_reason_def Let_def policy_blocked_reason_def write_blocked_reason_def split: if_splits)

lemma check_request_Inr:
  assumes "check_request env payload auth_subject = Inr command"
  shows "iq_invoke_version payload = INVOKE_VERSION"
    "ac_id (iq_actor payload) = auth_subject \<or> ac_delegated_by (iq_actor payload) = Some auth_subject"
    "int (utf8_length (canonical_json (PDict (args_dict (iq_arguments payload))))) \<le> MAX_PAYLOAD_BYTES"
    "\<exists>index commands. ie_manifest env = Inr (index, commands) \<and> map_of index (iq_command_id payload) = Some command"
  using assms
  by (auto simp: check_request_def validate_invoke_version_def validate_actor_claim_def split: option.splits if_splits sum.splits)


section \<open>How a run ends\<close>

text \<open>
  The run of this invocation, in a lawful table: its row is the only one under its command and key, has the
  caller and the hash it was created with, and satisfies \<open>Q\<close>.
\<close>

record run_identity =
  id_run :: string
  id_command :: string
  id_key :: "string option"
  id_subject :: string
  id_hash :: string

definition row_of :: "run_identity \<Rightarrow> CommandRun \<Rightarrow> bool" where
  "row_of i r = (cr_run_id r = id_run i \<and> cr_command_id r = id_command i \<and> cr_idempotency_key r = id_key i \<and>
     cr_auth_subject r = id_subject i \<and> cr_args_hash r = id_hash i)"

definition run_ok ::
    "('r, CommandRun) orm \<Rightarrow> ('r \<Rightarrow> bool) \<Rightarrow> run_identity \<Rightarrow> (CommandRun \<Rightarrow> bool) \<Rightarrow> ('r, 'e, 'o, 'w) bus_state \<Rightarrow> bool" where
  "run_ok api rinv i Q s =
     (rinv (bs_runs s) \<and> (\<exists>r \<in> orm_rows api (bs_runs s). row_of i r \<and> Q r) \<and>
      (\<forall>r \<in> orm_rows api (bs_runs s). id_key i \<noteq> None \<and> cr_command_id r = id_command i \<and> cr_idempotency_key r = id_key i \<longrightarrow>
        cr_run_id r = id_run i))"

text \<open>A row that an update ended: its status, an end time, and the result and the error that came with it.\<close>

definition ended_with :: "string \<Rightarrow> pydict option \<Rightarrow> string option \<Rightarrow> CommandRun \<Rightarrow> bool" where
  "ended_with status res err r =
     (cr_status r = status \<and> cr_ended_at r \<noteq> None \<and> (res \<noteq> None \<longrightarrow> cr_result_json r = res) \<and>
      (err \<noteq> None \<longrightarrow> cr_error_text r = err))"

lemma updated_row_of [simp]: "row_of i (updated_row now status res err r) = row_of i r"
  by (simp add: row_of_def updated_row_def Let_def)

lemma updated_row_ended:
  "status \<in> TERMINAL_STATUSES \<Longrightarrow> ended_with status res err (updated_row now status res err r)"
  by (simp add: ended_with_def updated_row_def Let_def)

text \<open>The answer carries the result of a completed run, and the error of any other.\<close>

definition answer_entry :: "string \<Rightarrow> pydict option \<Rightarrow> string option \<Rightarrow> pydict \<Rightarrow> bool" where
  "answer_entry status res err response =
     (if status = ''completed'' then res \<noteq> None \<and> dict_get response ''inline_result'' = PDict (the res)
      else err \<noteq> None \<and> dict_get response ''error'' = PStr (the err))"

text \<open>What an invocation leaves: a run that ended as the response says; on a deadline, a failed run.\<close>

definition left_ended ::
    "('r, CommandRun) orm \<Rightarrow> ('r \<Rightarrow> bool) \<Rightarrow> run_identity \<Rightarrow> pydict \<Rightarrow> ('r, 'e, 'o, 'w) bus_state \<Rightarrow> bool" where
  "left_ended api rinv i response s =
     (\<exists>status \<in> TERMINAL_STATUSES. \<exists>res err.
        dict_get response ''run_id'' = PStr (id_run i) \<and> dict_get response ''status'' = PStr status \<and>
        answer_entry status res err response \<and> run_ok api rinv i (ended_with status res err) s)"

definition left_raised ::
    "('r, CommandRun) orm \<Rightarrow> ('r \<Rightarrow> bool) \<Rightarrow> run_identity \<Rightarrow> invoke_error \<Rightarrow> ('r, 'e, 'o, 'w) bus_state \<Rightarrow> bool" where
  "left_raised api rinv i e s =
     (run_ok api rinv i (\<lambda>_. True) s \<and>
      (\<forall>t. e = DeadlineRaised t \<longrightarrow> run_ok api rinv i (ended_with ''failed'' None (Some t)) s))"

definition identity_of :: "('r, 'e, 'o, 'w) invoke_env \<Rightarrow> InvokeRequest \<Rightarrow> string \<Rightarrow> CommandSpec \<Rightarrow> run_identity" where
  "identity_of env payload auth_subject command =
     \<lparr>id_run = ie_run_id env, id_command = sp_command_id command, id_key = key_of payload, id_subject = auth_subject,
      id_hash = compute_args_hash (ie_sha256 env) (args_dict (iq_arguments payload))\<rparr>"

locale run_table_laws = orm_table api cr_run_id rinv for api :: "('r, CommandRun) orm" and rinv
begin

lemma run_ok_weaken: "run_ok api rinv i Q s \<Longrightarrow> (\<And>r. Q r \<Longrightarrow> R r) \<Longrightarrow> run_ok api rinv i R s"
  by (auto simp: run_ok_def)

lemma run_ok_same_runs: "run_ok api rinv i Q s \<Longrightarrow> bs_runs s' = bs_runs s \<Longrightarrow> run_ok api rinv i Q s'"
  by (simp add: run_ok_def)

lemma run_ok_first:
  assumes "run_ok api rinv i Q s"
  obtains r where "orm_first api (bs_runs s) (\<lambda>r. cr_run_id r = id_run i) = Some r" "row_of i r" "Q r"
proof -
  from assms obtain r where r: "rinv (bs_runs s)" "r \<in> orm_rows api (bs_runs s)" "row_of i r" "Q r"
    by (auto simp: run_ok_def)
  with first_key_eqI [of "bs_runs s" r] that show thesis by (simp add: row_of_def)
qed

lemma run_ok_get:
  assumes "run_ok api rinv i Q s"
  obtains r where "db_get_run api (bs_runs s) (id_run i) = Some (row_to_dict r)" "row_of i r" "Q r"
proof -
  obtain r where "orm_first api (bs_runs s) (\<lambda>r. cr_run_id r = id_run i) = Some r" "row_of i r" "Q r"
    using run_ok_first [OF assms] .
  then show thesis by (intro that [of r]) (simp_all add: db_get_run_def)
qed

lemma run_ok_update:
  assumes "run_ok api rinv i Q s" "db_update_run api (bs_runs s) now (id_run i) status res err = Inr runs"
  shows "run_ok api rinv i (\<lambda>r. \<exists>r0. Q r0 \<and> r = updated_row now status res err r0) (s\<lparr>bs_runs := runs\<rparr>)"
proof -
  obtain r where f: "orm_first api (bs_runs s) (\<lambda>r. cr_run_id r = id_run i) = Some r" and r: "row_of i r" "Q r"
    using run_ok_first [OF assms(1)] .
  have inv: "rinv (bs_runs s)" using assms(1) by (simp add: run_ok_def)
  have mem: "r \<in> orm_rows api (bs_runs s)" using first_Some [OF inv f] by simp
  have c: "orm_commit api (bs_runs s) (updated_row now status res err r) = Inr runs"
    using assms(2) f by (auto simp: db_update_run_def split: sum.splits)
  have id: "cr_run_id r = cr_run_id (updated_row now status res err r)" by simp
  note rows = commit_rows [OF inv mem id c] and inv' = commit_invar [OF inv mem id c]
  have "\<exists>x \<in> orm_rows api runs. row_of i x \<and> (\<exists>r0. Q r0 \<and> x = updated_row now status res err r0)"
    using r by (intro bexI [of _ "updated_row now status res err r"]) (auto simp: rows)
  moreover have "cr_run_id (updated_row now status res err r) = id_run i" using r(1) by (simp add: row_of_def)
  then have "\<forall>x \<in> orm_rows api runs. id_key i \<noteq> None \<and> cr_command_id x = id_command i \<and> cr_idempotency_key x = id_key i \<longrightarrow>
      cr_run_id x = id_run i"
    using assms(1) by (auto simp: rows run_ok_def)
  ultimately show ?thesis using inv' by (simp add: run_ok_def)
qed

lemma action_run_ok:
  assumes "ie_runs env = api" "ie_run_id env = id_run i"
  shows "status \<in> TERMINAL_STATUSES \<Longrightarrow> triple (run_ok api rinv i Q) (update_action env n status res err)
      (\<lambda>_. run_ok api rinv i (ended_with status res err)) (\<lambda>_. run_ok api rinv i Q)"
    and "triple (run_ok api rinv i (\<lambda>_. True)) (update_action env n status res err)
      (\<lambda>_. run_ok api rinv i (\<lambda>_. True)) (\<lambda>_. run_ok api rinv i (\<lambda>_. True))"
    and "triple (run_ok api rinv i Q) (append_action env n event_type payload) (\<lambda>_. run_ok api rinv i Q) (\<lambda>_. run_ok api rinv i Q)"
    and "triple (run_ok api rinv i Q) (link_order env wo_id) (\<lambda>_. run_ok api rinv i Q) (\<lambda>_. run_ok api rinv i Q)"
proof -
  have up: "triple (run_ok api rinv i Q) (update_action env n status res err)
      (\<lambda>_. run_ok api rinv i (\<lambda>r. \<exists>r0. Q r0 \<and> r = updated_row (ie_clock env n) status res err r0)) (\<lambda>_. run_ok api rinv i Q)" for Q
    using assms by (auto simp: triple_def update_action_def run_ok_update split: sum.splits)
  show "triple (run_ok api rinv i Q) (update_action env n status res err)
      (\<lambda>_. run_ok api rinv i (ended_with status res err)) (\<lambda>_. run_ok api rinv i Q)" if "status \<in> TERMINAL_STATUSES"
    using updated_row_ended [OF that] by (intro triple_post [OF up]) (auto elim: run_ok_weaken)
  show "triple (run_ok api rinv i (\<lambda>_. True)) (update_action env n status res err)
      (\<lambda>_. run_ok api rinv i (\<lambda>_. True)) (\<lambda>_. run_ok api rinv i (\<lambda>_. True))"
    by (intro triple_post [OF up]) (auto elim: run_ok_weaken)
  show "triple (run_ok api rinv i Q) (append_action env n event_type payload) (\<lambda>_. run_ok api rinv i Q) (\<lambda>_. run_ok api rinv i Q)"
    by (auto simp: triple_def append_action_def intro: run_ok_same_runs split: sum.splits prod.splits)
  show "triple (run_ok api rinv i Q) (link_order env wo_id) (\<lambda>_. run_ok api rinv i Q) (\<lambda>_. run_ok api rinv i Q)"
    by (auto simp: triple_def link_order_def intro: run_ok_same_runs split: sum.splits prod.splits option.splits)
qed

lemma triple_exc:
  assumes "triple P f Q E" "\<And>s s' e. P s \<Longrightarrow> f s = (s', Inl e) \<Longrightarrow> E e s' \<Longrightarrow> F e s'"
  shows "triple P f Q F"
  using assms unfolding triple_def
  by (metis (mono_tags, lifting) old.prod.case old.prod.exhaust old.sum.exhaust sum.case)

lemma action_raises:
  "update_action env n status res err s = (s', Inl e) \<Longrightarrow> \<forall>t. e \<noteq> DeadlineRaised t"
  "append_action env n event_type payload s = (s', Inl e) \<Longrightarrow> \<forall>t. e \<noteq> DeadlineRaised t"
  "link_order env wo_id s = (s', Inl e) \<Longrightarrow> \<forall>t. e \<noteq> DeadlineRaised t"
  by (auto simp: update_action_def append_action_def link_order_def split: sum.splits prod.splits option.splits)

lemma action_left:
  assumes "ie_runs env = api" "ie_run_id env = id_run i"
  shows "status \<in> TERMINAL_STATUSES \<Longrightarrow> triple (run_ok api rinv i Q) (update_action env n status res err)
      (\<lambda>_. run_ok api rinv i (ended_with status res err)) (left_raised api rinv i)"
    and "triple (run_ok api rinv i (\<lambda>_. True)) (update_action env n status res err)
      (\<lambda>_. run_ok api rinv i (\<lambda>_. True)) (left_raised api rinv i)"
    and "triple (run_ok api rinv i Q) (append_action env n event_type payload) (\<lambda>_. run_ok api rinv i Q) (left_raised api rinv i)"
    and "triple (run_ok api rinv i Q) (link_order env wo_id) (\<lambda>_. run_ok api rinv i Q) (left_raised api rinv i)"
proof -
  have other: "run_ok api rinv i Q s \<Longrightarrow> \<forall>t. e \<noteq> DeadlineRaised t \<Longrightarrow> left_raised api rinv i e s" for Q s e
    by (auto simp: left_raised_def elim: run_ok_weaken)
  show "triple (run_ok api rinv i Q) (update_action env n status res err)
      (\<lambda>_. run_ok api rinv i (ended_with status res err)) (left_raised api rinv i)" if "status \<in> TERMINAL_STATUSES"
    by (rule triple_exc [OF action_run_ok(1) [OF assms that]]) (rule other, assumption, rule action_raises(1))
  show "triple (run_ok api rinv i (\<lambda>_. True)) (update_action env n status res err)
      (\<lambda>_. run_ok api rinv i (\<lambda>_. True)) (left_raised api rinv i)"
    by (rule triple_exc [OF action_run_ok(2) [OF assms]]) (rule other, assumption, rule action_raises(1))
  show "triple (run_ok api rinv i Q) (append_action env n event_type payload) (\<lambda>_. run_ok api rinv i Q) (left_raised api rinv i)"
    by (rule triple_exc [OF action_run_ok(3) [OF assms]]) (rule other, assumption, rule action_raises(2))
  show "triple (run_ok api rinv i Q) (link_order env wo_id) (\<lambda>_. run_ok api rinv i Q) (left_raised api rinv i)"
    by (rule triple_exc [OF action_run_ok(4) [OF assms]]) (rule other, assumption, rule action_raises(3))
qed

lemma run_response_fields [simp]:
  "fst entry \<in> {''error'', ''inline_result''} \<Longrightarrow> dict_get (run_response run_id status payload entry policy @ rest) ''run_id'' = PStr run_id"
  "fst entry \<in> {''error'', ''inline_result''} \<Longrightarrow> dict_get (run_response run_id status payload entry policy @ rest) ''status'' = PStr status"
  "fst entry \<in> {''error'', ''inline_result''} \<Longrightarrow>
    dict_get (run_response run_id status payload entry policy @ rest) (fst entry) = snd entry"
  by (auto simp: run_response_def dict_get_def)

lemma answer_entryI:
  "status \<noteq> ''completed'' \<Longrightarrow>
    answer_entry status None (Some t) (run_response run_id status payload (''error'', PStr t) policy @ rest)"
  "answer_entry ''completed'' (Some x) None
    (run_response run_id ''completed'' payload (''inline_result'', PDict x) policy @ rest)"
  using run_response_fields(3) [of "(''error'', PStr t)" run_id status payload policy rest]
    run_response_fields(3) [of "(''inline_result'', PDict x)" run_id "''completed''" payload policy rest]
  by (simp_all add: answer_entry_def)

lemma left_endedI:
  assumes "ie_run_id env = id_run i" "status \<in> TERMINAL_STATUSES" "fst entry \<in> {''error'', ''inline_result''}"
    "answer_entry status res err (run_response (ie_run_id env) status payload entry policy @ rest)"
  shows "triple (run_ok api rinv i (ended_with status res err))
    (\<lambda>s. (s, Inr (run_response (ie_run_id env) status payload entry policy @ rest))) (left_ended api rinv i) E"
  using assms by (intro triple_return) (auto simp: left_ended_def)

lemma finish_left:
  assumes "ie_runs env = api" "ie_run_id env = id_run i"
  shows "triple (run_ok api rinv i (\<lambda>_. True)) (finish_blocked env payload d reason) (left_ended api rinv i) (left_raised api rinv i)"
    and "triple (run_ok api rinv i (\<lambda>_. True)) (finish_stopped env payload d reason) (left_ended api rinv i) (left_raised api rinv i)"
    and "triple (run_ok api rinv i (\<lambda>_. True)) (finish_failed env payload d x reraise) (left_ended api rinv i) (left_raised api rinv i)"
    and "triple (run_ok api rinv i (\<lambda>_. True)) (finish_completed env payload d entry result) (left_ended api rinv i) (left_raised api rinv i)"
proof -
  have t: "''blocked'' \<in> TERMINAL_STATUSES" "''failed'' \<in> TERMINAL_STATUSES" "''completed'' \<in> TERMINAL_STATUSES"
    by (simp_all add: TERMINAL_STATUSES_def)
  note step = triple_and_then [OF action_left(1) [OF assms]] triple_and_then [OF action_left(3) [OF assms]]
  note ends = left_endedI [OF assms(2)]
  show "triple (run_ok api rinv i (\<lambda>_. True)) (finish_blocked env payload d reason) (left_ended api rinv i) (left_raised api rinv i)"
    unfolding finish_blocked_def by (intro step t ends answer_entryI) simp_all
  show "triple (run_ok api rinv i (\<lambda>_. True)) (finish_stopped env payload d reason) (left_ended api rinv i) (left_raised api rinv i)"
    unfolding finish_stopped_def by (intro step t ends answer_entryI) simp_all
  show "triple (run_ok api rinv i (\<lambda>_. True)) (finish_failed env payload d x reraise) (left_ended api rinv i) (left_raised api rinv i)"
    unfolding finish_failed_def
    by (intro step t triple_if_state triple_raise ends answer_entryI) (auto simp: left_raised_def elim: run_ok_weaken)
  show "triple (run_ok api rinv i (\<lambda>_. True)) (finish_completed env payload d entry result) (left_ended api rinv i) (left_raised api rinv i)"
    unfolding finish_completed_def
    using ends [where status = "''completed''" and entry = "(''inline_result'', PDict result)" and rest = "[]"]
      answer_entryI(2) [of result "ie_run_id env" payload "de_policy d" "[]"]
    by (intro step t) (simp add: t)
qed

lemma triple_world: "triple (run_ok api rinv i Q) f R E \<Longrightarrow> run_ok api rinv i Q s \<Longrightarrow>
    (case f (s\<lparr>bs_world := w\<rparr>) of (s', Inr x) \<Rightarrow> R x s' | (s', Inl e) \<Rightarrow> E e s')"
  using run_ok_same_runs [of i Q s "s\<lparr>bs_world := w\<rparr>"] unfolding triple_def by simp

lemma run_internal_left:
  fixes env :: "('r, 'e, 'o, 'w) invoke_env"
  assumes "ie_runs env = api" "ie_run_id env = id_run i"
  shows "triple (run_ok api rinv i (\<lambda>_. True)) (run_internal env payload auth_subject command d) (left_ended api rinv i) (left_raised api rinv i)"
  unfolding triple_def
proof (intro allI impI)
  fix s :: "('r, 'e, 'o, 'w) bus_state" assume s: "run_ok api rinv i (\<lambda>_. True) s"
  obtain w r where x: "ie_internal env (sp_command_id command) (iq_arguments payload) auth_subject (bs_world s) = (w, r)"
    by fastforce
  show "case run_internal env payload auth_subject command d s of
      (s', Inr x) \<Rightarrow> left_ended api rinv i x s' | (s', Inl e) \<Rightarrow> left_raised api rinv i e s'"
    using triple_world [OF finish_left(3) [OF assms] s] triple_world [OF finish_left(4) [OF assms] s]
    by (cases r) (simp_all add: run_internal_def x)
qed

lemma run_loopback_left:
  fixes env :: "('r, 'e, 'o, 'w) invoke_env"
  assumes "ie_runs env = api" "ie_run_id env = id_run i"
  shows "triple (run_ok api rinv i (\<lambda>_. True)) (run_loopback env payload inbound confirm command d) (left_ended api rinv i) (left_raised api rinv i)"
  unfolding triple_def
proof (intro allI impI)
  fix s :: "('r, 'e, 'o, 'w) bus_state" assume s: "run_ok api rinv i (\<lambda>_. True) s"
  let ?a = "iq_arguments payload"
  obtain w r where x: "execute_loopback_request (ie_environ env) (ie_brackets env) (ie_client env) (ie_deadline env)
      (sp_method command) (sp_path_template command) (ar_path_params ?a) (ar_query ?a) (ar_headers ?a) (ar_body ?a) inbound
      (loopback_context (ie_environ env) command confirm) (bs_world s) = (w, r)"
    by fastforce
  show "case run_loopback env payload inbound confirm command d s of
      (s', Inr x) \<Rightarrow> left_ended api rinv i x s' | (s', Inl e) \<Rightarrow> left_raised api rinv i e s'"
    using triple_world [OF finish_left(2) [OF assms] s] triple_world [OF finish_left(3) [OF assms] s]
      triple_world [OF finish_left(4) [OF assms] s]
    by (cases r) (simp_all add: run_loopback_def Let_def x)
qed

lemma execute_run_left:
  assumes "ie_runs env = api" "ie_run_id env = id_run i"
  shows "triple (run_ok api rinv i (\<lambda>_. True)) (execute_run env payload auth_subject inbound allow confirm command d)
    (left_ended api rinv i) (left_raised api rinv i)"
proof -
  have "triple (run_ok api rinv i (\<lambda>_. True)) (dispatch_run env payload auth_subject inbound confirm command d)
      (left_ended api rinv i) (left_raised api rinv i)"
    unfolding dispatch_run_def
    by (intro triple_and_then [OF action_left(2) [OF assms]] triple_and_then [OF action_left(3) [OF assms]] triple_if
        run_internal_left [OF assms] run_loopback_left [OF assms])
  then show ?thesis
    unfolding execute_run_def
    by (intro triple_and_then [OF action_left(3) [OF assms]] triple_and_then [OF action_left(4) [OF assms]])
      (auto intro: finish_left [OF assms] split: option.splits)
qed

text \<open>Creating a run under a key that no row has.\<close>

lemma create_run_ok:
  assumes "rinv (bs_runs s)" "db_create_run api (bs_runs s) now run_id a = Inr (runs, dict)"
    and "\<forall>r \<in> orm_rows api (bs_runs s). \<not> (nr_idempotency_key a \<noteq> None \<and> cr_command_id r = nr_command_id a \<and>
      cr_idempotency_key r = nr_idempotency_key a)"
  shows "run_ok api rinv \<lparr>id_run = run_id, id_command = nr_command_id a, id_key = nr_idempotency_key a,
      id_subject = nr_auth_subject a, id_hash = nr_args_hash a\<rparr> (\<lambda>_. True) (s\<lparr>bs_runs := runs\<rparr>)"
proof -
  have add: "orm_add api (bs_runs s) (new_row now run_id a) = Inr runs"
    using assms(2) by (auto simp: db_create_run_def split: sum.splits db_error.splits if_splits option.splits)
  show ?thesis
    using add_rows [OF assms(1) add] add_invar [OF assms(1) add] assms(3)
    by (auto simp: run_ok_def row_of_def new_row_def)
qed

lemma lookup_None:
  assumes "rinv db" "strip key = key" "key \<noteq> []" "db_get_run_by_idempotency_key api db c key = None" "r \<in> orm_rows api db"
  shows "\<not> (cr_command_id r = c \<and> cr_idempotency_key r = Some key)"
  using assms first_None [OF assms(1)] by (auto simp: db_get_run_by_idempotency_key_def Let_def)

lemma lookup_run_ok:
  assumes "run_ok api rinv i Q s" "id_key i = Some key" "strip key = key" "key \<noteq> []"
  obtains r where "db_get_run_by_idempotency_key api (bs_runs s) (id_command i) key = Some (row_to_dict r)" "row_of i r" "Q r"
proof -
  let ?P = "\<lambda>r. cr_command_id r = id_command i \<and> cr_idempotency_key r = Some key"
  from assms(1) obtain r where r: "rinv (bs_runs s)" "r \<in> orm_rows api (bs_runs s)" "row_of i r" "Q r" by (auto simp: run_ok_def)
  have "orm_first api (bs_runs s) ?P \<noteq> None" using r assms(2) by (auto simp: first_None row_of_def)
  then obtain r' where r': "orm_first api (bs_runs s) ?P = Some r'" by blast
  note m = first_Some [OF r(1) r']
  have "cr_run_id r' = cr_run_id r" using assms(1,2) m r(3) by (simp add: run_ok_def row_of_def)
  then have "r' = r" using primary_key [OF r(1) m(1) r(2)] by simp
  with r r' assms(3,4) show thesis by (intro that [of r]) (simp_all add: db_get_run_by_idempotency_key_def Let_def)
qed

lemma key_of_strip: "key_of payload = Some key \<Longrightarrow> strip key = key \<and> key \<noteq> []"
  by (auto simp: key_of_def)

lemma no_row_under_key:
  assumes "rinv (bs_runs s)" "r \<in> orm_rows api (bs_runs s)"
    and "\<forall>key. key_of payload = Some key \<longrightarrow> db_get_run_by_idempotency_key api (bs_runs s) c key = None"
  shows "\<not> (key_of payload \<noteq> None \<and> cr_command_id r = c \<and> cr_idempotency_key r = key_of payload)"
proof
  assume a: "key_of payload \<noteq> None \<and> cr_command_id r = c \<and> cr_idempotency_key r = key_of payload"
  then obtain key where key: "key_of payload = Some key" by blast
  with a lookup_None [OF assms(1) _ _ _ assms(2), of key c] key_of_strip [OF key] assms(3) show False by simp
qed

lemma create_no_conflict:
  assumes "rinv (bs_runs s)"
    and "\<forall>key. key_of payload = Some key \<longrightarrow> db_get_run_by_idempotency_key api (bs_runs s) (sp_command_id command) key = None"
  shows "db_create_run api (bs_runs s) now run_id (run_args payload auth_subject command (key_of payload) hash) \<noteq>
    Inl (IdempotencyConflictError run)"
proof -
  have "orm_first api (bs_runs s) (\<lambda>r. cr_command_id r = sp_command_id command \<and> cr_idempotency_key r = key_of payload) = None"
    if "key_of payload \<noteq> None"
    using no_row_under_key [OF assms(1) _ assms(2)] that by (auto simp: first_None [OF assms(1)])
  then show ?thesis
    by (auto simp: db_create_run_def run_args_def key_given_def split: sum.splits db_error.splits option.splits)
qed

lemma execute_invoke_left:
  fixes env :: "('r, 'e, 'o, 'w) invoke_env"
  assumes env: "ie_runs env = api" and inv: "rinv (bs_runs s)"
    and check: "check_request env payload auth_subject = Inr command"
    and fresh: "\<forall>key. key_of payload = Some key \<longrightarrow> db_get_run_by_idempotency_key api (bs_runs s) (sp_command_id command) key = None"
  shows "case execute_invoke env payload auth_subject inbound lane allow confirm s of
      (s', Inr response) \<Rightarrow> left_ended api rinv (identity_of env payload auth_subject command) response s'
    | (s', Inl e) \<Rightarrow> left_raised api rinv (identity_of env payload auth_subject command) e s' \<or>
        s' = s \<and> (\<forall>t. e \<noteq> DeadlineRaised t)"
proof -
  let ?i = "identity_of env payload auth_subject command"
  let ?hash = "compute_args_hash (ie_sha256 env) (args_dict (iq_arguments payload))"
  let ?args = "run_args payload auth_subject command (key_of payload) ?hash"
  have old: "existing_run_of env (key_of payload) command s = None"
    using fresh env by (simp add: existing_run_of_None)
  have run: "case execute_run env payload auth_subject inbound a c command d (s\<lparr>bs_runs := runs\<rparr>) of
      (s', Inr response) \<Rightarrow> left_ended api rinv ?i response s' | (s', Inl e) \<Rightarrow> left_raised api rinv ?i e s'"
    if "db_create_run api (bs_runs s) (ie_clock env 0) (ie_run_id env) ?args = Inr (runs, dict)" for runs dict a c d
  proof -
    have "run_ok api rinv ?i (\<lambda>_. True) (s\<lparr>bs_runs := runs\<rparr>)"
      using create_run_ok [OF inv that] no_row_under_key [OF inv _ fresh] by (simp add: run_args_def identity_of_def)
    moreover have "ie_run_id env = id_run ?i" by (simp add: identity_of_def)
    ultimately show ?thesis using execute_run_left [OF env, of ?i] by (simp add: triple_def)
  qed
  have "case start_run env payload auth_subject inbound a c command (key_of payload) ?hash d s of
      (s', Inr response) \<Rightarrow> left_ended api rinv ?i response s'
    | (s', Inl e) \<Rightarrow> left_raised api rinv ?i e s' \<or> s' = s \<and> (\<forall>t. e \<noteq> DeadlineRaised t)" for a c d
  proof (cases "db_create_run api (bs_runs s) (ie_clock env 0) (ie_run_id env) ?args")
    case (Inl e)
    then show ?thesis
      using create_no_conflict [OF inv fresh] env
      by (cases e) (auto simp: start_run_def validate_work_order_def split: option.splits if_splits)
  next
    case (Inr rd)
    with run [of "fst rd" "snd rd" a c d] env show ?thesis
      by (cases rd) (auto simp: start_run_def validate_work_order_def split: option.splits prod.splits sum.splits)
  qed
  note started = this
  show ?thesis
  proof (cases "decide env payload auth_subject (lane = ''tools'' \<and> confirm) command")
    case (Inl e)
    moreover from Inl have "\<forall>t. e \<noteq> DeadlineRaised t" by (auto simp: decide_def Let_def split: option.splits sum.splits)
    ultimately show ?thesis using old check env by (simp add: execute_invoke_def Let_def)
  next
    case (Inr d)
    with started [of "lane = ''tools'' \<and> allow" "lane = ''tools'' \<and> confirm" d] old check env
    show ?thesis by (simp add: execute_invoke_def Let_def)
  qed
qed

end

interpretation bus_runs: run_table_laws run_table "list_invar cr_run_id"
  unfolding run_table_laws_def run_table_def by (rule orm_table_list_orm)


section \<open>Repeated requests\<close>

lemma replay_existing_cases:
  assumes "rn_command_id run = sp_command_id command" "rn_idempotency_key run = key"
  shows "replay_existing payload auth_subject command key hash run =
    (if rn_auth_subject run \<noteq> auth_subject then Inl (HTTPException 403 ''idempotency_key_not_permitted'')
     else if rn_args_hash run \<noteq> hash then Inl (HTTPException 409 ''command_bus_idempotency_conflict'')
     else Inr (response_from_existing_run run (iq_invoke_version payload)))"
  using assms by (simp add: replay_existing_def validate_existing_run_replay_def)

lemma response_fields:
  "dict_get (response_from_existing_run run v) ''run_id'' = PStr (rn_run_id run)"
  "dict_get (response_from_existing_run run v) ''status'' = PStr (if rn_status run = [] then ''queued'' else rn_status run)"
  by (simp_all add: response_from_existing_run_def Let_def dict_get_def)

lemma row_to_dict_fields [simp]:
  "rn_run_id (row_to_dict r) = cr_run_id r" "rn_command_id (row_to_dict r) = cr_command_id r"
  "rn_status (row_to_dict r) = cr_status r" "rn_idempotency_key (row_to_dict r) = cr_idempotency_key r"
  "rn_auth_subject (row_to_dict r) = cr_auth_subject r" "rn_args_hash (row_to_dict r) = cr_args_hash r"
  by (simp_all add: row_to_dict_def)

text \<open>After a successful invocation under a key, the run that answers the key, and what it was created with.\<close>

lemma answered_run:
  assumes table: "orm_table (ie_runs env) cr_run_id rinv" and inv: "rinv (bs_runs s)"
    and check: "check_request env payload auth_subject = Inr command" and key: "key_of payload = Some key"
    and exec: "execute_invoke env payload auth_subject inbound lane allow confirm s = (s', Inr response)"
  obtains run where "db_get_run_by_idempotency_key (ie_runs env) (bs_runs s') (sp_command_id command) key = Some run"
    "rn_command_id run = sp_command_id command" "rn_idempotency_key run = Some key" "rn_auth_subject run = auth_subject"
    "rn_args_hash run = compute_args_hash (ie_sha256 env) (args_dict (iq_arguments payload))"
    "dict_get response ''run_id'' = PStr (rn_run_id run)"
    "dict_get response ''status'' = PStr (if rn_status run = [] then ''queued'' else rn_status run)"
proof (cases "existing_run_of env (key_of payload) command s")
  case (Some run)
  let ?hash = "compute_args_hash (ie_sha256 env) (args_dict (iq_arguments payload))"
  have run: "db_get_run_by_idempotency_key (ie_runs env) (bs_runs s) (sp_command_id command) key = Some run"
    using Some key by (simp add: existing_run_of_def)
  have "s' = s" and r: "replay_existing payload auth_subject command (Some key) ?hash run = Inr response"
    using exec Some by (simp_all add: execute_invoke_def Let_def check key)
  have "validate_existing_run_replay run (sp_command_id command) (Some key) auth_subject ?hash = None"
      "response = response_from_existing_run run (iq_invoke_version payload)"
    using r by (auto simp: replay_existing_def split: option.splits)
  with run \<open>s' = s\<close> show thesis
    by (intro that [of run]) (auto simp: validate_existing_run_replay_def response_fields split: if_splits)
next
  case None
  let ?i = "identity_of env payload auth_subject command"
  from table have laws: "run_table_laws (ie_runs env) rinv" by (simp add: run_table_laws_def)
  have "left_ended (ie_runs env) rinv ?i response s'"
    using run_table_laws.execute_invoke_left [OF laws refl inv check None [unfolded existing_run_of_None], of inbound lane allow confirm]
    by (simp add: exec)
  then obtain status res err where st: "status \<in> TERMINAL_STATUSES" "dict_get response ''run_id'' = PStr (id_run ?i)"
      "dict_get response ''status'' = PStr status" "run_ok (ie_runs env) rinv ?i (ended_with status res err) s'"
    by (auto simp: left_ended_def)
  have k: "id_key ?i = Some key" "strip key = key" "key \<noteq> []"
    using key run_table_laws.key_of_strip [OF laws key] by (simp_all add: identity_of_def)
  obtain r where r: "db_get_run_by_idempotency_key (ie_runs env) (bs_runs s') (id_command ?i) key = Some (row_to_dict r)"
      "row_of ?i r" "ended_with status res err r"
    using run_table_laws.lookup_run_ok [OF laws st(4) k] .
  have "status \<noteq> []" using st(1) by (auto simp: TERMINAL_STATUSES_def)
  with r st(2,3) k(1) show thesis
    by (intro that [of "row_to_dict r"]) (simp_all add: row_of_def ended_with_def identity_of_def)
qed

subsection \<open>Whatever is written later\<close>

text \<open>What a run was created with.\<close>

definition same_run :: "CommandRun \<Rightarrow> CommandRun \<Rightarrow> bool" where
  "same_run r r' = (cr_run_id r' = cr_run_id r \<and> cr_command_id r' = cr_command_id r \<and>
     cr_idempotency_key r' = cr_idempotency_key r \<and> cr_auth_subject r' = cr_auth_subject r \<and> cr_args_hash r' = cr_args_hash r)"

lemma same_run_update: "same_run r r0 \<Longrightarrow> same_run r (updated_row now st res err r0)"
  by (simp add: same_run_def updated_row_def Let_def)

text \<open>
  The table of the runs has a unique index over command and idempotency key (\<^verbatim>\<open>uq_command_idempotency_key\<close>):
  in a lawful state of it no two runs share both.
\<close>

locale keyed_runs = run_table_laws api rinv for api :: "('r, CommandRun) orm" and rinv +
  assumes one_run_per_key: "rinv rdb \<Longrightarrow> r \<in> orm_rows api rdb \<Longrightarrow> r' \<in> orm_rows api rdb \<Longrightarrow> same_key r r' \<Longrightarrow> r = r'"
begin

lemma lookup_key:
  assumes "rinv rdb" "r \<in> orm_rows api rdb" "cr_command_id r = c" "cr_idempotency_key r = Some key" "strip key = key" "key \<noteq> []"
  shows "db_get_run_by_idempotency_key api rdb c key = Some (row_to_dict r)"
proof -
  let ?P = "\<lambda>r. cr_command_id r = c \<and> cr_idempotency_key r = Some key"
  have "orm_first api rdb ?P \<noteq> None" using assms(2-4) by (auto simp: first_None [OF assms(1)])
  then obtain r' where r': "orm_first api rdb ?P = Some r'" by blast
  have "r' = r"
    using first_Some [OF assms(1) r'] assms(2-4) by (intro one_run_per_key [OF assms(1)]) (auto simp: same_key_def)
  with r' assms(5,6) show ?thesis by (simp add: db_get_run_by_idempotency_key_def Let_def)
qed

lemma lookup_row:
  assumes "rinv rdb" "db_get_run_by_idempotency_key api rdb c key = Some run"
  obtains r where "r \<in> orm_rows api rdb" "run = row_to_dict r" "cr_command_id r = c" "cr_idempotency_key r = Some (strip key)"
proof -
  obtain r where r: "orm_first api rdb (\<lambda>r. cr_command_id r = c \<and> cr_idempotency_key r = Some (strip key)) = Some r"
      "run = row_to_dict r"
    using assms(2) by (auto simp: db_get_run_by_idempotency_key_def Let_def split: if_splits)
  note m = first_Some [OF assms(1) r(1)]
  show thesis by (rule that [OF m(1) r(2)]) (rule m(2) [THEN conjunct1], rule m(2) [THEN conjunct2])
qed

text \<open>No write removes a run or changes what it was created with.\<close>

lemma reaches_keep_runs:
  assumes "bus_reaches api eapi s t" "rinv (fst s)"
  shows "rinv (fst t) \<and> (\<forall>r \<in> orm_rows api (fst s). \<exists>r' \<in> orm_rows api (fst t). same_run r r')"
  using assms
proof induction
  case (bus_start s)
  then show ?case by (auto simp: same_run_def)
next
  case (bus_create s rdb edb now run_id a rdb' d)
  then have IH: "rinv rdb" "\<forall>r \<in> orm_rows api (fst s). \<exists>r' \<in> orm_rows api rdb. same_run r r'" by simp_all
  have add: "orm_add api rdb (new_row now run_id a) = Inr rdb'"
    using bus_create(2) by (auto simp: db_create_run_def split: sum.splits db_error.splits if_splits option.splits)
  show ?case using add_rows [OF IH(1) add] add_invar [OF IH(1) add] IH(2) by auto
next
  case (bus_update s rdb edb now run_id status result_json error_text rdb')
  then have IH: "rinv rdb" "\<forall>r \<in> orm_rows api (fst s). \<exists>r' \<in> orm_rows api rdb. same_run r r'" by simp_all
  obtain row where f: "orm_first api rdb (\<lambda>r. cr_run_id r = run_id) = Some row"
      and c: "orm_commit api rdb (updated_row now status result_json error_text row) = Inr rdb'"
    using bus_update(2) by (auto simp: db_update_run_def split: sum.splits option.splits)
  have mem: "row \<in> orm_rows api rdb" using first_Some [OF IH(1) f] by simp
  have id: "cr_run_id row = cr_run_id (updated_row now status result_json error_text row)" by simp
  have "\<exists>r' \<in> orm_rows api rdb'. same_run r r'" if "r' \<in> orm_rows api rdb" "same_run r r'" for r r'
    using that commit_rows [OF IH(1) mem id c] same_run_update by (cases "r' = row") auto
  then show ?case using commit_invar [OF IH(1) mem id c] IH(2) unfolding fst_conv by blast
qed simp

lemma later_lookup:
  assumes "bus_reaches api eapi s t" "rinv (fst s)" "db_get_run_by_idempotency_key api (fst s) c key = Some run"
    "strip key = key" "key \<noteq> []"
  obtains run' where "db_get_run_by_idempotency_key api (fst t) c key = Some run'"
    "db_get_run api (fst t) (rn_run_id run) = Some run'" "rn_command_id run' = c" "rn_idempotency_key run' = Some key"
    "rn_run_id run' = rn_run_id run" "rn_auth_subject run' = rn_auth_subject run" "rn_args_hash run' = rn_args_hash run"
proof -
  obtain r where r: "r \<in> orm_rows api (fst s)" "run = row_to_dict r" "cr_command_id r = c" "cr_idempotency_key r = Some key"
    using lookup_row [OF assms(2,3)] assms(4) by metis
  obtain r' where t: "rinv (fst t)" and r': "r' \<in> orm_rows api (fst t)" "same_run r r'"
    using reaches_keep_runs [OF assms(1,2)] r(1) by blast
  have "db_get_run_by_idempotency_key api (fst t) c key = Some (row_to_dict r')"
    using r r'(2) assms(4,5) by (intro lookup_key [OF t r'(1)]) (auto simp: same_run_def)
  moreover have "db_get_run api (fst t) (rn_run_id run) = Some (row_to_dict r')"
    using first_key_eqI [OF t r'(1)] r(2) r'(2) by (simp add: db_get_run_def same_run_def)
  ultimately show thesis using r r'(2) by (intro that [of "row_to_dict r'"]) (simp_all add: same_run_def)
qed

end

text \<open>The list-backed table keeps the unique index.\<close>

lemma rows_valid_keep:
  assumes "rows_valid rs" "r0 \<in> set rs" "cr_run_id r0 = cr_run_id r"
    "list_commit cr_run_id run_constraint rs r = Inr rs'"
  shows "rows_valid rs'"
proof -
  have rs': "rs' = map (\<lambda>x. if cr_run_id x = cr_run_id r then r else x) rs" using list_commit_Inr [OF assms(4)] .
  have new: "\<not> same_key r x" if "x \<in> set rs" "cr_run_id x \<noteq> cr_run_id r" for x
    using assms(4) that by (auto simp: list_commit_def run_constraint_def list_ex_iff split: option.splits if_splits)
  have sym: "same_key x y = same_key y x" for x y unfolding same_key_def by metis
  have "x = y" if "x \<in> set rs'" "y \<in> set rs'" "same_key x y" for x y
    using that new sym assms(1) unfolding rs' rows_valid_def by (auto split: if_splits)
  moreover have "distinct (map cr_run_id rs')"
    using assms(1) unfolding rs' list_commit_keys rows_valid_def by simp
  ultimately show ?thesis by (simp add: rows_valid_def)
qed

lemma rows_valid_add:
  assumes "rows_valid rs" "list_add cr_run_id run_constraint rs r = Inr rs'"
  shows "rows_valid rs'"
proof -
  have rs': "rs' = rs @ [r]" and id: "cr_run_id r \<notin> cr_run_id ` set rs" and new: "\<And>x. x \<in> set rs \<Longrightarrow> \<not> same_key r x"
    using assms(2) by (auto simp: list_add_def run_constraint_def list_ex_iff split: option.splits if_splits)
  have "\<not> same_key x r" if "x \<in> set rs" for x
    using new [OF that] unfolding same_key_def by metis
  with new id assms(1) show ?thesis unfolding rs' rows_valid_def by auto
qed

interpretation keyed_lists: keyed_runs run_table rows_valid
proof unfold_locales
  fix db db' :: "CommandRun list" and P :: "CommandRun \<Rightarrow> bool" and r r' r0 :: CommandRun
  have weaker: "list_invar cr_run_id db" if "rows_valid db" for db
    using that by (simp add: rows_valid_def list_invar_def)
  show "rows_valid db \<Longrightarrow> set (orm_select run_table db P) = {r \<in> orm_rows run_table db. P r}"
    using bus_runs.select_rows weaker by blast
  show "rows_valid db \<Longrightarrow> distinct (orm_select run_table db P)" using bus_runs.select_distinct weaker by blast
  show "rows_valid db \<Longrightarrow> r \<in> orm_rows run_table db \<Longrightarrow> r' \<in> orm_rows run_table db \<Longrightarrow> cr_run_id r = cr_run_id r' \<Longrightarrow> r = r'"
    using bus_runs.primary_key weaker by blast
  show "rows_valid db \<Longrightarrow> orm_add run_table db r = Inr db' \<Longrightarrow> orm_rows run_table db' = insert r (orm_rows run_table db)"
    using bus_runs.add_rows weaker by blast
  show "rows_valid db \<Longrightarrow> orm_add run_table db r = Inr db' \<Longrightarrow> r' \<in> orm_rows run_table db \<Longrightarrow> cr_run_id r' \<noteq> cr_run_id r"
    using bus_runs.add_fresh weaker by blast
  show "rows_valid db \<Longrightarrow> orm_add run_table db r = Inr db' \<Longrightarrow> rows_valid db'"
    using rows_valid_add by simp
  show "rows_valid db \<Longrightarrow> r0 \<in> orm_rows run_table db \<Longrightarrow> cr_run_id r0 = cr_run_id r \<Longrightarrow> orm_commit run_table db r = Inr db' \<Longrightarrow>
      orm_rows run_table db' = insert r (orm_rows run_table db - {r0})"
    using bus_runs.commit_rows weaker by blast
  show "rows_valid db \<Longrightarrow> r0 \<in> orm_rows run_table db \<Longrightarrow> cr_run_id r0 = cr_run_id r \<Longrightarrow> orm_commit run_table db r = Inr db' \<Longrightarrow>
      rows_valid db'"
    using rows_valid_keep by (simp add: run_table_def)
  show "rows_valid db \<Longrightarrow> r \<in> orm_rows run_table db \<Longrightarrow> r' \<in> orm_rows run_table db \<Longrightarrow> same_key r r' \<Longrightarrow> r = r'"
    unfolding run_table_def list_orm_rows rows_valid_def by blast
qed

text \<open>An invocation writes runs and events only by the operations of the store.\<close>

abbreviation written ::
    "('r, 'e, 'o, 'w) invoke_env \<Rightarrow> 'r \<times> 'e \<Rightarrow> ('r, 'e, 'o, 'w) bus_state \<Rightarrow> bool" where
  "written env s0 s \<equiv> bus_reaches (ie_runs env) (ie_events env) s0 (bs_runs s, bs_events s)"

lemma action_written:
  "triple (written env s0) (update_action env n status res err) (\<lambda>_. written env s0) (\<lambda>_. written env s0)"
  "triple (written env s0) (append_action env n event_type payload) (\<lambda>_. written env s0) (\<lambda>_. written env s0)"
  "triple (written env s0) (link_order env wo_id) (\<lambda>_. written env s0) (\<lambda>_. written env s0)"
  by (auto simp: triple_def update_action_def append_action_def link_order_def
      intro: bus_update bus_append split: sum.splits prod.splits option.splits)

lemmas written_rules = triple_and_then [OF action_written(1)] triple_and_then [OF action_written(2)]
  triple_and_then [OF action_written(3)] triple_return triple_raise triple_if_state

lemma finish_written:
  "triple (written env s0) (finish_blocked env payload d reason) (\<lambda>_. written env s0) (\<lambda>_. written env s0)"
  "triple (written env s0) (finish_stopped env payload d reason) (\<lambda>_. written env s0) (\<lambda>_. written env s0)"
  "triple (written env s0) (finish_failed env payload d x reraise) (\<lambda>_. written env s0) (\<lambda>_. written env s0)"
  "triple (written env s0) (finish_completed env payload d entry result) (\<lambda>_. written env s0) (\<lambda>_. written env s0)"
  by (unfold finish_blocked_def finish_stopped_def finish_failed_def finish_completed_def; intro written_rules; assumption?)+

lemma triple_other_world:
  assumes "triple (written env s0) f (\<lambda>_. written env s0) (\<lambda>_. written env s0)" "written env s0 s"
  shows "written env s0 (fst (f (s\<lparr>bs_world := w\<rparr>)))"
  using triple_state [OF assms(1), of "s\<lparr>bs_world := w\<rparr>"] assms(2) by simp

lemma triple_written: "(\<And>s. written env s0 s \<Longrightarrow> written env s0 (fst (f s))) \<Longrightarrow>
    triple (written env s0) f (\<lambda>_. written env s0) (\<lambda>_. written env s0)"
  unfolding triple_def by (auto split: prod.splits sum.splits) (metis fst_conv)+

lemma run_written:
  assumes "written env s0 s"
  shows "written env s0 (fst (run_internal env payload auth_subject command d s))"
    and "written env s0 (fst (run_loopback env payload inbound confirmed command d s))"
proof -
  note keep = finish_written [THEN triple_other_world, OF assms]
  obtain w x where i: "ie_internal env (sp_command_id command) (iq_arguments payload) auth_subject (bs_world s) = (w, x)"
    by fastforce
  show "written env s0 (fst (run_internal env payload auth_subject command d s))"
    by (cases x) (simp_all add: run_internal_def i keep)
  let ?a = "iq_arguments payload"
  obtain w' y where l: "execute_loopback_request (ie_environ env) (ie_brackets env) (ie_client env) (ie_deadline env)
      (sp_method command) (sp_path_template command) (ar_path_params ?a) (ar_query ?a) (ar_headers ?a) (ar_body ?a) inbound
      (loopback_context (ie_environ env) command confirmed) (bs_world s) = (w', y)"
    by fastforce
  show "written env s0 (fst (run_loopback env payload inbound confirmed command d s))"
    by (cases y) (simp_all add: run_loopback_def Let_def l keep)
qed

lemma execute_run_written:
  assumes "written env s0 s"
  shows "written env s0 (fst (execute_run env payload auth_subject inbound allow_write confirmed command d s))"
proof -
  have "triple (written env s0) (dispatch_run env payload auth_subject inbound confirmed command d)
      (\<lambda>_. written env s0) (\<lambda>_. written env s0)"
    unfolding dispatch_run_def
    by (rule written_rules(1), rule written_rules(2), rule triple_if)
      (rule triple_written [OF run_written(1)], assumption, rule triple_written [OF run_written(2)], assumption)
  then have "triple (written env s0) (case blocked_reason d command (iq_arguments payload) allow_write of
        Some reason \<Rightarrow> finish_blocked env payload d reason
      | None \<Rightarrow> dispatch_run env payload auth_subject inbound confirmed command d) (\<lambda>_. written env s0) (\<lambda>_. written env s0)"
    using finish_written(1) by (cases "blocked_reason d command (iq_arguments payload) allow_write") simp_all
  then have "triple (written env s0) (execute_run env payload auth_subject inbound allow_write confirmed command d)
      (\<lambda>_. written env s0) (\<lambda>_. written env s0)"
    unfolding execute_run_def by - (rule written_rules(3), rule written_rules(2), assumption)
  from triple_state [OF this assms] show ?thesis .
qed

lemma start_run_cases:
  obtains r where "start_run env payload auth_subject inbound allow_write confirmed command key hash d s = (s, r)"
  | runs dict where "db_create_run (ie_runs env) (bs_runs s) (ie_clock env 0) (ie_run_id env)
        (run_args payload auth_subject command key hash) = Inr (runs, dict)"
      "start_run env payload auth_subject inbound allow_write confirmed command key hash d s =
        execute_run env payload auth_subject inbound allow_write confirmed command d (s\<lparr>bs_runs := runs\<rparr>)"
proof (cases "validate_work_order env (work_order_of payload) s")
  case (Some e)
  then show thesis by (intro that(1)) (simp add: start_run_def)
next
  case None
  let ?c = "db_create_run (ie_runs env) (bs_runs s) (ie_clock env 0) (ie_run_id env) (run_args payload auth_subject command key hash)"
  show thesis
  proof (cases ?c)
    case (Inl e)
    with None show thesis by (cases e; intro that(1)) (simp_all add: start_run_def)
  next
    case (Inr c)
    with None show thesis by (cases c; intro that(2)) (simp_all add: start_run_def)
  qed
qed

lemma start_run_written:
  "written env (bs_runs s, bs_events s)
     (fst (start_run env payload auth_subject inbound allow_write confirmed command key hash d s))"
proof (cases rule: start_run_cases [of env payload auth_subject inbound allow_write confirmed command key hash d s])
  case (1 r)
  show ?thesis unfolding 1 fst_conv by (rule bus_start)
next
  case (2 runs dict)
  have "written env (bs_runs s, bs_events s) (s\<lparr>bs_runs := runs\<rparr>)"
    using bus_create [OF bus_start 2(1)] by simp
  then show ?thesis unfolding 2(2) by (rule execute_run_written)
qed

lemma execute_invoke_cases:
  obtains r where "execute_invoke env payload auth_subject inbound lane allow confirm s = (s, r)"
  | allow_write confirmed command key hash d where "execute_invoke env payload auth_subject inbound lane allow confirm s =
      start_run env payload auth_subject inbound allow_write confirmed command key hash d s"
proof (cases "check_request env payload auth_subject")
  case (Inl e)
  then show thesis by (intro that(1)) (simp add: execute_invoke_def Let_def)
next
  case check: (Inr command)
  let ?old = "existing_run_of env (key_of payload) command s" and ?d = "decide env payload auth_subject (lane = ''tools'' \<and> confirm) command"
  show thesis
  proof (cases ?old)
    case (Some run)
    with check show thesis by (intro that(1)) (simp add: execute_invoke_def Let_def)
  next
    case old: None
    show thesis
    proof (cases ?d)
      case (Inl e)
      with check old show thesis by (intro that(1)) (simp add: execute_invoke_def Let_def)
    next
      case (Inr d)
      with check old show thesis by (intro that(2)) (simp add: execute_invoke_def Let_def)
    qed
  qed
qed

lemma execute_invoke_written:
  "written env (bs_runs s, bs_events s) (fst (execute_invoke env payload auth_subject inbound lane allow confirm s))"
proof (cases rule: execute_invoke_cases [of env payload auth_subject inbound lane allow confirm s])
  case (1 r)
  show ?thesis unfolding 1 fst_conv by (rule bus_start)
next
  case (2 allow_write confirmed command key hash d)
  show ?thesis unfolding 2 by (rule start_run_written)
qed

text \<open>A call that leaves no run under its key did nothing but raise.\<close>

lemma no_run_left:
  assumes laws: "run_table_laws (ie_runs env) rinv" and inv: "rinv (bs_runs s)"
    and check: "check_request env payload auth_subject = Inr command" and key: "key_of payload = Some key"
    and exec: "execute_invoke env payload auth_subject inbound lane allow confirm s = (s1, outcome)"
    and none: "db_get_run_by_idempotency_key (ie_runs env) (bs_runs s1) (sp_command_id command) key = None"
  shows "s1 = s \<and> (\<exists>e. outcome = Inl e)"
proof -
  let ?i = "identity_of env payload auth_subject command"
  note k = run_table_laws.key_of_strip [OF laws key]
  have no: "\<not> run_ok (ie_runs env) rinv ?i Q s1" for Q
    using run_table_laws.lookup_run_ok [OF laws, of ?i Q s1 key] k key none by (auto simp: identity_of_def)
  have old: "existing_run_of env (key_of payload) command s = None"
  proof (rule ccontr)
    assume some: "existing_run_of env (key_of payload) command s \<noteq> None"
    then have "s1 = s" using exec by (auto simp: execute_invoke_def Let_def check)
    with some none key show False by (simp add: existing_run_of_def)
  qed
  from run_table_laws.execute_invoke_left [OF laws refl inv check old [unfolded existing_run_of_None],
      of inbound lane allow confirm]
  have "case outcome of Inr response \<Rightarrow> left_ended (ie_runs env) rinv ?i response s1
      | Inl e \<Rightarrow> left_raised (ie_runs env) rinv ?i e s1 \<or> s1 = s" unfolding exec by (cases outcome) auto
  then show ?thesis using no by (cases outcome) (auto simp: left_ended_def left_raised_def)
qed

text \<open>
  C6. A key protects a command from running twice. Take any call of a command under an idempotency key, whether it
  returned or raised. Either it left no run under the key: then it raised and changed nothing; or there is a run under
  the key, and if the call returned, its answer names this run and its status, and the run has the caller and the
  hash of the arguments of the call. And then every later call of the command under the key, whatever else was
  written to the runs and events in between (other runs, updates of this one, events: anything the store's
  operations write, which is all that other invocations do to them), executes nothing and writes nothing, whatever its
  lane, permissions, headers or confirmation. It gets the answer of this very run in its present state if it
  comes from the same caller with arguments of the same hash; another caller is refused, and so are other
  arguments. The table of the runs has the unique index over command and key.
\<close>

theorem invoke_idempotent:
  assumes table: "keyed_runs (ie_runs env) rinv" and inv: "rinv (bs_runs s)"
    and first: "check_request env payload auth_subject = Inr command" "key_of payload = Some key"
      "execute_invoke env payload auth_subject inbound lane allow confirm s = (s1, outcome)"
    and between: "bus_reaches (ie_runs env) eapi (bs_runs s1, events1) (bs_runs s2, events2)"
    and later: "ie_runs env2 = ie_runs env" "check_request env2 payload2 auth_subject2 = Inr command2"
      "sp_command_id command2 = sp_command_id command" "key_of payload2 = Some key"
  shows "case db_get_run_by_idempotency_key (ie_runs env) (bs_runs s1) (sp_command_id command) key of
      None \<Rightarrow> s1 = s \<and> (\<exists>e. outcome = Inl e)
    | Some run \<Rightarrow>
        (\<forall>response. outcome = Inr response \<longrightarrow>
          dict_get response ''run_id'' = PStr (rn_run_id run) \<and>
          dict_get response ''status'' = PStr (if rn_status run = [] then ''queued'' else rn_status run) \<and>
          rn_auth_subject run = auth_subject \<and>
          rn_args_hash run = compute_args_hash (ie_sha256 env) (args_dict (iq_arguments payload))) \<and>
        (\<exists>run2. db_get_run (ie_runs env) (bs_runs s2) (rn_run_id run) = Some run2 \<and> rn_run_id run2 = rn_run_id run \<and>
          execute_invoke env2 payload2 auth_subject2 inbound2 lane2 allow2 confirm2 s2 =
            (s2, if auth_subject2 \<noteq> rn_auth_subject run then Inl (HTTPException 403 ''idempotency_key_not_permitted'')
                 else if compute_args_hash (ie_sha256 env2) (args_dict (iq_arguments payload2)) \<noteq> rn_args_hash run
                 then Inl (HTTPException 409 ''command_bus_idempotency_conflict'')
                 else Inr (response_from_existing_run run2 (iq_invoke_version payload2))))"
proof -
  from table have laws: "run_table_laws (ie_runs env) rinv" by (rule keyed_runs.axioms(1))
  then have orm: "orm_table (ie_runs env) cr_run_id rinv" by (simp add: run_table_laws_def)
  show ?thesis
  proof (cases "db_get_run_by_idempotency_key (ie_runs env) (bs_runs s1) (sp_command_id command) key")
    case None
    with no_run_left [OF laws inv first] show ?thesis by simp
  next
    case (Some run)
    have "bus_reaches (ie_runs env) (ie_events env) (bs_runs s, bs_events s) (bs_runs s1, bs_events s1)"
      using execute_invoke_written [of env s payload auth_subject inbound lane allow confirm] by (simp add: first(3))
    from keyed_runs.reaches_keep_runs [OF table this] inv have inv1: "rinv (bs_runs s1)" by simp
    have k: "strip key = key" "key \<noteq> []" using run_table_laws.key_of_strip [OF laws first(2)] by simp_all
    obtain run2 where run2: "db_get_run_by_idempotency_key (ie_runs env) (bs_runs s2) (sp_command_id command) key = Some run2"
        "db_get_run (ie_runs env) (bs_runs s2) (rn_run_id run) = Some run2" "rn_command_id run2 = sp_command_id command"
        "rn_idempotency_key run2 = Some key" "rn_run_id run2 = rn_run_id run" "rn_auth_subject run2 = rn_auth_subject run"
        "rn_args_hash run2 = rn_args_hash run"
      using keyed_runs.later_lookup [OF table between, unfolded fst_conv, OF inv1 Some k] .
    have "existing_run_of env2 (Some key) command2 s2 = Some run2"
      using run2(1) later by (simp add: existing_run_of_def)
    then have "execute_invoke env2 payload2 auth_subject2 inbound2 lane2 allow2 confirm2 s2 =
        (s2, replay_existing payload2 auth_subject2 command2 (Some key)
          (compute_args_hash (ie_sha256 env2) (args_dict (iq_arguments payload2))) run2)"
      using later by (simp add: execute_invoke_def Let_def)
    moreover have "dict_get response ''run_id'' = PStr (rn_run_id run) \<and>
        dict_get response ''status'' = PStr (if rn_status run = [] then ''queued'' else rn_status run) \<and>
        rn_auth_subject run = auth_subject \<and>
        rn_args_hash run = compute_args_hash (ie_sha256 env) (args_dict (iq_arguments payload))"
      if "outcome = Inr response" for response
    proof -
      have exec: "execute_invoke env payload auth_subject inbound lane allow confirm s = (s1, Inr response)"
        using first(3) that by simp
      obtain run' where "db_get_run_by_idempotency_key (ie_runs env) (bs_runs s1) (sp_command_id command) key = Some run'"
          "rn_auth_subject run' = auth_subject"
          "rn_args_hash run' = compute_args_hash (ie_sha256 env) (args_dict (iq_arguments payload))"
          "dict_get response ''run_id'' = PStr (rn_run_id run')"
          "dict_get response ''status'' = PStr (if rn_status run' = [] then ''queued'' else rn_status run')"
        using answered_run [OF orm inv first(1,2) exec] .
      with Some show ?thesis by simp
    qed
    ultimately show ?thesis
      using Some run2 later(3) by (simp add: replay_existing_cases)
  qed
qed

section \<open>An invocation\<close>

text \<open>A reading command with a path parameter, sent to a client that counts its requests.\<close>

definition demo_command :: CommandSpec where
  "demo_command = \<lparr>sp_command_id = ''op::get'', sp_aliases = [], sp_layer = ''raw'', sp_method = ''GET'',
     sp_path_template = ''/n/{id}'', sp_operation_id = Some ''get'', sp_risk = ''read_only'', sp_effect = ''read'',
     sp_idempotency = ''safe'', sp_approval_mode = ''none'', sp_input_schema = [], sp_open_world = False, sp_justification = []\<rparr>"

definition demo_client :: "nat client" where
  "demo_client req w = (Suc w, Inr \<lparr>hr_status_code = 200, hr_headers = [], hr_text = ''ok'', hr_json = None\<rparr>)"

definition invoke_demo_env :: "(CommandRun list, CommandRunEvent list, unit, nat) invoke_env" where
  "invoke_demo_env = \<lparr>ie_runs = run_table, ie_events = event_tbl, ie_orders = None,
     ie_environ = (\<lambda>v. if v = ''GUARDIAN_COMMAND_BUS_LOOPBACK_BASE'' then Some ''http://h'' else None), ie_sha256 = (\<lambda>t. t),
     ie_brackets = (\<lambda>_. None), ie_fs = demo_fs, ie_cwd = ''/'', ie_clock = (\<lambda>_. demo_clock), ie_run_id = ''run_1'',
     ie_task_id = ''t'', ie_manifest = Inr ([(''op::get'', demo_command)], [demo_command]), ie_client = demo_client,
     ie_internal = (\<lambda>_ _ _ w. (w, Inr [])), ie_deadline = None\<rparr>"

definition demo_payload :: "string \<Rightarrow> InvokeRequest" where
  "demo_payload item = \<lparr>iq_invoke_version = ''1.0'', iq_command_id = ''op::get'',
     iq_actor = \<lparr>ac_kind = ''human'', ac_id = ''u'', ac_session_id = None, ac_delegated_by = None\<rparr>,
     iq_arguments = \<lparr>ar_path_params = [(''id'', PStr item)], ar_query = [], ar_headers = [], ar_body = PNone\<rparr>,
     iq_idempotency_key = Some ''k'', iq_provenance_json = [], iq_permission_profile = None, iq_external_transport = None,
     iq_external_target_url = None, iq_external_policy_rules = [], iq_external_command_namespace = None,
     iq_external_command_name = None, iq_external_project_id = None, iq_external_thread_id = None,
     iq_external_connector_name = None, iq_work_order_id = None, iq_fields_set = []\<rparr>"

definition demo_start :: "(CommandRun list, CommandRunEvent list, unit, nat) bus_state" where
  "demo_start = \<lparr>bs_runs = [], bs_events = [], bs_orders = (), bs_world = 0\<rparr>"

abbreviation demo_invoke :: "string \<Rightarrow> (CommandRun list, CommandRunEvent list, unit, nat) bus_state \<Rightarrow>
    (CommandRun list, CommandRunEvent list, unit, nat) bus_state \<times> (invoke_error + pydict)" where
  "demo_invoke item \<equiv> execute_invoke invoke_demo_env (demo_payload item) ''u'' [] ''raw'' False False"

lemma demo_ran:
  "case demo_invoke ''7'' demo_start of (s, Inr r) \<Rightarrow> bs_world s = 1 \<and> dict_get r ''status'' = PStr ''completed'' | _ \<Rightarrow> False"
  by code_simp

lemma demo_result:
  obtains s r where "demo_invoke ''7'' demo_start = (s, Inr r)" "bs_world s = 1" "dict_get r ''status'' = PStr ''completed''"
  using demo_ran by (cases "demo_invoke ''7'' demo_start") (auto split: sum.splits)

lemma demo_checks:
  "check_request invoke_demo_env (demo_payload ''7'') ''u'' = Inr demo_command" "check_request invoke_demo_env (demo_payload ''8'') ''u'' = Inr demo_command"
  "key_of (demo_payload ''7'') = Some ''k''" "key_of (demo_payload ''8'') = Some ''k''"
  "existing_run_of invoke_demo_env (key_of (demo_payload ''7'')) demo_command demo_start = None"
  by code_simp+

lemma demo_table: "orm_table (ie_runs invoke_demo_env) cr_run_id (list_invar cr_run_id)" "list_invar cr_run_id (bs_runs demo_start)"
  by (simp_all add: invoke_demo_env_def run_table_def orm_table_list_orm demo_start_def list_invar_def)



text \<open>After the call for item 7, another run is created; then the calls for items 7 and 8 come in under the used key.\<close>

definition demo_later :: "(CommandRun list, CommandRunEvent list, unit, nat) bus_state" where
  "demo_later = (let s = fst (demo_invoke ''7'' demo_start) in
     s\<lparr>bs_runs := fst (projr (db_create_run run_table (bs_runs s) demo_clock ''run_2'' demo_args))\<rparr>)"

lemma demo_rows:
  "let rs = bs_runs (fst (demo_invoke ''7'' demo_start)) in map cr_run_id rs = [''run_1''] \<and> map cr_command_id rs = [''op::get'']"
  by code_simp

lemma demo_created:
  assumes "map cr_run_id rs = [''run_1'']" "map cr_command_id rs = [''op::get'']"
  shows "db_create_run run_table rs demo_clock ''run_2'' demo_args =
    Inr (rs @ [new_row demo_clock ''run_2'' demo_args], created_dict ''run_2'' demo_args)"
  using assms
  by (auto simp: db_create_run_def list_add_def run_constraint_def same_key_def new_row_def demo_args_def RUN_STATUSES_def
      map_eq_Cons_conv)

theorem invoke_idempotent_witness:
  "map cr_run_id (bs_runs demo_later) = [''run_1'', ''run_2''] \<and> fst (demo_invoke ''7'' demo_later) = demo_later \<and>
   demo_invoke ''8'' demo_later = (demo_later, Inl (HTTPException 409 ''command_bus_idempotency_conflict''))"
proof -
  obtain s r where run: "demo_invoke ''7'' demo_start = (s, Inr r)" using demo_result .
  have rows: "map cr_run_id (bs_runs s) = [''run_1'']" "map cr_command_id (bs_runs s) = [''op::get'']"
    using demo_rows by (simp_all add: run Let_def)
  note created = demo_created [OF rows]
  have later: "demo_later = s\<lparr>bs_runs := bs_runs s @ [new_row demo_clock ''run_2'' demo_args]\<rparr>"
    by (simp add: demo_later_def Let_def run created)
  have "bus_reaches run_table event_tbl (bs_runs s, []) (bs_runs demo_later, [])"
    using bus_create [OF bus_start created, of event_tbl "[]"] by (simp add: later)
  then have between: "bus_reaches (ie_runs invoke_demo_env) event_tbl (bs_runs s, []) (bs_runs demo_later, [])"
    by (simp add: invoke_demo_env_def)
  have table: "keyed_runs (ie_runs invoke_demo_env) rows_valid" "rows_valid (bs_runs demo_start)"
    using keyed_lists.keyed_runs_axioms by (simp_all add: invoke_demo_env_def demo_start_def rows_valid_def)
  note idem = invoke_idempotent [OF table demo_checks(1,3) run between refl]
  have hash: "compute_args_hash (ie_sha256 invoke_demo_env) (args_dict (iq_arguments (demo_payload ''8''))) \<noteq>
      compute_args_hash (ie_sha256 invoke_demo_env) (args_dict (iq_arguments (demo_payload ''7'')))" by code_simp
  have "fst (demo_invoke ''7'' demo_later) = demo_later"
    using idem [OF demo_checks(1) refl demo_checks(3), of "[]" "''raw''" False False] by (auto split: option.splits)
  moreover have "demo_invoke ''8'' demo_later = (demo_later, Inl (HTTPException 409 ''command_bus_idempotency_conflict''))"
    using idem [OF demo_checks(2) refl demo_checks(4), of "[]" "''raw''" False False] hash
    by (auto split: option.splits)
  ultimately show ?thesis using rows(1) unfolding later by (simp add: new_row_def)
qed

end
