(* ===== verification/Turn_Lock.thy ===== *)
theory Turn_Lock
  imports Py_Base
begin

text \<open>
  Model of \<^verbatim>\<open>guardian/queue/turn_lock.py\<close>: the lock that lets one task at a time complete a turn of a chat thread. The
  lock is a key with a lifetime in Redis; the scripts the module sends are translated and run in one step, as
  Redis runs them. Redis, the two JSON codecs (Python's and that of Redis's Lua), the clocks and fresh ids are
  parameters; retries on a lost connection are not modelled. The results are that others cannot take or remove a
  held lock, that the holder can renew and release it, and that no lock is held for ever.
\<close>

section \<open>Redis and the codecs\<close>

text \<open>
  \<open>GET\<close>, \<open>SET key value EX ttl\<close> and \<open>DEL\<close> at a time in milliseconds, the lifetime in seconds.
\<close>

record 's redis =
  rd_get :: "'s \<Rightarrow> int \<Rightarrow> string \<Rightarrow> string option"
  rd_set :: "'s \<Rightarrow> int \<Rightarrow> string \<Rightarrow> string \<Rightarrow> int \<Rightarrow> 's"
  rd_del :: "'s \<Rightarrow> int \<Rightarrow> string \<Rightarrow> 's"

definition rd_set_nx :: "'s redis \<Rightarrow> 's \<Rightarrow> int \<Rightarrow> string \<Rightarrow> string \<Rightarrow> int \<Rightarrow> 's \<times> bool" where
  "rd_set_nx api s t key v ttl =
     (if rd_get api s t key = None then (rd_set api s t key v ttl, True) else (s, False))"

definition rd_delete :: "'s redis \<Rightarrow> 's \<Rightarrow> int \<Rightarrow> string \<Rightarrow> 's \<times> bool" where
  "rd_delete api s t key = (rd_del api s t key, rd_get api s t key \<noteq> None)"

record json_codec =
  jc_dumps :: "pydict \<Rightarrow> string"
  jc_loads :: "string \<Rightarrow> pyval option"
  lua_encode :: "pydict \<Rightarrow> string"
  lua_decode :: "string \<Rightarrow> pyval option"

section \<open>The lock\<close>

record TurnLockEnvelope =
  tl_thread_id :: int
  tl_owner_task_id :: string
  tl_turn_id :: string
  tl_acquired_at :: string
  tl_renewed_at :: string
  tl_lease_expires_at :: string
  tl_lease_ttl_seconds :: int
  tl_lease_token :: string
  tl_source :: "string option"

definition as_dict :: "TurnLockEnvelope \<Rightarrow> pydict" where
  "as_dict l =
     [(''thread_id'', PInt (tl_thread_id l)), (''owner_task_id'', PStr (tl_owner_task_id l)), (''turn_id'', PStr (tl_turn_id l)),
      (''acquired_at'', PStr (tl_acquired_at l)), (''renewed_at'', PStr (tl_renewed_at l)),
      (''lease_expires_at'', PStr (tl_lease_expires_at l)), (''lease_ttl_seconds'', PInt (tl_lease_ttl_seconds l)),
      (''lease_token'', PStr (tl_lease_token l)), (''source'', opt_str (tl_source l))]"

definition DEFAULT_TTL_SECONDS :: int where "DEFAULT_TTL_SECONDS = 180"

text \<open>\<open>raw\<close> is the value of \<open>CODEXIFY_TURN_LOCK_TTL_SECONDS\<close>.\<close>

definition lock_ttl_seconds :: "string option \<Rightarrow> int" where
  "lock_ttl_seconds raw =
     max 15 (case raw of None \<Rightarrow> DEFAULT_TTL_SECONDS
       | Some text \<Rightarrow> (case parse_int text of None \<Rightarrow> DEFAULT_TTL_SECONDS | Some value \<Rightarrow> value))"

definition coerce_lock_ttl_seconds :: "string option \<Rightarrow> int option \<Rightarrow> int" where
  "coerce_lock_ttl_seconds raw ttl_seconds =
     max 1 (case ttl_seconds of None \<Rightarrow> lock_ttl_seconds raw | Some n \<Rightarrow> if n = 0 then lock_ttl_seconds raw else n)"

text \<open>
  The lock built on acquisition, where no times are given; \<open>new_turn\<close> and \<open>new_token\<close> are the fresh ids, drawn
  when needed.
\<close>

definition build_turn_lock_envelope ::
    "string option \<Rightarrow> pydt \<Rightarrow> string \<Rightarrow> string \<Rightarrow> int \<Rightarrow> string \<Rightarrow> string option \<Rightarrow> int option \<Rightarrow> string option \<Rightarrow> TurnLockEnvelope" where
  "build_turn_lock_envelope raw now new_turn new_token thread_id owner_task_id turn_id ttl_seconds source =
     (let ttl = coerce_lock_ttl_seconds raw ttl_seconds in
      \<lparr>tl_thread_id = thread_id, tl_owner_task_id = owner_task_id,
       tl_turn_id = (case turn_id of Some (c # cs) \<Rightarrow> c # cs | _ \<Rightarrow> new_turn),
       tl_acquired_at = isoformat now, tl_renewed_at = isoformat now,
       tl_lease_expires_at = isoformat (dt_add_us now (ttl * 1000000)), tl_lease_ttl_seconds = ttl,
       tl_lease_token = new_token,
       tl_source = (case source of None \<Rightarrow> None | Some x \<Rightarrow> or_none (strip x))\<rparr>)"

definition or_zero :: "pyval \<Rightarrow> pyval" where
  "or_zero v = (if truthy v then v else PInt 0)"

text \<open>An error in the last conversion is not caught and leaves the function.\<close>

definition envelope_from_mapping :: "string \<Rightarrow> pydict \<Rightarrow> py_error + TurnLockEnvelope option" where
  "envelope_from_mapping new_turn payload =
     (let text = (\<lambda>k. strip (str_or_empty (dict_get payload k))) in
      case py_int (or_zero (dict_get payload ''thread_id'')) of
        Inl _ \<Rightarrow> Inr None
      | Inr thread_id \<Rightarrow>
        if thread_id = 0 \<or> text ''owner_task_id'' = [] \<or> text ''acquired_at'' = [] \<or> text ''renewed_at'' = [] \<or>
          text ''lease_expires_at'' = [] \<or> text ''lease_token'' = [] then Inr None
        else
          (let ttl = dict_get payload ''lease_ttl_seconds''; turn = dict_get payload ''turn_id'' in
           case py_int (if truthy ttl then ttl else PInt DEFAULT_TTL_SECONDS) of
             Inl e \<Rightarrow> Inl e
           | Inr ttl_seconds \<Rightarrow>
             Inr (Some \<lparr>tl_thread_id = thread_id, tl_owner_task_id = text ''owner_task_id'',
               tl_turn_id = (if truthy turn then py_str turn else new_turn), tl_acquired_at = text ''acquired_at'',
               tl_renewed_at = text ''renewed_at'', tl_lease_expires_at = text ''lease_expires_at'',
               tl_lease_ttl_seconds = ttl_seconds, tl_lease_token = text ''lease_token'',
               tl_source = or_none (text ''source'')\<rparr>)))"

definition decode_turn_lock_value :: "json_codec \<Rightarrow> string \<Rightarrow> string option \<Rightarrow> py_error + TurnLockEnvelope option" where
  "decode_turn_lock_value codec new_turn raw =
     (case raw of
        None \<Rightarrow> Inr None
      | Some text \<Rightarrow>
        if text = [] then Inr None
        else (case jc_loads codec text of
                Some (PDict payload) \<Rightarrow> envelope_from_mapping new_turn payload
              | _ \<Rightarrow> Inr None))"

definition serialize_turn_lock :: "json_codec \<Rightarrow> TurnLockEnvelope \<Rightarrow> string" where
  "serialize_turn_lock codec l = jc_dumps codec (sort_key fst (as_dict l))"

datatype expected = Owner string | Lock TurnLockEnvelope

fun expected_owner_and_token :: "expected \<Rightarrow> string \<times> string" where
  "expected_owner_and_token (Lock l) = (tl_owner_task_id l, tl_lease_token l)"
| "expected_owner_and_token (Owner s) = (s, [])"

definition matches_expected_lock :: "json_codec \<Rightarrow> string \<Rightarrow> string option \<Rightarrow> expected \<Rightarrow> py_error + bool" where
  "matches_expected_lock codec new_turn current_raw exp =
     (case expected_owner_and_token exp of (owner_task_id, lease_token) \<Rightarrow>
      (case decode_turn_lock_value codec new_turn current_raw of
         Inl e \<Rightarrow> Inl e
       | Inr (Some current_lock) \<Rightarrow>
         Inr (tl_owner_task_id current_lock = owner_task_id \<and> (lease_token = [] \<or> tl_lease_token current_lock = lease_token))
       | Inr None \<Rightarrow> Inr (current_raw = Some owner_task_id)))"

definition turn_lock_key :: "int \<Rightarrow> string" where
  "turn_lock_key thread_id = ''turn_lock:'' @ show_int thread_id"

section \<open>Operations\<close>

text \<open>
  \<open>acquire_turn_lock\<close>, with \<open>return_envelope\<close> or not; the result is the new lock, if it was acquired.
\<close>

record acquire_args =
  aq_thread_id :: int
  aq_owner :: string
  aq_ttl_seconds :: "int option"
  aq_turn_id :: "string option"
  aq_source :: "string option"
  aq_return_envelope :: bool
  aq_now :: pydt
  aq_new_turn :: string
  aq_new_token :: string

definition acquire_ttl :: "string option \<Rightarrow> acquire_args \<Rightarrow> int" where
  "acquire_ttl raw a = coerce_lock_ttl_seconds raw (aq_ttl_seconds a)"

definition acquired_lock :: "string option \<Rightarrow> acquire_args \<Rightarrow> TurnLockEnvelope" where
  "acquired_lock raw a = build_turn_lock_envelope raw (aq_now a) (aq_new_turn a) (aq_new_token a) (aq_thread_id a) (aq_owner a)
     (aq_turn_id a) (Some (acquire_ttl raw a)) (aq_source a)"

definition acquire_turn_lock ::
    "'s redis \<Rightarrow> json_codec \<Rightarrow> string option \<Rightarrow> acquire_args \<Rightarrow> 's \<Rightarrow> int \<Rightarrow> 's \<times> TurnLockEnvelope option" where
  "acquire_turn_lock api codec raw a s t =
     (let envelope = acquired_lock raw a;
          v = (if aq_return_envelope a \<or> aq_turn_id a \<noteq> None \<or> aq_source a \<noteq> None
            then serialize_turn_lock codec envelope else aq_owner a)
      in case rd_set_nx api s t (turn_lock_key (aq_thread_id a)) v (acquire_ttl raw a) of
           (s', acquired) \<Rightarrow> (s', if acquired then Some envelope else None))"

text \<open>The script of \<open>renew_turn_lock\<close>.\<close>

definition renew_script ::
    "'s redis \<Rightarrow> json_codec \<Rightarrow> 's \<Rightarrow> int \<Rightarrow> string \<Rightarrow> string \<Rightarrow> string \<Rightarrow> string \<Rightarrow> string \<Rightarrow> int \<Rightarrow> 's \<times> string option" where
  "renew_script api codec s t key owner token renewed_at expires_at ttl =
     (case rd_get api s t key of
        None \<Rightarrow> (s, None)
      | Some v \<Rightarrow>
        (case lua_decode codec v of
           Some (PDict payload) \<Rightarrow>
             if dict_get payload ''owner_task_id'' \<noteq> PStr owner \<or> dict_get payload ''lease_token'' \<noteq> PStr token then (s, None)
             else
               (let renewed = lua_encode codec (dict_set (dict_set (dict_set payload ''renewed_at'' (PStr renewed_at))
                  ''lease_expires_at'' (PStr expires_at)) ''lease_ttl_seconds'' (PInt ttl))
                in (rd_set api s t key renewed ttl, Some renewed))
         | _ \<Rightarrow> (s, None)))"

definition renew_turn_lock ::
    "'s redis \<Rightarrow> json_codec \<Rightarrow> string option \<Rightarrow> bool \<Rightarrow> pydt \<Rightarrow> string \<Rightarrow> int \<Rightarrow> TurnLockEnvelope \<Rightarrow> int option \<Rightarrow> 's \<Rightarrow> int \<Rightarrow>
      's \<times> (py_error + TurnLockEnvelope option)" where
  "renew_turn_lock api codec raw has_eval now new_turn thread_id l ttl_seconds s t =
     (if tl_thread_id l \<noteq> thread_id then (s, Inr None)
      else if \<not> has_eval then (s, Inr None)
      else
        (let ttl = coerce_lock_ttl_seconds raw ttl_seconds in
         case renew_script api codec s t (turn_lock_key thread_id) (tl_owner_task_id l) (tl_lease_token l) (isoformat now)
             (isoformat (dt_add_us now (ttl * 1000000))) ttl of
           (s', result) \<Rightarrow>
             (s', case result of None \<Rightarrow> Inr None | Some text \<Rightarrow> decode_turn_lock_value codec new_turn (Some text))))"

text \<open>
  The script of \<open>release_turn_lock\<close>; \<open>None\<close> when Lua raises, because the decoded value cannot be indexed.
\<close>

definition release_script ::
    "'s redis \<Rightarrow> json_codec \<Rightarrow> 's \<Rightarrow> int \<Rightarrow> string \<Rightarrow> string \<Rightarrow> string \<Rightarrow> ('s \<times> bool) option" where
  "release_script api codec s t key owner token =
     (case rd_get api s t key of
        None \<Rightarrow> Some (s, False)
      | Some v \<Rightarrow>
        if v = owner \<and> token = [] then Some (rd_delete api s t key)
        else (case lua_decode codec v of
                Some (PDict payload) \<Rightarrow>
                  if dict_get payload ''owner_task_id'' = PStr owner \<and>
                    (token = [] \<or> dict_get payload ''lease_token'' = PStr token)
                  then Some (rd_delete api s t key) else Some (s, False)
              | Some (PList _) \<Rightarrow> Some (s, False)
              | Some (PStr _) \<Rightarrow> Some (s, False)
              | Some (PBool False) \<Rightarrow> Some (s, False)
              | Some _ \<Rightarrow> None
              | None \<Rightarrow> Some (s, False)))"

text \<open>The read, the comparison in Python and the deletion.\<close>

definition compare_and_delete ::
    "'s redis \<Rightarrow> json_codec \<Rightarrow> string \<Rightarrow> 's \<Rightarrow> int \<Rightarrow> string \<Rightarrow> expected \<Rightarrow> 's \<times> (py_error + bool)" where
  "compare_and_delete api codec new_turn s t key exp =
     (case matches_expected_lock codec new_turn (rd_get api s t key) exp of
        Inl e \<Rightarrow> (s, Inl e)
      | Inr matches \<Rightarrow>
        if \<not> matches then (s, Inr False)
        else (case rd_delete api s t key of (s', deleted) \<Rightarrow> (s', Inr deleted)))"

definition release_turn_lock ::
    "'s redis \<Rightarrow> json_codec \<Rightarrow> bool \<Rightarrow> string \<Rightarrow> int \<Rightarrow> expected \<Rightarrow> 's \<Rightarrow> int \<Rightarrow> 's \<times> (py_error + bool)" where
  "release_turn_lock api codec eval_works new_turn thread_id owner s t =
     (let key = turn_lock_key thread_id in
      case expected_owner_and_token owner of (owner_task_id, lease_token) \<Rightarrow>
      (case (if eval_works then release_script api codec s t key owner_task_id lease_token else None) of
         Some (s', released) \<Rightarrow> (s', Inr released)
       | None \<Rightarrow> compare_and_delete api codec new_turn s t key owner))"

definition release_terminal_attempt_turn_lock ::
    "'s redis \<Rightarrow> json_codec \<Rightarrow> int \<Rightarrow> string \<Rightarrow> string \<Rightarrow> 's \<Rightarrow> int \<Rightarrow> 's \<times> (py_error + bool)" where
  "release_terminal_attempt_turn_lock api codec thread_id owner_task_id lease_token s t =
     (if strip owner_task_id = [] then (s, Inl (ValueError ''Terminal cleanup requires the durable task owner''))
      else if strip lease_token = [] then (s, Inl (ValueError ''Terminal cleanup requires the preserved turn lock token''))
      else
        (let key = turn_lock_key thread_id in
         case rd_get api s t key of
           None \<Rightarrow> (s, Inr True)
         | Some v \<Rightarrow>
           (case lua_decode codec v of
              Some (PDict payload) \<Rightarrow>
                if dict_get payload ''owner_task_id'' \<noteq> PStr owner_task_id \<or> dict_get payload ''lease_token'' \<noteq> PStr lease_token \<or>
                  dict_get payload ''thread_id'' \<noteq> PInt thread_id
                then (s, Inr False)
                else (case rd_delete api s t key of (s', deleted) \<Rightarrow> (s', Inr deleted))
            | _ \<Rightarrow> (s, Inr False))))"

definition clear_turn_lock ::
    "'s redis \<Rightarrow> json_codec \<Rightarrow> string \<Rightarrow> int \<Rightarrow> expected option \<Rightarrow> 's \<Rightarrow> int \<Rightarrow> 's \<times> (py_error + bool)" where
  "clear_turn_lock api codec new_turn thread_id exp s t =
     (let key = turn_lock_key thread_id in
      case exp of
        None \<Rightarrow> (case rd_delete api s t key of (s', deleted) \<Rightarrow> (s', Inr deleted))
      | Some e \<Rightarrow> compare_and_delete api codec new_turn s t key e)"

definition get_turn_lock :: "'s redis \<Rightarrow> json_codec \<Rightarrow> string \<Rightarrow> int \<Rightarrow> 's \<Rightarrow> int \<Rightarrow> py_error + TurnLockEnvelope option" where
  "get_turn_lock api codec new_turn thread_id s t =
     decode_turn_lock_value codec new_turn (rd_get api s t (turn_lock_key thread_id))"

definition get_turn_lock_owner :: "'s redis \<Rightarrow> json_codec \<Rightarrow> string \<Rightarrow> int \<Rightarrow> 's \<Rightarrow> int \<Rightarrow> py_error + string option" where
  "get_turn_lock_owner api codec new_turn thread_id s t =
     (let v = rd_get api s t (turn_lock_key thread_id) in
      case decode_turn_lock_value codec new_turn v of
        Inl e \<Rightarrow> Inl e
      | Inr (Some l) \<Rightarrow> Inr (Some (tl_owner_task_id l))
      | Inr None \<Rightarrow> Inr v)"

section \<open>Sequences of operations\<close>

text \<open>
  The commands that clients send, one after another in the order in which Redis runs them. A conditional
  \<open>clear_turn_lock\<close> and the fallback of \<open>release_turn_lock\<close> send two, the read (\<open>OpCompare\<close>) and, when it matched, the
  deletion (\<open>OpDelete\<close>), between which others may run; the state lists the clients that are between them.
\<close>

datatype lock_op =
    OpAcquire acquire_args
  | OpRenew bool pydt string int TurnLockEnvelope "int option"
  | OpRelease int expected
  | OpTerminal int string string
  | OpClear int
  | OpCompare nat string int expected
  | OpDelete nat int

type_synonym 's lock_world = "'s \<times> (nat \<times> int) list"

fun lock_step :: "'s redis \<Rightarrow> json_codec \<Rightarrow> string option \<Rightarrow> int \<times> lock_op \<Rightarrow> 's lock_world \<Rightarrow> 's lock_world" where
  "lock_step api codec raw (t, OpAcquire a) (s, p) = (fst (acquire_turn_lock api codec raw a s t), p)"
| "lock_step api codec raw (t, OpRenew has_eval now new_turn thread_id l ttl) (s, p) =
     (fst (renew_turn_lock api codec raw has_eval now new_turn thread_id l ttl s t), p)"
| "lock_step api codec raw (t, OpRelease thread_id exp) (s, p) =
     ((case expected_owner_and_token exp of (owner, token) \<Rightarrow>
       (case release_script api codec s t (turn_lock_key thread_id) owner token of None \<Rightarrow> s | Some r \<Rightarrow> fst r)), p)"
| "lock_step api codec raw (t, OpTerminal thread_id owner token) (s, p) =
     (fst (release_terminal_attempt_turn_lock api codec thread_id owner token s t), p)"
| "lock_step api codec raw (t, OpClear thread_id) (s, p) = (fst (clear_turn_lock api codec [] thread_id None s t), p)"
| "lock_step api codec raw (t, OpCompare client new_turn thread_id exp) (s, p) =
     (s, if matches_expected_lock codec new_turn (rd_get api s t (turn_lock_key thread_id)) exp = Inr True
         then (client, thread_id) # p else p)"
| "lock_step api codec raw (t, OpDelete client thread_id) (s, p) =
     (if (client, thread_id) \<in> set p then (fst (rd_delete api s t (turn_lock_key thread_id)), remove1 (client, thread_id) p) else (s, p))"

definition lock_run :: "'s redis \<Rightarrow> json_codec \<Rightarrow> string option \<Rightarrow> (int \<times> lock_op) list \<Rightarrow> 's lock_world \<Rightarrow> 's lock_world" where
  "lock_run api codec raw ops w = fold (lock_step api codec raw) ops w"

fun op_thread :: "lock_op \<Rightarrow> int" where
  "op_thread (OpAcquire a) = aq_thread_id a"
| "op_thread (OpRenew has_eval now new_turn thread_id l ttl) = thread_id"
| "op_thread (OpRelease thread_id exp) = thread_id"
| "op_thread (OpTerminal thread_id owner token) = thread_id"
| "op_thread (OpClear thread_id) = thread_id"
| "op_thread (OpCompare client new_turn thread_id exp) = thread_id"
| "op_thread (OpDelete client thread_id) = thread_id"

text \<open>An operation that does not name the owner with the token (or with none), and no unconditional clearing.\<close>

definition names_other :: "string \<Rightarrow> string \<Rightarrow> string \<Rightarrow> expected \<Rightarrow> bool" where
  "names_other v owner token exp =
     (case expected_owner_and_token exp of (o1, t1) \<Rightarrow> o1 \<noteq> v \<and> (o1 \<noteq> owner \<or> (t1 \<noteq> [] \<and> t1 \<noteq> token)))"

fun foreign :: "string \<Rightarrow> string \<Rightarrow> string \<Rightarrow> lock_op \<Rightarrow> bool" where
  "foreign v owner token (OpAcquire a) = True"
| "foreign v owner token (OpRenew has_eval now new_turn thread_id l ttl) =
     (tl_owner_task_id l \<noteq> owner \<or> tl_lease_token l \<noteq> token)"
| "foreign v owner token (OpRelease thread_id exp) = names_other v owner token exp"
| "foreign v owner token (OpTerminal thread_id o1 t1) = (o1 \<noteq> owner \<or> t1 \<noteq> token)"
| "foreign v owner token (OpClear thread_id) = False"
| "foreign v owner token (OpCompare client new_turn thread_id exp) = names_other v owner token exp"
| "foreign v owner token (OpDelete client thread_id) = True"

text \<open>A stored text that both sides read as a lock of this owner and token.\<close>

definition lock_text :: "json_codec \<Rightarrow> string \<Rightarrow> string \<Rightarrow> string \<Rightarrow> bool" where
  "lock_text codec v owner token =
     ((\<exists>p. lua_decode codec v = Some (PDict p) \<and> dict_get p ''owner_task_id'' = PStr owner \<and> dict_get p ''lease_token'' = PStr token) \<and>
      (\<forall>new_turn. \<exists>l. decode_turn_lock_value codec new_turn (Some v) = Inr (Some l) \<and>
         tl_owner_task_id l = owner \<and> tl_lease_token l = token))"

text \<open>Distinct threads have distinct keys.\<close>

lemma show_nat_parts:
  "show_nat n \<noteq> []" "last (show_nat n) = digit_char (n mod 10)"
  "butlast (show_nat n) = (if n < 10 then [] else show_nat (n div 10))"
  by (simp_all add: show_nat.simps [of n])

lemma digit_char_inj: "a < 10 \<Longrightarrow> b < 10 \<Longrightarrow> digit_char a = digit_char b \<Longrightarrow> a = b"
  by (simp add: digit_char_def)

lemma show_nat_inj: "show_nat n = show_nat m \<Longrightarrow> n = m"
proof (induction n arbitrary: m rule: less_induct)
  case (less n)
  have d: "n mod 10 = m mod 10"
    using less.prems show_nat_parts(2) [of n] show_nat_parts(2) [of m] by (intro digit_char_inj) simp_all
  have b: "(if n < 10 then [] else show_nat (n div 10)) = (if m < 10 then [] else show_nat (m div 10))"
    using less.prems show_nat_parts(3) by metis
  show ?case
  proof (cases "n < 10")
    case True
    with b show_nat_parts(1) [of "m div 10"] have "m < 10" by (auto split: if_splits)
    with True d show ?thesis by simp
  next
    case False
    with b show_nat_parts(1) [of "n div 10"] have "m \<ge> 10" "show_nat (n div 10) = show_nat (m div 10)"
      by (auto split: if_splits)
    with less.IH [of "n div 10" "m div 10"] False have "n div 10 = m div 10" by simp
    with d show ?thesis by (metis div_mod_decomp)
  qed
qed

lemma show_nat_hd: "\<exists>d < 10. hd (show_nat n) = digit_char d"
proof (induction n rule: less_induct)
  case (less n)
  show ?case
  proof (cases "n < 10")
    case False
    then have "hd (show_nat n) = hd (show_nat (n div 10))" by (simp add: show_nat.simps [of n] show_nat_parts(1))
    with less [of "n div 10"] False show ?thesis by simp
  qed (auto simp: show_nat.simps [of n])
qed

lemma show_int_inj: "show_int i = show_int j \<Longrightarrow> i = j"
proof -
  have "digit_char d \<noteq> CHR ''-''" if "d < 10" for d
  proof
    assume "digit_char d = CHR ''-''"
    then have "(of_char (digit_char d) :: nat) = of_char (CHR ''-'')" by simp
    with that show False by (simp add: digit_char_def)
  qed
  then have no_minus: "show_nat n \<noteq> CHR ''-'' # cs" for n cs
    using show_nat_hd [of n] by (metis list.sel(1))
  have minus_no: "CHR ''-'' # cs \<noteq> show_nat n" for n cs
    using no_minus by metis
  show "show_int i = show_int j \<Longrightarrow> i = j"
    using show_nat_inj [of "nat (- i)" "nat (- j)"] show_nat_inj [of "nat i" "nat j"]
    by (auto simp: show_int_def no_minus minus_no split: if_splits)
qed

lemma turn_lock_key_inj [simp]: "turn_lock_key i = turn_lock_key j \<longleftrightarrow> i = j"
  by (auto simp: turn_lock_key_def dest: show_int_inj)

text \<open>Whatever an operation is, it leaves the state, deletes the key of its thread, or sets it with a lifetime.\<close>

fun op_ttl :: "string option \<Rightarrow> lock_op \<Rightarrow> int" where
  "op_ttl raw (OpAcquire a) = acquire_ttl raw a"
| "op_ttl raw (OpRenew has_eval now new_turn thread_id l ttl) = coerce_lock_ttl_seconds raw ttl"
| "op_ttl raw op1 = 1"

lemma release_script_effect: "release_script api codec s t key o1 t1 = Some r \<Longrightarrow> fst r \<in> {s, rd_del api s t key}"
  by (auto simp: release_script_def rd_delete_def split: option.splits if_splits pyval.splits bool.splits)

text \<open>The two halves in a row are the comparison and deletion of the code.\<close>

lemma compare_then_delete:
  assumes "(client, thread_id) \<notin> set p"
  shows "lock_run api codec raw [(t, OpCompare client new_turn thread_id exp), (t, OpDelete client thread_id)] (s, p) =
    (fst (compare_and_delete api codec new_turn s t (turn_lock_key thread_id) exp), p)"
  using assms by (auto simp: lock_run_def compare_and_delete_def split: sum.splits prod.splits)

lemma step_effect:
  "fst (lock_step api codec raw (t, op1) w) = fst w \<or>
   fst (lock_step api codec raw (t, op1) w) = rd_del api (fst w) t (turn_lock_key (op_thread op1)) \<or>
   (\<exists>v. fst (lock_step api codec raw (t, op1) w) = rd_set api (fst w) t (turn_lock_key (op_thread op1)) v (op_ttl raw op1))"
proof -
  obtain s p where w: "w = (s, p)" by fastforce
  show ?thesis
  proof (cases op1)
    case (OpAcquire a)
    then show ?thesis by (auto simp: w acquire_turn_lock_def rd_set_nx_def Let_def)
  next
    case (OpRenew has_eval now new_turn thread_id l ttl)
    then show ?thesis by (auto simp: w renew_turn_lock_def renew_script_def Let_def split: option.splits pyval.splits)
  next
    case (OpRelease thread_id exp)
    obtain o1 t1 where e: "expected_owner_and_token exp = (o1, t1)" by fastforce
    show ?thesis
    proof (cases "release_script api codec s t (turn_lock_key thread_id) o1 t1")
      case (Some r)
      from release_script_effect [OF this] Some show ?thesis by (auto simp: w OpRelease e)
    qed (simp add: w OpRelease e)
  next
    case (OpTerminal thread_id o1 t1)
    then show ?thesis
      by (auto simp: w release_terminal_attempt_turn_lock_def rd_delete_def Let_def split: option.splits pyval.splits)
  qed (auto simp: w clear_turn_lock_def rd_delete_def Let_def)
qed

lemma step_pending:
  assumes "(c, thread) \<in> set (snd (lock_step api codec raw (t, op1) (s, p)))" "(c, thread) \<notin> set p"
  shows "\<exists>new_turn exp. op1 = OpCompare c new_turn thread exp \<and>
    matches_expected_lock codec new_turn (rd_get api s t (turn_lock_key thread)) exp = Inr True"
  using assms by (cases op1) (auto split: if_splits dest: notin_set_remove1)

text \<open>What Redis promises of these commands.\<close>

locale redis_server =
  fixes api :: "'s redis"
  assumes get_set: "t \<le> t' \<Longrightarrow> rd_get api (rd_set api s t key v ttl) t' key' =
      (if key' = key then (if t' < t + 1000 * ttl then Some v else None) else rd_get api s t' key')"
    and get_del: "t \<le> t' \<Longrightarrow> rd_get api (rd_del api s t key) t' key' = (if key' = key then None else rd_get api s t' key')"
    and expires: "rd_get api s t key = None \<Longrightarrow> t \<le> t' \<Longrightarrow> rd_get api s t' key = None"
    and persists: "rd_get api s t' key = Some v \<Longrightarrow> t \<le> t' \<Longrightarrow> rd_get api s t key = Some v"
begin

lemma release_script_foreign:
  assumes "rd_get api s t key = Some v" "lock_text codec v owner token" "o1 \<noteq> v" "o1 \<noteq> owner \<or> (t1 \<noteq> [] \<and> t1 \<noteq> token)"
  shows "release_script api codec s t key o1 t1 = Some (s, False)"
  using assms by (auto simp: release_script_def lock_text_def)

text \<open>A foreign operation leaves the held lock, and every operation leaves the locks of other threads.\<close>

lemma matches_foreign:
  assumes "lock_text codec v owner token" "names_other v owner token exp"
  shows "matches_expected_lock codec new_turn (Some v) exp = Inr False"
proof -
  obtain l where "decode_turn_lock_value codec new_turn (Some v) = Inr (Some l)" "tl_owner_task_id l = owner" "tl_lease_token l = token"
    using assms(1) by (auto simp: lock_text_def)
  with assms(2) show ?thesis by (auto simp: matches_expected_lock_def names_other_def split: prod.splits)
qed

lemma foreign_step_same:
  assumes v: "rd_get api s t (turn_lock_key thread) = Some v" and held: "lock_text codec v owner token"
    and "foreign v owner token op1" "op_thread op1 = thread" and free: "thread \<notin> snd ` set p"
  shows "lock_step api codec raw (t, op1) (s, p) = (s, p)"
proof (cases op1)
  case (OpAcquire a)
  with assms show ?thesis by (simp add: acquire_turn_lock_def rd_set_nx_def Let_def)
next
  case (OpRenew has_eval now new_turn thread_id l ttl)
  with assms show ?thesis by (auto simp: renew_turn_lock_def renew_script_def lock_text_def Let_def)
next
  case (OpRelease thread_id exp)
  with assms have other: "names_other v owner token exp" and id: "thread_id = thread" by simp_all
  obtain o1 t1 where e: "expected_owner_and_token exp = (o1, t1)" by fastforce
  show ?thesis
    using release_script_foreign [OF v held, of o1 t1] other by (simp add: OpRelease id e names_other_def)
next
  case (OpTerminal thread_id o1 t1)
  with assms show ?thesis by (auto simp: release_terminal_attempt_turn_lock_def lock_text_def Let_def)
next
  case (OpCompare client new_turn thread_id exp)
  with assms matches_foreign [OF held] show ?thesis by simp
next
  case (OpDelete client thread_id)
  with assms show ?thesis by force
qed (use assms in simp)

lemma other_thread_step:
  assumes "t \<le> t'" "op_thread op1 \<noteq> thread"
  shows "rd_get api (fst (lock_step api codec raw (t, op1) w)) t' (turn_lock_key thread) = rd_get api (fst w) t' (turn_lock_key thread)"
  using step_effect [of api codec raw t op1 w] assms by (auto simp: get_set get_del)

lemma other_thread_pending:
  assumes "op_thread op1 \<noteq> thread" "thread \<notin> snd ` set (snd w)"
  shows "thread \<notin> snd ` set (snd (lock_step api codec raw (t, op1) w))"
  using assms step_pending [of _ thread api codec raw t op1 "fst w" "snd w"] by fastforce

lemma lock_kept:
  assumes held: "lock_text codec v owner token" and "rd_get api (fst w) t (turn_lock_key thread) = Some v" "thread \<notin> snd ` set (snd w)"
    and "\<forall>x \<in> set ops. fst x \<le> t \<and> (op_thread (snd x) = thread \<longrightarrow> foreign v owner token (snd x))"
  shows "rd_get api (fst (lock_run api codec raw ops w)) t (turn_lock_key thread) = Some v"
  using assms(2-)
proof (induction ops arbitrary: w)
  case (Cons x ops)
  obtain t1 op1 where x: "x = (t1, op1)" by fastforce
  let ?w = "lock_step api codec raw (t1, op1) w"
  have le: "t1 \<le> t" using Cons.prems(3) x by simp
  have "rd_get api (fst ?w) t (turn_lock_key thread) = Some v \<and> thread \<notin> snd ` set (snd ?w)"
  proof (cases "op_thread op1 = thread")
    case True
    moreover have "rd_get api (fst w) t1 (turn_lock_key thread) = Some v" using Cons.prems(1) persists le by blast
    ultimately have "lock_step api codec raw (t1, op1) (fst w, snd w) = (fst w, snd w)"
      using Cons.prems(2,3) x by (intro foreign_step_same [OF _ held]) simp_all
    with Cons.prems(1,2) show ?thesis by simp
  next
    case False
    then show ?thesis using Cons.prems(1,2) other_thread_step [OF le] other_thread_pending by simp
  qed
  with Cons.IH [of ?w] Cons.prems(3) show ?case by (simp add: lock_run_def x)
qed (simp add: lock_run_def)

lemma step_gone:
  assumes "rd_get api (fst w) t (turn_lock_key thread) = None" "t1 \<le> t" "t1 + 1000 * op_ttl raw op1 \<le> t"
  shows "rd_get api (fst (lock_step api codec raw (t1, op1) w)) t (turn_lock_key thread) = None"
  using step_effect [of api codec raw t1 op1 w] assms by (auto simp: get_set get_del)

lemma lock_gone:
  assumes "rd_get api (fst w) t (turn_lock_key thread) = None"
    and "\<forall>x \<in> set ops. fst x \<le> T \<and> op_ttl raw (snd x) \<le> M" "0 \<le> M" "T + 1000 * M \<le> t"
  shows "rd_get api (fst (lock_run api codec raw ops w)) t (turn_lock_key thread) = None"
  using assms(1,2)
proof (induction ops arbitrary: w)
  case (Cons x ops)
  obtain t1 op1 where x: "x = (t1, op1)" by fastforce
  have "t1 \<le> T" "op_ttl raw op1 \<le> M" using Cons.prems(2) x by simp_all
  then have "t1 \<le> t" "t1 + 1000 * op_ttl raw op1 \<le> t" using assms(3,4) by linarith+
  from Cons.IH [OF step_gone [OF Cons.prems(1) this]] Cons.prems(2) show ?case by (simp add: lock_run_def x)
qed (simp add: lock_run_def)

end

section \<open>The codecs\<close>

text \<open>Objects of texts, nulls and integers below the precision of the Lua numbers survive both codecs.\<close>

definition flat :: "pydict \<Rightarrow> bool" where
  "flat d = list_all (\<lambda>(k, v). case v of PStr _ \<Rightarrow> True | PNone \<Rightarrow> True | PInt i \<Rightarrow> \<bar>i\<bar> < 100000000000000 | _ \<Rightarrow> False) d"

text \<open>A dictionary whose owner, token, times and thread make a lock.\<close>

definition locks :: "pydict \<Rightarrow> int \<Rightarrow> string \<Rightarrow> string \<Rightarrow> string \<Rightarrow> bool" where
  "locks d thread owner token turn =
     (dict_get d ''thread_id'' = PInt thread \<and> thread \<noteq> 0 \<and> dict_get d ''owner_task_id'' = PStr owner \<and>
      dict_get d ''lease_token'' = PStr token \<and> dict_get d ''turn_id'' = PStr turn \<and> turn \<noteq> [] \<and> strip owner = owner \<and> owner \<noteq> [] \<and> strip token = token \<and> token \<noteq> [] \<and>
      (\<exists>ttl. dict_get d ''lease_ttl_seconds'' = PInt ttl) \<and>
      (\<forall>k \<in> {''acquired_at'', ''renewed_at'', ''lease_expires_at''}. \<exists>x. dict_get d k = PStr x \<and> strip x \<noteq> []))"

lemma locks_envelope:
  assumes "locks d thread owner token turn"
  shows "\<exists>l. envelope_from_mapping new_turn d = Inr (Some l) \<and> tl_owner_task_id l = owner \<and> tl_lease_token l = token \<and>
    tl_thread_id l = thread \<and> tl_turn_id l = turn"
proof -
  from assms obtain ttl x y z where "dict_get d ''lease_ttl_seconds'' = PInt ttl"
      "dict_get d ''acquired_at'' = PStr x" "strip x \<noteq> []" "dict_get d ''renewed_at'' = PStr y" "strip y \<noteq> []"
      "dict_get d ''lease_expires_at'' = PStr z" "strip z \<noteq> []"
    by (auto simp: locks_def)
  with assms show ?thesis
    by (simp add: locks_def envelope_from_mapping_def Let_def or_zero_def py_str_def)
qed

lemma locks_cong: "dict_get d' = dict_get d \<Longrightarrow> locks d' = locks d"
  by (simp add: locks_def fun_eq_iff)

text \<open>A stored value that both codecs read as such a dictionary.\<close>

definition lock_value :: "json_codec \<Rightarrow> string \<Rightarrow> int \<Rightarrow> string \<Rightarrow> string \<Rightarrow> string \<Rightarrow> bool" where
  "lock_value codec v thread owner token turn =
     (v \<noteq> [] \<and> (\<exists>d. jc_loads codec v = Some (PDict d) \<and> locks d thread owner token turn) \<and>
      (\<exists>d. lua_decode codec v = Some (PDict d) \<and> locks d thread owner token turn \<and> flat d))"

lemma lock_value_decodes:
  assumes "lock_value codec v thread owner token turn"
  shows "\<exists>l. decode_turn_lock_value codec new_turn (Some v) = Inr (Some l) \<and> tl_owner_task_id l = owner \<and>
    tl_lease_token l = token \<and> tl_thread_id l = thread \<and> tl_turn_id l = turn"
  using assms locks_envelope [of _ thread owner token turn new_turn] by (auto simp: lock_value_def decode_turn_lock_value_def)

lemma lock_value_text: "lock_value codec v thread owner token turn \<Longrightarrow> lock_text codec v owner token"
  using lock_value_decodes [of codec v thread owner token turn] by (fastforce simp: lock_text_def lock_value_def locks_def)

lemma strip_not_blank: "c \<in> set x \<Longrightarrow> \<not> py_isspace c \<Longrightarrow> strip x \<noteq> []"
  by (auto simp: strip_def dropWhile_eq_Nil_conv dest: set_dropWhileD)
    (metis dropWhile_eq_Nil_conv Un_iff set_append takeWhile_dropWhile_id set_takeWhileD)

lemma isoformat_not_blank: "strip (isoformat d) \<noteq> []"
proof (rule strip_not_blank)
  show "CHR ''T'' \<in> set (isoformat d)" 
    by (cases "ord2ymd (nat (wall d) div 86400000000 + 1)") (simp add: isoformat_def Let_def)
qed (simp add: py_isspace_def)

lemma dict_get_sorted: "distinct (map fst d) \<Longrightarrow> dict_get (sort_key fst d) = dict_get d"
proof -
  assume d: "distinct (map fst d)"
  then have "distinct (map fst (sort_key fst d))" by (simp add: distinct_map)
  with d have "map_of (sort_key fst d) = map_of d" by (simp add: map_of_inject_set)
  then show ?thesis by (simp add: dict_get_def fun_eq_iff)
qed

lemma flat_dict_set: "flat d \<Longrightarrow> flat [(k, v)] \<Longrightarrow> flat (dict_set d k v)"
  unfolding flat_def dict_set_def by (induction d) auto

text \<open>What a lock needs to be read back: a thread and a lifetime in range, and an owner and a token without blanks around.\<close>

definition lockable :: "string option \<Rightarrow> acquire_args \<Rightarrow> bool" where
  "lockable raw a =
     (aq_thread_id a \<noteq> 0 \<and> \<bar>aq_thread_id a\<bar> < 100000000000000 \<and> acquire_ttl raw a < 100000000000000 \<and>
      strip (aq_owner a) = aq_owner a \<and> aq_owner a \<noteq> [] \<and> strip (aq_new_token a) = aq_new_token a \<and> aq_new_token a \<noteq> [] \<and>
      (case aq_turn_id a of Some (c # cs) \<Rightarrow> True | _ \<Rightarrow> aq_new_turn a \<noteq> []))"

lemma coerce_positive: "1 \<le> coerce_lock_ttl_seconds raw ttl"
  by (simp add: coerce_lock_ttl_seconds_def)

lemma coerce_again: "coerce_lock_ttl_seconds raw (Some (coerce_lock_ttl_seconds raw ttl)) = coerce_lock_ttl_seconds raw ttl"
  using coerce_positive [of raw ttl] by (simp add: coerce_lock_ttl_seconds_def [of raw "Some _"])

lemma acquired_dict:
  assumes "lockable raw a"
  shows "locks (sort_key fst (as_dict (acquired_lock raw a))) (aq_thread_id a) (aq_owner a) (aq_new_token a) (tl_turn_id (acquired_lock raw a)) \<and>
    flat (sort_key fst (as_dict (acquired_lock raw a)))"
proof -
  have "distinct (map fst (as_dict (acquired_lock raw a)))" by (simp add: as_dict_def)
  from locks_cong [OF dict_get_sorted [OF this]]
  have "locks (sort_key fst (as_dict (acquired_lock raw a))) (aq_thread_id a) (aq_owner a) (aq_new_token a) (tl_turn_id (acquired_lock raw a))"
    using assms by (simp add: locks_def lockable_def as_dict_def acquired_lock_def build_turn_lock_envelope_def
      Let_def dict_get_def isoformat_not_blank split: option.splits list.splits)
  moreover have "flat (as_dict (acquired_lock raw a))"
    using assms coerce_positive [of raw "aq_ttl_seconds a"]
    by (simp add: flat_def as_dict_def acquired_lock_def build_turn_lock_envelope_def Let_def lockable_def acquire_ttl_def
      coerce_again opt_str_def split: option.splits)
  ultimately show ?thesis by (simp add: flat_def list_all_iff)
qed

locale lock_codec =
  fixes codec :: json_codec
  assumes dumps: "flat d \<Longrightarrow> jc_dumps codec d \<noteq> [] \<and>
      (\<exists>d'. jc_loads codec (jc_dumps codec d) = Some (PDict d') \<and> dict_get d' = dict_get d) \<and>
      (\<exists>d'. lua_decode codec (jc_dumps codec d) = Some (PDict d') \<and> dict_get d' = dict_get d \<and> flat d')"
    and encode: "flat d \<Longrightarrow> lua_encode codec d \<noteq> [] \<and>
      (\<exists>d'. jc_loads codec (lua_encode codec d) = Some (PDict d') \<and> dict_get d' = dict_get d) \<and>
      (\<exists>d'. lua_decode codec (lua_encode codec d) = Some (PDict d') \<and> dict_get d' = dict_get d \<and> flat d')"
begin

lemma dumps_value: "locks d thread owner token turn \<Longrightarrow> flat d \<Longrightarrow> lock_value codec (jc_dumps codec d) thread owner token turn"
  using dumps [of d] locks_cong unfolding lock_value_def by metis

lemma encode_value: "locks d thread owner token turn \<Longrightarrow> flat d \<Longrightarrow> lock_value codec (lua_encode codec d) thread owner token turn"
  using encode [of d] locks_cong unfolding lock_value_def by metis

lemma acquired_value:
  "lockable raw a \<Longrightarrow> lock_value codec (serialize_turn_lock codec (acquired_lock raw a)) (aq_thread_id a) (aq_owner a) (aq_new_token a) (tl_turn_id (acquired_lock raw a))"
  using acquired_dict [of raw a] dumps_value by (simp add: serialize_turn_lock_def)

text \<open>The holder's renewal, on the value it holds.\<close>

lemma renewed_value:
  assumes v: "lock_value codec v thread owner token turn" and get: "rd_get api s t (turn_lock_key thread) = Some v"
    and l: "tl_thread_id l = thread" "tl_owner_task_id l = owner" "tl_lease_token l = token"
    and ttl: "coerce_lock_ttl_seconds raw ttl < 100000000000000"
  shows "\<exists>v' l'. renew_turn_lock api codec raw True now new_turn thread l ttl s t =
      (rd_set api s t (turn_lock_key thread) v' (coerce_lock_ttl_seconds raw ttl), Inr (Some l')) \<and>
    lock_value codec v' thread owner token turn \<and> tl_thread_id l' = thread \<and> tl_owner_task_id l' = owner \<and> tl_lease_token l' = token \<and> tl_turn_id l' = turn"
proof -
  let ?ttl = "coerce_lock_ttl_seconds raw ttl"
  obtain d where d: "lua_decode codec v = Some (PDict d)" "locks d thread owner token turn" "flat d"
    using v by (auto simp: lock_value_def)
  define d' where "d' = dict_set (dict_set (dict_set d ''renewed_at'' (PStr (isoformat now)))
    ''lease_expires_at'' (PStr (isoformat (dt_add_us now (?ttl * 1000000))))) ''lease_ttl_seconds'' (PInt ?ttl)"
  have "locks d' thread owner token turn" using d(2) isoformat_not_blank by (auto simp: d'_def locks_def)
  moreover have "flat d'"
    using d(3) ttl coerce_positive [of raw ttl] unfolding d'_def by (intro flat_dict_set) (simp_all add: flat_def)
  ultimately have v': "lock_value codec (lua_encode codec d') thread owner token turn" by (rule encode_value)
  then obtain l' where "decode_turn_lock_value codec new_turn (Some (lua_encode codec d')) = Inr (Some l')"
      "tl_thread_id l' = thread" "tl_owner_task_id l' = owner" "tl_lease_token l' = token" "tl_turn_id l' = turn"
    using lock_value_decodes by metis
  moreover have "renew_script api codec s t (turn_lock_key thread) owner token (isoformat now)
      (isoformat (dt_add_us now (?ttl * 1000000))) ?ttl =
    (rd_set api s t (turn_lock_key thread) (lua_encode codec d') ?ttl, Some (lua_encode codec d'))"
    using d by (simp add: renew_script_def get locks_def d'_def Let_def)
  ultimately show ?thesis using v' l by (auto simp: renew_turn_lock_def Let_def)
qed

end

text \<open>The holder's release, by the script or by comparison.\<close>

lemma script_value:
  assumes "lock_value codec v thread owner token turn" "rd_get api s t (turn_lock_key thread) = Some v"
  shows "release_script api codec s t (turn_lock_key thread) owner token = Some (rd_del api s t (turn_lock_key thread), True)"
  using assms by (auto simp: lock_value_def release_script_def locks_def rd_delete_def)

lemma matches_value:
  assumes "lock_value codec v thread owner token turn" "tl_owner_task_id l = owner" "tl_lease_token l = token"
  shows "matches_expected_lock codec new_turn (Some v) (Lock l) = Inr True"
  using lock_value_decodes [OF assms(1), of new_turn] assms(2,3) by (auto simp: matches_expected_lock_def)

lemma released_value:
  assumes v: "lock_value codec v thread owner token turn" and get: "rd_get api s t (turn_lock_key thread) = Some v"
    and l: "tl_owner_task_id l = owner" "tl_lease_token l = token"
  shows "release_turn_lock api codec eval_works new_turn thread (Lock l) s t = (rd_del api s t (turn_lock_key thread), Inr True)"
  using script_value [OF v get] matches_value [OF v l, of new_turn] l get
  by (simp add: release_turn_lock_def compare_and_delete_def rd_delete_def Let_def)

lemma terminal_value:
  assumes v: "lock_value codec v thread owner token turn" and get: "rd_get api s t (turn_lock_key thread) = Some v"
  shows "release_terminal_attempt_turn_lock api codec thread owner token s t = (rd_del api s t (turn_lock_key thread), Inr True)"
  using v get by (auto simp: lock_value_def release_terminal_attempt_turn_lock_def locks_def rd_delete_def Let_def)


section \<open>A server and a codec\<close>

text \<open>Redis as an association list from keys to values and their times of expiry.\<close>

type_synonym redis_store = "(string \<times> string \<times> int) list"

definition store_api :: "redis_store redis" where
  "store_api =
     \<lparr>rd_get = \<lambda>s t k. (case map_of s k of None \<Rightarrow> None | Some (v, e) \<Rightarrow> if t < e then Some v else None),
      rd_set = \<lambda>s t k v ttl. AList.update k (v, t + 1000 * ttl) s,
      rd_del = \<lambda>s t k. AList.delete k s\<rparr>"

interpretation store: redis_server store_api
  by unfold_locales (auto simp: store_api_def update_conv' delete_conv' split: option.splits if_splits)

text \<open>A codec for flat objects: every character of a text is marked, numbers are counted out.\<close>

fun enc_str :: "string \<Rightarrow> string" where
  "enc_str [] = ''.''"
| "enc_str (c # cs) = CHR ''x'' # c # enc_str cs"

fun dec_str :: "string \<Rightarrow> (string \<times> string) option" where
  "dec_str (m # c # r) =
     (if m = CHR ''.'' then Some ([], c # r) else map_option (\<lambda>(s, u). (c # s, u)) (dec_str r))"
| "dec_str [m] = (if m = CHR ''.'' then Some ([], []) else None)"
| "dec_str [] = None"

fun enc_val :: "pyval \<Rightarrow> string" where
  "enc_val (PStr s) = CHR ''s'' # enc_str s"
| "enc_val (PInt i) = (if i < 0 then CHR ''-'' else CHR ''+'') # enc_str (replicate (nat \<bar>i\<bar>) (CHR ''1''))"
| "enc_val v = CHR ''n'' # enc_str []"

definition dec_val :: "string \<Rightarrow> (pyval \<times> string) option" where
  "dec_val r =
     (case r of
        [] \<Rightarrow> None
      | tag # r1 \<Rightarrow>
        map_option (\<lambda>(s, u). (if tag = CHR ''s'' then PStr s else if tag = CHR ''+'' then PInt (int (length s))
          else if tag = CHR ''-'' then PInt (- int (length s)) else PNone, u)) (dec_str r1))"

fun enc_items :: "pydict \<Rightarrow> string" where
  "enc_items [] = []"
| "enc_items (kv # d) = enc_str (fst kv) @ enc_val (snd kv) @ enc_items d"

fun dec_items :: "nat \<Rightarrow> string \<Rightarrow> pydict option" where
  "dec_items n [] = Some []"
| "dec_items 0 r = None"
| "dec_items (Suc n) r =
     (case dec_str r of
        None \<Rightarrow> None
      | Some (k, r1) \<Rightarrow> (case dec_val r1 of None \<Rightarrow> None | Some (v, r2) \<Rightarrow> map_option ((#) (k, v)) (dec_items n r2)))"

definition mark_encode :: "pydict \<Rightarrow> string" where
  "mark_encode d = CHR ''{'' # enc_items d"

definition mark_decode :: "string \<Rightarrow> pyval option" where
  "mark_decode r = map_option PDict (dec_items (length r) (tl r))"

definition mark_codec :: json_codec where
  "mark_codec = \<lparr>jc_dumps = mark_encode, jc_loads = mark_decode, lua_encode = mark_encode, lua_decode = mark_decode\<rparr>"

lemma dec_enc_str [simp]: "dec_str (enc_str s @ r) = Some (s, r)"
  by (induction s) (cases r; simp)+

lemma enc_str_not_Nil [simp]: "enc_str s \<noteq> []"
  by (cases s) simp_all

lemma dec_enc_val: "flat [(k, v)] \<Longrightarrow> dec_val (enc_val v @ r) = Some (v, r)"
  using dec_enc_str [of "[]" r] by (cases v) (simp_all add: flat_def dec_val_def)

lemma dec_enc_items: "flat d \<Longrightarrow> length (enc_items d) \<le> n \<Longrightarrow> dec_items n (enc_items d) = Some d"
proof (induction d arbitrary: n)
  case (Cons kv d)
  obtain k v where kv: "kv = (k, v)" by fastforce
  let ?r = "enc_str k @ enc_val v @ enc_items d"
  obtain m where m: "n = Suc m" using Cons.prems(2) kv by (cases n) auto
  obtain c cs where r: "?r = c # cs" by (cases ?r) simp_all
  have "length (enc_items d) \<le> m" using Cons.prems(2) m kv by (cases "enc_str k") auto
  moreover have "flat d" "flat [(k, v)]" using Cons.prems(1) kv by (simp_all add: flat_def)
  ultimately have "dec_items (Suc m) ?r = Some (kv # d)"
    using Cons.IH dec_enc_val [of k v] unfolding r dec_items.simps(3) unfolding r [symmetric] by (simp add: kv)
  then show ?case by (simp add: m kv)
qed simp

lemma mark_decode_encode: "flat d \<Longrightarrow> mark_decode (mark_encode d) = Some (PDict d)"
  by (simp add: mark_decode_def mark_encode_def dec_enc_items)

interpretation mark: lock_codec mark_codec
  by unfold_locales (simp_all add: mark_codec_def mark_decode_encode, simp_all add: mark_encode_def)

section \<open>Results\<close>

lemma acquired_state:
  assumes "redis_server api" "acquire_turn_lock api codec raw a s t0 = (s1, Some l)" "aq_return_envelope a"
    and "t0 \<le> t" "t < t0 + 1000 * acquire_ttl raw a"
  shows "l = acquired_lock raw a" "rd_get api s1 t (turn_lock_key (aq_thread_id a)) = Some (serialize_turn_lock codec l)"
  using assms by (auto simp: acquire_turn_lock_def rd_set_nx_def redis_server.get_set Let_def split: if_splits)

lemma acquired_fields:
  "tl_thread_id (acquired_lock raw a) = aq_thread_id a" "tl_owner_task_id (acquired_lock raw a) = aq_owner a"
  "tl_lease_token (acquired_lock raw a) = aq_new_token a"
  by (simp_all add: acquired_lock_def build_turn_lock_envelope_def Let_def)

text \<open>The lock a task acquired, through what others do before it expires.\<close>

lemma acquired_lock_kept:
  assumes api: "redis_server api" and codec: "lock_codec codec"
    and acquired: "acquire_turn_lock api codec raw a s t0 = (s1, Some l)" "aq_return_envelope a" "lockable raw a"
    and free: "aq_thread_id a \<notin> snd ` set p"
    and ops: "\<forall>x \<in> set ops. fst x \<le> t \<and> (op_thread (snd x) = aq_thread_id a \<longrightarrow>
      foreign (serialize_turn_lock codec l) (aq_owner a) (tl_lease_token l) (snd x))"
    and time: "t0 \<le> t" "t < t0 + 1000 * acquire_ttl raw a"
  shows "lock_value codec (serialize_turn_lock codec l) (aq_thread_id a) (aq_owner a) (tl_lease_token l) (tl_turn_id l) \<and>
    rd_get api (fst (lock_run api codec raw ops (s1, p))) t (turn_lock_key (aq_thread_id a)) = Some (serialize_turn_lock codec l)"
proof -
  note l = acquired_state [OF api acquired(1,2) time]
  have v: "lock_value codec (serialize_turn_lock codec l) (aq_thread_id a) (aq_owner a) (tl_lease_token l) (tl_turn_id l)"
    using lock_codec.acquired_value [OF codec acquired(3)] by (simp add: l(1) acquired_fields)
  from redis_server.lock_kept [OF api lock_value_text [OF v], of "(s1, p)" t "aq_thread_id a" ops raw] l(2) free ops v
  show ?thesis by simp
qed


text \<open>
  C37. The holder is never shut out. As long as the lock it acquired has not expired, and whatever others did before as
  above, the holder's renewal succeeds, returns a lock with the same thread, owner and token, and keeps the key for
  exactly the new lifetime; its release succeeds and frees the key, by the script as well as by the fallback without
  it; and so does the release for a terminal attempt with its task id and token.
\<close>

theorem holder_can_act:
  assumes "redis_server api" "lock_codec codec"
    and "acquire_turn_lock api codec raw a s t0 = (s1, Some l)" "aq_return_envelope a" "lockable raw a"
    and "aq_thread_id a \<notin> snd ` set p"
    and "\<forall>x \<in> set ops. fst x \<le> t \<and> (op_thread (snd x) = aq_thread_id a \<longrightarrow>
      foreign (serialize_turn_lock codec l) (aq_owner a) (tl_lease_token l) (snd x))"
    and "t0 \<le> t" "t < t0 + 1000 * acquire_ttl raw a"
    and ttl: "coerce_lock_ttl_seconds raw ttl < 100000000000000"
  shows "let s2 = fst (lock_run api codec raw ops (s1, p)); key = turn_lock_key (aq_thread_id a) in
    (\<exists>s3 l'. renew_turn_lock api codec raw True now new_turn (aq_thread_id a) l ttl s2 t = (s3, Inr (Some l')) \<and>
      tl_thread_id l' = aq_thread_id a \<and> tl_owner_task_id l' = aq_owner a \<and> tl_lease_token l' = tl_lease_token l \<and>
      (\<forall>t' \<ge> t. rd_get api s3 t' key \<noteq> None \<longleftrightarrow> t' < t + 1000 * coerce_lock_ttl_seconds raw ttl)) \<and>
    (\<exists>s3. release_turn_lock api codec eval_works new_turn (aq_thread_id a) (Lock l) s2 t = (s3, Inr True) \<and>
      rd_get api s3 t key = None) \<and>
    (\<exists>s3. release_terminal_attempt_turn_lock api codec (aq_thread_id a) (aq_owner a) (tl_lease_token l) s2 t = (s3, Inr True) \<and>
      rd_get api s3 t key = None)"
proof -
  note kept = acquired_lock_kept [OF assms(1-9)]
  have l: "tl_thread_id l = aq_thread_id a" "tl_owner_task_id l = aq_owner a"
    using acquired_state(1) [OF assms(1,3,4,8,9)] by (simp_all add: acquired_fields)
  show ?thesis
    using lock_codec.renewed_value [OF assms(2) conjunct1 [OF kept] conjunct2 [OF kept] l refl ttl, of now new_turn]
      released_value [OF conjunct1 [OF kept] conjunct2 [OF kept] l(2) refl, of eval_works new_turn]
      terminal_value [OF conjunct1 [OF kept] conjunct2 [OF kept]]
      redis_server.get_set [OF assms(1)] redis_server.get_del [OF assms(1)]
    by (auto simp: Let_def)
qed

text \<open>
  C37. No lock is held for ever. When a thread's key would be free at a time if nobody touched it, and no operation of a
  sequence happens later than \<open>T\<close> or asks for a lifetime of more than \<open>M\<close> seconds, then from \<open>M\<close> seconds after \<open>T\<close> on
  the key is free again whatever the operations were, and any task can acquire the lock.
\<close>

theorem lock_frees_itself:
  assumes "redis_server api" "rd_get api s t (turn_lock_key (aq_thread_id a)) = None"
    and "\<forall>x \<in> set ops. fst x \<le> T \<and> op_ttl raw (snd x) \<le> M" "0 \<le> M" "T + 1000 * M \<le> t"
  shows "snd (acquire_turn_lock api codec raw a (fst (lock_run api codec raw ops (s, p))) t) = Some (acquired_lock raw a)"
  using redis_server.lock_gone [OF assms(1), of "(s, p)" t "aq_thread_id a" ops T raw M codec] assms(2-)
  by (simp add: acquire_turn_lock_def rd_set_nx_def Let_def)

text \<open>An acquisition of thread 7 for a minute without \<open>return_envelope\<close>, which stores the owner's id.\<close>

definition plain_acquire :: "string \<Rightarrow> acquire_args" where
  "plain_acquire owner =
     \<lparr>aq_thread_id = 7, aq_owner = owner, aq_ttl_seconds = Some 60, aq_turn_id = None, aq_source = None,
      aq_return_envelope = False, aq_now = \<lparr>wall = 0, utcoff = Some 0\<rparr>, aq_new_turn = ''u'', aq_new_token = ''k''\<rparr>"

lemma plain_acquired:
  "acquire_turn_lock store_api mark_codec None (plain_acquire owner) [] t =
    ([(turn_lock_key 7, owner, t + 60000)], Some (acquired_lock None (plain_acquire owner)))"
  by (simp add: acquire_turn_lock_def rd_set_nx_def store_api_def Let_def plain_acquire_def acquire_ttl_def
    coerce_lock_ttl_seconds_def)

lemma plain_decoded: "jc_loads mark_codec ''t1'' = None" "jc_loads mark_codec ''t2'' = None"
  by (simp_all add: mark_codec_def mark_decode_def numeral_2_eq_2)

lemma plain_get: "t < e \<Longrightarrow> rd_get store_api [(k, v, e)] t k = Some v" "rd_get store_api [] t k = None"
  by (simp_all add: store_api_def)

lemma plain_del: "rd_del store_api [(k, v, e)] t k = []"
  by (simp add: store_api_def)

text \<open>
  C40. Clearing is not atomic. \<open>clear_turn_lock\<close> reads the lock, compares it with the expected one and then deletes the
  key, whoever holds it by then: when the lock it compared is released and another task acquires the thread in
  between, the deletion removes the other task's lock while it is running its turn, and a third task can acquire it.
\<close>

theorem clear_removes_new_lock:
  "let w1 = lock_run store_api mark_codec None
         [(0, OpAcquire (plain_acquire ''t1'')), (1, OpCompare 1 ''u'' 7 (Owner ''t1'')), (2, OpRelease 7 (Owner ''t1'')),
          (3, OpAcquire (plain_acquire ''t2''))] ([], []);
       w2 = lock_step store_api mark_codec None (4, OpDelete 1 7) w1 in
   get_turn_lock_owner store_api mark_codec ''u'' 7 (fst w1) 4 = Inr (Some ''t2'') \<and>
   get_turn_lock_owner store_api mark_codec ''u'' 7 (fst w2) 4 = Inr None \<and>
   snd (acquire_turn_lock store_api mark_codec None (plain_acquire ''t3'') (fst w2) 5) \<noteq> None"
proof -
  have w1: "lock_run store_api mark_codec None
         [(0, OpAcquire (plain_acquire ''t1'')), (1, OpCompare 1 ''u'' 7 (Owner ''t1'')), (2, OpRelease 7 (Owner ''t1'')),
          (3, OpAcquire (plain_acquire ''t2''))] ([], []) = ([(turn_lock_key 7, ''t2'', 60003)], [(1, 7)])"
    by (simp add: lock_run_def plain_acquired matches_expected_lock_def decode_turn_lock_value_def plain_decoded
      release_script_def plain_get plain_del rd_delete_def)
  show ?thesis
    unfolding Let_def w1
    by (simp add: rd_delete_def plain_del plain_acquired get_turn_lock_owner_def decode_turn_lock_value_def plain_get
      plain_decoded Let_def)
qed

text \<open>Two tasks contend for thread 7: \<open>t2\<close> tries to acquire and to clear, \<open>t1\<close> holds it.\<close>

definition demo_acquire :: "string \<Rightarrow> acquire_args" where
  "demo_acquire owner =
     \<lparr>aq_thread_id = 7, aq_owner = owner, aq_ttl_seconds = Some 60, aq_turn_id = None, aq_source = None,
      aq_return_envelope = True, aq_now = \<lparr>wall = 0, utcoff = Some 0\<rparr>, aq_new_turn = ''u'', aq_new_token = ''k''\<rparr>"

definition demo_lock :: TurnLockEnvelope where
  "demo_lock = acquired_lock None (demo_acquire ''t1'')"

definition lock_demo_ops :: "(int \<times> lock_op) list" where
  "lock_demo_ops = [(10, OpAcquire (demo_acquire ''t2'')), (20, OpCompare 1 ''u'' 7 (Owner ''t2'')), (30, OpDelete 1 7), (40, OpClear 8)]"

lemma demo_acquired:
  "acquire_turn_lock store_api mark_codec None (demo_acquire ''t1'') [] 0 =
    ([(turn_lock_key 7, serialize_turn_lock mark_codec demo_lock, 60000)], Some demo_lock)"
  by (simp add: acquire_turn_lock_def rd_set_nx_def store_api_def Let_def demo_lock_def demo_acquire_def acquire_ttl_def
    coerce_lock_ttl_seconds_def)

lemma demo_facts:
  "lockable None (demo_acquire ''t1'')" "aq_return_envelope (demo_acquire ''t1'')" "aq_thread_id (demo_acquire owner) = 7"
  "aq_owner (demo_acquire owner) = owner" "acquire_ttl None (demo_acquire owner) = 60"
  by (simp_all add: lockable_def demo_acquire_def acquire_ttl_def coerce_lock_ttl_seconds_def strip_def py_isspace_def)

lemma demo_foreign:
  "\<forall>x \<in> set lock_demo_ops. fst x \<le> 50 \<and> (op_thread (snd x) = aq_thread_id (demo_acquire ''t1'') \<longrightarrow>
    foreign (serialize_turn_lock mark_codec demo_lock) (aq_owner (demo_acquire ''t1'')) (tl_lease_token demo_lock) (snd x))"
  by (simp add: lock_demo_ops_def demo_facts names_other_def serialize_turn_lock_def mark_codec_def mark_encode_def)

lemma demo_times: "(0::int) \<le> 50" "(50::int) < 0 + 1000 * acquire_ttl None (demo_acquire ''t1'')"
  by (simp_all add: demo_facts)


theorem holder_can_act_witness:
  "snd (release_turn_lock store_api mark_codec True ''u'' 7 (Lock demo_lock)
     (fst (lock_run store_api mark_codec None lock_demo_ops ([(turn_lock_key 7, serialize_turn_lock mark_codec demo_lock, 60000)], []))) 50) = Inr True"
  using holder_can_act [OF store.redis_server_axioms mark.lock_codec_axioms demo_acquired demo_facts(2,1) _ demo_foreign demo_times,
    of "[]" "Some 60" "\<lparr>wall = 0, utcoff = Some 0\<rparr>" "''u''" True]
  by (auto simp: Let_def demo_facts coerce_lock_ttl_seconds_def)

theorem lock_frees_itself_witness:
  "snd (acquire_turn_lock store_api mark_codec None (demo_acquire ''t3'')
     (fst (lock_run store_api mark_codec None ((0, OpAcquire (demo_acquire ''t1'')) # lock_demo_ops) ([], []))) 60040) =
   Some (acquired_lock None (demo_acquire ''t3''))"
  by (rule lock_frees_itself [OF store.redis_server_axioms, where T = 40 and M = 60])
    (simp_all add: store_api_def lock_demo_ops_def demo_facts)

end
