(* ===== verification/Campaign_Store.thy ===== *)
theory Campaign_Store
  imports Orm_Table
begin

text \<open>
  Model of the goals, campaigns and continuation authorities of
  \<^verbatim>\<open>guardian/agents/campaign_runner_store.py\<close>, with the envelope of
  \<^verbatim>\<open>guardian/agents/campaign_continuation_authority.py\<close>: an operator approves a bounded document that lets a campaign
  go on by itself, and can revoke it. The results are that a campaign has at most one authority in force, that what
  was approved and revoked, by whom and when is never rewritten, and that the listing tells exactly which authority is
  valid. Reading the document's fields with their types is pydantic and a parameter.
\<close>

section \<open>Vocabulary\<close>

definition CAMPAIGN_GOAL_STATUSES :: "string set" where
  "CAMPAIGN_GOAL_STATUSES = {''draft'', ''active'', ''blocked'', ''completed'', ''archived''}"

definition CAMPAIGN_STATUSES :: "string set" where
  "CAMPAIGN_STATUSES = {''draft'', ''planned'', ''active'', ''blocked'', ''completed'', ''archived''}"

definition CONTINUATION_AUTHORITY_PROVENANCES :: "string set" where
  "CONTINUATION_AUTHORITY_PROVENANCES = {''legacy_unverified'', ''operator_deployment'', ''account_admin''}"

datatype campaign_error =
    CampaignValidation string
  | CampaignNotFound string string
  | CampaignDatabase db_error

section \<open>The envelope\<close>

record PromotionAuthorities =
  pa_commit :: bool
  pa_push :: bool
  pa_merge :: bool
  pa_release :: bool
  pa_deploy :: bool
  pa_destructive_production_mutation :: bool

record ContinuationEnvelope =
  ce_schema_version :: int
  ce_campaign_objective :: string
  ce_allowed_task_classes :: "string list"
  ce_permitted_execution_lanes :: "string list"
  ce_permitted_workspace_scope :: "string list"
  ce_permitted_validation_proof_classes :: "string list"
  ce_spend_posture :: pydict
  ce_automatic_retry_permitted :: bool
  ce_max_retries :: int
  ce_automatic_downstream_dispatch_permitted :: bool
  ce_promotion_authorities :: PromotionAuthorities
  ce_explicit_stop_conditions :: "string list"

definition normalize_scope_values :: "string list \<Rightarrow> string list option" where
  "normalize_scope_values values =
     (let normalized = map strip values in
      if [] \<in> set normalized then None else if \<not> distinct normalized then None else Some normalized)"

definition retry_bound_ok :: "ContinuationEnvelope \<Rightarrow> bool" where
  "retry_bound_ok e =
     (\<not> (ce_automatic_retry_permitted e \<and> ce_max_retries e < 1) \<and>
      \<not> (\<not> ce_automatic_retry_permitted e \<and> ce_max_retries e \<noteq> 0))"

text \<open>The constraints of the fields, on values of the declared types: version, lengths and bounds.\<close>

definition envelope_fields_ok :: "ContinuationEnvelope \<Rightarrow> bool" where
  "envelope_fields_ok e =
     (ce_schema_version e = 1 \<and> strip (ce_campaign_objective e) \<noteq> [] \<and> ce_allowed_task_classes e \<noteq> [] \<and>
      ce_permitted_execution_lanes e \<noteq> [] \<and> ce_permitted_workspace_scope e \<noteq> [] \<and>
      ce_permitted_validation_proof_classes e \<noteq> [] \<and> ce_spend_posture e \<noteq> [] \<and> 0 \<le> ce_max_retries e \<and>
      ce_explicit_stop_conditions e \<noteq> [])"

definition check_envelope :: "ContinuationEnvelope \<Rightarrow> ContinuationEnvelope option" where
  "check_envelope e =
     (if \<not> envelope_fields_ok e then None
      else
        (case (normalize_scope_values (ce_allowed_task_classes e), normalize_scope_values (ce_permitted_execution_lanes e),
               normalize_scope_values (ce_permitted_workspace_scope e),
               normalize_scope_values (ce_permitted_validation_proof_classes e),
               normalize_scope_values (ce_explicit_stop_conditions e)) of
           (Some classes, Some lanes, Some scope, Some proofs, Some stops) \<Rightarrow>
             if retry_bound_ok e
             then Some (e\<lparr>ce_campaign_objective := strip (ce_campaign_objective e), ce_allowed_task_classes := classes,
               ce_permitted_execution_lanes := lanes, ce_permitted_workspace_scope := scope,
               ce_permitted_validation_proof_classes := proofs, ce_explicit_stop_conditions := stops\<rparr>)
             else None
         | _ \<Rightarrow> None))"

text \<open>\<open>model_validate\<close>; \<open>reader\<close> reads the fields with their strict types and refuses unknown ones.\<close>

type_synonym envelope_reader = "pyval \<Rightarrow> ContinuationEnvelope option"

definition model_validate :: "envelope_reader \<Rightarrow> pyval \<Rightarrow> ContinuationEnvelope option" where
  "model_validate reader envelope = Option.bind (reader envelope) check_envelope"

definition dump_promotion :: "PromotionAuthorities \<Rightarrow> pydict" where
  "dump_promotion p =
     [(''commit'', PBool (pa_commit p)), (''push'', PBool (pa_push p)), (''merge'', PBool (pa_merge p)),
      (''release'', PBool (pa_release p)), (''deploy'', PBool (pa_deploy p)),
      (''destructive_production_mutation'', PBool (pa_destructive_production_mutation p))]"

definition dump_envelope :: "ContinuationEnvelope \<Rightarrow> pydict" where
  "dump_envelope e =
     [(''schema_version'', PInt (ce_schema_version e)), (''campaign_objective'', PStr (ce_campaign_objective e)),
      (''allowed_task_classes'', str_list (ce_allowed_task_classes e)),
      (''permitted_execution_lanes'', str_list (ce_permitted_execution_lanes e)),
      (''permitted_workspace_scope'', str_list (ce_permitted_workspace_scope e)),
      (''permitted_validation_proof_classes'', str_list (ce_permitted_validation_proof_classes e)),
      (''spend_posture'', PDict (ce_spend_posture e)),
      (''automatic_retry_permitted'', PBool (ce_automatic_retry_permitted e)), (''max_retries'', PInt (ce_max_retries e)),
      (''automatic_downstream_dispatch_permitted'', PBool (ce_automatic_downstream_dispatch_permitted e)),
      (''promotion_authorities'', PDict (dump_promotion (ce_promotion_authorities e))),
      (''explicit_stop_conditions'', str_list (ce_explicit_stop_conditions e))]"

text \<open>
  Equality of JSON objects, which ignores the order of keys and takes \<open>True\<close> and \<open>False\<close> for 1 and 0; a float is
  equal to a float of the same text only.
\<close>

fun ordered :: "pyval \<Rightarrow> pyval" and ordered_list :: "pyval list \<Rightarrow> pyval list" and ordered_items :: "pydict \<Rightarrow> pydict" where
  "ordered (PBool b) = PInt (if b then 1 else 0)"
| "ordered (PList xs) = PList (ordered_list xs)"
| "ordered (PDict d) = PDict (sort_key fst (ordered_items d))"
| "ordered v = v"
| "ordered_list [] = []"
| "ordered_list (x # xs) = ordered x # ordered_list xs"
| "ordered_items [] = []"
| "ordered_items (kv # d) = (fst kv, ordered (snd kv)) # ordered_items d"

definition same_object :: "pydict \<Rightarrow> pydict \<Rightarrow> bool" where
  "same_object a b = (ordered (PDict a) = ordered (PDict b))"

section \<open>Rows and helpers\<close>

record CampaignGoal =
  cg_goal_id :: string
  cg_title :: string
  cg_summary :: "string option"
  cg_status :: string
  cg_source_thread_id :: "string option"
  cg_source_message_id :: "string option"
  cg_created_at :: pydt
  cg_updated_at :: pydt

record Campaign =
  cm_campaign_id :: string
  cm_goal_id :: string
  cm_title :: string
  cm_summary :: "string option"
  cm_status :: string
  cm_source_thread_id :: "string option"
  cm_source_message_id :: "string option"
  cm_created_at :: pydt
  cm_updated_at :: pydt

record AuthorityRecord =
  ca_authority_id :: string
  ca_campaign_id :: string
  ca_envelope_json :: pydict
  ca_approved_by_actor_id :: string
  ca_approved_at :: pydt
  ca_expires_at :: "pydt option"
  ca_revoked_by_actor_id :: "string option"
  ca_revoked_at :: "pydt option"
  ca_revocation_reason :: "string option"
  ca_created_at :: pydt
  ca_approval_provenance :: string
  ca_revocation_provenance :: "string option"

definition normalize_provenance :: "string \<Rightarrow> campaign_error + string" where
  "normalize_provenance provenance =
     (let normalized = strip provenance in
      if normalized \<notin> CONTINUATION_AUTHORITY_PROVENANCES
      then Inl (CampaignValidation ''invalid_continuation_authority_provenance'') else Inr normalized)"

definition new_id :: "string \<Rightarrow> string \<Rightarrow> string" where
  "new_id prefix hex = prefix @ ''_'' @ take 16 hex"

definition optional_field :: "string option \<Rightarrow> string option" where
  "optional_field raw = (case raw of None \<Rightarrow> None | Some text \<Rightarrow> or_none (strip text))"

definition same_optional_timestamp :: "pydt option \<Rightarrow> pydt option \<Rightarrow> bool" where
  "same_optional_timestamp left right =
     (case (left, right) of
        (Some l, Some r) \<Rightarrow> instant l = instant r
      | (None, None) \<Rightarrow> True
      | _ \<Rightarrow> False)"

definition goal_row_to_dict :: "CampaignGoal \<Rightarrow> pydict" where
  "goal_row_to_dict row =
     [(''goal_id'', PStr (cg_goal_id row)), (''title'', PStr (cg_title row)), (''summary'', opt_str (cg_summary row)),
      (''status'', PStr (cg_status row)), (''source_thread_id'', opt_str (cg_source_thread_id row)),
      (''source_message_id'', opt_str (cg_source_message_id row)), (''created_at'', PStr (isoformat (cg_created_at row))),
      (''updated_at'', PStr (isoformat (cg_updated_at row)))]"

definition campaign_row_to_dict :: "Campaign \<Rightarrow> pydict" where
  "campaign_row_to_dict row =
     [(''campaign_id'', PStr (cm_campaign_id row)), (''goal_id'', PStr (cm_goal_id row)), (''title'', PStr (cm_title row)),
      (''summary'', opt_str (cm_summary row)), (''status'', PStr (cm_status row)),
      (''source_thread_id'', opt_str (cm_source_thread_id row)), (''source_message_id'', opt_str (cm_source_message_id row)),
      (''created_at'', PStr (isoformat (cm_created_at row))), (''updated_at'', PStr (isoformat (cm_updated_at row)))]"

text \<open>A time without offset is taken as UTC; \<open>now\<close> is the reading of the clock.\<close>

definition is_expired :: "pydt \<Rightarrow> AuthorityRecord \<Rightarrow> bool" where
  "is_expired now row =
     (case ca_expires_at row of
        None \<Rightarrow> False
      | Some expires_at \<Rightarrow> instant (if dt_aware expires_at then expires_at else replace_utc expires_at) \<le> instant now)"

definition terminal_campaign :: "string \<Rightarrow> bool" where
  "terminal_campaign status = (status \<in> {''completed'', ''archived''})"

definition authority_row_to_dict :: "string \<Rightarrow> pydt \<Rightarrow> AuthorityRecord \<Rightarrow> pydict" where
  "authority_row_to_dict campaign_status now row =
     (let expired = is_expired now row; revoked = (ca_revoked_at row \<noteq> None);
          campaign_over = terminal_campaign campaign_status
      in [(''authority_id'', PStr (ca_authority_id row)), (''campaign_id'', PStr (ca_campaign_id row)),
          (''envelope'', PDict (ca_envelope_json row)), (''approved_by_actor_id'', PStr (ca_approved_by_actor_id row)),
          (''approved_at'', PStr (isoformat (ca_approved_at row))), (''approval_provenance'', PStr (ca_approval_provenance row)),
          (''expires_at'', opt_str (map_option isoformat (ca_expires_at row))),
          (''revoked_by_actor_id'', opt_str (ca_revoked_by_actor_id row)),
          (''revoked_at'', opt_str (map_option isoformat (ca_revoked_at row))),
          (''revocation_reason'', opt_str (ca_revocation_reason row)),
          (''revocation_provenance'', opt_str (ca_revocation_provenance row)), (''configured'', PBool True),
          (''revoked'', PBool revoked), (''expired'', PBool expired), (''campaign_terminal'', PBool campaign_over),
          (''currently_valid'', PBool (\<not> (revoked \<or> expired \<or> campaign_over))),
          (''automatic_retry_execution_enabled'', PBool False), (''automatic_downstream_dispatch_enabled'', PBool False)])"

section \<open>Operations\<close>

record ('g, 'c, 'a) campaign_api =
  goals_api :: "('g, CampaignGoal) orm"
  campaigns_api :: "('c, Campaign) orm"
  authorities_api :: "('a, AuthorityRecord) orm"

record ('g, 'c, 'a) campaign_db =
  goals_db :: 'g
  campaigns_db :: 'c
  authorities_db :: 'a

record container_args =
  ct_title :: string
  ct_summary :: "string option"
  ct_status :: string
  ct_source_thread_id :: "string option"
  ct_source_message_id :: "string option"

definition create_goal ::
    "('g, 'c, 'a) campaign_api \<Rightarrow> ('g, 'c, 'a) campaign_db \<Rightarrow> pydt \<Rightarrow> string \<Rightarrow> container_args \<Rightarrow>
      campaign_error + (('g, 'c, 'a) campaign_db \<times> pydict)" where
  "create_goal api db now hex a =
     (let title = strip (ct_title a); status = lower (strip (ct_status a)) in
      if title = [] then Inl (CampaignValidation ''missing_goal_title'')
      else if status \<notin> CAMPAIGN_GOAL_STATUSES then Inl (CampaignValidation ''invalid_campaign_goal_status'')
      else
        (let row = \<lparr>cg_goal_id = new_id ''goal'' hex, cg_title = title, cg_summary = optional_field (ct_summary a),
               cg_status = status, cg_source_thread_id = optional_field (ct_source_thread_id a),
               cg_source_message_id = optional_field (ct_source_message_id a), cg_created_at = now, cg_updated_at = now\<rparr>
         in case orm_add (goals_api api) (goals_db db) row of
              Inl e \<Rightarrow> Inl (CampaignDatabase e)
            | Inr goals \<Rightarrow> Inr (db\<lparr>goals_db := goals\<rparr>, goal_row_to_dict row)))"

definition find_goal :: "('g, 'c, 'a) campaign_api \<Rightarrow> ('g, 'c, 'a) campaign_db \<Rightarrow> string \<Rightarrow> CampaignGoal option" where
  "find_goal api db goal_id = orm_first (goals_api api) (goals_db db) (\<lambda>r. cg_goal_id r = goal_id)"

definition get_goal :: "('g, 'c, 'a) campaign_api \<Rightarrow> ('g, 'c, 'a) campaign_db \<Rightarrow> string \<Rightarrow> pydict option" where
  "get_goal api db goal_id = map_option goal_row_to_dict (find_goal api db goal_id)"

definition find_campaign :: "('g, 'c, 'a) campaign_api \<Rightarrow> ('g, 'c, 'a) campaign_db \<Rightarrow> string \<Rightarrow> Campaign option" where
  "find_campaign api db campaign_id = orm_first (campaigns_api api) (campaigns_db db) (\<lambda>r. cm_campaign_id r = campaign_id)"

definition get_campaign :: "('g, 'c, 'a) campaign_api \<Rightarrow> ('g, 'c, 'a) campaign_db \<Rightarrow> string \<Rightarrow> pydict option" where
  "get_campaign api db campaign_id = map_option campaign_row_to_dict (find_campaign api db campaign_id)"

definition create_campaign ::
    "('g, 'c, 'a) campaign_api \<Rightarrow> ('g, 'c, 'a) campaign_db \<Rightarrow> pydt \<Rightarrow> string \<Rightarrow> string \<Rightarrow> string option \<Rightarrow> container_args \<Rightarrow>
      campaign_error + (('g, 'c, 'a) campaign_db \<times> pydict)" where
  "create_campaign api db now hex goal_id campaign_id a =
     (let goal = strip goal_id; title = strip (ct_title a); status = lower (strip (ct_status a)) in
      if goal = [] then Inl (CampaignValidation ''missing_campaign_goal_id'')
      else if title = [] then Inl (CampaignValidation ''missing_campaign_title'')
      else if status \<notin> CAMPAIGN_STATUSES then Inl (CampaignValidation ''invalid_campaign_status'')
      else
        (case find_goal api db goal of
           None \<Rightarrow> Inl (CampaignNotFound ''goal'' goal)
         | Some _ \<Rightarrow>
           (let row = \<lparr>cm_campaign_id = (case optional_field campaign_id of Some i \<Rightarrow> i | None \<Rightarrow> new_id ''campaign'' hex),
                  cm_goal_id = goal, cm_title = title, cm_summary = optional_field (ct_summary a), cm_status = status,
                  cm_source_thread_id = optional_field (ct_source_thread_id a),
                  cm_source_message_id = optional_field (ct_source_message_id a), cm_created_at = now, cm_updated_at = now\<rparr>
            in case orm_add (campaigns_api api) (campaigns_db db) row of
                 Inl e \<Rightarrow> Inl (CampaignDatabase e)
               | Inr campaigns \<Rightarrow> Inr (db\<lparr>campaigns_db := campaigns\<rparr>, campaign_row_to_dict row))))"

text \<open>The time limit of an approval, in UTC; it has an offset and lies ahead.\<close>

definition normalize_expiry :: "pydt \<Rightarrow> pydt option \<Rightarrow> campaign_error + pydt option" where
  "normalize_expiry now expires_at =
     (case expires_at of
        None \<Rightarrow> Inr None
      | Some e \<Rightarrow>
        if \<not> dt_aware e then Inl (CampaignValidation ''invalid_continuation_authority_expiry'')
        else if instant (astimezone_utc e) \<le> instant now then Inl (CampaignValidation ''invalid_continuation_authority_expiry'')
        else Inr (Some (astimezone_utc e)))"

definition find_unrevoked :: "('g, 'c, 'a) campaign_api \<Rightarrow> ('g, 'c, 'a) campaign_db \<Rightarrow> string \<Rightarrow> AuthorityRecord option" where
  "find_unrevoked api db campaign_id =
     orm_first (authorities_api api) (authorities_db db) (\<lambda>r. ca_campaign_id r = campaign_id \<and> ca_revoked_at r = None)"

definition same_approval :: "AuthorityRecord \<Rightarrow> pydict \<Rightarrow> string \<Rightarrow> string \<Rightarrow> pydt option \<Rightarrow> bool" where
  "same_approval existing envelope actor_id provenance expiry =
     (same_object (ca_envelope_json existing) envelope \<and> ca_approved_by_actor_id existing = actor_id \<and>
      ca_approval_provenance existing = provenance \<and> same_optional_timestamp (ca_expires_at existing) expiry)"

definition answer_existing ::
    "Campaign \<Rightarrow> pydt \<Rightarrow> pydict \<Rightarrow> string \<Rightarrow> string \<Rightarrow> pydt option \<Rightarrow> AuthorityRecord option \<Rightarrow> campaign_error + pydict" where
  "answer_existing campaign now envelope actor_id provenance expiry existing =
     (case existing of
        Some row \<Rightarrow>
          if same_approval row envelope actor_id provenance expiry
          then Inr (authority_row_to_dict (cm_status campaign) now row)
          else Inl (CampaignValidation ''continuation_authority_already_exists'')
      | None \<Rightarrow> Inl (CampaignValidation ''continuation_authority_already_exists''))"

definition new_authority :: "string \<Rightarrow> string \<Rightarrow> pydict \<Rightarrow> string \<Rightarrow> pydt \<Rightarrow> pydt option \<Rightarrow> string \<Rightarrow> AuthorityRecord" where
  "new_authority hex campaign_id envelope actor_id now expiry provenance =
     \<lparr>ca_authority_id = new_id ''cauth'' hex, ca_campaign_id = campaign_id, ca_envelope_json = envelope,
      ca_approved_by_actor_id = actor_id, ca_approved_at = now, ca_expires_at = expiry, ca_revoked_by_actor_id = None,
      ca_revoked_at = None, ca_revocation_reason = None, ca_created_at = now, ca_approval_provenance = provenance,
      ca_revocation_provenance = None\<rparr>"

text \<open>The transaction of an approval.\<close>

definition approve_in_session ::
    "('g, 'c, 'a) campaign_api \<Rightarrow> ('g, 'c, 'a) campaign_db \<Rightarrow> pydt \<Rightarrow> string \<Rightarrow> string \<Rightarrow> pydict \<Rightarrow> string \<Rightarrow> string \<Rightarrow>
      pydt option \<Rightarrow> campaign_error + (('g, 'c, 'a) campaign_db \<times> pydict)" where
  "approve_in_session api db now hex campaign_id envelope actor_id provenance expiry =
     (case find_campaign api db campaign_id of
        None \<Rightarrow> Inl (CampaignNotFound ''campaign'' campaign_id)
      | Some campaign \<Rightarrow>
        if terminal_campaign (cm_status campaign) then Inl (CampaignValidation ''terminal_campaign_continuation_authority'')
        else
          (let answer = (\<lambda>existing. map_sum id (Pair db) (answer_existing campaign now envelope actor_id provenance expiry existing)) in
           case find_unrevoked api db campaign_id of
             Some existing \<Rightarrow> answer (Some existing)
           | None \<Rightarrow>
             (let row = new_authority hex campaign_id envelope actor_id now expiry provenance in
              case orm_add (authorities_api api) (authorities_db db) row of
                Inl (IntegrityError _) \<Rightarrow> answer (find_unrevoked api db campaign_id)
              | Inl e \<Rightarrow> Inl (CampaignDatabase e)
              | Inr authorities \<Rightarrow>
                  Inr (db\<lparr>authorities_db := authorities\<rparr>, authority_row_to_dict (cm_status campaign) now row))))"

definition approve_continuation_authority ::
    "envelope_reader \<Rightarrow> ('g, 'c, 'a) campaign_api \<Rightarrow> ('g, 'c, 'a) campaign_db \<Rightarrow> pydt \<Rightarrow> string \<Rightarrow> string \<Rightarrow> pyval \<Rightarrow> string \<Rightarrow>
      string \<Rightarrow> pydt option \<Rightarrow> campaign_error + (('g, 'c, 'a) campaign_db \<times> pydict)" where
  "approve_continuation_authority reader api db now hex campaign_id envelope actor provenance expires_at =
     (let campaign = strip campaign_id; actor_id = strip actor in
      if campaign = [] then Inl (CampaignValidation ''missing_continuation_authority_campaign_id'')
      else if actor_id = [] then Inl (CampaignValidation ''missing_continuation_authority_actor'')
      else
        (case normalize_provenance provenance of
           Inl e \<Rightarrow> Inl e
         | Inr normalized_provenance \<Rightarrow>
           (case model_validate reader envelope of
              None \<Rightarrow> Inl (CampaignValidation ''invalid_continuation_authority_envelope'')
            | Some validated \<Rightarrow>
              (case normalize_expiry now expires_at of
                 Inl e \<Rightarrow> Inl e
               | Inr expiry \<Rightarrow>
                 approve_in_session api db now hex campaign (dump_envelope validated) actor_id normalized_provenance expiry))))"

definition list_continuation_authorities ::
    "('g, 'c, 'a) campaign_api \<Rightarrow> ('g, 'c, 'a) campaign_db \<Rightarrow> pydt \<Rightarrow> string \<Rightarrow> campaign_error + pydict list" where
  "list_continuation_authorities api db now campaign_id =
     (let cid = strip campaign_id in
      case find_campaign api db cid of
        None \<Rightarrow> Inl (CampaignNotFound ''campaign'' cid)
      | Some campaign \<Rightarrow>
        Inr (map (authority_row_to_dict (cm_status campaign) now)
          (rev (sort_key (\<lambda>r. (instant (ca_approved_at r), ca_authority_id r))
            (orm_select (authorities_api api) (authorities_db db) (\<lambda>r. ca_campaign_id r = cid))))))"

definition revoked_row :: "pydt \<Rightarrow> string \<Rightarrow> string \<Rightarrow> string \<Rightarrow> AuthorityRecord \<Rightarrow> AuthorityRecord" where
  "revoked_row now actor_id reason provenance row =
     row\<lparr>ca_revoked_by_actor_id := Some actor_id, ca_revoked_at := Some now, ca_revocation_reason := Some reason,
       ca_revocation_provenance := Some provenance\<rparr>"

text \<open>\<open>checked\<close> is the second reading of the clock, for the answer.\<close>

definition revoke_continuation_authority ::
    "('g, 'c, 'a) campaign_api \<Rightarrow> ('g, 'c, 'a) campaign_db \<Rightarrow> pydt \<Rightarrow> pydt \<Rightarrow> string \<Rightarrow> string \<Rightarrow> string \<Rightarrow> string \<Rightarrow> string \<Rightarrow>
      campaign_error + (('g, 'c, 'a) campaign_db \<times> pydict)" where
  "revoke_continuation_authority api db now checked campaign_id authority_id actor provenance reason =
     (let cid = strip campaign_id; aid = strip authority_id; actor_id = strip actor; why = strip reason in
      if actor_id = [] \<or> why = [] then Inl (CampaignValidation ''invalid_continuation_authority_revocation'')
      else
        (case normalize_provenance provenance of
           Inl e \<Rightarrow> Inl e
         | Inr normalized_provenance \<Rightarrow>
           (case find_campaign api db cid of
              None \<Rightarrow> Inl (CampaignNotFound ''campaign'' cid)
            | Some campaign \<Rightarrow>
              (case orm_first (authorities_api api) (authorities_db db) (\<lambda>r. ca_campaign_id r = cid \<and> ca_authority_id r = aid) of
                 None \<Rightarrow> Inl (CampaignNotFound ''continuation authority'' aid)
               | Some row \<Rightarrow>
                 if ca_revoked_at row \<noteq> None then Inr (db, authority_row_to_dict (cm_status campaign) checked row)
                 else
                   (let row' = revoked_row now actor_id why normalized_provenance row in
                    case orm_commit (authorities_api api) (authorities_db db) row' of
                      Inl e \<Rightarrow> Inl (CampaignDatabase e)
                    | Inr authorities \<Rightarrow>
                        Inr (db\<lparr>authorities_db := authorities\<rparr>, authority_row_to_dict (cm_status campaign) checked row'))))))"

section \<open>Sequences of calls\<close>

datatype campaign_op =
    CreateGoal pydt string container_args
  | CreateCampaign pydt string string "string option" container_args
  | Approve pydt string string pyval string string "pydt option"
  | Revoke pydt pydt string string string string string

fun campaign_exec ::
    "envelope_reader \<Rightarrow> ('g, 'c, 'a) campaign_api \<Rightarrow> ('g, 'c, 'a) campaign_db \<Rightarrow> campaign_op \<Rightarrow>
      campaign_error + (('g, 'c, 'a) campaign_db \<times> pydict)" where
  "campaign_exec reader api db (CreateGoal now hex a) = create_goal api db now hex a"
| "campaign_exec reader api db (CreateCampaign now hex goal_id campaign_id a) = create_campaign api db now hex goal_id campaign_id a"
| "campaign_exec reader api db (Approve now hex cid envelope actor provenance expires_at) =
     approve_continuation_authority reader api db now hex cid envelope actor provenance expires_at"
| "campaign_exec reader api db (Revoke now checked cid aid actor provenance reason) =
     revoke_continuation_authority api db now checked cid aid actor provenance reason"

inductive campaign_reaches ::
    "envelope_reader \<Rightarrow> ('g, 'c, 'a) campaign_api \<Rightarrow> ('g, 'c, 'a) campaign_db \<Rightarrow> ('g, 'c, 'a) campaign_db \<Rightarrow> bool"
  for reader api where
  start: "campaign_reaches reader api db db"
| call: "campaign_reaches reader api db0 db \<Longrightarrow> campaign_exec reader api db op1 = Inr (db', d) \<Longrightarrow> campaign_reaches reader api db0 db'"

text \<open>What every stored authority satisfies, and what may happen to it.\<close>

definition authority_ok :: "envelope_reader \<Rightarrow> AuthorityRecord \<Rightarrow> bool" where
  "authority_ok reader r \<longleftrightarrow>
     (\<exists>v e. model_validate reader v = Some e \<and> ca_envelope_json r = dump_envelope e) \<and>
     ca_approved_by_actor_id r \<noteq> [] \<and> ca_approval_provenance r \<in> CONTINUATION_AUTHORITY_PROVENANCES \<and>
     (\<forall>e. ca_expires_at r = Some e \<longrightarrow> dt_aware e \<and> instant (ca_approved_at r) < instant e) \<and>
     ((ca_revoked_at r = None \<and> ca_revoked_by_actor_id r = None \<and> ca_revocation_reason r = None \<and> ca_revocation_provenance r = None) \<or>
      (ca_revoked_at r \<noteq> None \<and> (\<exists>actor why p. ca_revoked_by_actor_id r = Some actor \<and> actor \<noteq> [] \<and>
        ca_revocation_reason r = Some why \<and> why \<noteq> [] \<and> ca_revocation_provenance r = Some p \<and>
        p \<in> CONTINUATION_AUTHORITY_PROVENANCES)))"

definition one_unrevoked :: "AuthorityRecord set \<Rightarrow> bool" where
  "one_unrevoked rows \<longleftrightarrow>
     (\<forall>a \<in> rows. \<forall>b \<in> rows. ca_campaign_id a = ca_campaign_id b \<and> ca_revoked_at a = None \<and> ca_revoked_at b = None \<longrightarrow> a = b)"

definition authority_keeps :: "AuthorityRecord \<Rightarrow> AuthorityRecord \<Rightarrow> bool" where
  "authority_keeps r r' \<longleftrightarrow>
     r' = r \<or> (ca_revoked_at r = None \<and> (\<exists>now actor why p. r' = revoked_row now actor why p r))"

lemma authority_keeps_trans: "authority_keeps a b \<Longrightarrow> authority_keeps b c \<Longrightarrow> authority_keeps a c"
  by (auto simp: authority_keeps_def revoked_row_def)

lemma normalize_provenance_Inr: "normalize_provenance raw = Inr p \<Longrightarrow> p \<in> CONTINUATION_AUTHORITY_PROVENANCES"
  by (auto simp: normalize_provenance_def Let_def split: if_splits)

lemma normalize_expiry_Inr:
  "normalize_expiry now raw = Inr (Some e) \<Longrightarrow> dt_aware e \<and> instant now < instant e"
  by (auto simp: normalize_expiry_def split: option.splits if_splits)

lemma new_authority_simps [simp]:
  "ca_authority_id (new_authority hex cid env actor now expiry p) = new_id ''cauth'' hex"
  "ca_campaign_id (new_authority hex cid env actor now expiry p) = cid"
  "ca_revoked_at (new_authority hex cid env actor now expiry p) = None"
  by (simp_all add: new_authority_def)

lemma revoked_row_simps [simp]:
  "ca_authority_id (revoked_row now actor why p r) = ca_authority_id r"
  "ca_campaign_id (revoked_row now actor why p r) = ca_campaign_id r"
  "ca_revoked_at (revoked_row now actor why p r) = Some now"
  by (simp_all add: revoked_row_def)

lemma authority_ok_new:
  assumes "model_validate reader v = Some e" "actor \<noteq> []" "normalize_provenance raw = Inr p" "normalize_expiry now raw' = Inr expiry"
  shows "authority_ok reader (new_authority hex cid (dump_envelope e) actor now expiry p)"
  using assms normalize_provenance_Inr [OF assms(3)] normalize_expiry_Inr [of now raw']
  by (auto simp: authority_ok_def new_authority_def)

lemma authority_ok_revoked:
  assumes "authority_ok reader r" "actor \<noteq> []" "why \<noteq> []" "normalize_provenance raw = Inr p"
  shows "authority_ok reader (revoked_row now actor why p r)"
  using assms normalize_provenance_Inr [OF assms(4)] by (auto simp: authority_ok_def revoked_row_def)

lemma approve_in_session_Inr:
  assumes "approve_in_session api db now hex cid env actor p expiry = Inr (db', d)"
  shows "db' = db \<or> (find_unrevoked api db cid = None \<and>
    (\<exists>campaign. find_campaign api db cid = Some campaign \<and> \<not> terminal_campaign (cm_status campaign)) \<and>
    (\<exists>authorities. orm_add (authorities_api api) (authorities_db db) (new_authority hex cid env actor now expiry p) = Inr authorities \<and>
       db' = db\<lparr>authorities_db := authorities\<rparr>))"
  using assms
  by (auto simp: approve_in_session_def Let_def map_sum_def split: option.splits if_splits sum.splits db_error.splits)

lemma revoke_Inr:
  assumes "revoke_continuation_authority api db now checked cid aid actor provenance reason = Inr (db', d)"
  shows "strip actor \<noteq> [] \<and> strip reason \<noteq> [] \<and> (\<exists>p r. normalize_provenance provenance = Inr p \<and>
    orm_first (authorities_api api) (authorities_db db) (\<lambda>r. ca_campaign_id r = strip cid \<and> ca_authority_id r = strip aid) = Some r \<and>
    (db' = db \<or> (ca_revoked_at r = None \<and>
      (\<exists>a. orm_commit (authorities_api api) (authorities_db db) (revoked_row now (strip actor) (strip reason) p r) = Inr a \<and>
         db' = db\<lparr>authorities_db := a\<rparr>))))"
  using assms by (auto simp: revoke_continuation_authority_def Let_def split: if_splits sum.splits option.splits)

section \<open>The store over its tables\<close>

locale campaign_store =
  goal_tbl: orm_table "goals_api api" cg_goal_id ginv +
  campaign_tbl: orm_table "campaigns_api api" cm_campaign_id cinv +
  authority_tbl: orm_table "authorities_api api" ca_authority_id ainv
  for api :: "('g, 'c, 'a) campaign_api" and ginv :: "'g \<Rightarrow> bool" and cinv :: "'c \<Rightarrow> bool" and ainv :: "'a \<Rightarrow> bool"
begin

definition tables_ok :: "('g, 'c, 'a) campaign_db \<Rightarrow> bool" where
  "tables_ok db \<longleftrightarrow> ginv (goals_db db) \<and> cinv (campaigns_db db) \<and> ainv (authorities_db db)"

abbreviation "authorities db \<equiv> orm_rows (authorities_api api) (authorities_db db)"

text \<open>How a call changes the authorities.\<close>

lemma exec_authorities:
  assumes "tables_ok db" "campaign_exec reader api db op1 = Inr (db', d)"
  shows "tables_ok db' \<and> (authorities db' = authorities db \<or>
    (\<exists>r. authorities db' = insert r (authorities db) \<and> authority_ok reader r \<and> ca_revoked_at r = None \<and>
       (\<forall>x \<in> authorities db. ca_authority_id x \<noteq> ca_authority_id r \<and> \<not> (ca_campaign_id x = ca_campaign_id r \<and> ca_revoked_at x = None))) \<or>
    (\<exists>r now actor why p raw. r \<in> authorities db \<and> ca_revoked_at r = None \<and> actor \<noteq> [] \<and> why \<noteq> [] \<and> normalize_provenance raw = Inr p \<and>
       authorities db' = insert (revoked_row now actor why p r) (authorities db - {r})))"
proof (cases op1)
  case (CreateGoal now hex a)
  with assms show ?thesis
    by (auto simp: create_goal_def Let_def tables_ok_def split: if_splits sum.splits dest: goal_tbl.add_invar [rotated])
next
  case (CreateCampaign now hex goal_id campaign_id a)
  with assms show ?thesis
    by (auto simp: create_campaign_def Let_def tables_ok_def split: if_splits sum.splits option.splits
        dest: campaign_tbl.add_invar [rotated])
next
  case (Approve now hex cid envelope actor provenance expires_at)
  with assms(2) obtain p e expiry where
      actor: "strip actor \<noteq> []" and ok: "normalize_provenance provenance = Inr p" "model_validate reader envelope = Some e"
        "normalize_expiry now expires_at = Inr expiry"
      and run: "approve_in_session api db now hex (strip cid) (dump_envelope e) (strip actor) p expiry = Inr (db', d)"
    by (auto simp: approve_continuation_authority_def Let_def split: if_splits sum.splits option.splits)
  let ?r = "new_authority hex (strip cid) (dump_envelope e) (strip actor) now expiry p"
  from approve_in_session_Inr [OF run] show ?thesis
  proof (elim disjE conjE exE)
    fix authorities'
    assume none: "find_unrevoked api db (strip cid) = None"
      and add: "orm_add (authorities_api api) (authorities_db db) ?r = Inr authorities'" and db': "db' = db\<lparr>authorities_db := authorities'\<rparr>"
    have inv: "ainv (authorities_db db)" using assms(1) by (simp add: tables_ok_def)
    have "\<forall>x \<in> authorities db. ca_authority_id x \<noteq> ca_authority_id ?r \<and> \<not> (ca_campaign_id x = ca_campaign_id ?r \<and> ca_revoked_at x = None)"
      using authority_tbl.add_fresh [OF inv add] none by (auto simp: find_unrevoked_def authority_tbl.first_None [OF inv])
    moreover have "authority_ok reader ?r" by (rule authority_ok_new [OF ok(2) actor ok(1,3)])
    moreover have "authorities db' = insert ?r (authorities db)" by (simp add: db' authority_tbl.add_rows [OF inv add])
    moreover have "tables_ok db'" using assms(1) authority_tbl.add_invar [OF inv add] by (simp add: tables_ok_def db')
    ultimately show ?thesis by (metis new_authority_simps(3))
  qed (use assms(1) in simp)
next
  case (Revoke now checked cid aid actor provenance reason)
  with assms(2) have "revoke_continuation_authority api db now checked cid aid actor provenance reason = Inr (db', d)" by simp
  from revoke_Inr [OF this] obtain p r where
      some: "strip actor \<noteq> []" "strip reason \<noteq> []" and ok: "normalize_provenance provenance = Inr p"
      and r: "orm_first (authorities_api api) (authorities_db db) (\<lambda>r. ca_campaign_id r = strip cid \<and> ca_authority_id r = strip aid) = Some r"
      and run: "db' = db \<or> (ca_revoked_at r = None \<and>
        (\<exists>a. orm_commit (authorities_api api) (authorities_db db) (revoked_row now (strip actor) (strip reason) p r) = Inr a \<and>
           db' = db\<lparr>authorities_db := a\<rparr>))"
    by blast
  have inv: "ainv (authorities_db db)" using assms(1) by (simp add: tables_ok_def)
  note mem = authority_tbl.first_Some(1) [OF inv r]
  let ?r = "revoked_row now (strip actor) (strip reason) p r"
  from run show ?thesis
  proof (elim disjE conjE exE)
    fix a assume unrevoked: "ca_revoked_at r = None"
      and c: "orm_commit (authorities_api api) (authorities_db db) ?r = Inr a" and db': "db' = db\<lparr>authorities_db := a\<rparr>"
    have k: "ca_authority_id r = ca_authority_id ?r" by simp
    have "authorities db' = insert ?r (authorities db - {r})" by (simp add: db' authority_tbl.commit_rows [OF inv mem k c])
    moreover have "tables_ok db'" using assms(1) authority_tbl.commit_invar [OF inv mem k c] by (simp add: tables_ok_def db')
    ultimately show ?thesis using mem unrevoked some ok by blast
  qed (use assms(1) in simp)
qed

lemma exec_keeps:
  assumes "tables_ok db" "campaign_exec reader api db op1 = Inr (db', d)"
    and "\<forall>r \<in> authorities db. authority_ok reader r" "one_unrevoked (authorities db)"
  shows "tables_ok db' \<and> (\<forall>r \<in> authorities db'. authority_ok reader r) \<and> one_unrevoked (authorities db')"
  using exec_authorities [OF assms(1,2)]
proof (elim conjE disjE exE)
  fix r assume new: "authorities db' = insert r (authorities db)" "authority_ok reader r"
    "\<forall>x \<in> authorities db. ca_authority_id x \<noteq> ca_authority_id r \<and> \<not> (ca_campaign_id x = ca_campaign_id r \<and> ca_revoked_at x = None)"
  have "one_unrevoked (authorities db')"
    using assms(4) new(3) unfolding one_unrevoked_def new(1) by (metis insert_iff)
  moreover assume "tables_ok db'"
  ultimately show ?thesis using assms(3) new(1,2) by simp
next
  fix r now actor why p raw
  assume old: "r \<in> authorities db" "actor \<noteq> []" "why \<noteq> []" "normalize_provenance raw = Inr p"
    "authorities db' = insert (revoked_row now actor why p r) (authorities db - {r})"
  have "one_unrevoked (authorities db')" using assms(4) by (auto simp: old(5) one_unrevoked_def)
  moreover have "authority_ok reader (revoked_row now actor why p r)" using authority_ok_revoked assms(3) old by blast
  moreover assume "tables_ok db'"
  ultimately show ?thesis using assms(3) old(5) by simp
qed (use assms in simp)

lemma exec_authority_keeps:
  assumes "tables_ok db" "campaign_exec reader api db op1 = Inr (db', d)" "r \<in> authorities db"
  shows "\<exists>r' \<in> authorities db'. authority_keeps r r'"
  using exec_authorities [OF assms(1,2)]
proof (elim conjE disjE exE)
  fix x now actor why p
  assume "ca_revoked_at x = None" "authorities db' = insert (revoked_row now actor why p x) (authorities db - {x})"
  with assms(3) show ?thesis by (cases "r = x") (auto simp: authority_keeps_def)
qed (use assms(3) in \<open>auto simp: authority_keeps_def\<close>)

lemma reaches_keeps:
  assumes "campaign_reaches reader api db0 db" "tables_ok db0" "\<forall>r \<in> authorities db0. authority_ok reader r" "one_unrevoked (authorities db0)"
  shows "tables_ok db \<and> (\<forall>r \<in> authorities db. authority_ok reader r) \<and> one_unrevoked (authorities db)"
  using assms by (induction rule: campaign_reaches.induct) (auto dest: exec_keeps)

lemma reaches_authority_keeps:
  assumes "campaign_reaches reader api db0 db" "tables_ok db0" "r \<in> authorities db0"
  shows "tables_ok db \<and> (\<exists>r' \<in> authorities db. authority_keeps r r')"
  using assms
proof (induction rule: campaign_reaches.induct)
  case (call db0 db op1 db' d)
  then obtain r' where "tables_ok db" "r' \<in> authorities db" "authority_keeps r r'" by blast
  moreover from this call.hyps(2) obtain r'' where "r'' \<in> authorities db'" "authority_keeps r' r''" using exec_authority_keeps by blast
  ultimately show ?case using authority_keeps_trans exec_authorities [of db reader op1 db' d] call.hyps(2) by blast
qed (auto simp: authority_keeps_def)

end

section \<open>Results\<close>

lemma filter_unique:
  assumes "distinct xs" "\<And>a b. a \<in> set xs \<Longrightarrow> P a \<Longrightarrow> b \<in> set xs \<Longrightarrow> P b \<Longrightarrow> a = b"
  shows "length (filter P xs) \<le> 1"
proof -
  have "length (filter P xs) = card (set (filter P xs))"
    using assms(1) by (metis distinct_card distinct_filter)
  also have "\<dots> \<le> 1" using assms(2) card_le_Suc0_iff_eq [of "set (filter P xs)"] by simp
  finally show ?thesis .
qed

text \<open>
  C17. One authority at a time. From empty tables, in every state that calls of the store reach, a campaign has at most
  one authority that is not revoked, and every stored authority holds an envelope that passed validation, names its
  approver and a known provenance, ends after it was approved, and is either untouched by revocation or carries the
  revoking actor, the reason, the time and a known provenance. The store's own checks give it; the proof does not use
  the unique index and the check constraints of the database.
\<close>

theorem one_authority_per_campaign:
  assumes "campaign_store api ginv cinv ainv" "campaign_reaches reader api db0 db"
    and "ginv (goals_db db0)" "cinv (campaigns_db db0)" "ainv (authorities_db db0)"
    and "orm_rows (authorities_api api) (authorities_db db0) = {}"
  shows "one_unrevoked (orm_rows (authorities_api api) (authorities_db db)) \<and>
    (\<forall>r \<in> orm_rows (authorities_api api) (authorities_db db). authority_ok reader r)"
  using campaign_store.reaches_keeps [OF assms(1,2)] assms(3-)
  by (simp add: campaign_store.tables_ok_def [OF assms(1)] one_unrevoked_def)

text \<open>
  C35. The record of an approval is final. Along any calls of the store every authority stays in its table under its
  identifier, with the campaign, envelope, approver, provenance and times of its approval; the only change it can
  undergo is one revocation, and once revoked it is never changed again, so the first revocation keeps its actor,
  reason, time and provenance.
\<close>

theorem authority_record_final:
  assumes "campaign_store api ginv cinv ainv" "campaign_reaches reader api db0 db"
    and "ginv (goals_db db0)" "cinv (campaigns_db db0)" "ainv (authorities_db db0)"
    and "r \<in> orm_rows (authorities_api api) (authorities_db db0)"
  shows "\<exists>r' \<in> orm_rows (authorities_api api) (authorities_db db).
    ca_authority_id r' = ca_authority_id r \<and> ca_campaign_id r' = ca_campaign_id r \<and> ca_envelope_json r' = ca_envelope_json r \<and>
    ca_approved_by_actor_id r' = ca_approved_by_actor_id r \<and> ca_approval_provenance r' = ca_approval_provenance r \<and>
    ca_approved_at r' = ca_approved_at r \<and> ca_expires_at r' = ca_expires_at r \<and> ca_created_at r' = ca_created_at r \<and>
    (ca_revoked_at r \<noteq> None \<longrightarrow> r' = r)"
proof -
  obtain r' where r': "r' \<in> orm_rows (authorities_api api) (authorities_db db)" "authority_keeps r r'"
    using campaign_store.reaches_authority_keeps [OF assms(1,2) _ assms(6)] assms(3-5) campaign_store.tables_ok_def [OF assms(1)]
    by blast
  show ?thesis by (rule bexI [OF _ r'(1)]) (use r'(2) in \<open>auto simp: authority_keeps_def revoked_row_def\<close>)
qed

text \<open>
  The listing tells which authority is in force. For an existing campaign it holds every authority of the campaign
  once, the latest approval first; an entry is reported as currently valid exactly when the authority is not revoked,
  has not reached its end and the campaign is not over; and in a state that the store reaches from empty tables at most
  one entry is.
\<close>

theorem listed_validity_exact:
  assumes store: "campaign_store api ginv cinv ainv" "campaign_reaches reader api db0 db"
    and start: "ginv (goals_db db0)" "cinv (campaigns_db db0)" "ainv (authorities_db db0)"
      "orm_rows (authorities_api api) (authorities_db db0) = {}"
    and found: "find_campaign api db (strip cid) = Some campaign"
  shows "\<exists>rows. list_continuation_authorities api db now cid = Inr (map (authority_row_to_dict (cm_status campaign) now) rows) \<and>
    distinct rows \<and> set rows = {r \<in> orm_rows (authorities_api api) (authorities_db db). ca_campaign_id r = strip cid} \<and>
    sorted_wrt (\<lambda>a b. instant (ca_approved_at b) \<le> instant (ca_approved_at a)) rows \<and>
    (\<forall>r \<in> set rows. dict_get (authority_row_to_dict (cm_status campaign) now r) ''currently_valid'' = PBool True \<longleftrightarrow>
      ca_revoked_at r = None \<and> (\<forall>e. ca_expires_at r = Some e \<longrightarrow> instant now < instant e) \<and>
      \<not> terminal_campaign (cm_status campaign)) \<and>
    length (filter (\<lambda>d. dict_get d ''currently_valid'' = PBool True) (map (authority_row_to_dict (cm_status campaign) now) rows)) \<le> 1"
proof -
  let ?rows = "orm_rows (authorities_api api) (authorities_db db)"
  have tables: "orm_table (authorities_api api) ca_authority_id ainv" using store(1) by (simp add: campaign_store_def)
  have inv: "ainv (authorities_db db)" "one_unrevoked ?rows" "\<forall>r \<in> ?rows. authority_ok reader r"
    using campaign_store.reaches_keeps [OF store] start by (simp_all add: campaign_store.tables_ok_def [OF store(1)] one_unrevoked_def)
  define sel where "sel = orm_select (authorities_api api) (authorities_db db) (\<lambda>r. ca_campaign_id r = strip cid)"
  define rows where "rows = rev (sort_key (\<lambda>r. (instant (ca_approved_at r), ca_authority_id r)) sel)"
  have set: "set rows = {r \<in> ?rows. ca_campaign_id r = strip cid}" and dist: "distinct rows"
    using orm_table.select_rows [OF tables inv(1)] orm_table.select_distinct [OF tables inv(1)] by (simp_all add: rows_def sel_def)
  have "sorted_wrt (\<lambda>a b. (instant (ca_approved_at a), ca_authority_id a) \<le> (instant (ca_approved_at b), ca_authority_id b)) (rev rows)"
    using sorted_sort_key [of "\<lambda>r. (instant (ca_approved_at r), ca_authority_id r)" sel] by (simp add: rows_def sorted_map)
  then have sorted: "sorted_wrt (\<lambda>a b. instant (ca_approved_at b) \<le> instant (ca_approved_at a)) rows"
    unfolding sorted_wrt_rev by (rule sorted_wrt_mono_rel [rotated]) (auto simp: less_eq_prod_def)
  have valid: "dict_get (authority_row_to_dict (cm_status campaign) now r) ''currently_valid'' = PBool True \<longleftrightarrow>
      ca_revoked_at r = None \<and> (\<forall>e. ca_expires_at r = Some e \<longrightarrow> instant now < instant e) \<and> \<not> terminal_campaign (cm_status campaign)"
    if "r \<in> set rows" for r
    using that inv(3) set
    by (auto simp: authority_row_to_dict_def Let_def dict_get_def is_expired_def authority_ok_def split: option.splits)
  let ?P = "\<lambda>r. dict_get (authority_row_to_dict (cm_status campaign) now r) ''currently_valid'' = PBool True"
  have "a = b" if "a \<in> set rows" "?P a" "b \<in> set rows" "?P b" for a b
  proof -
    have "a \<in> ?rows" "b \<in> ?rows" "ca_campaign_id a = ca_campaign_id b" using that(1,3) unfolding set by simp_all
    moreover have "ca_revoked_at a = None" "ca_revoked_at b = None"
      using that(2,4) unfolding valid [OF that(1)] valid [OF that(3)] by blast+
    ultimately show ?thesis using inv(2) unfolding one_unrevoked_def by blast
  qed
  then have "length (filter ?P rows) \<le> 1" by (rule filter_unique [OF dist])
  then have one: "length (filter (\<lambda>d. dict_get d ''currently_valid'' = PBool True) (map (authority_row_to_dict (cm_status campaign) now) rows)) \<le> 1"
    by (simp only: filter_map comp_def length_map)
  have answer: "list_continuation_authorities api db now cid = Inr (map (authority_row_to_dict (cm_status campaign) now) rows)"
    using found by (simp add: list_continuation_authorities_def Let_def rows_def sel_def)
  show ?thesis
    by (rule exI [of _ rows]) (intro conjI answer dist set sorted one ballI valid)
qed

section \<open>A store on lists\<close>

definition campaign_lists :: "(CampaignGoal list, Campaign list, AuthorityRecord list) campaign_api" where
  "campaign_lists =
     \<lparr>goals_api = list_orm cg_goal_id (\<lambda>_ _. None), campaigns_api = list_orm cm_campaign_id (\<lambda>_ _. None),
      authorities_api = list_orm ca_authority_id (\<lambda>rows r.
        if ca_revoked_at r = None \<and> (\<exists>x \<in> set rows. ca_campaign_id x = ca_campaign_id r \<and> ca_revoked_at x = None)
        then Some ''UNIQUE constraint failed'' else None)\<rparr>"

interpretation campaigns: campaign_store campaign_lists "list_invar cg_goal_id" "list_invar cm_campaign_id" "list_invar ca_authority_id"
  unfolding campaign_store_def by (simp add: campaign_lists_def orm_table_list_orm)

definition demo_envelope :: ContinuationEnvelope where
  "demo_envelope =
     \<lparr>ce_schema_version = 1, ce_campaign_objective = ''ship'', ce_allowed_task_classes = [''code''],
      ce_permitted_execution_lanes = [''local''], ce_permitted_workspace_scope = [''src''],
      ce_permitted_validation_proof_classes = [''tests''], ce_spend_posture = [(''limit'', PInt 0)],
      ce_automatic_retry_permitted = True, ce_max_retries = 2, ce_automatic_downstream_dispatch_permitted = False,
      ce_promotion_authorities = \<lparr>pa_commit = True, pa_push = False, pa_merge = False, pa_release = False, pa_deploy = False,
        pa_destructive_production_mutation = False\<rparr>,
      ce_explicit_stop_conditions = [''failed'']\<rparr>"

definition demo_reader :: envelope_reader where
  "demo_reader v = (if v = PStr ''doc'' then Some demo_envelope else None)"

definition demo_at :: "int \<Rightarrow> pydt" where
  "demo_at t = \<lparr>wall = t, utcoff = Some 0\<rparr>"

definition demo_campaign :: Campaign where
  "demo_campaign =
     \<lparr>cm_campaign_id = ''c'', cm_goal_id = ''g'', cm_title = ''t'', cm_summary = None, cm_status = ''active'',
      cm_source_thread_id = None, cm_source_message_id = None, cm_created_at = demo_at 0, cm_updated_at = demo_at 0\<rparr>"

definition demo_campaigns :: "(CampaignGoal list, Campaign list, AuthorityRecord list) campaign_db" where
  "demo_campaigns = \<lparr>goals_db = [], campaigns_db = [demo_campaign], authorities_db = []\<rparr>"

definition demo_authority :: "string \<Rightarrow> int \<Rightarrow> AuthorityRecord" where
  "demo_authority hex t = new_authority hex ''c'' (dump_envelope demo_envelope) ''ann'' (demo_at t) (Some (demo_at 900)) ''account_admin''"

text \<open>An authority is approved, revoked by another operator, and a second one approved.\<close>

definition demo_approved :: "(CampaignGoal list, Campaign list, AuthorityRecord list) campaign_db" where
  "demo_approved = demo_campaigns\<lparr>authorities_db := [demo_authority ''1'' 10]\<rparr>"

definition demo_replaced :: "(CampaignGoal list, Campaign list, AuthorityRecord list) campaign_db" where
  "demo_replaced = demo_campaigns\<lparr>authorities_db :=
     [revoked_row (demo_at 20) ''bob'' ''risk'' ''operator_deployment'' (demo_authority ''1'' 10), demo_authority ''2'' 30]\<rparr>"

lemma demo_campaign_checks:
  "model_validate demo_reader (PStr ''doc'') = Some demo_envelope" "strip ''c'' = ''c''" "strip ''ann'' = ''ann''" "strip ''bob'' = ''bob''"
  "strip ''risk'' = ''risk''" "normalize_provenance ''account_admin'' = Inr ''account_admin''"
  "normalize_provenance ''operator_deployment'' = Inr ''operator_deployment''" "strip ''cauth_1'' = ''cauth_1''"
  "normalize_expiry (demo_at 10) (Some (demo_at 900)) = Inr (Some (demo_at 900))"
  "normalize_expiry (demo_at 30) (Some (demo_at 900)) = Inr (Some (demo_at 900))"
  by code_simp+

lemma demo_approve:
  "campaign_exec demo_reader campaign_lists demo_campaigns (Approve (demo_at 10) ''1'' ''c'' (PStr ''doc'') ''ann'' ''account_admin'' (Some (demo_at 900)))
    = Inr (demo_approved, authority_row_to_dict ''active'' (demo_at 10) (demo_authority ''1'' 10))"
  by (simp add: approve_continuation_authority_def demo_campaign_checks approve_in_session_def find_campaign_def find_unrevoked_def orm_first_def
    campaign_lists_def demo_campaigns_def demo_campaign_def demo_approved_def demo_authority_def list_orm_defs terminal_campaign_def Let_def)

definition demo_revoked :: "(CampaignGoal list, Campaign list, AuthorityRecord list) campaign_db" where
  "demo_revoked = demo_campaigns\<lparr>authorities_db :=
     [revoked_row (demo_at 20) ''bob'' ''risk'' ''operator_deployment'' (demo_authority ''1'' 10)]\<rparr>"

lemma demo_revoke:
  "campaign_exec demo_reader campaign_lists demo_approved (Revoke (demo_at 20) (demo_at 20) ''c'' ''cauth_1'' ''bob'' ''operator_deployment'' ''risk'')
    = Inr (demo_revoked, authority_row_to_dict ''active'' (demo_at 20)
        (revoked_row (demo_at 20) ''bob'' ''risk'' ''operator_deployment'' (demo_authority ''1'' 10)))"
  by (simp add: revoke_continuation_authority_def demo_campaign_checks find_campaign_def orm_first_def new_id_def demo_revoked_def
    campaign_lists_def demo_campaigns_def demo_campaign_def demo_approved_def demo_authority_def list_orm_defs Let_def)

lemma demo_second:
  "campaign_exec demo_reader campaign_lists demo_revoked (Approve (demo_at 30) ''2'' ''c'' (PStr ''doc'') ''ann'' ''account_admin'' (Some (demo_at 900)))
    = Inr (demo_replaced, authority_row_to_dict ''active'' (demo_at 30) (demo_authority ''2'' 30))"
  by (simp add: approve_continuation_authority_def demo_campaign_checks approve_in_session_def find_campaign_def find_unrevoked_def orm_first_def new_id_def
    campaign_lists_def demo_campaigns_def demo_campaign_def demo_revoked_def demo_replaced_def demo_authority_def list_orm_defs
    terminal_campaign_def Let_def)

lemma demo_replace: "campaign_reaches demo_reader campaign_lists demo_approved demo_replaced"
  by (rule campaign_reaches.call [OF campaign_reaches.call [OF campaign_reaches.start demo_revoke] demo_second])

lemma demo_reached: "campaign_reaches demo_reader campaign_lists demo_campaigns demo_replaced"
  by (rule campaign_reaches.call [OF campaign_reaches.call [OF campaign_reaches.call [OF campaign_reaches.start demo_approve] demo_revoke] demo_second])

lemma demo_tables:
  "list_invar cg_goal_id (goals_db db0)" "list_invar cm_campaign_id (campaigns_db db0)" "list_invar ca_authority_id (authorities_db db0)"
  if "db0 = demo_campaigns \<or> db0 = demo_approved"
  using that by (auto simp: demo_campaigns_def demo_approved_def list_invar_def)

theorem one_authority_per_campaign_witness:
  "one_unrevoked (set (authorities_db demo_replaced))"
  using one_authority_per_campaign [OF campaigns.campaign_store_axioms demo_reached] demo_tables [of demo_campaigns]
  by (simp add: campaign_lists_def demo_campaigns_def)

theorem authority_record_final_witness:
  "demo_authority ''1'' 10 \<notin> set (authorities_db demo_replaced) \<and>
   (\<exists>r' \<in> set (authorities_db demo_replaced). ca_authority_id r' = ''cauth_1'' \<and> ca_approved_by_actor_id r' = ''ann'')"
proof -
  have "demo_authority ''1'' 10 \<in> orm_rows (authorities_api campaign_lists) (authorities_db demo_approved)"
    by (simp add: campaign_lists_def demo_approved_def)
  from authority_record_final [OF campaigns.campaign_store_axioms demo_replace _ _ _ this] demo_tables [of demo_approved]
  have "\<exists>r' \<in> set (authorities_db demo_replaced). ca_authority_id r' = ca_authority_id (demo_authority ''1'' 10) \<and>
      ca_approved_by_actor_id r' = ca_approved_by_actor_id (demo_authority ''1'' 10)"
    by (auto simp: campaign_lists_def)
  then show ?thesis
    by (auto simp: demo_authority_def new_authority_def new_id_def demo_replaced_def revoked_row_def demo_at_def)
qed

theorem listed_validity_exact_witness:
  "\<exists>rows. list_continuation_authorities campaign_lists demo_replaced (demo_at 40) ''c'' =
     Inr (map (authority_row_to_dict ''active'' (demo_at 40)) rows) \<and> set rows = set (authorities_db demo_replaced)"
proof -
  have found: "find_campaign campaign_lists demo_replaced (strip ''c'') = Some demo_campaign"
    by (simp add: find_campaign_def orm_first_def campaign_lists_def demo_replaced_def demo_campaigns_def demo_campaign_def
      demo_campaign_checks list_orm_defs)
  from listed_validity_exact [OF campaigns.campaign_store_axioms demo_reached _ _ _ _ found, of "demo_at 40"] demo_tables [of demo_campaigns]
  show ?thesis
    by (auto simp: campaign_lists_def demo_campaigns_def demo_campaign_def demo_campaign_checks demo_replaced_def demo_authority_def)
qed

end
