(* ===== verification/Campaign_Attempts.thy ===== *)
theory Campaign_Attempts
  imports Campaign_Store
begin

text \<open>
  Model of the execution attempts of \<^verbatim>\<open>guardian/agents/campaign_runner_store.py\<close>: the record of what a run did for a
  work order of a campaign. Recording is an upsert on the pair of run and attempt. The results are that there is one
  row per pair, what recording keeps and overwrites, and that the summary by work order shows the latest attempt.
\<close>

section \<open>Rows\<close>

definition ATTEMPT_STATUSES :: "string set" where
  "ATTEMPT_STATUSES = {''running'', ''succeeded'', ''failed'', ''cancelled''}"

record CampaignExecutionAttempt =
  xa_attempt_record_id :: string
  xa_campaign_id :: "string option"
  xa_goal_id :: "string option"
  xa_work_order_id :: "string option"
  xa_run_id :: string
  xa_attempt_id :: string
  xa_coding_task_id :: "string option"
  xa_adapter_kind :: "string option"
  xa_runtime_target :: "string option"
  xa_status :: string
  xa_started_at :: "pydt option"
  xa_completed_at :: "pydt option"
  xa_failed_at :: "pydt option"
  xa_error_code :: "string option"
  xa_error_message :: "string option"
  xa_validation_summary :: pydict
  xa_commit_hash :: "string option"
  xa_delivery_ok :: "bool option"
  xa_delivered_message_id :: "int option"
  xa_delivery_reason :: "string option"
  xa_source_thread_id :: "int option"
  xa_source_message_id :: "int option"
  xa_evidence_json :: pydict
  xa_created_at :: pydt
  xa_updated_at :: pydt

record attempt_args =
  ra_run_id :: string
  ra_attempt_id :: string
  ra_status :: string
  ra_coding_task_id :: "string option"
  ra_campaign_id :: "string option"
  ra_goal_id :: "string option"
  ra_work_order_id :: "string option"
  ra_adapter_kind :: "string option"
  ra_runtime_target :: "string option"
  ra_started_at :: "pydt option"
  ra_error_code :: "string option"
  ra_error_message :: "string option"
  ra_validation_summary :: "pydict option"
  ra_commit_hash :: "string option"
  ra_delivery_ok :: "bool option"
  ra_delivered_message_id :: "int option"
  ra_delivery_reason :: "string option"
  ra_source_thread_id :: "int option"
  ra_source_message_id :: "int option"
  ra_evidence_json :: "pydict option"

definition positive_int :: "int option \<Rightarrow> int option" where
  "positive_int raw = (case raw of None \<Rightarrow> None | Some value \<Rightarrow> if 0 < value then Some value else None)"

definition mapping_or_empty :: "pydict option \<Rightarrow> pydict" where
  "mapping_or_empty raw = (case raw of None \<Rightarrow> [] | Some d \<Rightarrow> d)"

definition normalize_attempt_status :: "string \<Rightarrow> string" where
  "normalize_attempt_status raw = (let value = lower (strip raw) in if value = [] then ''failed'' else value)"

definition attempt_row_to_dict :: "CampaignExecutionAttempt \<Rightarrow> pydict" where
  "attempt_row_to_dict row =
     [(''attempt_record_id'', PStr (xa_attempt_record_id row)), (''campaign_id'', opt_str (xa_campaign_id row)),
      (''goal_id'', opt_str (xa_goal_id row)), (''work_order_id'', opt_str (xa_work_order_id row)),
      (''run_id'', PStr (xa_run_id row)), (''attempt_id'', PStr (xa_attempt_id row)),
      (''coding_task_id'', opt_str (xa_coding_task_id row)), (''adapter_kind'', opt_str (xa_adapter_kind row)),
      (''runtime_target'', opt_str (xa_runtime_target row)), (''status'', PStr (xa_status row)),
      (''started_at'', opt_str (map_option isoformat (xa_started_at row))),
      (''completed_at'', opt_str (map_option isoformat (xa_completed_at row))),
      (''failed_at'', opt_str (map_option isoformat (xa_failed_at row))), (''error_code'', opt_str (xa_error_code row)),
      (''error_message'', opt_str (xa_error_message row)), (''validation_summary'', PDict (xa_validation_summary row)),
      (''commit_hash'', opt_str (xa_commit_hash row)),
      (''delivery_ok'', case xa_delivery_ok row of None \<Rightarrow> PNone | Some b \<Rightarrow> PBool b),
      (''delivered_message_id'', opt_int (xa_delivered_message_id row)), (''delivery_reason'', opt_str (xa_delivery_reason row)),
      (''source_thread_id'', opt_int (xa_source_thread_id row)), (''source_message_id'', opt_int (xa_source_message_id row)),
      (''evidence_json'', PDict (xa_evidence_json row)), (''created_at'', PStr (isoformat (xa_created_at row))),
      (''updated_at'', PStr (isoformat (xa_updated_at row)))]"

section \<open>Recording\<close>

text \<open>The row that \<open>CampaignExecutionAttempt(...)\<close> makes, the other columns unset.\<close>

definition blank_attempt :: "pydt \<Rightarrow> string \<Rightarrow> string \<Rightarrow> string \<Rightarrow> CampaignExecutionAttempt" where
  "blank_attempt now hex run_id attempt_id =
     \<lparr>xa_attempt_record_id = new_id ''attemptrec'' hex, xa_campaign_id = None, xa_goal_id = None, xa_work_order_id = None,
      xa_run_id = run_id, xa_attempt_id = attempt_id, xa_coding_task_id = None, xa_adapter_kind = None, xa_runtime_target = None,
      xa_status = [], xa_started_at = None, xa_completed_at = None, xa_failed_at = None, xa_error_code = None,
      xa_error_message = None, xa_validation_summary = [], xa_commit_hash = None, xa_delivery_ok = None,
      xa_delivered_message_id = None, xa_delivery_reason = None, xa_source_thread_id = None, xa_source_message_id = None,
      xa_evidence_json = [], xa_created_at = now, xa_updated_at = now\<rparr>"

definition finish_times :: "pydt \<Rightarrow> string \<Rightarrow> CampaignExecutionAttempt \<Rightarrow> CampaignExecutionAttempt" where
  "finish_times now status row =
     (if status = ''failed'' then row\<lparr>xa_failed_at := Some now, xa_completed_at := None\<rparr>
      else if status \<in> {''succeeded'', ''cancelled''}
      then (if status \<noteq> ''cancelled'' then row\<lparr>xa_completed_at := Some now, xa_failed_at := None\<rparr>
            else row\<lparr>xa_completed_at := Some now\<rparr>)
      else row)"

definition assign_attempt :: "pydt \<Rightarrow> string \<Rightarrow> attempt_args \<Rightarrow> CampaignExecutionAttempt \<Rightarrow> CampaignExecutionAttempt" where
  "assign_attempt now status a row =
     (let started = (case ra_started_at a of None \<Rightarrow> now | Some t \<Rightarrow> t) in
      (finish_times now status
        (row\<lparr>xa_campaign_id := optional_field (ra_campaign_id a), xa_goal_id := optional_field (ra_goal_id a),
           xa_work_order_id := optional_field (ra_work_order_id a), xa_coding_task_id := optional_field (ra_coding_task_id a),
           xa_adapter_kind := optional_field (ra_adapter_kind a), xa_runtime_target := optional_field (ra_runtime_target a),
           xa_status := status,
           xa_started_at := (case xa_started_at row of None \<Rightarrow> Some started | Some t \<Rightarrow> Some t),
           xa_error_code := optional_field (ra_error_code a), xa_error_message := optional_field (ra_error_message a),
           xa_validation_summary := mapping_or_empty (ra_validation_summary a),
           xa_commit_hash := optional_field (ra_commit_hash a), xa_delivery_ok := ra_delivery_ok a,
           xa_delivered_message_id := positive_int (ra_delivered_message_id a),
           xa_delivery_reason := optional_field (ra_delivery_reason a),
           xa_source_thread_id := positive_int (ra_source_thread_id a),
           xa_source_message_id := positive_int (ra_source_message_id a),
           xa_evidence_json := mapping_or_empty (ra_evidence_json a)\<rparr>))\<lparr>xa_updated_at := now\<rparr>)"

definition find_attempt :: "('t, CampaignExecutionAttempt) orm \<Rightarrow> 't \<Rightarrow> string \<Rightarrow> string \<Rightarrow> CampaignExecutionAttempt option" where
  "find_attempt api db run_id attempt_id = orm_first api db (\<lambda>r. xa_run_id r = run_id \<and> xa_attempt_id r = attempt_id)"

definition record_execution_attempt ::
    "('t, CampaignExecutionAttempt) orm \<Rightarrow> 't \<Rightarrow> pydt \<Rightarrow> string \<Rightarrow> attempt_args \<Rightarrow> campaign_error + ('t \<times> pydict)" where
  "record_execution_attempt api db now hex a =
     (let run_id = strip (ra_run_id a); attempt_id = strip (ra_attempt_id a); status = normalize_attempt_status (ra_status a) in
      if run_id = [] then Inl (CampaignValidation ''missing_attempt_run_id'')
      else if attempt_id = [] then Inl (CampaignValidation ''missing_attempt_id'')
      else if status \<notin> ATTEMPT_STATUSES then Inl (CampaignValidation ''invalid_attempt_status'')
      else
        (let found = find_attempt api db run_id attempt_id;
             row = assign_attempt now status a (case found of Some r \<Rightarrow> r | None \<Rightarrow> blank_attempt now hex run_id attempt_id)
         in case (if found = None then orm_add api db row else orm_commit api db row) of
              Inl e \<Rightarrow> Inl (CampaignDatabase e)
            | Inr db' \<Rightarrow> Inr (db', attempt_row_to_dict row)))"

section \<open>Reading\<close>

definition newest_first :: "CampaignExecutionAttempt list \<Rightarrow> CampaignExecutionAttempt list" where
  "newest_first rows = rev (sort_key (\<lambda>r. (instant (xa_created_at r), xa_attempt_record_id r)) rows)"

definition list_attempts_for_campaign ::
    "('t, CampaignExecutionAttempt) orm \<Rightarrow> 't \<Rightarrow> int option \<Rightarrow> string \<Rightarrow> pydict list" where
  "list_attempts_for_campaign api db limit campaign_id =
     (let bounded_limit = max 1 (min (case limit of None \<Rightarrow> 200 | Some n \<Rightarrow> if n = 0 then 200 else n) 500) in
      map attempt_row_to_dict (take (nat bounded_limit) (newest_first (orm_select api db (\<lambda>r. xa_campaign_id r = Some campaign_id)))))"

text \<open>One pass over the rows, by work order and the newest first within one.\<close>

fun first_by_work_order ::
    "CampaignExecutionAttempt list \<Rightarrow> (string \<times> pydict) list \<Rightarrow> (string \<times> pydict) list" where
  "first_by_work_order [] by_work_order = by_work_order"
| "first_by_work_order (row # rows) by_work_order =
     (case optional_field (xa_work_order_id row) of
        None \<Rightarrow> first_by_work_order rows by_work_order
      | Some work_order_id \<Rightarrow>
        if map_of by_work_order work_order_id \<noteq> None then first_by_work_order rows by_work_order
        else first_by_work_order rows (by_work_order @ [(work_order_id, attempt_row_to_dict row)]))"

definition latest_attempt_by_work_order ::
    "('t, CampaignExecutionAttempt) orm \<Rightarrow> 't \<Rightarrow> string \<Rightarrow> (string \<times> pydict) list" where
  "latest_attempt_by_work_order api db campaign_id =
     first_by_work_order
       (sort_key (\<lambda>r. case xa_work_order_id r of None \<Rightarrow> [] | Some w \<Rightarrow> w)
         (newest_first (orm_select api db (\<lambda>r. xa_campaign_id r = Some campaign_id)))) []"

section \<open>Rows of the table\<close>

definition campaign_attempt_ok :: "CampaignExecutionAttempt \<Rightarrow> bool" where
  "campaign_attempt_ok r \<longleftrightarrow>
     strip (xa_run_id r) = xa_run_id r \<and> xa_run_id r \<noteq> [] \<and> strip (xa_attempt_id r) = xa_attempt_id r \<and> xa_attempt_id r \<noteq> [] \<and>
     xa_status r \<in> ATTEMPT_STATUSES \<and> xa_started_at r \<noteq> None \<and>
     (xa_status r = ''failed'' \<longrightarrow> xa_failed_at r = Some (xa_updated_at r) \<and> xa_completed_at r = None) \<and>
     (xa_status r = ''succeeded'' \<longrightarrow> xa_completed_at r = Some (xa_updated_at r) \<and> xa_failed_at r = None) \<and>
     (xa_status r = ''cancelled'' \<longrightarrow> xa_completed_at r = Some (xa_updated_at r)) \<and>
     (\<forall>w. xa_work_order_id r = Some w \<longrightarrow> strip w = w \<and> w \<noteq> [])"

definition one_per_attempt :: "CampaignExecutionAttempt set \<Rightarrow> bool" where
  "one_per_attempt rows \<longleftrightarrow>
     (\<forall>a \<in> rows. \<forall>b \<in> rows. xa_run_id a = xa_run_id b \<and> xa_attempt_id a = xa_attempt_id b \<longrightarrow> a = b)"

lemma optional_field_Some: "optional_field raw = Some w \<Longrightarrow> strip w = w \<and> w \<noteq> []"
  by (auto simp: optional_field_def split: option.splits)

lemma optional_field_clean: "strip w = w \<Longrightarrow> w \<noteq> [] \<Longrightarrow> optional_field (Some w) = Some w"
  by (simp add: optional_field_def)

lemma assign_attempt_simps [simp]:
  "xa_attempt_record_id (assign_attempt now status a r) = xa_attempt_record_id r"
  "xa_run_id (assign_attempt now status a r) = xa_run_id r" "xa_attempt_id (assign_attempt now status a r) = xa_attempt_id r"
  "xa_created_at (assign_attempt now status a r) = xa_created_at r" "xa_status (assign_attempt now status a r) = status"
  by (simp_all add: assign_attempt_def Let_def finish_times_def)

lemma attempt_ok_assign:
  assumes "strip (xa_run_id r) = xa_run_id r" "xa_run_id r \<noteq> []" "strip (xa_attempt_id r) = xa_attempt_id r" "xa_attempt_id r \<noteq> []"
    and "status \<in> ATTEMPT_STATUSES"
  shows "campaign_attempt_ok (assign_attempt now status a r)"
  using assms optional_field_Some [of "ra_work_order_id a"]
  by (auto simp: campaign_attempt_ok_def assign_attempt_def Let_def finish_times_def split: option.splits)

lemma record_Inr:
  assumes "record_execution_attempt api db now hex a = Inr (db', d)"
  obtains (new) r where "find_attempt api db (strip (ra_run_id a)) (strip (ra_attempt_id a)) = None"
      "r = assign_attempt now (normalize_attempt_status (ra_status a)) a
         (blank_attempt now hex (strip (ra_run_id a)) (strip (ra_attempt_id a)))"
      "orm_add api db r = Inr db'" "d = attempt_row_to_dict r" "campaign_attempt_ok r"
  | (old) r0 r where "find_attempt api db (strip (ra_run_id a)) (strip (ra_attempt_id a)) = Some r0"
      "r = assign_attempt now (normalize_attempt_status (ra_status a)) a r0" "orm_commit api db r = Inr db'"
      "d = attempt_row_to_dict r" "normalize_attempt_status (ra_status a) \<in> ATTEMPT_STATUSES"
proof (cases "find_attempt api db (strip (ra_run_id a)) (strip (ra_attempt_id a))")
  case None
  let ?r = "assign_attempt now (normalize_attempt_status (ra_status a)) a
         (blank_attempt now hex (strip (ra_run_id a)) (strip (ra_attempt_id a)))"
  have ok: "strip (ra_run_id a) \<noteq> []" "strip (ra_attempt_id a) \<noteq> []" "normalize_attempt_status (ra_status a) \<in> ATTEMPT_STATUSES"
    and "orm_add api db ?r = Inr db'" "d = attempt_row_to_dict ?r"
    using assms None by (auto simp: record_execution_attempt_def Let_def split: if_splits sum.splits)
  moreover have "campaign_attempt_ok ?r" using ok by (intro attempt_ok_assign) (simp_all add: blank_attempt_def)
  ultimately show thesis using new None by blast
next
  case (Some r0)
  then show thesis
    using assms old by (auto simp: record_execution_attempt_def Let_def split: if_splits sum.splits)
qed

section \<open>Sequences of recordings\<close>

inductive attempts_reach :: "('t, CampaignExecutionAttempt) orm \<Rightarrow> 't \<Rightarrow> 't \<Rightarrow> bool" for api where
  start: "attempts_reach api db db"
| recorded: "attempts_reach api db0 db \<Longrightarrow> record_execution_attempt api db now hex a = Inr (db', d) \<Longrightarrow> attempts_reach api db0 db'"

locale campaign_attempt_store = orm_table api xa_attempt_record_id invar
  for api :: "('t, CampaignExecutionAttempt) orm" and invar :: "'t \<Rightarrow> bool"
begin

lemma find_attempt_Some:
  "invar db \<Longrightarrow> find_attempt api db run_id attempt_id = Some r \<Longrightarrow> r \<in> orm_rows api db \<and> xa_run_id r = run_id \<and> xa_attempt_id r = attempt_id"
  using first_Some [of db "\<lambda>r. xa_run_id r = run_id \<and> xa_attempt_id r = attempt_id" r] by (simp add: find_attempt_def)

lemma find_attempt_None:
  "invar db \<Longrightarrow> find_attempt api db run_id attempt_id = None \<longleftrightarrow> (\<forall>r \<in> orm_rows api db. xa_run_id r = run_id \<longrightarrow> xa_attempt_id r \<noteq> attempt_id)"
  by (auto simp: find_attempt_def first_None)

text \<open>Recording replaces the row of its pair, if there is one, and touches no other.\<close>

lemma record_rows:
  assumes "invar db" "one_per_attempt (orm_rows api db)" "\<forall>r \<in> orm_rows api db. campaign_attempt_ok r"
    and "record_execution_attempt api db now hex a = Inr (db', d)"
  shows "invar db' \<and> (\<exists>r. orm_rows api db' = insert r {x \<in> orm_rows api db. \<not> (xa_run_id x = xa_run_id r \<and> xa_attempt_id x = xa_attempt_id r)} \<and>
    d = attempt_row_to_dict r \<and> campaign_attempt_ok r \<and>
    xa_run_id r = strip (ra_run_id a) \<and> xa_attempt_id r = strip (ra_attempt_id a) \<and>
    (\<exists>r0. r = assign_attempt now (normalize_attempt_status (ra_status a)) a r0 \<and>
       (case find_attempt api db (strip (ra_run_id a)) (strip (ra_attempt_id a)) of
          None \<Rightarrow> r0 = blank_attempt now hex (strip (ra_run_id a)) (strip (ra_attempt_id a))
        | Some x \<Rightarrow> r0 = x)))"
  using assms(4)
proof (cases rule: record_Inr)
  case (new r)
  have p: "xa_run_id r = strip (ra_run_id a)" "xa_attempt_id r = strip (ra_attempt_id a)" by (simp_all add: new(2) blank_attempt_def)
  then have "orm_rows api db' = insert r {x \<in> orm_rows api db. \<not> (xa_run_id x = xa_run_id r \<and> xa_attempt_id x = xa_attempt_id r)}"
    using add_rows [OF assms(1) new(3)] new(1) find_attempt_None [OF assms(1)] by auto
  then show ?thesis using add_invar [OF assms(1) new(3)] new p by auto
next
  case (old r0 r)
  note r0 = find_attempt_Some [OF assms(1) old(1)]
  have k: "xa_attempt_record_id r0 = xa_attempt_record_id r" by (simp add: old(2))
  have p: "xa_run_id r = xa_run_id r0" "xa_attempt_id r = xa_attempt_id r0" by (simp_all add: old(2))
  have "orm_rows api db - {r0} = {x \<in> orm_rows api db. \<not> (xa_run_id x = xa_run_id r \<and> xa_attempt_id x = xa_attempt_id r)}"
    using assms(2) r0 p by (auto simp: one_per_attempt_def)
  moreover have "campaign_attempt_ok r"
    unfolding old(2) using assms(3) r0 old(5) by (intro attempt_ok_assign) (auto simp: campaign_attempt_ok_def)
  ultimately show ?thesis
    using commit_rows [OF assms(1) _ k old(3)] commit_invar [OF assms(1) _ k old(3)] r0 old p by auto
qed

lemma record_keeps:
  assumes "invar db" "one_per_attempt (orm_rows api db)" "\<forall>r \<in> orm_rows api db. campaign_attempt_ok r"
    and "record_execution_attempt api db now hex a = Inr (db', d)"
  shows "invar db' \<and> one_per_attempt (orm_rows api db') \<and> (\<forall>r \<in> orm_rows api db'. campaign_attempt_ok r)"
  using record_rows [OF assms] assms(2,3) by (auto simp: one_per_attempt_def)

lemma reach_keeps:
  assumes "attempts_reach api db0 db" "invar db0" "one_per_attempt (orm_rows api db0)" "\<forall>r \<in> orm_rows api db0. campaign_attempt_ok r"
  shows "invar db \<and> one_per_attempt (orm_rows api db) \<and> (\<forall>r \<in> orm_rows api db. campaign_attempt_ok r)"
  using assms by (induction rule: attempts_reach.induct) (auto dest: record_keeps)

end

section \<open>The latest attempt\<close>

lemma first_by_work_order_find:
  "map_of (first_by_work_order rows acc) w =
     (case map_of acc w of Some d \<Rightarrow> Some d
      | None \<Rightarrow> map_option attempt_row_to_dict (find (\<lambda>r. optional_field (xa_work_order_id r) = Some w) rows))"
proof (induction rows arbitrary: acc)
  case (Cons row rows)
  show ?case
  proof (cases "optional_field (xa_work_order_id row)")
    case (Some v)
    then show ?thesis using Cons.IH [of acc] Cons.IH [of "acc @ [(v, attempt_row_to_dict row)]"]
      by (cases "v = w") (auto simp: map_add_def split: option.splits)
  qed (simp add: Cons.IH split: option.splits)
qed (simp split: option.splits)

lemma find_filter: "find P xs = (case filter P xs of [] \<Rightarrow> None | x # _ \<Rightarrow> Some x)"
  by (induction xs) auto

lemma find_first: "find P xs = Some x \<longleftrightarrow> (\<exists>ys. filter P xs = x # ys)"
  by (auto simp: find_filter split: list.splits)

definition attempt_rank :: "CampaignExecutionAttempt \<Rightarrow> int \<times> string" where
  "attempt_rank r = (instant (xa_created_at r), xa_attempt_record_id r)"

lemma newest_first_max:
  assumes "filter P (newest_first rows) = x # ys" "y \<in> set rows" "P y"
  shows "attempt_rank y \<le> attempt_rank x"
proof -
  have "sorted_wrt (\<lambda>a b. attempt_rank b \<le> attempt_rank a) (newest_first rows)"
    using sorted_sort_key [of "\<lambda>r. (instant (xa_created_at r), xa_attempt_record_id r)" rows]
    by (simp add: newest_first_def sorted_wrt_rev sorted_map attempt_rank_def)
  then have "sorted_wrt (\<lambda>a b. attempt_rank b \<le> attempt_rank a) (x # ys)"
    unfolding assms(1) [symmetric] by (rule sorted_wrt_filter)
  moreover have "y \<in> set (x # ys)" unfolding assms(1) [symmetric] using assms(2,3) by (simp add: newest_first_def)
  ultimately show ?thesis by auto
qed

section \<open>Results\<close>

text \<open>
  Attempts are recorded once. From an empty table, whatever is recorded in whatever order, there is at most one row
  for a run and an attempt, and every row is well formed: its pair is not blank, its status is one of the four, it has
  a start time, a failed attempt has the time of its last record as its failure time and no completion time, a
  succeeded one the reverse, and a cancelled one a completion time.
\<close>

theorem attempts_recorded_once:
  assumes "orm_table api xa_attempt_record_id invar" "invar db0" "orm_rows api db0 = {}" "attempts_reach api db0 db"
  shows "one_per_attempt (orm_rows api db) \<and> (\<forall>r \<in> orm_rows api db. campaign_attempt_ok r)"
  using campaign_attempt_store.reach_keeps [OF campaign_attempt_store.intro [OF assms(1)] assms(4,2)] assms(3)
  by (simp add: one_per_attempt_def)

text \<open>
  Recording again overwrites. In a state reached from an empty table, a successful record leaves one row for its
  pair, and the rows of all other pairs as they were. An existing row keeps its identifier, its creation time and its
  start time; its campaign, goal, work order, error, commit, delivery and evidence become exactly what the record
  says, so what it leaves out is erased; and a record of a running or cancelled attempt does not clear the failure time
  of an earlier failed one.
\<close>

theorem recording_overwrites:
  assumes "orm_table api xa_attempt_record_id invar" "invar db0" "orm_rows api db0 = {}" "attempts_reach api db0 db"
    and "record_execution_attempt api db now hex a = Inr (db', d)"
  shows "\<exists>r. d = attempt_row_to_dict r \<and> xa_run_id r = strip (ra_run_id a) \<and> xa_attempt_id r = strip (ra_attempt_id a) \<and>
    orm_rows api db' = insert r {x \<in> orm_rows api db. \<not> (xa_run_id x = xa_run_id r \<and> xa_attempt_id x = xa_attempt_id r)} \<and>
    xa_campaign_id r = optional_field (ra_campaign_id a) \<and> xa_goal_id r = optional_field (ra_goal_id a) \<and>
    xa_work_order_id r = optional_field (ra_work_order_id a) \<and> xa_error_message r = optional_field (ra_error_message a) \<and>
    xa_commit_hash r = optional_field (ra_commit_hash a) \<and> xa_delivery_ok r = ra_delivery_ok a \<and>
    xa_evidence_json r = mapping_or_empty (ra_evidence_json a) \<and>
    (\<forall>r0. find_attempt api db (strip (ra_run_id a)) (strip (ra_attempt_id a)) = Some r0 \<longrightarrow>
       xa_attempt_record_id r = xa_attempt_record_id r0 \<and> xa_created_at r = xa_created_at r0 \<and> xa_started_at r = xa_started_at r0 \<and>
       (xa_status r \<in> {''running'', ''cancelled''} \<longrightarrow> xa_failed_at r = xa_failed_at r0))"
proof -
  note store = campaign_attempt_store.intro [OF assms(1)]
  have keeps: "invar db" "one_per_attempt (orm_rows api db)" "\<forall>r \<in> orm_rows api db. campaign_attempt_ok r"
    using campaign_attempt_store.reach_keeps [OF store assms(4,2)] assms(3) by (simp_all add: one_per_attempt_def)
  from campaign_attempt_store.record_rows [OF store keeps assms(5)] obtain r r0 where
      r: "orm_rows api db' = insert r {x \<in> orm_rows api db. \<not> (xa_run_id x = xa_run_id r \<and> xa_attempt_id x = xa_attempt_id r)}"
        "d = attempt_row_to_dict r" "xa_run_id r = strip (ra_run_id a)" "xa_attempt_id r = strip (ra_attempt_id a)"
        "r = assign_attempt now (normalize_attempt_status (ra_status a)) a r0"
      and r0: "case find_attempt api db (strip (ra_run_id a)) (strip (ra_attempt_id a)) of
          None \<Rightarrow> r0 = blank_attempt now hex (strip (ra_run_id a)) (strip (ra_attempt_id a)) | Some x \<Rightarrow> r0 = x"
    by blast
  have "xa_started_at x \<noteq> None" if "find_attempt api db (strip (ra_run_id a)) (strip (ra_attempt_id a)) = Some x" for x
    using campaign_attempt_store.find_attempt_Some [OF store keeps(1) that] keeps(3) by (auto simp: campaign_attempt_ok_def)
  then show ?thesis
    using r r0 by (intro exI [of _ r]) (auto simp: assign_attempt_def Let_def finish_times_def)
qed

text \<open>
  The summary shows the latest attempts. In a state reached from an empty table, the summary of a campaign has an
  entry for exactly the work orders with an attempt in the campaign, and the entry is the attempt recorded last, by
  creation time and then by identifier.
\<close>

theorem latest_attempt_exact:
  assumes "orm_table api xa_attempt_record_id invar" "invar db0" "orm_rows api db0 = {}" "attempts_reach api db0 db"
  shows "(map_of (latest_attempt_by_work_order api db cid) w = None \<longleftrightarrow>
      (\<forall>r \<in> orm_rows api db. xa_campaign_id r = Some cid \<longrightarrow> xa_work_order_id r \<noteq> Some w)) \<and>
    (\<forall>d. map_of (latest_attempt_by_work_order api db cid) w = Some d \<longrightarrow>
      (\<exists>r \<in> orm_rows api db. xa_campaign_id r = Some cid \<and> xa_work_order_id r = Some w \<and> d = attempt_row_to_dict r \<and>
        (\<forall>r' \<in> orm_rows api db. xa_campaign_id r' = Some cid \<and> xa_work_order_id r' = Some w \<longrightarrow> attempt_rank r' \<le> attempt_rank r)))"
proof -
  note store = campaign_attempt_store.intro [OF assms(1)]
  have keeps: "invar db" "\<forall>r \<in> orm_rows api db. campaign_attempt_ok r"
    using campaign_attempt_store.reach_keeps [OF store assms(4,2)] assms(3) by (simp_all add: one_per_attempt_def)
  define sel where "sel = orm_select api db (\<lambda>r. xa_campaign_id r = Some cid)"
  have sel: "set sel = {r \<in> orm_rows api db. xa_campaign_id r = Some cid}"
    using orm_table.select_rows [OF assms(1) keeps(1)] by (simp add: sel_def)
  define key where "key = (\<lambda>r :: CampaignExecutionAttempt. case xa_work_order_id r of None \<Rightarrow> [] | Some w \<Rightarrow> w)"
  have clean: "optional_field (xa_work_order_id r) = xa_work_order_id r" if "r \<in> set sel" for r
    using that keeps(2) sel
    by (cases "xa_work_order_id r") (auto simp: campaign_attempt_ok_def optional_field_def)
  have pick: "filter (\<lambda>r. optional_field (xa_work_order_id r) = Some w) (sort_key key (newest_first sel)) =
      filter (\<lambda>r. xa_work_order_id r = Some w) (newest_first sel)"
  proof (cases "w = []")
    case True
    have "xa_work_order_id r \<noteq> Some []" if "r \<in> set sel" for r using that keeps(2) sel by (auto simp: campaign_attempt_ok_def)
    with True clean show ?thesis by (auto simp: newest_first_def filter_empty_conv)
  next
    case False
    have "filter (\<lambda>r. optional_field (xa_work_order_id r) = Some w) (sort_key key (newest_first sel)) =
        filter (\<lambda>r. key r = w) (sort_key key (newest_first sel))"
      using clean False by (intro filter_cong refl) (auto simp: newest_first_def key_def split: option.splits)
    also have "\<dots> = filter (\<lambda>r. key r = w) (newest_first sel)" by (rule sort_key_stable)
    also have "\<dots> = filter (\<lambda>r. xa_work_order_id r = Some w) (newest_first sel)"
      using False by (intro filter_cong refl) (auto simp: key_def split: option.splits)
    finally show ?thesis .
  qed
  have latest: "map_of (latest_attempt_by_work_order api db cid) w =
      (case filter (\<lambda>r. xa_work_order_id r = Some w) (newest_first sel) of [] \<Rightarrow> None | r # _ \<Rightarrow> Some (attempt_row_to_dict r))"
    unfolding latest_attempt_by_work_order_def first_by_work_order_find sel_def [symmetric] key_def [symmetric]
    by (simp add: find_filter pick split: list.splits)
  show ?thesis
  proof (cases "filter (\<lambda>r. xa_work_order_id r = Some w) (newest_first sel)")
    case Nil
    then show ?thesis using latest sel by (auto simp: filter_empty_conv newest_first_def)
  next
    case (Cons r rs)
    then have "r \<in> set (filter (\<lambda>r. xa_work_order_id r = Some w) (newest_first sel))" by simp
    then have r: "r \<in> set sel" "xa_work_order_id r = Some w" by (simp_all add: newest_first_def)
    have "attempt_rank r' \<le> attempt_rank r" if "r' \<in> set sel" "xa_work_order_id r' = Some w" for r'
      using newest_first_max [OF Cons that] .
    then show ?thesis using latest Cons r sel by auto
  qed
qed

section \<open>A table of attempts\<close>

definition attempt_table :: "(CampaignExecutionAttempt list, CampaignExecutionAttempt) orm" where
  "attempt_table = list_orm xa_attempt_record_id (\<lambda>_ _. None)"

interpretation attempts: campaign_attempt_store attempt_table "list_invar xa_attempt_record_id"
  unfolding campaign_attempt_store_def attempt_table_def by (rule orm_table_list_orm)

definition demo_record :: "string \<Rightarrow> string \<Rightarrow> string option \<Rightarrow> attempt_args" where
  "demo_record attempt_id status campaign_id =
     \<lparr>ra_run_id = ''r1'', ra_attempt_id = attempt_id, ra_status = status, ra_coding_task_id = None, ra_campaign_id = campaign_id,
      ra_goal_id = None, ra_work_order_id = Some ''w'', ra_adapter_kind = None, ra_runtime_target = None, ra_started_at = None,
      ra_error_code = None, ra_error_message = None, ra_validation_summary = None, ra_commit_hash = None, ra_delivery_ok = None,
      ra_delivered_message_id = None, ra_delivery_reason = None, ra_source_thread_id = None, ra_source_message_id = None,
      ra_evidence_json = None\<rparr>"

definition demo_row :: "string \<Rightarrow> string \<Rightarrow> int \<Rightarrow> string \<Rightarrow> CampaignExecutionAttempt" where
  "demo_row hex attempt_id t status =
     assign_attempt (demo_at t) status (demo_record attempt_id status (Some ''c'')) (blank_attempt (demo_at t) hex ''r1'' attempt_id)"

lemma demo_campaign_texts:
  "strip ''r1'' = ''r1''" "strip ''a1'' = ''a1''" "strip ''a2'' = ''a2''"
  "normalize_attempt_status ''failed'' = ''failed''" "normalize_attempt_status ''running'' = ''running''"
  by code_simp+

text \<open>The first attempt fails, a second one starts, and then the first is recorded as running without its campaign.\<close>

definition demo_attempts :: "CampaignExecutionAttempt list" where
  "demo_attempts = [demo_row ''1'' ''a1'' 10 ''failed'', demo_row ''2'' ''a2'' 20 ''running'']"

lemma demo_first:
  "record_execution_attempt attempt_table [] (demo_at 10) ''1'' (demo_record ''a1'' ''failed'' (Some ''c'')) =
    Inr ([demo_row ''1'' ''a1'' 10 ''failed''], attempt_row_to_dict (demo_row ''1'' ''a1'' 10 ''failed''))"
  by (simp add: record_execution_attempt_def demo_record_def demo_campaign_texts demo_row_def find_attempt_def orm_first_def
    attempt_table_def list_orm_defs ATTEMPT_STATUSES_def Let_def)

lemma demo_second_attempt:
  "record_execution_attempt attempt_table [demo_row ''1'' ''a1'' 10 ''failed''] (demo_at 20) ''2'' (demo_record ''a2'' ''running'' (Some ''c'')) =
    Inr (demo_attempts, attempt_row_to_dict (demo_row ''2'' ''a2'' 20 ''running''))"
  by (simp add: record_execution_attempt_def demo_record_def demo_campaign_texts demo_row_def find_attempt_def orm_first_def
    attempt_table_def list_orm_defs ATTEMPT_STATUSES_def Let_def demo_attempts_def blank_attempt_def new_id_def)

lemma demo_attempts_reached: "attempts_reach attempt_table [] demo_attempts"
  by (rule attempts_reach.recorded [OF attempts_reach.recorded [OF attempts_reach.start demo_first] demo_second_attempt])

theorem attempts_recorded_once_witness: "one_per_attempt (set demo_attempts)"
  using attempts_recorded_once [OF attempts.orm_table_axioms _ _ demo_attempts_reached]
  by (simp add: attempt_table_def list_invar_def)

theorem recording_overwrites_witness:
  "\<exists>db' d r. record_execution_attempt attempt_table demo_attempts (demo_at 30) ''3'' (demo_record ''a1'' ''running'' None) = Inr (db', d) \<and>
     r \<in> set db' \<and> xa_attempt_id r = ''a1'' \<and> xa_campaign_id r = None"
proof -
  obtain db' d where again: "record_execution_attempt attempt_table demo_attempts (demo_at 30) ''3'' (demo_record ''a1'' ''running'' None) = Inr (db', d)"
    by (simp add: record_execution_attempt_def demo_record_def demo_campaign_texts demo_row_def find_attempt_def orm_first_def
      attempt_table_def list_orm_defs ATTEMPT_STATUSES_def Let_def demo_attempts_def blank_attempt_def new_id_def)
  from recording_overwrites [OF attempts.orm_table_axioms _ _ demo_attempts_reached again]
  have "\<exists>r. r \<in> set db' \<and> xa_attempt_id r = strip ''a1'' \<and> xa_campaign_id r = optional_field None"
    by (force simp: attempt_table_def list_invar_def demo_record_def)
  with again show ?thesis by (auto simp: demo_campaign_texts optional_field_def)
qed

theorem latest_attempt_exact_witness:
  "map_of (latest_attempt_by_work_order attempt_table demo_attempts ''c'') ''w'' \<noteq> None"
proof -
  have "demo_row ''1'' ''a1'' 10 ''failed'' \<in> set demo_attempts \<and> xa_campaign_id (demo_row ''1'' ''a1'' 10 ''failed'') = Some ''c'' \<and>
      xa_work_order_id (demo_row ''1'' ''a1'' 10 ''failed'') = Some ''w''"
    by (simp add: demo_attempts_def demo_row_def assign_attempt_def finish_times_def demo_record_def optional_field_def Let_def
      strip_def py_isspace_def)
  then show ?thesis
    using latest_attempt_exact [OF attempts.orm_table_axioms _ _ demo_attempts_reached, of "''c''" "''w''"]
    by (auto simp: attempt_table_def list_invar_def)
qed

end
