(* ===== verification/Task_Queue.thy ===== *)
theory Task_Queue
  imports Turn_Lock "HOL-Library.Sublist"
begin

text \<open>
  Model of \<^verbatim>\<open>guardian/queue/redis_queue.py\<close>: the task queues of the workers on Redis lists, with the one retry that
  every command gets when the connection fails, the cancellation marks, and the in-memory server the module falls back
  to in tests. The Redis driver below it sends a command again by itself, so that an attempt may run its command several
  times without an answer, and fail or not in the end; how often and when it ran is an argument, bounded by nothing but
  the hypothesis of a theorem. A command that is still under way when its attempt has ended is not modelled. The results
  are what a queue still guarantees then: order, no invented tasks, a copy for each time a command ran, and exactly one
  delivery when no reply is lost. Redis lists are a parameter with the laws of the locale
  \<open>redis_lists\<close>, which the in-memory server satisfies; it also satisfies those of the turn lock.
\<close>

section \<open>The in-memory server\<close>

text \<open>Times are in milliseconds; a set is a list without repetitions.\<close>

type_synonym stream_entry = "string \<times> (string \<times> string) list"

record InMemoryRedis =
  mr_strings :: "(string \<times> string) list"
  mr_expiries :: "(string \<times> int) list"
  mr_lists :: "(string \<times> string list) list"
  mr_sets :: "(string \<times> string list) list"
  mr_streams :: "(string \<times> stream_entry list) list"
  mr_stream_counter :: "(string \<times> int) list"

definition empty_redis :: InMemoryRedis where
  "empty_redis = \<lparr>mr_strings = [], mr_expiries = [], mr_lists = [], mr_sets = [], mr_streams = [], mr_stream_counter = []\<rparr>"

definition purge_if_expired :: "int \<Rightarrow> string \<Rightarrow> InMemoryRedis \<Rightarrow> InMemoryRedis" where
  "purge_if_expired now key s =
     (case map_of (mr_expiries s) key of
        None \<Rightarrow> s
      | Some expires_at \<Rightarrow>
        if expires_at \<le> now
        then s\<lparr>mr_expiries := AList.delete key (mr_expiries s), mr_strings := AList.delete key (mr_strings s)\<rparr> else s)"

definition mem_set :: "int \<Rightarrow> string \<Rightarrow> string \<Rightarrow> int option \<Rightarrow> bool \<Rightarrow> InMemoryRedis \<Rightarrow> InMemoryRedis \<times> bool" where
  "mem_set now key v ex nx s0 =
     (let s = purge_if_expired now key s0 in
      if nx \<and> map_of (mr_strings s) key \<noteq> None then (s, False)
      else (s\<lparr>mr_strings := AList.update key v (mr_strings s),
              mr_expiries := (case ex of None \<Rightarrow> AList.delete key (mr_expiries s)
                | Some ttl \<Rightarrow> AList.update key (now + 1000 * ttl) (mr_expiries s))\<rparr>, True))"

definition mem_get :: "int \<Rightarrow> string \<Rightarrow> InMemoryRedis \<Rightarrow> InMemoryRedis \<times> string option" where
  "mem_get now key s0 = (let s = purge_if_expired now key s0 in (s, map_of (mr_strings s) key))"

definition mem_delete :: "int \<Rightarrow> string \<Rightarrow> InMemoryRedis \<Rightarrow> InMemoryRedis \<times> nat" where
  "mem_delete now key s0 =
     (let s = purge_if_expired now key s0 in
      (s\<lparr>mr_strings := AList.delete key (mr_strings s), mr_expiries := AList.delete key (mr_expiries s)\<rparr>,
       if map_of (mr_strings s) key \<noteq> None then 1 else 0))"

definition mem_list :: "InMemoryRedis \<Rightarrow> string \<Rightarrow> string list" where
  "mem_list s name = (case map_of (mr_lists s) name of None \<Rightarrow> [] | Some xs \<Rightarrow> xs)"

definition mem_lpush :: "string \<Rightarrow> string \<Rightarrow> InMemoryRedis \<Rightarrow> InMemoryRedis" where
  "mem_lpush name v s = s\<lparr>mr_lists := AList.update name (v # mem_list s name) (mr_lists s)\<rparr>"

definition mem_rpush :: "string \<Rightarrow> string \<Rightarrow> InMemoryRedis \<Rightarrow> InMemoryRedis" where
  "mem_rpush name v s = s\<lparr>mr_lists := AList.update name (mem_list s name @ [v]) (mr_lists s)\<rparr>"

definition mem_lpop :: "string \<Rightarrow> InMemoryRedis \<Rightarrow> InMemoryRedis \<times> string option" where
  "mem_lpop name s =
     (case mem_list s name of [] \<Rightarrow> (s, None) | v # vs \<Rightarrow> (s\<lparr>mr_lists := AList.update name vs (mr_lists s)\<rparr>, Some v))"

definition mem_rpop :: "string \<Rightarrow> InMemoryRedis \<Rightarrow> InMemoryRedis \<times> string option" where
  "mem_rpop name s =
     (let queue = mem_list s name in
      if queue = [] then (s, None) else (s\<lparr>mr_lists := AList.update name (butlast queue) (mr_lists s)\<rparr>, Some (last queue)))"

text \<open>\<open>blpop\<close> and \<open>brpop\<close> of this server do not wait.\<close>

definition mem_blpop :: "string \<Rightarrow> InMemoryRedis \<Rightarrow> InMemoryRedis \<times> (string \<times> string) option" where
  "mem_blpop name s = (case mem_lpop name s of (s', v) \<Rightarrow> (s', map_option (Pair name) v))"

definition mem_brpop :: "string \<Rightarrow> InMemoryRedis \<Rightarrow> InMemoryRedis \<times> (string \<times> string) option" where
  "mem_brpop name s = (case mem_rpop name s of (s', v) \<Rightarrow> (s', map_option (Pair name) v))"

definition mem_members :: "InMemoryRedis \<Rightarrow> string \<Rightarrow> string list" where
  "mem_members s name = (case map_of (mr_sets s) name of None \<Rightarrow> [] | Some xs \<Rightarrow> xs)"

definition mem_sadd :: "string \<Rightarrow> string \<Rightarrow> InMemoryRedis \<Rightarrow> InMemoryRedis \<times> nat" where
  "mem_sadd name v s =
     (let bucket = mem_members s name in
      if v \<in> set bucket then (s\<lparr>mr_sets := AList.update name bucket (mr_sets s)\<rparr>, 0)
      else (s\<lparr>mr_sets := AList.update name (bucket @ [v]) (mr_sets s)\<rparr>, 1))"

definition mem_sismember :: "string \<Rightarrow> string \<Rightarrow> InMemoryRedis \<Rightarrow> bool" where
  "mem_sismember name v s = (v \<in> set (mem_members s name))"

definition mem_srem :: "string \<Rightarrow> string \<Rightarrow> InMemoryRedis \<Rightarrow> InMemoryRedis \<times> nat" where
  "mem_srem name v s =
     (if v \<in> set (mem_members s name)
      then (s\<lparr>mr_sets := AList.update name (filter (\<lambda>x. x \<noteq> v) (mem_members s name)) (mr_sets s)\<rparr>, 1) else (s, 0))"

definition mem_entries :: "InMemoryRedis \<Rightarrow> string \<Rightarrow> stream_entry list" where
  "mem_entries s name = (case map_of (mr_streams s) name of None \<Rightarrow> [] | Some es \<Rightarrow> es)"

definition mem_xadd :: "int \<Rightarrow> string \<Rightarrow> (string \<times> string) list \<Rightarrow> InMemoryRedis \<Rightarrow> InMemoryRedis \<times> string" where
  "mem_xadd now name flds s =
     (let counter = (case map_of (mr_stream_counter s) name of None \<Rightarrow> 0 | Some n \<Rightarrow> n) + 1;
          entry_id = show_int now @ ''-'' @ show_int counter
      in (s\<lparr>mr_stream_counter := AList.update name counter (mr_stream_counter s),
            mr_streams := AList.update name (mem_entries s name @ [(entry_id, flds)]) (mr_streams s)\<rparr>, entry_id))"

text \<open>Identifiers are compared as texts.\<close>

definition mem_xread :: "string \<Rightarrow> string \<Rightarrow> nat \<Rightarrow> InMemoryRedis \<Rightarrow> stream_entry list" where
  "mem_xread name last_id count s =
     (let filtered = filter (\<lambda>e. fst e > last_id) (mem_entries s name) in
      if count \<noteq> 0 \<and> count < length filtered then take count filtered else filtered)"

section \<open>Commands and their retry\<close>

text \<open>
  What becomes of one attempt. The driver sends a command again by itself when no reply comes, so that one attempt may
  run it any number of times: \<open>ft_lost\<close> has the times at which it ran and its result did not reach the caller, whether
  the reply was lost or came after the deadline. The attempt ends with a reply, to a command that ran at \<open>ft_time\<close>; with
  an error of the connection, or of the time limit of an operation; or with the deadline of an accepted chat task.
\<close>

datatype ending = Answered | Failing | OutOfTime

datatype fault = Fault (ft_lost: "int list") (ft_end: ending) (ft_time: int)

datatype redis_failure = ConnectionFailure | DeadlineFailure | NoAttempt

definition reruns :: "int list \<Rightarrow> (int \<Rightarrow> 's \<Rightarrow> 's \<times> 'a) \<Rightarrow> 's \<Rightarrow> 's" where
  "reruns ts fn s = fold (\<lambda>t s. fst (fn t s)) ts s"

fun one_attempt :: "fault \<Rightarrow> (int \<Rightarrow> 's \<Rightarrow> 's \<times> 'a) \<Rightarrow> 's \<Rightarrow> 's \<times> (redis_failure + 'a)" where
  "one_attempt (Fault ts Answered t) fn s = (case fn t (reruns ts fn s) of (s', x) \<Rightarrow> (s', Inr x))"
| "one_attempt (Fault ts Failing t) fn s = (reruns ts fn s, Inl ConnectionFailure)"
| "one_attempt (Fault ts OutOfTime t) fn s = (reruns ts fn s, Inl DeadlineFailure)"

fun attempts_loop ::
    "(redis_failure \<Rightarrow> bool) \<Rightarrow> redis_failure option \<Rightarrow> fault list \<Rightarrow> (int \<Rightarrow> 's \<Rightarrow> 's \<times> 'a) \<Rightarrow> 's \<Rightarrow> 's \<times> (redis_failure + 'a)" where
  "attempts_loop reraised last_err [] fn s = (s, Inl (case last_err of Some e \<Rightarrow> e | None \<Rightarrow> NoAttempt))"
| "attempts_loop reraised last_err (f # fs) fn s =
     (case one_attempt f fn s of
        (s', Inr x) \<Rightarrow> (s', Inr x)
      | (s', Inl e) \<Rightarrow> if reraised e then (s', Inl e) else attempts_loop reraised (Some e) fs fn s')"

text \<open>Both take two attempts; only the request client lets the deadline through at once.\<close>

type_synonym faults = "fault \<times> fault"

definition with_reconnect :: "faults \<Rightarrow> (int \<Rightarrow> 's \<Rightarrow> 's \<times> 'a) \<Rightarrow> 's \<Rightarrow> 's \<times> (redis_failure + 'a)" where
  "with_reconnect f fn s = attempts_loop (\<lambda>e. e = DeadlineFailure) None [fst f, snd f] fn s"

definition with_queue_reconnect :: "faults \<Rightarrow> (int \<Rightarrow> 's \<Rightarrow> 's \<times> 'a) \<Rightarrow> 's \<Rightarrow> 's \<times> (redis_failure + 'a)" where
  "with_queue_reconnect f fn s = attempts_loop (\<lambda>_. False) None [fst f, snd f] fn s"

section \<open>Queues\<close>

record 's lists_api =
  la_lpush :: "string \<Rightarrow> string \<Rightarrow> 's \<Rightarrow> 's"
  la_rpop :: "string \<Rightarrow> 's \<Rightarrow> 's \<times> string option"
  la_sadd :: "string \<Rightarrow> string \<Rightarrow> 's \<Rightarrow> 's"
  la_srem :: "string \<Rightarrow> string \<Rightarrow> 's \<Rightarrow> 's"
  la_sismember :: "string \<Rightarrow> string \<Rightarrow> 's \<Rightarrow> bool"

record task_codec =
  tc_dumps :: "pydict \<Rightarrow> string"
  tc_loads :: "string \<Rightarrow> pyval option"

text \<open>A task: a dictionary (or an object that makes one), or another value.\<close>

datatype task = TaskDict pydict | TaskValue pyval

definition serialize_task :: "task_codec \<Rightarrow> task \<Rightarrow> string" where
  "serialize_task codec t = tc_dumps codec (case t of TaskDict d \<Rightarrow> d | TaskValue v \<Rightarrow> [(''payload'', v)])"

definition deserialize_task :: "task_codec \<Rightarrow> string option \<Rightarrow> pydict option" where
  "deserialize_task codec raw =
     (case raw of
        None \<Rightarrow> None
      | Some text \<Rightarrow>
        (case tc_loads codec text of
           None \<Rightarrow> Some [(''raw'', PStr text)]
         | Some (PDict d) \<Rightarrow> Some d
         | Some v \<Rightarrow> Some [(''payload'', v)]))"

definition enqueue :: "'s lists_api \<Rightarrow> task_codec \<Rightarrow> faults \<Rightarrow> task \<Rightarrow> string \<Rightarrow> 's \<Rightarrow> 's \<times> (redis_failure + unit)" where
  "enqueue api codec f t queue_name s =
     with_reconnect f (\<lambda>_ s. (la_lpush api queue_name (serialize_task codec t) s, ())) s"

text \<open>
  A consumer that waits is a command that Redis runs when it is served; one that finds no task by then returns nothing.
\<close>

definition dequeue ::
    "'s lists_api \<Rightarrow> task_codec \<Rightarrow> faults \<Rightarrow> bool \<Rightarrow> string \<Rightarrow> 's \<Rightarrow> 's \<times> (redis_failure + pydict option)" where
  "dequeue api codec f block queue_name s =
     (case (if block then with_queue_reconnect f (\<lambda>_. la_rpop api queue_name) s else with_reconnect f (\<lambda>_. la_rpop api queue_name) s) of
        (s', Inl e) \<Rightarrow> (s', Inl e)
      | (s', Inr raw) \<Rightarrow> (s', Inr (deserialize_task codec raw)))"

definition CANCEL_SET_KEY :: string where "CANCEL_SET_KEY = ''codexify:queue:cancelled''"

definition cancel_task :: "'s lists_api \<Rightarrow> faults \<Rightarrow> string \<Rightarrow> 's \<Rightarrow> 's \<times> (redis_failure + unit)" where
  "cancel_task api f task_id s = with_reconnect f (\<lambda>_ s. (la_sadd api CANCEL_SET_KEY task_id s, ())) s"

definition is_cancelled :: "'s lists_api \<Rightarrow> faults \<Rightarrow> string \<Rightarrow> 's \<Rightarrow> 's \<times> (redis_failure + bool)" where
  "is_cancelled api f task_id s = with_reconnect f (\<lambda>_ s. (s, la_sismember api CANCEL_SET_KEY task_id s)) s"

definition clear_cancelled :: "'s lists_api \<Rightarrow> faults \<Rightarrow> string \<Rightarrow> 's \<Rightarrow> 's \<times> (redis_failure + unit)" where
  "clear_cancelled api f task_id s = with_reconnect f (\<lambda>_ s. (la_srem api CANCEL_SET_KEY task_id s, ())) s"

text \<open>The record of a task: the generated fields, and the payload over them.\<close>

definition task_record :: "string \<Rightarrow> string \<Rightarrow> pydt \<Rightarrow> pydict \<Rightarrow> pydict" where
  "task_record task_id task_type now payload =
     fold (\<lambda>(k, v) d. dict_set d k v) payload
       [(''task_id'', PStr task_id), (''type'', PStr task_type), (''created_at'', PStr (isoformat now))]"

definition CODING_EXECUTION_QUEUE :: string where "CODING_EXECUTION_QUEUE = ''codexify:queue:coding-execution''"

definition enqueue_coding_execution ::
    "'s lists_api \<Rightarrow> task_codec \<Rightarrow> faults \<Rightarrow> string \<Rightarrow> pydt \<Rightarrow> pydict \<Rightarrow> 's \<Rightarrow> 's \<times> (redis_failure + string)" where
  "enqueue_coding_execution api codec f task_id now payload s =
     (case enqueue api codec f (TaskDict (task_record task_id ''coding_execution'' now payload)) CODING_EXECUTION_QUEUE s of
        (s', Inl e) \<Rightarrow> (s', Inl e)
      | (s', Inr _) \<Rightarrow> (s', Inr task_id))"

definition dequeue_coding_execution ::
    "'s lists_api \<Rightarrow> task_codec \<Rightarrow> faults \<Rightarrow> bool \<Rightarrow> 's \<Rightarrow> 's \<times> (redis_failure + pydict option)" where
  "dequeue_coding_execution api codec f block s = dequeue api codec f block CODING_EXECUTION_QUEUE s"

text \<open>The two embedding queues; their names come from the environment.\<close>

definition enqueue_chat_embed ::
    "'s lists_api \<Rightarrow> task_codec \<Rightarrow> string option \<Rightarrow> faults \<Rightarrow> string \<Rightarrow> pydt \<Rightarrow> pydict \<Rightarrow> 's \<Rightarrow> 's \<times> (redis_failure + string)" where
  "enqueue_chat_embed api codec queue_env f task_id now payload s =
     (case enqueue api codec f (TaskDict (task_record task_id ''chat_embed'' now payload))
         (case queue_env of None \<Rightarrow> ''codexify:queue:chat-embed'' | Some name \<Rightarrow> name) s of
        (s', Inl e) \<Rightarrow> (s', Inl e)
      | (s', Inr _) \<Rightarrow> (s', Inr task_id))"

definition enqueue_chat_import_embed ::
    "'s lists_api \<Rightarrow> task_codec \<Rightarrow> string option \<Rightarrow> faults \<Rightarrow> string \<Rightarrow> pydt \<Rightarrow> pydict \<Rightarrow> 's \<Rightarrow> 's \<times> (redis_failure + string)" where
  "enqueue_chat_import_embed api codec queue_env f task_id now payload s =
     (case enqueue api codec f (TaskDict (task_record task_id ''chat_import_embed'' now payload))
         (case queue_env of None \<Rightarrow> ''codexify:queue:chat-import-embed'' | Some name \<Rightarrow> name) s of
        (s', Inl e) \<Rightarrow> (s', Inl e)
      | (s', Inr _) \<Rightarrow> (s', Inr task_id))"

definition dequeue_chat_embed ::
    "'s lists_api \<Rightarrow> task_codec \<Rightarrow> string option \<Rightarrow> faults \<Rightarrow> bool \<Rightarrow> 's \<Rightarrow> 's \<times> (redis_failure + pydict option)" where
  "dequeue_chat_embed api codec queue_env f block s =
     dequeue api codec f block (case queue_env of None \<Rightarrow> ''codexify:queue:chat-embed'' | Some name \<Rightarrow> name) s"

definition dequeue_chat_import_embed ::
    "'s lists_api \<Rightarrow> task_codec \<Rightarrow> string option \<Rightarrow> faults \<Rightarrow> bool \<Rightarrow> 's \<Rightarrow> 's \<times> (redis_failure + pydict option)" where
  "dequeue_chat_import_embed api codec queue_env f block s =
     dequeue api codec f block (case queue_env of None \<Rightarrow> ''codexify:queue:chat-import-embed'' | Some name \<Rightarrow> name) s"

text \<open>The review tasks carry their identifiers and nothing else.\<close>

definition watchdog_queue_name :: "string option \<Rightarrow> string" where
  "watchdog_queue_name queue_env = (case queue_env of None \<Rightarrow> ''codexify:queue:github-watchdog-review'' | Some name \<Rightarrow> name)"

definition enqueue_watchdog_review ::
    "'s lists_api \<Rightarrow> task_codec \<Rightarrow> string option \<Rightarrow> faults \<Rightarrow> string \<Rightarrow> string \<Rightarrow> string \<Rightarrow> string \<Rightarrow> 's \<Rightarrow> 's \<times> (redis_failure + unit)" where
  "enqueue_watchdog_review api codec queue_env f task_id dispatch_id review_attempt_id created_at s =
     enqueue api codec f
       (TaskDict [(''task_id'', PStr task_id), (''type'', PStr ''github_watchdog_review''), (''dispatch_id'', PStr dispatch_id),
          (''review_attempt_id'', PStr review_attempt_id), (''created_at'', PStr created_at)])
       (watchdog_queue_name queue_env) s"

definition dequeue_watchdog_review ::
    "'s lists_api \<Rightarrow> task_codec \<Rightarrow> string option \<Rightarrow> faults \<Rightarrow> bool \<Rightarrow> 's \<Rightarrow> 's \<times> (redis_failure + pydict option)" where
  "dequeue_watchdog_review api codec queue_env f block s = dequeue api codec f block (watchdog_queue_name queue_env) s"

text \<open>The older lock of this module, on the key of \<^verbatim>\<open>turn_lock.py\<close>; its release deletes whatever is there.\<close>

definition legacy_acquire_turn_lock ::
    "'s redis \<Rightarrow> int \<Rightarrow> faults \<Rightarrow> int \<Rightarrow> int option \<Rightarrow> string option \<Rightarrow> string \<Rightarrow> 's \<Rightarrow> 's \<times> (redis_failure + bool)" where
  "legacy_acquire_turn_lock api default_ttl f thread_id ttl_seconds v clock s =
     (let ttl = (case ttl_seconds of None \<Rightarrow> default_ttl | Some n \<Rightarrow> if n = 0 then default_ttl else n);
          lock_value = (case v of Some (c # cs) \<Rightarrow> c # cs | _ \<Rightarrow> clock)
      in with_reconnect f (\<lambda>t s. rd_set_nx api s t (turn_lock_key thread_id) lock_value ttl) s)"

definition legacy_release_turn_lock :: "'s redis \<Rightarrow> faults \<Rightarrow> int \<Rightarrow> 's \<Rightarrow> 's \<times> (redis_failure + unit)" where
  "legacy_release_turn_lock api f thread_id s =
     with_reconnect f (\<lambda>t s. (rd_del api s t (turn_lock_key thread_id), ())) s"

section \<open>What Redis promises of its lists\<close>

locale redis_lists =
  fixes api :: "'s lists_api" and items :: "'s \<Rightarrow> string \<Rightarrow> string list"
  assumes lpush: "items (la_lpush api q v s) q' = (if q' = q then v # items s q else items s q')"
    and rpop_value: "snd (la_rpop api q s) = (if items s q = [] then None else Some (last (items s q)))"
    and rpop_rest: "items (fst (la_rpop api q s)) q' = (if q' = q then butlast (items s q) else items s q')"

lemma mem_list_update: "mem_list (s\<lparr>mr_lists := AList.update q xs (mr_lists s)\<rparr>) q' = (if q' = q then xs else mem_list s q')"
  by (simp add: mem_list_def update_conv')

definition mem_lists :: "InMemoryRedis lists_api" where
  "mem_lists = \<lparr>la_lpush = mem_lpush, la_rpop = mem_rpop, la_sadd = \<lambda>q v s. fst (mem_sadd q v s),
     la_srem = \<lambda>q v s. fst (mem_srem q v s), la_sismember = mem_sismember\<rparr>"

interpretation mem_queues: redis_lists mem_lists mem_list
  by unfold_locales (simp_all add: mem_lists_def mem_lpush_def mem_rpop_def mem_list_update Let_def)

text \<open>The in-memory server is one on which turn locks work.\<close>

definition mem_redis :: "InMemoryRedis redis" where
  "mem_redis = \<lparr>rd_get = \<lambda>s t k. snd (mem_get t k s), rd_set = \<lambda>s t k v ttl. fst (mem_set t k v (Some ttl) False s),
     rd_del = \<lambda>s t k. fst (mem_delete t k s)\<rparr>"

lemma purge_strings:
  "map_of (mr_strings (purge_if_expired t k s)) k' =
     (if k' = k \<and> (\<exists>e. map_of (mr_expiries s) k = Some e \<and> e \<le> t) then None else map_of (mr_strings s) k')"
  by (auto simp: purge_if_expired_def delete_conv' split: option.splits)

lemma purge_expiries:
  "map_of (mr_expiries (purge_if_expired t k s)) k' =
     (if k' = k \<and> (\<exists>e. map_of (mr_expiries s) k = Some e \<and> e \<le> t) then None else map_of (mr_expiries s) k')"
  by (auto simp: purge_if_expired_def delete_conv' split: option.splits)

interpretation mem_locks: redis_server mem_redis
proof
  fix t t' :: int and key key' v :: string and ttl :: int and s :: InMemoryRedis
  assume "t \<le> t'"
  then show "rd_get mem_redis (rd_set mem_redis s t key v ttl) t' key' =
      (if key' = key then (if t' < t + 1000 * ttl then Some v else None) else rd_get mem_redis s t' key')"
    by (auto simp: mem_redis_def mem_get_def mem_set_def Let_def purge_strings purge_expiries update_conv')
  show "rd_get mem_redis (rd_del mem_redis s t key) t' key' = (if key' = key then None else rd_get mem_redis s t' key')"
    by (auto simp: mem_redis_def mem_get_def mem_delete_def Let_def purge_strings purge_expiries delete_conv')
  show "rd_get mem_redis s t' key = None" if "rd_get mem_redis s t key = None"
    using that \<open>t \<le> t'\<close> by (auto simp: mem_redis_def mem_get_def Let_def purge_strings split: if_splits)
  show "rd_get mem_redis s t key = Some v" if "rd_get mem_redis s t' key = Some v"
    using that \<open>t \<le> t'\<close> by (auto simp: mem_redis_def mem_get_def Let_def purge_strings split: if_splits)
qed

lemma mem_set_nx: "mem_set t k v (Some ttl) True s = (if snd (mem_get t k s) = None
    then (fst (mem_set t k v (Some ttl) False s), True) else (fst (mem_get t k s), False))"
  by (simp add: mem_set_def mem_get_def Let_def)

section \<open>Sequences of operations on queues\<close>

datatype queue_op = Enqueue faults task string | Dequeue faults bool string

datatype outcome = Sent "redis_failure + unit" | Received "redis_failure + pydict option"

fun queue_step :: "'s lists_api \<Rightarrow> task_codec \<Rightarrow> queue_op \<Rightarrow> 's \<Rightarrow> 's \<times> outcome" where
  "queue_step api codec (Enqueue f t q) s = (case enqueue api codec f t q s of (s', r) \<Rightarrow> (s', Sent r))"
| "queue_step api codec (Dequeue f block q) s = (case dequeue api codec f block q s of (s', r) \<Rightarrow> (s', Received r))"

fun queue_run :: "'s lists_api \<Rightarrow> task_codec \<Rightarrow> queue_op list \<Rightarrow> 's \<Rightarrow> 's \<times> outcome list" where
  "queue_run api codec [] s = (s, [])"
| "queue_run api codec (op1 # ops) s =
     (case queue_step api codec op1 s of (s1, x) \<Rightarrow> (case queue_run api codec ops s1 of (s2, xs) \<Rightarrow> (s2, x # xs)))"

text \<open>How often a command runs, in one attempt and in the two of \<open>with_reconnect\<close>, and what was put into a queue.\<close>

definition executions :: "fault \<Rightarrow> nat" where
  "executions f = length (ft_lost f) + (if ft_end f = Answered then 1 else 0)"

definition copies :: "faults \<Rightarrow> nat" where
  "copies f = (if ft_end (fst f) = Failing then executions (fst f) + executions (snd f) else executions (fst f))"

text \<open>A driver that sends a command at most \<open>n\<close> times in one attempt.\<close>

definition sent_at_most :: "nat \<Rightarrow> faults \<Rightarrow> bool" where
  "sent_at_most n f \<longleftrightarrow> executions (fst f) \<le> n \<and> executions (snd f) \<le> n"

fun put_by :: "task_codec \<Rightarrow> string \<Rightarrow> queue_op \<Rightarrow> string list" where
  "put_by codec q (Enqueue f t q') = (if q' = q then replicate (copies f) (serialize_task codec t) else [])"
| "put_by codec q (Dequeue f block q') = []"

definition put_log :: "task_codec \<Rightarrow> string \<Rightarrow> queue_op list \<Rightarrow> string list" where
  "put_log codec q ops = concat (map (put_by codec q) ops)"

text \<open>The tasks that the consumers of a queue got.\<close>

fun got_by :: "string \<Rightarrow> queue_op \<times> outcome \<Rightarrow> pydict list" where
  "got_by q (Dequeue f block q', Received (Inr (Some d))) = (if q' = q then [d] else [])"
| "got_by q x = []"

definition got :: "string \<Rightarrow> queue_op list \<Rightarrow> outcome list \<Rightarrow> pydict list" where
  "got q ops xs = concat (map (got_by q) (zip ops xs))"

fun no_loss :: "queue_op \<Rightarrow> bool" where
  "no_loss (Enqueue f t q) = (ft_lost (fst f) = [] \<and> ft_lost (snd f) = [])"
| "no_loss (Dequeue f block q) = (ft_lost (fst f) = [] \<and> ft_lost (snd f) = [])"

definition task_of :: "task_codec \<Rightarrow> string \<Rightarrow> pydict" where
  "task_of codec raw = the (deserialize_task codec (Some raw))"

lemma deserialize_Some: "deserialize_task codec (Some raw) = Some (task_of codec raw)"
  by (auto simp: deserialize_task_def task_of_def split: option.splits pyval.splits)

lemma deserialize_None [simp]: "deserialize_task codec None = None"
  by (simp add: deserialize_task_def)

text \<open>Reasoning about attempts: a command that keeps a property, and one that is answered.\<close>

lemma reruns_Nil [simp]: "reruns [] fn s = s"
  by (simp add: reruns_def)

lemma reruns_Cons [simp]: "reruns (t # ts) fn s = reruns ts fn (fst (fn t s))"
  by (simp add: reruns_def)

lemma reruns_keep: "(\<And>t s. P s \<Longrightarrow> P (fst (fn t s))) \<Longrightarrow> P s \<Longrightarrow> P (reruns ts fn s)"
  by (induction ts arbitrary: s) auto

lemma one_attempt_cases:
  "one_attempt f fn s = (if ft_end f = Answered then (fst (fn (ft_time f) (reruns (ft_lost f) fn s)), Inr (snd (fn (ft_time f) (reruns (ft_lost f) fn s))))
     else (reruns (ft_lost f) fn s, Inl (if ft_end f = Failing then ConnectionFailure else DeadlineFailure)))"
  by (cases f; cases "ft_end f") (auto simp: split_beta)

lemma with_reconnect_cases:
  "with_reconnect f fn s =
     (if ft_end (fst f) = Failing
      then (case one_attempt (snd f) fn (reruns (ft_lost (fst f)) fn s) of (s', x) \<Rightarrow> (s', x))
      else one_attempt (fst f) fn s)"
  by (auto simp: with_reconnect_def one_attempt_cases)

text \<open>The command is answered, in one of the attempts.\<close>

definition answers :: "faults \<Rightarrow> bool" where
  "answers f \<longleftrightarrow> ft_end (fst f) = Answered \<or> (ft_end (fst f) = Failing \<and> ft_end (snd f) = Answered)"

lemma with_reconnect_Inr: "(\<exists>x. snd (with_reconnect f fn s) = Inr x) \<longleftrightarrow> answers f"
  by (auto simp: with_reconnect_cases one_attempt_cases answers_def)

lemma answers_copies: "answers f \<Longrightarrow> 1 \<le> copies f"
  by (auto simp: answers_def copies_def executions_def)

lemma answered_once: "answers f \<Longrightarrow> ft_lost (fst f) = [] \<Longrightarrow> ft_lost (snd f) = [] \<Longrightarrow> copies f = 1"
  "\<not> answers f \<Longrightarrow> ft_lost (fst f) = [] \<Longrightarrow> ft_lost (snd f) = [] \<Longrightarrow> copies f = 0"
  by (auto simp: answers_def copies_def executions_def)

lemma enqueue_copies: "snd (enqueue api codec f t q s) = Inr () \<Longrightarrow> 1 \<le> copies f"
  by (rule answers_copies) (metis enqueue_def with_reconnect_Inr)

lemma enqueue_answers: "snd (enqueue api codec f t q s) = Inr () \<longleftrightarrow> answers f"
  using with_reconnect_Inr [of f "\<lambda>_ s. (la_lpush api q (serialize_task codec t) s, ())" s] by (auto simp: enqueue_def)

lemma copies_le: "sent_at_most n f \<Longrightarrow> copies f \<le> 2 * n"
  by (auto simp: sent_at_most_def copies_def)

text \<open>The positions \<open>n\<close> up to \<open>m\<close> of a list.\<close>

definition slice :: "nat \<Rightarrow> nat \<Rightarrow> 'a list \<Rightarrow> 'a list" where
  "slice n m xs = take (m - n) (drop n xs)"

lemma slice_split: "n \<le> k \<Longrightarrow> k \<le> m \<Longrightarrow> slice n m xs = slice n k xs @ slice k m xs"
proof -
  assume "n \<le> k" "k \<le> m"
  then have "m - n = (k - n) + (m - k)" "drop k xs = drop (k - n) (drop n xs)" by simp_all
  then show ?thesis by (simp add: slice_def take_add)
qed

lemma slice_none: "slice n n xs = []"
  by (simp add: slice_def)

lemma slice_one: "n < length xs \<Longrightarrow> slice n (Suc n) xs = [xs ! n]"
  by (simp add: slice_def take_Suc_conv_app_nth [of 0, simplified] hd_drop_conv_nth take_Suc)

lemma slice_append: "m \<le> length xs \<Longrightarrow> slice n m (xs @ ys) = slice n m xs"
  by (simp add: slice_def)

lemma slice_last: "n < m \<Longrightarrow> m \<le> length xs \<Longrightarrow> subseq [f (xs ! (m - 1))] (map f (slice n m xs))"
  by (simp add: subseq_singleton_left slice_def in_set_conv_nth) (rule image_eqI, rule refl, auto simp: in_set_conv_nth intro!: exI [of _ "m - 1 - n"])

context redis_lists
begin

lemma reruns_push:
  "items (reruns ts (\<lambda>_ s. (la_lpush api q v s, ())) s) q' = (if q' = q then replicate (length ts) v @ items s q else items s q')"
  by (induction ts arbitrary: s) (auto simp: lpush replicate_app_Cons_same)

lemma enqueue_items:
  "items (fst (enqueue api codec f t q s)) q' = rev (put_by codec q' (Enqueue f t q)) @ items s q'"
  by (auto simp: enqueue_def with_reconnect_cases one_attempt_cases copies_def executions_def reruns_push lpush split_beta
      simp flip: replicate_add)

text \<open>A dequeue takes tasks from the end of the list, as often as its command runs, and returns the last it took, if any.\<close>

lemma pop_step:
  assumes "items s q = rev (drop n log)" "n \<le> length log" "la_rpop api q s = (s', v)"
  shows "\<exists>m. items s' q = rev (drop m log) \<and> (\<forall>q'. q' \<noteq> q \<longrightarrow> items s' q' = items s q') \<and> m \<le> length log \<and>
    ((m = n \<and> v = None) \<or> (m = Suc n \<and> v = Some (log ! n)))"
proof (cases "n < length log")
  case True
  then have l: "drop n log = log ! n # drop (Suc n) log" by (simp add: Cons_nth_drop_Suc)
  then have "v = Some (log ! n)" "items s' q = rev (drop (Suc n) log)"
    using assms rpop_value [of q s] rpop_rest [of q s q] by (simp_all add: butlast_append)
  with True show ?thesis using rpop_rest [of q s] assms(3) by (intro exI [of _ "Suc n"]) simp
next
  case False
  with assms(1,2) have "n = length log" "items s q = []" by simp_all
  then show ?thesis using rpop_value [of q s] rpop_rest [of q s] assms(3) by (intro exI [of _ n]) simp
qed

lemma reruns_pop:
  assumes "items s q = rev (drop n log)" "n \<le> length log"
  shows "\<exists>m. n \<le> m \<and> m \<le> length log \<and> items (reruns ts (\<lambda>_. la_rpop api q) s) q = rev (drop m log) \<and>
    (\<forall>q'. q' \<noteq> q \<longrightarrow> items (reruns ts (\<lambda>_. la_rpop api q) s) q' = items s q') \<and> (ts = [] \<longrightarrow> m = n)"
  using assms
proof (induction ts arbitrary: s n)
  case (Cons t ts)
  obtain s1 v where pop: "la_rpop api q s = (s1, v)" by fastforce
  from pop_step [OF Cons.prems pop] obtain n1 where n1: "items s1 q = rev (drop n1 log)" "n1 \<le> length log" "n \<le> n1"
      "\<forall>q'. q' \<noteq> q \<longrightarrow> items s1 q' = items s q'" by auto
  from Cons.IH [OF n1(1,2)] obtain m where "n1 \<le> m" "m \<le> length log"
      "items (reruns ts (\<lambda>_. la_rpop api q) s1) q = rev (drop m log)"
      "\<forall>q'. q' \<noteq> q \<longrightarrow> items (reruns ts (\<lambda>_. la_rpop api q) s1) q' = items s1 q'" by blast
  with n1(3,4) pop show ?case by (intro exI [of _ m]) simp
qed auto

lemma attempt_pop:
  assumes "one_attempt f (\<lambda>_. la_rpop api q) s = (s', r)" "items s q = rev (drop n log)" "n \<le> length log"
  shows "\<exists>m. n \<le> m \<and> m \<le> length log \<and> items s' q = rev (drop m log) \<and> (\<forall>q'. q' \<noteq> q \<longrightarrow> items s' q' = items s q') \<and>
    (\<forall>v. r = Inr (Some v) \<longrightarrow> n < m \<and> v = log ! (m - 1)) \<and>
    (ft_lost f = [] \<longrightarrow> m = (case r of Inr (Some v) \<Rightarrow> Suc n | _ \<Rightarrow> n))"
proof -
  let ?s = "reruns (ft_lost f) (\<lambda>_. la_rpop api q) s"
  from reruns_pop [OF assms(2,3), of "ft_lost f"] obtain k where k: "n \<le> k" "k \<le> length log" "items ?s q = rev (drop k log)"
      "\<forall>q'. q' \<noteq> q \<longrightarrow> items ?s q' = items s q'" "ft_lost f = [] \<longrightarrow> k = n" by blast
  show ?thesis
  proof (cases "ft_end f = Answered")
    case False
    with assms(1) have "s' = ?s" "\<exists>e. r = Inl e" by (auto simp: one_attempt_cases)
    with k show ?thesis by (intro exI [of _ k]) auto
  next
    case True
    obtain s1 v where pop: "la_rpop api q ?s = (s1, v)" by fastforce
    with True assms(1) have r: "s' = s1" "r = Inr v" by (simp_all add: one_attempt_cases)
    from pop_step [OF k(3,2) pop] obtain m where "items s1 q = rev (drop m log)" "m \<le> length log"
        "\<forall>q'. q' \<noteq> q \<longrightarrow> items s1 q' = items ?s q'" "(m = k \<and> v = None) \<or> (m = Suc k \<and> v = Some (log ! k))" by blast
    with k r show ?thesis by (intro exI [of _ m]) auto
  qed
qed

lemma attempts_pop:
  assumes "attempts_loop reraised e fs (\<lambda>_. la_rpop api q) s = (s', r)" "items s q = rev (drop n log)" "n \<le> length log"
  shows "\<exists>m. n \<le> m \<and> m \<le> length log \<and> items s' q = rev (drop m log) \<and> (\<forall>q'. q' \<noteq> q \<longrightarrow> items s' q' = items s q') \<and>
    (\<forall>v. r = Inr (Some v) \<longrightarrow> n < m \<and> v = log ! (m - 1)) \<and>
    ((\<forall>f \<in> set fs. ft_lost f = []) \<longrightarrow> m = (case r of Inr (Some v) \<Rightarrow> Suc n | _ \<Rightarrow> n))"
  using assms
proof (induction fs arbitrary: e s n)
  case (Cons f fs)
  obtain s1 x where one: "one_attempt f (\<lambda>_. la_rpop api q) s = (s1, x)" by fastforce
  from attempt_pop [OF one Cons.prems(2,3)] obtain k where k: "n \<le> k" "k \<le> length log" "items s1 q = rev (drop k log)"
      "\<forall>q'. q' \<noteq> q \<longrightarrow> items s1 q' = items s q'" "\<forall>v. x = Inr (Some v) \<longrightarrow> n < k \<and> v = log ! (k - 1)"
      "ft_lost f = [] \<longrightarrow> k = (case x of Inr (Some v) \<Rightarrow> Suc n | _ \<Rightarrow> n)" by blast
  show ?case
  proof (cases "\<exists>e. x = Inl e \<and> \<not> reraised e")
    case False
    then have "s' = s1" "r = x" using Cons.prems(1) one by (auto split: sum.splits if_splits)
    with k show ?thesis by (intro exI [of _ k]) auto
  next
    case True
    then obtain e where e: "x = Inl e" "\<not> reraised e" by blast
    with Cons.prems(1) one have "attempts_loop reraised (Some e) fs (\<lambda>_. la_rpop api q) s1 = (s', r)" by simp
    from Cons.IH [OF this k(3,2)] k(1,4,6) e(1) show ?thesis by (auto intro: le_trans)
  qed
qed auto

lemma dequeue_items:
  assumes "dequeue api codec f block q s = (s', r)" "items s q = rev (drop n log)" "n \<le> length log"
  shows "\<exists>m. n \<le> m \<and> m \<le> length log \<and> items s' q = rev (drop m log) \<and> (\<forall>q'. q' \<noteq> q \<longrightarrow> items s' q' = items s q') \<and>
    (\<forall>d. r = Inr (Some d) \<longrightarrow> n < m \<and> d = task_of codec (log ! (m - 1))) \<and>
    (no_loss (Dequeue f block q) \<longrightarrow> m = (case r of Inr (Some d) \<Rightarrow> Suc n | _ \<Rightarrow> n))"
proof -
  obtain raw where
      run: "attempts_loop (if block then (\<lambda>_. False) else (\<lambda>e. e = DeadlineFailure)) None [fst f, snd f] (\<lambda>_. la_rpop api q) s = (s', raw)"
      and r: "r = (case raw of Inl e \<Rightarrow> Inl e | Inr v \<Rightarrow> Inr (deserialize_task codec v))"
    using assms(1) by (auto simp: dequeue_def with_reconnect_def with_queue_reconnect_def split: if_splits prod.splits sum.splits)
  have d: "r = Inr (Some d) \<longleftrightarrow> (\<exists>v. raw = Inr (Some v) \<and> d = task_of codec v)" for d
  proof (cases raw)
    case (Inr v)
    then show ?thesis using r by (cases v) (auto simp: deserialize_Some)
  qed (simp add: r)
  from attempts_pop [OF run assms(2,3)] obtain m where m: "n \<le> m" "m \<le> length log" "items s' q = rev (drop m log)"
      "\<forall>q'. q' \<noteq> q \<longrightarrow> items s' q' = items s q'" "\<forall>v. raw = Inr (Some v) \<longrightarrow> n < m \<and> v = log ! (m - 1)"
      "(\<forall>x \<in> set [fst f, snd f]. ft_lost x = []) \<longrightarrow> m = (case raw of Inr (Some v) \<Rightarrow> Suc n | _ \<Rightarrow> n)"
    by blast
  have "m = (case r of Inr (Some d) \<Rightarrow> Suc n | _ \<Rightarrow> n)" if "no_loss (Dequeue f block q)"
    using that m(6) r by (auto simp: deserialize_Some split: sum.splits option.splits)
  with m d show ?thesis by (intro exI [of _ m]) auto
qed

lemma lost_reply:
  assumes "items s q = rest @ [second, first]" "ft_lost (fst f) @ ft_lost (snd f) = [t]" "ft_end (fst f) = Answered \<and> ft_lost (snd f) = [] \<or>
    ft_end (fst f) = Failing \<and> ft_end (snd f) = Answered"
  shows "\<exists>s'. dequeue api codec f block q s = (s', Inr (Some (task_of codec second))) \<and> items s' q = rest"
proof -
  obtain s1 v1 where 1: "la_rpop api q s = (s1, v1)" by fastforce
  obtain s2 v2 where 2: "la_rpop api q s1 = (s2, v2)" by fastforce
  have "items s1 q = rest @ [second]" using rpop_rest [of q s q] 1 assms by (simp add: butlast_append)
  then have v: "v2 = Some second" "items s2 q = rest" using rpop_value [of q s1] rpop_rest [of q s1 q] 2 by simp_all
  consider "ft_lost (fst f) = [t]" "ft_lost (snd f) = []" | "ft_lost (fst f) = []" "ft_lost (snd f) = [t]"
    using assms(2) by (cases "ft_lost (fst f)") auto
  then show ?thesis
    using 1 2 v assms(3) by cases (auto simp: dequeue_def with_reconnect_def with_queue_reconnect_def one_attempt_cases deserialize_Some)
qed

lemma dequeue_other:
  assumes "dequeue api codec f block q' s = (s', r)" "q \<noteq> q'"
  shows "items s' q = items s q"
  using dequeue_items [OF assms(1), where n = 0 and log = "rev (items s q')"] assms(2) by auto

lemma run_items:
  assumes "queue_run api codec ops s = (s', xs)" "items s q = rev (drop n log)" "n \<le> length log"
  shows "\<exists>m. n \<le> m \<and> m \<le> length (log @ put_log codec q ops) \<and> items s' q = rev (drop m (log @ put_log codec q ops)) \<and>
    subseq (got q ops xs) (map (task_of codec) (slice n m (log @ put_log codec q ops))) \<and>
    (list_all no_loss ops \<longrightarrow> got q ops xs = map (task_of codec) (slice n m (log @ put_log codec q ops)))"
  using assms
proof (induction ops arbitrary: s xs n log)
  case Nil
  then show ?case by (intro exI [of _ n]) (simp add: put_log_def got_def slice_def)
next
  case (Cons op1 ops)
  obtain s1 x ys where step: "queue_step api codec op1 s = (s1, x)" and run: "queue_run api codec ops s1 = (s', ys)"
    and xs: "xs = x # ys" using Cons.prems(1) by (auto split: prod.splits)
  show ?case
  proof (cases op1)
    case (Enqueue f t q')
    let ?log = "log @ put_by codec q op1"
    have L: "log @ put_log codec q (op1 # ops) = ?log @ put_log codec q ops" by (simp add: put_log_def)
    have "items s1 q = rev (drop n ?log)" "n \<le> length ?log" "got q (op1 # ops) xs = got q ops ys"
      using Cons.prems(2,3) step Enqueue enqueue_items [of codec f t q' s q] xs by (auto simp: got_def split: prod.splits)
    with Cons.IH [OF run, of n ?log] show ?thesis unfolding L by auto
  next
    case (Dequeue f block q')
    then obtain r where deq: "dequeue api codec f block q' s = (s1, r)" and x: "x = Received r"
      using step by (auto split: prod.splits)
    have L: "put_log codec q (op1 # ops) = put_log codec q ops" using Dequeue by (simp add: put_log_def)
    show ?thesis
    proof (cases "q' = q")
      case False
      then have "items s1 q = rev (drop n log)" using dequeue_other [OF deq] Cons.prems(2) by simp
      moreover have "got q (op1 # ops) xs = got q ops ys"
        using False Dequeue xs x by (cases r; simp add: got_def split: option.splits; cases "projr r"; simp)
      ultimately show ?thesis using Cons.IH [OF run, of n log] Cons.prems(3) unfolding L by auto
    next
      case True
      from dequeue_items [OF deq] Cons.prems(2,3) True obtain k where
        k: "n \<le> k" "k \<le> length log" "items s1 q = rev (drop k log)"
          "\<forall>d. r = Inr (Some d) \<longrightarrow> n < k \<and> d = task_of codec (log ! (k - 1))"
          "no_loss op1 \<longrightarrow> k = (case r of Inr (Some d) \<Rightarrow> Suc n | _ \<Rightarrow> n)" using Dequeue by blast
      from Cons.IH [OF run k(3,2)] obtain m where
        m: "k \<le> m" "m \<le> length (log @ put_log codec q ops)" "items s' q = rev (drop m (log @ put_log codec q ops))"
          "subseq (got q ops ys) (map (task_of codec) (slice k m (log @ put_log codec q ops)))"
          "list_all no_loss ops \<longrightarrow> got q ops ys = map (task_of codec) (slice k m (log @ put_log codec q ops))" by blast
      have split: "slice n m (log @ put_log codec q ops) = slice n k log @ slice k m (log @ put_log codec q ops)"
        by (subst slice_split [OF k(1) m(1)]) (simp add: slice_append k(2))
      define hd1 where "hd1 = (case r of Inr (Some d) \<Rightarrow> [d] | _ \<Rightarrow> [])"
      have g: "got q (op1 # ops) xs = hd1 @ got q ops ys"
        using True Dequeue xs x unfolding hd1_def by (cases r; simp add: got_def split: option.splits)
      have one: "subseq hd1 (map (task_of codec) (slice n k log))"
      proof (cases "\<exists>d. r = Inr (Some d)")
        case True
        then obtain d where r: "r = Inr (Some d)" by blast
        with k(4) have "n < k" "hd1 = [task_of codec (log ! (k - 1))]" by (simp_all add: hd1_def)
        then show ?thesis using slice_last [OF _ k(2)] by metis
      qed (auto simp: hd1_def split: sum.splits option.splits)
      have all: "hd1 = map (task_of codec) (slice n k log)" if "no_loss op1"
      proof (cases "\<exists>d. r = Inr (Some d)")
        case True
        then obtain d where r: "r = Inr (Some d)" by blast
        with k(5) that have "k = Suc n" by simp
        with k(2,4) r show ?thesis by (simp add: hd1_def slice_one)
      next
        case False
        then have "k = n" "hd1 = []" using k(5) that by (auto simp: hd1_def split: sum.splits option.splits)
        then show ?thesis by (simp add: slice_none)
      qed
      have "subseq (got q (op1 # ops) xs) (map (task_of codec) (slice n m (log @ put_log codec q (op1 # ops))))"
        unfolding L g split map_append by (rule list_emb_append_mono [OF one m(4)])
      moreover have "list_all no_loss (op1 # ops) \<longrightarrow>
          got q (op1 # ops) xs = map (task_of codec) (slice n m (log @ put_log codec q (op1 # ops)))"
        unfolding L g split map_append using all m(5) by simp
      ultimately show ?thesis using k(1) m(1-3) unfolding L by (intro exI [of _ m]) simp
    qed
  qed
qed

end

section \<open>What the queues guarantee\<close>

text \<open>
  C9. A queue is a first-in first-out channel that invents nothing. After any sequence of enqueues and dequeues on any
  queues, each with any failures of its two attempts, started while the queue was empty: the queue holds, in order, a
  suffix of the copies that the enqueues pushed, one for each time that their command ran, and the tasks the consumers got,
  in the order they got them, are some of the earlier copies in the order they were pushed. When no command lost its
  reply, the consumers got exactly those earlier copies and none is missing.
\<close>

theorem queue_delivery:
  assumes "redis_lists api items" "items s q = []" "queue_run api codec ops s = (s', xs)"
  shows "\<exists>m \<le> length (put_log codec q ops). items s' q = rev (drop m (put_log codec q ops)) \<and>
    subseq (got q ops xs) (map (task_of codec) (take m (put_log codec q ops))) \<and>
    (list_all no_loss ops \<longrightarrow> got q ops xs = map (task_of codec) (take m (put_log codec q ops)))"
  using redis_lists.run_items [OF assms(1,3), where n = 0 and log = "[]" and q = q] assms(2) by (auto simp: slice_def)

text \<open>
  What an enqueue that may fail leaves behind: it adds a copy of the task at the head of its own queue for each time that
  the command ran, at most \<open>2 * n\<close> with a driver that sends a command at most \<open>n\<close> times, and touches no other queue; if
  it returns there is at least one. If no reply is lost it is exact, one copy when it returns and none when it raises.
\<close>

theorem enqueue_leaves_copies:
  assumes "redis_lists api items" "enqueue api codec f t q s = (s', r)" "sent_at_most n f"
  shows "\<exists>k \<le> 2 * n. items s' q = replicate k (serialize_task codec t) @ items s q \<and>
    (\<forall>q'. q' \<noteq> q \<longrightarrow> items s' q' = items s q') \<and> (r = Inr () \<longrightarrow> 1 \<le> k) \<and>
    (ft_lost (fst f) = [] \<and> ft_lost (snd f) = [] \<longrightarrow> k = (if r = Inr () then 1 else 0))"
proof (intro exI [of _ "copies f"] conjI copies_le [OF assms(3)])
  show "items s' q = replicate (copies f) (serialize_task codec t) @ items s q" "\<forall>q'. q' \<noteq> q \<longrightarrow> items s' q' = items s q'"
    using redis_lists.enqueue_items [OF assms(1), of codec f t q s] assms(2) by simp_all
  show "r = Inr () \<longrightarrow> 1 \<le> copies f" using enqueue_copies [of api codec f t q s] assms(2) by simp
  show "ft_lost (fst f) = [] \<and> ft_lost (snd f) = [] \<longrightarrow> copies f = (if r = Inr () then 1 else 0)"
    using answered_once [of f] enqueue_answers [of api codec f t q s] assms(2) by simp
qed

text \<open>
  A dequeue loses a task when one reply is lost, be it the driver or the module that sends the command again: the
  next task is taken, which is the one that is returned, and the task before it is gone from the queue without having been
  seen by anybody.
\<close>

theorem lost_reply_loses_task:
  assumes "redis_lists api items" "items s q = rest @ [second, first]" "ft_lost (fst f) @ ft_lost (snd f) = [t]"
    "ft_end (fst f) = Answered \<and> ft_lost (snd f) = [] \<or> ft_end (fst f) = Failing \<and> ft_end (snd f) = Answered"
  shows "\<exists>s'. dequeue api codec f block q s = (s', Inr (Some (task_of codec second))) \<and> items s' q = rest"
  by (rule redis_lists.lost_reply [OF assms])

section \<open>A run of two workers\<close>

definition plain_codec :: task_codec where
  "plain_codec = \<lparr>tc_dumps = (\<lambda>d. case d of [(k, PStr v)] \<Rightarrow> v | _ \<Rightarrow> ''?''), tc_loads = (\<lambda>x. Some (PDict [(''id'', PStr x)]))\<rparr>"

text \<open>Attempts of commands that take no heed of the time.\<close>

abbreviation Served :: fault where "Served \<equiv> Fault [] Answered 0"

abbreviation Refused :: fault where "Refused \<equiv> Fault [] Failing 0"

abbreviation ReplyLost :: fault where "ReplyLost \<equiv> Fault [0] Failing 0"

abbreviation DeadlineHit :: fault where "DeadlineHit \<equiv> Fault [] OutOfTime 0"

definition queue_demo_ops :: "queue_op list" where
  "queue_demo_ops =
     [Enqueue (Served, Served) (TaskDict [(''id'', PStr ''a'')]) ''q'',
      Enqueue (Refused, Served) (TaskDict [(''id'', PStr ''b'')]) ''q'',
      Dequeue (Refused, Served) True ''q'',
      Enqueue (Refused, DeadlineHit) (TaskDict [(''id'', PStr ''c'')]) ''q'',
      Dequeue (Served, Served) False ''q'']"

lemma queue_demo_run:
  "queue_run mem_lists plain_codec queue_demo_ops empty_redis =
     (fst (queue_run mem_lists plain_codec queue_demo_ops empty_redis),
      [Sent (Inr ()), Sent (Inr ()), Received (Inr (Some [(''id'', PStr ''a'')])), Sent (Inl DeadlineFailure),
       Received (Inr (Some [(''id'', PStr ''b'')]))])"
  by code_simp

theorem queue_delivery_witness:
  "got ''q'' queue_demo_ops
     [Sent (Inr ()), Sent (Inr ()), Received (Inr (Some [(''id'', PStr ''a'')])), Sent (Inl DeadlineFailure),
      Received (Inr (Some [(''id'', PStr ''b'')]))]
   = map (task_of plain_codec) (take 2 [''a'', ''b''])"
proof -
  have "put_log plain_codec ''q'' queue_demo_ops = [''a'', ''b'']" "list_all no_loss queue_demo_ops" by code_simp+
  moreover have "mem_list empty_redis ''q'' = []" by code_simp
  ultimately show ?thesis
    using queue_delivery [OF mem_queues.redis_lists_axioms, OF _ queue_demo_run, of "''q''"]
    by (auto simp: got_def queue_demo_ops_def take_Cons' split: if_splits)
qed

theorem enqueue_leaves_copies_witness:
  "\<exists>n \<le> 2. mem_list (fst (enqueue mem_lists plain_codec (ReplyLost, Served) (TaskDict [(''id'', PStr ''a'')]) ''q'' empty_redis)) ''q'' =
     replicate n ''a'' \<and> 1 \<le> n"
proof -
  obtain s' r where run: "enqueue mem_lists plain_codec (ReplyLost, Served) (TaskDict [(''id'', PStr ''a'')]) ''q'' empty_redis = (s', r)"
    by fastforce
  have "r = Inr ()" "sent_at_most 1 (ReplyLost, Served)" using arg_cong [OF run, of snd]
    by (simp_all add: enqueue_def with_reconnect_def sent_at_most_def executions_def)
  moreover have "mem_list empty_redis ''q'' = []" "serialize_task plain_codec (TaskDict [(''id'', PStr ''a'')]) = ''a''" by code_simp+
  ultimately show ?thesis using enqueue_leaves_copies [OF mem_queues.redis_lists_axioms, OF run, of 1] run by simp blast
qed

theorem lost_reply_loses_task_witness:
  "\<exists>s'. dequeue mem_lists plain_codec (ReplyLost, Served) True ''q'' (mem_lpush ''q'' ''b'' (mem_lpush ''q'' ''a'' empty_redis)) =
     (s', Inr (Some (task_of plain_codec ''b''))) \<and> mem_list s' ''q'' = []"
proof -
  have "mem_list (mem_lpush ''q'' ''b'' (mem_lpush ''q'' ''a'' empty_redis)) ''q'' = [] @ [''b'', ''a'']" by code_simp
  from lost_reply_loses_task [OF mem_queues.redis_lists_axioms, OF this, of "(ReplyLost, Served)" 0] show ?thesis by simp
qed

end
