(* ===== verification/Task_Events.thy ===== *)
theory Task_Events
  imports Task_Queue
begin

text \<open>
  Model of \<^verbatim>\<open>guardian/queue/task_events.py\<close>: the event stream of a task in Redis, publishing with a
  machine-readable result, the reads with their back-off, the payload of the completed event, and the paged scan that
  decides whether a task has reached a terminal event. Redis is a parameter: what it must promise of appending is the
  locale \<open>redis_streams\<close>, which the in-memory server of the queue module satisfies, and of reading ranges the
  predicate \<open>serves_ranges\<close>. Each command has the two attempts of \<^verbatim>\<open>_with_reconnect\<close>.
\<close>

section \<open>Events and their visibility\<close>

type_synonym stream_fields = "(string \<times> string) list"

record event_codec =
  ev_dumps :: "pydict \<Rightarrow> string option"
  ev_loads :: "string \<Rightarrow> pyval option"

record task_event =
  te_type :: string
  te_task_id :: string
  te_data :: pyval
  te_created_at :: "string option"

definition TERMINAL_EVENT_TYPES :: "string list" where
  "TERMINAL_EVENT_TYPES =
     [''task.completed'', ''task.failed'', ''task.cancelled'', ''executor.completed'', ''executor.failed'',
      ''executor.cancelled'', ''delegation.completed'', ''delegation.failed'', ''delegation.cancelled'']"

definition classify_event_visibility :: "string \<Rightarrow> string" where
  "classify_event_visibility event_type =
     (if strip event_type \<in> set TERMINAL_EVENT_TYPES then ''terminal'' else ''progress'')"

definition stream_key :: "string \<Rightarrow> string" where
  "stream_key task_id = ''codexify:task:'' @ task_id @ '':events''"

section \<open>Publishing\<close>

text \<open>What may go wrong: the data is not JSON, or the command fails.\<close>

datatype publish_failure = Unserializable | CommandFailed redis_failure

record ('s, 'i) streams_api =
  sa_xadd :: "string \<Rightarrow> stream_fields \<Rightarrow> 's \<Rightarrow> 's \<times> 'i"
  sa_xread :: "string \<Rightarrow> 'i \<Rightarrow> nat \<Rightarrow> 's \<Rightarrow> ('i \<times> stream_fields) list"

record ('s, 'i) ranges_api = "('s, 'i) streams_api" +
  sa_xrange :: "string \<Rightarrow> 'i \<Rightarrow> nat \<Rightarrow> 's \<Rightarrow> ('i \<times> stream_fields) list"

definition event_fields :: "string \<Rightarrow> string \<Rightarrow> string \<Rightarrow> pydt \<Rightarrow> stream_fields" where
  "event_fields task_id event_type data now =
     [(''type'', event_type), (''task_id'', task_id), (''data'', data), (''created_at'', isoformat now)]"

definition publish ::
    "('s, 'i, 'x) streams_api_scheme \<Rightarrow> event_codec \<Rightarrow> faults \<Rightarrow> pydt \<Rightarrow> string \<Rightarrow> string \<Rightarrow> pydict option \<Rightarrow> 's \<Rightarrow>
     's \<times> (publish_failure + 'i)" where
  "publish api codec f now task_id event_type data s =
     (case ev_dumps codec (case data of None \<Rightarrow> [] | Some d \<Rightarrow> d) of
        None \<Rightarrow> (s, Inl Unserializable)
      | Some text \<Rightarrow>
        (case with_reconnect f (\<lambda>_. sa_xadd api (stream_key task_id) (event_fields task_id event_type text now)) s of
           (s', Inl e) \<Rightarrow> (s', Inl (CommandFailed e))
         | (s', Inr eid) \<Rightarrow> (s', Inr eid)))"

text \<open>The class and the text of an exception are arguments.\<close>

record exceptions =
  ex_class :: "publish_failure \<Rightarrow> string"
  ex_text :: "publish_failure \<Rightarrow> string"

record 'i publish_result =
  pr_ok :: bool
  pr_task_id :: "string option"
  pr_event_type :: string
  pr_visibility_scope :: string
  pr_terminal_visibility :: bool
  pr_execution_continued :: bool
  pr_event_id :: "'i option"
  pr_error_code :: "string option"
  pr_failure_class :: "string option"
  pr_error :: "string option"
  pr_exception :: "publish_failure option"

definition publish_with_visibility ::
    "('s, 'i, 'x) streams_api_scheme \<Rightarrow> event_codec \<Rightarrow> exceptions \<Rightarrow> faults \<Rightarrow> pydt \<Rightarrow> string \<Rightarrow> string \<Rightarrow> pydict option \<Rightarrow> 's \<Rightarrow>
     's \<times> 'i publish_result" where
  "publish_with_visibility api codec ex f now task_id event_type data s =
     (let visibility_scope = classify_event_visibility event_type;
          result = \<lparr>pr_ok = False, pr_task_id = Some task_id, pr_event_type = event_type,
            pr_visibility_scope = visibility_scope, pr_terminal_visibility = (visibility_scope = ''terminal''),
            pr_execution_continued = True, pr_event_id = None, pr_error_code = None, pr_failure_class = None,
            pr_error = None, pr_exception = None\<rparr>
      in (case publish api codec f now task_id event_type data s of
            (s', Inl e) \<Rightarrow> (s', result\<lparr>pr_error_code := Some ''TASK_EVENT_PUBLISH_FAILED'',
              pr_failure_class := Some (ex_class ex e), pr_error := Some (ex_text ex e), pr_exception := Some e\<rparr>)
          | (s', Inr eid) \<Rightarrow> (s', result\<lparr>pr_ok := True, pr_event_id := Some eid\<rparr>)))"

section \<open>The typed publish error\<close>

record TaskEventPublishError =
  pe_task_id :: "string option"
  pe_event_type :: string
  pe_visibility_scope :: string
  pe_terminal_visibility :: bool
  pe_execution_continued :: bool
  pe_cause_class :: "string option"
  pe_failure_class :: string
  pe_error :: string
  pe_message :: string

definition nonempty_or :: "string \<Rightarrow> string \<Rightarrow> string" where
  "nonempty_or x y = (if x = [] then y else x)"

definition publish_error_init ::
    "string option \<Rightarrow> string \<Rightarrow> (string \<times> string) option \<Rightarrow> string \<Rightarrow> bool \<Rightarrow> string \<Rightarrow> string \<Rightarrow> TaskEventPublishError" where
  "publish_error_init task_id event_type cause visibility_scope execution_continued failure_class err =
     (let normalized_task_id = (case task_id of None \<Rightarrow> None | Some x \<Rightarrow> or_none (strip x));
          normalized_event_type = nonempty_or (strip event_type) ''task.event'';
          normalized_scope = nonempty_or (strip visibility_scope) (classify_event_visibility normalized_event_type);
          cause_class = map_option fst cause;
          fclass = nonempty_or (strip failure_class)
            (nonempty_or (case cause_class of None \<Rightarrow> [] | Some c \<Rightarrow> c) ''TaskEventPublishError'');
          err_text = nonempty_or (strip err) (case cause of None \<Rightarrow> [] | Some c \<Rightarrow> snd c);
          message = ''TASK_EVENT_PUBLISH_FAILED task_id='' @ (case normalized_task_id of None \<Rightarrow> ''unknown'' | Some x \<Rightarrow> x) @
            '' event_type='' @ normalized_event_type @ '' visibility_scope='' @ normalized_scope @ '' failure_class='' @ fclass
      in \<lparr>pe_task_id = normalized_task_id, pe_event_type = normalized_event_type, pe_visibility_scope = normalized_scope,
          pe_terminal_visibility = (normalized_scope = ''terminal''), pe_execution_continued = execution_continued,
          pe_cause_class = cause_class, pe_failure_class = fclass, pe_error = err_text,
          pe_message = (if err_text = [] then message else message @ '' error='' @ err_text)\<rparr>)"

definition to_publish_result :: "TaskEventPublishError \<Rightarrow> 'i publish_result" where
  "to_publish_result e =
     \<lparr>pr_ok = False, pr_task_id = pe_task_id e, pr_event_type = pe_event_type e, pr_visibility_scope = pe_visibility_scope e,
      pr_terminal_visibility = pe_terminal_visibility e, pr_execution_continued = pe_execution_continued e, pr_event_id = None,
      pr_error_code = Some ''TASK_EVENT_PUBLISH_FAILED'', pr_failure_class = Some (pe_failure_class e),
      pr_error = Some (pe_error e), pr_exception = None\<rparr>"

definition from_publish_result :: "exceptions \<Rightarrow> 'i publish_result \<Rightarrow> TaskEventPublishError" where
  "from_publish_result ex r =
     (let cause = map_option (\<lambda>e. (ex_class ex e, ex_text ex e)) (pr_exception r);
          event_type = nonempty_or (strip (pr_event_type r)) ''task.event'';
          visibility_scope = nonempty_or (strip (pr_visibility_scope r)) (classify_event_visibility event_type);
          task_id = (case pr_task_id r of None \<Rightarrow> None | Some x \<Rightarrow> or_none (strip x))
      in publish_error_init task_id event_type cause visibility_scope (pr_execution_continued r)
           (strip (case pr_failure_class r of None \<Rightarrow> [] | Some c \<Rightarrow> c)) (strip (case pr_error r of None \<Rightarrow> [] | Some x \<Rightarrow> x)))"

section \<open>Reading\<close>

definition field_or :: "stream_fields \<Rightarrow> string \<Rightarrow> string \<Rightarrow> string" where
  "field_or flds k d = nonempty_or (case map_of flds k of None \<Rightarrow> [] | Some v \<Rightarrow> v) d"

definition decode_event :: "event_codec \<Rightarrow> string \<Rightarrow> stream_fields \<Rightarrow> task_event" where
  "decode_event codec task_id flds =
     \<lparr>te_type = field_or flds ''type'' ''task.event'', te_task_id = field_or flds ''task_id'' task_id,
      te_data = (case ev_loads codec (case map_of flds ''data'' of None \<Rightarrow> ''{}'' | Some d \<Rightarrow> d) of
        None \<Rightarrow> PDict [] | Some v \<Rightarrow> v),
      te_created_at = map_of flds ''created_at''\<rparr>"

definition decode_read_result :: "event_codec \<Rightarrow> string \<Rightarrow> ('i \<times> stream_fields) list \<Rightarrow> ('i \<times> task_event) list" where
  "decode_read_result codec task_id entries = map (\<lambda>(eid, flds). (eid, decode_event codec task_id flds)) entries"

text \<open>
  The read loop never gives up: attempt \<open>i\<close> gives what \<open>reply i\<close> says, \<open>None\<close> for an exception; the result
  has the sleeps, in milliseconds.
\<close>

definition INITIAL_BACKOFF :: int where "INITIAL_BACKOFF = 500"

definition MAX_BACKOFF :: int where "MAX_BACKOFF = 2000"

definition next_backoff :: "int \<Rightarrow> int" where
  "next_backoff backoff = min (backoff * 2) MAX_BACKOFF"

partial_function (option) read_loop :: "(nat \<Rightarrow> 'r option) \<Rightarrow> nat \<Rightarrow> int \<Rightarrow> int list \<Rightarrow> (int list \<times> 'r) option" where
  [code]: "read_loop reply i backoff slept =
     (case reply i of
        Some r \<Rightarrow> Some (slept, r)
      | None \<Rightarrow> read_loop reply (Suc i) (next_backoff backoff) (slept @ [backoff]))"

definition read_events ::
    "('s, 'i, 'x) streams_api_scheme \<Rightarrow> event_codec \<Rightarrow> (nat \<Rightarrow> 's option) \<Rightarrow> string \<Rightarrow> 'i \<Rightarrow> nat \<Rightarrow>
     (int list \<times> ('i \<times> task_event) list) option" where
  "read_events api codec conn task_id last_id count =
     (case read_loop (\<lambda>i. map_option (sa_xread api (stream_key task_id) last_id count) (conn i)) 0 INITIAL_BACKOFF [] of
        None \<Rightarrow> None
      | Some (slept, entries) \<Rightarrow> Some (slept, decode_read_result codec task_id entries))"

datatype bounded_read_error = BadBlock | BadCount | ReadFailed

definition read_events_bounded ::
    "('s, 'i, 'x) streams_api_scheme \<Rightarrow> event_codec \<Rightarrow> 's option \<Rightarrow> string \<Rightarrow> 'i \<Rightarrow> pyval \<Rightarrow> pyval \<Rightarrow>
     bounded_read_error + ('i \<times> task_event) list" where
  "read_events_bounded api codec conn task_id last_id block_ms count =
     (case block_ms of
        PInt b \<Rightarrow>
          if \<not> (0 < b \<and> b \<le> 1000) then Inl BadBlock
          else (case count of
                  PInt n \<Rightarrow>
                    if \<not> (0 < n \<and> n \<le> 100) then Inl BadCount
                    else (case conn of
                            None \<Rightarrow> Inl ReadFailed
                          | Some s \<Rightarrow> Inr (decode_read_result codec task_id (sa_xread api (stream_key task_id) last_id (nat n) s)))
                | _ \<Rightarrow> Inl BadCount)
      | _ \<Rightarrow> Inl BadBlock)"

definition completed_payload :: "('i \<times> task_event) list \<Rightarrow> pydict option" where
  "completed_payload events =
     fold (\<lambda>(_, event) payload.
       if te_type event = ''task.completed'' then (case te_data event of PDict d \<Rightarrow> Some d | _ \<Rightarrow> payload) else payload) events None"

definition read_latest_completed_payload ::
    "('s, 'i, 'x) streams_api_scheme \<Rightarrow> event_codec \<Rightarrow> 'i \<Rightarrow> (nat \<Rightarrow> 's option) \<Rightarrow> string \<Rightarrow> pydict option option" where
  "read_latest_completed_payload api codec zero conn task_id =
     (case read_events api codec conn task_id zero 100 of
        None \<Rightarrow> None
      | Some (slept, events) \<Rightarrow> Some (completed_payload events))"

section \<open>The terminal state of a task\<close>

record 'i terminal_state =
  ts_task_id :: string
  ts_state :: string
  ts_event_id :: "'i option"
  ts_event :: "task_event option"
  ts_event_type :: "string option"
  ts_reason :: string

definition no_event_state :: "string \<Rightarrow> string \<Rightarrow> string \<Rightarrow> 'i terminal_state" where
  "no_event_state task_id state reason =
     \<lparr>ts_task_id = task_id, ts_state = state, ts_event_id = None, ts_event = None, ts_event_type = None, ts_reason = reason\<rparr>"

definition SCAN_BATCH_SIZE :: nat where "SCAN_BATCH_SIZE = 100"

definition is_terminal_event :: "task_event \<Rightarrow> bool" where
  "is_terminal_event e = (strip (te_type e) \<in> set TERMINAL_EVENT_TYPES)"

definition terminal_found :: "string \<Rightarrow> 'i \<times> task_event \<Rightarrow> 'i terminal_state" where
  "terminal_found task_id e =
     \<lparr>ts_task_id = task_id, ts_state = ''terminal'', ts_event_id = Some (fst e), ts_event = Some (snd e),
      ts_event_type = Some (strip (te_type (snd e))), ts_reason = ''terminal_event_found''\<rparr>"

text \<open>Page \<open>i\<close> is fetched from the server as it is then, \<open>conn i\<close>, with the failures \<open>flt i\<close>.\<close>

partial_function (option) scan_pages ::
    "('s, 'i, 'x) ranges_api_scheme \<Rightarrow> event_codec \<Rightarrow> (redis_failure \<Rightarrow> string) \<Rightarrow> (nat \<Rightarrow> 's) \<Rightarrow> (nat \<Rightarrow> faults) \<Rightarrow> string \<Rightarrow>
     nat \<Rightarrow> 'i \<Rightarrow> bool \<Rightarrow> 'i terminal_state option" where
  [code]: "scan_pages api codec show_error conn flt task_id i last_id saw_events =
     (case snd (with_reconnect (flt i) (\<lambda>_ s. (s, sa_xrange api (stream_key task_id) last_id SCAN_BATCH_SIZE s)) (conn i)) of
        Inl e \<Rightarrow> Some (no_event_state task_id ''unknown'' (show_error e))
      | Inr entries \<Rightarrow>
        (let events = decode_read_result codec task_id entries;
             answer = (if saw_events \<or> events \<noteq> [] then no_event_state task_id ''nonterminal'' ''terminal_event_not_found''
               else no_event_state task_id ''unknown'' ''task_events_missing'')
         in if events = [] then Some answer
            else (case find (\<lambda>e. is_terminal_event (snd e)) events of
                    Some e \<Rightarrow> Some (terminal_found task_id e)
                  | None \<Rightarrow> if length events < SCAN_BATCH_SIZE then Some answer
                            else scan_pages api codec show_error conn flt task_id (Suc i) (fst (last events)) True)))"

definition describe_terminal_state ::
    "('s, 'i, 'x) ranges_api_scheme \<Rightarrow> event_codec \<Rightarrow> (redis_failure \<Rightarrow> string) \<Rightarrow> 'i \<Rightarrow> (nat \<Rightarrow> 's) \<Rightarrow> (nat \<Rightarrow> faults) \<Rightarrow> string \<Rightarrow>
     'i terminal_state option" where
  "describe_terminal_state api codec show_error zero conn flt task_id =
     scan_pages api codec show_error conn flt task_id 0 zero False"

section \<open>Appending to a stream\<close>

locale redis_streams =
  fixes xadd :: "string \<Rightarrow> stream_fields \<Rightarrow> 's \<Rightarrow> 's \<times> 'i" and entries :: "'s \<Rightarrow> string \<Rightarrow> ('i \<times> stream_fields) list"
  assumes xadd_entries: "entries (fst (xadd key flds s)) key' =
      (if key' = key then entries s key @ [(snd (xadd key flds s), flds)] else entries s key')"
begin

text \<open>An append leaves a copy for each time it ran at the end of its stream, the last one with the identifier returned.\<close>

lemma xadd_reruns:
  "\<exists>ids. length ids = length ts \<and> entries (reruns ts (\<lambda>_. xadd key flds) s) key = entries s key @ map (\<lambda>i. (i, flds)) ids \<and>
    (\<forall>key'. key' \<noteq> key \<longrightarrow> entries (reruns ts (\<lambda>_. xadd key flds) s) key' = entries s key')"
proof (induction ts arbitrary: s)
  case (Cons t ts)
  obtain s1 i where 1: "xadd key flds s = (s1, i)" by fastforce
  from Cons.IH [of s1] obtain ids where "length ids = length ts"
      "entries (reruns ts (\<lambda>_. xadd key flds) s1) key = entries s1 key @ map (\<lambda>i. (i, flds)) ids"
      "\<forall>key'. key' \<noteq> key \<longrightarrow> entries (reruns ts (\<lambda>_. xadd key flds) s1) key' = entries s1 key'" by blast
  with 1 xadd_entries [of key flds s] show ?case by (intro exI [of _ "i # ids"]) simp
qed simp

lemma xadd_attempt:
  assumes "one_attempt f (\<lambda>_. xadd key flds) s = (s', r)"
  shows "\<exists>ids. length ids = executions f \<and> entries s' key = entries s key @ map (\<lambda>i. (i, flds)) ids \<and>
    (\<forall>key'. key' \<noteq> key \<longrightarrow> entries s' key' = entries s key') \<and> (\<forall>i. r = Inr i \<longrightarrow> ids \<noteq> [] \<and> last ids = i)"
proof -
  let ?s = "reruns (ft_lost f) (\<lambda>_. xadd key flds) s"
  from xadd_reruns [of "ft_lost f" key flds s] obtain ids where ids: "length ids = length (ft_lost f)"
      "entries ?s key = entries s key @ map (\<lambda>i. (i, flds)) ids" "\<forall>key'. key' \<noteq> key \<longrightarrow> entries ?s key' = entries s key'" by blast
  show ?thesis
  proof (cases "ft_end f = Answered")
    case True
    obtain s1 i where 1: "xadd key flds ?s = (s1, i)" by fastforce
    with True assms ids xadd_entries [of key flds ?s] show ?thesis
      by (intro exI [of _ "ids @ [i]"]) (auto simp: one_attempt_cases executions_def)
  next
    case False
    with assms ids show ?thesis by (intro exI [of _ ids]) (auto simp: one_attempt_cases executions_def)
  qed
qed

lemma xadd_attempts:
  assumes "with_reconnect f (\<lambda>_. xadd key flds) s = (s', r)"
  shows "\<exists>ids. length ids = copies f \<and> entries s' key = entries s key @ map (\<lambda>i. (i, flds)) ids \<and>
    (\<forall>key'. key' \<noteq> key \<longrightarrow> entries s' key' = entries s key') \<and> (\<forall>i. r = Inr i \<longrightarrow> ids \<noteq> [] \<and> last ids = i)"
proof (cases "ft_end (fst f) = Failing")
  case False
  then show ?thesis using xadd_attempt [of "fst f" key flds s] assms by (simp add: with_reconnect_cases copies_def)
next
  case True
  obtain s1 x where 1: "one_attempt (fst f) (\<lambda>_. xadd key flds) s = (s1, x)" by fastforce
  with True assms have 2: "one_attempt (snd f) (\<lambda>_. xadd key flds) s1 = (s', r)"
    by (auto simp: with_reconnect_cases one_attempt_cases split: if_splits)
  from xadd_attempt [OF 1] xadd_attempt [OF 2] obtain ids1 ids2 where
      "length ids1 = executions (fst f)" "entries s1 key = entries s key @ map (\<lambda>i. (i, flds)) ids1"
      "\<forall>key'. key' \<noteq> key \<longrightarrow> entries s1 key' = entries s key'"
      "length ids2 = executions (snd f)" "entries s' key = entries s1 key @ map (\<lambda>i. (i, flds)) ids2"
      "\<forall>key'. key' \<noteq> key \<longrightarrow> entries s' key' = entries s1 key'" "\<forall>i. r = Inr i \<longrightarrow> ids2 \<noteq> [] \<and> last ids2 = i" by metis
  with True show ?thesis by (intro exI [of _ "ids1 @ ids2"]) (auto simp: copies_def)
qed

end

text \<open>The in-memory server of the queue module appends so.\<close>

definition mem_streams :: "int \<Rightarrow> (InMemoryRedis, string) streams_api" where
  "mem_streams now =
     \<lparr>sa_xadd = mem_xadd now, sa_xread = mem_xread\<rparr>"

interpretation mem_appends: redis_streams "sa_xadd (mem_streams now)" mem_entries
  by unfold_locales (simp add: mem_streams_def mem_xadd_def mem_entries_def Let_def update_conv')

section \<open>Ranges of a stream\<close>

type_synonym stream_id = "nat \<times> nat"

definition id_less :: "stream_id \<Rightarrow> stream_id \<Rightarrow> bool" where
  "id_less a b = (fst a < fst b \<or> (fst a = fst b \<and> snd a < snd b))"

text \<open>What Redis documents of \<^verbatim>\<open>XRANGE key (id + COUNT n\<close>, and of the identifiers in a stream.\<close>

definition serves_ranges :: "('s, stream_id, 'x) ranges_api_scheme \<Rightarrow> ('s \<Rightarrow> string \<Rightarrow> (stream_id \<times> stream_fields) list) \<Rightarrow> bool" where
  "serves_ranges api entries =
     (\<forall>key last_id count s. sa_xrange api key last_id count s = take count (filter (\<lambda>e. id_less last_id (fst e)) (entries s key)))"

definition ordered_stream :: "(stream_id \<times> stream_fields) list \<Rightarrow> bool" where
  "ordered_stream es = (sorted_wrt id_less (map fst es) \<and> (\<forall>e \<in> set es. id_less (0, 0) (fst e)))"

lemma id_less_trans: "id_less a b \<Longrightarrow> id_less b c \<Longrightarrow> id_less a c"
  by (auto simp: id_less_def)

lemma id_less_irrefl [simp]: "\<not> id_less a a"
  by (simp add: id_less_def)

lemma id_less_asym: "id_less a b \<Longrightarrow> \<not> id_less b a"
  by (auto simp: id_less_def)

text \<open>What comes after the last event of a page is what is left of the stream.\<close>

lemma filter_after:
  assumes "ordered_stream es" "n < length es"
  shows "filter (\<lambda>e. id_less (fst (es ! n)) (fst e)) es = drop (Suc n) es"
proof -
  have split: "es = take (Suc n) es @ drop (Suc n) es" by simp
  have le: "i < j \<Longrightarrow> j < length es \<Longrightarrow> id_less (fst (es ! i)) (fst (es ! j))" for i j
    using assms(1) by (auto simp: ordered_stream_def sorted_wrt_iff_nth_less)
  have no: "\<not> id_less (fst (es ! n)) (fst (es ! i))" if "i \<le> n" for i
    using le [of i n] that assms(2) id_less_asym by (cases "i = n") auto
  have 1: "filter (\<lambda>e. id_less (fst (es ! n)) (fst e)) (take (Suc n) es) = []"
    using no by (fastforce simp: filter_empty_conv in_set_conv_nth less_Suc_eq_le)
  have 2: "filter (\<lambda>e. id_less (fst (es ! n)) (fst e)) (drop (Suc n) es) = drop (Suc n) es"
  proof (rule filter_True, rule ballI)
    fix e assume "e \<in> set (drop (Suc n) es)"
    then obtain j where j: "j < length (drop (Suc n) es)" "drop (Suc n) es ! j = e" unfolding in_set_conv_nth by blast
    then have "e = es ! (Suc n + j)" "Suc n + j < length es" by auto
    then show "id_less (fst (es ! n)) (fst e)" using le [of n "Suc n + j"] by simp
  qed
  show ?thesis using 1 2 by (subst (2) split) (simp only: filter_append, simp)
qed

lemma filter_all_after: "ordered_stream es \<Longrightarrow> filter (\<lambda>e. id_less (0, 0) (fst e)) es = es"
  by (simp add: ordered_stream_def)

text \<open>The page after the first \<open>n\<close> events.\<close>

definition id_before :: "nat \<Rightarrow> (stream_id \<times> stream_fields) list \<Rightarrow> stream_id" where
  "id_before n es = (if n = 0 then (0, 0) else fst (es ! (n - 1)))"

lemma page_after:
  assumes "ordered_stream es" "n \<le> length es"
  shows "filter (\<lambda>e. id_less (id_before n es) (fst e)) es = drop n es"
proof (cases n)
  case (Suc k)
  then show ?thesis using filter_after [OF assms(1), of k] assms(2) by (simp add: id_before_def)
qed (simp add: id_before_def filter_all_after assms(1))

section \<open>The scan\<close>

text \<open>
  The stream as the pages find it: append-only and, for as long as the scan runs, of bounded length. The events of a
  stream are read by \<open>decode_read_result\<close>.
\<close>

definition growing :: "(nat \<Rightarrow> (stream_id \<times> stream_fields) list) \<Rightarrow> bool" where
  "growing v = ((\<forall>i. ordered_stream (v i) \<and> (\<exists>zs. v (Suc i) = v i @ zs)) \<and> (\<exists>N. \<forall>i. length (v i) \<le> N))"

abbreviation terminal_at :: "event_codec \<Rightarrow> string \<Rightarrow> stream_id \<times> stream_fields \<Rightarrow> bool" where
  "terminal_at codec task_id e \<equiv> is_terminal_event (decode_event codec task_id (snd e))"

text \<open>What each answer of the scan means: the first terminal event, none, no event at all, or a page that failed.\<close>

definition scan_answer ::
    "event_codec \<Rightarrow> (redis_failure \<Rightarrow> string) \<Rightarrow> (nat \<Rightarrow> (stream_id \<times> stream_fields) list) \<Rightarrow> (nat \<Rightarrow> faults) \<Rightarrow> string \<Rightarrow>
     stream_id terminal_state \<Rightarrow> bool" where
  "scan_answer codec show_error v flt task_id r \<longleftrightarrow>
     (\<exists>i e. find (terminal_at codec task_id) (v i) = Some e \<and>
        r = terminal_found task_id (fst e, decode_event codec task_id (snd e))) \<or>
     (\<exists>i. v i \<noteq> [] \<and> (\<forall>e \<in> set (v i). \<not> terminal_at codec task_id e) \<and>
        r = no_event_state task_id ''nonterminal'' ''terminal_event_not_found'') \<or>
     (v 0 = [] \<and> r = no_event_state task_id ''unknown'' ''task_events_missing'') \<or>
     (\<exists>i x. \<not> answers (flt i) \<and> r = no_event_state task_id ''unknown'' (show_error x))"

lemma scan_answerI:
  "find (terminal_at codec task_id) (v i) = Some e \<Longrightarrow>
     scan_answer codec show_error v flt task_id (terminal_found task_id (fst e, decode_event codec task_id (snd e)))"
  "v i \<noteq> [] \<Longrightarrow> \<forall>e \<in> set (v i). \<not> terminal_at codec task_id e \<Longrightarrow>
     scan_answer codec show_error v flt task_id (no_event_state task_id ''nonterminal'' ''terminal_event_not_found'')"
  "v 0 = [] \<Longrightarrow> scan_answer codec show_error v flt task_id (no_event_state task_id ''unknown'' ''task_events_missing'')"
  "\<not> answers (flt i) \<Longrightarrow> scan_answer codec show_error v flt task_id (no_event_state task_id ''unknown'' (show_error x))"
  unfolding scan_answer_def by blast+

lemma find_skip: "(\<forall>e \<in> set xs. \<not> P e) \<Longrightarrow> find P (xs @ ys) = find P ys"
  by (induction xs) auto

lemma find_prefix: "find P xs = Some e \<Longrightarrow> find P (xs @ ys) = Some e"
  by (induction xs) (auto split: if_splits)

lemma find_decoded:
  "find (\<lambda>e. is_terminal_event (snd e)) (decode_read_result codec task_id es) =
     map_option (\<lambda>e. (fst e, decode_event codec task_id (snd e))) (find (terminal_at codec task_id) es)"
  by (induction es) (auto simp: decode_read_result_def)

lemma decode_read_empty [simp]: "decode_read_result codec task_id es = [] \<longleftrightarrow> es = []"
  by (simp add: decode_read_result_def)

lemma decode_read_length [simp]: "length (decode_read_result codec task_id es) = length es"
  by (simp add: decode_read_result_def)

lemma decode_read_last: "es \<noteq> [] \<Longrightarrow> fst (last (decode_read_result codec task_id es)) = fst (last es)"
  by (simp add: decode_read_result_def last_map split_beta)

lemma read_with_reconnect:
  "snd (with_reconnect f (\<lambda>_ s. (s, g s)) s) = Inr x \<Longrightarrow> x = g s"
  "snd (with_reconnect f (\<lambda>_ s. (s, g s)) s) = Inl e \<Longrightarrow> \<not> answers f"
proof -
  have same: "reruns ts (\<lambda>_ s. (s, g s)) s = s" for ts by (induction ts) simp_all
  show "snd (with_reconnect f (\<lambda>_ s. (s, g s)) s) = Inr x \<Longrightarrow> x = g s"
    by (auto simp: with_reconnect_cases one_attempt_cases same split: if_splits)
  show "snd (with_reconnect f (\<lambda>_ s. (s, g s)) s) = Inl e \<Longrightarrow> \<not> answers f"
    by (metis Inl_Inr_False with_reconnect_Inr)
qed

lemma id_before_append: "n \<le> length es \<Longrightarrow> id_before n (es @ zs) = id_before n es"
  by (cases n) (simp_all add: id_before_def nth_append)

text \<open>The last identifier of a full page is that of the event before the next page.\<close>

lemma id_before_page:
  assumes "n + k \<le> length es" "0 < k"
  shows "fst (last (take k (drop n es))) = id_before (n + k) es"
  using assms by (simp add: id_before_def last_conv_nth add.commute)

lemma scan_pages_answer:
  assumes "serves_ranges api entries" "growing v" "\<And>i. v i = entries (conn i) (stream_key task_id)" "\<And>i. length (v i) \<le> N"
    and "n \<le> length (v i)" "\<forall>e \<in> set (take n (v i)). \<not> terminal_at codec task_id e" "saw = (0 < n)" "i = 0 \<longrightarrow> n = 0" "0 < i \<longrightarrow> 0 < n"
  shows "\<exists>r. scan_pages api codec show_error conn flt task_id i (id_before n (v i)) saw = Some r \<and>
    scan_answer codec show_error v flt task_id r"
  using assms(5-)
proof (induction "N - n" arbitrary: n i saw rule: less_induct)
  case less
  let ?last = "id_before n (v i)"
  let ?page = "take SCAN_BATCH_SIZE (drop n (v i))"
  let ?reply = "snd (with_reconnect (flt i) (\<lambda>_ s. (s, sa_xrange api (stream_key task_id) ?last SCAN_BATCH_SIZE s)) (conn i))"
  have ord: "ordered_stream (v i)" using assms(2) by (simp add: growing_def)
  have page: "sa_xrange api (stream_key task_id) ?last SCAN_BATCH_SIZE (conn i) = ?page"
    using assms(1) page_after [OF ord less.prems(1)] by (cases ?last) (simp add: serves_ranges_def flip: assms(3))
  have v: "v i = take n (v i) @ drop n (v i)" by simp
  show ?case
  proof (cases ?reply)
    case (Inl x)
    then show ?thesis using read_with_reconnect(2) [OF Inl]
      by (subst scan_pages.simps) (simp add: scan_answerI(4))
  next
    case (Inr es)
    then have es: "es = ?page" using read_with_reconnect(1) [OF Inr] page by simp
    show ?thesis
    proof (cases "find (terminal_at codec task_id) es")
      case (Some e)
      then have "find (terminal_at codec task_id) (v i) = Some e"
        using less.prems(2) es by (subst v) (simp only: find_skip, metis append_take_drop_id find_prefix)
      moreover have "es \<noteq> []" using Some by auto
      ultimately show ?thesis using Inr Some
        by (subst scan_pages.simps) (simp add: find_decoded scan_answerI(1))
    next
      case None
      then have none: "\<forall>e \<in> set es. \<not> terminal_at codec task_id e" by (auto simp: find_None_iff)
      show ?thesis
      proof (cases "length es < SCAN_BATCH_SIZE")
        case True
        then have "es = drop n (v i)" using es by simp
        then have "\<forall>e \<in> set (v i). \<not> terminal_at codec task_id e" 
          using none less.prems(2) arg_cong [OF v, of set] unfolding set_append by blast
        moreover have "v i = [] \<Longrightarrow> v 0 = []" using less.prems by (cases "i = 0") auto
        moreover have "v i \<noteq> [] \<longleftrightarrow> saw \<or> es \<noteq> []" using less.prems(1,3) \<open>es = drop n (v i)\<close> by auto
        ultimately show ?thesis using Inr True None
          by (cases saw; cases "es = []"; subst scan_pages.simps) (simp_all add: find_decoded scan_answerI(2,3) Let_def)
      next
        case False
        then have full: "length es = SCAN_BATCH_SIZE" "n + SCAN_BATCH_SIZE \<le> length (v i)" "es \<noteq> []"
          using es by (auto simp: SCAN_BATCH_SIZE_def)
        obtain zs where zs: "v (Suc i) = v i @ zs" using assms(2) by (auto simp: growing_def)
        have last: "fst (last es) = id_before (n + SCAN_BATCH_SIZE) (v (Suc i))"
          using id_before_page [OF full(2)] full(2) es zs by (simp add: id_before_append SCAN_BATCH_SIZE_def)
        have "take (n + SCAN_BATCH_SIZE) (v (Suc i)) = take n (v i) @ es"
          using es zs full(2) by (simp add: take_add)
        then have "\<forall>e \<in> set (take (n + SCAN_BATCH_SIZE) (v (Suc i))). \<not> terminal_at codec task_id e"
          using less.prems(2) none by auto
        moreover have "n + SCAN_BATCH_SIZE \<le> length (v (Suc i))" using full(2) zs by simp
        moreover have "N - (n + SCAN_BATCH_SIZE) < N - n" using assms(4) [of i] full(2) by (simp add: SCAN_BATCH_SIZE_def)
        ultimately have "\<exists>r. scan_pages api codec show_error conn flt task_id (Suc i) (fst (last es)) True = Some r \<and>
            scan_answer codec show_error v flt task_id r"
          using less.hyps [of "n + SCAN_BATCH_SIZE" "Suc i" True] last by (simp add: SCAN_BATCH_SIZE_def)
        then show ?thesis using Inr None False full(3)
          by (subst scan_pages.simps) (simp add: find_decoded Let_def decode_read_last)
      qed
    qed
  qed
qed

lemma terminal_scan_answers:
  assumes "serves_ranges api entries" "growing (\<lambda>i. entries (conn i) (stream_key task_id))"
  shows "\<exists>r. describe_terminal_state api codec show_error (0, 0) conn flt task_id = Some r \<and>
    scan_answer codec show_error (\<lambda>i. entries (conn i) (stream_key task_id)) flt task_id r"
proof -
  obtain N where "\<And>i. length (entries (conn i) (stream_key task_id)) \<le> N" using assms(2) by (auto simp: growing_def)
  from scan_pages_answer [OF assms refl this, of 0 0 codec False show_error flt] show ?thesis
    by (simp add: describe_terminal_state_def id_before_def)
qed

text \<open>
  C16. The scan for a terminal event always answers, and its answer is true. On an append-only stream that stays bounded
  while it is read, read in pages of 100 with any failures: ``terminal'' comes with the first terminal event of the
  stream, ``nonterminal'' only if the stream had events and none of them was terminal, ``task_events_missing'' only if it
  was empty, and any other ``unknown'' only if a page was not answered.
\<close>

theorem terminal_scan_exact:
  assumes "serves_ranges api entries" "growing (\<lambda>i. entries (conn i) (stream_key task_id))"
  shows "\<exists>r. describe_terminal_state api codec show_error (0, 0) conn flt task_id = Some r \<and>
    scan_answer codec show_error (\<lambda>i. entries (conn i) (stream_key task_id)) flt task_id r"
  by (rule terminal_scan_answers [OF assms])

lemma classify_terminal: "classify_event_visibility t = ''terminal'' \<longleftrightarrow> strip t \<in> set TERMINAL_EVENT_TYPES"
  by (simp add: classify_event_visibility_def)

lemma publish_result_cases:
  assumes "publish_with_visibility api codec ex f now task_id event_type data s = (s', r)"
  shows "(\<exists>e. publish api codec f now task_id event_type data s = (s', Inl e) \<and> \<not> pr_ok r \<and> pr_event_id r = None \<and>
      pr_error_code r = Some ''TASK_EVENT_PUBLISH_FAILED'' \<and> pr_exception r = Some e) \<or>
    (\<exists>i. publish api codec f now task_id event_type data s = (s', Inr i) \<and> pr_ok r \<and> pr_event_id r = Some i \<and>
      pr_error_code r = None)"
    "pr_terminal_visibility r = (strip event_type \<in> set TERMINAL_EVENT_TYPES)"
  using assms by (auto simp: publish_with_visibility_def Let_def classify_terminal split: prod.splits sum.splits)

lemma publish_entries:
  assumes "redis_streams (sa_xadd api) entries" "publish api codec f now task_id event_type data s = (s', r)"
  shows "\<exists>body ids. length ids \<le> copies f \<and>
    entries s' (stream_key task_id) = entries s (stream_key task_id) @ map (\<lambda>i. (i, event_fields task_id event_type body now)) ids \<and>
    (\<forall>key. key \<noteq> stream_key task_id \<longrightarrow> entries s' key = entries s key) \<and> (\<forall>i. r = Inr i \<longrightarrow> ids \<noteq> [] \<and> last ids = i)"
proof (cases "ev_dumps codec (case data of None \<Rightarrow> [] | Some d \<Rightarrow> d)")
  case None
  with assms(2) show ?thesis by (intro exI [of _ "[]"]) (auto simp: publish_def)
next
  case (Some body)
  obtain x where run: "with_reconnect f (\<lambda>_. sa_xadd api (stream_key task_id) (event_fields task_id event_type body now)) s = (s', x)"
    and r: "\<And>i. r = Inr i \<Longrightarrow> x = Inr i" using assms(2) Some by (auto simp: publish_def split: prod.splits sum.splits)
  from redis_streams.xadd_attempts [OF assms(1) run] obtain ids where "length ids = copies f"
      "entries s' (stream_key task_id) = entries s (stream_key task_id) @ map (\<lambda>i. (i, event_fields task_id event_type body now)) ids"
      "\<forall>key. key \<noteq> stream_key task_id \<longrightarrow> entries s' key = entries s key" "\<forall>i. x = Inr i \<longrightarrow> ids \<noteq> [] \<and> last ids = i" by blast
  then show ?thesis using r by (intro exI [of _ body] exI [of _ ids]) simp
qed

text \<open>
  Publishing never raises and its result tells what happened: if it says ok, the event with the returned identifier
  is the last of the task's stream; if not, it carries the publish error code and no identifier. Either way it is
  appended at most as often as the command ran, nothing else in the stream changes, no other stream does, and the terminal flag is set exactly for
  the nine terminal types.
\<close>

theorem publish_result_true:
  assumes "redis_streams (sa_xadd api) entries"
    and "publish_with_visibility api codec ex f now task_id event_type data s = (s', r)"
  shows "\<exists>body ids. length ids \<le> copies f \<and>
    entries s' (stream_key task_id) = entries s (stream_key task_id) @ map (\<lambda>i. (i, event_fields task_id event_type body now)) ids \<and>
    (\<forall>key. key \<noteq> stream_key task_id \<longrightarrow> entries s' key = entries s key) \<and>
    pr_ok r = (pr_event_id r \<noteq> None) \<and> pr_ok r = (pr_error_code r = None) \<and>
    (pr_ok r \<longrightarrow> ids \<noteq> [] \<and> pr_event_id r = Some (last ids)) \<and>
    pr_terminal_visibility r = (strip event_type \<in> set TERMINAL_EVENT_TYPES)"
proof -
  obtain x where run: "publish api codec f now task_id event_type data s = (s', x)"
    and x: "\<And>i. x = Inr i \<longleftrightarrow> pr_event_id r = Some i" "pr_ok r = (pr_event_id r \<noteq> None)" "pr_ok r = (pr_error_code r = None)"
    using publish_result_cases(1) [OF assms(2)] by fastforce
  from publish_entries [OF assms(1) run] obtain body ids where "length ids \<le> copies f"
      "entries s' (stream_key task_id) = entries s (stream_key task_id) @ map (\<lambda>i. (i, event_fields task_id event_type body now)) ids"
      "\<forall>key. key \<noteq> stream_key task_id \<longrightarrow> entries s' key = entries s key" "\<forall>i. x = Inr i \<longrightarrow> ids \<noteq> [] \<and> last ids = i" by blast
  then show ?thesis using x publish_result_cases(2) [OF assms(2)] by (intro exI [of _ body] exI [of _ ids]) auto
qed

text \<open>
  C34. What is published is seen: once a terminal event has been published with an ok result, every scan of the stream from
  then on, whatever is appended in the meantime and between the pages, says ``terminal'' with an event of a terminal type,
  when the stream is ordered and bounded for as long as it is read and Redis answers every page in one of its attempts.
\<close>

theorem published_terminal_is_seen:
  assumes "redis_streams (sa_xadd api) entries" "serves_ranges api entries"
    and "publish_with_visibility api codec ex f now task_id event_type data s = (s', r)" "pr_ok r" "pr_terminal_visibility r"
    and "growing (\<lambda>i. entries (conn i) (stream_key task_id))" "entries (conn 0) (stream_key task_id) = entries s' (stream_key task_id) @ later"
    and "\<forall>i. answers (flt i)"
  shows "\<exists>x. describe_terminal_state api codec show_error (0, 0) conn flt task_id = Some x \<and> ts_state x = ''terminal'' \<and>
    (\<exists>t. ts_event_type x = Some t \<and> t \<in> set TERMINAL_EVENT_TYPES)"
proof -
  let ?v = "\<lambda>i. entries (conn i) (stream_key task_id)"
  obtain i where ok: "publish api codec f now task_id event_type data s = (s', Inr i)"
    using publish_result_cases(1) [OF assms(3)] assms(4) by blast
  from publish_entries [OF assms(1) ok] obtain body ids where ids: "ids \<noteq> []"
      "entries s' (stream_key task_id) = entries s (stream_key task_id) @ map (\<lambda>i. (i, event_fields task_id event_type body now)) ids" by blast
  define e where "e = (last ids, event_fields task_id event_type body now)"
  have t: "strip event_type \<in> set TERMINAL_EVENT_TYPES" using publish_result_cases(2) [OF assms(3)] assms(5) by simp
  then have "event_type \<noteq> []" by (auto simp: TERMINAL_EVENT_TYPES_def)
  then have isterm: "terminal_at codec task_id e"
    using t by (simp add: e_def is_terminal_event_def decode_event_def field_or_def nonempty_or_def event_fields_def)
  have mem: "e \<in> set (?v n)" for n
  proof (induction n)
    case 0
    then show ?case using ids assms(7) by (auto simp: e_def)
  next
    case (Suc n)
    obtain zs where "?v (Suc n) = ?v n @ zs" using assms(6) by (auto simp: growing_def)
    with Suc show ?case by simp
  qed
  obtain y where y: "describe_terminal_state api codec show_error (0, 0) conn flt task_id = Some y"
      "scan_answer codec show_error ?v flt task_id y" using terminal_scan_answers [OF assms(2,6)] by blast
  have "?v 0 \<noteq> []" using mem [of 0] by auto
  with y(2) mem isterm assms(8) obtain n x where x: "find (terminal_at codec task_id) (?v n) = Some x"
      "y = terminal_found task_id (fst x, decode_event codec task_id (snd x))"
    unfolding scan_answer_def by blast
  then have "terminal_at codec task_id x" by (auto simp: find_Some_iff)
  then show ?thesis using y(1) x(2) by (simp add: terminal_found_def is_terminal_event_def)
qed

section \<open>The read loop\<close>

lemma read_loop_run:
  assumes "\<forall>i < k. reply (n + i) = None" "reply (n + k) = Some r"
  shows "read_loop reply n b slept = Some (slept @ map (\<lambda>i. (next_backoff ^^ i) b) [0..<k], r)"
  using assms
proof (induction k arbitrary: n b slept)
  case 0
  then show ?case by (subst read_loop.simps) simp
next
  case (Suc k)
  have none: "reply n = None" using Suc.prems(1) by (metis add_0_right zero_less_Suc)
  have shift: "\<forall>i < k. reply (Suc n + i) = None" "reply (Suc n + k) = Some r" using Suc.prems by auto
  have list: "map (\<lambda>i. (next_backoff ^^ i) b) [0..<Suc k] =
      b # map (\<lambda>i. (next_backoff ^^ i) (next_backoff b)) [0..<k]"
    by (simp add: map_upt_Suc funpow_swap1 del: upt_Suc)
  show ?case unfolding list by (subst read_loop.simps) (simp add: none Suc.IH [OF shift])
qed

lemma backoff_power: "(next_backoff ^^ i) INITIAL_BACKOFF = min 2000 (500 * 2 ^ i)"
  by (induction i) (auto simp: next_backoff_def INITIAL_BACKOFF_def MAX_BACKOFF_def min_def)

lemma read_loop_answers: "read_loop reply i b slept = Some x \<Longrightarrow> \<exists>k. reply k \<noteq> None"
  by (rule read_loop.raw_induct [where P = "\<lambda>reply i b slept x. \<exists>k. reply k \<noteq> None"])
    (fastforce split: option.splits)

lemma read_loop_never: "\<forall>k. reply k = None \<Longrightarrow> read_loop reply i b slept = None"
  using read_loop_answers [of reply i b slept] by (metis option.exhaust)

text \<open>
  A read gives an answer exactly if some attempt reaches Redis, and then waits before each retry for half a second,
  one second, and two seconds from then on; a read that never reaches Redis never returns.
\<close>

theorem read_events_waits:
  "read_events api codec conn task_id last_id count =
     (if \<forall>i. conn i = None then None
      else let k = (LEAST i. conn i \<noteq> None) in
        Some (map (\<lambda>i. min 2000 (500 * 2 ^ i)) [0..<k],
          decode_read_result codec task_id (sa_xread api (stream_key task_id) last_id count (the (conn k)))))"
proof (cases "\<forall>i. conn i = None")
  case True
  then have "read_loop (\<lambda>i. map_option (sa_xread api (stream_key task_id) last_id count) (conn i)) 0 INITIAL_BACKOFF [] = None"
    by (simp add: read_loop_never)
  with True show ?thesis by (simp add: read_events_def)
next
  case False
  define k where "k = (LEAST i. conn i \<noteq> None)"
  have k: "conn k \<noteq> None" "\<forall>i < k. conn i = None"
    using False LeastI_ex [of "\<lambda>i. conn i \<noteq> None"] not_less_Least [of _ "\<lambda>i. conn i \<noteq> None"] unfolding k_def by blast+
  then obtain s where s: "conn k = Some s" by blast
  have least: "(LEAST i. \<exists>y. conn i = Some y) = k" by (simp add: k_def)
  show ?thesis
    using read_loop_run [of k "\<lambda>i. map_option (sa_xread api (stream_key task_id) last_id count) (conn i)" 0
        "sa_xread api (stream_key task_id) last_id count s" INITIAL_BACKOFF "[]"] k s False
    by (simp add: read_events_def backoff_power Let_def least)
qed

lemma completed_payload_none:
  "\<forall>e \<in> set es. te_type (snd e) \<noteq> ''task.completed'' \<Longrightarrow> fold (\<lambda>(_, event) payload.
     if te_type event = ''task.completed'' then (case te_data event of PDict d \<Rightarrow> Some d | _ \<Rightarrow> payload) else payload) es p = p"
  by (induction es arbitrary: p) auto

text \<open>
  The payload of the completed event is looked for among the first hundred events only: when none of these is a
  completion, the answer is that there is no payload, whatever the stream holds after them.
\<close>

theorem completion_after_first_page_missed:
  assumes "\<And>count. sa_xread api (stream_key task_id) zero count s = take count (entries s (stream_key task_id))" "conn 0 = Some s"
    and "\<forall>e \<in> set (take 100 (entries s (stream_key task_id))). te_type (decode_event codec task_id (snd e)) \<noteq> ''task.completed''"
  shows "read_latest_completed_payload api codec zero conn task_id = Some None"
proof -
  have "(LEAST i. conn i \<noteq> None) = 0" using assms(2) by (simp add: Least_eq_0)
  moreover have "completed_payload (decode_read_result codec task_id (take 100 (entries s (stream_key task_id)))) = None"
    using assms(3) unfolding completed_payload_def by (intro completed_payload_none) (auto simp: decode_read_result_def)
  ultimately show ?thesis
    using assms(1,2) by (auto simp: read_latest_completed_payload_def read_events_waits)
qed

section \<open>The error and its result\<close>

lemma nonempty_or_simps [simp]: "x \<noteq> [] \<Longrightarrow> nonempty_or x y = x" "nonempty_or [] y = y"
  by (simp_all add: nonempty_or_def)

lemma strip_visibility [simp]: "strip (classify_event_visibility t) = classify_event_visibility t" "classify_event_visibility t \<noteq> []"
  by (simp_all add: classify_event_visibility_def strip_def py_isspace_def)

text \<open>
  A failed publish survives being raised: the error built from its result gives that result back, up to the
  exception object, when the task id, the event type and the texts of the exception have no outer blanks and are not
  empty.
\<close>

theorem publish_error_roundtrip:
  assumes "publish_with_visibility api codec ex f now task_id event_type data s = (s', r)" "\<not> pr_ok r"
    and "\<forall>x \<in> {task_id, event_type}. strip x = x \<and> x \<noteq> []"
    and "\<forall>e. strip (ex_class ex e) = ex_class ex e \<and> ex_class ex e \<noteq> [] \<and> strip (ex_text ex e) = ex_text ex e"
  shows "to_publish_result (from_publish_result ex r) = r\<lparr>pr_exception := None\<rparr>"
proof -
  obtain e where r: "r = \<lparr>pr_ok = False, pr_task_id = Some task_id, pr_event_type = event_type,
      pr_visibility_scope = classify_event_visibility event_type,
      pr_terminal_visibility = (classify_event_visibility event_type = ''terminal''), pr_execution_continued = True, pr_event_id = None,
      pr_error_code = Some ''TASK_EVENT_PUBLISH_FAILED'', pr_failure_class = Some (ex_class ex e), pr_error = Some (ex_text ex e),
      pr_exception = Some e\<rparr>"
    using assms(1,2) by (auto simp: publish_with_visibility_def Let_def split: prod.splits sum.splits)
  have "(case or_none task_id of None \<Rightarrow> None | Some x \<Rightarrow> or_none (strip x)) = Some task_id"
    using assms(3) by (auto split: option.split)
  moreover have "nonempty_or (ex_text ex e) (ex_text ex e) = ex_text ex e" by (simp add: nonempty_or_def)
  ultimately show ?thesis using assms(3,4)
    unfolding r by (simp add: from_publish_result_def to_publish_result_def publish_error_init_def Let_def)
qed

section \<open>The results on a small server\<close>

type_synonym event_store = "(string \<times> (stream_id \<times> stream_fields) list) list"

definition stored_events :: "event_store \<Rightarrow> string \<Rightarrow> (stream_id \<times> stream_fields) list" where
  "stored_events s key = (case map_of s key of None \<Rightarrow> [] | Some es \<Rightarrow> es)"

definition event_store_api :: "(event_store, stream_id) ranges_api" where
  "event_store_api =
     \<lparr>sa_xadd = \<lambda>key flds s. (let i = (Suc (length (stored_events s key)), 0) in
        (AList.update key (stored_events s key @ [(i, flds)]) s, i)),
      sa_xread = \<lambda>key last_id count s. take count (filter (\<lambda>e. id_less last_id (fst e)) (stored_events s key)),
      sa_xrange = \<lambda>key last_id count s. take count (filter (\<lambda>e. id_less last_id (fst e)) (stored_events s key))\<rparr>"

definition plain_events :: event_codec where
  "plain_events = \<lparr>ev_dumps = \<lambda>_. Some ''{}'', ev_loads = \<lambda>_. Some (PDict [])\<rparr>"

definition plain_exceptions :: exceptions where
  "plain_exceptions = \<lparr>ex_class = \<lambda>_. ''ConnectionError'', ex_text = \<lambda>_. ''down''\<rparr>"

definition demo_event_now :: pydt where "demo_event_now = \<lparr>wall = 0, utcoff = Some 0\<rparr>"

interpretation event_store: redis_streams "sa_xadd event_store_api" stored_events
  by unfold_locales (simp add: event_store_api_def stored_events_def Let_def update_conv')

lemma event_store_ranges: "serves_ranges event_store_api stored_events"
  by (simp add: serves_ranges_def event_store_api_def)

definition demo_stream :: event_store where
  "demo_stream = [(stream_key ''t1'', [((1, 0), [(''type'', ''task.created'')]), ((2, 0), [(''type'', ''task.failed'')])])]"

theorem terminal_scan_exact_witness:
  "\<exists>r. describe_terminal_state event_store_api plain_events (\<lambda>_. ''down'') (0, 0) (\<lambda>_. demo_stream) (\<lambda>_. (Refused, Served)) ''t1'' = Some r \<and>
     scan_answer plain_events (\<lambda>_. ''down'') (\<lambda>_. stored_events demo_stream (stream_key ''t1'')) (\<lambda>_. (Refused, Served)) ''t1'' r"
proof -
  have "ordered_stream (stored_events demo_stream (stream_key ''t1''))" by code_simp
  then have "growing (\<lambda>_. stored_events demo_stream (stream_key ''t1''))" by (auto simp: growing_def)
  from terminal_scan_exact [OF event_store_ranges, where conn = "\<lambda>_. demo_stream", OF this] show ?thesis by blast
qed

theorem publish_result_true_witness:
  "pr_terminal_visibility (snd (publish_with_visibility (mem_streams 7) plain_events plain_exceptions (ReplyLost, Served) demo_event_now ''t1''
     '' task.failed '' None empty_redis))"
proof -
  obtain s' r where run: "publish_with_visibility (mem_streams 7) plain_events plain_exceptions (ReplyLost, Served) demo_event_now ''t1''
     '' task.failed '' None empty_redis = (s', r)" by fastforce
  have "strip '' task.failed '' \<in> set TERMINAL_EVENT_TYPES" by code_simp
  with publish_result_true [OF mem_appends.redis_streams_axioms run] run show ?thesis by auto
qed

theorem published_terminal_is_seen_witness:
  "\<exists>x. describe_terminal_state event_store_api plain_events (\<lambda>_. ''down'') (0, 0)
       (\<lambda>_. fst (sa_xadd event_store_api (stream_key ''t1'') [(''type'', ''task.token'')]
         (fst (publish_with_visibility event_store_api plain_events plain_exceptions (ReplyLost, Served) demo_event_now ''t1'' ''task.completed'' None []))))
       (\<lambda>_. (Refused, Served)) ''t1'' = Some x \<and> ts_state x = ''terminal''"
proof -
  obtain s' r where run: "publish_with_visibility event_store_api plain_events plain_exceptions (ReplyLost, Served) demo_event_now ''t1'' ''task.completed''
      None [] = (s', r)" by fastforce
  let ?later = "fst (sa_xadd event_store_api (stream_key ''t1'') [(''type'', ''task.token'')] s')"
  have "pr_ok (snd (publish_with_visibility event_store_api plain_events plain_exceptions (ReplyLost, Served) demo_event_now ''t1'' ''task.completed'' None []))"
    "pr_terminal_visibility (snd (publish_with_visibility event_store_api plain_events plain_exceptions (ReplyLost, Served) demo_event_now ''t1''
       ''task.completed'' None []))"
    "ordered_stream (stored_events (fst (sa_xadd event_store_api (stream_key ''t1'') [(''type'', ''task.token'')]
       (fst (publish_with_visibility event_store_api plain_events plain_exceptions (ReplyLost, Served) demo_event_now ''t1'' ''task.completed'' None []))))
       (stream_key ''t1''))"
    by (simp_all add: publish_with_visibility_def publish_def with_reconnect_cases event_store_api_def plain_events_def Let_def
        classify_terminal stored_events_def ordered_stream_def id_less_def) (code_simp)
  then have ok: "pr_ok r" "pr_terminal_visibility r" and "ordered_stream (stored_events ?later (stream_key ''t1''))"
    unfolding run by (simp_all only: fst_conv snd_conv)
  then have grow: "growing (\<lambda>i. stored_events ?later (stream_key ''t1''))" by (auto simp: growing_def)
  have later: "stored_events ?later (stream_key ''t1'') = stored_events s' (stream_key ''t1'') @
      [((Suc (length (stored_events s' (stream_key ''t1''))), 0), [(''type'', ''task.token'')])]"
    by (simp add: event_store_api_def stored_events_def Let_def update_conv')
  have "\<forall>i :: nat. answers (Refused, Served)" by (simp add: answers_def)
  from published_terminal_is_seen [OF event_store.redis_streams_axioms event_store_ranges run ok, where conn = "\<lambda>_. ?later", OF grow later this]
  show ?thesis unfolding run by fastforce
qed

definition long_stream :: event_store where
  "long_stream = [(stream_key ''t1'', replicate 100 ((1, 0), [(''type'', ''task.token'')]) @ [((2, 0), [(''type'', ''task.completed'')])])]"

theorem completion_after_first_page_missed_witness:
  "read_latest_completed_payload event_store_api plain_events (0, 0) (\<lambda>_. Some long_stream) ''t1'' = Some None \<and>
   ((2, 0), [(''type'', ''task.completed'')]) \<in> set (stored_events long_stream (stream_key ''t1''))"
proof
  have events: "stored_events long_stream (stream_key ''t1'') =
      replicate 100 ((1, 0), [(''type'', ''task.token'')]) @ [((2, 0), [(''type'', ''task.completed'')])]"
    by (simp add: stored_events_def long_stream_def)
  then show "((2, 0), [(''type'', ''task.completed'')]) \<in> set (stored_events long_stream (stream_key ''t1''))" by simp
  have token: "te_type (decode_event plain_events ''t1'' [(''type'', ''task.token'')]) \<noteq> ''task.completed''" by code_simp
  show "read_latest_completed_payload event_store_api plain_events (0, 0) (\<lambda>_. Some long_stream) ''t1'' = Some None"
    by (rule completion_after_first_page_missed [where entries = stored_events and s = long_stream])
      (use token in \<open>auto simp: events event_store_api_def id_less_def\<close>)
qed

theorem publish_error_roundtrip_witness:
  "\<exists>r. snd (publish_with_visibility event_store_api plain_events plain_exceptions (Refused, Refused) demo_event_now ''t1'' ''task.failed'' None []) = r \<and>
     to_publish_result (from_publish_result plain_exceptions r) = r\<lparr>pr_exception := None\<rparr>"
proof -
  obtain s' r where run: "publish_with_visibility event_store_api plain_events plain_exceptions (Refused, Refused) demo_event_now ''t1'' ''task.failed''
      None [] = (s', r)" by fastforce
  have "\<not> pr_ok (snd (publish_with_visibility event_store_api plain_events plain_exceptions (Refused, Refused) demo_event_now ''t1'' ''task.failed'' None []))"
    by (simp add: publish_with_visibility_def publish_def with_reconnect_def plain_events_def Let_def)
  then have fails: "\<not> pr_ok r" unfolding run by simp
  have texts: "\<forall>x \<in> {''t1'', ''task.failed''}. strip x = x \<and> x \<noteq> []" by code_simp
  have "strip ''ConnectionError'' = ''ConnectionError''" "strip ''down'' = ''down''" by code_simp+
  then have "\<forall>e. strip (ex_class plain_exceptions e) = ex_class plain_exceptions e \<and> ex_class plain_exceptions e \<noteq> [] \<and>
      strip (ex_text plain_exceptions e) = ex_text plain_exceptions e" by (simp add: plain_exceptions_def)
  from publish_error_roundtrip [OF run fails texts this] show ?thesis unfolding run by simp
qed

end
