(* ===== verification/Chat_Deadline.thy ===== *)
theory Chat_Deadline
  imports Turn_Lock
begin

text \<open>
  Model of \<^verbatim>\<open>guardian/tasks/chat_deadline.py\<close>: the deadline of an accepted chat task, fixed when the task is accepted
  and carried as three ISO texts with the task and with its durable attempt. Reading it back validates and never repairs.
  The parser \<^verbatim>\<open>datetime.fromisoformat\<close> is an argument, since what it accepts beyond the output of
  \<open>isoformat\<close> depends on the Python version; all that is needed of it is that it inverts \<open>isoformat\<close>.
\<close>

definition WORK_BUDGET_SECONDS :: int where "WORK_BUDGET_SECONDS = 720"

definition TERMINAL_BUDGET_SECONDS :: int where "TERMINAL_BUDGET_SECONDS = 60"

definition TOTAL_BUDGET_SECONDS :: int where "TOTAL_BUDGET_SECONDS = WORK_BUDGET_SECONDS + TERMINAL_BUDGET_SECONDS"

definition TURN_LOCK_SAFETY_MARGIN_SECONDS :: int where "TURN_LOCK_SAFETY_MARGIN_SECONDS = 60"

definition TURN_LOCK_LEASE_SECONDS :: int where
  "TURN_LOCK_LEASE_SECONDS = TOTAL_BUDGET_SECONDS + TURN_LOCK_SAFETY_MARGIN_SECONDS"

definition DEADLINE_FIELDS :: "string list" where
  "DEADLINE_FIELDS = [''accepted_at'', ''work_deadline_at'', ''terminal_deadline_at'']"

text \<open>Python's datetimes end with the year 9999.\<close>

definition dt_in_range :: "int \<Rightarrow> bool" where
  "dt_in_range us = (0 \<le> us \<and> us < 315537897600000000)"

definition to_utc :: "pydt \<Rightarrow> py_error + pydt" where
  "to_utc d =
     (if utcoff d = None then Inl (ValueError ''accepted chat deadline requires aware timestamps'')
      else if \<not> dt_in_range (instant d) then Inl OverflowError else Inr (astimezone_utc d))"

definition dt_add_seconds :: "pydt \<Rightarrow> int \<Rightarrow> py_error + pydt" where
  "dt_add_seconds d n =
     (if dt_in_range (wall d + 1000000 * n) then Inr (dt_add_us d (1000000 * n)) else Inl OverflowError)"

record AcceptedChatTaskDeadline =
  ad_accepted_at :: pydt
  ad_work_deadline_at :: pydt
  ad_terminal_deadline_at :: pydt

definition accepted_deadline_init :: "pydt \<Rightarrow> pydt \<Rightarrow> pydt \<Rightarrow> py_error + AcceptedChatTaskDeadline" where
  "accepted_deadline_init accepted work_at terminal_at =
     (case to_utc accepted of Inl e \<Rightarrow> Inl e | Inr a \<Rightarrow>
      (case to_utc work_at of Inl e \<Rightarrow> Inl e | Inr w \<Rightarrow>
      (case to_utc terminal_at of Inl e \<Rightarrow> Inl e | Inr t \<Rightarrow>
        if instant w - instant a \<noteq> 1000000 * WORK_BUDGET_SECONDS \<or> instant t - instant a \<noteq> 1000000 * TOTAL_BUDGET_SECONDS \<or>
           instant t - instant w \<noteq> 1000000 * TERMINAL_BUDGET_SECONDS
        then Inl (ValueError ''accepted chat deadline intervals are invalid'')
        else Inr \<lparr>ad_accepted_at = a, ad_work_deadline_at = w, ad_terminal_deadline_at = t\<rparr>)))"

definition deadline_to_dict :: "AcceptedChatTaskDeadline \<Rightarrow> pydict" where
  "deadline_to_dict d =
     [(''accepted_at'', PStr (isoformat (ad_accepted_at d))), (''work_deadline_at'', PStr (isoformat (ad_work_deadline_at d))),
      (''terminal_deadline_at'', PStr (isoformat (ad_terminal_deadline_at d)))]"

definition build_accepted_chat_task_deadline :: "pydt \<Rightarrow> py_error + AcceptedChatTaskDeadline" where
  "build_accepted_chat_task_deadline now =
     (case to_utc now of Inl e \<Rightarrow> Inl e | Inr accepted \<Rightarrow>
      (case dt_add_seconds accepted WORK_BUDGET_SECONDS of Inl e \<Rightarrow> Inl e | Inr w \<Rightarrow>
      (case dt_add_seconds accepted TOTAL_BUDGET_SECONDS of Inl e \<Rightarrow> Inl e | Inr t \<Rightarrow> accepted_deadline_init accepted w t)))"

type_synonym iso_parser = "string \<Rightarrow> pydt option"

text \<open>The three texts, or nothing when a value is no text or does not parse.\<close>

fun parse_texts :: "iso_parser \<Rightarrow> pyval list \<Rightarrow> pydt list option" where
  "parse_texts fromiso [] = Some []"
| "parse_texts fromiso (PStr x # vs) =
     (case fromiso x of None \<Rightarrow> None | Some d \<Rightarrow> map_option (Cons d) (parse_texts fromiso vs))"
| "parse_texts fromiso (v # vs) = None"

definition parse_accepted_chat_task_deadline :: "iso_parser \<Rightarrow> pydict \<Rightarrow> py_error + AcceptedChatTaskDeadline option" where
  "parse_accepted_chat_task_deadline fromiso payload =
     (let present = map (\<lambda>k. map_of payload k \<noteq> None) DEADLINE_FIELDS in
      if True \<notin> set present then Inr None
      else if False \<in> set present then Inl (ValueError ''accepted chat deadline snapshot is incomplete'')
      else (case parse_texts fromiso (map (dict_get payload) DEADLINE_FIELDS) of
              Some [a, w, t] \<Rightarrow>
                (case accepted_deadline_init a w t of
                   Inr d \<Rightarrow> Inr (Some d)
                 | Inl _ \<Rightarrow> Inl (ValueError ''accepted chat deadline snapshot is invalid''))
            | _ \<Rightarrow> Inl (ValueError ''accepted chat deadline snapshot is invalid'')))"

text \<open>A task has its three fields as attributes.\<close>

definition accepted_chat_deadline_for_task :: "iso_parser \<Rightarrow> pyval \<Rightarrow> pyval \<Rightarrow> pyval \<Rightarrow> py_error + AcceptedChatTaskDeadline option" where
  "accepted_chat_deadline_for_task fromiso accepted_at work_deadline_at terminal_deadline_at =
     (if accepted_at = PNone \<and> work_deadline_at = PNone \<and> terminal_deadline_at = PNone then Inr None
      else parse_accepted_chat_task_deadline fromiso
        [(''accepted_at'', accepted_at), (''work_deadline_at'', work_deadline_at), (''terminal_deadline_at'', terminal_deadline_at)])"

section \<open>Valid deadlines\<close>

lemmas budget_defs = WORK_BUDGET_SECONDS_def TERMINAL_BUDGET_SECONDS_def TOTAL_BUDGET_SECONDS_def
  TURN_LOCK_SAFETY_MARGIN_SECONDS_def TURN_LOCK_LEASE_SECONDS_def

definition valid_deadline :: "AcceptedChatTaskDeadline \<Rightarrow> bool" where
  "valid_deadline d \<longleftrightarrow>
     utcoff (ad_accepted_at d) = Some 0 \<and> utcoff (ad_work_deadline_at d) = Some 0 \<and> utcoff (ad_terminal_deadline_at d) = Some 0 \<and>
     dt_in_range (wall (ad_accepted_at d)) \<and> dt_in_range (wall (ad_terminal_deadline_at d)) \<and>
     wall (ad_work_deadline_at d) = wall (ad_accepted_at d) + 720000000 \<and>
     wall (ad_terminal_deadline_at d) = wall (ad_accepted_at d) + 780000000"

lemma to_utc_Inr: "to_utc d = Inr u \<longleftrightarrow> utcoff d \<noteq> None \<and> dt_in_range (instant d) \<and> u = \<lparr>wall = instant d, utcoff = Some 0\<rparr>"
  by (auto simp: to_utc_def astimezone_utc_def)

lemma to_utc_utc: "utcoff d = Some 0 \<Longrightarrow> dt_in_range (wall d) \<Longrightarrow> to_utc d = Inr d"
  by (cases d) (simp add: to_utc_def astimezone_utc_def instant_def)

lemma deadline_init_valid: "accepted_deadline_init a w t = Inr d \<Longrightarrow> valid_deadline d"
  by (auto simp: accepted_deadline_init_def valid_deadline_def to_utc_Inr budget_defs instant_def split: sum.splits if_splits)

lemma deadline_init_again:
  assumes "valid_deadline d"
  shows "accepted_deadline_init (ad_accepted_at d) (ad_work_deadline_at d) (ad_terminal_deadline_at d) = Inr d"
proof -
  have "dt_in_range (wall (ad_work_deadline_at d))" using assms by (auto simp: valid_deadline_def dt_in_range_def)
  then have "to_utc (ad_accepted_at d) = Inr (ad_accepted_at d)" "to_utc (ad_work_deadline_at d) = Inr (ad_work_deadline_at d)"
      "to_utc (ad_terminal_deadline_at d) = Inr (ad_terminal_deadline_at d)"
    using assms unfolding valid_deadline_def by (blast intro: to_utc_utc)+
  then show ?thesis using assms by (simp add: accepted_deadline_init_def valid_deadline_def budget_defs instant_def)
qed

lemma build_deadline_valid: "build_accepted_chat_task_deadline now = Inr d \<Longrightarrow> valid_deadline d"
  by (auto simp: build_accepted_chat_task_deadline_def deadline_init_valid split: sum.splits)

lemma parse_deadline_valid: "parse_accepted_chat_task_deadline fromiso payload = Inr (Some d) \<Longrightarrow> valid_deadline d"
  by (auto simp: parse_accepted_chat_task_deadline_def deadline_init_valid Let_def split: if_splits option.splits list.splits sum.splits)

lemma build_deadline_accepted:
  assumes "build_accepted_chat_task_deadline now = Inr d"
  shows "ad_accepted_at d = astimezone_utc now" "wall (ad_accepted_at d) = instant now" "wall (ad_terminal_deadline_at d) = instant now + 780000000"
  using assms build_deadline_valid [OF assms]
  by (auto simp: build_accepted_chat_task_deadline_def accepted_deadline_init_def to_utc_Inr astimezone_utc_def instant_def valid_deadline_def
      split: sum.splits if_splits)

definition inverts_isoformat :: "iso_parser \<Rightarrow> AcceptedChatTaskDeadline \<Rightarrow> bool" where
  "inverts_isoformat fromiso d =
     (\<forall>x \<in> {ad_accepted_at d, ad_work_deadline_at d, ad_terminal_deadline_at d}. fromiso (isoformat x) = Some x)"

lemma parse_to_dict:
  "valid_deadline d \<Longrightarrow> inverts_isoformat fromiso d \<Longrightarrow> parse_accepted_chat_task_deadline fromiso (deadline_to_dict d) = Inr (Some d)"
  by (simp add: parse_accepted_chat_task_deadline_def deadline_to_dict_def DEADLINE_FIELDS_def dict_get_def deadline_init_again inverts_isoformat_def)

section \<open>Properties\<close>

text \<open>
  C1. A deadline survives its task: the deadline that is fixed when a task is accepted allows exactly 720 seconds of work
  and 780 seconds in all from the instant of acceptance, in UTC, and what is read back from its dictionary is the same
  deadline, when the parser inverts \<open>isoformat\<close> on its three instants.
\<close>

theorem deadline_roundtrip:
  assumes "build_accepted_chat_task_deadline now = Inr d" "inverts_isoformat fromiso d"
  shows "parse_accepted_chat_task_deadline fromiso (deadline_to_dict d) = Inr (Some d) \<and>
    instant (ad_work_deadline_at d) = instant now + 720000000 \<and> instant (ad_terminal_deadline_at d) = instant now + 780000000"
  using parse_to_dict [OF build_deadline_valid [OF assms(1)] assms(2)] build_deadline_accepted [OF assms(1)] build_deadline_valid [OF assms(1)]
  by (simp add: valid_deadline_def instant_def)

lemma parse_deadline_None: "parse_accepted_chat_task_deadline fromiso payload = Inr None \<longleftrightarrow> (\<forall>k \<in> set DEADLINE_FIELDS. map_of payload k = None)"
  by (auto simp: parse_accepted_chat_task_deadline_def DEADLINE_FIELDS_def Let_def split: option.splits list.splits sum.splits)

lemma parse_texts_Some: "parse_texts fromiso vs = Some ds \<Longrightarrow> length ds = length vs \<and> (\<forall>v \<in> set vs. \<exists>x. v = PStr x)"
  by (induction fromiso vs arbitrary: ds rule: parse_texts.induct) (auto split: option.splits)

text \<open>
  Reading a snapshot never repairs it: there is no deadline exactly if all three keys are absent, and whatever is
  accepted had all three as texts and is a deadline with the two exact intervals; anything else raises.
\<close>

theorem parsed_deadline_valid:
  "case parse_accepted_chat_task_deadline fromiso payload of
     Inr None \<Rightarrow> \<forall>k \<in> set DEADLINE_FIELDS. map_of payload k = None
   | Inr (Some d) \<Rightarrow> valid_deadline d \<and> (\<forall>k \<in> set DEADLINE_FIELDS. \<exists>x. map_of payload k = Some (PStr x))
   | Inl e \<Rightarrow> \<exists>k \<in> set DEADLINE_FIELDS. map_of payload k \<noteq> None"
proof (cases "parse_accepted_chat_task_deadline fromiso payload")
  case (Inl e)
  then show ?thesis using parse_deadline_None [of fromiso payload] by auto
next
  case (Inr r)
  show ?thesis
  proof (cases r)
    case None
    with Inr show ?thesis using parse_deadline_None [of fromiso payload] by simp
  next
    case (Some d)
    then have run: "parse_accepted_chat_task_deadline fromiso payload = Inr (Some d)" using Inr by simp
    then have present: "\<forall>k \<in> set DEADLINE_FIELDS. map_of payload k \<noteq> None"
      and "\<exists>ds. parse_texts fromiso (map (dict_get payload) DEADLINE_FIELDS) = Some ds"
      by (auto simp: parse_accepted_chat_task_deadline_def DEADLINE_FIELDS_def Let_def split: if_splits option.splits)
    then obtain ds where "parse_texts fromiso (map (dict_get payload) DEADLINE_FIELDS) = Some ds" by blast
    from parse_texts_Some [OF this] present have "\<forall>k \<in> set DEADLINE_FIELDS. \<exists>x. map_of payload k = Some (PStr x)"
      by (fastforce simp: dict_get_def split: option.splits)
    then show ?thesis using parse_deadline_valid [OF run] Inr Some by simp
  qed
qed

section \<open>The first deadline there can be\<close>

definition epoch_deadline :: AcceptedChatTaskDeadline where
  "epoch_deadline = \<lparr>ad_accepted_at = \<lparr>wall = 0, utcoff = Some 0\<rparr>, ad_work_deadline_at = \<lparr>wall = 720000000, utcoff = Some 0\<rparr>,
     ad_terminal_deadline_at = \<lparr>wall = 780000000, utcoff = Some 0\<rparr>\<rparr>"

definition epoch_parser :: iso_parser where
  "epoch_parser = map_of
     [(''0001-01-01T00:00:00+00:00'', \<lparr>wall = 0, utcoff = Some 0\<rparr>), (''0001-01-01T00:12:00+00:00'', \<lparr>wall = 720000000, utcoff = Some 0\<rparr>),
      (''0001-01-01T00:13:00+00:00'', \<lparr>wall = 780000000, utcoff = Some 0\<rparr>)]"

lemma epoch_texts:
  "isoformat \<lparr>wall = 0, utcoff = Some 0\<rparr> = ''0001-01-01T00:00:00+00:00''"
  "isoformat \<lparr>wall = 720000000, utcoff = Some 0\<rparr> = ''0001-01-01T00:12:00+00:00''"
  "isoformat \<lparr>wall = 780000000, utcoff = Some 0\<rparr> = ''0001-01-01T00:13:00+00:00''"
  by (simp add: isoformat_def ord2ymd_def Let_def pad_nat_def days_before_month_def offset_text_def; code_simp)+

lemma epoch_built: "build_accepted_chat_task_deadline \<lparr>wall = - 3600000000, utcoff = Some (- 3600000000)\<rparr> = Inr epoch_deadline"
  by (simp add: build_accepted_chat_task_deadline_def to_utc_def astimezone_utc_def instant_def dt_in_range_def dt_add_seconds_def
      dt_add_us_def accepted_deadline_init_def budget_defs epoch_deadline_def)

lemma epoch_inverted: "inverts_isoformat epoch_parser epoch_deadline"
  by (simp add: inverts_isoformat_def epoch_deadline_def epoch_texts epoch_parser_def)

theorem deadline_roundtrip_witness:
  "parse_accepted_chat_task_deadline epoch_parser (deadline_to_dict epoch_deadline) = Inr (Some epoch_deadline)"
  using deadline_roundtrip [OF epoch_built epoch_inverted] by simp

theorem parsed_deadline_valid_witness:
  "parse_accepted_chat_task_deadline epoch_parser [(''accepted_at'', PNone)] \<noteq> Inr None"
  using parsed_deadline_valid [where fromiso = epoch_parser and payload = "[(''accepted_at'', PNone)]"] by (auto simp: DEADLINE_FIELDS_def)

end
