(* ===== verification/Chat_Attempts.thy ===== *)
theory Chat_Attempts
  imports Orm_Table Chat_Deadline
begin

text \<open>
  Model of the durable chat attempts: the rows \<^verbatim>\<open>ChatCompletionAttempt\<close> of \<^verbatim>\<open>guardian/db/models.py\<close> and the functions of
  \<^verbatim>\<open>guardian/core/db.py\<close> on them. An attempt binds a queued chat task to its thread, turn, deadline and turn lock; it is
  settled once, by the worker (an assistant message, a failure or a cancellation) or, after its deadline, by the
  controller (an orphan), and it can carry one decision for a tool call. Each function is one transaction on the locked
  row. The messages and threads of the database, which these functions only read, are arguments.
\<close>

section \<open>Rows\<close>

record ChatCompletionAttempt =
  at_request_id :: string
  at_backend_task_id :: string
  at_thread_id :: int
  at_turn_id :: string
  at_completed_message_id :: "int option"
  at_terminal_event_type :: "string option"
  at_terminal_outcome :: "(string \<times> string) list option"
  at_deadline_snapshot :: "pyval option"
  at_turn_lock_token :: "string option"
  at_created_at :: pydt
  at_accepted_at :: "pydt option"
  at_tool_turn_id :: "string option"
  at_tool_command_id :: "string option"
  at_tool_args_hash :: "string option"
  at_tool_checkpoint_at :: "pydt option"

type_synonym 'db attempts_api = "('db, ChatCompletionAttempt) orm"

datatype attempt_error = AttemptInvalid string | AttemptDb db_error | NoRow | ManyRows | CheckpointError string

text \<open>Whether a message is an assistant message of a thread, and who owns a thread.\<close>

type_synonym messages = "int \<Rightarrow> int \<Rightarrow> bool"

type_synonym owners = "int \<Rightarrow> string option"

definition one_or_none :: "'db attempts_api \<Rightarrow> 'db \<Rightarrow> (ChatCompletionAttempt \<Rightarrow> bool) \<Rightarrow> attempt_error + ChatCompletionAttempt option" where
  "one_or_none api db P = (case orm_select api db P of [] \<Rightarrow> Inr None | [r] \<Rightarrow> Inr (Some r) | _ \<Rightarrow> Inl ManyRows)"

definition commit_attempt :: "'db attempts_api \<Rightarrow> 'db \<Rightarrow> ChatCompletionAttempt \<Rightarrow> 'a \<Rightarrow> attempt_error + 'db \<times> 'a" where
  "commit_attempt api db row x = (case orm_commit api db row of Inl e \<Rightarrow> Inl (AttemptDb e) | Inr db' \<Rightarrow> Inr (db', x))"

text \<open>The identity that names one attempt.\<close>

record attempt_name =
  ai_request_id :: string
  ai_backend_task_id :: string
  ai_thread_id :: int
  ai_turn_id :: string

definition attempt_identity :: "ChatCompletionAttempt \<Rightarrow> attempt_name" where
  "attempt_identity r =
     \<lparr>ai_request_id = at_request_id r, ai_backend_task_id = at_backend_task_id r, ai_thread_id = at_thread_id r, ai_turn_id = at_turn_id r\<rparr>"

section \<open>Admission\<close>

definition create_chat_completion_attempt ::
    "'db attempts_api \<Rightarrow> pydt \<Rightarrow> attempt_name \<Rightarrow> AcceptedChatTaskDeadline option \<Rightarrow> string option \<Rightarrow> 'db \<Rightarrow>
     attempt_error + 'db \<times> unit" where
  "create_chat_completion_attempt api now who deadline token db =
     (if deadline \<noteq> None \<and> (token = None \<or> strip (the token) = [])
      then Inl (AttemptInvalid ''Recovery requires the existing turn lock token'')
      else if deadline = None \<and> token \<noteq> None
      then Inl (AttemptInvalid ''Turn lock token requires an original deadline snapshot'')
      else (case orm_add api db
              \<lparr>at_request_id = ai_request_id who, at_backend_task_id = ai_backend_task_id who, at_thread_id = ai_thread_id who,
               at_turn_id = ai_turn_id who, at_completed_message_id = None, at_terminal_event_type = None,
               at_terminal_outcome = None, at_deadline_snapshot = map_option (\<lambda>d. PDict (deadline_to_dict d)) deadline,
               at_turn_lock_token = token, at_created_at = now, at_accepted_at = None, at_tool_turn_id = None,
               at_tool_command_id = None, at_tool_args_hash = None, at_tool_checkpoint_at = None\<rparr> of
              Inl e \<Rightarrow> Inl (AttemptDb e)
            | Inr db' \<Rightarrow> Inr (db', ())))"

definition mark_chat_completion_attempt_accepted ::
    "'db attempts_api \<Rightarrow> pydt \<Rightarrow> string \<Rightarrow> 'db \<Rightarrow> attempt_error + 'db \<times> unit" where
  "mark_chat_completion_attempt_accepted api now backend_task_id db =
     (case one_or_none api db (\<lambda>r. at_backend_task_id r = backend_task_id) of
        Inl e \<Rightarrow> Inl e
      | Inr None \<Rightarrow> Inl NoRow
      | Inr (Some attempt) \<Rightarrow> commit_attempt api db (attempt\<lparr>at_accepted_at := Some now\<rparr>) ())"

section \<open>Outcomes recorded by the worker\<close>

definition record_chat_completion_attempt_success ::
    "'db attempts_api \<Rightarrow> messages \<Rightarrow> attempt_name \<Rightarrow> int \<Rightarrow> 'db \<Rightarrow> attempt_error + 'db \<times> bool" where
  "record_chat_completion_attempt_success api messages who assistant_message_id db =
     (case one_or_none api db (\<lambda>r. attempt_identity r = who) of
        Inl e \<Rightarrow> Inl e
      | Inr None \<Rightarrow> Inr (db, False)
      | Inr (Some attempt) \<Rightarrow>
        if at_terminal_event_type attempt \<noteq> None then Inr (db, False)
        else if \<not> messages assistant_message_id (ai_thread_id who)
        then Inl (AttemptInvalid ''Successful completion message is not an assistant in its thread'')
        else if at_completed_message_id attempt \<noteq> None \<and> at_completed_message_id attempt \<noteq> Some assistant_message_id
        then Inl (AttemptInvalid ''Completion attempt is already bound to another assistant'')
        else commit_attempt api db (attempt\<lparr>at_completed_message_id := Some assistant_message_id\<rparr>) True)"

definition record_chat_completion_attempt_terminal_event ::
    "'db attempts_api \<Rightarrow> attempt_name \<Rightarrow> string \<Rightarrow> 'db \<Rightarrow> attempt_error + 'db \<times> bool" where
  "record_chat_completion_attempt_terminal_event api who event_type db =
     (if event_type \<notin> {''task.failed'', ''task.cancelled''} then Inl (AttemptInvalid ''Unsupported chat attempt terminal event'')
      else (case one_or_none api db (\<lambda>r. attempt_identity r = who) of
              Inl e \<Rightarrow> Inl e
            | Inr None \<Rightarrow> Inr (db, False)
            | Inr (Some attempt) \<Rightarrow>
              if at_completed_message_id attempt \<noteq> None then Inr (db, False)
              else (case at_terminal_event_type attempt of
                      Some t \<Rightarrow> Inr (db, at_terminal_outcome attempt = None \<and> t = event_type)
                    | None \<Rightarrow> commit_attempt api db (attempt\<lparr>at_terminal_event_type := Some event_type\<rparr>) True)))"

section \<open>Observation and reconciliation by the controller\<close>

record ChatAttemptReconciliation =
  re_completed_message_id :: "int option"
  re_terminal_event_type :: "string option"
  re_terminal_outcome :: "(string \<times> string) list option"
  re_turn_lock_token :: "string option"

definition reconciliation_of :: "ChatCompletionAttempt \<Rightarrow> ChatAttemptReconciliation" where
  "reconciliation_of attempt =
     \<lparr>re_completed_message_id = at_completed_message_id attempt, re_terminal_event_type = at_terminal_event_type attempt,
      re_terminal_outcome = at_terminal_outcome attempt,
      re_turn_lock_token = (if at_completed_message_id attempt \<noteq> None \<or> at_terminal_event_type attempt \<noteq> None
        then at_turn_lock_token attempt else None)\<rparr>"

definition observe_chat_completion_attempt_terminal ::
    "'db attempts_api \<Rightarrow> messages \<Rightarrow> attempt_name \<Rightarrow> 'db \<Rightarrow> attempt_error + ChatAttemptReconciliation" where
  "observe_chat_completion_attempt_terminal api messages who db =
     (case one_or_none api db (\<lambda>r. attempt_identity r = who) of
        Inl e \<Rightarrow> Inl e
      | Inr None \<Rightarrow> Inl (AttemptInvalid ''Terminal observation does not match its durable attempt'')
      | Inr (Some attempt) \<Rightarrow>
        (case at_completed_message_id attempt of
           Some m \<Rightarrow>
             if \<not> messages m (ai_thread_id who) then Inl (AttemptInvalid ''Completion attempt points to no assistant in its thread'')
             else Inr (reconciliation_of attempt)
         | None \<Rightarrow>
             if at_terminal_event_type attempt \<notin> {None, Some ''task.failed'', Some ''task.cancelled''}
             then Inl (AttemptInvalid ''Terminal observation has no supported durable outcome'')
             else Inr (reconciliation_of attempt)))"

text \<open>The attempt after the deadline check; \<open>None\<close> for an attempt that stays as it is.\<close>

definition orphan_attempt :: "iso_parser \<Rightarrow> pydt \<Rightarrow> ChatCompletionAttempt \<Rightarrow> attempt_error + ChatCompletionAttempt option" where
  "orphan_attempt fromiso now attempt =
     (case at_deadline_snapshot attempt of
        None \<Rightarrow> Inr None
      | Some (PDict snapshot) \<Rightarrow>
        (case parse_accepted_chat_task_deadline fromiso snapshot of
           Inl e \<Rightarrow> Inl (AttemptInvalid ''accepted chat deadline snapshot is invalid'')
         | Inr None \<Rightarrow> Inl (AttemptInvalid ''Accepted chat recovery snapshot is incomplete'')
         | Inr (Some deadline) \<Rightarrow>
           if utcoff now = None then Inl (AttemptInvalid ''Reconciliation requires an aware server timestamp'')
           else if instant (ad_terminal_deadline_at deadline) \<le> instant now
           then Inr (Some (attempt\<lparr>at_terminal_event_type := Some ''task.failed'',
                  at_terminal_outcome := Some [(''failure_code'', ''CHAT_ACCEPTED_TASK_ORPHANED''),
                    (''reconciled_at'', isoformat (astimezone_utc now))]\<rparr>))
           else Inr None)
      | Some _ \<Rightarrow> Inl (AttemptInvalid ''Accepted chat recovery snapshot is invalid''))"

definition reconcile_chat_completion_attempt_after_deadline ::
    "'db attempts_api \<Rightarrow> iso_parser \<Rightarrow> messages \<Rightarrow> pydt \<Rightarrow> attempt_name \<Rightarrow> 'db \<Rightarrow>
     attempt_error + 'db \<times> ChatAttemptReconciliation" where
  "reconcile_chat_completion_attempt_after_deadline api fromiso messages now who db =
     (case one_or_none api db (\<lambda>r. at_backend_task_id r = ai_backend_task_id who) of
        Inl e \<Rightarrow> Inl e
      | Inr None \<Rightarrow> Inl (AttemptInvalid ''Reconciliation identity does not match its durable attempt'')
      | Inr (Some attempt) \<Rightarrow>
        if attempt_identity attempt \<noteq> who then Inl (AttemptInvalid ''Reconciliation identity does not match its durable attempt'')
        else (case at_completed_message_id attempt of
                Some m \<Rightarrow>
                  if \<not> messages m (ai_thread_id who) then Inl (AttemptInvalid ''Completion attempt points to no assistant in its thread'')
                  else Inr (db, reconciliation_of attempt)
              | None \<Rightarrow>
                  if at_terminal_event_type attempt = None \<and> at_accepted_at attempt \<noteq> None
                  then (case orphan_attempt fromiso now attempt of
                          Inl e \<Rightarrow> Inl e
                        | Inr None \<Rightarrow> Inr (db, reconciliation_of attempt)
                        | Inr (Some orphan) \<Rightarrow> commit_attempt api db orphan (reconciliation_of orphan))
                  else Inr (db, reconciliation_of attempt)))"

section \<open>Reading\<close>

record attempt_dict =
  ax_identity :: attempt_name
  ax_completed_message_id :: "int option"
  ax_terminal_event_type :: "string option"
  ax_terminal_outcome :: "(string \<times> string) list option"
  ax_deadline_snapshot :: "pyval option"
  ax_created_at :: pydt
  ax_accepted_at :: "pydt option"

definition attempt_to_dict :: "ChatCompletionAttempt \<Rightarrow> attempt_dict" where
  "attempt_to_dict r =
     \<lparr>ax_identity = attempt_identity r, ax_completed_message_id = at_completed_message_id r,
      ax_terminal_event_type = at_terminal_event_type r, ax_terminal_outcome = at_terminal_outcome r,
      ax_deadline_snapshot = at_deadline_snapshot r, ax_created_at = at_created_at r, ax_accepted_at = at_accepted_at r\<rparr>"

definition get_chat_completion_attempt_by_task_id :: "'db attempts_api \<Rightarrow> string \<Rightarrow> 'db \<Rightarrow> attempt_error + attempt_dict option" where
  "get_chat_completion_attempt_by_task_id api backend_task_id db =
     (case one_or_none api db (\<lambda>r. at_backend_task_id r = backend_task_id) of
        Inl e \<Rightarrow> Inl e | Inr r \<Rightarrow> Inr (map_option attempt_to_dict r))"

text \<open>Newest first, then by descending request id; a completed message that is gone is left out.\<close>

fun insert_attempt :: "ChatCompletionAttempt \<Rightarrow> ChatCompletionAttempt list \<Rightarrow> ChatCompletionAttempt list" where
  "insert_attempt r [] = [r]"
| "insert_attempt r (x # xs) =
     (if instant (at_created_at x) < instant (at_created_at r) \<or>
         (instant (at_created_at x) = instant (at_created_at r) \<and> at_request_id x < at_request_id r)
      then r # x # xs else x # insert_attempt r xs)"

definition list_chat_completion_attempts_for_thread ::
    "'db attempts_api \<Rightarrow> messages \<Rightarrow> int \<Rightarrow> nat \<Rightarrow> nat \<Rightarrow> 'db \<Rightarrow> attempt_dict list" where
  "list_chat_completion_attempts_for_thread api messages thread_id limit offset db =
     map (\<lambda>r. (attempt_to_dict r)\<lparr>ax_completed_message_id :=
         (case at_completed_message_id r of None \<Rightarrow> None | Some m \<Rightarrow> if messages m thread_id then Some m else None)\<rparr>)
       (take limit (drop offset (foldr insert_attempt (orm_select api db (\<lambda>r. at_thread_id r = thread_id)) [])))"

section \<open>The tool decision\<close>

record tool_checkpoint =
  tk_tool_turn_id :: string
  tk_command_id :: string
  tk_args_hash :: string
  tk_created_at :: pydt

definition valid_args_hash :: "string \<Rightarrow> bool" where
  "valid_args_hash h = (length h = 64 \<and> (\<forall>c \<in> set h. c \<in> set ''0123456789abcdef''))"

definition accepted_tool_attempt ::
    "'db attempts_api \<Rightarrow> owners \<Rightarrow> attempt_name \<Rightarrow> string \<Rightarrow> 'db \<Rightarrow> attempt_error + ChatCompletionAttempt" where
  "accepted_tool_attempt api owners who account_id db =
     (case one_or_none api db (\<lambda>r. at_request_id r = ai_request_id who) of
        Inl e \<Rightarrow> Inl e
      | Inr None \<Rightarrow> Inl (CheckpointError ''accepted_tool_attempt_unavailable'')
      | Inr (Some attempt) \<Rightarrow>
        if attempt_identity attempt \<noteq> who \<or> account_id = [] \<or> owners (ai_thread_id who) \<noteq> Some account_id
        then Inl (CheckpointError ''accepted_tool_attempt_unavailable'') else Inr attempt)"

definition checkpoint_from_attempt :: "ChatCompletionAttempt \<Rightarrow> attempt_error + tool_checkpoint option" where
  "checkpoint_from_attempt r =
     (case (at_tool_turn_id r, at_tool_command_id r, at_tool_args_hash r, at_tool_checkpoint_at r) of
        (None, None, None, None) \<Rightarrow> Inr None
      | (Some turn, Some command, Some args_hash, Some at) \<Rightarrow>
        if strip turn = [] \<or> strip command = [] \<or> \<not> valid_args_hash args_hash then Inl (CheckpointError ''invalid_tool_checkpoint'')
        else Inr (Some \<lparr>tk_tool_turn_id = turn, tk_command_id = command, tk_args_hash = args_hash, tk_created_at = at\<rparr>)
      | _ \<Rightarrow> Inl (CheckpointError ''invalid_tool_checkpoint''))"

definition get_chat_tool_checkpoint ::
    "'db attempts_api \<Rightarrow> owners \<Rightarrow> attempt_name \<Rightarrow> string \<Rightarrow> 'db \<Rightarrow> attempt_error + tool_checkpoint option" where
  "get_chat_tool_checkpoint api owners who account_id db =
     (case accepted_tool_attempt api owners who account_id db of
        Inl e \<Rightarrow> Inl e | Inr attempt \<Rightarrow> checkpoint_from_attempt attempt)"

definition freeze_chat_tool_decision ::
    "'db attempts_api \<Rightarrow> owners \<Rightarrow> string \<Rightarrow> pydt \<Rightarrow> attempt_name \<Rightarrow> string \<Rightarrow> string \<Rightarrow> string \<Rightarrow> 'db \<Rightarrow>
     attempt_error + 'db \<times> tool_checkpoint option" where
  "freeze_chat_tool_decision api owners new_turn now who account_id command_id args_hash db =
     (if command_id = [] \<or> \<not> valid_args_hash args_hash then Inl (CheckpointError ''invalid_tool_decision'')
      else (case accepted_tool_attempt api owners who account_id db of
              Inl e \<Rightarrow> Inl e
            | Inr attempt \<Rightarrow>
              (case checkpoint_from_attempt attempt of
                 Inl e \<Rightarrow> Inl e
               | Inr (Some c) \<Rightarrow>
                 if tk_command_id c \<noteq> command_id \<or> tk_args_hash c \<noteq> args_hash then Inl (CheckpointError ''tool_decision_conflict'')
                 else Inr (db, Some c)
               | Inr None \<Rightarrow>
                 (let frozen = attempt\<lparr>at_tool_turn_id := Some new_turn, at_tool_command_id := Some command_id,
                      at_tool_args_hash := Some args_hash, at_tool_checkpoint_at := Some now\<rparr> in
                  case checkpoint_from_attempt frozen of
                    Inl e \<Rightarrow> Inl e
                  | Inr c \<Rightarrow> commit_attempt api db frozen c))))"

section \<open>Runs\<close>

datatype attempt_op =
    Admit pydt attempt_name "AcceptedChatTaskDeadline option" "string option"
  | MarkAccepted pydt string
  | Succeed messages attempt_name int
  | Terminate attempt_name string
  | Reconcile messages pydt attempt_name
  | Freeze owners string pydt attempt_name string string string

definition after :: "'db \<Rightarrow> attempt_error + 'db \<times> 'a \<Rightarrow> 'db" where
  "after db r = (case r of Inl _ \<Rightarrow> db | Inr (db', _) \<Rightarrow> db')"

fun attempt_exec :: "'db attempts_api \<Rightarrow> iso_parser \<Rightarrow> attempt_op \<Rightarrow> 'db \<Rightarrow> 'db" where
  "attempt_exec api fromiso (Admit now who deadline token) db = after db (create_chat_completion_attempt api now who deadline token db)"
| "attempt_exec api fromiso (MarkAccepted now task) db = after db (mark_chat_completion_attempt_accepted api now task db)"
| "attempt_exec api fromiso (Succeed messages who m) db = after db (record_chat_completion_attempt_success api messages who m db)"
| "attempt_exec api fromiso (Terminate who t) db = after db (record_chat_completion_attempt_terminal_event api who t db)"
| "attempt_exec api fromiso (Reconcile messages now who) db =
     after db (reconcile_chat_completion_attempt_after_deadline api fromiso messages now who db)"
| "attempt_exec api fromiso (Freeze owners turn now who account command h) db =
     after db (freeze_chat_tool_decision api owners turn now who account command h db)"

definition attempt_run :: "'db attempts_api \<Rightarrow> iso_parser \<Rightarrow> attempt_op list \<Rightarrow> 'db \<Rightarrow> 'db" where
  "attempt_run api fromiso ops db = fold (attempt_exec api fromiso) ops db"

lemma after_simps [simp]: "after db (Inl e) = db" "after db (Inr (db', x)) = db'"
  by (simp_all add: after_def)

text \<open>How a row may change: its identity never does, and an outcome or a decision never once it is there.\<close>

definition settled :: "ChatCompletionAttempt \<Rightarrow> bool" where
  "settled r = (at_completed_message_id r \<noteq> None \<or> at_terminal_event_type r \<noteq> None)"

definition evolves :: "ChatCompletionAttempt \<Rightarrow> ChatCompletionAttempt \<Rightarrow> bool" where
  "evolves r r' \<longleftrightarrow>
     attempt_identity r' = attempt_identity r \<and> at_deadline_snapshot r' = at_deadline_snapshot r \<and>
     at_turn_lock_token r' = at_turn_lock_token r \<and> at_created_at r' = at_created_at r \<and>
     (at_accepted_at r \<noteq> None \<longrightarrow> at_accepted_at r' \<noteq> None) \<and>
     (settled r \<longrightarrow> at_completed_message_id r' = at_completed_message_id r \<and>
        at_terminal_event_type r' = at_terminal_event_type r \<and> at_terminal_outcome r' = at_terminal_outcome r) \<and>
     (\<forall>c. checkpoint_from_attempt r = Inr (Some c) \<longrightarrow> checkpoint_from_attempt r' = Inr (Some c))"

text \<open>What every row satisfies.\<close>

definition orphaned_after_deadline :: "iso_parser \<Rightarrow> ChatCompletionAttempt \<Rightarrow> (string \<times> string) list \<Rightarrow> bool" where
  "orphaned_after_deadline fromiso r outcome \<longleftrightarrow>
     at_completed_message_id r = None \<and> at_terminal_event_type r = Some ''task.failed'' \<and> at_accepted_at r \<noteq> None \<and>
     (\<exists>snapshot d at. at_deadline_snapshot r = Some (PDict snapshot) \<and>
        parse_accepted_chat_task_deadline fromiso snapshot = Inr (Some d) \<and> utcoff at = Some 0 \<and>
        instant (ad_terminal_deadline_at d) \<le> instant at \<and>
        outcome = [(''failure_code'', ''CHAT_ACCEPTED_TASK_ORPHANED''), (''reconciled_at'', isoformat at)])"

definition attempt_ok :: "iso_parser \<Rightarrow> ChatCompletionAttempt \<Rightarrow> bool" where
  "attempt_ok fromiso r \<longleftrightarrow>
     (at_completed_message_id r = None \<or> at_terminal_event_type r = None) \<and>
     at_terminal_event_type r \<in> {None, Some ''task.failed'', Some ''task.cancelled''} \<and>
     (case at_terminal_outcome r of None \<Rightarrow> True | Some outcome \<Rightarrow> orphaned_after_deadline fromiso r outcome) \<and>
     (at_deadline_snapshot r = None) = (at_turn_lock_token r = None) \<and>
     (case at_turn_lock_token r of None \<Rightarrow> True | Some token \<Rightarrow> strip token \<noteq> []) \<and>
     (\<exists>c. checkpoint_from_attempt r = Inr c)"

lemma evolves_refl [simp]: "evolves r r"
  by (simp add: evolves_def)

lemma evolves_within: "A \<subseteq> B \<Longrightarrow> \<forall>r \<in> A. \<exists>r' \<in> B. evolves r r'"
  by (meson evolves_refl subsetD)

lemma evolves_trans: "evolves a b \<Longrightarrow> evolves b c \<Longrightarrow> evolves a c"
  by (auto simp: evolves_def settled_def)

lemma evolves_key: "evolves r r' \<Longrightarrow> at_request_id r' = at_request_id r"
  by (simp add: evolves_def attempt_identity_def)

lemma checkpoint_irrelevant [simp]:
  "checkpoint_from_attempt (r\<lparr>at_accepted_at := a\<rparr>) = checkpoint_from_attempt r"
  "checkpoint_from_attempt (r\<lparr>at_completed_message_id := m\<rparr>) = checkpoint_from_attempt r"
  "checkpoint_from_attempt (r\<lparr>at_terminal_event_type := t\<rparr>) = checkpoint_from_attempt r"
  "checkpoint_from_attempt (r\<lparr>at_terminal_outcome := oc\<rparr>) = checkpoint_from_attempt r"
  by (simp_all add: checkpoint_from_attempt_def)

lemma orphaned_irrelevant [simp]:
  "orphaned_after_deadline fromiso (r\<lparr>at_tool_turn_id := a, at_tool_command_id := b, at_tool_args_hash := c, at_tool_checkpoint_at := d\<rparr>) =
     orphaned_after_deadline fromiso r"
  by (simp add: orphaned_after_deadline_def fun_eq_iff)

text \<open>Every commit of these functions is such a change, and keeps the row in order.\<close>

definition good_change :: "iso_parser \<Rightarrow> ChatCompletionAttempt \<Rightarrow> ChatCompletionAttempt \<Rightarrow> bool" where
  "good_change fromiso r r' \<longleftrightarrow> evolves r r' \<and> (attempt_ok fromiso r \<longrightarrow> attempt_ok fromiso r')"

lemma accepted_change: "good_change fromiso r (r\<lparr>at_accepted_at := Some now\<rparr>)"
  by (auto simp: good_change_def evolves_def attempt_identity_def settled_def attempt_ok_def orphaned_after_deadline_def split: option.splits)

lemma success_change:
  "at_terminal_event_type r = None \<Longrightarrow> at_completed_message_id r = None \<or> at_completed_message_id r = Some m \<Longrightarrow>
     good_change fromiso r (r\<lparr>at_completed_message_id := Some m\<rparr>)"
  by (auto simp: good_change_def evolves_def attempt_identity_def settled_def attempt_ok_def orphaned_after_deadline_def split: option.splits)

lemma terminal_change:
  "at_completed_message_id r = None \<Longrightarrow> at_terminal_event_type r = None \<Longrightarrow> t \<in> {''task.failed'', ''task.cancelled''} \<Longrightarrow>
     good_change fromiso r (r\<lparr>at_terminal_event_type := Some t\<rparr>)"
  by (auto simp: good_change_def evolves_def attempt_identity_def settled_def attempt_ok_def orphaned_after_deadline_def split: option.splits)

lemma orphan_attempt_Some:
  "orphan_attempt fromiso now r = Inr (Some r') \<longleftrightarrow>
     (\<exists>snapshot d. at_deadline_snapshot r = Some (PDict snapshot) \<and> parse_accepted_chat_task_deadline fromiso snapshot = Inr (Some d) \<and>
        utcoff now \<noteq> None \<and> instant (ad_terminal_deadline_at d) \<le> instant now \<and>
        r' = r\<lparr>at_terminal_event_type := Some ''task.failed'', at_terminal_outcome := Some [(''failure_code'', ''CHAT_ACCEPTED_TASK_ORPHANED''),
          (''reconciled_at'', isoformat (astimezone_utc now))]\<rparr>)"
  by (auto simp: orphan_attempt_def split: option.splits pyval.splits sum.splits if_splits)

lemma astimezone_instant: "utcoff (astimezone_utc d) = Some 0 \<and> instant (astimezone_utc d) = instant d"
  by (simp add: astimezone_utc_def instant_def)

lemma orphan_change:
  assumes "orphan_attempt fromiso now r = Inr (Some r')" "at_completed_message_id r = None" "at_terminal_event_type r = None"
    "at_accepted_at r \<noteq> None"
  shows "good_change fromiso r r'"
proof -
  obtain snapshot d where d: "at_deadline_snapshot r = Some (PDict snapshot)" "parse_accepted_chat_task_deadline fromiso snapshot = Inr (Some d)"
      "instant (ad_terminal_deadline_at d) \<le> instant now"
    and r': "r' = r\<lparr>at_terminal_event_type := Some ''task.failed'', at_terminal_outcome := Some [(''failure_code'', ''CHAT_ACCEPTED_TASK_ORPHANED''),
        (''reconciled_at'', isoformat (astimezone_utc now))]\<rparr>"
    using assms(1) unfolding orphan_attempt_Some by blast
  have "orphaned_after_deadline fromiso r' [(''failure_code'', ''CHAT_ACCEPTED_TASK_ORPHANED''), (''reconciled_at'', isoformat (astimezone_utc now))]"
    unfolding orphaned_after_deadline_def r' using assms d astimezone_instant [of now]
    by (simp del: astimezone_utc_def) (rule exI [of _ "astimezone_utc now"], simp)
  then show ?thesis using assms(2-) r'
    by (auto simp: good_change_def evolves_def attempt_identity_def settled_def attempt_ok_def)
qed

lemma freeze_change:
  assumes "checkpoint_from_attempt r = Inr None"
    and "checkpoint_from_attempt (r\<lparr>at_tool_turn_id := a, at_tool_command_id := b, at_tool_args_hash := c, at_tool_checkpoint_at := d\<rparr>) = Inr x"
  shows "good_change fromiso r (r\<lparr>at_tool_turn_id := a, at_tool_command_id := b, at_tool_args_hash := c, at_tool_checkpoint_at := d\<rparr>)"
  using assms by (auto simp: good_change_def evolves_def attempt_identity_def settled_def attempt_ok_def split: option.splits)

lemma admitted_ok:
  "(deadline \<noteq> None \<longrightarrow> token \<noteq> None \<and> strip (the token) \<noteq> []) \<Longrightarrow> (deadline = None \<longrightarrow> token = None) \<Longrightarrow>
   attempt_ok fromiso
     \<lparr>at_request_id = q, at_backend_task_id = b, at_thread_id = th, at_turn_id = u, at_completed_message_id = None,
      at_terminal_event_type = None, at_terminal_outcome = None, at_deadline_snapshot = map_option (\<lambda>d. PDict (deadline_to_dict d)) deadline,
      at_turn_lock_token = token, at_created_at = now, at_accepted_at = None, at_tool_turn_id = None, at_tool_command_id = None,
      at_tool_args_hash = None, at_tool_checkpoint_at = None\<rparr>"
  by (auto simp: attempt_ok_def checkpoint_from_attempt_def split: option.splits)

text \<open>What a function does to the table: nothing, one good change of a row, or one new row in order.\<close>

definition table_step :: "'db attempts_api \<Rightarrow> iso_parser \<Rightarrow> 'db \<Rightarrow> 'db \<Rightarrow> bool" where
  "table_step api fromiso db db' \<longleftrightarrow>
     db' = db \<or> (\<exists>r0 \<in> orm_rows api db. \<exists>r. good_change fromiso r0 r \<and> orm_commit api db r = Inr db') \<or>
     (\<exists>r. attempt_ok fromiso r \<and> orm_add api db r = Inr db')"

lemma table_step_same [simp]: "table_step api fromiso db db"
  by (simp add: table_step_def)

locale attempt_store = orm_table api at_request_id invar
  for api :: "'db attempts_api" and invar :: "'db \<Rightarrow> bool"
begin

lemma one_or_none_Some:
  assumes "invar db" "one_or_none api db P = Inr (Some r)"
  shows "r \<in> orm_rows api db" "P r"
  using assms(2) select_rows [OF assms(1), of P] by (auto simp: one_or_none_def split: list.splits)

lemma one_or_none_key:
  assumes "invar db" "r \<in> orm_rows api db" "P r" "\<And>r'. P r' \<Longrightarrow> at_request_id r' = at_request_id r"
  shows "one_or_none api db P = Inr (Some r)"
proof -
  have "\<forall>x. x \<in> orm_rows api db \<and> P x \<longrightarrow> x = r"
    using primary_key [OF assms(1) _ assms(2)] assms(4) by blast
  then have "{x \<in> orm_rows api db. P x} = {r}" using assms(2,3) by blast
  then have "set (orm_select api db P) = {r}" unfolding select_rows [OF assms(1)] .
  then have "length (orm_select api db P) = 1" using distinct_card [OF select_distinct [OF assms(1), of P]] by simp
  then obtain x where "orm_select api db P = [x]" by (auto simp: length_Suc_conv)
  with \<open>set (orm_select api db P) = {r}\<close> show ?thesis by (simp add: one_or_none_def)
qed

lemma commit_step:
  assumes "r0 \<in> orm_rows api db" "good_change fromiso r0 r"
  shows "table_step api fromiso db (after db (commit_attempt api db r x))"
  using assms by (cases "orm_commit api db r") (auto simp: commit_attempt_def after_def table_step_def)

lemma success_step:
  assumes "one_or_none api db P = Inr (Some r)" "invar db" "at_terminal_event_type r = None"
    "at_completed_message_id r = None \<or> at_completed_message_id r = Some m"
  shows "table_step api fromiso db (after db (commit_attempt api db (r\<lparr>at_completed_message_id := Some m\<rparr>) x))"
  by (rule commit_step [OF one_or_none_Some(1) [OF assms(2,1)] success_change [OF assms(3,4)]])

lemma terminal_step:
  assumes "one_or_none api db P = Inr (Some r)" "invar db" "at_completed_message_id r = None" "at_terminal_event_type r = None"
    "t \<in> {''task.failed'', ''task.cancelled''}"
  shows "table_step api fromiso db (after db (commit_attempt api db (r\<lparr>at_terminal_event_type := Some t\<rparr>) x))"
  by (rule commit_step [OF one_or_none_Some(1) [OF assms(2,1)] terminal_change [OF assms(3-5)]])

lemma reconcile_step:
  assumes "invar db"
  shows "table_step api fromiso db (after db (reconcile_chat_completion_attempt_after_deadline api fromiso messages now who db))"
proof (cases "one_or_none api db (\<lambda>r. at_backend_task_id r = ai_backend_task_id who)")
  case (Inr x)
  show ?thesis
  proof (cases x)
    case (Some r)
    then have r: "r \<in> orm_rows api db" using one_or_none_Some [OF assms] Inr by blast
    show ?thesis
    proof (cases "\<exists>r'. orphan_attempt fromiso now r = Inr (Some r') \<and> attempt_identity r = who \<and> at_completed_message_id r = None \<and>
        at_terminal_event_type r = None \<and> at_accepted_at r \<noteq> None")
      case True
      then obtain r' where r': "orphan_attempt fromiso now r = Inr (Some r')" "attempt_identity r = who" "at_completed_message_id r = None"
          "at_terminal_event_type r = None" "at_accepted_at r \<noteq> None" by blast
      then have "reconcile_chat_completion_attempt_after_deadline api fromiso messages now who db = commit_attempt api db r' (reconciliation_of r')"
        using Inr Some by (simp add: reconcile_chat_completion_attempt_after_deadline_def)
      then show ?thesis using commit_step [OF r orphan_change [OF r'(1,3-5)]] by simp
    next
      case False
      then have "after db (reconcile_chat_completion_attempt_after_deadline api fromiso messages now who db) = db"
        using Inr Some by (auto simp: reconcile_chat_completion_attempt_after_deadline_def after_def split: option.splits sum.splits)
      then show ?thesis by simp
    qed
  qed (simp add: reconcile_chat_completion_attempt_after_deadline_def after_def Inr)
qed (simp add: reconcile_chat_completion_attempt_after_deadline_def after_def)

lemma freeze_step:
  assumes "invar db"
  shows "table_step api fromiso db (after db (freeze_chat_tool_decision api owners turn now who account command h db))"
proof (cases "accepted_tool_attempt api owners who account db")
  case (Inr r)
  then have r: "r \<in> orm_rows api db"
    using one_or_none_Some [OF assms] by (auto simp: accepted_tool_attempt_def split: sum.splits option.splits if_splits)
  let ?f = "r\<lparr>at_tool_turn_id := Some turn, at_tool_command_id := Some command, at_tool_args_hash := Some h, at_tool_checkpoint_at := Some now\<rparr>"
  show ?thesis
  proof (cases "checkpoint_from_attempt r = Inr None \<and> (\<exists>c. checkpoint_from_attempt ?f = Inr c) \<and> command \<noteq> [] \<and> valid_args_hash h")
    case True
    then obtain c where c: "checkpoint_from_attempt ?f = Inr c" by blast
    then show ?thesis using commit_step [OF r freeze_change [OF _ c]] True Inr by (simp add: freeze_chat_tool_decision_def)
  next
    case False
    then have "after db (freeze_chat_tool_decision api owners turn now who account command h db) = db"
      using Inr by (auto simp: freeze_chat_tool_decision_def after_def Let_def split: sum.splits option.splits)
    then show ?thesis by simp
  qed
qed (simp add: freeze_chat_tool_decision_def after_def)

lemma exec_step:
  assumes "invar db"
  shows "table_step api fromiso db (attempt_exec api fromiso op1 db)"
proof (cases op1)
  case (Admit now who deadline token)
  then show ?thesis
    using admitted_ok [of deadline token fromiso "ai_request_id who" "ai_backend_task_id who" "ai_thread_id who" "ai_turn_id who" now]
    by (auto simp: create_chat_completion_attempt_def after_def table_step_def split: sum.splits)
next
  case (MarkAccepted now task)
  then show ?thesis using commit_step [OF one_or_none_Some(1) [OF assms] accepted_change]
    by (auto simp: mark_chat_completion_attempt_accepted_def split: sum.splits option.splits)
next
  case (Succeed messages who m)
  then show ?thesis
    by (auto intro!: success_step [OF _ assms] simp: record_chat_completion_attempt_success_def split: sum.splits option.splits)
next
  case (Terminate who t)
  then show ?thesis
    by (auto intro!: terminal_step [OF _ assms] simp: record_chat_completion_attempt_terminal_event_def split: sum.splits option.splits)
qed (simp_all add: reconcile_step [OF assms] freeze_step [OF assms])

lemma table_step_rows:
  assumes "invar db" "table_step api fromiso db db'"
  shows "invar db'" "\<forall>r \<in> orm_rows api db. \<exists>r' \<in> orm_rows api db'. evolves r r'"
    "(\<forall>r \<in> orm_rows api db. attempt_ok fromiso r) \<Longrightarrow> \<forall>r \<in> orm_rows api db'. attempt_ok fromiso r"
proof -
  consider "db' = db" | r0 r where "r0 \<in> orm_rows api db" "good_change fromiso r0 r" "orm_commit api db r = Inr db'" |
    r where "attempt_ok fromiso r" "orm_add api db r = Inr db'" using assms(2) unfolding table_step_def by blast
  then have "invar db' \<and> (\<forall>r \<in> orm_rows api db. \<exists>r' \<in> orm_rows api db'. evolves r r') \<and>
      ((\<forall>r \<in> orm_rows api db. attempt_ok fromiso r) \<longrightarrow> (\<forall>r \<in> orm_rows api db'. attempt_ok fromiso r))"
  proof cases
    case 1
    then show ?thesis using assms(1) evolves_within [of "orm_rows api db" "orm_rows api db"] by blast
  next
    case 2
    note g = 2(2) [unfolded good_change_def]
    have k: "at_request_id r0 = at_request_id r" using g evolves_key by metis
    have rows: "orm_rows api db' = insert r (orm_rows api db - {r0})" by (rule commit_rows [OF assms(1) 2(1) k 2(3)])
    have "\<exists>r' \<in> orm_rows api db'. evolves x r'" if "x \<in> orm_rows api db" for x
      using that g unfolding rows by (cases "x = r0") (auto intro: evolves_refl)
    then show ?thesis using rows commit_invar [OF assms(1) 2(1) k 2(3)] g 2(1) by auto
  next
    case 3
    have rows: "orm_rows api db' = insert r (orm_rows api db)" by (rule add_rows [OF assms(1) 3(2)])
    then show ?thesis using add_invar [OF assms(1) 3(2)] 3(1) evolves_within [of "orm_rows api db" "orm_rows api db'"] by auto
  qed
  then show "invar db'" "\<forall>r \<in> orm_rows api db. \<exists>r' \<in> orm_rows api db'. evolves r r'"
    "(\<forall>r \<in> orm_rows api db. attempt_ok fromiso r) \<Longrightarrow> \<forall>r \<in> orm_rows api db'. attempt_ok fromiso r" by blast+
qed

lemma run_rows:
  assumes "invar db"
  shows "invar (attempt_run api fromiso ops db) \<and>
    (\<forall>r \<in> orm_rows api db. \<exists>r' \<in> orm_rows api (attempt_run api fromiso ops db). evolves r r') \<and>
    ((\<forall>r \<in> orm_rows api db. attempt_ok fromiso r) \<longrightarrow> (\<forall>r \<in> orm_rows api (attempt_run api fromiso ops db). attempt_ok fromiso r))"
  using assms
proof (induction ops arbitrary: db)
  case Nil
  then show ?case using evolves_within [of "orm_rows api db" "orm_rows api db"] by (simp add: attempt_run_def)
next
  case (Cons op1 ops)
  note step = table_step_rows [OF Cons.prems exec_step [OF Cons.prems, of fromiso op1]]
  note IH = Cons.IH [OF step(1)]
  have run: "attempt_run api fromiso (op1 # ops) db = attempt_run api fromiso ops (attempt_exec api fromiso op1 db)"
    by (simp add: attempt_run_def)
  have "\<exists>r' \<in> orm_rows api (attempt_run api fromiso (op1 # ops) db). evolves r r'" if r: "r \<in> orm_rows api db" for r
  proof -
    obtain r1 where r1: "r1 \<in> orm_rows api (attempt_exec api fromiso op1 db)" "evolves r r1" using step(2) r by blast
    then obtain r2 where "r2 \<in> orm_rows api (attempt_run api fromiso (op1 # ops) db)" "evolves r1 r2" using IH run by auto
    then show ?thesis using evolves_trans [OF r1(2)] by blast
  qed
  then show ?case using IH step(3) unfolding run by blast
qed

lemma run_settled:
  assumes "invar db" "r \<in> orm_rows api db"
  obtains r' where "r' \<in> orm_rows api (attempt_run api fromiso ops db)" "evolves r r'" "invar (attempt_run api fromiso ops db)"
  using run_rows [OF assms(1), of fromiso ops] assms(2) that by blast

lemma find_by_identity:
  assumes "invar db" "r \<in> orm_rows api db" "attempt_identity r = who"
  shows "one_or_none api db (\<lambda>r. attempt_identity r = who) = Inr (Some r)"
    "one_or_none api db (\<lambda>r. at_request_id r = ai_request_id who) = Inr (Some r)"
  using assms by (auto intro!: one_or_none_key simp: attempt_identity_def)

lemma find_by_task:
  assumes "invar db" "r \<in> orm_rows api db" "\<forall>x \<in> orm_rows api db. at_backend_task_id x = at_backend_task_id r \<longrightarrow> x = r"
    "task = at_backend_task_id r"
  shows "one_or_none api db (\<lambda>r. at_backend_task_id r = task) = Inr (Some r)"
proof -
  have "{x \<in> orm_rows api db. at_backend_task_id x = task} = {r}" using assms(2-4) by blast
  then have "set (orm_select api db (\<lambda>r. at_backend_task_id r = task)) = {r}" unfolding select_rows [OF assms(1)] .
  moreover from this have "length (orm_select api db (\<lambda>r. at_backend_task_id r = task)) = 1"
    using distinct_card [OF select_distinct [OF assms(1), of "\<lambda>r. at_backend_task_id r = task"]] by simp
  then obtain x where "orm_select api db (\<lambda>r. at_backend_task_id r = task) = [x]" by (auto simp: length_Suc_conv)
  ultimately show ?thesis by (simp add: one_or_none_def)
qed

text \<open>A decision that was frozen is read back whatever happens in between.\<close>

lemma frozen_row:
  assumes "invar db" "freeze_chat_tool_decision api owners turn now who account command h db = Inr (db1, Some c)"
  shows "invar db1 \<and> (\<exists>r \<in> orm_rows api db1. attempt_identity r = who \<and> checkpoint_from_attempt r = Inr (Some c)) \<and>
    tk_command_id c = command \<and> tk_args_hash c = h \<and> valid_args_hash h \<and> command \<noteq> [] \<and> account \<noteq> []"
proof -
  obtain r where acc: "accepted_tool_attempt api owners who account db = Inr r"
    using assms(2) by (auto simp: freeze_chat_tool_decision_def split: if_splits sum.splits)
  then have one: "one_or_none api db (\<lambda>r. at_request_id r = ai_request_id who) = Inr (Some r)" and id: "attempt_identity r = who" "account \<noteq> []"
    by (auto simp: accepted_tool_attempt_def split: sum.splits option.splits if_splits)
  have r: "r \<in> orm_rows api db" using one_or_none_Some [OF assms(1) one] by blast
  have good: "valid_args_hash h" "command \<noteq> []" using assms(2) by (auto simp: freeze_chat_tool_decision_def split: if_splits)
  show ?thesis
  proof (cases "checkpoint_from_attempt r")
    case (Inr x)
    show ?thesis
    proof (cases x)
      case (Some c0)
      then have "db1 = db" "c0 = c" "tk_command_id c = command" "tk_args_hash c = h"
        using assms(2) acc Inr good by (auto simp: freeze_chat_tool_decision_def split: if_splits)
      then show ?thesis using assms(1) r id good Inr Some by auto
    next
      case None
      let ?f = "r\<lparr>at_tool_turn_id := Some turn, at_tool_command_id := Some command, at_tool_args_hash := Some h, at_tool_checkpoint_at := Some now\<rparr>"
      have cp: "checkpoint_from_attempt ?f = Inr (Some c)" and com: "orm_commit api db ?f = Inr db1"
        using assms(2) acc Inr None good
        by (auto simp: freeze_chat_tool_decision_def Let_def commit_attempt_def split: sum.splits)
      have "orm_rows api db1 = insert ?f (orm_rows api db - {r})" "invar db1"
        using commit_rows [OF assms(1) r _ com] commit_invar [OF assms(1) r _ com] by simp_all
      moreover have "tk_command_id c = command" "tk_args_hash c = h"
        using cp by (auto simp: checkpoint_from_attempt_def split: if_splits)
      moreover have "attempt_identity ?f = who" using id by (simp add: attempt_identity_def)
      ultimately show ?thesis using cp id good by blast
    qed
  next
    case (Inl e)
    then show ?thesis using assms(2) acc good by (simp add: freeze_chat_tool_decision_def)
  qed
qed

end

section \<open>The table\<close>

text \<open>
  The unique task id and the check constraints of the model class, less the one that compares the two timestamps of an
  orphan in the database.
\<close>

definition attempt_checks :: "ChatCompletionAttempt \<Rightarrow> string option" where
  "attempt_checks r =
     (if at_terminal_event_type r \<notin> {None, Some ''task.failed'', Some ''task.cancelled''}
      then Some ''ck_chat_completion_attempts_terminal_event''
      else if at_terminal_outcome r \<noteq> None \<and>
          (map_of (the (at_terminal_outcome r)) ''failure_code'' \<noteq> Some ''CHAT_ACCEPTED_TASK_ORPHANED'' \<or>
           at_terminal_event_type r \<noteq> Some ''task.failed'' \<or> at_completed_message_id r \<noteq> None \<or> at_accepted_at r = None \<or>
           at_deadline_snapshot r = None)
      then Some ''ck_chat_attempt_orphan_outcome''
      else if (at_deadline_snapshot r = None) \<noteq> (at_turn_lock_token r = None) \<or>
          (case at_turn_lock_token r of None \<Rightarrow> False | Some token \<Rightarrow> list_all (\<lambda>c. c = CHR '' '') token)
      then Some ''ck_chat_attempt_recovery_snapshot_pair''
      else if \<not> ((at_tool_turn_id r = None \<and> at_tool_command_id r = None \<and> at_tool_args_hash r = None \<and> at_tool_checkpoint_at r = None) \<or>
          (at_tool_turn_id r \<noteq> None \<and> at_tool_command_id r \<noteq> None \<and> at_tool_args_hash r \<noteq> None \<and> at_tool_checkpoint_at r \<noteq> None))
      then Some ''ck_chat_completion_attempt_tool_checkpoint_complete''
      else None)"

definition attempt_constraint :: "ChatCompletionAttempt list \<Rightarrow> ChatCompletionAttempt \<Rightarrow> string option" where
  "attempt_constraint rows r =
     (if at_backend_task_id r \<in> at_backend_task_id ` set rows
      then Some ''UNIQUE constraint failed: chat_completion_attempts.backend_task_id'' else attempt_checks r)"

definition attempts_table :: "(ChatCompletionAttempt list, ChatCompletionAttempt) orm" where
  "attempts_table = list_orm at_request_id attempt_constraint"

interpretation chat_attempts: attempt_store attempts_table "list_invar at_request_id"
  unfolding attempt_store_def attempts_table_def by (rule orm_table_list_orm)

text \<open>
  A message that is deleted leaves the attempts that point to it (\<^verbatim>\<open>ON DELETE SET NULL\<close>).
\<close>

definition message_deleted :: "'db attempts_api \<Rightarrow> int \<Rightarrow> 'db \<Rightarrow> 'db" where
  "message_deleted api m db =
     fold (\<lambda>r db. after db (commit_attempt api db (r\<lparr>at_completed_message_id := None\<rparr>) ()))
       (orm_select api db (\<lambda>r. at_completed_message_id r = Some m)) db"

lemma strip_spaces: "list_all (\<lambda>c. c = CHR '' '') token \<Longrightarrow> strip token = []"
proof -
  assume "list_all (\<lambda>c. c = CHR '' '') token"
  moreover have "py_isspace (CHR '' '')" by code_simp
  ultimately have "dropWhile py_isspace token = []" by (induction token) simp_all
  then show ?thesis by (auto simp: strip_def dest: set_dropWhileD)
qed

lemma ok_checks:
  assumes "attempt_ok fromiso r"
  shows "attempt_checks r = None"
proof -
  have token: "\<not> (case at_turn_lock_token r of None \<Rightarrow> False | Some token \<Rightarrow> list_all (\<lambda>c. c = CHR '' '') token)"
  proof (cases "at_turn_lock_token r")
    case (Some token)
    with assms have "strip token \<noteq> []" by (simp add: attempt_ok_def)
    with Some strip_spaces [of token] show ?thesis by auto
  qed simp
  obtain c where "checkpoint_from_attempt r = Inr c" using assms by (auto simp: attempt_ok_def)
  then have tool: "(at_tool_turn_id r = None \<and> at_tool_command_id r = None \<and> at_tool_args_hash r = None \<and> at_tool_checkpoint_at r = None) \<or>
      (at_tool_turn_id r \<noteq> None \<and> at_tool_command_id r \<noteq> None \<and> at_tool_args_hash r \<noteq> None \<and> at_tool_checkpoint_at r \<noteq> None)"
    by (auto simp: checkpoint_from_attempt_def split: option.splits)
  have orphan: "\<not> (at_terminal_outcome r \<noteq> None \<and> (map_of (the (at_terminal_outcome r)) ''failure_code'' \<noteq> Some ''CHAT_ACCEPTED_TASK_ORPHANED'' \<or>
      at_terminal_event_type r \<noteq> Some ''task.failed'' \<or> at_completed_message_id r \<noteq> None \<or> at_accepted_at r = None \<or> at_deadline_snapshot r = None))"
    using assms by (auto simp: attempt_ok_def orphaned_after_deadline_def)
  show ?thesis using assms token tool orphan unfolding attempt_checks_def attempt_ok_def by argo
qed

section \<open>Properties\<close>

text \<open>
  C29. The attempts stay consistent: starting from an empty table, whatever admissions, acceptances, outcomes,
  reconciliations and tool decisions are made, by the worker and the controller in any order, every row has at most one
  outcome, an orphan outcome only with an accepted deadline that had passed, a turn lock token exactly with a deadline,
  and a well-formed tool decision or none; so no check constraint of the table is ever what refuses a change.
\<close>

theorem attempts_stay_consistent:
  assumes "attempt_store api invar" "invar db" "orm_rows api db = {}"
  shows "\<forall>r \<in> orm_rows api (attempt_run api fromiso ops db). attempt_ok fromiso r \<and> attempt_checks r = None"
  using attempt_store.run_rows [OF assms(1,2), of fromiso ops] assms(3) ok_checks by auto

text \<open>
  C5. An attempt is settled once: when it has an outcome, no later operation of the worker or of the controller changes
  the outcome, the identity, the deadline or the turn lock token of its row, or removes it.
\<close>

theorem attempt_settled_once:
  assumes "attempt_store api invar" "invar db" "r \<in> orm_rows api db" "settled r"
  shows "\<exists>r' \<in> orm_rows api (attempt_run api fromiso ops db). attempt_identity r' = attempt_identity r \<and>
    at_completed_message_id r' = at_completed_message_id r \<and> at_terminal_event_type r' = at_terminal_event_type r \<and>
    at_terminal_outcome r' = at_terminal_outcome r \<and> at_deadline_snapshot r' = at_deadline_snapshot r \<and>
    at_turn_lock_token r' = at_turn_lock_token r"
  using attempt_store.run_settled [OF assms(1-3), of fromiso ops] assms(4) unfolding evolves_def by metis

text \<open>
  The fence holds: once the controller has declared an attempt an orphan, a late worker gets nothing; whatever
  happened since, recording a success or a terminal event for it returns false and leaves the table as it is.
\<close>

theorem late_worker_loses:
  assumes "attempt_store api invar" "invar db" "r \<in> orm_rows api db" "attempt_ok fromiso r" "at_terminal_outcome r \<noteq> None"
    and "t \<in> {''task.failed'', ''task.cancelled''}"
  shows "let db' = attempt_run api fromiso ops db in
    record_chat_completion_attempt_success api messages (attempt_identity r) m db' = Inr (db', False) \<and>
    record_chat_completion_attempt_terminal_event api (attempt_identity r) t db' = Inr (db', False)"
proof -
  obtain r' where r': "r' \<in> orm_rows api (attempt_run api fromiso ops db)" "evolves r r'" "invar (attempt_run api fromiso ops db)"
    using attempt_store.run_settled [OF assms(1-3)] by blast
  have "settled r" "at_completed_message_id r = None" "at_terminal_event_type r = Some ''task.failed''"
    using assms(4,5) by (auto simp: attempt_ok_def orphaned_after_deadline_def settled_def)
  then have "at_completed_message_id r' = None" "at_terminal_event_type r' = Some ''task.failed''" "at_terminal_outcome r' \<noteq> None"
      "attempt_identity r' = attempt_identity r"
    using r'(2) assms(5) by (simp_all add: evolves_def)
  then show ?thesis using attempt_store.find_by_identity(1) [OF assms(1) r'(3,1)] assms(6)
    by (auto simp: Let_def record_chat_completion_attempt_success_def record_chat_completion_attempt_terminal_event_def)
qed

lemma orphan_deadline:
  assumes "at_deadline_snapshot r = Some (PDict (deadline_to_dict d))" "valid_deadline d" "inverts_isoformat fromiso d" "utcoff now \<noteq> None"
  shows "orphan_attempt fromiso now r =
    Inr (if instant (ad_terminal_deadline_at d) \<le> instant now
         then Some (r\<lparr>at_terminal_event_type := Some ''task.failed'', at_terminal_outcome := Some [(''failure_code'', ''CHAT_ACCEPTED_TASK_ORPHANED''),
           (''reconciled_at'', isoformat (astimezone_utc now))]\<rparr>)
         else None)"
  using assms by (simp add: orphan_attempt_def parse_to_dict)

text \<open>
  C24. Reconciliation respects the deadline exactly: an accepted attempt without an outcome is left as it is, and its
  turn lock token is not given out, as long as its terminal deadline has not been reached; from that instant on it
  becomes a failed orphan and the token is given out. Only the database can make it fail.
\<close>

theorem reconciled_at_the_deadline:
  assumes "attempt_store api invar" "invar db" "r \<in> orm_rows api db"
    and "\<forall>x \<in> orm_rows api db. at_backend_task_id x = at_backend_task_id r \<longrightarrow> x = r"
    and "\<not> settled r" "at_accepted_at r \<noteq> None" "at_deadline_snapshot r = Some (PDict (deadline_to_dict d))"
    and "valid_deadline d" "inverts_isoformat fromiso d" "utcoff now \<noteq> None"
  shows "case reconcile_chat_completion_attempt_after_deadline api fromiso messages now (attempt_identity r) db of
      Inl e \<Rightarrow> \<exists>x. e = AttemptDb x
    | Inr (db', x) \<Rightarrow>
        if instant now < instant (ad_terminal_deadline_at d)
        then db' = db \<and> re_terminal_event_type x = None \<and> re_completed_message_id x = None \<and> re_turn_lock_token x = None
        else re_terminal_event_type x = Some ''task.failed'' \<and> re_terminal_outcome x \<noteq> None \<and> re_turn_lock_token x = at_turn_lock_token r \<and>
          (\<exists>r' \<in> orm_rows api db'. attempt_identity r' = attempt_identity r \<and> at_terminal_outcome r' = re_terminal_outcome x)"
proof -
  have found: "one_or_none api db (\<lambda>x. at_backend_task_id x = ai_backend_task_id (attempt_identity r)) = Inr (Some r)"
    using attempt_store.find_by_task [OF assms(1-4)] by (simp add: attempt_identity_def)
  have new: "at_completed_message_id r = None" "at_terminal_event_type r = None" using assms(5) by (auto simp: settled_def)
  let ?o = "r\<lparr>at_terminal_event_type := Some ''task.failed'', at_terminal_outcome := Some [(''failure_code'', ''CHAT_ACCEPTED_TASK_ORPHANED''),
           (''reconciled_at'', isoformat (astimezone_utc now))]\<rparr>"
  note orphan = orphan_deadline [OF assms(7-10)]
  show ?thesis
  proof (cases "instant now < instant (ad_terminal_deadline_at d)")
    case True
    then show ?thesis using found new assms(6) orphan
      by (auto simp: reconcile_chat_completion_attempt_after_deadline_def reconciliation_of_def)
  next
    case False
    then have run: "reconcile_chat_completion_attempt_after_deadline api fromiso messages now (attempt_identity r) db =
        commit_attempt api db ?o (reconciliation_of ?o)"
      using found new assms(6) orphan by (simp add: reconcile_chat_completion_attempt_after_deadline_def)
    show ?thesis
    proof (cases "orm_commit api db ?o")
      case (Inr db')
      have "orm_rows api db' = insert ?o (orm_rows api db - {r})"
        using orm_table.commit_rows [OF assms(1) [unfolded attempt_store_def] assms(2,3) _ Inr] by simp
      then show ?thesis using False run Inr by (auto simp: commit_attempt_def reconciliation_of_def attempt_identity_def)
    qed (use False run in \<open>simp add: commit_attempt_def\<close>)
  qed
qed

text \<open>
  C30. The first tool decision wins: after a decision has been frozen for an attempt, and whatever happened since, asking
  again with the same command and arguments gives the same decision with its first turn id and changes nothing, any other
  command or arguments are refused, and a read gives the decision.
\<close>

theorem tool_decision_first_wins:
  assumes "attempt_store api invar" "invar db" "freeze_chat_tool_decision api owners turn now who account command h db = Inr (db1, Some c)"
    and "owners (ai_thread_id who) = Some account" "command' \<noteq> []" "valid_args_hash h'"
  shows "let db2 = attempt_run api fromiso ops db1 in
    get_chat_tool_checkpoint api owners who account db2 = Inr (Some c) \<and>
    freeze_chat_tool_decision api owners turn' now' who account command' h' db2 =
      (if command' = command \<and> h' = h then Inr (db2, Some c) else Inl (CheckpointError ''tool_decision_conflict''))"
proof -
  note frozen = attempt_store.frozen_row [OF assms(1-3)]
  then obtain r where r: "r \<in> orm_rows api db1" "attempt_identity r = who" "checkpoint_from_attempt r = Inr (Some c)" by blast
  obtain r' where r': "r' \<in> orm_rows api (attempt_run api fromiso ops db1)" "evolves r r'" "invar (attempt_run api fromiso ops db1)"
    using attempt_store.run_settled [OF assms(1) _ r(1)] frozen by blast
  have id: "attempt_identity r' = who" "checkpoint_from_attempt r' = Inr (Some c)" using r'(2) r(2,3) by (simp_all add: evolves_def)
  have "accepted_tool_attempt api owners who account (attempt_run api fromiso ops db1) = Inr r'"
    using attempt_store.find_by_identity(2) [OF assms(1) r'(3,1) id(1)] id(1) frozen assms(4) by (simp add: accepted_tool_attempt_def)
  then show ?thesis using id frozen assms(5,6) by (simp add: Let_def get_chat_tool_checkpoint_def freeze_chat_tool_decision_def)
qed

text \<open>
  A deleted reply turns a completed attempt into a failed one: when the assistant message of an accepted attempt is
  deleted, the next reconciliation after its deadline records the attempt as a failed orphan.
\<close>

theorem deleted_reply_becomes_orphan:
  assumes "attempt_store api invar" "invar db" "orm_rows api db = {r}" "at_completed_message_id r = Some m" "at_terminal_event_type r = None"
    and "at_accepted_at r \<noteq> None" "at_deadline_snapshot r = Some (PDict (deadline_to_dict d))"
    and "valid_deadline d" "inverts_isoformat fromiso d" "utcoff now \<noteq> None" "instant (ad_terminal_deadline_at d) \<le> instant now"
    and "orm_commit api db (r\<lparr>at_completed_message_id := None\<rparr>) = Inr db1"
    and "reconcile_chat_completion_attempt_after_deadline api fromiso messages now (attempt_identity r) (message_deleted api m db) = Inr (db2, x)"
  shows "re_terminal_event_type x = Some ''task.failed'' \<and> re_terminal_outcome x \<noteq> None"
proof -
  let ?r = "r\<lparr>at_completed_message_id := None\<rparr>"
  note tbl = assms(1) [unfolded attempt_store_def]
  have "set (orm_select api db (\<lambda>r. at_completed_message_id r = Some m)) = {r}"
    using orm_table.select_rows [OF tbl assms(2)] assms(3,4) by auto
  moreover from this have "length (orm_select api db (\<lambda>r. at_completed_message_id r = Some m)) = 1"
    using distinct_card [OF orm_table.select_distinct [OF tbl assms(2)]] by (metis One_nat_def card.empty card.insert empty_iff finite.emptyI)
  then obtain y where "orm_select api db (\<lambda>r. at_completed_message_id r = Some m) = [y]" by (auto simp: length_Suc_conv)
  ultimately have "message_deleted api m db = db1" using assms(12) by (simp add: message_deleted_def commit_attempt_def)
  moreover have rows: "orm_rows api db1 = {?r}" "invar db1"
    using orm_table.commit_rows [OF tbl assms(2) _ _ assms(12), of r] orm_table.commit_invar [OF tbl assms(2) _ _ assms(12), of r] assms(3)
    by simp_all
  moreover have "one_or_none api db1 (\<lambda>x. at_backend_task_id x = ai_backend_task_id (attempt_identity r)) = Inr (Some ?r)"
    using attempt_store.find_by_task [OF assms(1) rows(2), of ?r] rows(1) by (simp add: attempt_identity_def)
  moreover have "attempt_identity ?r = attempt_identity r" by (simp add: attempt_identity_def)
  moreover have "orphan_attempt fromiso now ?r = Inr (Some (?r\<lparr>at_terminal_event_type := Some ''task.failed'',
      at_terminal_outcome := Some [(''failure_code'', ''CHAT_ACCEPTED_TASK_ORPHANED''), (''reconciled_at'', isoformat (astimezone_utc now))]\<rparr>))"
    using orphan_deadline [of ?r d fromiso now] assms(7-11) by simp
  ultimately show ?thesis using assms(5,6,13)
    by (auto simp: reconcile_chat_completion_attempt_after_deadline_def commit_attempt_def reconciliation_of_def split: sum.splits)
qed

section \<open>An attempt from admission to its orphan\<close>

definition demo_identity :: attempt_name where
  "demo_identity = \<lparr>ai_request_id = ''r1'', ai_backend_task_id = ''b1'', ai_thread_id = 7, ai_turn_id = ''u1''\<rparr>"

definition demo_attempt :: ChatCompletionAttempt where
  "demo_attempt =
     \<lparr>at_request_id = ''r1'', at_backend_task_id = ''b1'', at_thread_id = 7, at_turn_id = ''u1'', at_completed_message_id = None,
      at_terminal_event_type = None, at_terminal_outcome = None, at_deadline_snapshot = Some (PDict (deadline_to_dict epoch_deadline)),
      at_turn_lock_token = Some ''tok'', at_created_at = \<lparr>wall = 0, utcoff = Some 0\<rparr>, at_accepted_at = Some \<lparr>wall = 1, utcoff = Some 0\<rparr>,
      at_tool_turn_id = None, at_tool_command_id = None, at_tool_args_hash = None, at_tool_checkpoint_at = None\<rparr>"

definition demo_attempt_time :: pydt where "demo_attempt_time = \<lparr>wall = 780000000, utcoff = Some 0\<rparr>"

lemma demo_identity_of: "attempt_identity demo_attempt = demo_identity"
  by (simp add: demo_attempt_def demo_identity_def attempt_identity_def)

lemma one_row_invar: "list_invar at_request_id [r]"
  by (simp add: list_invar_def)

lemma attempts_table_rows: "orm_rows attempts_table rows = set rows"
  by (simp add: attempts_table_def)

lemma one_row_commit:
  "at_request_id r' = at_request_id r \<Longrightarrow> attempt_checks r' = None \<Longrightarrow> orm_commit attempts_table [r] r' = Inr [r']"
  by (simp add: attempts_table_def list_commit_def attempt_constraint_def)

lemma epoch_deadline_valid: "valid_deadline epoch_deadline"
  by (rule build_deadline_valid [OF epoch_built])

theorem attempts_stay_consistent_witness:
  "list_all (\<lambda>r. attempt_ok epoch_parser r \<and> attempt_checks r = None) (attempt_run attempts_table epoch_parser
      [Admit demo_attempt_time demo_identity (Some epoch_deadline) (Some ''tok''), MarkAccepted demo_attempt_time ''b1'', Reconcile (\<lambda>_ _. True) demo_attempt_time demo_identity,
       Terminate demo_identity ''task.cancelled''] [])"
  using attempts_stay_consistent [OF chat_attempts.attempt_store_axioms, of "[]" epoch_parser
      "[Admit demo_attempt_time demo_identity (Some epoch_deadline) (Some ''tok''), MarkAccepted demo_attempt_time ''b1'',
        Reconcile (\<lambda>_ _. True) demo_attempt_time demo_identity, Terminate demo_identity ''task.cancelled'']"]
  by (simp add: list_invar_def attempts_table_rows list_all_iff)

definition done_attempt :: ChatCompletionAttempt where
  "done_attempt = demo_attempt\<lparr>at_completed_message_id := Some 5\<rparr>"

theorem attempt_settled_once_witness:
  "\<exists>r' \<in> orm_rows attempts_table (attempt_run attempts_table epoch_parser [Terminate demo_identity ''task.failed'',
      Reconcile (\<lambda>_ _. True) demo_attempt_time demo_identity] [done_attempt]). at_completed_message_id r' = Some 5 \<and> at_terminal_event_type r' = None"
  using attempt_settled_once [OF chat_attempts.attempt_store_axioms one_row_invar, of done_attempt done_attempt epoch_parser
      "[Terminate demo_identity ''task.failed'', Reconcile (\<lambda>_ _. True) demo_attempt_time demo_identity]"]
  by (auto simp: attempts_table_rows settled_def done_attempt_def demo_attempt_def)

definition orphan_row :: ChatCompletionAttempt where
  "orphan_row = demo_attempt\<lparr>at_terminal_event_type := Some ''task.failed'',
     at_terminal_outcome := Some [(''failure_code'', ''CHAT_ACCEPTED_TASK_ORPHANED''), (''reconciled_at'', isoformat demo_attempt_time)]\<rparr>"

lemma orphan_row_ok: "attempt_ok epoch_parser orphan_row"
proof -
  have "parse_accepted_chat_task_deadline epoch_parser (deadline_to_dict epoch_deadline) = Inr (Some epoch_deadline)"
    by (rule parse_to_dict [OF epoch_deadline_valid epoch_inverted])
  moreover have "strip ''tok'' \<noteq> []" by code_simp
  moreover have "instant (ad_terminal_deadline_at epoch_deadline) \<le> instant demo_attempt_time" "utcoff demo_attempt_time = Some 0"
    by (simp_all add: epoch_deadline_def demo_attempt_time_def)
  ultimately show ?thesis
    by (auto simp: attempt_ok_def orphan_row_def demo_attempt_def orphaned_after_deadline_def checkpoint_from_attempt_def)
qed

theorem late_worker_loses_witness:
  "record_chat_completion_attempt_success attempts_table (\<lambda>_ _. True) demo_identity 5 [orphan_row] = Inr ([orphan_row], False)"
  using late_worker_loses [OF chat_attempts.attempt_store_axioms one_row_invar _ orphan_row_ok, of orphan_row "''task.failed''" "[]" "\<lambda>_ _. True" 5]
  by (simp add: attempts_table_rows Let_def attempt_run_def orphan_row_def demo_identity_def demo_attempt_def attempt_identity_def)

lemma demo_fields:
  "at_completed_message_id demo_attempt = None" "at_terminal_event_type demo_attempt = None" "at_accepted_at demo_attempt \<noteq> None"
  "at_backend_task_id demo_attempt = ''b1''" "at_deadline_snapshot demo_attempt = Some (PDict (deadline_to_dict epoch_deadline))"
  "ai_backend_task_id demo_identity = ''b1''" "utcoff demo_attempt_time \<noteq> None" "instant (ad_terminal_deadline_at epoch_deadline) \<le> instant demo_attempt_time"
  by (simp_all add: demo_attempt_def demo_identity_def demo_attempt_time_def epoch_deadline_def)

definition demo_orphan :: ChatCompletionAttempt where
  "demo_orphan = demo_attempt\<lparr>at_terminal_event_type := Some ''task.failed'',
     at_terminal_outcome := Some [(''failure_code'', ''CHAT_ACCEPTED_TASK_ORPHANED''), (''reconciled_at'', isoformat (astimezone_utc demo_attempt_time))]\<rparr>"

lemma demo_orphaned:
  "reconcile_chat_completion_attempt_after_deadline attempts_table epoch_parser (\<lambda>_ _. True) demo_attempt_time demo_identity [demo_attempt] =
     Inr ([demo_orphan], reconciliation_of demo_orphan)"
proof -
  have "orphan_attempt epoch_parser demo_attempt_time demo_attempt = Inr (Some demo_orphan)"
    by (subst orphan_deadline [OF demo_fields(5) epoch_deadline_valid epoch_inverted]) (simp_all add: demo_fields demo_orphan_def)
  moreover have "orm_commit attempts_table [demo_attempt] demo_orphan = Inr [demo_orphan]"
    by (rule one_row_commit) (simp_all add: attempt_checks_def demo_attempt_def demo_orphan_def)
  ultimately show ?thesis
    by (simp add: reconcile_chat_completion_attempt_after_deadline_def one_or_none_def attempts_table_def list_select_def commit_attempt_def
        demo_fields demo_identity_of)
qed

theorem reconciled_at_the_deadline_witness:
  "case reconcile_chat_completion_attempt_after_deadline attempts_table epoch_parser (\<lambda>_ _. True) demo_attempt_time demo_identity [demo_attempt] of
     Inl e \<Rightarrow> False | Inr (db', x) \<Rightarrow> re_terminal_event_type x = Some ''task.failed'' \<and> re_turn_lock_token x = Some ''tok''"
proof -
  have "at_deadline_snapshot demo_attempt = Some (PDict (deadline_to_dict epoch_deadline))" "\<not> settled demo_attempt" "at_accepted_at demo_attempt \<noteq> None"
    "utcoff demo_attempt_time \<noteq> None" "\<not> instant demo_attempt_time < instant (ad_terminal_deadline_at epoch_deadline)" "at_turn_lock_token demo_attempt = Some ''tok''"
    by (simp_all add: demo_attempt_def demo_attempt_time_def epoch_deadline_def settled_def)
  then show ?thesis
    using reconciled_at_the_deadline [OF chat_attempts.attempt_store_axioms one_row_invar, of demo_attempt demo_attempt epoch_deadline epoch_parser demo_attempt_time "\<lambda>_ _. True"]
    by (simp add: attempts_table_rows epoch_deadline_valid epoch_inverted demo_identity_of demo_orphaned)
qed

definition demo_hash :: string where "demo_hash = replicate 64 (CHR ''a'')"

lemma demo_hash_valid: "valid_args_hash demo_hash"
  by (simp add: valid_args_hash_def demo_hash_def)

definition frozen_attempt :: ChatCompletionAttempt where
  "frozen_attempt = demo_attempt\<lparr>at_tool_turn_id := Some ''x1'', at_tool_command_id := Some ''notes.add'', at_tool_args_hash := Some demo_hash,
     at_tool_checkpoint_at := Some demo_attempt_time\<rparr>"

definition demo_checkpoint :: tool_checkpoint where
  "demo_checkpoint = \<lparr>tk_tool_turn_id = ''x1'', tk_command_id = ''notes.add'', tk_args_hash = demo_hash, tk_created_at = demo_attempt_time\<rparr>"

lemma demo_frozen:
  "freeze_chat_tool_decision attempts_table (\<lambda>_. Some ''ann'') ''x1'' demo_attempt_time demo_identity ''ann'' ''notes.add'' demo_hash [demo_attempt] =
     Inr ([frozen_attempt], Some demo_checkpoint)"
proof -
  have "strip ''x1'' \<noteq> []" "strip ''notes.add'' \<noteq> []" by code_simp+
  then have "checkpoint_from_attempt frozen_attempt = Inr (Some demo_checkpoint)"
    by (simp add: checkpoint_from_attempt_def frozen_attempt_def demo_checkpoint_def demo_hash_valid)
  moreover have "orm_commit attempts_table [demo_attempt] frozen_attempt = Inr [frozen_attempt]"
    by (rule one_row_commit) (simp_all add: attempt_checks_def demo_attempt_def frozen_attempt_def)
  moreover have "accepted_tool_attempt attempts_table (\<lambda>_. Some ''ann'') demo_identity ''ann'' [demo_attempt] = Inr demo_attempt"
    by (simp add: accepted_tool_attempt_def one_or_none_def attempts_table_def list_select_def demo_identity_of)
      (simp add: demo_attempt_def demo_identity_def)
  moreover have "checkpoint_from_attempt demo_attempt = Inr None" by (simp add: checkpoint_from_attempt_def demo_attempt_def)
  ultimately show ?thesis by (simp add: freeze_chat_tool_decision_def demo_hash_valid Let_def commit_attempt_def flip: frozen_attempt_def)
qed

theorem tool_decision_first_wins_witness:
  "freeze_chat_tool_decision attempts_table (\<lambda>_. Some ''ann'') ''x2'' demo_attempt_time demo_identity ''ann'' ''notes.delete'' demo_hash [frozen_attempt] =
     Inl (CheckpointError ''tool_decision_conflict'')"
  using tool_decision_first_wins [OF chat_attempts.attempt_store_axioms one_row_invar demo_frozen _ _ demo_hash_valid, where command' = "''notes.delete''" and ops = "[]"]
  by (simp add: attempt_run_def Let_def demo_identity_def)

theorem deleted_reply_becomes_orphan_witness:
  "\<exists>db2 x. reconcile_chat_completion_attempt_after_deadline attempts_table epoch_parser (\<lambda>_ _. True) demo_attempt_time demo_identity
      (message_deleted attempts_table 5 [done_attempt]) = Inr (db2, x) \<and> re_terminal_event_type x = Some ''task.failed''"
proof -
  have restored: "done_attempt\<lparr>at_completed_message_id := None\<rparr> = demo_attempt" by (simp add: done_attempt_def demo_attempt_def)
  have com: "orm_commit attempts_table [done_attempt] (done_attempt\<lparr>at_completed_message_id := None\<rparr>) = Inr [done_attempt\<lparr>at_completed_message_id := None\<rparr>]"
    by (rule one_row_commit) (simp_all add: attempt_checks_def demo_attempt_def done_attempt_def)
  have del: "message_deleted attempts_table 5 [done_attempt] = [demo_attempt]"
    using com by (simp add: message_deleted_def commit_attempt_def attempts_table_def list_select_def restored) (simp add: done_attempt_def)
  obtain db2 x where run: "reconcile_chat_completion_attempt_after_deadline attempts_table epoch_parser (\<lambda>_ _. True) demo_attempt_time demo_identity [demo_attempt] = Inr (db2, x)"
    using demo_orphaned by blast
  have id: "attempt_identity done_attempt = demo_identity" by (simp add: done_attempt_def demo_attempt_def demo_identity_def attempt_identity_def)
  have "re_terminal_event_type x = Some ''task.failed'' \<and> re_terminal_outcome x \<noteq> None"
    by (rule deleted_reply_becomes_orphan [OF chat_attempts.attempt_store_axioms one_row_invar _ _ _ _ _ epoch_deadline_valid epoch_inverted _ _ com,
        where m = 5 and now = demo_attempt_time and messages = "\<lambda>_ _. True", unfolded del id, OF _ _ _ _ _ _ _ run])
      (simp_all add: attempts_table_rows done_attempt_def demo_attempt_def demo_attempt_time_def epoch_deadline_def)
  with del run show ?thesis by simp
qed

end
