(* ===== verification/Task_Types.thy ===== *)
theory Task_Types
  imports Chat_Deadline
begin

text \<open>
  Model of \<^verbatim>\<open>guardian/tasks/types.py\<close>: the tasks of the workers as they are built from and written to the
  dictionaries that go through the queues, with the coercions of each field. Fresh identifiers, the clock and the
  conversion of a value to a float are arguments. The class \<open>CodingExecutionTask\<close> is defined twice in the module; the
  second definition is the one that the registry holds. The result is that a decoded task survives being queued again.
\<close>

section \<open>Coercions\<close>

definition get2 :: "pydict \<Rightarrow> string \<Rightarrow> string \<Rightarrow> pyval" where
  "get2 p k k' = py_or (dict_get p k) (dict_get p k')"

definition get_default :: "pydict \<Rightarrow> string \<Rightarrow> pyval \<Rightarrow> pyval" where
  "get_default p k d = (case map_of p k of None \<Rightarrow> d | Some v \<Rightarrow> v)"

definition coerce_optional_positive_int :: "pyval \<Rightarrow> py_error + int option" where
  "coerce_optional_positive_int raw =
     (case py_int raw of
        Inr n \<Rightarrow> Inr (if 0 < n then Some n else None)
      | Inl OverflowError \<Rightarrow> Inl OverflowError
      | Inl _ \<Rightarrow> Inr None)"

definition coerce_bounded_positive_int :: "pyval \<Rightarrow> py_error + int" where
  "coerce_bounded_positive_int raw =
     (case coerce_optional_positive_int raw of
        Inl e \<Rightarrow> Inl e | Inr None \<Rightarrow> Inr (max 1 1) | Inr (Some n) \<Rightarrow> Inr (max 1 (min n 3)))"

definition coerce_task_text :: "pyval \<Rightarrow> string option" where
  "coerce_task_text raw = or_none (strip (str_or_empty raw))"

definition stripped_text :: "pyval \<Rightarrow> string" where
  "stripped_text raw = strip (str_or_empty raw)"

definition text_or :: "pyval \<Rightarrow> string \<Rightarrow> string" where
  "text_or raw d = (if truthy raw then py_str raw else d)"

fun structured_part :: "pyval \<Rightarrow> bool" where
  "structured_part (PDict item) = (dict_get item ''type'' = PStr ''text'' \<or> dict_get item ''type'' = PStr ''image_url'')"
| "structured_part v = False"

definition coerce_structured_messages :: "pyval \<Rightarrow> pyval list option" where
  "coerce_structured_messages raw =
     (case raw of PList items \<Rightarrow> if list_ex structured_part items then Some items else None | _ \<Rightarrow> None)"

fun mappings :: "pyval list \<Rightarrow> pydict list" where
  "mappings [] = []"
| "mappings (PDict d # vs) = d # mappings vs"
| "mappings (v # vs) = mappings vs"

definition coerce_list_of_mappings :: "pyval \<Rightarrow> pydict list option" where
  "coerce_list_of_mappings raw = (case raw of PList items \<Rightarrow> if mappings items = [] then None else Some (mappings items) | _ \<Rightarrow> None)"

text \<open>\<^verbatim>\<open>str.isdigit\<close> also holds of superscript digits, which \<^verbatim>\<open>int\<close> does not read.\<close>

definition py_isdigit :: "string \<Rightarrow> bool" where
  "py_isdigit s = (s \<noteq> [] \<and> (\<forall>c \<in> set s. is_digit c \<or> (of_char c :: nat) \<in> {178, 179, 185}))"

definition coerce_optional_identifier :: "pyval \<Rightarrow> py_error + pyval" where
  "coerce_optional_identifier raw =
     (case raw of
        PNone \<Rightarrow> Inr PNone
      | PBool b \<Rightarrow> Inr (PInt (if b then 1 else 0))
      | PInt i \<Rightarrow> Inr (PInt i)
      | v \<Rightarrow>
        (let s = strip (py_str v) in
         if s = [] then Inr PNone
         else if py_isdigit s then (case py_int (PStr s) of Inl e \<Rightarrow> Inl e | Inr i \<Rightarrow> Inr (PInt i))
         else Inr (PStr s)))"

definition coerce_text_list :: "pyval \<Rightarrow> string list" where
  "coerce_text_list raw =
     (case raw of
        PNone \<Rightarrow> []
      | PList items \<Rightarrow> filter (\<lambda>s. s \<noteq> []) (map (\<lambda>v. strip (py_str v)) items)
      | v \<Rightarrow> (let s = strip (py_str v) in if s = [] then [] else [s]))"

fun dedupe :: "string list \<Rightarrow> string list \<Rightarrow> string list" where
  "dedupe acc [] = acc"
| "dedupe acc (x # xs) = dedupe (if x \<in> set acc then acc else acc @ [x]) xs"

definition coerce_deduped_task_texts :: "pyval \<Rightarrow> string list" where
  "coerce_deduped_task_texts raw = dedupe [] (coerce_text_list raw)"

definition coerce_task_mapping :: "pyval \<Rightarrow> pydict" where
  "coerce_task_mapping raw = (case raw of PDict d \<Rightarrow> d | _ \<Rightarrow> [])"

definition mapping_or_none :: "pyval \<Rightarrow> pydict option" where
  "mapping_or_none raw = (if coerce_task_mapping raw = [] then None else Some (coerce_task_mapping raw))"

definition status_text :: "pyval \<Rightarrow> string \<Rightarrow> string" where
  "status_text raw d = (let v = lower (strip (str_or_empty raw)) in if v = [] then d else v)"

definition underscore :: "char \<Rightarrow> char" where
  "underscore c = (if c = CHR ''-'' \<or> c = CHR '' '' then CHR ''_'' else c)"

definition normalize_executor_id :: "pyval \<Rightarrow> string" where
  "normalize_executor_id raw = (case coerce_task_text raw of None \<Rightarrow> [] | Some v \<Rightarrow> map underscore (lower v))"

text \<open>\<^verbatim>\<open>SAFE_IDENTIFIER_RE\<close> and its users in \<^verbatim>\<open>core/request_correlation.py\<close>.\<close>

definition identifier_char :: "char \<Rightarrow> bool" where
  "identifier_char c = (let n = (of_char c :: nat) in
     (48 \<le> n \<and> n \<le> 57) \<or> (65 \<le> n \<and> n \<le> 90) \<or> (97 \<le> n \<and> n \<le> 122) \<or> c \<in> set ''._:-'')"

definition is_safe_identifier :: "string \<Rightarrow> bool" where
  "is_safe_identifier s = (1 \<le> length s \<and> length s \<le> 128 \<and> (\<forall>c \<in> set s. identifier_char c))"

definition normalize_request_id :: "string \<Rightarrow> string \<Rightarrow> string \<times> bool" where
  "normalize_request_id fresh v = (let c = strip v in if is_safe_identifier c then (c, True) else (''req_'' @ fresh, False))"

definition normalize_optional_identifier :: "string \<Rightarrow> string option" where
  "normalize_optional_identifier v = (let c = strip v in if is_safe_identifier c then Some c else None)"

section \<open>The base task\<close>

text \<open>Fresh values: the identifiers a decoder generates and its clock.\<close>

record fresh =
  fr_task_id :: string
  fr_request_id :: string
  fr_chat_task_id :: string
  fr_now :: string

record base_task =
  bt_task_id :: string
  bt_request_id :: string
  bt_type :: string
  bt_created_at :: string
  bt_origin :: string

text \<open>\<^verbatim>\<open>_base_kwargs\<close> with the class's default type, before \<^verbatim>\<open>__post_init__\<close>.\<close>

definition base_kwargs :: "fresh \<Rightarrow> string \<Rightarrow> pydict \<Rightarrow> base_task" where
  "base_kwargs fr default_type p =
     \<lparr>bt_task_id = text_or (dict_get p ''task_id'') (fr_task_id fr), bt_request_id = str_or_empty (get2 p ''request_id'' ''requestId''),
      bt_type = (case dict_get p ''type'' of PStr s \<Rightarrow> if strip s = [] then default_type else strip s | _ \<Rightarrow> default_type),
      bt_created_at = text_or (dict_get p ''created_at'') (fr_now fr), bt_origin = text_or (dict_get p ''origin'') ''unknown''\<rparr>"

definition base_init :: "base_task \<Rightarrow> base_task" where
  "base_init b = b\<lparr>bt_request_id := stripped_text (PStr (bt_request_id b))\<rparr>"

definition base_dict :: "'a base_task_scheme \<Rightarrow> pydict" where
  "base_dict b =
     [(''task_id'', PStr (bt_task_id b)), (''request_id'', PStr (bt_request_id b)), (''type'', PStr (bt_type b)),
      (''created_at'', PStr (bt_created_at b)), (''origin'', PStr (bt_origin b))]"

section \<open>The chat completion task\<close>

record HostedRoomInvocationMetadata =
  hr_room_id :: string
  hr_source_message_id :: int
  hr_actor_participant_id :: string
  hr_actor_source :: string
  hr_actor_ref :: string
  hr_requester_authority :: string
  hr_requester_participant_id :: "string option"

definition HOSTED_ROOM_INVOCATION_FIELDS :: "string list" where
  "HOSTED_ROOM_INVOCATION_FIELDS =
     [''room_id'', ''source_message_id'', ''actor_participant_id'', ''actor_source'', ''actor_ref'', ''requester_authority'',
      ''requester_participant_id'']"

text \<open>\<open>None\<close> where the code raises \<^verbatim>\<open>ValueError\<close>.\<close>

definition require_hosted_room_identifier :: "pyval \<Rightarrow> string option" where
  "require_hosted_room_identifier raw =
     (case raw of PStr s \<Rightarrow> if is_safe_identifier (strip s) then Some (strip s) else None | _ \<Rightarrow> None)"

definition hosted_room_metadata :: "pydict \<Rightarrow> HostedRoomInvocationMetadata option" where
  "hosted_room_metadata p =
     (let actor_source = stripped_text (dict_get p ''actor_source''); actor_ref = stripped_text (dict_get p ''actor_ref'');
          authority = stripped_text (dict_get p ''requester_authority''); requester = dict_get p ''requester_participant_id'' in
      case (require_hosted_room_identifier (dict_get p ''room_id''), require_hosted_room_identifier (dict_get p ''actor_participant_id''),
            dict_get p ''source_message_id'') of
        (Some room_id, Some actor, PInt message_id) \<Rightarrow>
          if message_id \<le> 0 \<or> actor_source \<noteq> ''resident'' \<or> actor_ref \<noteq> ''guardian'' \<or> authority \<notin> {''owner'', ''guest''} then None
          else (case (if authority = ''owner'' then (if requester \<noteq> PNone then None else Some None)
                  else map_option Some (require_hosted_room_identifier requester)) of
                  None \<Rightarrow> None
                | Some requester_id \<Rightarrow>
                  Some \<lparr>hr_room_id = room_id, hr_source_message_id = message_id, hr_actor_participant_id = actor,
                    hr_actor_source = actor_source, hr_actor_ref = actor_ref, hr_requester_authority = authority,
                    hr_requester_participant_id = requester_id\<rparr>)
      | _ \<Rightarrow> None)"

definition coerce_hosted_room_invocation :: "pyval \<Rightarrow> HostedRoomInvocationMetadata option" where
  "coerce_hosted_room_invocation raw =
     (case raw of
        PDict p \<Rightarrow> if set (map fst p) = set HOSTED_ROOM_INVOCATION_FIELDS then hosted_room_metadata p else None
      | _ \<Rightarrow> None)"

definition hosted_room_dict :: "HostedRoomInvocationMetadata \<Rightarrow> pydict" where
  "hosted_room_dict m =
     [(''room_id'', PStr (hr_room_id m)), (''source_message_id'', PInt (hr_source_message_id m)),
      (''actor_participant_id'', PStr (hr_actor_participant_id m)), (''actor_source'', PStr (hr_actor_source m)),
      (''actor_ref'', PStr (hr_actor_ref m)), (''requester_authority'', PStr (hr_requester_authority m)),
      (''requester_participant_id'', opt_str (hr_requester_participant_id m))]"

record PersonaSelectionSnapshot =
  ps_profile_id :: "string option"
  ps_profile_revision :: "int option"

definition persona_snapshot :: "pyval \<Rightarrow> pyval \<Rightarrow> PersonaSelectionSnapshot option" where
  "persona_snapshot profile_id revision =
     (case (case profile_id of PNone \<Rightarrow> Some None | PStr s \<Rightarrow> if strip s = [] then None else Some (Some s) | _ \<Rightarrow> None) of
        None \<Rightarrow> None
      | Some pid \<Rightarrow>
        (case revision of
           PNone \<Rightarrow> Some \<lparr>ps_profile_id = pid, ps_profile_revision = None\<rparr>
         | PInt n \<Rightarrow> if n \<le> 0 \<or> pid = None then None else Some \<lparr>ps_profile_id = pid, ps_profile_revision = Some n\<rparr>
         | _ \<Rightarrow> None))"

definition persona_from_dict :: "pyval \<Rightarrow> PersonaSelectionSnapshot option" where
  "persona_from_dict raw =
     (case raw of
        PDict p \<Rightarrow>
          if set (map fst p) = {''profile_id'', ''profile_revision''}
          then persona_snapshot (dict_get p ''profile_id'') (dict_get p ''profile_revision'') else None
      | _ \<Rightarrow> None)"

definition opt_dict :: "pydict option \<Rightarrow> pyval" where
  "opt_dict x = (case x of None \<Rightarrow> PNone | Some d \<Rightarrow> PDict d)"

definition persona_dict :: "PersonaSelectionSnapshot \<Rightarrow> pydict" where
  "persona_dict s = [(''profile_id'', opt_str (ps_profile_id s)), (''profile_revision'', opt_int (ps_profile_revision s))]"

record ChatCompletionTask = base_task +
  cc_user_id :: string
  cc_thread_id :: int
  cc_turn_id :: "string option"
  cc_latest_turn_message_id :: "int option"
  cc_latest_turn_messages :: "pyval list option"
  cc_model :: pyval
  cc_provider :: pyval
  cc_temperature :: "pyfloat option"
  cc_requested_model :: pyval
  cc_requested_provider :: pyval
  cc_selection_source :: pyval
  cc_provider_pinned :: bool
  cc_reasoning_mode :: pyval
  cc_tools :: "pydict list option"
  cc_max_context :: pyval
  cc_depth_mode :: pyval
  cc_requested_source_mode :: "string option"
  cc_system_override :: pyval
  cc_retrieval_override :: "pydict option"
  cc_browser_context :: "pydict option"
  cc_preferred_name :: "string option"
  cc_profession :: "string option"
  cc_guardian_name :: "string option"
  cc_attempt_id :: string
  cc_hosted_room_invocation :: "HostedRoomInvocationMetadata option"
  cc_persona_selection_snapshot :: "PersonaSelectionSnapshot option"
  cc_accepted_at :: pyval
  cc_work_deadline_at :: pyval
  cc_terminal_deadline_at :: pyval

type_synonym to_float = "pyval \<Rightarrow> py_error + pyfloat"

text \<open>\<^verbatim>\<open>float(raw)\<close>, a value that is no number giving none; an overflow is raised.\<close>

definition coerce_temperature :: "to_float \<Rightarrow> pyval \<Rightarrow> py_error + pyfloat option" where
  "coerce_temperature to_float raw =
     (if raw = PNone then Inr None
      else (case to_float raw of Inr f \<Rightarrow> Inr (Some f) | Inl OverflowError \<Rightarrow> Inl OverflowError | Inl _ \<Rightarrow> Inr None))"

text \<open>\<^verbatim>\<open>__post_init__\<close> of the identifiers.\<close>

definition chat_init :: "fresh \<Rightarrow> ChatCompletionTask \<Rightarrow> ChatCompletionTask" where
  "chat_init fr t =
     t\<lparr>bt_request_id := fst (normalize_request_id (fr_request_id fr) (stripped_text (PStr (bt_request_id t)))),
       bt_task_id := (case normalize_optional_identifier (bt_task_id t) of Some i \<Rightarrow> i | None \<Rightarrow> fr_chat_task_id fr),
       cc_attempt_id := (case normalize_optional_identifier (cc_attempt_id t) of Some i \<Rightarrow> i | None \<Rightarrow> [])\<rparr>"

definition chat_from_dict :: "iso_parser \<Rightarrow> to_float \<Rightarrow> fresh \<Rightarrow> pydict \<Rightarrow> py_error + ChatCompletionTask" where
  "chat_from_dict fromiso to_float fr p =
     (case parse_accepted_chat_task_deadline fromiso p of Inl e \<Rightarrow> Inl e | Inr _ \<Rightarrow>
      (case coerce_task_text (get2 p ''user_id'' ''userId'') of None \<Rightarrow> Inl (ValueError ''ChatCompletionTask missing user_id'') | Some user_id \<Rightarrow>
      (case coerce_temperature to_float (dict_get p ''temperature'') of Inl e \<Rightarrow> Inl e | Inr temperature \<Rightarrow>
      (case py_int (py_or (dict_get p ''thread_id'') (PInt 0)) of Inl e \<Rightarrow> Inl e | Inr thread_id \<Rightarrow>
      (case coerce_optional_positive_int (dict_get p ''latest_turn_message_id'') of Inl e \<Rightarrow> Inl e | Inr message_id \<Rightarrow>
      (case (if dict_get p ''persona_selection_snapshot'' = PNone then Some None
             else map_option Some (persona_from_dict (dict_get p ''persona_selection_snapshot''))) of
         None \<Rightarrow> Inl (ValueError ''persona_selection_snapshot'')
       | Some persona \<Rightarrow>
         Inr (chat_init fr (base_task.extend (base_kwargs fr ''chat_completion'' p)
           \<lparr>cc_user_id = user_id, cc_thread_id = thread_id,
            cc_turn_id = coerce_task_text (if map_of p ''turn_id'' \<noteq> None then dict_get p ''turn_id'' else dict_get p ''turnId''),
            cc_latest_turn_message_id = message_id, cc_latest_turn_messages = coerce_structured_messages (dict_get p ''latest_turn_messages''),
            cc_model = dict_get p ''model'', cc_provider = dict_get p ''provider'', cc_temperature = temperature,
            cc_requested_model = dict_get p ''requested_model'', cc_requested_provider = dict_get p ''requested_provider'',
            cc_selection_source = dict_get p ''selection_source'', cc_provider_pinned = truthy (dict_get p ''provider_pinned''),
            cc_reasoning_mode = dict_get p ''reasoning_mode'', cc_tools = coerce_list_of_mappings (dict_get p ''tools''),
            cc_max_context = dict_get p ''max_context'', cc_depth_mode = dict_get p ''depth_mode'',
            cc_requested_source_mode = (if dict_get p ''requested_source_mode'' = PNone then None
              else Some (py_str (dict_get p ''requested_source_mode''))),
            cc_system_override = dict_get p ''system_override'', cc_retrieval_override = mapping_or_none (dict_get p ''retrieval_override''),
            cc_browser_context = mapping_or_none (dict_get p ''browser_context''),
            cc_preferred_name = coerce_task_text (dict_get p ''preferred_name''),
            cc_profession = coerce_task_text (dict_get p ''profession''),
            cc_guardian_name = coerce_task_text (dict_get p ''guardian_name''),
            cc_attempt_id = stripped_text (dict_get p ''attempt_id''),
            cc_hosted_room_invocation = coerce_hosted_room_invocation (dict_get p ''hosted_room_invocation''),
            cc_persona_selection_snapshot = persona, cc_accepted_at = dict_get p ''accepted_at'',
            cc_work_deadline_at = dict_get p ''work_deadline_at'', cc_terminal_deadline_at = dict_get p ''terminal_deadline_at''\<rparr>))))))))"

text \<open>\<^verbatim>\<open>asdict\<close> without the deadline fields of a task that has none; other deadlines are checked.\<close>

definition deadline_items :: "ChatCompletionTask \<Rightarrow> pydict" where
  "deadline_items t =
     [(''accepted_at'', cc_accepted_at t), (''work_deadline_at'', cc_work_deadline_at t), (''terminal_deadline_at'', cc_terminal_deadline_at t)]"

definition chat_fields :: "ChatCompletionTask \<Rightarrow> pydict" where
  "chat_fields t = base_dict t @
     [(''user_id'', PStr (cc_user_id t)), (''thread_id'', PInt (cc_thread_id t)), (''turn_id'', opt_str (cc_turn_id t)),
      (''latest_turn_message_id'', opt_int (cc_latest_turn_message_id t)),
      (''latest_turn_messages'', (case cc_latest_turn_messages t of None \<Rightarrow> PNone | Some ms \<Rightarrow> PList ms)), (''model'', cc_model t),
      (''provider'', cc_provider t), (''temperature'', (case cc_temperature t of None \<Rightarrow> PNone | Some f \<Rightarrow> PFloat f)),
      (''requested_model'', cc_requested_model t), (''requested_provider'', cc_requested_provider t),
      (''selection_source'', cc_selection_source t), (''provider_pinned'', PBool (cc_provider_pinned t)),
      (''reasoning_mode'', cc_reasoning_mode t),
      (''tools'', (case cc_tools t of None \<Rightarrow> PNone | Some ds \<Rightarrow> PList (map PDict ds))), (''max_context'', cc_max_context t),
      (''depth_mode'', cc_depth_mode t), (''requested_source_mode'', opt_str (cc_requested_source_mode t)),
      (''system_override'', cc_system_override t), (''retrieval_override'', opt_dict (cc_retrieval_override t)),
      (''browser_context'', opt_dict (cc_browser_context t)), (''preferred_name'', opt_str (cc_preferred_name t)),
      (''profession'', opt_str (cc_profession t)), (''guardian_name'', opt_str (cc_guardian_name t)),
      (''attempt_id'', PStr (cc_attempt_id t)),
      (''hosted_room_invocation'', opt_dict (map_option hosted_room_dict (cc_hosted_room_invocation t))),
      (''persona_selection_snapshot'', opt_dict (map_option persona_dict (cc_persona_selection_snapshot t)))]"

definition chat_to_dict :: "iso_parser \<Rightarrow> ChatCompletionTask \<Rightarrow> py_error + pydict" where
  "chat_to_dict fromiso t =
     (if \<forall>kv \<in> set (deadline_items t). snd kv = PNone then Inr (chat_fields t)
      else (case parse_accepted_chat_task_deadline fromiso (chat_fields t @ deadline_items t) of
              Inl e \<Rightarrow> Inl e | Inr _ \<Rightarrow> Inr (chat_fields t @ deadline_items t)))"

section \<open>The other tasks\<close>

text \<open>\<^verbatim>\<open>list(value)\<close> for a truthy value.\<close>

definition py_list :: "pyval \<Rightarrow> py_error + pyval list" where
  "py_list v =
     (case v of
        PList xs \<Rightarrow> Inr xs | PStr s \<Rightarrow> Inr (map (\<lambda>c. PStr [c]) s) | PDict d \<Rightarrow> Inr (map (\<lambda>kv. PStr (fst kv)) d) | _ \<Rightarrow> Inl TypeError)"

record WarmupTask = base_task +
  wu_models :: "pyval list"

definition warmup_from_dict :: "fresh \<Rightarrow> pydict \<Rightarrow> py_error + WarmupTask" where
  "warmup_from_dict fr p =
     (case py_list (py_or (dict_get p ''models'') (PList [])) of
        Inl e \<Rightarrow> Inl e
      | Inr models \<Rightarrow> Inr (base_task.extend (base_init (base_kwargs fr ''warmup'' p)) \<lparr>wu_models = models\<rparr>))"

definition warmup_to_dict :: "WarmupTask \<Rightarrow> pydict" where
  "warmup_to_dict t = base_dict t @ [(''models'', PList (wu_models t))]"

record EvalTask = base_task +
  ev_thread_id :: int
  ev_trace_snapshot_id :: string
  ev_evaluator_kind :: string
  ev_evaluator_name :: string

definition eval_from_dict :: "fresh \<Rightarrow> pydict \<Rightarrow> py_error + EvalTask" where
  "eval_from_dict fr p =
     (case py_int (py_or (dict_get p ''thread_id'') (PInt 0)) of
        Inl e \<Rightarrow> Inl e
      | Inr thread_id \<Rightarrow>
        Inr (base_task.extend (base_init (base_kwargs fr ''eval.trace'' p))
          \<lparr>ev_thread_id = thread_id, ev_trace_snapshot_id = stripped_text (get2 p ''trace_snapshot_id'' ''traceSnapshotId''),
           ev_evaluator_kind = (let k = normalize_executor_id (get2 p ''evaluator_kind'' ''evaluatorKind'') in if k = [] then ''code'' else k),
           ev_evaluator_name = strip (text_or (get2 p ''evaluator_name'' ''evaluatorName'') ''groundedness_basic'')\<rparr>))"

definition eval_to_dict :: "EvalTask \<Rightarrow> pydict" where
  "eval_to_dict t = base_dict t @
     [(''thread_id'', PInt (ev_thread_id t)), (''trace_snapshot_id'', PStr (ev_trace_snapshot_id t)),
      (''evaluator_kind'', PStr (ev_evaluator_kind t)), (''evaluator_name'', PStr (ev_evaluator_name t))]"

record VoiceTurnTask = base_task +
  vt_thread_id :: int
  vt_audio_b64 :: string
  vt_tts_enabled :: bool
  vt_options :: pydict

text \<open>The fields that are taken over as they are.\<close>

definition VOICE_OPTIONS :: "string list" where
  "VOICE_OPTIONS =
     [''audio_mime'', ''stt_provider'', ''tts_provider'', ''voice'', ''output_format'', ''completion_provider'', ''completion_model'',
      ''max_context'', ''depth_mode'', ''system_override'', ''turn_id'', ''turn_lock_owner'']"

definition voice_from_dict :: "fresh \<Rightarrow> pydict \<Rightarrow> py_error + VoiceTurnTask" where
  "voice_from_dict fr p =
     (case py_int (py_or (dict_get p ''thread_id'') (PInt 0)) of
        Inl e \<Rightarrow> Inl e
      | Inr thread_id \<Rightarrow>
        Inr (base_task.extend (base_init (base_kwargs fr ''voice_turn'' p))
          \<lparr>vt_thread_id = thread_id, vt_audio_b64 = str_or_empty (dict_get p ''audio_b64''),
           vt_tts_enabled = truthy (get_default p ''tts_enabled'' (PBool True)),
           vt_options = map (\<lambda>k. (k, dict_get p k)) VOICE_OPTIONS\<rparr>))"

definition voice_to_dict :: "VoiceTurnTask \<Rightarrow> pydict" where
  "voice_to_dict t = base_dict t @
     [(''thread_id'', PInt (vt_thread_id t)), (''audio_b64'', PStr (vt_audio_b64 t))] @ take 2 (vt_options t) @
     [(''tts_enabled'', PBool (vt_tts_enabled t))] @ drop 2 (vt_options t)"

record CronExecutionTask = base_task +
  cx_cron_run_id :: int
  cx_cron_job_id :: int
  cx_job_type :: string
  cx_payload :: pydict

text \<open>\<^verbatim>\<open>dict(value)\<close> of a value that is no dictionary is an argument.\<close>

type_synonym to_dict = "pyval \<Rightarrow> py_error + pydict"

definition py_dict :: "to_dict \<Rightarrow> pyval \<Rightarrow> py_error + pydict" where
  "py_dict dict_of v = (case v of PDict d \<Rightarrow> Inr d | _ \<Rightarrow> dict_of v)"

definition cron_from_dict :: "to_dict \<Rightarrow> fresh \<Rightarrow> pydict \<Rightarrow> py_error + CronExecutionTask" where
  "cron_from_dict dict_of fr p =
     (case py_int (py_or (dict_get p ''cron_run_id'') (PInt 0)) of Inl e \<Rightarrow> Inl e | Inr run_id \<Rightarrow>
      (case py_int (py_or (dict_get p ''cron_job_id'') (PInt 0)) of Inl e \<Rightarrow> Inl e | Inr job_id \<Rightarrow>
      (case py_dict dict_of (py_or (dict_get p ''payload'') (PDict [])) of Inl e \<Rightarrow> Inl e | Inr payload \<Rightarrow>
        Inr (base_task.extend (base_init (base_kwargs fr ''cron.execute'' p))
          \<lparr>cx_cron_run_id = run_id, cx_cron_job_id = job_id, cx_job_type = lower (strip (text_or (dict_get p ''job_type'') ''noop'')),
           cx_payload = payload\<rparr>))))"

definition cron_to_dict :: "CronExecutionTask \<Rightarrow> pydict" where
  "cron_to_dict t = base_dict t @
     [(''cron_run_id'', PInt (cx_cron_run_id t)), (''cron_job_id'', PInt (cx_cron_job_id t)), (''job_type'', PStr (cx_job_type t)),
      (''payload'', PDict (cx_payload t))]"

record DelegationTask = base_task +
  dg_packet_id :: string
  dg_delegation_id :: string
  dg_thread_id :: "int option"
  dg_source_message_id :: "int option"
  dg_conversation_id :: "string option"
  dg_project_id :: "int option"
  dg_repo_path :: string
  dg_executor :: string
  dg_task_prompt :: string
  dg_tags :: "string list"
  dg_context :: pydict
  dg_status :: string

definition context_of :: "pydict \<Rightarrow> pydict" where
  "context_of p = coerce_task_mapping (py_or (py_or (dict_get p ''context'') (dict_get p ''thread_context'')) (dict_get p ''conversation_context''))"

definition delegation_from_dict :: "fresh \<Rightarrow> pydict \<Rightarrow> py_error + DelegationTask" where
  "delegation_from_dict fr p =
     (case coerce_optional_positive_int (dict_get p ''thread_id'') of Inl e \<Rightarrow> Inl e | Inr thread_id \<Rightarrow>
      (case coerce_optional_positive_int (get2 p ''source_message_id'' ''sourceMessageId'') of Inl e \<Rightarrow> Inl e | Inr message_id \<Rightarrow>
      (case coerce_optional_positive_int (dict_get p ''project_id'') of Inl e \<Rightarrow> Inl e | Inr project_id \<Rightarrow>
        Inr (base_task.extend (base_init (base_kwargs fr ''delegation.task'' p))
          \<lparr>dg_packet_id = stripped_text (dict_get p ''packet_id''), dg_delegation_id = stripped_text (dict_get p ''delegation_id''),
           dg_thread_id = thread_id, dg_source_message_id = message_id, dg_conversation_id = coerce_task_text (dict_get p ''conversation_id''),
           dg_project_id = project_id, dg_repo_path = stripped_text (dict_get p ''repo_path''),
           dg_executor = stripped_text (dict_get p ''executor''), dg_task_prompt = stripped_text (get2 p ''task_prompt'' ''user_intent''),
           dg_tags = coerce_deduped_task_texts (dict_get p ''tags''), dg_context = context_of p,
           dg_status = status_text (dict_get p ''status'') ''queued''\<rparr>))))"

definition delegation_to_dict :: "DelegationTask \<Rightarrow> pydict" where
  "delegation_to_dict t = base_dict t @
     [(''packet_id'', PStr (dg_packet_id t)), (''delegation_id'', PStr (dg_delegation_id t)), (''thread_id'', opt_int (dg_thread_id t)),
      (''source_message_id'', opt_int (dg_source_message_id t)), (''conversation_id'', opt_str (dg_conversation_id t)),
      (''project_id'', opt_int (dg_project_id t)), (''repo_path'', PStr (dg_repo_path t)), (''executor'', PStr (dg_executor t)),
      (''task_prompt'', PStr (dg_task_prompt t)), (''tags'', str_list (dg_tags t)), (''context'', PDict (dg_context t)),
      (''status'', PStr (dg_status t))]"

record CodingExecutionTask = base_task +
  ce_run_id :: string
  ce_deployment_id :: string
  ce_instructions :: string
  ce_cwd :: "string option"
  ce_repo_root :: "string option"
  ce_timeout_seconds :: int
  ce_coding_task_id :: string
  ce_attempt_id :: string
  ce_execution_binding :: "pydict option"
  ce_campaign_id :: "string option"
  ce_work_order_id :: "string option"
  ce_thread_id :: "int option"
  ce_source_message_id :: pyval
  ce_validation_command :: "string option"
  ce_max_validation_attempts :: int
  ce_permission_policy :: "pydict option"
  ce_worktree_lease_id :: "string option"
  ce_require_worktree_lease :: bool
  ce_commit_after_validation :: bool
  ce_commit_message :: "string option"
  ce_require_human_review_before_merge :: bool

definition coding_from_dict :: "fresh \<Rightarrow> pydict \<Rightarrow> py_error + CodingExecutionTask" where
  "coding_from_dict fr p =
     (case py_int (py_or (dict_get p ''timeout_seconds'') (PInt 300)) of Inl e \<Rightarrow> Inl e | Inr timeout \<Rightarrow>
      (case coerce_optional_positive_int (dict_get p ''thread_id'') of Inl e \<Rightarrow> Inl e | Inr thread_id \<Rightarrow>
      (case coerce_optional_identifier (get2 p ''source_message_id'' ''sourceMessageId'') of Inl e \<Rightarrow> Inl e | Inr message_id \<Rightarrow>
      (case coerce_bounded_positive_int (get2 p ''max_validation_attempts'' ''maxValidationAttempts'') of Inl e \<Rightarrow> Inl e | Inr attempts \<Rightarrow>
        Inr (base_task.extend (base_init (base_kwargs fr ''coding_execution'' p))
          \<lparr>ce_run_id = stripped_text (dict_get p ''run_id''), ce_deployment_id = stripped_text (dict_get p ''deployment_id''),
           ce_instructions = stripped_text (get2 p ''instructions'' ''task_prompt''), ce_cwd = coerce_task_text (dict_get p ''cwd''),
           ce_repo_root = coerce_task_text (get2 p ''repo_root'' ''repoRoot''), ce_timeout_seconds = timeout,
           ce_coding_task_id = stripped_text (dict_get p ''coding_task_id''), ce_attempt_id = stripped_text (dict_get p ''attempt_id''),
           ce_execution_binding = mapping_or_none (get2 p ''execution_binding'' ''executionBinding''),
           ce_campaign_id = coerce_task_text (get2 p ''campaign_id'' ''campaignId''),
           ce_work_order_id = coerce_task_text (get2 p ''work_order_id'' ''workOrderId''), ce_thread_id = thread_id,
           ce_source_message_id = message_id,
           ce_validation_command = coerce_task_text (get2 p ''validation_command'' ''validationCommand''),
           ce_max_validation_attempts = attempts, ce_permission_policy = mapping_or_none (get2 p ''permission_policy'' ''permissionPolicy''),
           ce_worktree_lease_id = coerce_task_text (get2 p ''worktree_lease_id'' ''worktreeLeaseId''),
           ce_require_worktree_lease = truthy (get2 p ''require_worktree_lease'' ''requireWorktreeLease''),
           ce_commit_after_validation = truthy (get2 p ''commit_after_validation'' ''commitAfterValidation''),
           ce_commit_message = coerce_task_text (get2 p ''commit_message'' ''commitMessage''),
           ce_require_human_review_before_merge =
             truthy (if dict_get p ''require_human_review_before_merge'' \<noteq> PNone then dict_get p ''require_human_review_before_merge''
               else get_default p ''requireHumanReviewBeforeMerge'' (PBool True))\<rparr>)))))"

definition coding_to_dict :: "CodingExecutionTask \<Rightarrow> pydict" where
  "coding_to_dict t = base_dict t @
     [(''run_id'', PStr (ce_run_id t)), (''deployment_id'', PStr (ce_deployment_id t)), (''instructions'', PStr (ce_instructions t)),
      (''cwd'', opt_str (ce_cwd t)), (''repo_root'', opt_str (ce_repo_root t)), (''timeout_seconds'', PInt (ce_timeout_seconds t)),
      (''coding_task_id'', PStr (ce_coding_task_id t)), (''attempt_id'', PStr (ce_attempt_id t)),
      (''execution_binding'', opt_dict (ce_execution_binding t)), (''campaign_id'', opt_str (ce_campaign_id t)),
      (''work_order_id'', opt_str (ce_work_order_id t)), (''thread_id'', opt_int (ce_thread_id t)),
      (''source_message_id'', ce_source_message_id t), (''validation_command'', opt_str (ce_validation_command t)),
      (''max_validation_attempts'', PInt (ce_max_validation_attempts t)), (''permission_policy'', opt_dict (ce_permission_policy t)),
      (''worktree_lease_id'', opt_str (ce_worktree_lease_id t)), (''require_worktree_lease'', PBool (ce_require_worktree_lease t)),
      (''commit_after_validation'', PBool (ce_commit_after_validation t)), (''commit_message'', opt_str (ce_commit_message t)),
      (''require_human_review_before_merge'', PBool (ce_require_human_review_before_merge t))]"

section \<open>The registry\<close>

datatype any_task = WarmupT WarmupTask | ChatT ChatCompletionTask | EvalT EvalTask | VoiceT VoiceTurnTask | CronT CronExecutionTask
  | DelegationT DelegationTask | CodingT CodingExecutionTask

record task_env =
  ev_iso :: iso_parser
  ev_float :: to_float
  ev_dict :: to_dict

definition task_from_dict :: "task_env \<Rightarrow> fresh \<Rightarrow> pydict \<Rightarrow> py_error + any_task" where
  "task_from_dict env fr p =
     (let task_type = stripped_text (dict_get p ''type'') in
      if task_type = ''warmup'' then map_sum id WarmupT (warmup_from_dict fr p)
      else if task_type = ''chat_completion'' then map_sum id ChatT (chat_from_dict (ev_iso env) (ev_float env) fr p)
      else if task_type = ''eval.trace'' then map_sum id EvalT (eval_from_dict fr p)
      else if task_type = ''voice_turn'' then map_sum id VoiceT (voice_from_dict fr p)
      else if task_type = ''cron.execute'' then map_sum id CronT (cron_from_dict (ev_dict env) fr p)
      else if task_type = ''delegation.task'' then map_sum id DelegationT (delegation_from_dict fr p)
      else if task_type = ''coding.execute'' \<or> task_type = ''coding_execution'' then map_sum id CodingT (coding_from_dict fr p)
      else Inl (ValueError (''Unknown task type: '' @ (if task_type = [] then ''<missing>'' else task_type))))"

fun task_to_dict :: "task_env \<Rightarrow> any_task \<Rightarrow> py_error + pydict" where
  "task_to_dict env (WarmupT t) = Inr (warmup_to_dict t)"
| "task_to_dict env (ChatT t) = chat_to_dict (ev_iso env) t"
| "task_to_dict env (EvalT t) = Inr (eval_to_dict t)"
| "task_to_dict env (VoiceT t) = Inr (voice_to_dict t)"
| "task_to_dict env (CronT t) = Inr (cron_to_dict t)"
| "task_to_dict env (DelegationT t) = Inr (delegation_to_dict t)"
| "task_to_dict env (CodingT t) = Inr (coding_to_dict t)"

section \<open>Coercing again\<close>

named_theorems again "a coercion applied to what it gave"

lemma truthy_simps [simp]: "truthy (opt_int x) = (case x of None \<Rightarrow> False | Some i \<Rightarrow> i \<noteq> 0)"
  "truthy (opt_str y) = (case y of None \<Rightarrow> False | Some s \<Rightarrow> s \<noteq> [])" "truthy (opt_dict z) = (case z of None \<Rightarrow> False | Some d \<Rightarrow> d \<noteq> [])"
  by (simp_all add: opt_int_def opt_str_def opt_dict_def split: option.splits)

lemma stripped_text_PStr [simp]: "stripped_text (PStr s) = strip s"
  by (simp add: stripped_text_def)

lemma stripped_again [again]: "strip (stripped_text v) = stripped_text v" "stripped_text (py_or a PNone) = stripped_text a"
  by (simp_all add: stripped_text_def py_or_def str_or_empty_def)

lemma strip_text_or [again]: "strip (text_or (PStr x) d) = (if x = [] then strip d else strip x)"
  by (simp add: text_or_def py_str_def)

lemma text_option_again [again]:
  "coerce_task_text (opt_str (coerce_task_text v)) = coerce_task_text v" "coerce_task_text (py_or a PNone) = coerce_task_text a"
  by (simp_all add: coerce_task_text_def opt_str_def py_or_def or_none_def str_or_empty_def py_str_def)

lemma positive_int_again [again]:
  "coerce_optional_positive_int raw = Inr x \<Longrightarrow> coerce_optional_positive_int (opt_int x) = Inr x"
  "coerce_optional_positive_int (py_or (opt_int x) PNone) = coerce_optional_positive_int (opt_int x)"
  by (auto simp: coerce_optional_positive_int_def opt_int_def py_or_def split: sum.splits py_error.splits option.splits if_splits)

lemma bounded_int_again [again]:
  assumes "coerce_bounded_positive_int raw = Inr n"
  shows "coerce_bounded_positive_int (py_or (PInt n) PNone) = Inr n"
proof -
  have "1 \<le> n" "n \<le> 3" using assms by (auto simp: coerce_bounded_positive_int_def split: sum.splits option.splits)
  then show ?thesis by (simp add: coerce_bounded_positive_int_def coerce_optional_positive_int_def py_or_def)
qed

lemma mapping_again [again]:
  "mapping_or_none (opt_dict (mapping_or_none v)) = mapping_or_none v" "mapping_or_none (py_or a PNone) = mapping_or_none a"
  by (auto simp: mapping_or_none_def opt_dict_def coerce_task_mapping_def py_or_def split: pyval.splits)

lemma structured_again [again]:
  "coerce_structured_messages (case coerce_structured_messages v of None \<Rightarrow> PNone | Some ms \<Rightarrow> PList ms) = coerce_structured_messages v"
  by (auto simp: coerce_structured_messages_def split: pyval.splits)

lemma mappings_map [simp]: "mappings (map PDict ds) = ds"
  by (induction ds) simp_all

lemma list_of_mappings_again [again]:
  "coerce_list_of_mappings (case coerce_list_of_mappings v of None \<Rightarrow> PNone | Some ds \<Rightarrow> PList (map PDict ds)) = coerce_list_of_mappings v"
  by (auto simp: coerce_list_of_mappings_def split: pyval.splits)

lemma lower_Nil [simp]: "lower s = [] \<longleftrightarrow> s = []"
  by (simp add: lower_def)

lemma char_nat_less: "(of_char c :: nat) < 256"
  using of_char_of [where ?'a = nat, of "of_char c"] by (metis mod_less_divisor of_char_mod_256 zero_less_numeral)

lemma lower_char_nat:
  "(of_char (lower_char c) :: nat) = (let n = of_char c in if (65 \<le> n \<and> n \<le> 90) \<or> (192 \<le> n \<and> n \<le> 222 \<and> n \<noteq> 215) then n + 32 else n)"
  by (auto simp: lower_char_def Let_def)

lemma lower_char_idem [simp]: "lower_char (lower_char c) = lower_char c"
  by (subst lower_char_def) (auto simp: Let_def lower_char_nat)

lemma lower_lower [simp]: "lower (lower s) = lower s"
  by (simp add: lower_def)

lemma lower_char_space [simp]: "py_isspace (lower_char c) = py_isspace c"
  by (auto simp: py_isspace_def Let_def lower_char_nat)

lemma strip_lower: "strip (lower s) = lower (strip s)"
  by (simp add: strip_def lower_def dropWhile_map o_def rev_map)

lemma strip_ends: "strip s \<noteq> [] \<Longrightarrow> \<not> py_isspace (hd (strip s)) \<and> \<not> py_isspace (last (strip s))"
proof -
  assume ne: "strip s \<noteq> []"
  then have "dropWhile py_isspace (rev (dropWhile py_isspace s)) \<noteq> []" by (simp add: strip_def)
  then have "\<not> py_isspace (last (strip s))" unfolding strip_def last_rev by (rule hd_dropWhile)
  moreover have "\<not> py_isspace (hd (strip s))"
  proof -
    let ?d = "dropWhile py_isspace s"
    have "?d = [] \<Longrightarrow> strip s = []" unfolding strip_def by (simp only: rev.simps dropWhile.simps)
    then have "?d \<noteq> []" using ne by blast
    then have h: "\<not> py_isspace (hd ?d)" by (rule hd_dropWhile)
    have "rev ?d = takeWhile py_isspace (rev ?d) @ rev (strip s)" by (simp add: strip_def)
    then have "?d = strip s @ rev (takeWhile py_isspace (rev ?d))" by (metis rev_append rev_rev_ident)
    then have "hd (strip s) = hd ?d" using ne by (metis hd_append2)
    with h show ?thesis by simp
  qed
  ultimately show ?thesis by simp
qed

lemma dropWhile_id: "xs \<noteq> [] \<Longrightarrow> \<not> P (hd xs) \<Longrightarrow> dropWhile P xs = xs"
  by (cases xs) simp_all

lemma strip_id: "s = [] \<or> (\<not> py_isspace (hd s) \<and> \<not> py_isspace (last s)) \<Longrightarrow> strip s = s"
  using dropWhile_id [of s py_isspace] dropWhile_id [of "rev s" py_isspace] by (cases "s = []") (simp_all add: strip_def hd_rev)

lemma status_again [again]: "d \<noteq> [] \<Longrightarrow> strip d = d \<Longrightarrow> lower d = d \<Longrightarrow> status_text (PStr (status_text v d)) d = status_text v d"
  by (simp add: status_text_def Let_def strip_lower)

lemma executor_again [again]:
  "normalize_executor_id (PStr (normalize_executor_id v)) = normalize_executor_id v" "normalize_executor_id (py_or a PNone) = normalize_executor_id a"
proof -
  show "normalize_executor_id (py_or a PNone) = normalize_executor_id a" by (simp add: normalize_executor_id_def again)
  show "normalize_executor_id (PStr (normalize_executor_id v)) = normalize_executor_id v"
  proof (cases "coerce_task_text v")
    case (Some x)
    then have x: "x \<noteq> []" "strip x = x" by (auto simp: coerce_task_text_def)
    let ?k = "map underscore (lower x)"
    have us: "\<not> py_isspace c \<Longrightarrow> \<not> py_isspace (underscore c)" for c by (simp add: underscore_def py_isspace_def)
    have "lower x \<noteq> []" "strip (lower x) = lower x" using x by (simp_all add: strip_lower)
    then have "\<not> py_isspace (hd (lower x))" "\<not> py_isspace (last (lower x))" using strip_ends [of "lower x"] by simp_all
    then have "strip ?k = ?k" using us \<open>lower x \<noteq> []\<close> by (intro strip_id) (simp add: hd_map last_map)
    moreover have "map underscore (lower ?k) = ?k"
    proof -
      have "underscore (lower_char (underscore (lower_char c))) = underscore (lower_char c)" for c
        by (simp add: underscore_def) (auto simp: lower_char_def Let_def)
      then show ?thesis by (simp add: lower_def)
    qed
    ultimately show ?thesis using Some \<open>lower x \<noteq> []\<close>
      by (simp add: normalize_executor_id_def coerce_task_text_def str_or_empty_def py_str_def or_none_def)
  qed (simp add: normalize_executor_id_def coerce_task_text_def str_or_empty_def or_none_def)
qed

lemma text_list_again: "coerce_text_list (str_list xs) = filter (\<lambda>s. s \<noteq> []) (map strip xs)"
  by (simp add: coerce_text_list_def str_list_def py_str_def o_def)

lemma text_list_stripped: "x \<in> set (coerce_text_list v) \<Longrightarrow> strip x = x \<and> x \<noteq> []"
  by (auto simp: coerce_text_list_def Let_def split: pyval.splits if_splits)

lemma dedupe_set: "set (dedupe acc xs) = set acc \<union> set xs"
  by (induction acc xs rule: dedupe.induct) auto

lemma dedupe_distinct: "distinct acc \<Longrightarrow> distinct (dedupe acc xs)"
  by (induction acc xs rule: dedupe.induct) auto

lemma dedupe_same: "distinct (acc @ xs) \<Longrightarrow> dedupe acc xs = acc @ xs"
  by (induction acc xs rule: dedupe.induct) auto

lemma deduped_again [again]: "coerce_deduped_task_texts (str_list (coerce_deduped_task_texts v)) = coerce_deduped_task_texts v"
proof -
  let ?xs = "coerce_deduped_task_texts v"
  have "\<forall>x \<in> set ?xs. strip x = x \<and> x \<noteq> []" using text_list_stripped by (auto simp: coerce_deduped_task_texts_def dedupe_set)
  then have "coerce_text_list (str_list ?xs) = ?xs" by (simp add: text_list_again map_idI)
  moreover have "distinct ?xs" by (simp add: coerce_deduped_task_texts_def dedupe_distinct)
  ultimately show ?thesis by (simp add: coerce_deduped_task_texts_def [of "str_list ?xs"] dedupe_same)
qed

lemma identifier_again [again]:
  assumes "coerce_optional_identifier raw = Inr v" "v \<noteq> PInt 0"
  shows "coerce_optional_identifier (py_or v PNone) = Inr v"
proof -
  have "v = PNone \<or> (\<exists>i. v = PInt i) \<or> (\<exists>s. v = PStr s \<and> strip s = s \<and> s \<noteq> [] \<and> \<not> py_isdigit s)"
    using assms(1) by (auto simp: coerce_optional_identifier_def Let_def split: pyval.splits if_splits sum.splits)
  then show ?thesis using assms(2) by (auto simp: coerce_optional_identifier_def py_or_def py_str_def)
qed

section \<open>Tasks through the queue\<close>

text \<open>What a task needs besides: identifiers and times that are there, and no field that decodes to a default again.\<close>

definition stable_base :: "'a base_task_scheme \<Rightarrow> bool" where
  "stable_base t = (bt_task_id t \<noteq> [] \<and> bt_created_at t \<noteq> [] \<and> bt_origin t \<noteq> [])"

fun stable_task :: "task_env \<Rightarrow> any_task \<Rightarrow> bool" where
  "stable_task env (ChatT t) = (stable_base t \<and> is_safe_identifier (bt_task_id t) \<and> is_safe_identifier (bt_request_id t) \<and>
     (case cc_temperature t of None \<Rightarrow> True | Some f \<Rightarrow> ev_float env (PFloat f) = Inr f))"
| "stable_task env (EvalT t) = (stable_base t \<and> ev_evaluator_name t \<noteq> [])"
| "stable_task env (CronT t) = (stable_base t \<and> cx_job_type t \<noteq> [])"
| "stable_task env (CodingT t) = (stable_base t \<and> ce_timeout_seconds t \<noteq> 0 \<and> ce_source_message_id t \<noteq> PInt 0)"
| "stable_task env (WarmupT t) = stable_base t"
| "stable_task env (VoiceT t) = stable_base t"
| "stable_task env (DelegationT t) = stable_base t"

lemma dict_get_Cons [simp]: "dict_get ((k, v) # d) k' = (if k' = k then v else dict_get d k')" "dict_get [] k' = PNone"
  by (simp_all add: dict_get_def)

lemma text_or_PStr [again]: "text_or (PStr x) d = (if x = [] then d else x)" "text_or (py_or (PStr x) PNone) d = (if x = [] then d else x)"
  by (simp_all add: text_or_def py_str_def py_or_def)

lemma request_id_again [again]: "str_or_empty (py_or (PStr x) PNone) = x"
  by (simp add: py_or_def str_or_empty_def py_str_def)

text \<open>The type a decoder stores is the one it was chosen by.\<close>

lemma type_again [again]:
  "strip ty = ty \<Longrightarrow> ty \<noteq> [] \<Longrightarrow>
     strip (case v of PStr s \<Rightarrow> if strip s = [] then ty else strip s | _ \<Rightarrow> ty) = (case v of PStr s \<Rightarrow> if strip s = [] then ty else strip s | _ \<Rightarrow> ty)"
  by (simp split: pyval.splits)

lemma class_types [simp]: "strip ''warmup'' = ''warmup''" "strip ''chat_completion'' = ''chat_completion''" "strip ''eval.trace'' = ''eval.trace''"
  "strip ''voice_turn'' = ''voice_turn''" "strip ''cron.execute'' = ''cron.execute''" "strip ''delegation.task'' = ''delegation.task''"
  "strip ''coding_execution'' = ''coding_execution''" "strip ''coding.execute'' = ''coding.execute''"
  by code_simp+

lemma type_not_empty [simp]: "ty \<noteq> [] \<Longrightarrow> (case v of PStr s \<Rightarrow> if strip s = [] then ty else strip s | _ \<Rightarrow> ty) \<noteq> []"
  by (simp split: pyval.splits)

lemmas base_defs = base_dict_def base_task.defs base_init_def base_kwargs_def get2_def stable_base_def

lemma code_executor [simp]: "normalize_executor_id (PStr ''code'') = ''code''"
  by code_simp

text \<open>The form of decoded fields, in which coercing them again changes nothing.\<close>

definition canonical_base :: "'a base_task_scheme \<Rightarrow> bool" where
  "canonical_base t = (strip (bt_type t) = bt_type t \<and> bt_type t \<noteq> [] \<and> strip (bt_request_id t) = bt_request_id t)"

definition plain_text :: "string \<Rightarrow> bool" where
  "plain_text s = (strip s = s)"

definition text_option :: "string option \<Rightarrow> bool" where
  "text_option x = (case x of None \<Rightarrow> True | Some s \<Rightarrow> strip s = s \<and> s \<noteq> [])"

definition positive_option :: "int option \<Rightarrow> bool" where
  "positive_option x = (case x of None \<Rightarrow> True | Some i \<Rightarrow> 0 < i)"

definition mapping_option :: "pydict option \<Rightarrow> bool" where
  "mapping_option x = (x \<noteq> Some [])"

lemma plain_texts [simp]: "plain_text (stripped_text v)" "plain_text (strip s)" "plain_text []"
  by (simp_all add: plain_text_def stripped_text_def)

lemma optional_texts [simp]: "text_option (coerce_task_text v)" "text_option None"
  by (auto simp: text_option_def coerce_task_text_def split: option.splits)

lemma positive_options: "coerce_optional_positive_int v = Inr x \<Longrightarrow> positive_option x"
  by (auto simp: positive_option_def coerce_optional_positive_int_def split: sum.splits py_error.splits option.splits if_splits)

lemma mapping_options [simp]: "mapping_option (mapping_or_none v)"
  by (simp add: mapping_option_def mapping_or_none_def)

lemma plain_strip [simp]: "plain_text s \<Longrightarrow> strip s = s"
  by (simp add: plain_text_def)

lemma decode_text [simp]: "plain_text s \<Longrightarrow> stripped_text (PStr s) = s" "plain_text s \<Longrightarrow> stripped_text (py_or (PStr s) PNone) = s"
  by (simp_all add: plain_text_def again)

lemma decode_optional [simp]: "text_option x \<Longrightarrow> coerce_task_text (opt_str x) = x" "text_option x \<Longrightarrow> coerce_task_text (py_or (opt_str x) PNone) = x"
  by (auto simp: text_option_def py_or_def coerce_task_text_def opt_str_def str_or_empty_def py_str_def or_none_def split: option.splits)

lemma decode_positive [simp]: "positive_option x \<Longrightarrow> coerce_optional_positive_int (opt_int x) = Inr x"
  "positive_option x \<Longrightarrow> coerce_optional_positive_int (py_or (opt_int x) PNone) = Inr x"
  by (auto simp: positive_option_def py_or_def coerce_optional_positive_int_def opt_int_def split: option.splits)

lemma decode_mapping [simp]: "mapping_option x \<Longrightarrow> mapping_or_none (opt_dict x) = x" "mapping_option x \<Longrightarrow> mapping_or_none (py_or (opt_dict x) PNone) = x"
  by (auto simp: mapping_option_def py_or_def mapping_or_none_def coerce_task_mapping_def opt_dict_def split: option.splits)

lemma decode_number [simp]: "py_int (py_or (PInt i) (PInt 0)) = Inr i" "i \<noteq> 0 \<Longrightarrow> py_int (py_or (PInt i) (PInt 300)) = Inr i"
  by (simp_all add: py_or_def)

lemma decode_flag [simp]: "truthy (py_or (PBool b) PNone) = b"
  by (simp add: py_or_def)

lemma kwargs_canonical [simp]:
  "ty \<noteq> [] \<Longrightarrow> strip ty = ty \<Longrightarrow> strip (bt_type (base_init (base_kwargs fr ty p))) = bt_type (base_init (base_kwargs fr ty p))"
  "ty \<noteq> [] \<Longrightarrow> bt_type (base_init (base_kwargs fr ty p)) \<noteq> []"
  "strip (bt_request_id (base_init (base_kwargs fr ty p))) = bt_request_id (base_init (base_kwargs fr ty p))"
  by (simp_all add: base_init_def base_kwargs_def again stripped_text_def)

lemma decode_base:
  assumes "canonical_base t" "stable_base t" "map_of rest ''requestId'' = None"
  shows "base_init (base_kwargs fr ty (base_dict t @ rest)) = base_task.truncate t"
  using assms by (simp add: base_defs canonical_base_def again dict_get_def stripped_text_def base_task.defs)

lemma dict_get_base [simp]:
  "k \<notin> {''task_id'', ''request_id'', ''type'', ''created_at'', ''origin''} \<Longrightarrow> dict_get (base_dict t @ rest) k = dict_get rest k"
  "k \<notin> {''task_id'', ''request_id'', ''type'', ''created_at'', ''origin''} \<Longrightarrow> map_of (base_dict t @ rest) k = map_of rest k"
  by (auto simp: base_dict_def dict_get_def)

lemma get_default_base [simp]:
  "k \<notin> {''task_id'', ''request_id'', ''type'', ''created_at'', ''origin''} \<Longrightarrow> get_default (base_dict t @ rest) k d = get_default rest k d"
  "get_default ((k1, v) # e) k d = (if k = k1 then v else get_default e k d)" "get_default [] k d = d"
  by (auto simp: base_dict_def get_default_def)

definition canonical_eval :: "EvalTask \<Rightarrow> bool" where
  "canonical_eval t = (canonical_base t \<and> plain_text (ev_trace_snapshot_id t) \<and> normalize_executor_id (PStr (ev_evaluator_kind t)) = ev_evaluator_kind t \<and>
     ev_evaluator_kind t \<noteq> [] \<and> plain_text (ev_evaluator_name t))"

lemmas decoded_defs = canonical_base_def base_task.defs

lemma eval_decoded: "eval_from_dict fr p = Inr t \<Longrightarrow> canonical_eval t"
  by (auto simp: eval_from_dict_def canonical_eval_def decoded_defs again Let_def split: sum.splits if_splits)

lemma rebuild [simp]:
  "base_task.extend (base_task.truncate e) \<lparr>ev_thread_id = ev_thread_id e, ev_trace_snapshot_id = ev_trace_snapshot_id e,
     ev_evaluator_kind = ev_evaluator_kind e, ev_evaluator_name = ev_evaluator_name e\<rparr> = e"
  "base_task.extend (base_task.truncate w) \<lparr>wu_models = wu_models w\<rparr> = w"
  "base_task.extend (base_task.truncate v) \<lparr>vt_thread_id = vt_thread_id v, vt_audio_b64 = vt_audio_b64 v, vt_tts_enabled = vt_tts_enabled v,
     vt_options = vt_options v\<rparr> = v"
  "base_task.extend (base_task.truncate c) \<lparr>cx_cron_run_id = cx_cron_run_id c, cx_cron_job_id = cx_cron_job_id c, cx_job_type = cx_job_type c,
     cx_payload = cx_payload c\<rparr> = c"
  "base_task.extend (base_task.truncate d) \<lparr>dg_packet_id = dg_packet_id d, dg_delegation_id = dg_delegation_id d, dg_thread_id = dg_thread_id d,
     dg_source_message_id = dg_source_message_id d, dg_conversation_id = dg_conversation_id d, dg_project_id = dg_project_id d,
     dg_repo_path = dg_repo_path d, dg_executor = dg_executor d, dg_task_prompt = dg_task_prompt d, dg_tags = dg_tags d,
     dg_context = dg_context d, dg_status = dg_status d\<rparr> = d"
  by (simp_all add: base_task.defs)

lemma eval_again:
  assumes "canonical_eval t" "stable_base t" "ev_evaluator_name t \<noteq> []"
  shows "eval_from_dict fr (eval_to_dict t) = Inr t"
  using assms by (simp add: eval_from_dict_def eval_to_dict_def canonical_eval_def decode_base get2_def again plain_text_def Let_def)

lemma warmup_decoded: "warmup_from_dict fr p = Inr t \<Longrightarrow> canonical_base t"
  by (auto simp: warmup_from_dict_def decoded_defs split: sum.splits)

lemma warmup_again:
  assumes "canonical_base t" "stable_base t"
  shows "warmup_from_dict fr (warmup_to_dict t) = Inr t"
proof -
  have "py_list (py_or (PList (wu_models t)) (PList [])) = Inr (wu_models t)" by (simp add: py_list_def py_or_def)
  then show ?thesis using assms by (simp add: warmup_from_dict_def warmup_to_dict_def decode_base)
qed

definition canonical_voice :: "VoiceTurnTask \<Rightarrow> bool" where
  "canonical_voice t = (canonical_base t \<and> map fst (vt_options t) = VOICE_OPTIONS)"

lemma voice_decoded: "voice_from_dict fr p = Inr t \<Longrightarrow> canonical_voice t"
  by (auto simp: voice_from_dict_def canonical_voice_def decoded_defs o_def split: sum.splits)

lemma options_again: "map fst d = ks \<Longrightarrow> distinct ks \<Longrightarrow> map (\<lambda>k. (k, dict_get d k)) ks = d"
proof (induction d arbitrary: ks)
  case (Cons kv d)
  obtain k v where kv: "kv = (k, v)" by fastforce
  obtain ks' where ks: "ks = k # ks'" "map fst d = ks'" "k \<notin> set ks'" "distinct ks'" using Cons.prems kv by (cases ks) auto
  have "map (\<lambda>x. (x, if x = k then v else dict_get d x)) ks' = map (\<lambda>x. (x, dict_get d x)) ks'"
    using ks(3) by (intro map_cong refl) auto
  then show ?case using Cons.IH [OF ks(2,4)] ks(1) by (simp add: kv)
qed simp

lemma voice_again:
  assumes "canonical_voice t" "stable_base t"
  shows "voice_from_dict fr (voice_to_dict t) = Inr t"
proof -
  have keys: "map fst (vt_options t) = VOICE_OPTIONS" using assms(1) by (simp add: canonical_voice_def)
  have "distinct VOICE_OPTIONS" by code_simp
  then have same: "map (\<lambda>k. (k, dict_get (vt_options t) k)) VOICE_OPTIONS = vt_options t" using keys by (intro options_again)
  obtain k1 v1 k2 v2 rest where o1: "vt_options t = (k1, v1) # (k2, v2) # rest" "k1 = ''audio_mime''" "k2 = ''stt_provider''"
    using keys by (cases "vt_options t"; cases "tl (vt_options t)") (auto simp: VOICE_OPTIONS_def)
  have "''tts_enabled'' \<notin> set VOICE_OPTIONS" "''requestId'' \<notin> set VOICE_OPTIONS" "''thread_id'' \<notin> set VOICE_OPTIONS" "''audio_b64'' \<notin> set VOICE_OPTIONS"
    "\<forall>k \<in> {''task_id'', ''request_id'', ''type'', ''created_at'', ''origin''}. k \<notin> set VOICE_OPTIONS" by code_simp+
  note fresh_keys = this
  have get: "dict_get (voice_to_dict t) k = dict_get (vt_options t) k" if "k \<in> set VOICE_OPTIONS" for k
  proof -
    have "k \<noteq> ''tts_enabled''" "k \<noteq> ''thread_id''" "k \<noteq> ''audio_b64''" "k \<notin> {''task_id'', ''request_id'', ''type'', ''created_at'', ''origin''}"
      using that fresh_keys by metis+
    then show ?thesis unfolding voice_to_dict_def by (simp add: o1)
  qed
  have opts: "map (\<lambda>k. (k, dict_get (voice_to_dict t) k)) VOICE_OPTIONS = vt_options t"
  proof -
    have "map (\<lambda>k. (k, dict_get (voice_to_dict t) k)) VOICE_OPTIONS = map (\<lambda>k. (k, dict_get (vt_options t) k)) VOICE_OPTIONS"
      by (rule map_cong [OF refl]) (simp add: get)
    then show ?thesis unfolding same .
  qed
  have "map_of rest ''requestId'' = None" using fresh_keys(2) keys o1(1) by (metis list.set_intros(2) list.simps(9) map_of_eq_None_iff list.set_map)
  then have base: "base_init (base_kwargs fr ''voice_turn'' (voice_to_dict t)) = base_task.truncate t"
    using assms by (simp add: voice_to_dict_def canonical_voice_def decode_base o1)
  have "dict_get (voice_to_dict t) ''thread_id'' = PInt (vt_thread_id t)" "dict_get (voice_to_dict t) ''audio_b64'' = PStr (vt_audio_b64 t)"
    "get_default (voice_to_dict t) ''tts_enabled'' (PBool True) = PBool (vt_tts_enabled t)"
    by (simp_all add: voice_to_dict_def o1)
  then show ?thesis by (simp add: voice_from_dict_def opts base truthy_PStr_or)
qed

definition canonical_cron :: "CronExecutionTask \<Rightarrow> bool" where
  "canonical_cron t = (canonical_base t \<and> plain_text (cx_job_type t) \<and> lower (cx_job_type t) = cx_job_type t)"

lemma plain_lower [simp]: "plain_text (lower (strip s))"
  by (simp add: plain_text_def strip_lower)

lemma cron_decoded: "cron_from_dict dict_of fr p = Inr t \<Longrightarrow> canonical_cron t"
  by (auto simp: cron_from_dict_def canonical_cron_def decoded_defs split: sum.splits)

lemma cron_again:
  assumes "canonical_cron t" "stable_base t" "cx_job_type t \<noteq> []"
  shows "cron_from_dict dict_of fr (cron_to_dict t) = Inr t"
proof -
  have "py_dict dict_of (py_or (PDict (cx_payload t)) (PDict [])) = Inr (cx_payload t)" by (simp add: py_dict_def py_or_def)
  then show ?thesis using assms by (simp add: cron_from_dict_def cron_to_dict_def canonical_cron_def decode_base plain_text_def again)
qed

definition canonical_delegation :: "DelegationTask \<Rightarrow> bool" where
  "canonical_delegation t =
     (canonical_base t \<and> plain_text (dg_packet_id t) \<and> plain_text (dg_delegation_id t) \<and> positive_option (dg_thread_id t) \<and>
      positive_option (dg_source_message_id t) \<and> text_option (dg_conversation_id t) \<and> positive_option (dg_project_id t) \<and>
      plain_text (dg_repo_path t) \<and> plain_text (dg_executor t) \<and> plain_text (dg_task_prompt t) \<and>
      coerce_deduped_task_texts (str_list (dg_tags t)) = dg_tags t \<and> status_text (PStr (dg_status t)) ''queued'' = dg_status t)"

lemma queued_status [simp]: "status_text (PStr (status_text v ''queued'')) ''queued'' = status_text v ''queued''"
  by (rule again; code_simp)

lemma delegation_decoded: "delegation_from_dict fr p = Inr t \<Longrightarrow> canonical_delegation t"
  by (auto simp: delegation_from_dict_def canonical_delegation_def decoded_defs again positive_options split: sum.splits)

lemma delegation_again:
  assumes "canonical_delegation t" "stable_base t"
  shows "delegation_from_dict fr (delegation_to_dict t) = Inr t"
proof -
  have "coerce_task_mapping (py_or (py_or (PDict (dg_context t)) PNone) PNone) = dg_context t" by (simp add: py_or_def coerce_task_mapping_def)
  then show ?thesis using assms
    by (simp add: delegation_from_dict_def delegation_to_dict_def canonical_delegation_def decode_base get2_def context_of_def)
qed

definition canonical_coding :: "CodingExecutionTask \<Rightarrow> bool" where
  "canonical_coding t =
     (canonical_base t \<and> plain_text (ce_run_id t) \<and> plain_text (ce_deployment_id t) \<and> plain_text (ce_instructions t) \<and>
      text_option (ce_cwd t) \<and> text_option (ce_repo_root t) \<and> plain_text (ce_coding_task_id t) \<and> plain_text (ce_attempt_id t) \<and>
      mapping_option (ce_execution_binding t) \<and> text_option (ce_campaign_id t) \<and> text_option (ce_work_order_id t) \<and>
      positive_option (ce_thread_id t) \<and> (\<exists>v. coerce_optional_identifier v = Inr (ce_source_message_id t)) \<and>
      text_option (ce_validation_command t) \<and> 1 \<le> ce_max_validation_attempts t \<and> ce_max_validation_attempts t \<le> 3 \<and>
      mapping_option (ce_permission_policy t) \<and> text_option (ce_worktree_lease_id t) \<and> text_option (ce_commit_message t))"

lemma bounded_int: "coerce_bounded_positive_int v = Inr n \<Longrightarrow> 1 \<le> n \<and> n \<le> 3"
  by (auto simp: coerce_bounded_positive_int_def split: sum.splits option.splits)

lemma decode_bounded [simp]: "1 \<le> n \<Longrightarrow> n \<le> 3 \<Longrightarrow> coerce_bounded_positive_int (py_or (PInt n) PNone) = Inr n"
  by (simp add: coerce_bounded_positive_int_def coerce_optional_positive_int_def py_or_def)

lemma rebuild_coding [simp]:
  "base_task.extend (base_task.truncate t) \<lparr>ce_run_id = ce_run_id t, ce_deployment_id = ce_deployment_id t, ce_instructions = ce_instructions t,
     ce_cwd = ce_cwd t, ce_repo_root = ce_repo_root t, ce_timeout_seconds = ce_timeout_seconds t, ce_coding_task_id = ce_coding_task_id t,
     ce_attempt_id = ce_attempt_id t, ce_execution_binding = ce_execution_binding t, ce_campaign_id = ce_campaign_id t,
     ce_work_order_id = ce_work_order_id t, ce_thread_id = ce_thread_id t, ce_source_message_id = ce_source_message_id t,
     ce_validation_command = ce_validation_command t, ce_max_validation_attempts = ce_max_validation_attempts t,
     ce_permission_policy = ce_permission_policy t, ce_worktree_lease_id = ce_worktree_lease_id t,
     ce_require_worktree_lease = ce_require_worktree_lease t, ce_commit_after_validation = ce_commit_after_validation t,
     ce_commit_message = ce_commit_message t, ce_require_human_review_before_merge = ce_require_human_review_before_merge t\<rparr> = t"
  by (simp add: base_task.defs)

lemma coding_decoded: "coding_from_dict fr p = Inr t \<Longrightarrow> canonical_coding t"
  using bounded_int positive_options
  by (auto simp: coding_from_dict_def canonical_coding_def decoded_defs split: sum.splits)

lemma coding_again:
  assumes "canonical_coding t" "stable_base t" "ce_timeout_seconds t \<noteq> 0" "ce_source_message_id t \<noteq> PInt 0"
  shows "coding_from_dict fr (coding_to_dict t) = Inr t"
proof -
  obtain v where "coerce_optional_identifier v = Inr (ce_source_message_id t)" using assms(1) by (auto simp: canonical_coding_def)
  then have "coerce_optional_identifier (py_or (ce_source_message_id t) PNone) = Inr (ce_source_message_id t)"
    using assms(4) by (rule again)
  then show ?thesis using assms(1-3)
    by (simp add: coding_from_dict_def coding_to_dict_def canonical_coding_def decode_base get2_def)
qed

section \<open>Chat tasks again\<close>

lemma identifier_not_space: "identifier_char c \<Longrightarrow> \<not> py_isspace c"
  by (auto simp: identifier_char_def py_isspace_def Let_def)

lemma safe_strip [simp]: "is_safe_identifier s \<Longrightarrow> strip s = s"
  by (rule strip_id) (auto simp: is_safe_identifier_def identifier_not_space)

lemma decode_kwargs:
  assumes "strip (bt_type t) = bt_type t" "bt_type t \<noteq> []" "stable_base t" "map_of rest ''requestId'' = None"
  shows "base_kwargs fr ty (base_dict t @ rest) = base_task.truncate t"
  using assms by (simp add: base_defs again dict_get_def base_task.defs)

lemma hosted_again:
  "coerce_hosted_room_invocation v = Some m \<Longrightarrow> coerce_hosted_room_invocation (PDict (hosted_room_dict m)) = Some m"
proof -
  assume "coerce_hosted_room_invocation v = Some m"
  then obtain p where m: "hosted_room_metadata p = Some m"
    by (auto simp: coerce_hosted_room_invocation_def split: pyval.splits if_splits)
  have req: "require_hosted_room_identifier w = Some s \<Longrightarrow> require_hosted_room_identifier (PStr s) = Some s" for w s
    by (auto simp: require_hosted_room_identifier_def split: pyval.splits if_splits)
  have texts: "strip ''resident'' = ''resident''" "strip ''guardian'' = ''guardian''" "strip ''owner'' = ''owner''" "strip ''guest'' = ''guest''"
    by code_simp+
  have keys: "set (map fst (hosted_room_dict m)) = set HOSTED_ROOM_INVOCATION_FIELDS"
    by (simp add: hosted_room_dict_def HOSTED_ROOM_INVOCATION_FIELDS_def)
  from m obtain room actor mid where r: "require_hosted_room_identifier (dict_get p ''room_id'') = Some room"
      "require_hosted_room_identifier (dict_get p ''actor_participant_id'') = Some actor" "dict_get p ''source_message_id'' = PInt mid" "0 < mid"
      "hr_room_id m = room" "hr_actor_participant_id m = actor" "hr_source_message_id m = mid" "hr_actor_source m = ''resident''"
      "hr_actor_ref m = ''guardian''"
    and a0: "(hr_requester_authority m = ''owner'' \<and> hr_requester_participant_id m = None) \<or>
      (hr_requester_authority m = ''guest'' \<and> hr_requester_participant_id m \<noteq> None \<and>
       require_hosted_room_identifier (dict_get p ''requester_participant_id'') = hr_requester_participant_id m)"
    by (auto simp: hosted_room_metadata_def Let_def split: option.splits pyval.splits if_splits) (auto dest: sym)
  have a: "(hr_requester_authority m = ''owner'' \<and> hr_requester_participant_id m = None) \<or>
      (hr_requester_authority m = ''guest'' \<and> (\<exists>s. hr_requester_participant_id m = Some s \<and> require_hosted_room_identifier (PStr s) = Some s))"
    using a0 req by (cases "hr_requester_participant_id m") auto
  have "hosted_room_metadata (hosted_room_dict m) = Some m"
    using a r(4-9) req [OF r(1)] req [OF r(2)]
    by (cases m) (auto simp: hosted_room_metadata_def hosted_room_dict_def Let_def texts opt_str_def)
  then show ?thesis using keys by (simp add: coerce_hosted_room_invocation_def)
qed

lemma persona_again: "persona_from_dict v = Some s \<Longrightarrow> persona_from_dict (PDict (persona_dict s)) = Some s"
  by (cases s) (auto simp: persona_from_dict_def persona_snapshot_def persona_dict_def opt_str_def opt_int_def split: pyval.splits if_splits option.splits)

definition canonical_chat :: "iso_parser \<Rightarrow> ChatCompletionTask \<Rightarrow> bool" where
  "canonical_chat fromiso t \<longleftrightarrow>
     strip (bt_type t) = bt_type t \<and> bt_type t \<noteq> [] \<and> text_option (Some (cc_user_id t)) \<and> text_option (cc_turn_id t) \<and>
     positive_option (cc_latest_turn_message_id t) \<and> (\<exists>v. cc_latest_turn_messages t = coerce_structured_messages v) \<and>
     (\<exists>v. cc_tools t = coerce_list_of_mappings v) \<and> mapping_option (cc_retrieval_override t) \<and> mapping_option (cc_browser_context t) \<and>
     text_option (cc_preferred_name t) \<and> text_option (cc_profession t) \<and> text_option (cc_guardian_name t) \<and>
     (cc_attempt_id t = [] \<or> is_safe_identifier (cc_attempt_id t)) \<and> (\<exists>v. cc_hosted_room_invocation t = coerce_hosted_room_invocation v) \<and>
     (\<forall>s. cc_persona_selection_snapshot t = Some s \<longrightarrow> (\<exists>v. persona_from_dict v = Some s)) \<and>
     ((\<forall>kv \<in> set (deadline_items t). snd kv = PNone) \<or>
      (\<exists>d. parse_accepted_chat_task_deadline fromiso (deadline_items t) = Inr (Some d)))"

lemma parse_deadline_cong:
  "(\<forall>k \<in> set DEADLINE_FIELDS. map_of p k = map_of q k) \<Longrightarrow> parse_accepted_chat_task_deadline fromiso p = parse_accepted_chat_task_deadline fromiso q"
  by (simp add: parse_accepted_chat_task_deadline_def DEADLINE_FIELDS_def dict_get_def)

lemma chat_init_ids [simp]:
  "bt_type (chat_init fr t) = bt_type t" "cc_user_id (chat_init fr t) = cc_user_id t"
  by (simp_all add: chat_init_def)

lemma chat_init_same:
  "is_safe_identifier (bt_task_id t) \<Longrightarrow> is_safe_identifier (bt_request_id t) \<Longrightarrow> cc_attempt_id t = [] \<or> is_safe_identifier (cc_attempt_id t) \<Longrightarrow>
     chat_init fr t = t"
  by (cases t) (auto simp: chat_init_def normalize_request_id_def normalize_optional_identifier_def Let_def is_safe_identifier_def [of "[]"])

lemma chat_decoded:
  assumes "chat_from_dict fromiso to_float fr p = Inr t"
  shows "canonical_chat fromiso t"
proof -
  obtain dl where parse: "parse_accepted_chat_task_deadline fromiso p = Inr dl"
    using assms by (auto simp: chat_from_dict_def split: sum.splits)
  have items: "deadline_items t = map (\<lambda>k. (k, dict_get p k)) DEADLINE_FIELDS"
    using assms by (auto simp: chat_from_dict_def chat_init_def deadline_items_def DEADLINE_FIELDS_def base_task.defs split: sum.splits option.splits)
  have "(\<forall>kv \<in> set (deadline_items t). snd kv = PNone) \<or> (\<exists>d. parse_accepted_chat_task_deadline fromiso (deadline_items t) = Inr (Some d))"
  proof (cases dl)
    case None
    with parse have "\<forall>k \<in> set DEADLINE_FIELDS. map_of p k = None" by (simp add: parse_deadline_None)
    then show ?thesis unfolding items by (simp add: dict_get_def)
  next
    case (Some d)
    with parse parse_deadline_valid have "\<forall>k \<in> set DEADLINE_FIELDS. map_of p k \<noteq> None"
      by (auto simp: parse_accepted_chat_task_deadline_def DEADLINE_FIELDS_def Let_def split: if_splits option.splits)
    then have "parse_accepted_chat_task_deadline fromiso (deadline_items t) = parse_accepted_chat_task_deadline fromiso p"
      unfolding items by (intro parse_deadline_cong) (auto simp: DEADLINE_FIELDS_def dict_get_def)
    then show ?thesis using parse Some by simp
  qed
  moreover have "canonical_base (base_init (base_kwargs fr ''chat_completion'' p))" by (simp add: canonical_base_def)
  then have "strip (bt_type (base_kwargs fr ''chat_completion'' p)) = bt_type (base_kwargs fr ''chat_completion'' p)"
      "bt_type (base_kwargs fr ''chat_completion'' p) \<noteq> []" by (simp_all add: canonical_base_def base_init_def)
  moreover obtain user temperature thread message persona where
    user: "coerce_task_text (get2 p ''user_id'' ''userId'') = Some user"
    and message: "coerce_optional_positive_int (dict_get p ''latest_turn_message_id'') = Inr message"
    and persona: "(if dict_get p ''persona_selection_snapshot'' = PNone then Some None
             else map_option Some (persona_from_dict (dict_get p ''persona_selection_snapshot''))) = Some persona"
    and t: "bt_type t = bt_type (base_kwargs fr ''chat_completion'' p)" "cc_user_id t = user"
      "cc_turn_id t = coerce_task_text (if map_of p ''turn_id'' \<noteq> None then dict_get p ''turn_id'' else dict_get p ''turnId'')"
      "cc_latest_turn_message_id t = message" "cc_latest_turn_messages t = coerce_structured_messages (dict_get p ''latest_turn_messages'')"
      "cc_tools t = coerce_list_of_mappings (dict_get p ''tools'')" "cc_retrieval_override t = mapping_or_none (dict_get p ''retrieval_override'')"
      "cc_browser_context t = mapping_or_none (dict_get p ''browser_context'')" "cc_preferred_name t = coerce_task_text (dict_get p ''preferred_name'')"
      "cc_profession t = coerce_task_text (dict_get p ''profession'')" "cc_guardian_name t = coerce_task_text (dict_get p ''guardian_name'')"
      "cc_attempt_id t = (case normalize_optional_identifier (stripped_text (dict_get p ''attempt_id'')) of Some i \<Rightarrow> i | None \<Rightarrow> [])"
      "cc_hosted_room_invocation t = coerce_hosted_room_invocation (dict_get p ''hosted_room_invocation'')" "cc_persona_selection_snapshot t = persona"
    using assms by (auto simp: chat_from_dict_def chat_init_def base_task.defs simp del: not_None_eq split: sum.splits option.splits)
  moreover have "text_option (Some user)" using user optional_texts(1) by metis
  moreover have "cc_attempt_id t = [] \<or> is_safe_identifier (cc_attempt_id t)"
    unfolding t by (auto simp: normalize_optional_identifier_def Let_def split: option.splits if_splits)
  moreover have "\<forall>s. persona = Some s \<longrightarrow> (\<exists>v. persona_from_dict v = Some s)" using persona by (auto split: if_splits)
  ultimately show ?thesis using positive_options [OF message] unfolding canonical_chat_def t by auto
qed

lemma rebuild_chat [simp]:
  "base_task.extend (base_task.truncate t) \<lparr>cc_user_id = cc_user_id t, cc_thread_id = cc_thread_id t, cc_turn_id = cc_turn_id t,
     cc_latest_turn_message_id = cc_latest_turn_message_id t, cc_latest_turn_messages = cc_latest_turn_messages t, cc_model = cc_model t,
     cc_provider = cc_provider t, cc_temperature = cc_temperature t, cc_requested_model = cc_requested_model t,
     cc_requested_provider = cc_requested_provider t, cc_selection_source = cc_selection_source t, cc_provider_pinned = cc_provider_pinned t,
     cc_reasoning_mode = cc_reasoning_mode t, cc_tools = cc_tools t, cc_max_context = cc_max_context t, cc_depth_mode = cc_depth_mode t,
     cc_requested_source_mode = cc_requested_source_mode t, cc_system_override = cc_system_override t,
     cc_retrieval_override = cc_retrieval_override t, cc_browser_context = cc_browser_context t, cc_preferred_name = cc_preferred_name t,
     cc_profession = cc_profession t, cc_guardian_name = cc_guardian_name t, cc_attempt_id = cc_attempt_id t,
     cc_hosted_room_invocation = cc_hosted_room_invocation t, cc_persona_selection_snapshot = cc_persona_selection_snapshot t,
     cc_accepted_at = cc_accepted_at t, cc_work_deadline_at = cc_work_deadline_at t, cc_terminal_deadline_at = cc_terminal_deadline_at t\<rparr> = t"
  by (simp add: base_task.defs)

text \<open>What is written for a chat task, with or without its deadline.\<close>

lemma chat_written:
  assumes "canonical_chat fromiso t" "chat_to_dict fromiso t = Inr d"
  shows "d = chat_fields t @ (if \<forall>kv \<in> set (deadline_items t). snd kv = PNone then [] else deadline_items t) \<and>
    (\<exists>x. parse_accepted_chat_task_deadline fromiso d = Inr x)"
proof (cases "\<forall>kv \<in> set (deadline_items t). snd kv = PNone")
  case True
  have "\<forall>k \<in> set DEADLINE_FIELDS. map_of (chat_fields t) k = None" by (simp add: DEADLINE_FIELDS_def chat_fields_def base_dict_def)
  then have "parse_accepted_chat_task_deadline fromiso (chat_fields t) = Inr None" by (simp add: parse_deadline_None)
  then show ?thesis using True assms(2) unfolding chat_to_dict_def by simp
next
  case False
  then show ?thesis using assms(2) by (auto simp: chat_to_dict_def split: if_splits sum.splits)
qed

lemma dict_get_append_None: "map_of d k = None \<Longrightarrow> dict_get (d @ e) k = dict_get e k"
  by (simp add: dict_get_def map_add_def split: option.split)

lemma dict_get_absent: "k \<notin> set (map fst d) \<Longrightarrow> dict_get d k = PNone"
  by (simp add: dict_get_def map_of_eq_None_iff [THEN iffD2])

lemma deadline_values:
  assumes "d = chat_fields t @ (if \<forall>kv \<in> set (deadline_items t). snd kv = PNone then [] else deadline_items t)"
  shows "dict_get d ''accepted_at'' = cc_accepted_at t" "dict_get d ''work_deadline_at'' = cc_work_deadline_at t"
    "dict_get d ''terminal_deadline_at'' = cc_terminal_deadline_at t"
proof -
  have "\<forall>k \<in> set DEADLINE_FIELDS. map_of (chat_fields t) k = None" by (simp add: DEADLINE_FIELDS_def chat_fields_def base_dict_def)
  then have "dict_get d k = dict_get (if \<forall>kv \<in> set (deadline_items t). snd kv = PNone then [] else deadline_items t) k" if "k \<in> set DEADLINE_FIELDS" for k
    using that unfolding assms by (intro dict_get_append_None) blast
  then show "dict_get d ''accepted_at'' = cc_accepted_at t" "dict_get d ''work_deadline_at'' = cc_work_deadline_at t"
    "dict_get d ''terminal_deadline_at'' = cc_terminal_deadline_at t"
    by (simp_all add: DEADLINE_FIELDS_def deadline_items_def)
qed

lemma turn_key: "map_of (chat_fields t @ e) ''turn_id'' \<noteq> None"
  by (simp add: chat_fields_def base_dict_def)

text \<open>Every other key is read from the fields of the task.\<close>

definition chat_reads :: "ChatCompletionTask \<Rightarrow> pydict \<Rightarrow> bool" where
  "chat_reads t d \<longleftrightarrow> (\<forall>kv \<in> set (chat_fields t). dict_get d (fst kv) = snd kv) \<and>
     (\<forall>k \<in> {''requestId'', ''userId''}. dict_get d k = PNone)"

lemma chat_reads_fields:
  assumes "d = chat_fields t @ (if \<forall>kv \<in> set (deadline_items t). snd kv = PNone then [] else deadline_items t)"
  shows "chat_reads t d"
proof -
  have keys: "map fst (chat_fields t) = [''task_id'', ''request_id'', ''type'', ''created_at'', ''origin'', ''user_id'', ''thread_id'', ''turn_id'',
      ''latest_turn_message_id'', ''latest_turn_messages'', ''model'', ''provider'', ''temperature'', ''requested_model'', ''requested_provider'',
      ''selection_source'', ''provider_pinned'', ''reasoning_mode'', ''tools'', ''max_context'', ''depth_mode'', ''requested_source_mode'',
      ''system_override'', ''retrieval_override'', ''browser_context'', ''preferred_name'', ''profession'', ''guardian_name'', ''attempt_id'',
      ''hosted_room_invocation'', ''persona_selection_snapshot'']"
    by (simp add: chat_fields_def base_dict_def)
  have "distinct (map fst (chat_fields t))" unfolding keys by code_simp
  then have "map_of (chat_fields t) (fst kv) = Some (snd kv)" if "kv \<in> set (chat_fields t)" for kv using that by (cases kv) simp
  then have "\<forall>kv \<in> set (chat_fields t). dict_get d (fst kv) = snd kv" unfolding assms by (simp add: dict_get_def map_add_def split: option.split)
  moreover have "set (map fst d) \<subseteq> set (map fst (chat_fields t)) \<union> set DEADLINE_FIELDS"
    unfolding assms by (auto simp: deadline_items_def DEADLINE_FIELDS_def)
  moreover have "''requestId'' \<notin> set (map fst (chat_fields t)) \<union> set DEADLINE_FIELDS" "''userId'' \<notin> set (map fst (chat_fields t)) \<union> set DEADLINE_FIELDS"
    unfolding keys by code_simp+
  ultimately show ?thesis unfolding chat_reads_def by (blast intro: dict_get_absent)
qed

lemma chat_again:
  assumes "canonical_chat fromiso t" "chat_to_dict fromiso t = Inr d" "stable_task env (ChatT t)" "ev_float env = to_float"
  shows "chat_from_dict fromiso to_float fr d = Inr t"
proof -
  note d = chat_written [OF assms(1,2), THEN conjunct1]
  obtain x where parse: "parse_accepted_chat_task_deadline fromiso d = Inr x" using chat_written [OF assms(1,2)] by blast
  have get: "list_all (\<lambda>kv. dict_get d (fst kv) = snd kv) (chat_fields t)" and none: "dict_get d ''requestId'' = PNone" "dict_get d ''userId'' = PNone"
    using chat_reads_fields [OF d] unfolding chat_reads_def list_all_iff by blast+
  note gets = get [unfolded chat_fields_def base_dict_def append.simps list.pred_inject fst_conv snd_conv simp_thms]
  have turn: "map_of d ''turn_id'' \<noteq> None" unfolding d by (rule turn_key)
  have kw: "base_kwargs fr ''chat_completion'' d = base_task.truncate t"
    using assms(1,3) by (simp add: base_kwargs_def gets none get2_def again canonical_chat_def stable_base_def base_task.defs)
  have temperature: "coerce_temperature to_float (case cc_temperature t of None \<Rightarrow> PNone | Some f \<Rightarrow> PFloat f) = Inr (cc_temperature t)"
    using assms(3,4) by (auto simp: coerce_temperature_def split: option.splits)
  have hosted: "coerce_hosted_room_invocation (opt_dict (map_option hosted_room_dict (cc_hosted_room_invocation t))) = cc_hosted_room_invocation t"
    using assms(1) hosted_again by (cases "cc_hosted_room_invocation t")
      (auto simp: canonical_chat_def opt_dict_def coerce_hosted_room_invocation_def [of PNone])
  have persona: "(if opt_dict (map_option persona_dict (cc_persona_selection_snapshot t)) = PNone then Some None
      else map_option Some (persona_from_dict (opt_dict (map_option persona_dict (cc_persona_selection_snapshot t))))) = Some (cc_persona_selection_snapshot t)"
    using assms(1) persona_again by (cases "cc_persona_selection_snapshot t") (auto simp: canonical_chat_def opt_dict_def)
  have structured: "coerce_structured_messages (case cc_latest_turn_messages t of None \<Rightarrow> PNone | Some ms \<Rightarrow> PList ms) = cc_latest_turn_messages t"
    "coerce_list_of_mappings (case cc_tools t of None \<Rightarrow> PNone | Some ds \<Rightarrow> PList (map PDict ds)) = cc_tools t"
    using assms(1) by (auto simp: canonical_chat_def again)
  have user: "coerce_task_text (py_or (PStr (cc_user_id t)) PNone) = Some (cc_user_id t)"
    using assms(1) decode_optional(2) [of "Some (cc_user_id t)"] by (simp add: canonical_chat_def opt_str_def)
  have source: "(if opt_str (cc_requested_source_mode t) = PNone then None else Some (py_str (opt_str (cc_requested_source_mode t)))) = cc_requested_source_mode t"
    by (simp add: opt_str_def py_str_def split: option.split)
  have attempt: "stripped_text (PStr (cc_attempt_id t)) = cc_attempt_id t" using assms(1) by (auto simp: canonical_chat_def)
  have same: "chat_init fr t = t" using assms(1,3) by (intro chat_init_same) (auto simp: canonical_chat_def)
  have turn_again: "(if map_of d ''turn_id'' \<noteq> None then dict_get d ''turn_id'' else dict_get d ''turnId'') = opt_str (cc_turn_id t)"
    using turn by (simp only: gets) simp
  have mappings: "mapping_or_none (opt_dict (cc_retrieval_override t)) = cc_retrieval_override t"
    "mapping_or_none (opt_dict (cc_browser_context t)) = cc_browser_context t"
    using assms(1) by (auto simp: canonical_chat_def again)
  show ?thesis
    unfolding chat_from_dict_def parse get2_def kw deadline_values [OF d] turn_again
    using assms(1)
    by (simp only: gets none user temperature hosted persona structured source attempt mappings) (simp add: canonical_chat_def same)
qed

text \<open>A task keeps the tag its class was chosen by.\<close>

lemma chosen_tag:
  "stripped_text (dict_get p ''type'') = ty \<Longrightarrow> ty \<noteq> [] \<Longrightarrow> bt_type (base_kwargs fr d p) = ty \<or> bt_type (base_kwargs fr d p) = d"
  by (auto simp: base_kwargs_def split: pyval.splits)

lemma kept_tags:
  "warmup_from_dict fr p = Inr w \<Longrightarrow> bt_type w = bt_type (base_kwargs fr ''warmup'' p)"
  "chat_from_dict fromiso to_float fr p = Inr c \<Longrightarrow> bt_type c = bt_type (base_kwargs fr ''chat_completion'' p)"
  "eval_from_dict fr p = Inr e \<Longrightarrow> bt_type e = bt_type (base_kwargs fr ''eval.trace'' p)"
  "voice_from_dict fr p = Inr v \<Longrightarrow> bt_type v = bt_type (base_kwargs fr ''voice_turn'' p)"
  "cron_from_dict dict_of fr p = Inr x \<Longrightarrow> bt_type x = bt_type (base_kwargs fr ''cron.execute'' p)"
  "delegation_from_dict fr p = Inr g \<Longrightarrow> bt_type g = bt_type (base_kwargs fr ''delegation.task'' p)"
  "coding_from_dict fr p = Inr k \<Longrightarrow> bt_type k = bt_type (base_kwargs fr ''coding_execution'' p)"
  by (auto simp: warmup_from_dict_def chat_from_dict_def eval_from_dict_def voice_from_dict_def cron_from_dict_def delegation_from_dict_def
      coding_from_dict_def base_task.defs base_init_def Let_def split: sum.splits option.splits)

lemma written_tags:
  "dict_get (warmup_to_dict w) ''type'' = PStr (bt_type w)" "dict_get (eval_to_dict e) ''type'' = PStr (bt_type e)"
  "dict_get (voice_to_dict v) ''type'' = PStr (bt_type v)" "dict_get (cron_to_dict x) ''type'' = PStr (bt_type x)"
  "dict_get (delegation_to_dict g) ''type'' = PStr (bt_type g)" "dict_get (coding_to_dict k) ''type'' = PStr (bt_type k)"
  "chat_to_dict fromiso c = Inr d \<Longrightarrow> dict_get d ''type'' = PStr (bt_type c)"
  by (auto simp: warmup_to_dict_def eval_to_dict_def voice_to_dict_def cron_to_dict_def delegation_to_dict_def coding_to_dict_def chat_to_dict_def
      chat_fields_def base_dict_def split: if_splits sum.splits)

lemma map_sum_Inr: "map_sum id C x = Inr t \<longleftrightarrow> (\<exists>w. x = Inr w \<and> t = C w)"
  by (cases x) auto

lemma chosen_class:
  assumes "task_from_dict env fr p = Inr t"
  shows "(case t of WarmupT w \<Rightarrow> warmup_from_dict fr p = Inr w \<and> bt_type w = ''warmup''
    | ChatT c \<Rightarrow> chat_from_dict (ev_iso env) (ev_float env) fr p = Inr c \<and> bt_type c = ''chat_completion''
    | EvalT e \<Rightarrow> eval_from_dict fr p = Inr e \<and> bt_type e = ''eval.trace'' | VoiceT v \<Rightarrow> voice_from_dict fr p = Inr v \<and> bt_type v = ''voice_turn''
    | CronT x \<Rightarrow> cron_from_dict (ev_dict env) fr p = Inr x \<and> bt_type x = ''cron.execute''
    | DelegationT g \<Rightarrow> delegation_from_dict fr p = Inr g \<and> bt_type g = ''delegation.task''
    | CodingT k \<Rightarrow> coding_from_dict fr p = Inr k \<and> (bt_type k = ''coding.execute'' \<or> bt_type k = ''coding_execution''))"
proof (cases t)
  case (CodingT k)
  with assms show ?thesis using chosen_tag [of p "stripped_text (dict_get p ''type'')" fr "''coding_execution''"]
    by (auto simp: task_from_dict_def Let_def kept_tags map_sum_Inr split: if_splits)
qed (use assms chosen_tag [of p "stripped_text (dict_get p ''type'')"] in
  \<open>auto simp: task_from_dict_def Let_def kept_tags map_sum_Inr split: if_splits\<close>)



text \<open>A chat payload in the camel case of a client, with a blank attempt and a temperature that is no number.\<close>

definition demo_task_env :: task_env where
  "demo_task_env = \<lparr>ev_iso = (\<lambda>_. None), ev_float = (\<lambda>_. Inl TypeError), ev_dict = (\<lambda>_. Inl TypeError)\<rparr>"

definition demo_fresh :: "string \<Rightarrow> fresh" where
  "demo_fresh s = \<lparr>fr_task_id = s, fr_request_id = s, fr_chat_task_id = s, fr_now = s\<rparr>"

definition demo_chat :: pydict where
  "demo_chat = [(''type'', PStr '' chat_completion ''), (''userId'', PStr ''u1 ''), (''thread_id'', PStr '' 7''), (''task_id'', PStr ''t-1''),
     (''requestId'', PStr ''r-1''), (''temperature'', PStr ''warm''), (''attempt_id'', PStr ''not safe''), (''tools'', PList [PDict [(''a'', PInt 1)], PNone]),
     (''latest_turn_message_id'', PStr ''12''), (''persona_selection_snapshot'', PDict [(''profile_revision'', PNone), (''profile_id'', PStr ''p'')])]"

lemma demo_chat_decoded:
  "\<exists>t d. task_from_dict demo_task_env (demo_fresh ''x'') demo_chat = Inr t \<and> task_to_dict demo_task_env t = Inr d \<and> stable_task demo_task_env t"
proof -
  have "(case task_from_dict demo_task_env (demo_fresh ''x'') demo_chat of Inl _ \<Rightarrow> False
    | Inr t \<Rightarrow> (case task_to_dict demo_task_env t of Inl _ \<Rightarrow> False | Inr d \<Rightarrow> stable_task demo_task_env t))" by code_simp
  then show ?thesis by (auto split: sum.splits)
qed


text \<open>An identifier of superscript digits is a digit string that \<^verbatim>\<open>int\<close> does not read: the coercion raises.\<close>

lemma superscript_identifier_raises:
  "coerce_optional_identifier (PStr [CHR 0xB2]) = Inl (ValueError ''invalid literal for int()'')"
  by code_simp

end
