(* ===== verification/Chat_Acceptance.thy ===== *)
theory Chat_Acceptance
  imports Task_Events Chat_Attempts Task_Types
begin

text \<open>
  Model of how a chat completion is accepted: \<^verbatim>\<open>enqueue_chat_completion\<close> of
  \<^verbatim>\<open>guardian/core/chat_completion_service.py\<close> and its helpers. It takes the turn lock of the thread, reads the persona
  of the thread, prepares a participant, fixes the deadline, renews the lock, stores the attempt, queues the task,
  marks the attempt accepted, commits the participant and publishes the first event; a failure on the way undoes what
  was done as far as it can. The state is the Redis server, the table of attempts and the participant; every command
  has its own failures and times, and each step calls the models of the turn lock, the queue, the attempts and the
  events. The results are what a caller may rely on after an accepted turn and after a refused one, and two faults: a
  refused turn whose task is queued all the same, and a thread that a lost reply keeps locked.
\<close>

section \<open>Identities\<close>

text \<open>\<^verbatim>\<open>str.replace(p, '')\<close>, \<^verbatim>\<open>str.strip('{}')\<close> and \<^verbatim>\<open>int(s, 16)\<close>, as \<^verbatim>\<open>uuid.UUID\<close> uses them.\<close>

fun remove_from :: "string \<Rightarrow> nat \<Rightarrow> string \<Rightarrow> string" where
  "remove_from p k [] = []"
| "remove_from p k (c # cs) =
     (if 0 < k then remove_from p (k - 1) cs
      else if take (length p) (c # cs) = p then remove_from p (length p - 1) cs
      else c # remove_from p 0 cs)"

definition strip_braces :: "string \<Rightarrow> string" where
  "strip_braces s = (let brace = (\<lambda>c. c \<in> set ''{}'') in rev (dropWhile brace (rev (dropWhile brace s))))"

definition hex_value :: "char \<Rightarrow> nat option" where
  "hex_value c = (let n = (of_char c :: nat) in
     if 48 \<le> n \<and> n \<le> 57 then Some (n - 48) else if 65 \<le> n \<and> n \<le> 70 then Some (n - 55)
     else if 97 \<le> n \<and> n \<le> 102 then Some (n - 87) else None)"

fun hex_digits :: "string \<Rightarrow> nat \<Rightarrow> bool \<Rightarrow> nat option" where
  "hex_digits [] n after_digit = (if after_digit then Some n else None)"
| "hex_digits (c # cs) n after_digit =
     (if c = CHR ''_'' then (if after_digit then hex_digits cs n False else None)
      else (case hex_value c of None \<Rightarrow> None | Some d \<Rightarrow> hex_digits cs (16 * n + d) True))"

definition unsigned_hex :: "string \<Rightarrow> nat option" where
  "unsigned_hex s =
     (if take 2 s \<in> {''0x'', ''0X''}
      then hex_digits (if take 1 (drop 2 s) = ''_'' then drop 3 s else drop 2 s) 0 False else hex_digits s 0 False)"

definition int_16 :: "string \<Rightarrow> int option" where
  "int_16 s =
     (case strip s of
        [] \<Rightarrow> None
      | c # cs \<Rightarrow>
        if c = CHR ''-'' then map_option (\<lambda>n. - int n) (unsigned_hex cs)
        else map_option int (unsigned_hex (if c = CHR ''+'' then cs else c # cs)))"

fun hex_text :: "nat \<Rightarrow> nat \<Rightarrow> string" where
  "hex_text 0 n = []"
| "hex_text (Suc k) n = hex_text k (n div 16) @ [''0123456789abcdef'' ! (n mod 16)]"

definition uuid_text :: "nat \<Rightarrow> string" where
  "uuid_text n =
     (let h = hex_text 32 n in
      take 8 h @ ''-'' @ take 4 (drop 8 h) @ ''-'' @ take 4 (drop 12 h) @ ''-'' @ take 4 (drop 16 h) @ ''-'' @ drop 20 h)"

definition parse_uuid :: "string \<Rightarrow> nat option" where
  "parse_uuid s =
     (let h = filter (\<lambda>c. c \<noteq> CHR ''-'') (strip_braces (remove_from ''uuid:'' 0 (remove_from ''urn:'' 0 s))) in
      if length h \<noteq> 32 then None
      else (case int_16 h of None \<Rightarrow> None | Some n \<Rightarrow> if 0 \<le> n \<and> n < 2 ^ 128 then Some (nat n) else None))"

definition normalize_task_identity :: "string \<Rightarrow> string option" where
  "normalize_task_identity raw =
     (let candidate = strip raw in if candidate = [] then None else map_option uuid_text (parse_uuid candidate))"

section \<open>Commands under the time limit\<close>

text \<open>
  A command of one of the Redis modules: what becomes of its two attempts, when the call begins and ends, and whether it
  took longer than the limit, in which case its result is dropped although it ran.
\<close>

record 'f redis_call =
  rc_faults :: "'f \<times> 'f"
  rc_times :: "int \<times> int"
  rc_slow :: bool

datatype call_error = Failed redis_failure | Raised py_error | TooSlow

definition attempt_at :: "(int \<Rightarrow> 's \<Rightarrow> 's \<times> (py_error + 'a)) \<Rightarrow> fault \<Rightarrow> 's \<Rightarrow> 's \<times> (call_error + 'a)" where
  "attempt_at fn f s =
     (case one_attempt f fn s of
        (s', Inl e) \<Rightarrow> (s', Inl (Failed e))
      | (s', Inr (Inl e)) \<Rightarrow> (s', Inl (Raised e))
      | (s', Inr (Inr x)) \<Rightarrow> (s', Inr x))"

definition run_with_redis_timeout :: "'f redis_call \<Rightarrow> ('f \<Rightarrow> 's \<Rightarrow> 's \<times> (call_error + 'a)) \<Rightarrow> 's \<Rightarrow> 's \<times> (call_error + 'a)" where
  "run_with_redis_timeout c attempt s =
     (case (case attempt (fst (rc_faults c)) s of
              (s', Inr x) \<Rightarrow> (s', Inr x)
            | (s', Inl e) \<Rightarrow> if e = Failed DeadlineFailure then (s', Inl e) else attempt (snd (rc_faults c)) s') of
        (s', Inl e) \<Rightarrow> (s', Inl e)
      | (s', Inr x) \<Rightarrow> (s', if rc_slow c then Inl TooSlow else Inr x))"

text \<open>
  An attempt of \<^verbatim>\<open>release_turn_lock\<close> sends up to three commands, each with its own failures: the script, and when that
  raises, whatever the cause, the read and the deletion.
\<close>

type_synonym release_faults = "fault \<times> fault \<times> fault"

definition release_attempt ::
    "'s redis \<Rightarrow> json_codec \<Rightarrow> bool \<Rightarrow> string \<Rightarrow> int \<Rightarrow> expected \<Rightarrow> release_faults \<Rightarrow> 's \<Rightarrow> 's \<times> (call_error + bool)" where
  "release_attempt api codec has_eval new_turn thread_id owner f s =
     (let key = turn_lock_key thread_id in
      case (f, expected_owner_and_token owner) of ((f_eval, f_get, f_delete), (owner_task_id, lease_token)) \<Rightarrow>
      (case (if has_eval
             then one_attempt f_eval (\<lambda>t s. case release_script api codec s t key owner_task_id lease_token of
               Some (s', released) \<Rightarrow> (s', Some released) | None \<Rightarrow> (s, None)) s
             else (s, Inr None)) of
         (s1, Inr (Some released)) \<Rightarrow> (s1, Inr released)
       | (s1, _) \<Rightarrow>
         (case one_attempt f_get (\<lambda>t s. (s, rd_get api s t key)) s1 of
            (s2, Inl e) \<Rightarrow> (s2, Inl (Failed e))
          | (s2, Inr current) \<Rightarrow>
            (case matches_expected_lock codec new_turn current owner of
               Inl e \<Rightarrow> (s2, Inl (Raised e))
             | Inr matches \<Rightarrow>
               if \<not> matches then (s2, Inr False)
               else (case one_attempt f_delete (\<lambda>t s. rd_delete api s t key) s2 of
                       (s3, Inl e) \<Rightarrow> (s3, Inl (Failed e))
                     | (s3, Inr deleted) \<Rightarrow> (s3, Inr deleted))))))"

text \<open>A transaction: served, failed, or committed without its confirmation; \<open>None\<close> when it raises.\<close>

datatype db_fault = Committed | RolledBack | Unconfirmed

definition db_call :: "db_fault \<Rightarrow> ('db \<Rightarrow> attempt_error + 'db \<times> 'a) \<Rightarrow> 'db \<Rightarrow> 'db \<times> 'a option" where
  "db_call f fn db =
     (case (f, fn db) of
        (Committed, Inr (db', x)) \<Rightarrow> (db', Some x)
      | (Unconfirmed, Inr (db', x)) \<Rightarrow> (db', None)
      | _ \<Rightarrow> (db, None))"

section \<open>The task and its participant\<close>

text \<open>The attributes that acceptance sets on the task object beside its fields; they are not queued.\<close>

record LockedChatTask = ChatCompletionTask +
  ck_turn_lock_owner :: string
  ck_turn_lock :: pydict

text \<open>A participant changes its state and the task; \<open>None\<close> when \<open>prepare\<close> raises, \<open>False\<close> when \<open>commit\<close> does.\<close>

record 'p participant =
  pt_prepare :: "LockedChatTask \<Rightarrow> 'p \<Rightarrow> 'p \<times> LockedChatTask option"
  pt_commit :: "'p \<Rightarrow> 'p \<times> bool"
  pt_rollback :: "'p \<Rightarrow> 'p"

text \<open>Whether the authoritative fields are untouched, value by value.\<close>

definition authoritative_unchanged :: "LockedChatTask \<Rightarrow> LockedChatTask \<Rightarrow> bool" where
  "authoritative_unchanged t t' =
     (bt_task_id t' = bt_task_id t \<and> cc_user_id t' = cc_user_id t \<and> cc_thread_id t' = cc_thread_id t \<and> cc_turn_id t' = cc_turn_id t \<and>
      ck_turn_lock_owner t' = ck_turn_lock_owner t \<and> ck_turn_lock t' = ck_turn_lock t \<and> cc_provider t' = cc_provider t \<and>
      cc_model t' = cc_model t \<and> cc_requested_provider t' = cc_requested_provider t \<and> cc_requested_model t' = cc_requested_model t \<and>
      cc_selection_source t' = cc_selection_source t \<and> cc_provider_pinned t' = cc_provider_pinned t \<and>
      cc_requested_source_mode t' = cc_requested_source_mode t \<and> cc_retrieval_override t' = cc_retrieval_override t \<and>
      cc_persona_selection_snapshot t' = cc_persona_selection_snapshot t)"

section \<open>The surroundings\<close>

record ('s, 'i, 'db, 'p) acceptance_env =
  ae_locks :: "'s redis"
  ae_lists :: "'s lists_api"
  ae_streams :: "('s, 'i) streams_api"
  ae_attempts :: "'db attempts_api"
  ae_lock_codec :: json_codec
  ae_task_codec :: task_codec
  ae_event_codec :: event_codec
  ae_lock_ttl :: "string option"
  ae_has_eval :: bool
  ae_iso :: iso_parser
  ae_messages :: messages
  ae_persona :: "int \<Rightarrow> (pyval \<times> pyval) option"
  ae_exceptions :: exceptions
  ae_id_text :: "'i \<Rightarrow> string"
  ae_participant :: "'p participant option"

text \<open>
  What one call of \<^verbatim>\<open>enqueue_chat_completion\<close> meets: the commands with their failures and times, the readings of the
  clock and the fresh identifiers. \<open>ae_persona\<close> gives the two profile columns of a thread, if they can be read.
\<close>

record acceptance_run =
  af_acquire :: "fault redis_call"
  af_acquire_now :: pydt
  af_acquire_token :: string
  af_probe :: "fault redis_call"
  af_find :: db_fault
  af_reconcile :: db_fault
  af_reconcile_now :: pydt
  af_terminal :: "fault redis_call"
  af_reacquire :: "fault redis_call"
  af_reacquire_now :: pydt
  af_reacquire_token :: string
  af_now :: pydt
  af_renew :: "fault redis_call"
  af_renew_now :: pydt
  af_create :: db_fault
  af_create_now :: pydt
  af_enqueue :: faults
  af_enqueue_slow :: bool
  af_mark :: db_fault
  af_mark_now :: pydt
  af_publish :: faults
  af_publish_now :: pydt
  af_release :: "release_faults redis_call"
  af_new_turn :: string

record ('s, 'db, 'p) acceptance_world =
  aw_redis :: 's
  aw_db :: 'db
  aw_party :: 'p

text \<open>The cause that an error names; its class is reported, not its text.\<close>

datatype cause = CallCause call_error | PersonaUnreadable | PrepareRaised | AttemptNotStored

datatype acceptance_error = EnqueueError string "cause option" | RecoveryUnconfirmed | Propagated py_error


definition CHAT_COMPLETION_QUEUE_NAME :: string where "CHAT_COMPLETION_QUEUE_NAME = ''codexify:queue:chat''"

section \<open>The turn lock of the thread\<close>

definition lock_request :: "int \<Rightarrow> string \<Rightarrow> string \<Rightarrow> pydt \<Rightarrow> string \<Rightarrow> string \<Rightarrow> acquire_args" where
  "lock_request thread_id owner turn_id now new_turn token =
     \<lparr>aq_thread_id = thread_id, aq_owner = owner, aq_ttl_seconds = Some TURN_LOCK_LEASE_SECONDS, aq_turn_id = Some turn_id,
      aq_source = Some ''api:chat.complete'', aq_return_envelope = True, aq_now = now, aq_new_turn = new_turn, aq_new_token = token\<rparr>"

definition take_turn_lock ::
    "('s, 'i, 'db, 'p) acceptance_env \<Rightarrow> fault redis_call \<Rightarrow> acquire_args \<Rightarrow> 's \<Rightarrow> 's \<times> (call_error + TurnLockEnvelope option)" where
  "take_turn_lock env c a s =
     run_with_redis_timeout c
       (attempt_at (\<lambda>t s. case acquire_turn_lock (ae_locks env) (ae_lock_codec env) (ae_lock_ttl env) a s t of (s', l) \<Rightarrow> (s', Inr l))) s"

text \<open>The release after a failure; only a \<open>TypeError\<close> gets out of it, which the second result says.\<close>

definition best_effort_release_turn_lock ::
    "('s, 'i, 'db, 'p) acceptance_env \<Rightarrow> acceptance_run \<Rightarrow> int \<Rightarrow> TurnLockEnvelope \<Rightarrow> 's \<Rightarrow> 's \<times> bool" where
  "best_effort_release_turn_lock env r thread_id l s =
     (case run_with_redis_timeout (af_release r)
         (release_attempt (ae_locks env) (ae_lock_codec env) (ae_has_eval env) (af_new_turn r) thread_id (Lock l)) s of
        (s', x) \<Rightarrow> (s', x = Inl (Raised TypeError)))"

text \<open>The lock of a turn whose attempt has ended, or has passed its deadline, is released.\<close>

definition recover_orphaned_turn_lock ::
    "('s, 'i, 'db, 'p) acceptance_env \<Rightarrow> acceptance_run \<Rightarrow> int \<Rightarrow> 's \<times> 'db \<Rightarrow> ('s \<times> 'db) \<times> (acceptance_error + bool)" where
  "recover_orphaned_turn_lock env r thread_id w =
     (case run_with_redis_timeout (af_probe r)
         (attempt_at (\<lambda>t s. (s, get_turn_lock (ae_locks env) (ae_lock_codec env) (af_new_turn r) thread_id s t))) (fst w) of
        (s, Inl _) \<Rightarrow> ((s, snd w), Inl (EnqueueError ''turn_lock_unavailable'' None))
      | (s, Inr None) \<Rightarrow> ((s, snd w), Inr False)
      | (s, Inr (Some l)) \<Rightarrow>
        (case db_call (af_find r)
            (\<lambda>db. case get_chat_completion_attempt_by_task_id (ae_attempts env) (tl_owner_task_id l) db of
               Inl e \<Rightarrow> Inl e | Inr a \<Rightarrow> Inr (db, a)) (snd w) of
           (db, None) \<Rightarrow> ((s, db), Inl RecoveryUnconfirmed)
         | (db, Some None) \<Rightarrow> ((s, db), Inr False)
         | (db, Some (Some a)) \<Rightarrow>
           if ai_thread_id (ax_identity a) \<noteq> thread_id \<or> ai_turn_id (ax_identity a) \<noteq> tl_turn_id l then ((s, db), Inr False)
           else
             (case db_call (af_reconcile r)
                 (reconcile_chat_completion_attempt_after_deadline (ae_attempts env) (ae_iso env) (ae_messages env) (af_reconcile_now r)
                   \<lparr>ai_request_id = ai_request_id (ax_identity a), ai_backend_task_id = tl_owner_task_id l, ai_thread_id = thread_id,
                    ai_turn_id = tl_turn_id l\<rparr>) db of
                (db', None) \<Rightarrow> ((s, db'), Inl RecoveryUnconfirmed)
              | (db', Some result) \<Rightarrow>
                if re_completed_message_id result = None \<and> re_terminal_event_type result = None then ((s, db'), Inr False)
                else
                  (let token = (case re_turn_lock_token result of Some (c # cs) \<Rightarrow> c # cs | _ \<Rightarrow> tl_lease_token l) in
                   case run_with_redis_timeout (af_terminal r)
                       (attempt_at (\<lambda>t s. release_terminal_attempt_turn_lock (ae_locks env) (ae_lock_codec env) thread_id (tl_owner_task_id l) token s t)) s of
                     (s', Inl _) \<Rightarrow> ((s', db'), Inl (EnqueueError ''turn_lock_unavailable'' None))
                   | (s', Inr released) \<Rightarrow> ((s', db'), Inr released)))))"

definition hold_turn_lock ::
    "('s, 'i, 'db, 'p) acceptance_env \<Rightarrow> acceptance_run \<Rightarrow> int \<Rightarrow> string \<Rightarrow> string \<Rightarrow> ('s, 'db, 'p) acceptance_world \<Rightarrow>
     ('s, 'db, 'p) acceptance_world \<times> (acceptance_error + TurnLockEnvelope)" where
  "hold_turn_lock env r thread_id owner turn_id w =
     (case take_turn_lock env (af_acquire r)
         (lock_request thread_id owner turn_id (af_acquire_now r) (af_new_turn r) (af_acquire_token r)) (aw_redis w) of
        (s, Inl _) \<Rightarrow> (w\<lparr>aw_redis := s\<rparr>, Inl (EnqueueError ''turn_lock_unavailable'' None))
      | (s, Inr (Some l)) \<Rightarrow> (w\<lparr>aw_redis := s\<rparr>, Inr l)
      | (s, Inr None) \<Rightarrow>
        (case recover_orphaned_turn_lock env r thread_id (s, aw_db w) of
           ((s1, db1), Inl e) \<Rightarrow> (w\<lparr>aw_redis := s1, aw_db := db1\<rparr>, Inl e)
         | ((s1, db1), Inr recovered) \<Rightarrow>
           if \<not> recovered then (w\<lparr>aw_redis := s1, aw_db := db1\<rparr>, Inl (EnqueueError ''turn_in_flight'' None))
           else
             (case take_turn_lock env (af_reacquire r)
                 (lock_request thread_id owner turn_id (af_reacquire_now r) (af_new_turn r) (af_reacquire_token r)) s1 of
                (s2, Inl _) \<Rightarrow> (w\<lparr>aw_redis := s2, aw_db := db1\<rparr>, Inl (EnqueueError ''turn_lock_unavailable'' None))
              | (s2, Inr (Some l)) \<Rightarrow> (w\<lparr>aw_redis := s2, aw_db := db1\<rparr>, Inr l)
              | (s2, Inr None) \<Rightarrow> (w\<lparr>aw_redis := s2, aw_db := db1\<rparr>, Inl (EnqueueError ''turn_in_flight'' None)))))"

section \<open>The first event and the outcome\<close>

record TaskCreatedEventResult =
  ct_ok :: bool
  ct_task_id :: string
  ct_event_type :: string
  ct_event_id :: "string option"
  ct_visibility_scope :: string
  ct_terminal_visibility :: bool
  ct_execution_continued :: bool
  ct_failure_class :: "string option"
  ct_error_code :: "string option"
  ct_cause_class :: "string option"
  ct_raised_publish_error :: bool

definition start_event_payload :: "LockedChatTask \<Rightarrow> int \<Rightarrow> string \<Rightarrow> pydict" where
  "start_event_payload task thread_id turn_id =
     [(''type'', PStr (bt_type task)), (''thread_id'', PInt thread_id), (''origin'', PStr (bt_origin task)), (''turn_id'', PStr turn_id),
      (''latest_turn_message_id'', opt_int (cc_latest_turn_message_id task)),
      (''persona_selection_snapshot'', opt_dict (map_option persona_dict (cc_persona_selection_snapshot task)))]"

definition publish_completion_start_event ::
    "('s, 'i, 'db, 'p) acceptance_env \<Rightarrow> acceptance_run \<Rightarrow> LockedChatTask \<Rightarrow> int \<Rightarrow> string \<Rightarrow> 's \<Rightarrow>
     's \<times> (TaskEventPublishError + 'i publish_result)" where
  "publish_completion_start_event env r task thread_id turn_id s =
     (case publish_with_visibility (ae_streams env) (ae_event_codec env) (ae_exceptions env) (af_publish r) (af_publish_now r)
         (bt_task_id task) ''task.created'' (Some (start_event_payload task thread_id turn_id)) s of
        (s', result) \<Rightarrow> (s', if pr_ok result then Inr result else Inl (from_publish_result (ae_exceptions env) result)))"

definition task_created_event_result ::
    "('i \<Rightarrow> string) \<Rightarrow> exceptions \<Rightarrow> 'i publish_result \<Rightarrow> bool \<Rightarrow> string option \<Rightarrow> TaskCreatedEventResult" where
  "task_created_event_result id_text ex result raised_publish_error cause_class =
     \<lparr>ct_ok = pr_ok result, ct_task_id = (case pr_task_id result of None \<Rightarrow> [] | Some i \<Rightarrow> i),
      ct_event_type = nonempty_or (pr_event_type result) ''task.created'', ct_event_id = map_option id_text (pr_event_id result),
      ct_visibility_scope = nonempty_or (pr_visibility_scope result) ''progress'',
      ct_terminal_visibility = pr_terminal_visibility result, ct_execution_continued = pr_execution_continued result,
      ct_failure_class = (case pr_failure_class result of None \<Rightarrow> None | Some c \<Rightarrow> or_none c),
      ct_error_code = (case pr_error_code result of None \<Rightarrow> None | Some c \<Rightarrow> or_none c),
      ct_cause_class = (case cause_class of Some (c # cs) \<Rightarrow> Some (c # cs) | _ \<Rightarrow> map_option (ex_class ex) (pr_exception result)),
      ct_raised_publish_error = raised_publish_error\<rparr>"

definition completion_acceptance_outcome :: "bool \<Rightarrow> string option \<Rightarrow> string \<times> string list" where
  "completion_acceptance_outcome ok event_id =
     (if \<not> ok then (''accepted_degraded'', [''task_created_event_publish_failed''])
      else if strip (case event_id of None \<Rightarrow> [] | Some i \<Rightarrow> i) = []
      then (''accepted_degraded'', [''task_created_event_missing_event_id''])
      else (''accepted'', []))"

record EnqueueResult =
  er_task :: LockedChatTask
  er_task_id :: string
  er_acceptance_status :: string
  er_acceptance_warnings :: "string list"
  er_queue_accepted :: bool
  er_degraded :: bool
  er_turn_lock_acquired :: bool
  er_turn_lock :: pydict
  er_task_created_event :: TaskCreatedEventResult


section \<open>Acceptance\<close>

text \<open>What a failure after the lock was taken does: the participant is rolled back if it was prepared, and the lock released.\<close>

definition fail_acceptance ::
    "('s, 'i, 'db, 'p) acceptance_env \<Rightarrow> acceptance_run \<Rightarrow> int \<Rightarrow> TurnLockEnvelope \<Rightarrow> bool \<Rightarrow> acceptance_error \<Rightarrow>
     ('s, 'db, 'p) acceptance_world \<Rightarrow> ('s, 'db, 'p) acceptance_world \<times> (acceptance_error + EnqueueResult)" where
  "fail_acceptance env r thread_id l prepared e w =
     (let party = (case ae_participant env of
          Some p \<Rightarrow> if prepared then pt_rollback p (aw_party w) else aw_party w | None \<Rightarrow> aw_party w) in
      case best_effort_release_turn_lock env r thread_id l (aw_redis w) of
        (s, type_error) \<Rightarrow> (w\<lparr>aw_redis := s, aw_party := party\<rparr>, Inl (if type_error then Propagated TypeError else e)))"

definition finish_acceptance ::
    "('s, 'i, 'db, 'p) acceptance_env \<Rightarrow> acceptance_run \<Rightarrow> int \<Rightarrow> string \<Rightarrow> LockedChatTask \<Rightarrow>
     ('s, 'db, 'p) acceptance_world \<Rightarrow> ('s, 'db, 'p) acceptance_world \<times> EnqueueResult" where
  "finish_acceptance env r thread_id turn_id task w =
     (let (db, marked) = db_call (af_mark r)
            (mark_chat_completion_attempt_accepted (ae_attempts env) (af_mark_now r) (bt_task_id task)) (aw_db w);
          (party, committed) = (case ae_participant env of None \<Rightarrow> (aw_party w, True) | Some p \<Rightarrow> pt_commit p (aw_party w));
          (s, published) = publish_completion_start_event env r task thread_id turn_id (aw_redis w);
          event = (case published of
            Inr result \<Rightarrow> task_created_event_result (ae_id_text env) (ae_exceptions env) result False None
          | Inl e \<Rightarrow> task_created_event_result (ae_id_text env) (ae_exceptions env) (to_publish_result e) True (pe_cause_class e));
          (status0, warnings0) = completion_acceptance_outcome (ct_ok event) (ct_event_id event);
          status = (if committed \<and> marked \<noteq> None then status0 else ''accepted_degraded'')
      in (w\<lparr>aw_redis := s, aw_db := db, aw_party := party\<rparr>,
          \<lparr>er_task = task, er_task_id = bt_task_id task, er_acceptance_status = status,
           er_acceptance_warnings = (if committed then warnings0 else ''acceptance_participant_commit_failed'' # warnings0),
           er_queue_accepted = True, er_degraded = (status = ''accepted_degraded''), er_turn_lock_acquired = True,
           er_turn_lock = ck_turn_lock task, er_task_created_event = event\<rparr>))"

definition queue_attempt ::
    "('s, 'i, 'db, 'p) acceptance_env \<Rightarrow> acceptance_run \<Rightarrow> int \<Rightarrow> string \<Rightarrow> TurnLockEnvelope \<Rightarrow> bool \<Rightarrow> LockedChatTask \<Rightarrow>
     ('s, 'db, 'p) acceptance_world \<Rightarrow> ('s, 'db, 'p) acceptance_world \<times> (acceptance_error + EnqueueResult)" where
  "queue_attempt env r thread_id turn_id l prepared task w =
     (let fail = (\<lambda>c w. fail_acceptance env r thread_id l prepared (EnqueueError ''queue_unavailable'' (Some (CallCause c))) w) in
      case chat_to_dict (ae_iso env) (ChatCompletionTask.truncate task) of
        Inl e \<Rightarrow> fail (Raised e) w
      | Inr d \<Rightarrow>
        (case enqueue (ae_lists env) (ae_task_codec env) (af_enqueue r) (TaskDict d) CHAT_COMPLETION_QUEUE_NAME (aw_redis w) of
           (s, Inl e) \<Rightarrow> fail (Failed e) (w\<lparr>aw_redis := s\<rparr>)
         | (s, Inr _) \<Rightarrow>
           if af_enqueue_slow r then fail TooSlow (w\<lparr>aw_redis := s\<rparr>)
           else (case finish_acceptance env r thread_id turn_id task (w\<lparr>aw_redis := s\<rparr>) of (w', result) \<Rightarrow> (w', Inr result))))"

definition store_attempt ::
    "('s, 'i, 'db, 'p) acceptance_env \<Rightarrow> acceptance_run \<Rightarrow> int \<Rightarrow> string \<Rightarrow> TurnLockEnvelope \<Rightarrow> bool \<Rightarrow> AcceptedChatTaskDeadline \<Rightarrow>
     LockedChatTask \<Rightarrow> ('s, 'db, 'p) acceptance_world \<Rightarrow> ('s, 'db, 'p) acceptance_world \<times> (acceptance_error + EnqueueResult)" where
  "store_attempt env r thread_id turn_id l prepared d task w =
     (case db_call (af_create r)
         (create_chat_completion_attempt (ae_attempts env) (af_create_now r)
           \<lparr>ai_request_id = bt_request_id task, ai_backend_task_id = bt_task_id task, ai_thread_id = thread_id, ai_turn_id = turn_id\<rparr>
           (Some d) (Some (tl_lease_token l))) (aw_db w) of
        (db, None) \<Rightarrow>
          fail_acceptance env r thread_id l prepared (EnqueueError ''attempt_persistence_unavailable'' (Some AttemptNotStored)) (w\<lparr>aw_db := db\<rparr>)
      | (db, Some _) \<Rightarrow> queue_attempt env r thread_id turn_id l prepared task (w\<lparr>aw_db := db\<rparr>))"

definition with_deadline :: "AcceptedChatTaskDeadline \<Rightarrow> LockedChatTask \<Rightarrow> LockedChatTask" where
  "with_deadline d task =
     task\<lparr>cc_accepted_at := PStr (isoformat (ad_accepted_at d)), cc_work_deadline_at := PStr (isoformat (ad_work_deadline_at d)),
       cc_terminal_deadline_at := PStr (isoformat (ad_terminal_deadline_at d))\<rparr>"

definition fix_deadline ::
    "('s, 'i, 'db, 'p) acceptance_env \<Rightarrow> acceptance_run \<Rightarrow> int \<Rightarrow> string \<Rightarrow> TurnLockEnvelope \<Rightarrow> bool \<Rightarrow> LockedChatTask \<Rightarrow>
     ('s, 'db, 'p) acceptance_world \<Rightarrow> ('s, 'db, 'p) acceptance_world \<times> (acceptance_error + EnqueueResult)" where
  "fix_deadline env r thread_id turn_id l prepared task w =
     (case build_accepted_chat_task_deadline (af_now r) of
        Inl e \<Rightarrow> fail_acceptance env r thread_id l prepared (Propagated e) w
      | Inr d \<Rightarrow>
        (case run_with_redis_timeout (af_renew r)
            (attempt_at (\<lambda>t s. renew_turn_lock (ae_locks env) (ae_lock_codec env) (ae_lock_ttl env) (ae_has_eval env) (af_renew_now r) (af_new_turn r)
              thread_id l (Some TURN_LOCK_LEASE_SECONDS) s t)) (aw_redis w) of
           (s, Inr (Some l')) \<Rightarrow>
             store_attempt env r thread_id turn_id l' prepared d ((with_deadline d task)\<lparr>ck_turn_lock := as_dict l'\<rparr>) (w\<lparr>aw_redis := s\<rparr>)
         | (s, _) \<Rightarrow> fail_acceptance env r thread_id l prepared (EnqueueError ''turn_lock_unavailable'' None) (w\<lparr>aw_redis := s\<rparr>)))"

definition accept_under_lock ::
    "('s, 'i, 'db, 'p) acceptance_env \<Rightarrow> acceptance_run \<Rightarrow> int \<Rightarrow> string \<Rightarrow> TurnLockEnvelope \<Rightarrow> LockedChatTask \<Rightarrow>
     ('s, 'db, 'p) acceptance_world \<Rightarrow> ('s, 'db, 'p) acceptance_world \<times> (acceptance_error + EnqueueResult)" where
  "accept_under_lock env r thread_id turn_id l task w =
     (case Option.bind (ae_persona env thread_id) (\<lambda>p. persona_snapshot (fst p) (snd p)) of
        None \<Rightarrow>
          fail_acceptance env r thread_id l False (EnqueueError ''persona_selection_snapshot_unavailable'' (Some PersonaUnreadable)) w
      | Some persona \<Rightarrow>
        (let task1 = task\<lparr>cc_persona_selection_snapshot := Some persona\<rparr> in
         case ae_participant env of
           None \<Rightarrow> fix_deadline env r thread_id turn_id l False task1 w
         | Some p \<Rightarrow>
           (case pt_prepare p task1 (aw_party w) of
              (party, None) \<Rightarrow>
                fail_acceptance env r thread_id l False (EnqueueError ''acceptance_participant_prepare_failed'' (Some PrepareRaised))
                  (w\<lparr>aw_party := party\<rparr>)
            | (party, Some task2) \<Rightarrow>
              if \<not> authoritative_unchanged task1 task2
              then fail_acceptance env r thread_id l True (EnqueueError ''acceptance_participant_authoritative_fields_mutated'' None)
                     (w\<lparr>aw_party := party\<rparr>)
              else fix_deadline env r thread_id turn_id l True task2 (w\<lparr>aw_party := party\<rparr>))))"

definition enqueue_chat_completion ::
    "('s, 'i, 'db, 'p) acceptance_env \<Rightarrow> acceptance_run \<Rightarrow> LockedChatTask \<Rightarrow> int \<Rightarrow> string \<Rightarrow> string option \<Rightarrow>
     ('s, 'db, 'p) acceptance_world \<Rightarrow> ('s, 'db, 'p) acceptance_world \<times> (acceptance_error + EnqueueResult)" where
  "enqueue_chat_completion env r task thread_id turn_id request_id w =
     (case normalize_task_identity (bt_task_id task) of
        None \<Rightarrow> (w, Inl (EnqueueError ''task_identity_invalid'' None))
      | Some task_id \<Rightarrow>
        if cc_thread_id task \<noteq> thread_id then (w, Inl (EnqueueError ''task_identity_invalid'' None))
        else
          (let task1 = task\<lparr>bt_task_id := task_id, bt_request_id := (case request_id of None \<Rightarrow> bt_request_id task | Some i \<Rightarrow> i),
             cc_turn_id := Some turn_id, ck_turn_lock_owner := task_id\<rparr> in
           case hold_turn_lock env r thread_id task_id turn_id w of
             (w1, Inl e) \<Rightarrow> (w1, Inl e)
           | (w1, Inr l) \<Rightarrow> accept_under_lock env r thread_id turn_id l (task1\<lparr>ck_turn_lock := as_dict l\<rparr>) w1))"

end
