(* ===== verification/Acceptance_Results.thy ===== *)
theory Acceptance_Results
  imports Chat_Acceptance
begin

text \<open>
  What a caller of \<open>enqueue_chat_completion\<close> (\<^verbatim>\<open>Chat_Acceptance\<close>) may rely on. The Redis server is one on which the turn
  lock, the queues and the event streams work at once, each leaving the keys of the others alone: the locale
  \<open>chat_redis\<close>, which the in-memory server of the queue module satisfies.
\<close>

section \<open>A server for locks, queues and streams\<close>

locale chat_redis = redis_server srv + redis_lists lists items
  for srv :: "'s redis" and lists :: "'s lists_api" and items :: "'s \<Rightarrow> string \<Rightarrow> string list" +
  fixes streams :: "('s, 'i) streams_api"
  assumes lpush_key: "k \<noteq> q \<Longrightarrow> rd_get srv (la_lpush lists q v s) t k = rd_get srv s t k"
    and xadd_key: "k \<noteq> q \<Longrightarrow> rd_get srv (fst (sa_xadd streams q flds s)) t k = rd_get srv s t k"
    and set_items: "q \<noteq> k \<Longrightarrow> items (rd_set srv s t k v ttl) q = items s q"
    and del_items: "q \<noteq> k \<Longrightarrow> items (rd_del srv s t k) q = items s q"
    and xadd_items: "q \<noteq> k \<Longrightarrow> items (fst (sa_xadd streams k flds s)) q = items s q"

interpretation mem_chat: chat_redis mem_redis mem_lists mem_list "mem_streams now"
proof (unfold_locales, goal_cases)
  case (1 k q v s t)
  then show ?case
    by (simp add: mem_redis_def mem_get_def mem_lists_def mem_lpush_def purge_if_expired_def Let_def split: option.splits)
next
  case (2 k q flds s t)
  then show ?case
    by (simp add: mem_redis_def mem_get_def mem_streams_def mem_xadd_def purge_if_expired_def Let_def split: option.splits)
next
  case (3 q k s t v ttl)
  then show ?case
    by (simp add: mem_redis_def mem_set_def mem_list_def purge_if_expired_def Let_def split: option.splits)
next
  case (4 q k s t)
  then show ?case
    by (simp add: mem_redis_def mem_delete_def mem_list_def purge_if_expired_def Let_def split: option.splits)
next
  case (5 q k flds s)
  then show ?case by (simp add: mem_streams_def mem_xadd_def mem_list_def Let_def)
qed

section \<open>Commands\<close>

text \<open>When a command ran, and when a call began, ran its commands and ended.\<close>

definition fault_times :: "fault \<Rightarrow> int list" where
  "fault_times f = ft_lost f @ [ft_time f]"

definition release_times :: "release_faults \<Rightarrow> int list" where
  "release_times f = fault_times (fst f) @ fault_times (fst (snd f)) @ fault_times (snd (snd f))"

definition call_times :: "('f \<Rightarrow> int list) \<Rightarrow> 'f redis_call \<Rightarrow> int list" where
  "call_times moments c = fst (rc_times c) # moments (fst (rc_faults c)) @ moments (snd (rc_faults c)) @ [snd (rc_times c)]"

text \<open>A command that is answered the first time it runs.\<close>

definition served :: "fault \<Rightarrow> bool" where
  "served f \<longleftrightarrow> ft_lost f = [] \<and> ft_end f = Answered"

text \<open>What holds of the server at a time and later, and is kept whenever the command runs, is kept by an attempt and a call.\<close>

definition lasting :: "(int \<Rightarrow> 's \<Rightarrow> bool) \<Rightarrow> bool" where
  "lasting P \<longleftrightarrow> (\<forall>t t' s. P t s \<longrightarrow> t \<le> t' \<longrightarrow> P t' s)"

definition runs_keep :: "(int \<Rightarrow> 's \<Rightarrow> bool) \<Rightarrow> (int \<Rightarrow> 's \<Rightarrow> 's \<times> 'a) \<Rightarrow> bool" where
  "runs_keep P fn \<longleftrightarrow> (\<forall>t s. P t s \<longrightarrow> P t (fst (fn t s)))"

lemma lastingD: "lasting P \<Longrightarrow> P t s \<Longrightarrow> t \<le> t' \<Longrightarrow> P t' s"
  unfolding lasting_def by blast

lemma runs_keepD: "runs_keep P fn \<Longrightarrow> P t s \<Longrightarrow> P t (fst (fn t s))"
  unfolding runs_keep_def by blast

definition kept_until :: "(int \<Rightarrow> 's \<Rightarrow> bool) \<Rightarrow> ('f \<Rightarrow> int list) \<Rightarrow> ('f \<Rightarrow> 's \<Rightarrow> 's \<times> 'a) \<Rightarrow> bool" where
  "kept_until P moments attempt \<longleftrightarrow> (\<forall>t0 t1 f s. sorted (t0 # moments f @ [t1]) \<longrightarrow> P t0 s \<longrightarrow> P t1 (fst (attempt f s)))"

lemma kept_untilD: "kept_until P moments attempt \<Longrightarrow> sorted (t0 # moments f @ [t1]) \<Longrightarrow> P t0 s \<Longrightarrow> P t1 (fst (attempt f s))"
  unfolding kept_until_def by blast

lemma reruns_kept:
  assumes keep: "runs_keep P fn" and later: "lasting P"
    and "P t0 s" "sorted (t0 # ts @ [t1])"
  shows "P t1 (reruns ts fn s)"
  using assms(3,4)
proof (induction ts arbitrary: t0 s)
  case (Cons t ts)
  then have "P t (fst (fn t s))" using runs_keepD [OF keep] lastingD [OF later, of t0 s t] by simp
  with Cons show ?case by simp
qed (use lastingD [OF later] in simp)

lemma one_attempt_kept:
  assumes keep: "runs_keep P fn" and later: "lasting P"
    and "P t0 s" "sorted (t0 # fault_times f @ [t1])"
  shows "P t1 (fst (one_attempt f fn s))" "P (ft_time f) (reruns (ft_lost f) fn s)"
proof -
  show r: "P (ft_time f) (reruns (ft_lost f) fn s)"
    by (rule reruns_kept [OF keep later assms(3)]) (use assms(4) in \<open>auto simp: fault_times_def sorted_append\<close>)
  have "ft_time f \<le> t1" using assms(4) by (simp add: fault_times_def sorted_append)
  then show "P t1 (fst (one_attempt f fn s))" using lastingD [OF later r] lastingD [OF later runs_keepD [OF keep r]] by (simp add: one_attempt_cases)
qed

lemma attempt_at_state: "fst (attempt_at fn f s) = fst (one_attempt f fn s)"
  by (simp add: attempt_at_def split: prod.splits sum.splits)

lemma attempt_at_kept:
  assumes "runs_keep P fn" "lasting P"
  shows "kept_until P fault_times (attempt_at fn)"
  unfolding kept_until_def attempt_at_state using one_attempt_kept(1) [OF assms] by blast

lemma attempt_at_Inr: "attempt_at fn f s = (s', Inr x) \<Longrightarrow> fn (ft_time f) (reruns (ft_lost f) fn s) = (s', Inr x)"
  by (auto simp: attempt_at_def one_attempt_cases split: sum.splits if_splits)
    (metis prod.collapse)

lemma attempt_at_served:
  "served f \<Longrightarrow> fn (ft_time f) s = (s', Inr x) \<Longrightarrow> attempt_at fn f s = (s', Inr x)"
  by (simp add: attempt_at_def one_attempt_cases served_def)

text \<open>The two attempts of a call.\<close>

lemma call_attempts:
  assumes "sorted (t0 # call_times moments c)"
  obtains t where "sorted (t0 # moments (fst (rc_faults c)) @ [t])" "sorted (t # moments (snd (rc_faults c)) @ [snd (rc_times c)])"
    "t0 \<le> fst (rc_times c)" "fst (rc_times c) \<le> t" "t \<le> snd (rc_times c)"
proof (rule that)
  let ?t = "hd (moments (snd (rc_faults c)) @ [snd (rc_times c)])"
  show "sorted (t0 # moments (fst (rc_faults c)) @ [?t])" "sorted (?t # moments (snd (rc_faults c)) @ [snd (rc_times c)])"
      "t0 \<le> fst (rc_times c)" "fst (rc_times c) \<le> ?t" "?t \<le> snd (rc_times c)"
    using assms by (cases "moments (snd (rc_faults c))"; auto simp: call_times_def sorted_append)+
qed

lemma command_kept:
  assumes keep: "kept_until P moments attempt" and later: "lasting P"
    and "P t0 s" "sorted (t0 # call_times moments c)"
  shows "P (snd (rc_times c)) (fst (run_with_redis_timeout c attempt s))"
proof -
  from call_attempts [OF assms(4)] obtain t where t: "sorted (t0 # moments (fst (rc_faults c)) @ [t])"
      "sorted (t # moments (snd (rc_faults c)) @ [snd (rc_times c)])" "t \<le> snd (rc_times c)" by blast
  obtain s1 r1 where 1: "attempt (fst (rc_faults c)) s = (s1, r1)" by fastforce
  obtain s2 r2 where 2: "attempt (snd (rc_faults c)) s1 = (s2, r2)" by fastforce
  have s1: "P t s1" using kept_untilD [OF keep t(1) assms(3)] 1 by simp
  have "P (snd (rc_times c)) s2" using kept_untilD [OF keep t(2) s1] 2 by simp
  then show ?thesis using lastingD [OF later s1 t(3)] by (auto simp: run_with_redis_timeout_def 1 2 split: sum.splits)
qed

lemma command_result:
  assumes "run_with_redis_timeout c attempt s = (s', Inr x)"
  shows "\<not> rc_slow c \<and> (attempt (fst (rc_faults c)) s = (s', Inr x) \<or>
    (\<exists>s1 e. attempt (fst (rc_faults c)) s = (s1, Inl e) \<and> attempt (snd (rc_faults c)) s1 = (s', Inr x)))"
proof -
  obtain s1 r1 where 1: "attempt (fst (rc_faults c)) s = (s1, r1)" by fastforce
  obtain s2 r2 where 2: "attempt (snd (rc_faults c)) s1 = (s2, r2)" by fastforce
  show ?thesis using assms by (auto simp: run_with_redis_timeout_def 1 2 split: sum.splits if_splits)
qed

lemma command_result_at:
  assumes run: "run_with_redis_timeout c (attempt_at fn) s = (s', Inr x)"
    and keep: "runs_keep P fn" and later: "lasting P"
    and "P t0 s" "sorted (t0 # call_times fault_times c)"
  obtains t s0 where "fn t s0 = (s', Inr x)" "fst (rc_times c) \<le> t" "t \<le> snd (rc_times c)" "P t s0"
proof -
  from call_attempts [OF assms(5)] obtain u where u: "sorted (t0 # fault_times (fst (rc_faults c)) @ [u])"
      "sorted (u # fault_times (snd (rc_faults c)) @ [snd (rc_times c)])" "fst (rc_times c) \<le> u" "u \<le> snd (rc_times c)" by blast
  note keeps = one_attempt_kept [OF keep later]
  have first: "fst (rc_times c) \<le> ft_time (fst (rc_faults c))" using assms(5) by (simp add: call_times_def fault_times_def sorted_append)
  have bounds: "ft_time (fst (rc_faults c)) \<le> u" "u \<le> ft_time (snd (rc_faults c))" "ft_time (snd (rc_faults c)) \<le> snd (rc_times c)"
    using u(1,2) by (auto simp: fault_times_def sorted_append)
  from command_result [OF run] consider "attempt_at fn (fst (rc_faults c)) s = (s', Inr x)"
    | s1 e where "attempt_at fn (fst (rc_faults c)) s = (s1, Inl e)" "attempt_at fn (snd (rc_faults c)) s1 = (s', Inr x)" by blast
  then show thesis
  proof cases
    case 1
    show ?thesis by (rule that [OF attempt_at_Inr [OF 1] _ _ keeps(2) [OF assms(4) u(1)]]) (use first bounds in linarith)+
  next
    case (2 s1 e)
    have "P u s1" using keeps(1) [OF assms(4) u(1)] 2(1) attempt_at_state [of fn "fst (rc_faults c)" s] by simp
    note kept = keeps(2) [OF this u(2)]
    show ?thesis by (rule that [OF attempt_at_Inr [OF 2(2)] _ _ kept]) (use u(3) bounds in linarith)+
  qed
qed

lemma command_served:
  assumes "attempt (fst (rc_faults c)) s = (s', Inr x)"
  shows "run_with_redis_timeout c attempt s = (s', if rc_slow c then Inl TooSlow else Inr x)"
  using assms by (simp add: run_with_redis_timeout_def)

text \<open>What every run of the command keeps, whenever it is.\<close>

lemma one_attempt_same:
  assumes "\<And>t s. g (fst (fn t s)) = g s"
  shows "g (fst (one_attempt f fn s)) = g s"
proof -
  have "g (reruns ts fn s) = g s" for ts by (induction ts arbitrary: s) (simp_all add: assms)
  then show ?thesis by (simp add: one_attempt_cases assms)
qed

lemma command_same:
  assumes "\<And>f s. g (fst (attempt f s)) = g s" "run_with_redis_timeout c attempt s = (s', x)"
  shows "g s' = g s"
proof -
  obtain s1 r1 where 1: "attempt (fst (rc_faults c)) s = (s1, r1)" by fastforce
  obtain s2 r2 where 2: "attempt (snd (rc_faults c)) s1 = (s2, r2)" by fastforce
  have "g s1 = g s" "g s2 = g s1" using assms(1) [of _ s] assms(1) [of _ s1] 1 2 by (metis fst_conv)+
  moreover have "s' = s1 \<or> s' = s2" using assms(2) by (auto simp: run_with_redis_timeout_def 1 2 split: sum.splits if_splits)
  ultimately show ?thesis by auto
qed

lemma reconnect_keeps:
  assumes "\<And>t s. g (fst (fn t s)) = g s"
  shows "g (fst (with_reconnect f fn s)) = g s"
proof -
  have "g (reruns ts fn s) = g s" for ts s by (induction ts arbitrary: s) (simp_all add: assms)
  then show ?thesis by (simp add: with_reconnect_cases one_attempt_cases assms split_beta)
qed

lemma publish_state:
  "fst (publish api codec f now i t d s) \<in> insert s (range (\<lambda>flds. fst (with_reconnect f (\<lambda>_. sa_xadd api (stream_key i) flds) s)))"
proof (cases "ev_dumps codec (case d of None \<Rightarrow> [] | Some d \<Rightarrow> d)")
  case (Some body)
  obtain s' x where run: "with_reconnect f (\<lambda>_. sa_xadd api (stream_key i) (event_fields i t body now)) s = (s', x)" by fastforce
  then have "fst (publish api codec f now i t d s) = fst (with_reconnect f (\<lambda>_. sa_xadd api (stream_key i) (event_fields i t body now)) s)"
    by (cases x) (simp_all add: publish_def Some)
  then show ?thesis by blast
qed (simp add: publish_def)

section \<open>The lock of the thread\<close>

text \<open>From a time on, the key holds this turn's lock or nothing; until another time it holds the lock.\<close>

definition mine_or_free :: "'s redis \<Rightarrow> json_codec \<Rightarrow> int \<Rightarrow> string \<Rightarrow> string \<Rightarrow> string \<Rightarrow> int \<Rightarrow> 's \<Rightarrow> bool" where
  "mine_or_free srv codec thread owner token turn t0 s \<longleftrightarrow>
     (\<forall>t \<ge> t0. case rd_get srv s t (turn_lock_key thread) of None \<Rightarrow> True | Some v \<Rightarrow> lock_value codec v thread owner token turn)"

definition held_until :: "'s redis \<Rightarrow> json_codec \<Rightarrow> int \<Rightarrow> string \<Rightarrow> string \<Rightarrow> string \<Rightarrow> int \<Rightarrow> int \<Rightarrow> 's \<Rightarrow> bool" where
  "held_until srv codec thread owner token turn t0 t1 s \<longleftrightarrow>
     (\<forall>t. t0 \<le> t \<and> t < t1 \<longrightarrow> (\<exists>v. rd_get srv s t (turn_lock_key thread) = Some v \<and> lock_value codec v thread owner token turn))"

lemma mine_or_free_later: "mine_or_free srv codec thread owner token turn t s \<Longrightarrow> t \<le> t' \<Longrightarrow> mine_or_free srv codec thread owner token turn t' s"
  by (simp add: mine_or_free_def)

lemma other_keys [simp]:
  "turn_lock_key thread \<noteq> CHAT_COMPLETION_QUEUE_NAME" "turn_lock_key thread \<noteq> stream_key task_id"
  "CHAT_COMPLETION_QUEUE_NAME \<noteq> turn_lock_key thread" "CHAT_COMPLETION_QUEUE_NAME \<noteq> stream_key task_id"
  "stream_key task_id \<noteq> CHAT_COMPLETION_QUEUE_NAME"
  by (simp_all add: turn_lock_key_def CHAT_COMPLETION_QUEUE_NAME_def stream_key_def)

lemma lease_840: "TURN_LOCK_LEASE_SECONDS = 840"
  by (simp add: budget_defs)

lemma request_ttl: "acquire_ttl raw (lock_request thread owner turn now nt token) = 840"
  by (simp add: acquire_ttl_def lock_request_def coerce_lock_ttl_seconds_def lease_840)

lemma request_fields [simp]:
  "aq_thread_id (lock_request thread owner turn now nt token) = thread" "aq_owner (lock_request thread owner turn now nt token) = owner"
  "aq_turn_id (lock_request thread owner turn now nt token) = Some turn"
  "aq_new_token (lock_request thread owner turn now nt token) = token" "aq_return_envelope (lock_request thread owner turn now nt token)"
  by (simp_all add: lock_request_def)

definition plain_id :: "string \<Rightarrow> bool" where
  "plain_id x \<longleftrightarrow> strip x = x \<and> x \<noteq> []"

definition valid_turn :: "int \<Rightarrow> string \<Rightarrow> bool" where
  "valid_turn thread turn \<longleftrightarrow> thread \<noteq> 0 \<and> \<bar>thread\<bar> < 100000000000000 \<and> turn \<noteq> []"

lemma request_lockable:
  "valid_turn thread turn \<Longrightarrow> plain_id owner \<Longrightarrow> plain_id token \<Longrightarrow> lockable raw (lock_request thread owner turn now nt token)"
  by (cases turn) (simp_all add: lockable_def request_ttl valid_turn_def plain_id_def)

lemma request_turn: "valid_turn thread turn \<Longrightarrow> tl_turn_id (acquired_lock raw (lock_request thread owner turn now nt token)) = turn"
  by (cases turn) (simp_all add: acquired_lock_def build_turn_lock_envelope_def Let_def valid_turn_def)

lemma no_space_strip: "\<forall>c \<in> set x. \<not> py_isspace c \<Longrightarrow> strip x = x"
  unfolding strip_def by (metis dropWhile_eq_self_iff hd_in_set rev_rev_ident set_rev)

lemma hex_text_Suc: "\<exists>x \<in> set ''0123456789abcdef''. hex_text (Suc k) n = hex_text k (n div 16) @ [x]"
proof (rule bexI)
  show "hex_text (Suc k) n = hex_text k (n div 16) @ [''0123456789abcdef'' ! (n mod 16)]" by (rule hex_text.simps(2))
  show "''0123456789abcdef'' ! (n mod 16) \<in> set ''0123456789abcdef''" by (rule nth_mem) simp
qed

lemma hex_text_chars: "set (hex_text k n) \<subseteq> set ''0123456789abcdef'' \<and> length (hex_text k n) = k"
proof (induction k arbitrary: n)
  case (Suc k)
  obtain x where x: "x \<in> set ''0123456789abcdef''" "hex_text (Suc k) n = hex_text k (n div 16) @ [x]"
    using hex_text_Suc [of k n] by blast
  have "set (hex_text (Suc k) n) = insert x (set (hex_text k (n div 16)))" "length (hex_text (Suc k) n) = Suc (length (hex_text k (n div 16)))"
    unfolding x(2) by simp_all
  with Suc.IH [of "n div 16"] x(1) show ?case by (metis insert_subset)
qed simp

lemma uuid_text_plain: "plain_id (uuid_text n)"
proof -
  let ?h = "hex_text 32 n"
  have "set (uuid_text n) \<subseteq> insert (CHR ''-'') (set ?h)"
    by (auto simp: uuid_text_def Let_def dest: in_set_takeD in_set_dropD)
  also have "\<dots> \<subseteq> set ''-0123456789abcdef''" using hex_text_chars [of 32 n] by fastforce
  finally have "\<forall>c \<in> set (uuid_text n). \<not> py_isspace c" by (auto simp: py_isspace_def)
  then have "strip (uuid_text n) = uuid_text n" by (rule no_space_strip)
  moreover have "uuid_text n \<noteq> []" by (simp add: uuid_text_def Let_def)
  ultimately show ?thesis by (simp add: plain_id_def)
qed

lemma task_identity_plain: "normalize_task_identity raw = Some i \<Longrightarrow> plain_id i"
  by (auto simp: normalize_task_identity_def Let_def uuid_text_plain split: if_splits)

text \<open>The state of the participant after a failure.\<close>

definition undone :: "('s, 'i, 'db, 'p) acceptance_env \<Rightarrow> bool \<Rightarrow> 'p \<Rightarrow> 'p" where
  "undone env prepared p = (case ae_participant env of Some q \<Rightarrow> if prepared then pt_rollback q p else p | None \<Rightarrow> p)"

text \<open>
  A clean refusal: the key is free, at most the \<open>n\<close> copies of one task that its command put there were queued, and none
  unless the queue was reported as unavailable, and no attempt was accepted that was not before.
\<close>

definition refusal ::
    "('s, 'i, 'db, 'p) acceptance_env \<Rightarrow> acceptance_run \<Rightarrow> ('s \<Rightarrow> string \<Rightarrow> string list) \<Rightarrow> int \<Rightarrow> ('s, 'db, 'p) acceptance_world \<Rightarrow>
     ('s, 'db, 'p) acceptance_world \<Rightarrow> acceptance_error \<Rightarrow> bool" where
  "refusal env r items thread w w' e \<longleftrightarrow>
     (\<forall>t \<ge> snd (rc_times (af_release r)). rd_get (ae_locks env) (aw_redis w') t (turn_lock_key thread) = None) \<and>
     (\<exists>n v. n \<le> copies (af_enqueue r) \<and> items (aw_redis w') CHAT_COMPLETION_QUEUE_NAME = replicate n v @ items (aw_redis w) CHAT_COMPLETION_QUEUE_NAME \<and>
       (0 < n \<longrightarrow> (\<exists>c. e = EnqueueError ''queue_unavailable'' c))) \<and>
     (\<forall>row \<in> orm_rows (ae_attempts env) (aw_db w'). row \<in> orm_rows (ae_attempts env) (aw_db w) \<or> at_accepted_at row = None)"

lemma refusalI:
  assumes "\<forall>t \<ge> snd (rc_times (af_release r)). rd_get (ae_locks env) (aw_redis w') t (turn_lock_key thread) = None"
    and "items (aw_redis w') CHAT_COMPLETION_QUEUE_NAME = replicate n v @ items (aw_redis w) CHAT_COMPLETION_QUEUE_NAME" "n \<le> copies (af_enqueue r)"
    and "0 < n \<Longrightarrow> e = EnqueueError ''queue_unavailable'' c"
    and "orm_rows (ae_attempts env) (aw_db w') \<subseteq> orm_rows (ae_attempts env) (aw_db w) \<union> {row. at_accepted_at row = None}"
  shows "refusal env r items thread w w' e"
  unfolding refusal_def using assms by (intro conjI exI [of _ n] exI [of _ v]) auto

lemma refusal_from:
  assumes "refusal env r items thread w1 w' e"
    and "items (aw_redis w1) CHAT_COMPLETION_QUEUE_NAME = items (aw_redis w) CHAT_COMPLETION_QUEUE_NAME"
    and "orm_rows (ae_attempts env) (aw_db w1) \<subseteq> orm_rows (ae_attempts env) (aw_db w) \<union> {row. at_accepted_at row = None}"
  shows "refusal env r items thread w w' e"
proof -
  obtain n v where "n \<le> copies (af_enqueue r)" "0 < n \<Longrightarrow> \<exists>c. e = EnqueueError ''queue_unavailable'' c"
      "items (aw_redis w') CHAT_COMPLETION_QUEUE_NAME = replicate n v @ items (aw_redis w) CHAT_COMPLETION_QUEUE_NAME"
    using assms(1) unfolding refusal_def assms(2) by metis
  moreover have "orm_rows (ae_attempts env) (aw_db w') \<subseteq> orm_rows (ae_attempts env) (aw_db w) \<union> {row. at_accepted_at row = None}"
    using assms(1,3) by (auto simp: refusal_def)
  moreover have "\<forall>t \<ge> snd (rc_times (af_release r)). rd_get (ae_locks env) (aw_redis w') t (turn_lock_key thread) = None"
    using assms(1) by (simp add: refusal_def)
  ultimately show ?thesis unfolding refusal_def by (intro conjI exI [of _ n] exI [of _ v]) auto
qed

text \<open>A participant whose preparation can be undone, and changes nothing when it raises.\<close>

definition undoable :: "('s, 'i, 'db, 'p) acceptance_env \<Rightarrow> bool" where
  "undoable env \<longleftrightarrow> (case ae_participant env of None \<Rightarrow> True
     | Some q \<Rightarrow> \<forall>t p. case pt_prepare q t p of (p', None) \<Rightarrow> p' = p | (p', Some _) \<Rightarrow> pt_rollback q p' = p)"

text \<open>The times of the commands follow one another, and a fresh token is a text without blanks around.\<close>

definition times_ordered :: "acceptance_run \<Rightarrow> bool" where
  "times_ordered r \<longleftrightarrow> sorted (concat (map (call_times fault_times) [af_acquire r, af_probe r, af_terminal r, af_reacquire r, af_renew r]) @
     call_times release_times (af_release r))"

definition fresh_tokens :: "acceptance_run \<Rightarrow> bool" where
  "fresh_tokens r \<longleftrightarrow> plain_id (af_acquire_token r) \<and> plain_id (af_reacquire_token r)"

lemma call_times_ends: "sorted (call_times moments c) \<Longrightarrow> fst (rc_times c) \<le> snd (rc_times c)"
  by (simp add: call_times_def sorted_append)

lemma times_orderedD:
  assumes "times_ordered r"
  shows "sorted (call_times fault_times (af_acquire r))" "sorted (call_times fault_times (af_reacquire r))"
    "sorted (call_times fault_times (af_renew r))" "sorted (call_times release_times (af_release r))"
    "sorted (call_times fault_times (af_probe r))" "sorted (call_times fault_times (af_terminal r))"
    "snd (rc_times (af_acquire r)) \<le> fst (rc_times (af_probe r))" "snd (rc_times (af_probe r)) \<le> fst (rc_times (af_terminal r))"
    "snd (rc_times (af_terminal r)) \<le> fst (rc_times (af_reacquire r))" "snd (rc_times (af_reacquire r)) \<le> fst (rc_times (af_renew r))"
    "snd (rc_times (af_renew r)) \<le> fst (rc_times (af_release r))"
  using assms unfolding times_ordered_def by (simp_all add: sorted_append) (simp_all add: call_times_def)

lemma times_later:
  assumes "times_ordered r"
  shows "fst (rc_times (af_acquire r)) \<le> snd (rc_times (af_acquire r))" "snd (rc_times (af_acquire r)) \<le> fst (rc_times (af_renew r))"
    "fst (rc_times (af_renew r)) \<le> snd (rc_times (af_renew r))" "fst (rc_times (af_release r)) \<le> snd (rc_times (af_release r))"
    "fst (rc_times (af_acquire r)) \<le> snd (rc_times (af_release r))" "fst (rc_times (af_reacquire r)) \<le> snd (rc_times (af_reacquire r))"
  using times_orderedD(1-6) [OF assms, THEN call_times_ends] times_orderedD(7-11) [OF assms] by linarith+

text \<open>A release of which the first attempt gets to the end, by the script or by the comparison in Python.\<close>

definition release_served :: "('s, 'i, 'db, 'p) acceptance_env \<Rightarrow> release_faults \<Rightarrow> bool" where
  "release_served env f \<longleftrightarrow> (ae_has_eval env \<and> ft_end (fst f) = Answered) \<or>
     (ft_end (fst (snd f)) = Answered \<and> ft_end (snd (snd f)) = Answered)"

text \<open>
  A turn that nothing keeps from the queue: a task with an identity for its thread, on a thread whose key is free; a
  persona that can be read and no participant; the commands on the lock are served at once, and the renewal is sent
  before the acquired lock expires; the clock gives a deadline that the parser of times reads back; and the attempt is
  stored.
\<close>

definition reaches_queue ::
    "('s, 'i, 'db, 'p) acceptance_env \<Rightarrow> acceptance_run \<Rightarrow> LockedChatTask \<Rightarrow> int \<Rightarrow> string \<Rightarrow> string option \<Rightarrow>
     ('s, 'db, 'p) acceptance_world \<Rightarrow> string \<Rightarrow> PersonaSelectionSnapshot \<Rightarrow> AcceptedChatTaskDeadline \<Rightarrow> bool" where
  "reaches_queue env r task thread turn request_id w i persona d \<longleftrightarrow>
     normalize_task_identity (bt_task_id task) = Some i \<and> cc_thread_id task = thread \<and>
     rd_get (ae_locks env) (aw_redis w) (fst (rc_times (af_acquire r))) (turn_lock_key thread) = None \<and>
     served (fst (rc_faults (af_acquire r))) \<and> \<not> rc_slow (af_acquire r) \<and>
     Option.bind (ae_persona env thread) (\<lambda>p. persona_snapshot (fst p) (snd p)) = Some persona \<and> ae_participant env = None \<and>
     build_accepted_chat_task_deadline (af_now r) = Inr d \<and> inverts_isoformat (ae_iso env) d \<and>
     ae_has_eval env \<and> served (fst (rc_faults (af_renew r))) \<and> \<not> rc_slow (af_renew r) \<and>
     ft_time (fst (rc_faults (af_renew r))) < ft_time (fst (rc_faults (af_acquire r))) + 840000 \<and> af_create r = Committed \<and>
     (\<exists>db. create_chat_completion_attempt (ae_attempts env) (af_create_now r)
        \<lparr>ai_request_id = (case request_id of None \<Rightarrow> bt_request_id task | Some i \<Rightarrow> i), ai_backend_task_id = i, ai_thread_id = thread, ai_turn_id = turn\<rparr>
        (Some d) (Some (af_acquire_token r)) (aw_db w) = Inr (db, ()))"

definition releases :: "('s, 'i, 'db, 'p) acceptance_env \<Rightarrow> acceptance_run \<Rightarrow> bool" where
  "releases env r \<longleftrightarrow> release_served env (fst (rc_faults (af_release r))) \<and> sorted (call_times release_times (af_release r))"

lemma call_times_from: "sorted (call_times moments c) \<Longrightarrow> t0 \<le> fst (rc_times c) \<Longrightarrow> sorted (t0 # call_times moments c)"
  unfolding call_times_def sorted_simps by (auto intro: order_trans)

text \<open>The task as it is queued.\<close>

definition queued_task ::
    "LockedChatTask \<Rightarrow> string \<Rightarrow> string option \<Rightarrow> string \<Rightarrow> PersonaSelectionSnapshot \<Rightarrow> AcceptedChatTaskDeadline \<Rightarrow> ChatCompletionTask" where
  "queued_task task i request_id turn persona d =
     ChatCompletionTask.truncate (with_deadline d (task\<lparr>bt_task_id := i,
       bt_request_id := (case request_id of None \<Rightarrow> bt_request_id task | Some i \<Rightarrow> i), cc_turn_id := Some turn,
       cc_persona_selection_snapshot := Some persona\<rparr>))"

definition queued_dict :: "ChatCompletionTask \<Rightarrow> pydict" where
  "queued_dict t = chat_fields t @ deadline_items t"

lemma deadline_kept:
  assumes "valid_deadline d" "inverts_isoformat fromiso d" "deadline_items t = deadline_to_dict d"
  shows "chat_to_dict fromiso t = Inr (queued_dict t)"
proof -
  have "map_of (chat_fields t @ deadline_items t) k = map_of (deadline_to_dict d) k" if "k \<in> set DEADLINE_FIELDS" for k
  proof -
    have "map_of (chat_fields t) ''accepted_at'' = None" "map_of (chat_fields t) ''work_deadline_at'' = None"
        "map_of (chat_fields t) ''terminal_deadline_at'' = None"
      by (simp_all add: chat_fields_def base_dict_def)
    then have "map_of (chat_fields t) k = None" using that by (auto simp: DEADLINE_FIELDS_def)
    then show ?thesis by (simp add: assms(3) map_add_def)
  qed
  then have same: "map (\<lambda>k. map_of (chat_fields t @ deadline_items t) k \<noteq> None) DEADLINE_FIELDS = map (\<lambda>k. map_of (deadline_to_dict d) k \<noteq> None) DEADLINE_FIELDS"
      "map (dict_get (chat_fields t @ deadline_items t)) DEADLINE_FIELDS = map (dict_get (deadline_to_dict d)) DEADLINE_FIELDS"
    by (simp_all add: dict_get_def del: map_of_append)
  have "parse_accepted_chat_task_deadline fromiso (chat_fields t @ deadline_items t) = parse_accepted_chat_task_deadline fromiso (deadline_to_dict d)"
    by (simp only: parse_accepted_chat_task_deadline_def Let_def same)
  also have "\<dots> = Inr (Some d)" by (rule parse_to_dict [OF assms(1,2)])
  finally have "parse_accepted_chat_task_deadline fromiso (chat_fields t @ deadline_items t) = Inr (Some d)" .
  moreover have "\<not> (\<forall>kv \<in> set (deadline_items t). snd kv = PNone)" by (simp add: assms(3) deadline_to_dict_def)
  ultimately show ?thesis unfolding chat_to_dict_def queued_dict_def by (simp only: if_False sum.case)
qed

text \<open>
  What an accepted turn leaves: the lock, held for a while; the task in the queue, as often as its command ran; its attempt, with the
  deadline and the token of the lock, and accepted unless the result says that the acceptance is degraded.
\<close>

definition acceptance_of ::
    "('s, 'i, 'db, 'p) acceptance_env \<Rightarrow> acceptance_run \<Rightarrow> ('s \<Rightarrow> string \<Rightarrow> string list) \<Rightarrow> int \<Rightarrow> string \<Rightarrow> AcceptedChatTaskDeadline \<Rightarrow>
     ('s, 'db, 'p) acceptance_world \<Rightarrow> ('s, 'db, 'p) acceptance_world \<Rightarrow> EnqueueResult \<Rightarrow> bool" where
  "acceptance_of env r items thread turn deadline w w' x \<longleftrightarrow>
     (\<exists>d. chat_to_dict (ae_iso env) (ChatCompletionTask.truncate (er_task x)) = Inr d \<and>
       items (aw_redis w') CHAT_COMPLETION_QUEUE_NAME =
         replicate (copies (af_enqueue r)) (tc_dumps (ae_task_codec env) d) @ items (aw_redis w) CHAT_COMPLETION_QUEUE_NAME) \<and>
     1 \<le> copies (af_enqueue r) \<and>
     (\<exists>token row. held_until (ae_locks env) (ae_lock_codec env) thread (er_task_id x) token turn
         (snd (rc_times (af_renew r))) (fst (rc_times (af_renew r)) + 840000) (aw_redis w') \<and>
       row \<in> orm_rows (ae_attempts env) (aw_db w') \<and>
       attempt_identity row = \<lparr>ai_request_id = bt_request_id (er_task x), ai_backend_task_id = er_task_id x, ai_thread_id = thread, ai_turn_id = turn\<rparr> \<and>
       at_deadline_snapshot row = Some (PDict (deadline_to_dict deadline)) \<and> at_turn_lock_token row = Some token \<and>
       at_completed_message_id row = None \<and> at_terminal_event_type row = None \<and>
       (\<not> er_degraded x \<longrightarrow> at_accepted_at row = Some (af_mark_now r)))"

section \<open>The steps on the lock\<close>

locale acceptance = chat_redis "ae_locks env" "ae_lists env" items "ae_streams env" +
    lock_codec "ae_lock_codec env" + attempt_store "ae_attempts env" invar
  for env :: "('s, 'i, 'db, 'p) acceptance_env" and items :: "'s \<Rightarrow> string \<Rightarrow> string list" and invar :: "'db \<Rightarrow> bool"
begin

lemma request_effect:
  "acquire_turn_lock (ae_locks env) (ae_lock_codec env) raw (lock_request thread owner turn now nt token) s t =
    (let l = acquired_lock raw (lock_request thread owner turn now nt token) in
     if rd_get (ae_locks env) s t (turn_lock_key thread) = None
     then (rd_set (ae_locks env) s t (turn_lock_key thread) (serialize_turn_lock (ae_lock_codec env) l) 840, Some l) else (s, None))"
  by (simp add: acquire_turn_lock_def rd_set_nx_def request_ttl Let_def)

lemma request_items:
  "items (fst (acquire_turn_lock (ae_locks env) (ae_lock_codec env) raw (lock_request thread owner turn now nt token) s t))
     CHAT_COMPLETION_QUEUE_NAME = items s CHAT_COMPLETION_QUEUE_NAME"
  by (simp add: request_effect Let_def set_items)

lemma mine_or_free_set:
  assumes "lock_value (ae_lock_codec env) v thread owner token turn" "t \<le> t0" "s' = rd_set (ae_locks env) s t (turn_lock_key thread) v ttl"
  shows "mine_or_free (ae_locks env) (ae_lock_codec env) thread owner token turn t0 s'"
proof -
  have "rd_get (ae_locks env) s' t' (turn_lock_key thread) = (if t' < t + 1000 * ttl then Some v else None)" if "t0 \<le> t'" for t'
    using get_set [of t t'] assms(2,3) that by simp
  with assms(1) show ?thesis by (simp add: mine_or_free_def)
qed

lemma acquired:
  assumes "take_turn_lock env c (lock_request thread owner turn now nt token) s = (s', Inr (Some l))"
    and "valid_turn thread turn" "plain_id owner" "plain_id token" "sorted (call_times fault_times c)"
  shows "mine_or_free (ae_locks env) (ae_lock_codec env) thread owner token turn (snd (rc_times c)) s'"
    "tl_thread_id l = thread" "tl_owner_task_id l = owner" "tl_lease_token l = token"
    "items s' CHAT_COMPLETION_QUEUE_NAME = items s CHAT_COMPLETION_QUEUE_NAME"
proof -
  let ?a = "lock_request thread owner turn now nt token"
  let ?fn = "\<lambda>t s. case acquire_turn_lock (ae_locks env) (ae_lock_codec env) (ae_lock_ttl env) ?a s t of
    (s', l) \<Rightarrow> (s', Inr l :: py_error + TurnLockEnvelope option)"
  define P where "P t s1 \<longleftrightarrow> items s1 CHAT_COMPLETION_QUEUE_NAME = items s CHAT_COMPLETION_QUEUE_NAME" for t :: int and s1
  have P: "runs_keep P ?fn" "lasting P" "P (fst (rc_times c)) s"
    using request_items [of "ae_lock_ttl env" thread owner turn now nt token]
    by (auto simp: P_def runs_keep_def lasting_def split_beta)
  obtain t s0 where r: "?fn t s0 = (s', Inr (Some l))" "t \<le> snd (rc_times c)" "P t s0"
    by (rule command_result_at [OF assms(1) [unfolded take_turn_lock_def] P call_times_from [OF assms(5) order_refl]]) (rule that)
  then have s': "s' = rd_set (ae_locks env) s0 t (turn_lock_key thread) (serialize_turn_lock (ae_lock_codec env) l) 840"
      "l = acquired_lock (ae_lock_ttl env) ?a"
    by (auto simp: request_effect Let_def split: if_splits)
  have v: "lock_value (ae_lock_codec env) (serialize_turn_lock (ae_lock_codec env) l) thread owner token turn"
    using request_turn [OF assms(2)] acquired_value [OF request_lockable [OF assms(2-4)], of "ae_lock_ttl env" now nt] s'(2) by simp
  show "mine_or_free (ae_locks env) (ae_lock_codec env) thread owner token turn (snd (rc_times c)) s'"
    by (rule mine_or_free_set [OF v r(2) s'(1)])
  show "tl_thread_id l = thread" "tl_owner_task_id l = owner" "tl_lease_token l = token"
    by (simp_all add: s'(2) acquired_fields)
  show "items s' CHAT_COMPLETION_QUEUE_NAME = items s CHAT_COMPLETION_QUEUE_NAME"
    using r(3) by (simp add: s'(1) set_items P_def)
qed

text \<open>On a free key the command acquires the lock, or leaves the server as it was, when no reply is lost.\<close>

lemma free_later: "rd_get (ae_locks env) s t k = None \<Longrightarrow> t \<le> t' \<Longrightarrow> rd_get (ae_locks env) s t' k = None"
  by (rule expires)

lemma acquire_free:
  assumes "take_turn_lock env c (lock_request thread owner turn now nt token) s = (s', r)"
    and "rd_get (ae_locks env) s (fst (rc_times c)) (turn_lock_key thread) = None" "sorted (call_times fault_times c)"
    and "ft_lost (fst (rc_faults c)) = []" "ft_lost (snd (rc_faults c)) = []" "\<not> rc_slow c"
  shows "(\<exists>l. r = Inr (Some l)) \<or> ((\<exists>e. r = Inl e) \<and> s' = s)"
proof -
  have "fst (rc_times c) \<le> ft_time (fst (rc_faults c))" "fst (rc_times c) \<le> ft_time (snd (rc_faults c))"
    using assms(3) by (auto simp: call_times_def fault_times_def sorted_append)
  then have "rd_get (ae_locks env) s (ft_time (fst (rc_faults c))) (turn_lock_key thread) = None"
      "rd_get (ae_locks env) s (ft_time (snd (rc_faults c))) (turn_lock_key thread) = None"
    using free_later [OF assms(2)] by simp_all
  then show ?thesis
    using assms(1,4-6) by (cases "ft_end (fst (rc_faults c))"; cases "ft_end (snd (rc_faults c))")
      (auto simp: take_turn_lock_def run_with_redis_timeout_def attempt_at_def one_attempt_cases request_effect Let_def)
qed

lemma renew_effect:
  assumes "mine_or_free (ae_locks env) (ae_lock_codec env) thread owner token turn t s"
    and "tl_thread_id l = thread" "tl_owner_task_id l = owner" "tl_lease_token l = token"
    and "renew_turn_lock (ae_locks env) (ae_lock_codec env) raw has_eval now nt thread l (Some TURN_LOCK_LEASE_SECONDS) s t = (s', r)"
  shows "(s' = s \<and> r = Inr None) \<or>
    (\<exists>v l'. r = Inr (Some l') \<and> s' = rd_set (ae_locks env) s t (turn_lock_key thread) v 840 \<and>
      lock_value (ae_lock_codec env) v thread owner token turn \<and> tl_thread_id l' = thread \<and> tl_owner_task_id l' = owner \<and> tl_lease_token l' = token)"
proof -
  have ttl: "coerce_lock_ttl_seconds raw (Some TURN_LOCK_LEASE_SECONDS) = 840" by (simp add: coerce_lock_ttl_seconds_def lease_840)
  show ?thesis
  proof (cases "rd_get (ae_locks env) s t (turn_lock_key thread)")
    case None
    then show ?thesis using assms(5) by (auto simp: renew_turn_lock_def renew_script_def Let_def split: if_splits)
  next
    case (Some v)
    with assms(1) have v: "lock_value (ae_lock_codec env) v thread owner token turn"
      unfolding mine_or_free_def by (metis option.simps(5) order_refl)
    show ?thesis
    proof (cases has_eval)
      case True
      then show ?thesis using renewed_value [OF v Some assms(2-4), of raw "Some TURN_LOCK_LEASE_SECONDS" now nt] assms(5) by (auto simp: ttl)
    next
      case False
      then show ?thesis using assms(5) by (auto simp: renew_turn_lock_def Let_def split: if_splits)
    qed
  qed
qed

lemma mine_or_free_gone: "\<forall>t \<ge> t0. rd_get (ae_locks env) s t (turn_lock_key thread) = None \<Longrightarrow>
    mine_or_free (ae_locks env) (ae_lock_codec env) thread owner token turn t0 s"
  by (simp add: mine_or_free_def)

lemma mine_or_free_at:
  assumes "mine_or_free (ae_locks env) (ae_lock_codec env) thread owner token turn t s" "rd_get (ae_locks env) s t (turn_lock_key thread) = Some v"
  shows "lock_value (ae_lock_codec env) v thread owner token turn"
  using assms unfolding mine_or_free_def by (metis option.simps(5) order_refl)

lemma deleted:
  "\<forall>t' \<ge> t. rd_get (ae_locks env) (rd_del (ae_locks env) s t (turn_lock_key thread)) t' (turn_lock_key thread) = None"
  "items (rd_del (ae_locks env) s t (turn_lock_key thread)) CHAT_COMPLETION_QUEUE_NAME = items s CHAT_COMPLETION_QUEUE_NAME"
  by (simp_all add: get_del del_items)

lemma script_frees:
  assumes "mine_or_free (ae_locks env) (ae_lock_codec env) thread owner token turn t s"
  shows "\<exists>s' b. release_script (ae_locks env) (ae_lock_codec env) s t (turn_lock_key thread) owner token = Some (s', b) \<and>
    (\<forall>t' \<ge> t. rd_get (ae_locks env) s' t' (turn_lock_key thread) = None) \<and>
    items s' CHAT_COMPLETION_QUEUE_NAME = items s CHAT_COMPLETION_QUEUE_NAME"
proof (cases "rd_get (ae_locks env) s t (turn_lock_key thread)")
  case None
  then have "release_script (ae_locks env) (ae_lock_codec env) s t (turn_lock_key thread) owner token = Some (s, False)"
    by (simp add: release_script_def)
  then show ?thesis using expires [OF None] by auto
next
  case (Some v)
  from script_value [OF mine_or_free_at [OF assms Some] Some] deleted show ?thesis by auto
qed

text \<open>A release whose first attempt gets to the end frees the key, however often its commands run.\<close>

lemma reruns_read: "reruns ts (\<lambda>t s. (s, g t s)) s = s"
  by (induction ts) simp_all

lemma release_attempt_frees:
  assumes mine: "mine_or_free (ae_locks env) (ae_lock_codec env) thread owner token turn t0 s"
    and l: "tl_owner_task_id l = owner" "tl_lease_token l = token"
    and f: "release_served env f" and ord: "sorted (t0 # release_times f @ [t1])"
  shows "\<exists>s' b. release_attempt (ae_locks env) (ae_lock_codec env) (ae_has_eval env) nt thread (Lock l) f s = (s', Inr b) \<and>
    (\<forall>t \<ge> t1. rd_get (ae_locks env) s' t (turn_lock_key thread) = None) \<and>
    items s' CHAT_COMPLETION_QUEUE_NAME = items s CHAT_COMPLETION_QUEUE_NAME"
proof -
  obtain fe fg fd where f3: "f = (fe, fg, fd)" by (cases f) auto
  let ?key = "turn_lock_key thread"
  let ?script = "\<lambda>t s. case release_script (ae_locks env) (ae_lock_codec env) s t ?key owner token of
    Some (s', released) \<Rightarrow> (s', Some released) | None \<Rightarrow> (s, None)"
  let ?del = "\<lambda>t s. rd_delete (ae_locks env) s t ?key"
  define P where "P t s1 \<longleftrightarrow> mine_or_free (ae_locks env) (ae_lock_codec env) thread owner token turn t s1 \<and>
    items s1 CHAT_COMPLETION_QUEUE_NAME = items s CHAT_COMPLETION_QUEUE_NAME" for t s1
  have later: "lasting P" unfolding lasting_def P_def by (auto intro: mine_or_free_later)
  have script: "\<exists>s' b. ?script t s1 = (s', Some b) \<and> (\<forall>t' \<ge> t. rd_get (ae_locks env) s' t' ?key = None) \<and>
      items s' CHAT_COMPLETION_QUEUE_NAME = items s CHAT_COMPLETION_QUEUE_NAME" if "P t s1" for t s1
    using script_frees [of thread owner token turn t s1] that unfolding P_def by force
  have keep1: "runs_keep P ?script"
    unfolding runs_keep_def using script mine_or_free_gone [of _ _ thread owner token turn] by (metis P_def fst_conv)
  have keep2: "runs_keep P ?del"
    unfolding runs_keep_def P_def rd_delete_def using deleted mine_or_free_gone by simp
  obtain te tg td where t: "te = ft_time fe" "tg = ft_time fg" "td = ft_time fd" by blast
  define m1 m2 where "m1 = hd (fault_times fg)" and "m2 = hd (fault_times fd)"
  have m: "sorted (t0 # fault_times fe @ [m1])" "sorted (m1 # fault_times fg @ [m2])" "sorted (m2 # fault_times fd @ [t1])"
      "te \<le> t1" "m1 \<le> tg" "tg \<le> m2" "td \<le> t1" "m1 \<le> m2" "t0 \<le> m1" "tg \<le> t1"
    using ord unfolding m1_def m2_def t release_times_def f3
    by (cases "ft_lost fg"; cases "ft_lost fd"; auto simp: fault_times_def sorted_append)+
  have s: "P t0 s" using mine by (simp add: P_def)
  obtain s1 x where one: "(if ae_has_eval env then one_attempt fe ?script s else (s, Inr None)) = (s1, x)" by fastforce
  have s1: "P m1 s1"
    using one one_attempt_kept(1) [OF keep1 later s m(1)] lastingD [OF later s m(9)] by (auto split: if_splits)
  have at: "release_attempt (ae_locks env) (ae_lock_codec env) (ae_has_eval env) nt thread (Lock l) f s =
      (case x of Inr (Some released) \<Rightarrow> (s1, Inr released)
       | _ \<Rightarrow> (case one_attempt fg (\<lambda>t s. (s, rd_get (ae_locks env) s t ?key)) s1 of
            (s2, Inl e) \<Rightarrow> (s2, Inl (Failed e))
          | (s2, Inr current) \<Rightarrow>
            (case matches_expected_lock (ae_lock_codec env) nt current (Lock l) of
               Inl e \<Rightarrow> (s2, Inl (Raised e))
             | Inr matches \<Rightarrow>
               if \<not> matches then (s2, Inr False)
               else (case one_attempt fd ?del s2 of (s3, Inl e) \<Rightarrow> (s3, Inl (Failed e)) | (s3, Inr deleted) \<Rightarrow> (s3, Inr deleted)))))"
    unfolding release_attempt_def f3 Let_def by (simp only: prod.case expected_owner_and_token.simps l one)
  show ?thesis
  proof (cases "ae_has_eval env \<and> ft_end fe = Answered")
    case True
    have "P te (reruns (ft_lost fe) ?script s)" using one_attempt_kept(2) [OF keep1 later s m(1)] by (simp add: t)
    from script [OF this] obtain s' b where b: "?script te (reruns (ft_lost fe) ?script s) = (s', Some b)"
        "\<forall>t' \<ge> te. rd_get (ae_locks env) s' t' ?key = None" "items s' CHAT_COMPLETION_QUEUE_NAME = items s CHAT_COMPLETION_QUEUE_NAME"
      by blast
    then have "s1 = s'" "x = Inr (Some b)" using one True by (simp_all add: one_attempt_cases t)
    with at b m(4) show ?thesis by auto
  next
    case False
    then have ans: "ft_end fg = Answered" "ft_end fd = Answered" using f by (auto simp: release_served_def f3)
    have x: "\<nexists>b. x = Inr (Some b)" using one False by (auto simp: one_attempt_cases split: if_splits)
    have get: "one_attempt fg (\<lambda>t s. (s, rd_get (ae_locks env) s t ?key)) s1 = (s1, Inr (rd_get (ae_locks env) s1 tg ?key))"
      using ans(1) by (simp add: one_attempt_cases reruns_read t)
    show ?thesis
    proof (cases "rd_get (ae_locks env) s1 tg ?key")
      case None
      have "release_attempt (ae_locks env) (ae_lock_codec env) (ae_has_eval env) nt thread (Lock l) f s = (s1, Inr False)"
        using at x get None by (auto simp: matches_expected_lock_def decode_turn_lock_value_def split: sum.splits option.splits)
      moreover have "\<forall>t \<ge> t1. rd_get (ae_locks env) s1 t ?key = None" using free_later [OF None] m(10) by auto
      ultimately show ?thesis using s1 by (auto simp: P_def)
    next
      case (Some v)
      have "mine_or_free (ae_locks env) (ae_lock_codec env) thread owner token turn tg s1"
        using lastingD [OF later s1 m(5)] by (simp add: P_def)
      note matches = matches_value [OF mine_or_free_at [OF this Some] l, of nt]
      obtain s3 b where d: "one_attempt fd ?del s1 = (s3, Inr b)" "s3 = fst (?del td (reruns (ft_lost fd) ?del s1))"
        using ans(2) by (simp add: one_attempt_cases t)
      have "P td (reruns (ft_lost fd) ?del s1)"
        using one_attempt_kept(2) [OF keep2 later lastingD [OF later s1 m(8)] m(3)] by (simp add: t)
      then have "(\<forall>t' \<ge> td. rd_get (ae_locks env) s3 t' ?key = None) \<and> items s3 CHAT_COMPLETION_QUEUE_NAME = items s CHAT_COMPLETION_QUEUE_NAME"
        using deleted by (simp add: d(2) rd_delete_def P_def)
      moreover have "release_attempt (ae_locks env) (ae_lock_codec env) (ae_has_eval env) nt thread (Lock l) f s = (s3, Inr b)"
        using at x get Some matches d(1) by (auto split: sum.splits option.splits)
      ultimately show ?thesis using m(7) by auto
    qed
  qed
qed

text \<open>The queue and the event stream leave the lock alone, and the events leave the queue alone.\<close>

lemma enqueue_lock:
  "mine_or_free (ae_locks env) (ae_lock_codec env) thread owner token turn t0 (fst (enqueue (ae_lists env) codec f x CHAT_COMPLETION_QUEUE_NAME s)) =
     mine_or_free (ae_locks env) (ae_lock_codec env) thread owner token turn t0 s"
  "held_until (ae_locks env) (ae_lock_codec env) thread owner token turn t0 t1 (fst (enqueue (ae_lists env) codec f x CHAT_COMPLETION_QUEUE_NAME s)) =
     held_until (ae_locks env) (ae_lock_codec env) thread owner token turn t0 t1 s"
proof -
  have "rd_get (ae_locks env) (fst (enqueue (ae_lists env) codec f x CHAT_COMPLETION_QUEUE_NAME s)) t (turn_lock_key thread) =
      rd_get (ae_locks env) s t (turn_lock_key thread)" for t
    unfolding enqueue_def
    by (rule reconnect_keeps [where g = "\<lambda>s. rd_get (ae_locks env) s t (turn_lock_key thread)"]) (simp add: lpush_key)
  then show "mine_or_free (ae_locks env) (ae_lock_codec env) thread owner token turn t0 (fst (enqueue (ae_lists env) codec f x CHAT_COMPLETION_QUEUE_NAME s)) =
     mine_or_free (ae_locks env) (ae_lock_codec env) thread owner token turn t0 s"
    "held_until (ae_locks env) (ae_lock_codec env) thread owner token turn t0 t1 (fst (enqueue (ae_lists env) codec f x CHAT_COMPLETION_QUEUE_NAME s)) =
     held_until (ae_locks env) (ae_lock_codec env) thread owner token turn t0 t1 s"
    by (simp_all add: mine_or_free_def held_until_def)
qed

lemma enqueue_queue:
  "items (fst (enqueue (ae_lists env) codec f x CHAT_COMPLETION_QUEUE_NAME s)) CHAT_COMPLETION_QUEUE_NAME =
     replicate (copies f) (serialize_task codec x) @ items s CHAT_COMPLETION_QUEUE_NAME"
  by (simp add: enqueue_items)

lemma start_event_frame:
  assumes "publish_completion_start_event env r task thread_id turn s = (s', x)"
  shows "rd_get (ae_locks env) s' t (turn_lock_key thread) = rd_get (ae_locks env) s t (turn_lock_key thread)"
    "items s' CHAT_COMPLETION_QUEUE_NAME = items s CHAT_COMPLETION_QUEUE_NAME"
proof -
  have "s' = fst (publish (ae_streams env) (ae_event_codec env) (af_publish r) (af_publish_now r) (bt_task_id task) ''task.created''
      (Some (start_event_payload task thread_id turn)) s)"
    using assms unfolding publish_completion_start_event_def publish_with_visibility_def Let_def
    by (simp split: prod.splits sum.splits)
  then have state: "s' \<in> insert s (range (\<lambda>flds. fst (with_reconnect (af_publish r) (\<lambda>_. sa_xadd (ae_streams env) (stream_key (bt_task_id task)) flds) s)))"
    by (simp only: publish_state)
  have "rd_get (ae_locks env) (fst (with_reconnect (af_publish r) (\<lambda>_. sa_xadd (ae_streams env) (stream_key (bt_task_id task)) flds) s)) t (turn_lock_key thread) =
        rd_get (ae_locks env) s t (turn_lock_key thread)" for flds
    by (rule reconnect_keeps [where g = "\<lambda>s. rd_get (ae_locks env) s t (turn_lock_key thread)"]) (simp add: xadd_key)
  with state show "rd_get (ae_locks env) s' t (turn_lock_key thread) = rd_get (ae_locks env) s t (turn_lock_key thread)" by auto
  have "items (fst (with_reconnect (af_publish r) (\<lambda>_. sa_xadd (ae_streams env) (stream_key (bt_task_id task)) flds) s)) CHAT_COMPLETION_QUEUE_NAME =
        items s CHAT_COMPLETION_QUEUE_NAME" for flds
    by (rule reconnect_keeps [where g = "\<lambda>s. items s CHAT_COMPLETION_QUEUE_NAME"]) (simp add: xadd_items)
  with state show "items s' CHAT_COMPLETION_QUEUE_NAME = items s CHAT_COMPLETION_QUEUE_NAME" by auto
qed

text \<open>After a failure the participant is rolled back if it was prepared, and the served release frees the key.\<close>

lemma released:
  assumes "mine_or_free (ae_locks env) (ae_lock_codec env) thread owner token turn (fst (rc_times (af_release r))) s"
    and "tl_owner_task_id l = owner" "tl_lease_token l = token" "releases env r"
  shows "\<exists>s'. best_effort_release_turn_lock env r thread l s = (s', False) \<and>
    (\<forall>t \<ge> snd (rc_times (af_release r)). rd_get (ae_locks env) s' t (turn_lock_key thread) = None) \<and>
    items s' CHAT_COMPLETION_QUEUE_NAME = items s CHAT_COMPLETION_QUEUE_NAME"
proof -
  have served: "release_served env (fst (rc_faults (af_release r)))" and ord: "sorted (call_times release_times (af_release r))"
    using assms(4) by (simp_all add: releases_def)
  have "sorted (fst (rc_times (af_release r)) # release_times (fst (rc_faults (af_release r))) @ [snd (rc_times (af_release r))])"
    using ord by (auto simp: call_times_def sorted_append)
  from release_attempt_frees [OF assms(1-3) served this, of "af_new_turn r"] obtain s' b where
      s': "release_attempt (ae_locks env) (ae_lock_codec env) (ae_has_eval env) (af_new_turn r) thread (Lock l) (fst (rc_faults (af_release r))) s = (s', Inr b)"
      "\<forall>t \<ge> snd (rc_times (af_release r)). rd_get (ae_locks env) s' t (turn_lock_key thread) = None"
      "items s' CHAT_COMPLETION_QUEUE_NAME = items s CHAT_COMPLETION_QUEUE_NAME" by blast
  have "best_effort_release_turn_lock env r thread l s = (s', False)"
    using command_served [of "release_attempt (ae_locks env) (ae_lock_codec env) (ae_has_eval env) (af_new_turn r) thread (Lock l)", OF s'(1)]
    by (simp add: best_effort_release_turn_lock_def)
  with s'(2,3) show ?thesis by blast
qed

lemma failed:
  assumes "fail_acceptance env r thread l prepared e w = (w', x)"
    and "mine_or_free (ae_locks env) (ae_lock_codec env) thread owner token turn (fst (rc_times (af_release r))) (aw_redis w)"
    and "tl_owner_task_id l = owner" "tl_lease_token l = token" "releases env r"
  shows "x = Inl e" "\<forall>t \<ge> snd (rc_times (af_release r)). rd_get (ae_locks env) (aw_redis w') t (turn_lock_key thread) = None"
    "items (aw_redis w') CHAT_COMPLETION_QUEUE_NAME = items (aw_redis w) CHAT_COMPLETION_QUEUE_NAME" "aw_db w' = aw_db w"
    "aw_party w' = undone env prepared (aw_party w)"
proof -
  obtain s' where "best_effort_release_turn_lock env r thread l (aw_redis w) = (s', False)"
      "\<forall>t \<ge> snd (rc_times (af_release r)). rd_get (ae_locks env) s' t (turn_lock_key thread) = None"
      "items s' CHAT_COMPLETION_QUEUE_NAME = items (aw_redis w) CHAT_COMPLETION_QUEUE_NAME"
    using released [OF assms(2-5)] by blast
  with assms(1) show "x = Inl e" "\<forall>t \<ge> snd (rc_times (af_release r)). rd_get (ae_locks env) (aw_redis w') t (turn_lock_key thread) = None"
    "items (aw_redis w') CHAT_COMPLETION_QUEUE_NAME = items (aw_redis w) CHAT_COMPLETION_QUEUE_NAME" "aw_db w' = aw_db w"
    "aw_party w' = undone env prepared (aw_party w)"
    by (auto simp: fail_acceptance_def Let_def undone_def)
qed

text \<open>The attempt that is stored, and the mark that it was accepted.\<close>

lemma created:
  assumes "invar db" "db_call f (create_chat_completion_attempt (ae_attempts env) now who (Some d) (Some token)) db = (db', x)"
  shows "orm_rows (ae_attempts env) db' \<subseteq> orm_rows (ae_attempts env) db \<union> {row. at_accepted_at row = None}" "invar db'"
    "x \<noteq> None \<Longrightarrow> \<exists>row \<in> orm_rows (ae_attempts env) db'. attempt_identity row = who \<and>
       at_deadline_snapshot row = Some (PDict (deadline_to_dict d)) \<and> at_turn_lock_token row = Some token \<and>
       at_completed_message_id row = None \<and> at_terminal_event_type row = None"
proof -
  let ?row = "\<lparr>at_request_id = ai_request_id who, at_backend_task_id = ai_backend_task_id who, at_thread_id = ai_thread_id who,
    at_turn_id = ai_turn_id who, at_completed_message_id = None, at_terminal_event_type = None, at_terminal_outcome = None,
    at_deadline_snapshot = Some (PDict (deadline_to_dict d)), at_turn_lock_token = Some token, at_created_at = now,
    at_accepted_at = None, at_tool_turn_id = None, at_tool_command_id = None, at_tool_args_hash = None, at_tool_checkpoint_at = None\<rparr>"
  have "(db' = db \<and> x = None) \<or> orm_add (ae_attempts env) db ?row = Inr db'"
    using assms(2) by (cases f) (auto simp: db_call_def create_chat_completion_attempt_def split: sum.splits if_splits)
  then have "(db' = db \<and> x = None) \<or> (orm_rows (ae_attempts env) db' = insert ?row (orm_rows (ae_attempts env) db) \<and> invar db')"
    using add_rows [OF assms(1)] add_invar [OF assms(1)] by blast
  moreover have "attempt_identity ?row = who" by (simp add: attempt_identity_def)
  ultimately show "orm_rows (ae_attempts env) db' \<subseteq> orm_rows (ae_attempts env) db \<union> {row. at_accepted_at row = None}" "invar db'"
    "x \<noteq> None \<Longrightarrow> \<exists>row \<in> orm_rows (ae_attempts env) db'. attempt_identity row = who \<and>
       at_deadline_snapshot row = Some (PDict (deadline_to_dict d)) \<and> at_turn_lock_token row = Some token \<and>
       at_completed_message_id row = None \<and> at_terminal_event_type row = None"
    using assms(1) by auto
qed

lemma marked:
  assumes "invar db" "row \<in> orm_rows (ae_attempts env) db" "at_backend_task_id row = i"
    and "db_call f (mark_chat_completion_attempt_accepted (ae_attempts env) now i) db = (db', x)"
  shows "(\<exists>row' \<in> orm_rows (ae_attempts env) db'. (row' = row \<and> x = None) \<or> row' = row\<lparr>at_accepted_at := Some now\<rparr>) \<and> invar db'"
proof (cases "mark_chat_completion_attempt_accepted (ae_attempts env) now i db")
  case (Inl e)
  then have "db' = db \<and> x = None" using assms(4) by (cases f) (auto simp: db_call_def)
  with assms(1,2) show ?thesis by blast
next
  case (Inr y)
  obtain db1 where y: "y = (db1, ())" by (cases y) auto
  obtain a where a: "one_or_none (ae_attempts env) db (\<lambda>r. at_backend_task_id r = i) = Inr (Some a)"
      "orm_commit (ae_attempts env) db (a\<lparr>at_accepted_at := Some now\<rparr>) = Inr db1"
    using Inr y by (auto simp: mark_chat_completion_attempt_accepted_def commit_attempt_def split: sum.splits option.splits)
  have "row \<in> set (orm_select (ae_attempts env) db (\<lambda>r. at_backend_task_id r = i))"
    using select_rows [OF assms(1)] assms(2,3) by simp
  with a(1) have [simp]: "a = row" by (auto simp: one_or_none_def split: list.splits)
  have "orm_rows (ae_attempts env) db1 = insert (row\<lparr>at_accepted_at := Some now\<rparr>) (orm_rows (ae_attempts env) db - {row})"
    "invar db1"
    using commit_rows [OF assms(1,2) _ a(2)] commit_invar [OF assms(1,2) _ a(2)] by simp_all
  moreover have "(db' = db \<and> x = None) \<or> db' = db1" using assms(4) Inr y by (cases f) (auto simp: db_call_def)
  ultimately show ?thesis using assms(1,2) by auto
qed

text \<open>From the queue on: the server and the table as the stage finds them are \<open>w0\<close>'s but for the attempt that was stored.\<close>

lemma queued:
  assumes "queue_attempt env r thread turn l prepared task w = (w', x)"
    and "mine_or_free (ae_locks env) (ae_lock_codec env) thread owner token turn (fst (rc_times (af_release r))) (aw_redis w)"
    and "tl_owner_task_id l = owner" "tl_lease_token l = token" "releases env r"
  shows "x = Inl e \<Longrightarrow> refusal env r items thread w w' e \<and> aw_party w' = undone env prepared (aw_party w)"
proof -
  assume x: "x = Inl e"
  show "refusal env r items thread w w' e \<and> aw_party w' = undone env prepared (aw_party w)"
  proof (cases "chat_to_dict (ae_iso env) (ChatCompletionTask.truncate task)")
    case (Inl err)
    then have "fail_acceptance env r thread l prepared (EnqueueError ''queue_unavailable'' (Some (CallCause (Raised err)))) w = (w', x)"
      using assms(1) by (simp add: queue_attempt_def Let_def)
    note f = failed [OF this assms(2-5)]
    then show ?thesis by (auto intro!: refusalI [where n = 0])
  next
    case (Inr d)
    obtain s1 y where q: "enqueue (ae_lists env) (ae_task_codec env) (af_enqueue r) (TaskDict d) CHAT_COMPLETION_QUEUE_NAME (aw_redis w) = (s1, y)"
      by fastforce
    have m: "mine_or_free (ae_locks env) (ae_lock_codec env) thread owner token turn (fst (rc_times (af_release r))) (aw_redis (w\<lparr>aw_redis := s1\<rparr>))"
      using enqueue_lock(1) [of thread owner token turn _ "ae_task_codec env" "af_enqueue r" "TaskDict d" "aw_redis w"] assms(2) q by simp
    have "\<exists>c. fail_acceptance env r thread l prepared (EnqueueError ''queue_unavailable'' (Some (CallCause c))) (w\<lparr>aw_redis := s1\<rparr>) = (w', x)"
      using assms(1) x q Inr by (auto simp: queue_attempt_def Let_def split: sum.splits if_splits prod.splits)
    then obtain c where "fail_acceptance env r thread l prepared (EnqueueError ''queue_unavailable'' (Some (CallCause c))) (w\<lparr>aw_redis := s1\<rparr>) = (w', x)"
      by blast
    note f = failed [OF this m assms(3-5)]
    have "items s1 CHAT_COMPLETION_QUEUE_NAME = replicate (copies (af_enqueue r)) (serialize_task (ae_task_codec env) (TaskDict d)) @
        items (aw_redis w) CHAT_COMPLETION_QUEUE_NAME"
      using enqueue_queue [of "ae_task_codec env" "af_enqueue r" "TaskDict d" "aw_redis w"] q by simp
    then have "refusal env r items thread w w' e"
      using f x by (intro refusalI [OF f(2) _ order_refl]) auto
    then show ?thesis using f(5) by simp
  qed
qed

lemma queued_accepted:
  assumes "queue_attempt env r thread turn l prepared task w = (w', Inr x)"
  shows "er_task x = task" "er_task_id x = bt_task_id task" "1 \<le> copies (af_enqueue r)"
    "\<exists>d. chat_to_dict (ae_iso env) (ChatCompletionTask.truncate task) = Inr d \<and> items (aw_redis w') CHAT_COMPLETION_QUEUE_NAME =
       replicate (copies (af_enqueue r)) (tc_dumps (ae_task_codec env) d) @ items (aw_redis w) CHAT_COMPLETION_QUEUE_NAME"
    "held_until (ae_locks env) (ae_lock_codec env) thread owner token turn t0 t1 (aw_redis w') =
       held_until (ae_locks env) (ae_lock_codec env) thread owner token turn t0 t1 (aw_redis w)"
    "\<exists>y. db_call (af_mark r) (mark_chat_completion_attempt_accepted (ae_attempts env) (af_mark_now r) (bt_task_id task)) (aw_db w) = (aw_db w', y) \<and>
       (\<not> er_degraded x \<longrightarrow> y \<noteq> None)"
proof -
  obtain d where d: "chat_to_dict (ae_iso env) (ChatCompletionTask.truncate task) = Inr d"
    using assms by (auto simp: queue_attempt_def fail_acceptance_def Let_def split: sum.splits prod.splits)
  obtain s1 y where q: "enqueue (ae_lists env) (ae_task_codec env) (af_enqueue r) (TaskDict d) CHAT_COMPLETION_QUEUE_NAME (aw_redis w) = (s1, y)"
    by fastforce
  have y: "y = Inr ()" and fin: "finish_acceptance env r thread turn task (w\<lparr>aw_redis := s1\<rparr>) = (w', x)"
    using assms d q by (auto simp: queue_attempt_def fail_acceptance_def Let_def split: sum.splits if_splits prod.splits)
  show "1 \<le> copies (af_enqueue r)" using enqueue_copies [of "ae_lists env"] q y by (metis snd_conv)
  obtain s2 p where p: "publish_completion_start_event env r task thread turn s1 = (s2, p)" by fastforce
  then have w': "aw_redis w' = s2" "er_task x = task" "er_task_id x = bt_task_id task"
    using fin by (auto simp: finish_acceptance_def Let_def split: prod.splits)
  then show "er_task x = task" "er_task_id x = bt_task_id task" by simp_all
  note frame = start_event_frame [OF p]
  show "\<exists>d. chat_to_dict (ae_iso env) (ChatCompletionTask.truncate task) = Inr d \<and> items (aw_redis w') CHAT_COMPLETION_QUEUE_NAME =
       replicate (copies (af_enqueue r)) (tc_dumps (ae_task_codec env) d) @ items (aw_redis w) CHAT_COMPLETION_QUEUE_NAME"
    using enqueue_queue [of "ae_task_codec env" "af_enqueue r" "TaskDict d" "aw_redis w"] q d frame(2) w'(1) by (simp add: serialize_task_def)
  have "held_until (ae_locks env) (ae_lock_codec env) thread owner token turn t0 t1 s2 =
      held_until (ae_locks env) (ae_lock_codec env) thread owner token turn t0 t1 s1"
    by (simp add: held_until_def frame(1))
  then show "held_until (ae_locks env) (ae_lock_codec env) thread owner token turn t0 t1 (aw_redis w') =
       held_until (ae_locks env) (ae_lock_codec env) thread owner token turn t0 t1 (aw_redis w)"
    using enqueue_lock(2) [of thread owner token turn t0 t1 "ae_task_codec env" "af_enqueue r" "TaskDict d" "aw_redis w"] q w'(1) by simp
  show "\<exists>y. db_call (af_mark r) (mark_chat_completion_attempt_accepted (ae_attempts env) (af_mark_now r) (bt_task_id task)) (aw_db w) = (aw_db w', y) \<and>
       (\<not> er_degraded x \<longrightarrow> y \<noteq> None)"
    using fin by (auto simp: finish_acceptance_def Let_def split: prod.splits if_splits)
qed

lemma stored:
  assumes "store_attempt env r thread turn l prepared d task w = (w', Inl e)" "invar (aw_db w)"
    and "mine_or_free (ae_locks env) (ae_lock_codec env) thread owner token turn (fst (rc_times (af_release r))) (aw_redis w)"
    and "tl_owner_task_id l = owner" "tl_lease_token l = token" "releases env r"
  shows "refusal env r items thread w w' e \<and> aw_party w' = undone env prepared (aw_party w)"
proof -
  obtain db y where c: "db_call (af_create r) (create_chat_completion_attempt (ae_attempts env) (af_create_now r)
      \<lparr>ai_request_id = bt_request_id task, ai_backend_task_id = bt_task_id task, ai_thread_id = thread, ai_turn_id = turn\<rparr>
      (Some d) (Some token)) (aw_db w) = (db, y)" by fastforce
  note db = created(1) [OF assms(2) c]
  have m: "mine_or_free (ae_locks env) (ae_lock_codec env) thread owner token turn (fst (rc_times (af_release r))) (aw_redis (w\<lparr>aw_db := db\<rparr>))"
    using assms(3) by simp
  show ?thesis
  proof (cases y)
    case None
    with assms(1,5) c have "fail_acceptance env r thread l prepared
        (EnqueueError ''attempt_persistence_unavailable'' (Some AttemptNotStored)) (w\<lparr>aw_db := db\<rparr>) = (w', Inl e)"
      by (simp add: store_attempt_def)
    note f = failed [OF this m assms(4-6)]
    have "refusal env r items thread w w' e"
      using f(3,4) db by (intro refusalI [OF f(2), where n = 0]) auto
    then show ?thesis using f(5) by simp
  next
    case (Some u)
    with assms(1,5) c have "queue_attempt env r thread turn l prepared task (w\<lparr>aw_db := db\<rparr>) = (w', Inl e)"
      by (simp add: store_attempt_def)
    note q = queued [OF this m assms(4-6) refl]
    have "refusal env r items thread w w' e"
      by (rule refusal_from [OF conjunct1 [OF q]]) (use db in simp_all)
    then show ?thesis using conjunct2 [OF q] by simp
  qed
qed

lemma stored_accepted:
  assumes "store_attempt env r thread turn l prepared d task w = (w', Inr x)" "invar (aw_db w)"
    and "held_until (ae_locks env) (ae_lock_codec env) thread (bt_task_id task) token turn
      (snd (rc_times (af_renew r))) (fst (rc_times (af_renew r)) + 840000) (aw_redis w)" "tl_lease_token l = token"
  shows "acceptance_of env r items thread turn d w w' x \<and> er_task x = task \<and> invar (aw_db w')"
proof -
  let ?who = "\<lparr>ai_request_id = bt_request_id task, ai_backend_task_id = bt_task_id task, ai_thread_id = thread, ai_turn_id = turn\<rparr>"
  obtain db y where c: "db_call (af_create r) (create_chat_completion_attempt (ae_attempts env) (af_create_now r) ?who
      (Some d) (Some token)) (aw_db w) = (db, y)" by fastforce
  have y: "y \<noteq> None" and q: "queue_attempt env r thread turn l prepared task (w\<lparr>aw_db := db\<rparr>) = (w', Inr x)"
    using assms(1,4) c by (auto simp: store_attempt_def fail_acceptance_def Let_def split: option.splits prod.splits)
  obtain row where row: "row \<in> orm_rows (ae_attempts env) db" "attempt_identity row = ?who"
      "at_deadline_snapshot row = Some (PDict (deadline_to_dict d))" "at_turn_lock_token row = Some token"
      "at_completed_message_id row = None" "at_terminal_event_type row = None"
    using created(3) [OF assms(2) c y] by blast
  note x = queued_accepted [OF q]
  obtain z where z: "db_call (af_mark r) (mark_chat_completion_attempt_accepted (ae_attempts env) (af_mark_now r) (bt_task_id task)) db = (aw_db w', z)"
      "\<not> er_degraded x \<longrightarrow> z \<noteq> None"
    using x(6) by auto
  have "at_backend_task_id row = bt_task_id task" using row(2) by (simp add: attempt_identity_def)
  from marked [OF created(2) [OF assms(2) c] row(1) this z(1)]
  obtain row' where row': "invar (aw_db w')" "row' \<in> orm_rows (ae_attempts env) (aw_db w')" "(row' = row \<and> z = None) \<or> row' = row\<lparr>at_accepted_at := Some (af_mark_now r)\<rparr>"
    by blast
  have "attempt_identity row' = ?who \<and> at_deadline_snapshot row' = Some (PDict (deadline_to_dict d)) \<and> at_turn_lock_token row' = Some token \<and>
      at_completed_message_id row' = None \<and> at_terminal_event_type row' = None \<and>
      (\<not> er_degraded x \<longrightarrow> at_accepted_at row' = Some (af_mark_now r))"
    using row' row z(2) by (auto simp: attempt_identity_def)
  moreover have "held_until (ae_locks env) (ae_lock_codec env) thread (er_task_id x) token turn
      (snd (rc_times (af_renew r))) (fst (rc_times (af_renew r)) + 840000) (aw_redis w')"
    using x(5) [of "bt_task_id task" token] assms(3) x(2) by simp
  ultimately show ?thesis using x(1,2,3,4) row'(1,2) unfolding acceptance_of_def by auto
qed

text \<open>The renewal, and what it gives when it succeeds.\<close>

lemma renew_keeps:
  assumes "mine_or_free (ae_locks env) (ae_lock_codec env) thread owner token turn t s"
    and "tl_thread_id l = thread" "tl_owner_task_id l = owner" "tl_lease_token l = token"
    and "renew_turn_lock (ae_locks env) (ae_lock_codec env) raw has_eval now nt thread l (Some TURN_LOCK_LEASE_SECONDS) s t = (s', r)"
  shows "mine_or_free (ae_locks env) (ae_lock_codec env) thread owner token turn t s' \<and>
    items s' CHAT_COMPLETION_QUEUE_NAME = items s CHAT_COMPLETION_QUEUE_NAME"
  using renew_effect [OF assms]
proof (elim disjE conjE exE, goal_cases)
  case 1
  with assms(1) show ?case by simp
next
  case (2 v l')
  then show ?case using mine_or_free_set [OF 2(3) order_refl 2(2)] by (simp add: set_items)
qed

lemma renewed:
  assumes "mine_or_free (ae_locks env) (ae_lock_codec env) thread owner token turn t0 s"
    and times: "t0 \<le> fst (rc_times c)" "sorted (call_times fault_times c)"
    and l: "tl_thread_id l = thread" "tl_owner_task_id l = owner" "tl_lease_token l = token"
    and run: "run_with_redis_timeout c (attempt_at (\<lambda>t s. renew_turn_lock (ae_locks env) (ae_lock_codec env) raw has_eval now nt thread l
      (Some TURN_LOCK_LEASE_SECONDS) s t)) s = (s', y)"
  shows "mine_or_free (ae_locks env) (ae_lock_codec env) thread owner token turn (snd (rc_times c)) s'"
    "items s' CHAT_COMPLETION_QUEUE_NAME = items s CHAT_COMPLETION_QUEUE_NAME"
    "y = Inr (Some l') \<Longrightarrow> tl_owner_task_id l' = owner \<and> tl_lease_token l' = token \<and>
      held_until (ae_locks env) (ae_lock_codec env) thread owner token turn (snd (rc_times c)) (fst (rc_times c) + 840000) s'"
proof -
  let ?fn = "\<lambda>t s. renew_turn_lock (ae_locks env) (ae_lock_codec env) raw has_eval now nt thread l (Some TURN_LOCK_LEASE_SECONDS) s t"
  define P where "P t s1 \<longleftrightarrow> mine_or_free (ae_locks env) (ae_lock_codec env) thread owner token turn t s1 \<and>
    items s1 CHAT_COMPLETION_QUEUE_NAME = items s CHAT_COMPLETION_QUEUE_NAME" for t s1
  have keep: "runs_keep P ?fn"
    unfolding runs_keep_def P_def using renew_keeps [OF _ l, of turn _ _ raw has_eval now nt] by (metis prod.collapse)
  have later: "lasting P" unfolding lasting_def P_def by (auto intro: mine_or_free_later)
  have s: "P t0 s" using assms(1) by (simp add: P_def)
  note ord = call_times_from [OF times(2,1)]
  have "P (snd (rc_times c)) (fst (run_with_redis_timeout c (attempt_at ?fn) s))"
    by (rule command_kept [OF attempt_at_kept [OF keep later] later s ord])
  with run show "mine_or_free (ae_locks env) (ae_lock_codec env) thread owner token turn (snd (rc_times c)) s'"
    "items s' CHAT_COMPLETION_QUEUE_NAME = items s CHAT_COMPLETION_QUEUE_NAME" by (simp_all add: P_def)
  assume y: "y = Inr (Some l')"
  obtain t s0 where r: "?fn t s0 = (s', Inr (Some l'))" "fst (rc_times c) \<le> t" "t \<le> snd (rc_times c)" "P t s0"
    by (rule command_result_at [OF run [unfolded y] keep later s ord]) (rule that)
  from renew_effect [OF r(4) [unfolded P_def, THEN conjunct1] l r(1)]
  obtain v where v: "s' = rd_set (ae_locks env) s0 t (turn_lock_key thread) v 840" "lock_value (ae_lock_codec env) v thread owner token turn"
      "tl_owner_task_id l' = owner" "tl_lease_token l' = token" by auto
  have "rd_get (ae_locks env) s' t' (turn_lock_key thread) = Some v"
    if "snd (rc_times c) \<le> t'" "t' < fst (rc_times c) + 840000" for t'
    using get_set [of t t' s0 "turn_lock_key thread" v 840 "turn_lock_key thread"] that r(2,3) by (simp add: v(1))
  then show "tl_owner_task_id l' = owner \<and> tl_lease_token l' = token \<and>
      held_until (ae_locks env) (ae_lock_codec env) thread owner token turn (snd (rc_times c)) (fst (rc_times c) + 840000) s'"
    using v by (auto simp: held_until_def)
qed

lemma fixed:
  assumes "fix_deadline env r thread turn l prepared task w = (w', Inl e)" "invar (aw_db w)"
    and "mine_or_free (ae_locks env) (ae_lock_codec env) thread owner token turn t0 (aw_redis w)"
    and "t0 \<le> fst (rc_times (af_renew r))" "sorted (call_times fault_times (af_renew r))"
    and "snd (rc_times (af_renew r)) \<le> fst (rc_times (af_release r))"
    and l: "tl_thread_id l = thread" "tl_owner_task_id l = owner" "tl_lease_token l = token" and "releases env r"
  shows "refusal env r items thread w w' e \<and> aw_party w' = undone env prepared (aw_party w)"
proof (cases "build_accepted_chat_task_deadline (af_now r)")
  case (Inl err)
  then have f: "fail_acceptance env r thread l prepared (Propagated err) w = (w', Inl e)" using assms(1) by (simp add: fix_deadline_def)
  have "mine_or_free (ae_locks env) (ae_lock_codec env) thread owner token turn (fst (rc_times (af_release r))) (aw_redis w)"
    by (rule mine_or_free_later [OF assms(3)]) (use assms(4,6) call_times_ends [OF assms(5)] in linarith)
  note f = failed [OF f this l(2,3) assms(10)]
  have "refusal env r items thread w w' e"
    using f(3,4) by (intro refusalI [OF f(2), where n = 0]) auto
  then show ?thesis using f(5) by simp
next
  case (Inr d)
  obtain s' y where run: "run_with_redis_timeout (af_renew r)
      (attempt_at (\<lambda>t s. renew_turn_lock (ae_locks env) (ae_lock_codec env) (ae_lock_ttl env) (ae_has_eval env) (af_renew_now r) (af_new_turn r)
        thread l (Some TURN_LOCK_LEASE_SECONDS) s t)) (aw_redis w) = (s', y)" by fastforce
  note s' = renewed [OF assms(3-5) l run]
  have m: "mine_or_free (ae_locks env) (ae_lock_codec env) thread owner token turn (fst (rc_times (af_release r))) (aw_redis (w\<lparr>aw_redis := s'\<rparr>))"
    using mine_or_free_later [OF s'(1) assms(6)] by simp
  show ?thesis
  proof (cases "\<exists>l'. y = Inr (Some l')")
    case True
    then obtain l' where y: "y = Inr (Some l')" by blast
    have st: "store_attempt env r thread turn l' prepared d ((with_deadline d task)\<lparr>ck_turn_lock := as_dict l'\<rparr>) (w\<lparr>aw_redis := s'\<rparr>) = (w', Inl e)"
      using assms(1) Inr run y by (simp add: fix_deadline_def)
    have "invar (aw_db (w\<lparr>aw_redis := s'\<rparr>))" using assms(2) by simp
    note q = stored [OF st this m conjunct1 [OF s'(3) [OF y]] conjunct1 [OF conjunct2 [OF s'(3) [OF y]]] assms(10)]
    have "refusal env r items thread w w' e"
      by (rule refusal_from [OF conjunct1 [OF q]]) (use s'(2) in auto)
    then show ?thesis using conjunct2 [OF q] by simp
  next
    case False
    then have f: "fail_acceptance env r thread l prepared (EnqueueError ''turn_lock_unavailable'' None) (w\<lparr>aw_redis := s'\<rparr>) = (w', Inl e)"
      using assms(1) Inr run by (auto simp: fix_deadline_def split: sum.splits option.splits)
    note f = failed [OF f m l(2,3) assms(10)]
    have "refusal env r items thread w w' e"
      using f(3,4) s'(2) by (intro refusalI [OF f(2), where n = 0]) auto
    then show ?thesis using f(5) by simp
  qed
qed

lemma fixed_accepted:
  assumes "fix_deadline env r thread turn l prepared task w = (w', Inr x)" "invar (aw_db w)"
    and "mine_or_free (ae_locks env) (ae_lock_codec env) thread (bt_task_id task) token turn t0 (aw_redis w)"
    and "t0 \<le> fst (rc_times (af_renew r))" "sorted (call_times fault_times (af_renew r))"
    and l: "tl_thread_id l = thread" "tl_owner_task_id l = bt_task_id task" "tl_lease_token l = token"
  shows "\<exists>d. build_accepted_chat_task_deadline (af_now r) = Inr d \<and> acceptance_of env r items thread turn d w w' x \<and>
    er_task_id x = bt_task_id task \<and> invar (aw_db w')"
proof -
  obtain d where d: "build_accepted_chat_task_deadline (af_now r) = Inr d"
    using assms(1) by (auto simp: fix_deadline_def fail_acceptance_def Let_def split: sum.splits prod.splits)
  obtain s' y where run: "run_with_redis_timeout (af_renew r)
      (attempt_at (\<lambda>t s. renew_turn_lock (ae_locks env) (ae_lock_codec env) (ae_lock_ttl env) (ae_has_eval env) (af_renew_now r) (af_new_turn r)
        thread l (Some TURN_LOCK_LEASE_SECONDS) s t)) (aw_redis w) = (s', y)" by fastforce
  note s' = renewed [OF assms(3-5) l run]
  obtain l' where y: "y = Inr (Some l')"
    using assms(1) d run by (auto simp: fix_deadline_def fail_acceptance_def Let_def split: sum.splits option.splits prod.splits)
  let ?task = "(with_deadline d task)\<lparr>ck_turn_lock := as_dict l'\<rparr>"
  have id: "bt_task_id ?task = bt_task_id task" by (simp add: with_deadline_def)
  have st: "store_attempt env r thread turn l' prepared d ?task (w\<lparr>aw_redis := s'\<rparr>) = (w', Inr x)"
    using assms(1) d run y by (simp add: fix_deadline_def)
  have a: "acceptance_of env r items thread turn d (w\<lparr>aw_redis := s'\<rparr>) w' x \<and> er_task x = ?task \<and> invar (aw_db w')"
    by (rule stored_accepted [OF st]) (use assms(2) s'(3) [OF y] id in simp_all)
  have "er_task_id x = bt_task_id ?task"
    using st by (auto simp: store_attempt_def queue_attempt_def finish_acceptance_def fail_acceptance_def Let_def
      split: sum.splits option.splits prod.splits if_splits)
  moreover have "acceptance_of env r items thread turn d w w' x = acceptance_of env r items thread turn d (w\<lparr>aw_redis := s'\<rparr>) w' x"
    by (simp add: acceptance_of_def s'(2))
  ultimately show ?thesis using a d id by simp
qed

text \<open>The turn under the lock.\<close>

lemma undone_False [simp]: "undone env False p = p"
  by (simp add: undone_def split: option.split)

lemma under_lock:
  assumes "accept_under_lock env r thread turn l task w = (w', Inl e)" "invar (aw_db w)" "undoable env"
    and m: "mine_or_free (ae_locks env) (ae_lock_codec env) thread owner token turn t0 (aw_redis w)"
    and times: "t0 \<le> fst (rc_times (af_renew r))" "sorted (call_times fault_times (af_renew r))"
      "snd (rc_times (af_renew r)) \<le> fst (rc_times (af_release r))"
    and l: "tl_thread_id l = thread" "tl_owner_task_id l = owner" "tl_lease_token l = token" and served: "releases env r"
  shows "refusal env r items thread w w' e \<and> aw_party w' = aw_party w"
proof -
  have m': "mine_or_free (ae_locks env) (ae_lock_codec env) thread owner token turn (fst (rc_times (af_release r))) (aw_redis w)"
    by (rule mine_or_free_later [OF m]) (use times call_times_ends [OF times(2)] in linarith)
  have failing: "refusal env r items thread w w' e \<and> aw_party w' = undone env prepared p"
    if "fail_acceptance env r thread l prepared c (w\<lparr>aw_party := p\<rparr>) = (w', Inl e)" for c prepared p
  proof -
    have "mine_or_free (ae_locks env) (ae_lock_codec env) thread owner token turn (fst (rc_times (af_release r))) (aw_redis (w\<lparr>aw_party := p\<rparr>))"
      using m' by simp
    note f = failed [OF that this l(2,3) served]
    have "refusal env r items thread w w' e"
      using f(3,4) by (intro refusalI [OF f(2), where n = 0]) auto
    then show ?thesis using f(5) by simp
  qed
  have fixing: "refusal env r items thread w w' e \<and> aw_party w' = undone env prepared p"
    if "fix_deadline env r thread turn l prepared t (w\<lparr>aw_party := p\<rparr>) = (w', Inl e)" for t prepared p
  proof -
    have "invar (aw_db (w\<lparr>aw_party := p\<rparr>))" using assms(2) by simp
    moreover have "mine_or_free (ae_locks env) (ae_lock_codec env) thread owner token turn t0 (aw_redis (w\<lparr>aw_party := p\<rparr>))" using m by simp
    ultimately have "refusal env r items thread (w\<lparr>aw_party := p\<rparr>) w' e \<and> aw_party w' = undone env prepared p"
      using fixed [OF that _ _ times l served] by simp
    then show ?thesis by (simp add: refusal_def)
  qed
  show ?thesis
  proof (cases "Option.bind (ae_persona env thread) (\<lambda>p. persona_snapshot (fst p) (snd p))")
    case None
    then show ?thesis using assms(1) failing [of False _ "aw_party w"] by (simp add: accept_under_lock_def)
  next
    case (Some persona)
    let ?task = "task\<lparr>cc_persona_selection_snapshot := Some persona\<rparr>"
    show ?thesis
    proof (cases "ae_participant env")
      case None
      then show ?thesis using assms(1) Some fixing [of False _ "aw_party w"] by (simp add: accept_under_lock_def Let_def)
    next
      case (Some q)
      note q = this
      obtain p y where p: "pt_prepare q ?task (aw_party w) = (p, y)" by fastforce
      with assms(3) Some have undo: "case y of None \<Rightarrow> p = aw_party w | Some _ \<Rightarrow> pt_rollback q p = aw_party w"
        by (auto simp: undoable_def split: prod.splits option.splits)
      have persona: "accept_under_lock env r thread turn l task w =
          (case y of None \<Rightarrow> fail_acceptance env r thread l False (EnqueueError ''acceptance_participant_prepare_failed'' (Some PrepareRaised)) (w\<lparr>aw_party := p\<rparr>)
           | Some t \<Rightarrow> if \<not> authoritative_unchanged ?task t
             then fail_acceptance env r thread l True (EnqueueError ''acceptance_participant_authoritative_fields_mutated'' None) (w\<lparr>aw_party := p\<rparr>)
             else fix_deadline env r thread turn l True t (w\<lparr>aw_party := p\<rparr>))"
        using \<open>Option.bind _ _ = Some persona\<close> q p by (simp add: accept_under_lock_def Let_def split: option.splits)
      have und: "undone env True p = pt_rollback q p" using q by (simp add: undone_def)
      show ?thesis
      proof (cases y)
        case None
        then show ?thesis using failing [of False _ p] assms(1) undo unfolding persona by simp
      next
        case (Some t)
        then show ?thesis using failing [of True _ p] fixing [of True t p] assms(1) undo und unfolding persona by (auto split: if_splits)
      qed
    qed
  qed
qed

lemma under_lock_accepted:
  assumes "accept_under_lock env r thread turn l task w = (w', Inr x)" "invar (aw_db w)"
    and "mine_or_free (ae_locks env) (ae_lock_codec env) thread (bt_task_id task) token turn t0 (aw_redis w)"
    and "t0 \<le> fst (rc_times (af_renew r))" "sorted (call_times fault_times (af_renew r))"
    and l: "tl_thread_id l = thread" "tl_owner_task_id l = bt_task_id task" "tl_lease_token l = token"
  shows "\<exists>d. build_accepted_chat_task_deadline (af_now r) = Inr d \<and> acceptance_of env r items thread turn d w w' x \<and>
    er_task_id x = bt_task_id task \<and> invar (aw_db w')"
proof -
  obtain t p prepared where f: "fix_deadline env r thread turn l prepared t (w\<lparr>aw_party := p\<rparr>) = (w', Inr x)" "bt_task_id t = bt_task_id task"
  proof -
    obtain persona where persona: "Option.bind (ae_persona env thread) (\<lambda>p. persona_snapshot (fst p) (snd p)) = Some persona"
      using assms(1) by (auto simp: accept_under_lock_def fail_acceptance_def Let_def split: option.splits prod.splits)
    let ?task = "task\<lparr>cc_persona_selection_snapshot := Some persona\<rparr>"
    show thesis
    proof (cases "ae_participant env")
      case None
      then show thesis using assms(1) persona that [of False ?task "aw_party w"] by (simp add: accept_under_lock_def Let_def)
    next
      case (Some q)
      obtain p y where p: "pt_prepare q ?task (aw_party w) = (p, y)" by fastforce
      obtain t where "y = Some t" "authoritative_unchanged ?task t" "fix_deadline env r thread turn l True t (w\<lparr>aw_party := p\<rparr>) = (w', Inr x)"
        using assms(1) persona Some p
        by (auto simp: accept_under_lock_def fail_acceptance_def Let_def split: option.splits prod.splits if_splits)
      then show thesis using that [of True t p] by (simp add: authoritative_unchanged_def)
    qed
  qed
  have "\<exists>d. build_accepted_chat_task_deadline (af_now r) = Inr d \<and> acceptance_of env r items thread turn d (w\<lparr>aw_party := p\<rparr>) w' x \<and>
      er_task_id x = bt_task_id t \<and> invar (aw_db w')"
    by (rule fixed_accepted [OF f(1)]) (use assms(2-) f(2) in simp_all)
  then show ?thesis using f(2) by (simp add: acceptance_of_def)
qed

text \<open>The recovery of an orphan leaves the queue, and the table in order.\<close>

lemma found_same: "db_call f (\<lambda>db. case g db of Inl e \<Rightarrow> Inl e | Inr a \<Rightarrow> Inr (db, a)) db = (db', x) \<Longrightarrow> db' = db"
  by (cases f) (auto simp: db_call_def split: sum.splits)

lemma reconciled_invar:
  assumes "invar db" "db_call f (reconcile_chat_completion_attempt_after_deadline (ae_attempts env) fromiso messages now who) db = (db', x)"
  shows "invar db'"
proof -
  have "db' = db \<or> db' = after db (reconcile_chat_completion_attempt_after_deadline (ae_attempts env) fromiso messages now who db)"
    using assms(2) by (cases f) (auto simp: db_call_def after_def split: sum.splits)
  then show ?thesis by (auto intro: table_step_rows(1) [OF assms(1) reconcile_step [OF assms(1)]] assms(1))
qed

lemma terminal_items:
  "items (fst (release_terminal_attempt_turn_lock (ae_locks env) codec thread owner token s t)) CHAT_COMPLETION_QUEUE_NAME =
     items s CHAT_COMPLETION_QUEUE_NAME"
  by (auto simp: release_terminal_attempt_turn_lock_def rd_delete_def del_items Let_def split: option.splits pyval.splits)

lemma command_items:
  assumes "\<And>t s. items (fst (fn t s)) CHAT_COMPLETION_QUEUE_NAME = items s CHAT_COMPLETION_QUEUE_NAME"
    and "run_with_redis_timeout c (attempt_at fn) s = (s', x)"
  shows "items s' CHAT_COMPLETION_QUEUE_NAME = items s CHAT_COMPLETION_QUEUE_NAME"
proof (rule command_same [where g = "\<lambda>s. items s CHAT_COMPLETION_QUEUE_NAME", OF _ assms(2)])
  show "items (fst (attempt_at fn f s)) CHAT_COMPLETION_QUEUE_NAME = items s CHAT_COMPLETION_QUEUE_NAME" for f s
    unfolding attempt_at_state by (rule one_attempt_same [where g = "\<lambda>s. items s CHAT_COMPLETION_QUEUE_NAME"]) (rule assms(1))
qed

lemma recovered:
  assumes "recover_orphaned_turn_lock env r thread (s, db) = ((s', db'), x)" "invar db"
  shows "invar db'" "items s' CHAT_COMPLETION_QUEUE_NAME = items s CHAT_COMPLETION_QUEUE_NAME"
proof -
  obtain s1 y where 1: "run_with_redis_timeout (af_probe r)
      (attempt_at (\<lambda>t s. (s, get_turn_lock (ae_locks env) (ae_lock_codec env) (af_new_turn r) thread s t))) s = (s1, y)" by fastforce
  have q1: "items s1 CHAT_COMPLETION_QUEUE_NAME = items s CHAT_COMPLETION_QUEUE_NAME" by (rule command_items [OF _ 1]) simp
  have "invar db' \<and> items s' CHAT_COMPLETION_QUEUE_NAME = items s CHAT_COMPLETION_QUEUE_NAME"
  proof (cases "\<exists>l. y = Inr (Some l)")
    case False
    then have "s' = s1" "db' = db" using assms(1) 1 by (auto simp: recover_orphaned_turn_lock_def split: sum.splits option.splits)
    then show ?thesis using q1 assms(2) by simp
  next
    case True
    then obtain l where y: "y = Inr (Some l)" by blast
    obtain db1 z where 2: "db_call (af_find r)
        (\<lambda>db. case get_chat_completion_attempt_by_task_id (ae_attempts env) (tl_owner_task_id l) db of
           Inl e \<Rightarrow> Inl e | Inr a \<Rightarrow> Inr (db, a)) db = (db1, z)" by fastforce
    have [simp]: "db1 = db" by (rule found_same [OF 2])
    show ?thesis
    proof (cases "\<exists>a. z = Some (Some a)")
      case False
      then have "s' = s1" "db' = db" using assms(1) 1 2 y by (auto simp: recover_orphaned_turn_lock_def split: option.splits)
      then show ?thesis using q1 assms(2) by simp
    next
      case True
      then obtain a where z: "z = Some (Some a)" by blast
      let ?who = "\<lparr>ai_request_id = ai_request_id (ax_identity a), ai_backend_task_id = tl_owner_task_id l, ai_thread_id = thread, ai_turn_id = tl_turn_id l\<rparr>"
      obtain db2 u where 3: "db_call (af_reconcile r) (reconcile_chat_completion_attempt_after_deadline (ae_attempts env) (ae_iso env) (ae_messages env)
          (af_reconcile_now r) ?who) db = (db2, u)" by fastforce
      have mid: "recover_orphaned_turn_lock env r thread (s, db) =
          (if ai_thread_id (ax_identity a) \<noteq> thread \<or> ai_turn_id (ax_identity a) \<noteq> tl_turn_id l then ((s1, db), Inr False)
           else case u of None \<Rightarrow> ((s1, db2), Inl RecoveryUnconfirmed)
            | Some result \<Rightarrow> if re_completed_message_id result = None \<and> re_terminal_event_type result = None then ((s1, db2), Inr False)
              else (case run_with_redis_timeout (af_terminal r)
                     (attempt_at (\<lambda>t s. release_terminal_attempt_turn_lock (ae_locks env) (ae_lock_codec env) thread (tl_owner_task_id l)
                       (case re_turn_lock_token result of Some (c # cs) \<Rightarrow> c # cs | _ \<Rightarrow> tl_lease_token l) s t)) s1 of
                   (s', Inl _) \<Rightarrow> ((s', db2), Inl (EnqueueError ''turn_lock_unavailable'' None))
                 | (s', Inr released) \<Rightarrow> ((s', db2), Inr released)))"
        unfolding recover_orphaned_turn_lock_def Let_def by (simp add: 1 2 3 y z)
      have "(db' = db \<or> db' = db2) \<and> items s' CHAT_COMPLETION_QUEUE_NAME = items s1 CHAT_COMPLETION_QUEUE_NAME"
      proof (cases "(ai_thread_id (ax_identity a) \<noteq> thread \<or> ai_turn_id (ax_identity a) \<noteq> tl_turn_id l) \<or>
          (\<forall>result. u = Some result \<longrightarrow> re_completed_message_id result = None \<and> re_terminal_event_type result = None)")
        case True
        then show ?thesis using assms(1) unfolding mid by (auto split: if_splits option.splits)
      next
        case False
        then obtain result where "u = Some result" "\<not> (re_completed_message_id result = None \<and> re_terminal_event_type result = None)" by blast
        moreover obtain s3 v where 4: "run_with_redis_timeout (af_terminal r)
            (attempt_at (\<lambda>t s. release_terminal_attempt_turn_lock (ae_locks env) (ae_lock_codec env) thread (tl_owner_task_id l)
              (case re_turn_lock_token result of Some (c # cs) \<Rightarrow> c # cs | _ \<Rightarrow> tl_lease_token l) s t)) s1 = (s3, v)" by fastforce
        ultimately have "db' = db2 \<and> s' = s3" using assms(1) False unfolding mid by (cases v) (auto split: if_splits)
        then show ?thesis using command_items [OF terminal_items 4] by simp
      qed
      then show ?thesis using q1 assms(2) reconciled_invar [OF assms(2) 3] by auto
    qed
  qed
  then show "invar db'" "items s' CHAT_COMPLETION_QUEUE_NAME = items s CHAT_COMPLETION_QUEUE_NAME" by simp_all
qed

lemma held:
  assumes "hold_turn_lock env r thread owner turn w = (w', Inr l)" "invar (aw_db w)" "valid_turn thread turn" "plain_id owner"
    "fresh_tokens r" "times_ordered r"
  shows "invar (aw_db w') \<and> items (aw_redis w') CHAT_COMPLETION_QUEUE_NAME = items (aw_redis w) CHAT_COMPLETION_QUEUE_NAME \<and>
    tl_thread_id l = thread \<and> tl_owner_task_id l = owner \<and>
    mine_or_free (ae_locks env) (ae_lock_codec env) thread owner (tl_lease_token l) turn (fst (rc_times (af_renew r))) (aw_redis w')"
proof -
  let ?req = "lock_request thread owner turn (af_acquire_now r) (af_new_turn r) (af_acquire_token r)"
  let ?req2 = "lock_request thread owner turn (af_reacquire_now r) (af_new_turn r) (af_reacquire_token r)"
  note times = times_orderedD [OF assms(6)]
  have tokens: "plain_id (af_acquire_token r)" "plain_id (af_reacquire_token r)" using assms(5) by (simp_all add: fresh_tokens_def)
  obtain s1 y where 1: "take_turn_lock env (af_acquire r) ?req (aw_redis w) = (s1, y)" by fastforce
  show ?thesis
  proof (cases "\<exists>l. y = Inr (Some l)")
    case True
    then have "y = Inr (Some l)" "w' = w\<lparr>aw_redis := s1\<rparr>" using assms(1) 1 by (auto simp: hold_turn_lock_def)
    with acquired [OF 1 [unfolded this(1)] assms(3,4) tokens(1) times(1)] assms(2) times_later(2) [OF assms(6)] show ?thesis
      by (auto intro: mine_or_free_later)
  next
    case False
    then have y: "y = Inr None" using assms(1) 1 by (auto simp: hold_turn_lock_def split: sum.splits option.splits)
    obtain s2 db2 z where 2: "recover_orphaned_turn_lock env r thread (s1, aw_db w) = ((s2, db2), z)" by (metis prod.collapse)
    have z: "z = Inr True" using assms(1) 1 2 y by (auto simp: hold_turn_lock_def split: sum.splits if_splits)
    obtain s3 u where 3: "take_turn_lock env (af_reacquire r) ?req2 s2 = (s3, u)" by fastforce
    have u: "u = Inr (Some l)" "w' = w\<lparr>aw_redis := s3, aw_db := db2\<rparr>"
      using assms(1) 1 2 3 y z by (auto simp: hold_turn_lock_def split: sum.splits option.splits)
    have "items s1 CHAT_COMPLETION_QUEUE_NAME = items (aw_redis w) CHAT_COMPLETION_QUEUE_NAME"
      by (rule command_items [OF _ 1 [unfolded take_turn_lock_def]])
        (simp add: request_effect set_items Let_def)
    with acquired [OF 3 [unfolded u(1)] assms(3,4) tokens(2) times(2)] recovered [OF 2 assms(2)] u(2) times(10) show ?thesis
      by (auto intro: mine_or_free_later)
  qed
qed

lemma accepted:
  assumes "enqueue_chat_completion env r task thread turn request_id w = (w', Inr x)" "invar (aw_db w)" "valid_turn thread turn"
    "fresh_tokens r" "times_ordered r"
  shows "\<exists>d. build_accepted_chat_task_deadline (af_now r) = Inr d \<and> acceptance_of env r items thread turn d w w' x \<and>
    normalize_task_identity (bt_task_id task) = Some (er_task_id x) \<and> cc_thread_id task = thread \<and> invar (aw_db w')"
proof -
  obtain i where i: "normalize_task_identity (bt_task_id task) = Some i" "cc_thread_id task = thread"
    using assms(1) by (auto simp: enqueue_chat_completion_def split: option.splits if_splits)
  obtain w1 l where h: "hold_turn_lock env r thread i turn w = (w1, Inr l)"
    using assms(1) i by (auto simp: enqueue_chat_completion_def Let_def split: prod.splits sum.splits)
  let ?task = "task\<lparr>bt_task_id := i, bt_request_id := (case request_id of None \<Rightarrow> bt_request_id task | Some i \<Rightarrow> i),
    cc_turn_id := Some turn, ck_turn_lock_owner := i\<rparr>\<lparr>ck_turn_lock := as_dict l\<rparr>"
  have u: "accept_under_lock env r thread turn l ?task w1 = (w', Inr x)"
    using assms(1) i h by (simp add: enqueue_chat_completion_def Let_def)
  have id: "bt_task_id ?task = i" by simp
  note times = times_orderedD [OF assms(5)]
  note l = held [OF h assms(2,3) task_identity_plain [OF i(1)] assms(4,5)]
  have "\<exists>d. build_accepted_chat_task_deadline (af_now r) = Inr d \<and> acceptance_of env r items thread turn d w1 w' x \<and>
      er_task_id x = bt_task_id ?task \<and> invar (aw_db w')"
    by (rule under_lock_accepted [OF u _ _ order_refl times(3)]) (use l in \<open>simp_all only: id\<close>)
  moreover have "acceptance_of env r items thread turn d w1 w' x = acceptance_of env r items thread turn d w w' x" for d
    using l by (simp add: acceptance_of_def)
  ultimately show ?thesis using i by auto
qed

lemma refused:
  assumes "enqueue_chat_completion env r task thread turn request_id w = (w', Inl e)" "invar (aw_db w)" "valid_turn thread turn"
    "fresh_tokens r" "times_ordered r" "undoable env"
    and free: "rd_get (ae_locks env) (aw_redis w) (fst (rc_times (af_acquire r))) (turn_lock_key thread) = None"
    and acquire: "ft_lost (fst (rc_faults (af_acquire r))) = []" "ft_lost (snd (rc_faults (af_acquire r))) = []" "\<not> rc_slow (af_acquire r)"
    and served: "releases env r"
  shows "refusal env r items thread w w' e \<and> aw_party w' = aw_party w"
proof -
  note times = times_orderedD [OF assms(5)]
  have same: "refusal env r items thread w w e"
    using expires [OF free] times_later(5) [OF assms(5)] by (intro refusalI [where n = 0]) auto
  show ?thesis
  proof (cases "normalize_task_identity (bt_task_id task) = None \<or> cc_thread_id task \<noteq> thread")
    case True
    then show ?thesis using assms(1) same by (auto simp: enqueue_chat_completion_def split: option.splits)
  next
    case False
    then obtain i where i: "normalize_task_identity (bt_task_id task) = Some i" "cc_thread_id task = thread" by auto
    let ?req = "lock_request thread i turn (af_acquire_now r) (af_new_turn r) (af_acquire_token r)"
    obtain s1 y where 1: "take_turn_lock env (af_acquire r) ?req (aw_redis w) = (s1, y)" by fastforce
    from acquire_free [OF 1 free times(1) acquire] consider l where "y = Inr (Some l)" | err where "y = Inl err" "s1 = aw_redis w" by blast
    then show ?thesis
    proof cases
      case 2
      then have "w' = w" using assms(1) i 1 by (simp add: enqueue_chat_completion_def hold_turn_lock_def Let_def)
      with same show ?thesis by simp
    next
      case (1 l)
      let ?task = "task\<lparr>bt_task_id := i, bt_request_id := (case request_id of None \<Rightarrow> bt_request_id task | Some i \<Rightarrow> i),
        cc_turn_id := Some turn, ck_turn_lock_owner := i\<rparr>\<lparr>ck_turn_lock := as_dict l\<rparr>"
      have h: "hold_turn_lock env r thread i turn w = (w\<lparr>aw_redis := s1\<rparr>, Inr l)"
        using \<open>take_turn_lock _ _ _ _ = _\<close> 1 by (simp add: hold_turn_lock_def)
      have u: "accept_under_lock env r thread turn l ?task (w\<lparr>aw_redis := s1\<rparr>) = (w', Inl e)"
        using assms(1) i h by (simp add: enqueue_chat_completion_def Let_def)
      note l = held [OF h assms(2,3) task_identity_plain [OF i(1)] assms(4,5)]
      have r: "refusal env r items thread (w\<lparr>aw_redis := s1\<rparr>) w' e \<and> aw_party w' = aw_party (w\<lparr>aw_redis := s1\<rparr>)"
        by (rule under_lock [OF u _ assms(6) _ order_refl times(3,11) _ _ refl served]) (use l in simp_all)
      have "refusal env r items thread w w' e"
        by (rule refusal_from [OF conjunct1 [OF r]]) (use l in simp_all)
      with r show ?thesis by simp
    qed
  qed
qed

text \<open>A turn that reaches the queue, does so with its own lock, and with the task as expected.\<close>

lemma at_queue:
  assumes q: "reaches_queue env r task thread turn request_id w i persona d" and "invar (aw_db w)" "valid_turn thread turn"
    "fresh_tokens r" "times_ordered r"
  obtains task' l w1 where "enqueue_chat_completion env r task thread turn request_id w = queue_attempt env r thread turn l False task' w1"
    "chat_to_dict (ae_iso env) (ChatCompletionTask.truncate task') = Inr (queued_dict (queued_task task i request_id turn persona d))"
    "mine_or_free (ae_locks env) (ae_lock_codec env) thread i (tl_lease_token l) turn (fst (rc_times (af_release r))) (aw_redis w1)"
    "tl_owner_task_id l = i"
    "items (aw_redis w1) CHAT_COMPLETION_QUEUE_NAME = items (aw_redis w) CHAT_COMPLETION_QUEUE_NAME"
    "bt_task_id task' = i" "bt_request_id task' = (case request_id of None \<Rightarrow> bt_request_id task | Some i \<Rightarrow> i)" "create_chat_completion_attempt (ae_attempts env) (af_create_now r)
      \<lparr>ai_request_id = (case request_id of None \<Rightarrow> bt_request_id task | Some i \<Rightarrow> i), ai_backend_task_id = i, ai_thread_id = thread, ai_turn_id = turn\<rparr>
      (Some d) (Some (af_acquire_token r)) (aw_db w) = Inr (aw_db w1, ())"
proof -
  note times = times_orderedD [OF assms(5)]
  note q = q [unfolded reaches_queue_def]
  let ?req = "lock_request thread i turn (af_acquire_now r) (af_new_turn r) (af_acquire_token r)"
  let ?task = "task\<lparr>bt_task_id := i, bt_request_id := (case request_id of None \<Rightarrow> bt_request_id task | Some i \<Rightarrow> i),
    cc_turn_id := Some turn, ck_turn_lock_owner := i\<rparr>"
  define l where "l = acquired_lock (ae_lock_ttl env) ?req"
  let ?ta = "ft_time (fst (rc_faults (af_acquire r)))" and ?tr = "ft_time (fst (rc_faults (af_renew r)))"
  define s1 where "s1 = rd_set (ae_locks env) (aw_redis w) ?ta (turn_lock_key thread)
    (serialize_turn_lock (ae_lock_codec env) l) 840"
  have i: "plain_id i" using q task_identity_plain by blast
  have token: "plain_id (af_acquire_token r)" using assms(4) by (simp add: fresh_tokens_def)
  have at: "fst (rc_times (af_acquire r)) \<le> ?ta" "?ta \<le> ?tr"
    using times(1,3) times_later(2) [OF assms(5)] by (auto simp: call_times_def fault_times_def sorted_append)
  have free: "rd_get (ae_locks env) (aw_redis w) ?ta (turn_lock_key thread) = None"
    using q by (intro free_later [OF _ at(1)]) simp
  have 1: "take_turn_lock env (af_acquire r) ?req (aw_redis w) = (s1, Inr (Some l))"
    using q free by (simp add: take_turn_lock_def run_with_redis_timeout_def attempt_at_def one_attempt_cases served_def request_effect
      Let_def l_def s1_def)
  note acq = acquired [OF 1 assms(3) i token times(1)]
  have h: "hold_turn_lock env r thread i turn w = (w\<lparr>aw_redis := s1\<rparr>, Inr l)" by (simp add: hold_turn_lock_def 1)
  let ?task1 = "?task\<lparr>ck_turn_lock := as_dict l, cc_persona_selection_snapshot := Some persona\<rparr>"
  have u: "enqueue_chat_completion env r task thread turn request_id w = fix_deadline env r thread turn l False ?task1 (w\<lparr>aw_redis := s1\<rparr>)"
    using q h by (simp add: enqueue_chat_completion_def accept_under_lock_def Let_def)
  have v: "lock_value (ae_lock_codec env) (serialize_turn_lock (ae_lock_codec env) l) thread i (af_acquire_token r) turn"
    using request_turn [OF assms(3)] acquired_value [OF request_lockable [OF assms(3) i token], of "ae_lock_ttl env" "af_acquire_now r" "af_new_turn r"] by (simp add: l_def)
  have get: "rd_get (ae_locks env) s1 ?tr (turn_lock_key thread) = Some (serialize_turn_lock (ae_lock_codec env) l)"
    using get_set [OF at(2)] q by (simp add: s1_def)
  let ?renew = "\<lambda>t s. renew_turn_lock (ae_locks env) (ae_lock_codec env) (ae_lock_ttl env) (ae_has_eval env) (af_renew_now r) (af_new_turn r)
    thread l (Some TURN_LOCK_LEASE_SECONDS) s t"
  have ttl: "coerce_lock_ttl_seconds (ae_lock_ttl env) (Some TURN_LOCK_LEASE_SECONDS) < 100000000000000"
    by (simp add: coerce_lock_ttl_seconds_def lease_840)
  obtain s2 l2 where s2: "?renew ?tr s1 = (s2, Inr (Some l2))"
    using renewed_value [OF v get acq(2-4) ttl, of "af_renew_now r" "af_new_turn r"] q by auto
  have run: "run_with_redis_timeout (af_renew r) (attempt_at ?renew) s1 = (s2, Inr (Some l2))"
    using command_served [of "attempt_at ?renew", OF attempt_at_served [of _ ?renew, OF _ s2]] q by simp
  note ren = renewed [OF acq(1) times_later(2) [OF assms(5)] times(3) acq(2-4) run]
  note l2 = ren(3) [OF refl]
  let ?task2 = "(with_deadline d ?task1)\<lparr>ck_turn_lock := as_dict l2\<rparr>"
  obtain db where c: "create_chat_completion_attempt (ae_attempts env) (af_create_now r)
      \<lparr>ai_request_id = (case request_id of None \<Rightarrow> bt_request_id task | Some i \<Rightarrow> i), ai_backend_task_id = i, ai_thread_id = thread, ai_turn_id = turn\<rparr>
      (Some d) (Some (af_acquire_token r)) (aw_db w) = Inr (db, ())" using q by blast
  have e: "enqueue_chat_completion env r task thread turn request_id w =
      queue_attempt env r thread turn l2 False ?task2 (w\<lparr>aw_redis := s2, aw_db := db\<rparr>)"
    using q c run l2 by (simp add: u fix_deadline_def store_attempt_def db_call_def with_deadline_def)
  have t: "ChatCompletionTask.truncate ?task2 = queued_task task i request_id turn persona d"
    by (simp add: queued_task_def with_deadline_def ChatCompletionTask.defs)
  have "chat_to_dict (ae_iso env) (ChatCompletionTask.truncate ?task2) = Inr (queued_dict (queued_task task i request_id turn persona d))"
    unfolding t
    by (rule deadline_kept [OF build_deadline_valid [of "af_now r"]])
      (use q in \<open>simp_all add: queued_task_def with_deadline_def deadline_items_def deadline_to_dict_def ChatCompletionTask.defs\<close>)
  from that [OF e this] show thesis
    using mine_or_free_later [OF ren(1) times(11)] l2 ren(2) acq(5) c by (simp add: with_deadline_def)
qed

text \<open>When a reply of the acquisition is lost, the command that is answered meets the turn's own lock.\<close>

lemma request_held:
  assumes "\<forall>t \<in> set ts. rd_get (ae_locks env) s t (turn_lock_key thread) \<noteq> None"
  shows "reruns ts (\<lambda>t s. case acquire_turn_lock (ae_locks env) (ae_lock_codec env) raw (lock_request thread owner turn now nt token) s t of
    (s', l) \<Rightarrow> (s', Inr l)) s = s"
  using assms by (induction ts) (auto simp: request_effect)

lemma acquire_lost:
  assumes free: "rd_get (ae_locks env) s (fst (rc_times c)) (turn_lock_key thread) = None" and ord: "sorted (call_times fault_times c)"
    and lost: "answers (rc_faults c)" "2 \<le> copies (rc_faults c)" "\<not> rc_slow c" and short: "snd (rc_times c) < fst (rc_times c) + 840000"
  obtains t where "fst (rc_times c) \<le> t" "t \<le> snd (rc_times c)"
    "take_turn_lock env c (lock_request thread owner turn now nt token) s =
      (rd_set (ae_locks env) s t (turn_lock_key thread) (serialize_turn_lock (ae_lock_codec env)
         (acquired_lock (ae_lock_ttl env) (lock_request thread owner turn now nt token))) 840, Inr None)"
proof -
  let ?req = "lock_request thread owner turn now nt token"
  let ?fn = "\<lambda>t s. case acquire_turn_lock (ae_locks env) (ae_lock_codec env) (ae_lock_ttl env) ?req s t of
    (s', l) \<Rightarrow> (s', Inr l :: py_error + TurnLockEnvelope option)"
  let ?f1 = "fst (rc_faults c)" and ?f2 = "snd (rc_faults c)"
  let ?s = "\<lambda>t. rd_set (ae_locks env) s t (turn_lock_key thread) (serialize_turn_lock (ae_lock_codec env) (acquired_lock (ae_lock_ttl env) ?req)) 840"
  have inside: "\<forall>t \<in> set (fault_times ?f1 @ fault_times ?f2). fst (rc_times c) \<le> t \<and> t \<le> snd (rc_times c)"
    using ord by (auto simp: call_times_def sorted_append)
  have first: "fst (?fn t s) = ?s t" if "fst (rc_times c) \<le> t" for t
    using free_later [OF free that] by (simp add: request_effect Let_def)
  have held: "rd_get (ae_locks env) (?s t) t' (turn_lock_key thread) \<noteq> None" if "t \<le> t'" "fst (rc_times c) \<le> t" "t' \<le> snd (rc_times c)" for t t'
    using get_set [OF that(1)] that short by simp
  have second: "?fn t' (?s t) = (?s t, Inr None)" if "t \<le> t'" "fst (rc_times c) \<le> t" "t' \<le> snd (rc_times c)" for t t'
    using held [OF that] by (auto simp: request_effect Let_def)
  have rest: "reruns ts ?fn (?s t) = ?s t" if "\<forall>t' \<in> set ts. t \<le> t' \<and> t' \<le> snd (rc_times c)" "fst (rc_times c) \<le> t" for ts t
    by (rule request_held) (use held that in blast)
  have ends: "attempt_at ?fn f (?s t) = (?s t, Inr None)"
    if "ft_end f = Answered" "\<forall>t' \<in> set (fault_times f). t \<le> t' \<and> t' \<le> snd (rc_times c)" "fst (rc_times c) \<le> t" for f t
    using rest [of "ft_lost f" t] second [of t "ft_time f"] that by (simp add: attempt_at_def one_attempt_cases fault_times_def)
  show thesis
  proof (cases "ft_lost ?f1")
    case (Cons t ts)
    then have t: "fst (rc_times c) \<le> t" "t \<le> snd (rc_times c)" using inside by (simp_all add: fault_times_def)
    have later: "\<forall>t' \<in> set ts \<union> {ft_time ?f1} \<union> set (fault_times ?f2). t \<le> t' \<and> t' \<le> snd (rc_times c)"
      using ord Cons by (auto simp: call_times_def fault_times_def sorted_append)
    have state: "reruns (ft_lost ?f1) ?fn s = ?s t" using first [OF t(1)] rest [of ts t] later t(1) Cons by simp
    show thesis
    proof (rule that [OF t])
      show "take_turn_lock env c ?req s = (?s t, Inr None)"
      proof (cases "ft_end ?f1 = Answered")
        case True
        then have "attempt_at ?fn ?f1 s = (?s t, Inr None)"
          using state second [of t "ft_time ?f1"] later t(1) by (simp add: attempt_at_def one_attempt_cases)
        then show ?thesis using command_served [of "attempt_at ?fn"] lost(3) by (simp add: take_turn_lock_def)
      next
        case False
        with lost(1) have e: "ft_end ?f1 = Failing" "ft_end ?f2 = Answered" by (auto simp: answers_def)
        then have "attempt_at ?fn ?f1 s = (?s t, Inl (Failed ConnectionFailure))"
          using state by (simp add: attempt_at_def one_attempt_cases)
        with ends [OF e(2) _ t(1)] later lost(3) show ?thesis by (simp add: take_turn_lock_def run_with_redis_timeout_def)
      qed
    qed
  next
    case Nil
    with lost(1,2) have e: "ft_end ?f1 = Failing" "ft_end ?f2 = Answered" "ft_lost ?f2 \<noteq> []"
      by (auto simp: answers_def copies_def executions_def)
    then obtain t ts where ts: "ft_lost ?f2 = t # ts" by (cases "ft_lost ?f2") auto
    then have t: "fst (rc_times c) \<le> t" "t \<le> snd (rc_times c)" using inside by (simp_all add: fault_times_def)
    have later: "\<forall>t' \<in> set ts \<union> {ft_time ?f2}. t \<le> t' \<and> t' \<le> snd (rc_times c)"
      using ord ts by (auto simp: call_times_def fault_times_def sorted_append)
    have "reruns (ft_lost ?f2) ?fn s = ?s t" using first [OF t(1)] rest [of ts t] later t(1) ts by simp
    then have "attempt_at ?fn ?f2 s = (?s t, Inr None)"
      using e second [of t "ft_time ?f2"] later t(1) by (simp add: attempt_at_def one_attempt_cases)
    moreover have "attempt_at ?fn ?f1 s = (s, Inl (Failed ConnectionFailure))"
      using e(1) Nil by (simp add: attempt_at_def one_attempt_cases)
    ultimately show thesis
      using lost(3) by (intro that [OF t]) (simp add: take_turn_lock_def run_with_redis_timeout_def)
  qed
qed

lemma lost_acquisition:
  assumes "normalize_task_identity (bt_task_id task) = Some i" "cc_thread_id task = thread" "invar (aw_db w)" "valid_turn thread turn"
    "fresh_tokens r" "times_ordered r"
    and free: "rd_get (ae_locks env) (aw_redis w) (fst (rc_times (af_acquire r))) (turn_lock_key thread) = None"
    and lost: "answers (rc_faults (af_acquire r))" "2 \<le> copies (rc_faults (af_acquire r))" "\<not> rc_slow (af_acquire r)"
    and probe: "served (fst (rc_faults (af_probe r)))" "\<not> rc_slow (af_probe r)" "snd (rc_times (af_probe r)) < fst (rc_times (af_acquire r)) + 840000"
    and find: "af_find r = Committed" "i \<notin> at_backend_task_id ` orm_rows (ae_attempts env) (aw_db w)"
  shows "\<exists>w' token. enqueue_chat_completion env r task thread turn request_id w = (w', Inl (EnqueueError ''turn_in_flight'' None)) \<and>
    held_until (ae_locks env) (ae_lock_codec env) thread i token turn
      (snd (rc_times (af_acquire r))) (fst (rc_times (af_acquire r)) + 840000) (aw_redis w') \<and>
    aw_db w' = aw_db w \<and> aw_party w' = aw_party w"
proof -
  note times = times_orderedD [OF assms(6)]
  let ?req = "lock_request thread i turn (af_acquire_now r) (af_new_turn r) (af_acquire_token r)"
  let ?tp = "ft_time (fst (rc_faults (af_probe r)))"
  define v where "v = serialize_turn_lock (ae_lock_codec env) (acquired_lock (ae_lock_ttl env) ?req)"
  have token: "plain_id (af_acquire_token r)" using assms(5) by (simp add: fresh_tokens_def)
  have v: "lock_value (ae_lock_codec env) v thread i (af_acquire_token r) turn"
    using request_turn [OF assms(4)] acquired_value [OF request_lockable [OF assms(4) task_identity_plain [OF assms(1)] token], of "ae_lock_ttl env"] by (simp add: v_def)
  have tp: "fst (rc_times (af_probe r)) \<le> ?tp" "?tp \<le> snd (rc_times (af_probe r))"
    using times(5) by (auto simp: call_times_def fault_times_def sorted_append)
  have short: "snd (rc_times (af_acquire r)) < fst (rc_times (af_acquire r)) + 840000" using times(7) tp probe(3) by linarith
  obtain t where t: "fst (rc_times (af_acquire r)) \<le> t" "t \<le> snd (rc_times (af_acquire r))"
      and 1: "take_turn_lock env (af_acquire r) ?req (aw_redis w) = (rd_set (ae_locks env) (aw_redis w) t (turn_lock_key thread) v 840, Inr None)"
    unfolding v_def by (rule acquire_lost [OF free times(1) lost short])
  define s1 where "s1 = rd_set (ae_locks env) (aw_redis w) t (turn_lock_key thread) v 840"
  have get: "rd_get (ae_locks env) s1 t' (turn_lock_key thread) = Some v"
    if "snd (rc_times (af_acquire r)) \<le> t'" "t' < fst (rc_times (af_acquire r)) + 840000" for t'
    using get_set [of t t'] that t by (simp add: s1_def)
  have "rd_get (ae_locks env) s1 ?tp (turn_lock_key thread) = Some v" using get times(7) tp probe(3) by simp
  then obtain l where l: "get_turn_lock (ae_locks env) (ae_lock_codec env) (af_new_turn r) thread s1 ?tp = Inr (Some l)"
      "tl_owner_task_id l = i"
    using lock_value_decodes [OF v, of "af_new_turn r"] by (auto simp: get_turn_lock_def)
  let ?probe = "\<lambda>t s. (s, get_turn_lock (ae_locks env) (ae_lock_codec env) (af_new_turn r) thread s t)"
  have 2: "run_with_redis_timeout (af_probe r) (attempt_at ?probe) s1 = (s1, Inr (Some l))"
    using command_served [of "attempt_at ?probe", OF attempt_at_served [OF probe(1)], of s1 s1 "Some l"] l probe(2) by simp
  have "set (orm_select (ae_attempts env) (aw_db w) (\<lambda>r. at_backend_task_id r = i)) = {}"
    using select_rows [OF assms(3)] find(2) by auto
  then have "orm_select (ae_attempts env) (aw_db w) (\<lambda>r. at_backend_task_id r = i) = []" by simp
  then have "recover_orphaned_turn_lock env r thread (s1, aw_db w) = ((s1, aw_db w), Inr False)"
    using 2 l find(1) by (simp add: recover_orphaned_turn_lock_def db_call_def get_chat_completion_attempt_by_task_id_def one_or_none_def)
  then have "enqueue_chat_completion env r task thread turn request_id w =
      (w\<lparr>aw_redis := s1, aw_db := aw_db w\<rparr>, Inl (EnqueueError ''turn_in_flight'' None))"
    using assms(1,2) 1 by (simp add: enqueue_chat_completion_def hold_turn_lock_def Let_def flip: s1_def)
  moreover have "held_until (ae_locks env) (ae_lock_codec env) thread i (af_acquire_token r) turn
      (snd (rc_times (af_acquire r))) (fst (rc_times (af_acquire r)) + 840000) s1"
    using get v by (auto simp: held_until_def)
  ultimately show ?thesis by auto
qed

text \<open>The recovery of an attempt that is past its deadline, while its lock is still held.\<close>

lemma recovers:
  assumes "invar db" "row \<in> orm_rows (ae_attempts env) db" "\<forall>x \<in> orm_rows (ae_attempts env) db. at_backend_task_id x = i \<longrightarrow> x = row"
    and id: "attempt_identity row = \<lparr>ai_request_id = q, ai_backend_task_id = i, ai_thread_id = thread, ai_turn_id = turn\<rparr>"
    and row: "at_deadline_snapshot row = Some (PDict (deadline_to_dict d))" "at_turn_lock_token row = Some token" "at_completed_message_id row = None"
      "at_terminal_event_type row = None" "at_accepted_at row \<noteq> None"
    and d: "valid_deadline d" "inverts_isoformat (ae_iso env) d" "utcoff (af_reconcile_now r) \<noteq> None"
      "instant (ad_terminal_deadline_at d) \<le> instant (af_reconcile_now r)"
    and commit: "reconcile_chat_completion_attempt_after_deadline (ae_attempts env) (ae_iso env) (ae_messages env) (af_reconcile_now r)
      \<lparr>ai_request_id = q, ai_backend_task_id = i, ai_thread_id = thread, ai_turn_id = turn\<rparr> db = Inr y"
    and held: "held_until (ae_locks env) (ae_lock_codec env) thread i token turn t0 t1 s"
    and probe: "t0 \<le> ft_time (fst (rc_faults (af_probe r)))" "ft_time (fst (rc_faults (af_probe r))) < t1"
      "served (fst (rc_faults (af_probe r)))" "\<not> rc_slow (af_probe r)"
    and terminal: "t0 \<le> ft_time (fst (rc_faults (af_terminal r)))" "ft_time (fst (rc_faults (af_terminal r))) < t1"
      "served (fst (rc_faults (af_terminal r)))" "\<not> rc_slow (af_terminal r)"
    and served: "af_find r = Committed" "af_reconcile r = Committed"
  shows "recover_orphaned_turn_lock env r thread (s, db) =
      ((rd_del (ae_locks env) s (ft_time (fst (rc_faults (af_terminal r)))) (turn_lock_key thread), fst y), Inr True) \<and> invar (fst y) \<and>
    (\<exists>row' \<in> orm_rows (ae_attempts env) (fst y). attempt_identity row' = attempt_identity row \<and> at_terminal_event_type row' = Some ''task.failed'')"
proof -
  let ?who = "\<lparr>ai_request_id = q, ai_backend_task_id = i, ai_thread_id = thread, ai_turn_id = turn\<rparr>"
  let ?o = "row\<lparr>at_terminal_event_type := Some ''task.failed'', at_terminal_outcome := Some [(''failure_code'', ''CHAT_ACCEPTED_TASK_ORPHANED''),
           (''reconciled_at'', isoformat (astimezone_utc (af_reconcile_now r)))]\<rparr>"
  have found: "one_or_none (ae_attempts env) db (\<lambda>r. at_backend_task_id r = i) = Inr (Some row)"
    using find_by_task [OF assms(1,2)] assms(3) id by (simp add: attempt_identity_def)
  have "commit_attempt (ae_attempts env) db ?o (reconciliation_of ?o) = Inr y"
    using commit found id row orphan_deadline [OF row(1) d(1-3)] d(4)
    by (simp add: reconcile_chat_completion_attempt_after_deadline_def)
  then have y: "orm_commit (ae_attempts env) db ?o = Inr (fst y)" "snd y = reconciliation_of ?o"
    by (auto simp: commit_attempt_def split: sum.splits)
  have rows: "orm_rows (ae_attempts env) (fst y) = insert ?o (orm_rows (ae_attempts env) db - {row})" "invar (fst y)"
    using commit_rows [OF assms(1,2) _ y(1)] commit_invar [OF assms(1,2) _ y(1)] by simp_all
  obtain v where v: "rd_get (ae_locks env) s (ft_time (fst (rc_faults (af_probe r)))) (turn_lock_key thread) = Some v"
      "lock_value (ae_lock_codec env) v thread i token turn"
    using held probe(1,2) unfolding held_until_def by blast
  obtain l where l: "get_turn_lock (ae_locks env) (ae_lock_codec env) (af_new_turn r) thread s (ft_time (fst (rc_faults (af_probe r)))) = Inr (Some l)"
      "tl_owner_task_id l = i" "tl_turn_id l = turn"
    using lock_value_decodes [OF v(2), of "af_new_turn r"] v(1) by (auto simp: get_turn_lock_def)
  let ?probe = "\<lambda>t s. (s, get_turn_lock (ae_locks env) (ae_lock_codec env) (af_new_turn r) thread s t)"
  have 1: "run_with_redis_timeout (af_probe r) (attempt_at ?probe) s = (s, Inr (Some l))"
    using command_served [of "attempt_at ?probe", OF attempt_at_served [OF probe(3)], of s s "Some l"] l probe(4) by simp
  obtain v' where v': "rd_get (ae_locks env) s (ft_time (fst (rc_faults (af_terminal r)))) (turn_lock_key thread) = Some v'"
      "lock_value (ae_lock_codec env) v' thread i token turn"
    using held terminal(1,2) unfolding held_until_def by blast
  obtain c cs where token: "token = c # cs" using v(2) by (cases token) (auto simp: lock_value_def locks_def)
  let ?fn = "\<lambda>t s. release_terminal_attempt_turn_lock (ae_locks env) (ae_lock_codec env) thread i token s t"
  have 2: "run_with_redis_timeout (af_terminal r) (attempt_at ?fn) s =
      (rd_del (ae_locks env) s (ft_time (fst (rc_faults (af_terminal r)))) (turn_lock_key thread), Inr True)"
    using command_served [of "attempt_at ?fn", OF attempt_at_served [OF terminal(3)], of s _ True] terminal_value [OF v'(2,1)] terminal(4) by simp
  have "recover_orphaned_turn_lock env r thread (s, db) =
      ((rd_del (ae_locks env) s (ft_time (fst (rc_faults (af_terminal r)))) (turn_lock_key thread), fst y), Inr True)"
    using 1 2 l served found id row(2) commit y(2) token
    by (cases y) (simp add: recover_orphaned_turn_lock_def db_call_def get_chat_completion_attempt_by_task_id_def attempt_to_dict_def
      reconciliation_of_def Let_def)
  then show ?thesis using rows by (auto simp: attempt_identity_def)
qed

text \<open>A lock that is held keeps an acquisition out, and a key that is free lets it through.\<close>

lemma hold_after_recovery:
  assumes "rd_get (ae_locks env) (aw_redis w) (ft_time (fst (rc_faults (af_acquire r)))) (turn_lock_key thread) \<noteq> None"
    and "served (fst (rc_faults (af_acquire r)))" "\<not> rc_slow (af_acquire r)"
    and "recover_orphaned_turn_lock env r thread (aw_redis w, aw_db w) = ((s, db), Inr True)"
    and "rd_get (ae_locks env) s (ft_time (fst (rc_faults (af_reacquire r)))) (turn_lock_key thread) = None"
    and "served (fst (rc_faults (af_reacquire r)))" "\<not> rc_slow (af_reacquire r)"
  shows "\<exists>w' l. hold_turn_lock env r thread owner turn w = (w', Inr l) \<and> tl_owner_task_id l = owner \<and> aw_db w' = db"
proof -
  have "take_turn_lock env (af_acquire r) (lock_request thread owner turn (af_acquire_now r) (af_new_turn r) (af_acquire_token r)) (aw_redis w) =
      (aw_redis w, Inr None)"
    using assms(1-3) by (auto simp: take_turn_lock_def run_with_redis_timeout_def attempt_at_def one_attempt_cases served_def request_effect Let_def)
  moreover obtain s' l where
    "take_turn_lock env (af_reacquire r) (lock_request thread owner turn (af_reacquire_now r) (af_new_turn r) (af_reacquire_token r)) s = (s', Inr (Some l))"
    "tl_owner_task_id l = owner"
    using assms(5-7) by (simp add: take_turn_lock_def run_with_redis_timeout_def attempt_at_def one_attempt_cases served_def request_effect Let_def acquired_fields)
  ultimately show ?thesis using assms(4) by (simp add: hold_turn_lock_def)
qed

end

section \<open>Properties\<close>


text \<open>
  C22. The lock outlives the turn. While the clock that fixes the deadline is less than the safety margin of 60 seconds
  ahead of the clock of Redis at the renewal, the lock of an accepted turn is held from the renewal until its terminal
  deadline, so that no other task can start a turn of the thread before the controller may declare this one an orphan.
\<close>

theorem lock_outlives_deadline:
  assumes "acceptance env items invar" "invar (aw_db w)" "valid_turn thread turn" "fresh_tokens r" "times_ordered r"
    and "enqueue_chat_completion env r task thread turn request_id w = (w', Inr x)"
    and "build_accepted_chat_task_deadline (af_now r) = Inr deadline"
    and "instant (af_now r) < 1000 * (fst (rc_times (af_renew r)) + 1000 * TURN_LOCK_SAFETY_MARGIN_SECONDS)"
    and "snd (rc_times (af_renew r)) \<le> t" "1000 * t \<le> instant (ad_terminal_deadline_at deadline)" "aq_thread_id b = thread"
  shows "acquire_turn_lock (ae_locks env) (ae_lock_codec env) raw b (aw_redis w') t = (aw_redis w', None)"
proof -
  obtain d token where d: "build_accepted_chat_task_deadline (af_now r) = Inr d"
      "held_until (ae_locks env) (ae_lock_codec env) thread (er_task_id x) token turn
        (snd (rc_times (af_renew r))) (fst (rc_times (af_renew r)) + 840000) (aw_redis w')"
    using acceptance.accepted [OF assms(1,6,2-5)] by (auto simp: acceptance_of_def)
  have "instant (ad_terminal_deadline_at deadline) = instant (af_now r) + 780000000"
    using build_deadline_accepted(3) [OF assms(7)] build_deadline_valid [OF assms(7)] by (simp add: instant_def valid_deadline_def)
  then have "t < fst (rc_times (af_renew r)) + 840000" using assms(8,10) by (simp add: budget_defs)
  then obtain v where "rd_get (ae_locks env) (aw_redis w') t (turn_lock_key thread) = Some v"
    using d(2) assms(9) unfolding held_until_def by blast
  then show ?thesis using assms(11) by (simp add: acquire_turn_lock_def rd_set_nx_def Let_def)
qed


text \<open>
  C27. A turn that nothing keeps from the queue is accepted when the queue takes it: the call returns a result, and the task
  that a worker will find is the one that was asked for, under its canonical identity, with the turn, the persona of the
  thread and the deadline.
\<close>

theorem free_turn_accepted:
  assumes "acceptance env items invar" "invar (aw_db w)" "valid_turn thread turn" "fresh_tokens r" "times_ordered r"
    and "reaches_queue env r task thread turn request_id w i persona d" "served (fst (af_enqueue r))" "\<not> af_enqueue_slow r"
  shows "\<exists>w' x. enqueue_chat_completion env r task thread turn request_id w = (w', Inr x) \<and> er_task_id x = i \<and>
    items (aw_redis w') CHAT_COMPLETION_QUEUE_NAME =
      tc_dumps (ae_task_codec env) (queued_dict (queued_task task i request_id turn persona d)) # items (aw_redis w) CHAT_COMPLETION_QUEUE_NAME"
proof -
  obtain task' l w1 where q: "enqueue_chat_completion env r task thread turn request_id w = queue_attempt env r thread turn l False task' w1"
      "chat_to_dict (ae_iso env) (ChatCompletionTask.truncate task') = Inr (queued_dict (queued_task task i request_id turn persona d))"
      "items (aw_redis w1) CHAT_COMPLETION_QUEUE_NAME = items (aw_redis w) CHAT_COMPLETION_QUEUE_NAME"
    by (rule acceptance.at_queue [OF assms(1,6,2-5)])
  obtain w' x where f: "finish_acceptance env r thread turn task' (w1\<lparr>aw_redis := la_lpush (ae_lists env) CHAT_COMPLETION_QUEUE_NAME
      (serialize_task (ae_task_codec env) (TaskDict (queued_dict (queued_task task i request_id turn persona d)))) (aw_redis w1)\<rparr>) = (w', x)"
    by fastforce
  then have x: "queue_attempt env r thread turn l False task' w1 = (w', Inr x)"
    using assms(7,8) q(2) by (simp add: queue_attempt_def enqueue_def with_reconnect_cases one_attempt_cases served_def Let_def)
  have "copies (af_enqueue r) = 1" using assms(7) by (simp add: copies_def executions_def served_def)
  moreover have "normalize_task_identity (bt_task_id task) = Some i" using assms(6) by (simp add: reaches_queue_def)
  ultimately show ?thesis
    using acceptance.queued_accepted(4) [OF assms(1) x] acceptance.accepted [OF assms(1) x [folded q(1)] assms(2-5)] q x by auto
qed

text \<open>
  C32. A refused turn can be queued all the same. When \<open>LPUSH\<close> ran, once or several times, but no attempt was answered, the
  call raises \<open>queue_unavailable\<close> and frees the thread, but the task is in the queue, as often as the command ran: a worker
  will run a turn that the caller was told had failed, without the lock of its thread.
\<close>

theorem refused_turn_is_queued:
  assumes "acceptance env items invar" "invar (aw_db w)" "valid_turn thread turn" "fresh_tokens r" "times_ordered r"
    and "reaches_queue env r task thread turn request_id w i persona d" "\<not> answers (af_enqueue r)"
    and "release_served env (fst (rc_faults (af_release r)))"
  shows "\<exists>w' c. enqueue_chat_completion env r task thread turn request_id w = (w', Inl (EnqueueError ''queue_unavailable'' c)) \<and>
    items (aw_redis w') CHAT_COMPLETION_QUEUE_NAME =
      replicate (copies (af_enqueue r)) (tc_dumps (ae_task_codec env) (queued_dict (queued_task task i request_id turn persona d))) @
        items (aw_redis w) CHAT_COMPLETION_QUEUE_NAME \<and>
    (\<forall>t \<ge> snd (rc_times (af_release r)). rd_get (ae_locks env) (aw_redis w') t (turn_lock_key thread) = None)"
proof -
  obtain task' l w1 where q: "enqueue_chat_completion env r task thread turn request_id w = queue_attempt env r thread turn l False task' w1"
      "chat_to_dict (ae_iso env) (ChatCompletionTask.truncate task') = Inr (queued_dict (queued_task task i request_id turn persona d))"
      "mine_or_free (ae_locks env) (ae_lock_codec env) thread i (tl_lease_token l) turn (fst (rc_times (af_release r))) (aw_redis w1)"
      "tl_owner_task_id l = i" "items (aw_redis w1) CHAT_COMPLETION_QUEUE_NAME = items (aw_redis w) CHAT_COMPLETION_QUEUE_NAME"
    by (rule acceptance.at_queue [OF assms(1,6,2-5)])
  let ?x = "TaskDict (queued_dict (queued_task task i request_id turn persona d))"
  obtain s1 err where s1: "enqueue (ae_lists env) (ae_task_codec env) (af_enqueue r) ?x CHAT_COMPLETION_QUEUE_NAME (aw_redis w1) = (s1, Inl err)"
  proof (cases "enqueue (ae_lists env) (ae_task_codec env) (af_enqueue r) ?x CHAT_COMPLETION_QUEUE_NAME (aw_redis w1)")
    case (Pair s1 y)
    then show thesis
      using enqueue_answers [of "ae_lists env" "ae_task_codec env" "af_enqueue r" ?x CHAT_COMPLETION_QUEUE_NAME "aw_redis w1"] assms(7) that
      by (cases y) auto
  qed
  obtain w' y where y: "fail_acceptance env r thread l False (EnqueueError ''queue_unavailable'' (Some (CallCause (Failed err)))) (w1\<lparr>aw_redis := s1\<rparr>) = (w', y)"
    by fastforce
  have e: "enqueue_chat_completion env r task thread turn request_id w = (w', y)"
    using y by (simp add: q(1) queue_attempt_def q(2) s1 Let_def)
  have m: "mine_or_free (ae_locks env) (ae_lock_codec env) thread i (tl_lease_token l) turn (fst (rc_times (af_release r))) (aw_redis (w1\<lparr>aw_redis := s1\<rparr>))"
    using acceptance.enqueue_lock(1) [OF assms(1), of thread i "tl_lease_token l" turn _ "ae_task_codec env" "af_enqueue r" ?x "aw_redis w1"] q(3) s1 by simp
  have rel: "releases env r" using assms(8) times_orderedD(4) [OF assms(5)] by (simp add: releases_def)
  note f = acceptance.failed [OF assms(1) y m q(4) refl rel]
  have "items s1 CHAT_COMPLETION_QUEUE_NAME =
      replicate (copies (af_enqueue r)) (serialize_task (ae_task_codec env) ?x) @ items (aw_redis w1) CHAT_COMPLETION_QUEUE_NAME"
    using acceptance.enqueue_queue [OF assms(1), of "ae_task_codec env" "af_enqueue r" ?x "aw_redis w1"] s1 by simp
  then show ?thesis using e f(1-3) q(5) by (auto simp: serialize_task_def)
qed

text \<open>
  C31. A lost reply locks the thread. When a reply of the acquisition on a free thread is lost and the command is then sent
  again, by the driver or by the module, and answered, the answer tells of the turn's own lock, which is taken for
  another's; the recovery finds no attempt of that task, so the call raises \<open>turn_in_flight\<close> and releases nothing: the
  thread stays locked, for a task that was never accepted, for 840 seconds.
\<close>

theorem lost_reply_locks_thread:
  assumes "acceptance env items invar" "invar (aw_db w)" "valid_turn thread turn" "fresh_tokens r" "times_ordered r"
    and "normalize_task_identity (bt_task_id task) = Some i" "cc_thread_id task = thread"
    and "rd_get (ae_locks env) (aw_redis w) (fst (rc_times (af_acquire r))) (turn_lock_key thread) = None"
    and "answers (rc_faults (af_acquire r))" "2 \<le> copies (rc_faults (af_acquire r))" "\<not> rc_slow (af_acquire r)"
    and "served (fst (rc_faults (af_probe r)))" "\<not> rc_slow (af_probe r)" "snd (rc_times (af_probe r)) < fst (rc_times (af_acquire r)) + 840000"
    and "af_find r = Committed" "i \<notin> at_backend_task_id ` orm_rows (ae_attempts env) (aw_db w)"
  shows "\<exists>w' token. enqueue_chat_completion env r task thread turn request_id w = (w', Inl (EnqueueError ''turn_in_flight'' None)) \<and>
    held_until (ae_locks env) (ae_lock_codec env) thread i token turn
      (snd (rc_times (af_acquire r))) (fst (rc_times (af_acquire r)) + 840000) (aw_redis w') \<and>
    aw_db w' = aw_db w \<and> aw_party w' = aw_party w"
  by (rule acceptance.lost_acquisition [OF assms(1,6,7,2-5,8-16)])

text \<open>The commands by which a later turn recovers the lock are served at once.\<close>

definition recovery_served :: "acceptance_run \<Rightarrow> bool" where
  "recovery_served r \<longleftrightarrow>
     list_all (\<lambda>c. served (fst (rc_faults c)) \<and> \<not> rc_slow c) [af_acquire r, af_probe r, af_terminal r, af_reacquire r] \<and>
     af_find r = Committed \<and> af_reconcile r = Committed"


section \<open>A run on the in-memory server\<close>

definition chat_demo_env :: "unit participant option \<Rightarrow> (InMemoryRedis, string, ChatCompletionAttempt list, unit) acceptance_env" where
  "chat_demo_env participant =
     \<lparr>ae_locks = mem_redis, ae_lists = mem_lists, ae_streams = mem_streams 0, ae_attempts = attempts_table, ae_lock_codec = mark_codec,
      ae_task_codec = \<lparr>tc_dumps = \<lambda>_. ''task'', tc_loads = \<lambda>_. None\<rparr>, ae_event_codec = \<lparr>ev_dumps = \<lambda>_. Some ''{}'', ev_loads = \<lambda>_. None\<rparr>,
      ae_lock_ttl = None, ae_has_eval = True, ae_iso = epoch_parser, ae_messages = (\<lambda>_ _. False), ae_persona = (\<lambda>_. Some (PNone, PNone)),
      ae_exceptions = \<lparr>ex_class = \<lambda>_. ''ConnectionError'', ex_text = \<lambda>_. ''lost''\<rparr>, ae_id_text = id, ae_participant = participant\<rparr>"

interpretation chat_demo: acceptance "chat_demo_env participant" mem_list "list_invar at_request_id"
  unfolding acceptance_def
  by (simp add: chat_demo_env_def mem_chat.chat_redis_axioms mark.lock_codec_axioms chat_attempts.attempt_store_axioms)

definition call_at :: "int \<Rightarrow> fault \<times> fault \<Rightarrow> fault redis_call" where
  "call_at t f = \<lparr>rc_faults = f, rc_times = (t, t + 1), rc_slow = False\<rparr>"

definition at_once :: "int \<Rightarrow> fault redis_call" where
  "at_once t = call_at t (Fault [] Answered t, Fault [] Answered t)"

definition release_at_once :: "int \<Rightarrow> release_faults redis_call" where
  "release_at_once t = (let f = Fault [] Answered t in \<lparr>rc_faults = ((f, f, f), (f, f, f)), rc_times = (t, t + 1), rc_slow = False\<rparr>)"

text \<open>Attempts of which the first has its command run twice, the first time without an answer.\<close>

definition sent_again :: "fault \<times> fault" where
  "sent_again = (Fault [0] Answered 1, Fault [] Answered 1)"

lemmas call_defs = call_at_def at_once_def release_at_once_def call_times_def fault_times_def release_times_def served_def

definition epoch_now :: pydt where "epoch_now = \<lparr>wall = - 3600000000, utcoff = Some (- 3600000000)\<rparr>"

definition chat_demo_run :: "fault \<times> fault \<Rightarrow> fault \<times> fault \<Rightarrow> acceptance_run" where
  "chat_demo_run acquire queue =
     \<lparr>af_acquire = call_at 0 acquire, af_acquire_now = epoch_now, af_acquire_token = ''k'', af_probe = at_once 2,
      af_find = Committed, af_reconcile = Committed, af_reconcile_now = epoch_now, af_terminal = at_once 4,
      af_reacquire = at_once 6, af_reacquire_now = epoch_now, af_reacquire_token = ''k2'', af_now = epoch_now,
      af_renew = at_once 8, af_renew_now = epoch_now, af_create = Committed, af_create_now = epoch_now,
      af_enqueue = queue, af_enqueue_slow = False, af_mark = Committed, af_mark_now = epoch_now, af_publish = (Served, Served),
      af_publish_now = epoch_now, af_release = release_at_once 10, af_new_turn = ''u''\<rparr>"

lemma chat_demo_parts [simp]:
  "ae_locks (chat_demo_env p) = mem_redis" "ae_lock_codec (chat_demo_env p) = mark_codec" "ae_attempts (chat_demo_env p) = attempts_table"
  "tc_dumps (ae_task_codec (chat_demo_env p)) d = ''task''" "ae_has_eval (chat_demo_env p)"
  by (simp_all add: chat_demo_env_def)

lemma chat_demo_calls [simp]:
  "rc_faults (af_acquire (chat_demo_run a q)) = a" "rc_times (af_acquire (chat_demo_run a q)) = (0, 1)" "\<not> rc_slow (af_acquire (chat_demo_run a q))"
  "served (fst (rc_faults (af_probe (chat_demo_run a q))))" "rc_times (af_probe (chat_demo_run a q)) = (2, 3)" "\<not> rc_slow (af_probe (chat_demo_run a q))"
  "rc_times (af_renew (chat_demo_run a q)) = (8, 9)" "rc_times (af_release (chat_demo_run a q)) = (10, 11)"
  "release_served env (fst (rc_faults (af_release (chat_demo_run a q))))" "af_enqueue (chat_demo_run a q) = q" "\<not> af_enqueue_slow (chat_demo_run a q)"
  "af_find (chat_demo_run a q) = Committed" "af_now (chat_demo_run a q) = epoch_now"
  by (simp_all add: chat_demo_run_def call_defs Let_def release_served_def)

definition chat_demo_task :: LockedChatTask where
  "chat_demo_task =
     \<lparr>bt_task_id = '' 0000000000000000000000000000000A '', bt_request_id = ''r-1'', bt_type = ''chat_completion'', bt_created_at = ''now'', bt_origin = ''api'',
      cc_user_id = ''u1'', cc_thread_id = 7, cc_turn_id = None, cc_latest_turn_message_id = None, cc_latest_turn_messages = None, cc_model = PNone,
      cc_provider = PNone, cc_temperature = None, cc_requested_model = PNone, cc_requested_provider = PNone, cc_selection_source = PNone,
      cc_provider_pinned = False, cc_reasoning_mode = PNone, cc_tools = None, cc_max_context = PNone, cc_depth_mode = PNone,
      cc_requested_source_mode = None, cc_system_override = PNone, cc_retrieval_override = None, cc_browser_context = None,
      cc_preferred_name = None, cc_profession = None, cc_guardian_name = None, cc_attempt_id = ''a'', cc_hosted_room_invocation = None,
      cc_persona_selection_snapshot = None, cc_accepted_at = PNone, cc_work_deadline_at = PNone, cc_terminal_deadline_at = PNone,
      ck_turn_lock_owner = [], ck_turn_lock = []\<rparr>"

definition chat_demo_world :: "(InMemoryRedis, ChatCompletionAttempt list, unit) acceptance_world" where
  "chat_demo_world = \<lparr>aw_redis = empty_redis, aw_db = [], aw_party = ()\<rparr>"

definition chat_demo_id :: string where "chat_demo_id = ''00000000-0000-0000-0000-00000000000a''"

lemma chat_demo_identity: "normalize_task_identity (bt_task_id chat_demo_task) = Some chat_demo_id"
  by code_simp

lemma chat_demo_plain:
  "fresh_tokens (chat_demo_run a q)" "valid_turn 7 ''turn-1''" "times_ordered (chat_demo_run (Served, Served) q)" "times_ordered (chat_demo_run sent_again q)"
  by (simp_all add: fresh_tokens_def chat_demo_run_def plain_id_def strip_def py_isspace_def valid_turn_def times_ordered_def sent_again_def
      call_defs Let_def)

lemma chat_demo_state:
  "list_invar at_request_id (aw_db chat_demo_world)" "rd_get mem_redis (aw_redis chat_demo_world) t k = None"
  "mem_list (aw_redis chat_demo_world) q = []"
  by (simp_all add: chat_demo_world_def list_invar_def mem_redis_def mem_get_def empty_redis_def purge_if_expired_def mem_list_def)

lemma chat_demo_reaches:
  "reaches_queue (chat_demo_env None) (chat_demo_run (Served, Served) q) chat_demo_task 7 ''turn-1'' None chat_demo_world chat_demo_id
     \<lparr>ps_profile_id = None, ps_profile_revision = None\<rparr> epoch_deadline"
proof -
  have "strip ''k'' \<noteq> []" by (simp add: strip_def py_isspace_def)
  moreover have "build_accepted_chat_task_deadline epoch_now = Inr epoch_deadline" by (simp add: epoch_now_def epoch_built)
  moreover have "\<exists>db. create_chat_completion_attempt attempts_table epoch_now
      \<lparr>ai_request_id = ''r-1'', ai_backend_task_id = chat_demo_id, ai_thread_id = 7, ai_turn_id = ''turn-1''\<rparr>
      (Some epoch_deadline) (Some ''k'') [] = Inr (db, ())"
    by (simp add: create_chat_completion_attempt_def attempts_table_def list_orm_def list_add_def attempt_constraint_def
      attempt_checks_def strip_def py_isspace_def)
  ultimately show ?thesis
    unfolding reaches_queue_def using chat_demo_identity epoch_inverted chat_demo_state(2)
    by (simp add: chat_demo_env_def chat_demo_run_def call_defs persona_snapshot_def chat_demo_world_def chat_demo_task_def)
qed

text \<open>The run in which everything is served, up to its result.\<close>

lemma chat_demo_accepted:
  "\<exists>w' x. enqueue_chat_completion (chat_demo_env None) (chat_demo_run (Served, Served) (Served, Served)) chat_demo_task 7 ''turn-1'' None
    chat_demo_world = (w', Inr x)"
proof -
  obtain task' l w1 where q: "enqueue_chat_completion (chat_demo_env None) (chat_demo_run (Served, Served) (Served, Served)) chat_demo_task 7
        ''turn-1'' None chat_demo_world =
      queue_attempt (chat_demo_env None) (chat_demo_run (Served, Served) (Served, Served)) 7 ''turn-1'' l False task' w1"
      "\<exists>d. chat_to_dict (ae_iso (chat_demo_env None)) (ChatCompletionTask.truncate task') = Inr d"
    by (rule chat_demo.at_queue [OF chat_demo_reaches chat_demo_state(1) chat_demo_plain(2,1,3)]) blast
  then show ?thesis
    by (auto simp: queue_attempt_def enqueue_def with_reconnect_def Let_def chat_demo_run_def split: prod.splits)
qed


theorem lock_outlives_deadline_witness:
  "\<exists>w' x. enqueue_chat_completion (chat_demo_env None) (chat_demo_run (Served, Served) (Served, Served)) chat_demo_task 7 ''turn-1'' None
      chat_demo_world = (w', Inr x) \<and>
    acquire_turn_lock mem_redis mark_codec None (demo_acquire ''t2'') (aw_redis w') 780000 = (aw_redis w', None)"
proof -
  obtain w' x where run: "enqueue_chat_completion (chat_demo_env None) (chat_demo_run (Served, Served) (Served, Served)) chat_demo_task 7
      ''turn-1'' None chat_demo_world = (w', Inr x)" using chat_demo_accepted by blast
  have "build_accepted_chat_task_deadline (af_now (chat_demo_run (Served, Served) (Served, Served))) = Inr epoch_deadline"
    by (simp add: chat_demo_run_def epoch_now_def epoch_built)
  from lock_outlives_deadline [OF chat_demo.acceptance_axioms chat_demo_state(1) chat_demo_plain(2,1,3) run this, of 780000 "demo_acquire ''t2''" None] run
  show ?thesis
    by (auto simp: chat_demo_run_def call_defs epoch_now_def instant_def epoch_deadline_def budget_defs chat_demo_env_def demo_facts)
qed

text \<open>The attempt of that run, and a later turn of the thread.\<close>

definition chat_demo_row :: ChatCompletionAttempt where
  "chat_demo_row =
     \<lparr>at_request_id = ''r-1'', at_backend_task_id = chat_demo_id, at_thread_id = 7, at_turn_id = ''turn-1'', at_completed_message_id = None,
      at_terminal_event_type = None, at_terminal_outcome = None, at_deadline_snapshot = Some (PDict (deadline_to_dict epoch_deadline)),
      at_turn_lock_token = Some ''k'', at_created_at = epoch_now, at_accepted_at = None, at_tool_turn_id = None, at_tool_command_id = None,
      at_tool_args_hash = None, at_tool_checkpoint_at = None\<rparr>"

lemma chat_demo_stored:
  "create_chat_completion_attempt attempts_table epoch_now
      \<lparr>ai_request_id = ''r-1'', ai_backend_task_id = chat_demo_id, ai_thread_id = 7, ai_turn_id = ''turn-1''\<rparr>
      (Some epoch_deadline) (Some ''k'') [] = Inr ([chat_demo_row], ())"
  "mark_chat_completion_attempt_accepted attempts_table epoch_now chat_demo_id [chat_demo_row] =
     Inr ([chat_demo_row\<lparr>at_accepted_at := Some epoch_now\<rparr>], ())"
  by (simp_all add: create_chat_completion_attempt_def attempts_table_def list_orm_def list_add_def attempt_constraint_def
      attempt_checks_def strip_def py_isspace_def chat_demo_row_def mark_chat_completion_attempt_accepted_def one_or_none_def
      commit_attempt_def list_select_def list_commit_def)

lemma chat_demo_settled:
  "\<exists>w' x. enqueue_chat_completion (chat_demo_env None) (chat_demo_run (Served, Served) (Served, Served)) chat_demo_task 7 ''turn-1'' None
    chat_demo_world = (w', Inr x) \<and> \<not> er_degraded x \<and> aw_db w' = [chat_demo_row\<lparr>at_accepted_at := Some epoch_now\<rparr>] \<and>
    er_task_id x = chat_demo_id \<and> bt_request_id (er_task x) = ''r-1''"
proof -
  let ?env = "chat_demo_env None" and ?r = "chat_demo_run (Served, Served) (Served, Served)"
  obtain task' l w1 where q: "enqueue_chat_completion ?env ?r chat_demo_task 7 ''turn-1'' None chat_demo_world = queue_attempt ?env ?r 7 ''turn-1'' l False task' w1"
      "chat_to_dict (ae_iso ?env) (ChatCompletionTask.truncate task') = Inr (queued_dict (queued_task chat_demo_task chat_demo_id None ''turn-1''
        \<lparr>ps_profile_id = None, ps_profile_revision = None\<rparr> epoch_deadline))"
      "bt_task_id task' = chat_demo_id" "bt_request_id task' = (case None of None \<Rightarrow> bt_request_id chat_demo_task | Some i \<Rightarrow> i)"
      "create_chat_completion_attempt (ae_attempts ?env) (af_create_now ?r)
        \<lparr>ai_request_id = (case None of None \<Rightarrow> bt_request_id chat_demo_task | Some i \<Rightarrow> i), ai_backend_task_id = chat_demo_id, ai_thread_id = 7, ai_turn_id = ''turn-1''\<rparr>
        (Some epoch_deadline) (Some (af_acquire_token ?r)) (aw_db chat_demo_world) = Inr (aw_db w1, ())"
    by (rule chat_demo.at_queue [OF chat_demo_reaches chat_demo_state(1) chat_demo_plain(2,1,3)])
  have w1: "aw_db w1 = [chat_demo_row]" "bt_request_id task' = ''r-1''"
    using q(4,5) chat_demo_stored(1) by (simp_all add: chat_demo_env_def chat_demo_run_def chat_demo_world_def chat_demo_task_def)
  let ?s = "mem_lpush CHAT_COMPLETION_QUEUE_NAME ''task'' (aw_redis w1)"
  obtain s2 eid where p: "publish_completion_start_event ?env ?r task' 7 ''turn-1'' ?s = (s2, Inr \<lparr>pr_ok = True, pr_task_id = Some chat_demo_id,
      pr_event_type = ''task.created'', pr_visibility_scope = classify_event_visibility ''task.created'',
      pr_terminal_visibility = (classify_event_visibility ''task.created'' = ''terminal''), pr_execution_continued = True, pr_event_id = Some eid,
      pr_error_code = None, pr_failure_class = None, pr_error = None, pr_exception = None\<rparr>)" "CHR ''-'' \<in> set eid"
    by (simp add: publish_completion_start_event_def publish_with_visibility_def publish_def with_reconnect_def chat_demo_env_def chat_demo_run_def
      mem_streams_def mem_xadd_def Let_def q(3))
  have "strip eid \<noteq> []" by (rule strip_not_blank [OF p(2)]) (simp add: py_isspace_def)
  then have "\<exists>x. finish_acceptance ?env ?r 7 ''turn-1'' task' (w1\<lparr>aw_redis := ?s\<rparr>) =
      (w1\<lparr>aw_redis := s2, aw_db := [chat_demo_row\<lparr>at_accepted_at := Some epoch_now\<rparr>]\<rparr>, x) \<and> \<not> er_degraded x \<and> er_task_id x = chat_demo_id \<and>
      bt_request_id (er_task x) = ''r-1''"
    using p(1) w1 q(3) chat_demo_stored(2)
    by (simp add: finish_acceptance_def db_call_def completion_acceptance_outcome_def task_created_event_result_def chat_demo_env_def chat_demo_run_def Let_def)
  then obtain x where "finish_acceptance ?env ?r 7 ''turn-1'' task' (w1\<lparr>aw_redis := ?s\<rparr>) =
      (w1\<lparr>aw_redis := s2, aw_db := [chat_demo_row\<lparr>at_accepted_at := Some epoch_now\<rparr>]\<rparr>, x)" "\<not> er_degraded x" "er_task_id x = chat_demo_id"
      "bt_request_id (er_task x) = ''r-1''" by blast
  moreover have "queue_attempt ?env ?r 7 ''turn-1'' l False task' w1 =
      (case finish_acceptance ?env ?r 7 ''turn-1'' task' (w1\<lparr>aw_redis := ?s\<rparr>) of (w', result) \<Rightarrow> (w', Inr result))"
    using q(2) by (simp add: queue_attempt_def enqueue_def with_reconnect_def Let_def serialize_task_def chat_demo_env_def chat_demo_run_def mem_lists_def)
  ultimately show ?thesis using q(1) by simp
qed

definition later_run :: acceptance_run where
  "later_run = (chat_demo_run (Served, Served) (Served, Served))\<lparr>af_acquire := at_once 790000, af_probe := at_once 790002,
     af_terminal := at_once 790004, af_reacquire := at_once 790006, af_renew := at_once 790008,
     af_release := release_at_once 790010, af_reconcile_now := \<lparr>wall = 780000000, utcoff = Some 0\<rparr>\<rparr>"


text \<open>A participant that raises when it is prepared.\<close>

definition raising_participant :: "unit participant" where
  "raising_participant = \<lparr>pt_prepare = \<lambda>_ p. (p, None), pt_commit = \<lambda>p. (p, True), pt_rollback = id\<rparr>"

lemma raising_refused:
  "\<exists>w'. enqueue_chat_completion (chat_demo_env (Some raising_participant)) (chat_demo_run (Served, Served) (Served, Served)) chat_demo_task 7
    ''turn-1'' None chat_demo_world = (w', Inl (EnqueueError ''acceptance_participant_prepare_failed'' (Some PrepareRaised)))"
proof -
  let ?env = "chat_demo_env (Some raising_participant)" and ?r = "chat_demo_run (Served, Served) (Served, Served)"
  let ?req = "lock_request 7 chat_demo_id ''turn-1'' epoch_now ''u'' ''k''"
  obtain s l where 1: "take_turn_lock ?env (af_acquire ?r) ?req empty_redis = (s, Inr (Some l))"
    by (auto simp: take_turn_lock_def run_with_redis_timeout_def attempt_at_def one_attempt_cases chat_demo.request_effect chat_demo_run_def call_defs
      chat_demo_env_def acquire_turn_lock_def rd_set_nx_def mem_redis_def mem_get_def empty_redis_def purge_if_expired_def Let_def)
  have "tl_owner_task_id l = chat_demo_id" "tl_lease_token l = ''k''" "mine_or_free mem_redis mark_codec 7 chat_demo_id ''k'' ''turn-1'' 1 s"
    using chat_demo.acquired [OF 1] chat_demo_plain task_identity_plain [OF chat_demo_identity]
    by (simp_all add: fresh_tokens_def chat_demo_run_def call_defs chat_demo_env_def)
  moreover have "releases ?env ?r" using times_orderedD(4) [OF chat_demo_plain(3)] by (simp add: releases_def)
  ultimately have "\<exists>s'. best_effort_release_turn_lock ?env ?r 7 l s = (s', False)"
    using chat_demo.released [where participant = "Some raising_participant" and r = ?r and thread = 7 and l = l and s = s]
      mine_or_free_later [of mem_redis mark_codec 7 chat_demo_id "''k''" "''turn-1''" 1 s 10] by fastforce
  then show ?thesis using 1 chat_demo_identity
    by (auto simp: enqueue_chat_completion_def hold_turn_lock_def accept_under_lock_def fail_acceptance_def Let_def chat_demo_world_def
      raising_participant_def chat_demo_env_def persona_snapshot_def chat_demo_run_def chat_demo_task_def)
qed


theorem free_turn_accepted_witness:
  "\<exists>w' x. enqueue_chat_completion (chat_demo_env None) (chat_demo_run (Served, Served) (Served, Served)) chat_demo_task 7 ''turn-1'' None
      chat_demo_world = (w', Inr x) \<and> mem_list (aw_redis w') CHAT_COMPLETION_QUEUE_NAME = [''task'']"
  using free_turn_accepted [OF chat_demo.acceptance_axioms chat_demo_state(1) chat_demo_plain(2,1,3) chat_demo_reaches, of "(Served, Served)"] chat_demo_state(3)
  by (simp add: served_def) blast

theorem refused_turn_is_queued_witness:
  "\<exists>w' c. enqueue_chat_completion (chat_demo_env None) (chat_demo_run (Served, Served) (ReplyLost, Refused)) chat_demo_task 7 ''turn-1'' None
      chat_demo_world = (w', Inl (EnqueueError ''queue_unavailable'' c)) \<and>
    mem_list (aw_redis w') CHAT_COMPLETION_QUEUE_NAME = [''task''] \<and> rd_get mem_redis (aw_redis w') 11 (turn_lock_key 7) = None"
  using refused_turn_is_queued [OF chat_demo.acceptance_axioms chat_demo_state(1) chat_demo_plain(2,1,3) chat_demo_reaches, of "(ReplyLost, Refused)"] chat_demo_state(3)
  by (fastforce simp: answers_def copies_def executions_def)

theorem lost_reply_locks_thread_witness:
  "\<exists>w' token. enqueue_chat_completion (chat_demo_env None) (chat_demo_run sent_again (Served, Served)) chat_demo_task 7 ''turn-1'' None
      chat_demo_world = (w', Inl (EnqueueError ''turn_in_flight'' None)) \<and>
    held_until mem_redis mark_codec 7 chat_demo_id token ''turn-1'' 1 840000 (aw_redis w')"
proof -
  have f: "answers sent_again" "2 \<le> copies sent_again" by (simp_all add: sent_again_def answers_def copies_def executions_def)
  show ?thesis
    using lost_reply_locks_thread [OF chat_demo.acceptance_axioms chat_demo_state(1) chat_demo_plain(2,1,4) chat_demo_identity,
        of None "(Served, Served)" None] chat_demo_state(2) f
    by (fastforce simp: chat_demo_task_def chat_demo_world_def attempts_table_rows)
qed

end
